(* ===== verification/Prelude.thy ===== *)
theory Prelude
  imports Complex_Main "HOL-Library.Char_ord" "HOL-Library.List_Lexorder" "HOL-Library.AList"
    "HOL-Library.Sublist"
begin

text \<open>
  The vocabulary that every component theory shares: Python's string methods, decimal
  printing, dictionaries in insertion order, and results that may be an exception.

  Text is a HOL \<open>string\<close>, and a \<open>char\<close> stands for a Unicode code point below 256. Case
  mapping is on ASCII letters. A dictionary is an association list in insertion order:
  \<open>map_of\<close> is \<open>d.get(k)\<close> and \<open>AList.update\<close> is \<open>d[k] = v\<close> (it keeps the position of a key
  that is already there and appends a new one, as Python's dictionaries do).
  An operation that may raise returns a sum: \<open>Inl\<close> the exception, \<open>Inr\<close> the value.
\<close>

named_theorems result_simps \<open>equations and cases of results that may be exceptions\<close>
named_theorems text_simps \<open>facts about the string operations\<close>

type_synonym 'a dict = "(string \<times> 'a) list"

section \<open>Characters\<close>

definition code :: "char \<Rightarrow> nat" where
  "code c = of_char c"

definition is_digit :: "char \<Rightarrow> bool" where
  "is_digit c \<longleftrightarrow> 48 \<le> code c \<and> code c \<le> 57"

definition is_lower :: "char \<Rightarrow> bool" where
  "is_lower c \<longleftrightarrow> 97 \<le> code c \<and> code c \<le> 122"

definition is_upper :: "char \<Rightarrow> bool" where
  "is_upper c \<longleftrightarrow> 65 \<le> code c \<and> code c \<le> 90"

definition is_alnum :: "char \<Rightarrow> bool" where
  "is_alnum c \<longleftrightarrow> is_digit c \<or> is_lower c \<or> is_upper c"

text \<open>\<open>str.isspace\<close> on the code points below 256.\<close>

definition is_space :: "char \<Rightarrow> bool" where
  "is_space c \<longleftrightarrow> code c \<in> {9, 10, 11, 12, 13, 28, 29, 30, 31, 32, 133, 160}"

definition newline :: char where
  "newline = CHR 0x0A"

definition to_lower :: "char \<Rightarrow> char" where
  "to_lower c = (if is_upper c then char_of (code c + 32) else c)"

definition to_upper :: "char \<Rightarrow> char" where
  "to_upper c = (if is_lower c then char_of (code c - 32) else c)"

definition lower :: "string \<Rightarrow> string" where
  "lower s = map to_lower s"

definition upper :: "string \<Rightarrow> string" where
  "upper s = map to_upper s"

lemma code_char_of [simp]: "n < 256 \<Longrightarrow> code (char_of n) = n"
  by (simp add: code_def)

lemma code_Char [simp]:
  "code (Char b0 b1 b2 b3 b4 b5 b6 b7) = of_char (Char b0 b1 b2 b3 b4 b5 b6 b7)"
  by (simp add: code_def)

lemma code_eq_iff: "code a = code b \<longleftrightarrow> a = b"
  by (simp add: code_def)

section \<open>Decimal numbers\<close>

definition digit_char :: "nat \<Rightarrow> char" where
  "digit_char d = char_of (48 + d)"

fun str_of_nat :: "nat \<Rightarrow> string" where
  "str_of_nat n = (if n < 10 then [digit_char n] else str_of_nat (n div 10) @ [digit_char (n mod 10)])"

declare str_of_nat.simps [simp del]

definition str_of_int :: "int \<Rightarrow> string" where
  "str_of_int i = (if i < 0 then CHR ''-'' # str_of_nat (nat (- i)) else str_of_nat (nat i))"

definition digit_val :: "char \<Rightarrow> nat" where
  "digit_val c = code c - 48"

text \<open>\<open>int(s)\<close> of a string of digits.\<close>

definition nat_of_str :: "string \<Rightarrow> nat" where
  "nat_of_str s = foldl (\<lambda>n c. 10 * n + digit_val c) 0 s"

text \<open>\<open>f"{n:0w}"\<close>: zero padding on the left to width \<open>w\<close>.\<close>

definition zfill :: "nat \<Rightarrow> nat \<Rightarrow> string" where
  "zfill w n = replicate (w - length (str_of_nat n)) (CHR ''0'') @ str_of_nat n"

lemma is_digit_digit_char [simp]: "d < 10 \<Longrightarrow> is_digit (digit_char d)"
  by (simp add: is_digit_def digit_char_def)

lemma digit_val_digit_char [simp]: "d < 10 \<Longrightarrow> digit_val (digit_char d) = d"
  by (simp add: digit_val_def digit_char_def)

lemma str_of_nat_not_Nil [simp]: "str_of_nat n \<noteq> []"
  by (subst str_of_nat.simps) simp

lemma length_str_of_nat_pos [simp]: "0 < length (str_of_nat n)"
  by simp

lemma str_of_nat_digits: "c \<in> set (str_of_nat n) \<Longrightarrow> is_digit c"
proof (induction n rule: str_of_nat.induct)
  case (1 n)
  then show ?case
    by (cases "n < 10") (auto simp: str_of_nat.simps [of n])
qed

lemma nat_of_str_snoc [simp]: "nat_of_str (s @ [c]) = 10 * nat_of_str s + digit_val c"
  by (simp add: nat_of_str_def)

lemma nat_of_str_of_nat [simp, text_simps]: "nat_of_str (str_of_nat n) = n"
proof (induction n rule: str_of_nat.induct)
  case (1 n)
  show ?case
  proof (cases "n < 10")
    case True
    then show ?thesis
      by (simp add: str_of_nat.simps [of n] nat_of_str_def)
  next
    case False
    with 1 show ?thesis
      by (simp add: str_of_nat.simps [of n])
  qed
qed

lemma str_of_nat_inject [simp]: "str_of_nat m = str_of_nat n \<longleftrightarrow> m = n"
  by (metis nat_of_str_of_nat)

lemma length_str_of_nat: "n < 10 ^ w \<Longrightarrow> 0 < w \<Longrightarrow> length (str_of_nat n) \<le> w"
proof (induction n arbitrary: w rule: str_of_nat.induct)
  case (1 n)
  show ?case
  proof (cases "n < 10")
    case True
    with 1 show ?thesis by (simp add: str_of_nat.simps [of n])
  next
    case False
    obtain v where w: "w = Suc v"
      using "1.prems"(2) by (cases w) auto
    then have v: "w = Suc v" "0 < v"
      using False "1.prems"(1) by (cases v; simp)+
    with 1 False have "length (str_of_nat (n div 10)) \<le> v"
      by (intro "1.IH") (auto simp: div_less_iff_less_mult mult.commute)
    with False v show ?thesis by (simp add: str_of_nat.simps [of n])
  qed
qed

lemma length_zfill: "n < 10 ^ w \<Longrightarrow> 0 < w \<Longrightarrow> length (zfill w n) = w"
  using length_str_of_nat [of n w] by (simp add: zfill_def)

lemma zfill_digits: "c \<in> set (zfill w n) \<Longrightarrow> is_digit c"
  by (auto simp: zfill_def is_digit_def code_def dest: str_of_nat_digits split: if_splits)

section \<open>String methods\<close>

text \<open>\<open>s.strip()\<close>, \<open>s.lstrip()\<close>, \<open>s.rstrip()\<close> with the characters to strip given by a test.\<close>

definition lstrip_if :: "(char \<Rightarrow> bool) \<Rightarrow> string \<Rightarrow> string" where
  "lstrip_if p s = dropWhile p s"

definition rstrip_if :: "(char \<Rightarrow> bool) \<Rightarrow> string \<Rightarrow> string" where
  "rstrip_if p s = rev (dropWhile p (rev s))"

definition strip_if :: "(char \<Rightarrow> bool) \<Rightarrow> string \<Rightarrow> string" where
  "strip_if p s = rstrip_if p (lstrip_if p s)"

definition strip :: "string \<Rightarrow> string" where
  "strip s = strip_if is_space s"

text \<open>\<open>sep.join(parts)\<close>.\<close>

fun join :: "string \<Rightarrow> string list \<Rightarrow> string" where
  "join sep [] = []"
| "join sep [x] = x"
| "join sep (x # y # ys) = x @ sep @ join sep (y # ys)"

text \<open>\<open>s.split(c)\<close> for a one-character separator.\<close>

fun split_on :: "char \<Rightarrow> string \<Rightarrow> string list" where
  "split_on c [] = [[]]"
| "split_on c (x # xs) =
     (if x = c then [] # split_on c xs
      else case split_on c xs of [] \<Rightarrow> [[x]] | p # ps \<Rightarrow> (x # p) # ps)"

text \<open>\<open>s.split()\<close>: runs of white space separate, and no empty word is returned.\<close>

fun words_acc :: "string \<Rightarrow> string \<Rightarrow> string list" where
  "words_acc w [] = (if w = [] then [] else [w])"
| "words_acc w (x # xs) =
     (if is_space x then (if w = [] then words_acc [] xs else w # words_acc [] xs)
      else words_acc (w @ [x]) xs)"

definition split_ws :: "string \<Rightarrow> string list" where
  "split_ws s = words_acc [] s"

text \<open>\<open>s.splitlines()\<close>: a carriage return and the line feed after it are one line break. The flag
  says that the last character was a carriage return.\<close>

definition is_linebreak :: "char \<Rightarrow> bool" where
  "is_linebreak c \<longleftrightarrow> code c \<in> {10, 11, 12, 13, 28, 29, 30, 133}"

fun lines_acc :: "bool \<Rightarrow> string \<Rightarrow> string \<Rightarrow> string list" where
  "lines_acc cr w [] = (if w = [] then [] else [w])"
| "lines_acc cr w (c # s) =
     (if cr \<and> c = newline then lines_acc False w s
      else if is_linebreak c then w # lines_acc (c = CHR 0x0D) [] s
      else lines_acc False (w @ [c]) s)"

definition splitlines :: "string \<Rightarrow> string list" where
  "splitlines s = lines_acc False [] s"

text \<open>\<open>s.partition(c)\<close> and \<open>s.rpartition(c)\<close>: \<open>None\<close> where the separator does not occur.\<close>

definition partition1 :: "char \<Rightarrow> string \<Rightarrow> (string \<times> string) option" where
  "partition1 c s =
     (if c \<in> set s then Some (takeWhile (\<lambda>x. x \<noteq> c) s, tl (dropWhile (\<lambda>x. x \<noteq> c) s)) else None)"

definition rpartition1 :: "char \<Rightarrow> string \<Rightarrow> (string \<times> string) option" where
  "rpartition1 c s =
     (case partition1 c (rev s) of None \<Rightarrow> None | Some (b, a) \<Rightarrow> Some (rev a, rev b))"

text \<open>\<open>s.rsplit(c, 1)[0]\<close>.\<close>

definition rsplit1_head :: "char \<Rightarrow> string \<Rightarrow> string" where
  "rsplit1_head c s = (case rpartition1 c s of None \<Rightarrow> s | Some (a, _) \<Rightarrow> a)"

text \<open>\<open>s.removeprefix(p)\<close> and \<open>s.removesuffix(p)\<close>.\<close>

definition removeprefix :: "string \<Rightarrow> string \<Rightarrow> string" where
  "removeprefix p s = (if prefix p s then drop (length p) s else s)"

definition removesuffix :: "string \<Rightarrow> string \<Rightarrow> string" where
  "removesuffix p s = (if suffix p s then take (length s - length p) s else s)"

text \<open>\<open>s.replace(old, new)\<close> for a non-empty \<open>old\<close>: left to right, without overlaps. The
  counter is the number of characters of a match that are still to be skipped.\<close>

fun replace_skip :: "string \<Rightarrow> string \<Rightarrow> nat \<Rightarrow> string \<Rightarrow> string" where
  "replace_skip old new k [] = []"
| "replace_skip old new (Suc k) (x # xs) = replace_skip old new k xs"
| "replace_skip old new 0 (x # xs) =
     (if prefix old (x # xs) then new @ replace_skip old new (length old - 1) xs
      else x # replace_skip old new 0 xs)"

definition replace :: "string \<Rightarrow> string \<Rightarrow> string \<Rightarrow> string" where
  "replace old new s = replace_skip old new 0 s"

text \<open>The plural \<open>s\<close> of the reports: \<open>'s' if n != 1 else ''\<close>.\<close>

definition plural :: "nat \<Rightarrow> string" where
  "plural n = (if n \<noteq> 1 then ''s'' else [])"

text \<open>\<open>xs[:n]\<close> and \<open>xs[-n:]\<close> for \<open>n > 0\<close>.\<close>

abbreviation first_n :: "nat \<Rightarrow> 'a list \<Rightarrow> 'a list" where
  "first_n \<equiv> take"

definition last_n :: "nat \<Rightarrow> 'a list \<Rightarrow> 'a list" where
  "last_n n xs = drop (length xs - n) xs"

subsection \<open>Facts about them\<close>

lemma split_on_not_Nil [simp]: "split_on c s \<noteq> []"
  by (induction s) (auto split: list.splits)

lemma join_Cons: "ys \<noteq> [] \<Longrightarrow> join sep (x # ys) = x @ sep @ join sep ys"
  by (cases ys) auto

lemma join_Cons_char: "join sep ((x # p) # ps) = x # join sep (p # ps)"
  by (cases ps) auto

lemma join_split_on [simp, text_simps]: "join [c] (split_on c s) = s"
proof (induction s)
  case (Cons x s)
  show ?case
  proof (cases "x = c")
    case True
    with Cons show ?thesis by (simp add: join_Cons)
  next
    case False
    then show ?thesis
      using Cons by (cases "split_on c s") (auto simp: join_Cons_char)
  qed
qed simp

lemma split_on_no_sep: "p \<in> set (split_on c s) \<Longrightarrow> c \<notin> set p"
proof (induction s arbitrary: p)
  case (Cons x s)
  then show ?case
    by (cases "split_on c s") (auto split: if_splits)
qed auto

lemma split_on_chars: "p \<in> set (split_on c s) \<Longrightarrow> set p \<subseteq> set s"
proof (induction s arbitrary: p)
  case (Cons x s)
  then show ?case
    by (cases "split_on c s") (fastforce split: if_splits)+
qed auto

lemma split_on_id: "c \<notin> set s \<Longrightarrow> split_on c s = [s]"
  by (induction s) auto

lemma split_on_append: "c \<notin> set a \<Longrightarrow> split_on c (a @ c # b) = a # split_on c b"
  by (induction a) auto

lemma split_on_join: "xs \<noteq> [] \<Longrightarrow> (\<And>x. x \<in> set xs \<Longrightarrow> c \<notin> set x) \<Longrightarrow> split_on c (join [c] xs) = xs"
proof (induction xs)
  case (Cons x xs)
  then show ?case
    by (cases xs) (simp_all add: split_on_id split_on_append)
qed simp

lemma set_join: "set (join sep xs) \<subseteq> set sep \<union> (\<Union>x\<in>set xs. set x)"
  by (induction sep xs rule: join.induct) auto

lemma partition1_append: "c \<notin> set a \<Longrightarrow> partition1 c (a @ c # b) = Some (a, b)"
  by (induction a) (auto simp: partition1_def)

lemma partition1_Some: "partition1 c s = Some (a, b) \<longleftrightarrow> s = a @ c # b \<and> c \<notin> set a"
proof
  assume some: "partition1 c s = Some (a, b)"
  then have "c \<in> set s"
    by (simp add: partition1_def split: if_splits)
  then obtain a' b' where "s = a' @ c # b'" "c \<notin> set a'"
    by (meson split_list_first)
  with some show "s = a @ c # b \<and> c \<notin> set a"
    by (simp add: partition1_append)
qed (simp add: partition1_append)

lemma partition1_None: "partition1 c s = None \<longleftrightarrow> c \<notin> set s"
  by (simp add: partition1_def)

lemma rpartition1_Some: "rpartition1 c s = Some (a, b) \<longleftrightarrow> s = a @ c # b \<and> c \<notin> set b"
proof -
  have "rpartition1 c s = Some (a, b) \<longleftrightarrow> partition1 c (rev s) = Some (rev b, rev a)"
    by (auto simp: rpartition1_def split: option.splits)
  also have "\<dots> \<longleftrightarrow> rev s = rev b @ c # rev a \<and> c \<notin> set b"
    by (simp add: partition1_Some)
  also have "\<dots> \<longleftrightarrow> s = a @ c # b \<and> c \<notin> set b"
    by (metis append.assoc append_Cons append_Nil rev.simps(2) rev_append rev_rev_ident)
  finally show ?thesis .
qed

lemma rpartition1_None: "rpartition1 c s = None \<longleftrightarrow> c \<notin> set s"
  by (simp add: rpartition1_def partition1_def)

lemma words_acc_no_space:
  "x \<in> set (words_acc w s) \<Longrightarrow> list_all (\<lambda>c. \<not> is_space c) w \<Longrightarrow>
     x \<noteq> [] \<and> list_all (\<lambda>c. \<not> is_space c) x"
proof (induction s arbitrary: w)
  case Nil
  then show ?case by (simp split: if_splits)
next
  case (Cons y s)
  show ?case
  proof (cases "is_space y")
    case True
    with Cons.prems have "x = w \<and> w \<noteq> [] \<or> x \<in> set (words_acc [] s)"
      by (simp split: if_splits)
    then show ?thesis using Cons.IH [of "[]"] Cons.prems(2) by (auto simp: list_all_iff)
  next
    case False
    with Cons.prems have "x \<in> set (words_acc (w @ [y]) s)" and "list_all (\<lambda>c. \<not> is_space c) (w @ [y])"
      by simp_all
    then show ?thesis by (rule Cons.IH)
  qed
qed

lemma split_ws_no_space: "x \<in> set (split_ws s) \<Longrightarrow> x \<noteq> [] \<and> list_all (\<lambda>c. \<not> is_space c) x"
  using words_acc_no_space [of x "[]" s] by (simp add: split_ws_def list_all_iff)

lemma words_acc_word:
  "list_all (\<lambda>c. \<not> is_space c) x \<Longrightarrow> words_acc w (x @ s) = words_acc (w @ x) s"
  by (induction x arbitrary: w) auto

text \<open>A word, a space and a word are two words again.\<close>

lemma split_ws_pair:
  assumes "list_all (\<lambda>c. \<not> is_space c) a" and "a \<noteq> []"
    and "list_all (\<lambda>c. \<not> is_space c) b" and "b \<noteq> []"
  shows "split_ws (a @ CHR '' '' # b) = [a, b]"
proof -
  have "words_acc [] (b @ []) = words_acc ([] @ b) []"
    using assms by (intro words_acc_word)
  then show ?thesis
    using assms by (simp add: split_ws_def words_acc_word is_space_def)
qed

lemma replace_id: "\<not> sublist old s \<Longrightarrow> replace old new s = s"
  unfolding replace_def
  by (induction s) (simp_all add: sublist_Cons_right)

lemma replace_skip_drop: "replace_skip old new k s = replace_skip old new 0 (drop k s)"
  by (induction old new k s rule: replace_skip.induct) auto

lemma replace_skip_prefix:
  assumes "old \<noteq> []"
  shows "replace old new (old @ s) = new @ replace old new s"
proof (cases old)
  case (Cons x xs)
  then show ?thesis
    unfolding replace_def
    by (simp add: replace_skip_drop [of _ _ "length xs"])
qed (use assms in simp)

lemma sublist_join: "x \<in> set xs \<Longrightarrow> sublist x (join sep xs)"
proof (induction sep xs rule: join.induct)
  case (3 sep a b xs)
  then consider "x = a" | "sublist x (join sep (b # xs))" by auto
  then show ?case
  proof cases
    case 2
    then have "sublist x ((a @ sep) @ join sep (b # xs))"
      using sublist_append_leftI sublist_order.order_trans by blast
    then show ?thesis by simp
  qed simp
qed auto

lemma sublist_line:
  assumes "sublist c l" and "l \<in> set ls"
  shows "sublist c (join sep ls)"
  using assms sublist_join [of l ls sep] sublist_order.order_trans by blast

section \<open>Numbers as the reports print them\<close>

text \<open>A float is an exact rational here. \<open>round_half_even\<close> is Python's rounding to an integer,
  \<open>fixed0\<close> the format \<open>:.0f\<close>, and \<open>fixed1\<close> the text of \<open>round(x, 1)\<close>, which is also the format
  \<open>:.1f\<close>.\<close>

definition round_half_even :: "rat \<Rightarrow> int" where
  "round_half_even r =
     (let f = \<lfloor>r\<rfloor>; d = r - of_int f
      in if d < 1 / 2 then f else if 1 / 2 < d then f + 1 else if even f then f else f + 1)"

definition fixed0 :: "rat \<Rightarrow> string" where
  "fixed0 r = (if r < 0 then CHR ''-'' # str_of_int (round_half_even (- r)) else str_of_int (round_half_even r))"

definition fixed1_abs :: "rat \<Rightarrow> string" where
  "fixed1_abs r = (let n = round_half_even (10 * r) in str_of_int (n div 10) @ ''.'' @ str_of_int (n mod 10))"

definition fixed1 :: "rat \<Rightarrow> string" where
  "fixed1 r = (if r < 0 then CHR ''-'' # fixed1_abs (- r) else fixed1_abs r)"

lemma round_half_even_near: "\<bar>of_int (round_half_even r) - r\<bar> \<le> 1 / 2"
  unfolding round_half_even_def Let_def
  by (auto simp: abs_if) linarith+

lemma round_half_even_of_int [simp]: "round_half_even (of_int i) = i"
  by (simp add: round_half_even_def)

section \<open>Base 64\<close>

definition b64_char :: "nat \<Rightarrow> char" where
  "b64_char n = char_of
     (if n < 26 then 65 + n else if n < 52 then 71 + n else if n < 62 then n - 4 else if n = 62 then 43 else 47)"

text \<open>\<open>base64.b64encode\<close> of bytes.\<close>

fun base64 :: "string \<Rightarrow> string" where
  "base64 [] = []"
| "base64 [a] = [b64_char (code a div 4), b64_char (code a mod 4 * 16), CHR ''='', CHR ''='']"
| "base64 [a, b] =
     [b64_char (code a div 4), b64_char (code a mod 4 * 16 + code b div 16),
      b64_char (code b mod 16 * 4), CHR ''='']"
| "base64 (a # b # c # s) =
     b64_char (code a div 4) # b64_char (code a mod 4 * 16 + code b div 16) #
     b64_char (code b mod 16 * 4 + code c div 64) # b64_char (code c mod 64) # base64 s"

section \<open>Lists\<close>

text \<open>Python's \<open>sorted(set(xs))\<close>: the distinct elements in order.\<close>

definition sorted_set :: "('a::linorder) list \<Rightarrow> 'a list" where
  "sorted_set xs = sort (remdups xs)"

lemma set_sorted_set [simp]: "set (sorted_set xs) = set xs"
  by (simp add: sorted_set_def)

lemma sorted_sorted_set [simp]: "sorted (sorted_set xs)"
  by (simp add: sorted_set_def)

lemma distinct_sorted_set [simp]: "distinct (sorted_set xs)"
  by (simp add: sorted_set_def)

lemma sorted_set_eqI: "set xs = set ys \<Longrightarrow> sorted ys \<Longrightarrow> distinct ys \<Longrightarrow> sorted_set xs = ys"
  by (rule sorted_distinct_set_unique) simp_all

text \<open>\<open>next((x for x in xs if p(x)), None)\<close> is \<open>find p xs\<close>.\<close>

lemma find_Some_in: "find p xs = Some x \<Longrightarrow> x \<in> set xs \<and> p x"
  by (induction xs) (auto split: if_splits)

lemma find_None_iff': "find p xs = None \<longleftrightarrow> (\<forall>x\<in>set xs. \<not> p x)"
  by (induction xs) auto

section \<open>Dictionaries\<close>

abbreviation keys :: "('k \<times> 'v) list \<Rightarrow> 'k list" where
  "keys d \<equiv> map fst d"

definition get_or :: "'v \<Rightarrow> 'k \<Rightarrow> ('k \<times> 'v) list \<Rightarrow> 'v" where
  "get_or v k d = (case map_of d k of None \<Rightarrow> v | Some x \<Rightarrow> x)"

lemma map_of_update [simp]: "map_of (AList.update k v d) k' = (if k' = k then Some v else map_of d k')"
  by (simp add: update_conv)

lemma set_keys_update [simp]: "fst ` set (AList.update k v d) = insert k (fst ` set d)"
  by (simp add: dom_update)

lemma update_same [simp]: "AList.update k v (AList.update k u d) = AList.update k v d"
  by (induction d) auto

lemma update_id: "map_of d k = Some v \<Longrightarrow> AList.update k v d = d"
  by (induction d) (auto split: if_splits)

text \<open>\<open>d.update(e)\<close> for a dictionary \<open>e\<close>, key by key in \<open>e\<close>'s order.\<close>

definition dict_update :: "('k \<times> 'v) list \<Rightarrow> ('k \<times> 'v) list \<Rightarrow> ('k \<times> 'v) list" where
  "dict_update d e = fold (\<lambda>(k, v). AList.update k v) e d"

lemma map_of_fold_update:
  "distinct (keys e) \<Longrightarrow>
     map_of (fold (\<lambda>(k, v). AList.update k v) e d) k =
       (case map_of e k of None \<Rightarrow> map_of d k | Some v \<Rightarrow> Some v)"
  by (induction e arbitrary: d) (auto split: option.splits simp: image_iff dest: map_of_SomeD)

lemma map_of_dict_update:
  "distinct (keys e) \<Longrightarrow>
     map_of (dict_update d e) k = (case map_of e k of None \<Rightarrow> map_of d k | Some v \<Rightarrow> Some v)"
  by (simp add: dict_update_def map_of_fold_update)

lemma not_Some_pair [simp]: "(\<forall>a b. x \<noteq> Some (a, b)) \<longleftrightarrow> x = None"
  by (cases x) auto

lemma keys_fold_update: "set (keys (fold (\<lambda>(k, v). AList.update k v) kvs d)) = set (keys d) \<union> fst ` set kvs"
  by (induction kvs arbitrary: d) (simp_all add: AList.dom_update split_beta)

lemma keys_dict_update: "set (keys (dict_update d e)) = set (keys d) \<union> set (keys e)"
  using keys_fold_update [of e d] by (simp add: dict_update_def)

lemma dict_update_id: "(\<And>k v. (k, v) \<in> set e \<Longrightarrow> map_of d k = Some v) \<Longrightarrow> dict_update d e = d"
proof -
  have "(\<forall>(k, v)\<in>set e. map_of d k = Some v) \<Longrightarrow> fold (\<lambda>(k, v). AList.update k v) e d = d"
    by (induction e) (auto simp: update_id)
  then show "(\<And>k v. (k, v) \<in> set e \<Longrightarrow> map_of d k = Some v) \<Longrightarrow> dict_update d e = d"
    by (auto simp: dict_update_def)
qed

section \<open>Results\<close>

text \<open>Sequencing of computations that may raise: the first exception ends the rest.\<close>

definition bindR :: "'e + 'a \<Rightarrow> ('a \<Rightarrow> 'e + 'b) \<Rightarrow> 'e + 'b" where
  "bindR m f = (case m of Inl e \<Rightarrow> Inl e | Inr x \<Rightarrow> f x)"

lemma bindR_simps [simp, result_simps]:
  "bindR (Inl e) f = Inl e" "bindR (Inr x) f = f x"
  by (simp_all add: bindR_def)

lemma bindR_Inr [result_simps]: "bindR m f = Inr y \<longleftrightarrow> (\<exists>x. m = Inr x \<and> f x = Inr y)"
  by (cases m) auto

lemma bindR_Inl [result_simps]:
  "bindR m f = Inl e \<longleftrightarrow> m = Inl e \<or> (\<exists>x. m = Inr x \<and> f x = Inl e)"
  by (cases m) auto

fun mapR :: "('a \<Rightarrow> 'e + 'b) \<Rightarrow> 'a list \<Rightarrow> 'e + 'b list" where
  "mapR f [] = Inr []"
| "mapR f (x # xs) = bindR (f x) (\<lambda>y. bindR (mapR f xs) (\<lambda>ys. Inr (y # ys)))"

lemma mapR_Inr: "mapR f xs = Inr ys \<longleftrightarrow> list_all2 (\<lambda>x y. f x = Inr y) xs ys"
  by (induction xs arbitrary: ys) (auto simp: bindR_Inr list_all2_Cons1)

end
