(* ===== verification/Json.thy ===== *)
theory Json
  imports Prelude
begin

text \<open>
  JSON values as \<open>json.loads\<close> and \<open>yaml.safe_load\<close> return them, with Python's truth value,
  \<open>repr\<close> and \<open>str\<close> of them. An object keeps its keys in order. A float is kept as the text
  that \<open>repr\<close> prints for it, so that reading and printing it loses nothing.
\<close>

datatype json =
    JNull
  | JBool bool
  | JInt int
  | JFloat string
  | JStr string
  | JList "json list"
  | JObj "(string \<times> json) list"

definition truthy :: "json \<Rightarrow> bool" where
  "truthy j = (case j of
      JNull \<Rightarrow> False
    | JBool b \<Rightarrow> b
    | JInt i \<Rightarrow> i \<noteq> 0
    | JFloat r \<Rightarrow> r \<noteq> ''0.0'' \<and> r \<noteq> ''-0.0''
    | JStr s \<Rightarrow> s \<noteq> []
    | JList l \<Rightarrow> l \<noteq> []
    | JObj d \<Rightarrow> d \<noteq> [])"

text \<open>\<open>d.get(k)\<close>, which is \<open>None\<close> for a key that is not there.\<close>

definition jget :: "string \<Rightarrow> json dict \<Rightarrow> json" where
  "jget k d = get_or JNull k d"

text \<open>\<open>d.get(k) or {}\<close> on a value that is an object or falsy.\<close>

definition sub_obj :: "string \<Rightarrow> json dict \<Rightarrow> json dict" where
  "sub_obj k d = (case jget k d of JObj e \<Rightarrow> e | _ \<Rightarrow> [])"

definition is_str :: "json \<Rightarrow> bool" where
  "is_str j = (case j of JStr _ \<Rightarrow> True | _ \<Rightarrow> False)"

definition str_of :: "json \<Rightarrow> string" where
  "str_of j = (case j of JStr s \<Rightarrow> s | _ \<Rightarrow> [])"

section \<open>repr and str\<close>

definition hex_digit :: "nat \<Rightarrow> char" where
  "hex_digit d = (if d < 10 then char_of (48 + d) else char_of (87 + d))"

definition quote_char :: "string \<Rightarrow> char" where
  "quote_char s = (if CHR 0x27 \<in> set s \<and> CHR 0x22 \<notin> set s then CHR 0x22 else CHR 0x27)"

definition repr_char :: "char \<Rightarrow> char \<Rightarrow> string" where
  "repr_char q c =
     (if c = q \<or> c = CHR 0x5C then [CHR 0x5C, c]
      else if c = CHR 0x0A then [CHR 0x5C, CHR ''n'']
      else if c = CHR 0x0D then [CHR 0x5C, CHR ''r'']
      else if c = CHR 0x09 then [CHR 0x5C, CHR ''t'']
      else if code c < 32 \<or> 127 \<le> code c \<and> code c \<le> 160 \<or> code c = 173
        then [CHR 0x5C, CHR ''x'', hex_digit (code c div 16), hex_digit (code c mod 16)]
      else [c])"

definition repr_str :: "string \<Rightarrow> string" where
  "repr_str s = quote_char s # concat (map (repr_char (quote_char s)) s) @ [quote_char s]"

fun repr :: "json \<Rightarrow> string" where
  "repr JNull = ''None''"
| "repr (JBool b) = (if b then ''True'' else ''False'')"
| "repr (JInt i) = str_of_int i"
| "repr (JFloat r) = r"
| "repr (JStr s) = repr_str s"
| "repr (JList l) = ''['' @ join '', '' (map repr l) @ '']''"
| "repr (JObj d) = ''{'' @ join '', '' (map (\<lambda>(k, v). repr_str k @ '': '' @ repr v) d) @ ''}''"

definition py_str :: "json \<Rightarrow> string" where
  "py_str j = (case j of JStr s \<Rightarrow> s | _ \<Rightarrow> repr j)"

section \<open>json.dumps\<close>

text \<open>\<open>json.dumps(v)\<close> with its defaults: ASCII only, separators \<open>", "\<close> and \<open>": "\<close>.\<close>

definition dumps_char :: "char \<Rightarrow> string" where
  "dumps_char c =
     (if c = CHR 0x22 \<or> c = CHR 0x5C then [CHR 0x5C, c]
      else if c = CHR 0x0A then [CHR 0x5C, CHR ''n'']
      else if c = CHR 0x0D then [CHR 0x5C, CHR ''r'']
      else if c = CHR 0x09 then [CHR 0x5C, CHR ''t'']
      else if c = CHR 0x08 then [CHR 0x5C, CHR ''b'']
      else if c = CHR 0x0C then [CHR 0x5C, CHR ''f'']
      else if code c < 32 \<or> 126 < code c
        then [CHR 0x5C] @ ''u00'' @ [hex_digit (code c div 16), hex_digit (code c mod 16)]
      else [c])"

definition dumps_str :: "string \<Rightarrow> string" where
  "dumps_str s = CHR 0x22 # concat (map dumps_char s) @ [CHR 0x22]"

fun dumps :: "json \<Rightarrow> string" where
  "dumps JNull = ''null''"
| "dumps (JBool b) = (if b then ''true'' else ''false'')"
| "dumps (JInt i) = str_of_int i"
| "dumps (JFloat r) = r"
| "dumps (JStr s) = dumps_str s"
| "dumps (JList l) = ''['' @ join '', '' (map dumps l) @ '']''"
| "dumps (JObj d) = ''{'' @ join '', '' (map (\<lambda>(k, v). dumps_str k @ '': '' @ dumps v) d) @ ''}''"

lemma py_str_JStr [simp, text_simps]: "py_str (JStr s) = s"
  by (simp add: py_str_def)

lemma truthy_simps [simp]:
  "\<not> truthy JNull"
  "truthy (JBool b) = b"
  "truthy (JInt i) = (i \<noteq> 0)"
  "truthy (JStr s) = (s \<noteq> [])"
  "truthy (JList l) = (l \<noteq> [])"
  "truthy (JObj d) = (d \<noteq> [])"
  by (simp_all add: truthy_def)

lemma jget_simps [simp]:
  "jget k [] = JNull"
  "jget k ((k', v) # d) = (if k = k' then v else jget k d)"
  by (simp_all add: jget_def get_or_def)

lemma jget_update [simp]: "jget k (AList.update k' v d) = (if k = k' then v else jget k d)"
  by (simp add: jget_def get_or_def)

end
