(* ===== verification/Regex.thy ===== *)
theory Regex
  imports Prelude
begin

text \<open>
  Regular expressions for the \<open>re\<close> patterns of the program that are used as tests. A match
  is decided by derivatives, and \<open>rmatch_lang\<close> shows that the matcher decides the language.
  \<open>full_match\<close> is \<open>re.fullmatch\<close>; \<open>match_dollar\<close> is \<open>re.match\<close> of a pattern that ends in
  \<open>$\<close>, which Python also lets match before a final newline; \<open>match_prefix\<close> is \<open>re.match\<close>
  of a pattern without \<open>$\<close>; \<open>search\<close> is \<open>re.search\<close>.
\<close>

datatype rx =
    Void
  | Eps
  | Cls "char \<Rightarrow> bool"
  | Cat rx rx
  | Alt rx rx
  | Star rx

fun nullable :: "rx \<Rightarrow> bool" where
  "nullable Void = False"
| "nullable Eps = True"
| "nullable (Cls p) = False"
| "nullable (Cat r s) = (nullable r \<and> nullable s)"
| "nullable (Alt r s) = (nullable r \<or> nullable s)"
| "nullable (Star r) = True"

text \<open>Concatenation and alternative that drop the empty language at once.\<close>

definition cat :: "rx \<Rightarrow> rx \<Rightarrow> rx" where
  "cat r s = (case r of Void \<Rightarrow> Void | Eps \<Rightarrow> s | _ \<Rightarrow> Cat r s)"

definition alt :: "rx \<Rightarrow> rx \<Rightarrow> rx" where
  "alt r s = (case r of Void \<Rightarrow> s | _ \<Rightarrow> (case s of Void \<Rightarrow> r | _ \<Rightarrow> Alt r s))"

fun deriv :: "char \<Rightarrow> rx \<Rightarrow> rx" where
  "deriv c Void = Void"
| "deriv c Eps = Void"
| "deriv c (Cls p) = (if p c then Eps else Void)"
| "deriv c (Cat r s) = (if nullable r then alt (cat (deriv c r) s) (deriv c s) else cat (deriv c r) s)"
| "deriv c (Alt r s) = alt (deriv c r) (deriv c s)"
| "deriv c (Star r) = cat (deriv c r) (Star r)"

fun full_match :: "rx \<Rightarrow> string \<Rightarrow> bool" where
  "full_match r [] = nullable r"
| "full_match r (c # s) = full_match (deriv c r) s"

section \<open>Building blocks\<close>

definition chr :: "char \<Rightarrow> rx" where
  "chr c = Cls (\<lambda>x. x = c)"

fun lit :: "string \<Rightarrow> rx" where
  "lit [] = Eps"
| "lit (c # s) = Cat (chr c) (lit s)"

definition any :: rx where
  "any = Star (Cls (\<lambda>_. True))"

definition plus :: "rx \<Rightarrow> rx" where
  "plus r = Cat r (Star r)"

definition opt :: "rx \<Rightarrow> rx" where
  "opt r = Alt r Eps"

fun times :: "nat \<Rightarrow> rx \<Rightarrow> rx" where
  "times 0 r = Eps"
| "times (Suc n) r = Cat r (times n r)"

text \<open>\<open>r{0,n}\<close>: at most \<open>n\<close> repetitions.\<close>

fun upto :: "nat \<Rightarrow> rx \<Rightarrow> rx" where
  "upto 0 r = Eps"
| "upto (Suc n) r = opt (Cat r (upto n r))"

fun cats :: "rx list \<Rightarrow> rx" where
  "cats [] = Eps"
| "cats [r] = r"
| "cats (r # rs) = Cat r (cats rs)"

fun alts :: "rx list \<Rightarrow> rx" where
  "alts [] = Void"
| "alts (r # rs) = Alt r (alts rs)"

definition match_prefix :: "rx \<Rightarrow> string \<Rightarrow> bool" where
  "match_prefix r s = full_match (Cat r any) s"

definition match_dollar :: "rx \<Rightarrow> string \<Rightarrow> bool" where
  "match_dollar r s = full_match (Cat r (opt (chr newline))) s"

definition search :: "rx \<Rightarrow> string \<Rightarrow> bool" where
  "search r s = full_match (Cat any (Cat r any)) s"

section \<open>The language of an expression\<close>

inductive_set star :: "string set \<Rightarrow> string set" for A where
  star_Nil: "[] \<in> star A"
| star_step: "u \<in> A \<Longrightarrow> v \<in> star A \<Longrightarrow> u @ v \<in> star A"

fun lang :: "rx \<Rightarrow> string set" where
  "lang Void = {}"
| "lang Eps = {[]}"
| "lang (Cls p) = {[c] | c. p c}"
| "lang (Cat r s) = {u @ v | u v. u \<in> lang r \<and> v \<in> lang s}"
| "lang (Alt r s) = lang r \<union> lang s"
| "lang (Star r) = star (lang r)"

lemma lang_cat [simp]: "lang (cat r s) = lang (Cat r s)"
  by (cases r) (auto simp: cat_def)

lemma lang_alt [simp]: "lang (alt r s) = lang (Alt r s)"
  by (cases r; cases s) (auto simp: alt_def)

lemma nullable_lang: "nullable r \<longleftrightarrow> [] \<in> lang r"
  by (induction r) (auto intro: star_Nil)

text \<open>A non-empty word of a star starts with a non-empty word of its body.\<close>

lemma star_Cons:
  assumes "w \<in> star A" and "w = c # s"
  shows "\<exists>u v. s = u @ v \<and> c # u \<in> A \<and> v \<in> star A"
  using assms
proof (induction arbitrary: s rule: star.induct)
  case (star_step u v)
  show ?case
  proof (cases u)
    case Nil
    with star_step show ?thesis by auto
  next
    case (Cons d u')
    with star_step show ?thesis by auto
  qed
qed simp

lemma star_Cons_iff: "c # s \<in> star A \<longleftrightarrow> (\<exists>u v. s = u @ v \<and> c # u \<in> A \<and> v \<in> star A)"
proof
  assume "\<exists>u v. s = u @ v \<and> c # u \<in> A \<and> v \<in> star A"
  then obtain u v where "s = u @ v" "c # u \<in> A" "v \<in> star A" by blast
  then show "c # s \<in> star A"
    using star.star_step [of "c # u" A v] by simp
qed (auto dest: star_Cons)

lemma deriv_lang: "s \<in> lang (deriv c r) \<longleftrightarrow> c # s \<in> lang r"
proof (induction r arbitrary: s)
  case (Cat r1 r2)
  have "c # s \<in> lang (Cat r1 r2) \<longleftrightarrow>
      (\<exists>u v. s = u @ v \<and> c # u \<in> lang r1 \<and> v \<in> lang r2) \<or> ([] \<in> lang r1 \<and> c # s \<in> lang r2)"
    by (auto simp: Cons_eq_append_conv)
  then show ?case
    by (auto simp: Cat.IH nullable_lang)
next
  case (Star r)
  then show ?case
    by (auto simp: star_Cons_iff)
qed auto

theorem full_match_lang: "full_match r s \<longleftrightarrow> s \<in> lang r"
  by (induction s arbitrary: r) (auto simp: nullable_lang deriv_lang)

section \<open>Languages of the building blocks\<close>

lemma lang_chr [simp]: "lang (chr c) = {[c]}"
  by (auto simp: chr_def)

lemma lang_lit [simp]: "lang (lit s) = {s}"
  by (induction s) auto

lemma Cat_Cls [simp]:
  "[] \<notin> lang (Cat (Cls p) r)"
  "c # s \<in> lang (Cat (Cls p) r) \<longleftrightarrow> p c \<and> s \<in> lang r"
  by simp_all (metis append_Cons append_Nil list.inject)

declare lang.simps(4) [simp del]

lemma lang_Cat: "w \<in> lang (Cat r s) \<longleftrightarrow> (\<exists>u v. w = u @ v \<and> u \<in> lang r \<and> v \<in> lang s)"
  by (auto simp: lang.simps)

lemma lang_Cat_lit [simp]: "lang (Cat (lit p) r) = {p @ v | v. v \<in> lang r}"
  by (auto simp: lang.simps)

lemma star_chars: "star {[c] | c. p c} = {s. \<forall>c\<in>set s. p c}"
proof
  show "star {[c] | c. p c} \<subseteq> {s. \<forall>c\<in>set s. p c}"
  proof
    fix s assume "s \<in> star {[c] | c. p c}"
    then show "s \<in> {s. \<forall>c\<in>set s. p c}"
      by (induction rule: star.induct) auto
  qed
next
  show "{s. \<forall>c\<in>set s. p c} \<subseteq> star {[c] | c. p c}"
  proof
    fix s assume "s \<in> {s. \<forall>c\<in>set s. p c}"
    then show "s \<in> star {[c] | c. p c}"
    proof (induction s)
      case (Cons x s)
      then show ?case
        using star.star_step [of "[x]" "{[c] | c. p c}" s] by auto
    qed (rule star_Nil)
  qed
qed

lemma lang_any [simp]: "lang any = UNIV"
  using star_chars [of "\<lambda>_. True"] by (simp add: any_def)

lemma lang_opt [simp]: "lang (opt r) = insert [] (lang r)"
  by (auto simp: opt_def)

lemma lang_plus_Cls: "lang (plus (Cls p)) = {s. s \<noteq> [] \<and> (\<forall>c\<in>set s. p c)}"
proof (rule set_eqI)
  fix s
  show "s \<in> lang (plus (Cls p)) \<longleftrightarrow> s \<in> {s. s \<noteq> [] \<and> (\<forall>c\<in>set s. p c)}"
    by (cases s) (auto simp: plus_def star_chars)
qed

lemma lang_times_Cls: "lang (times n (Cls p)) = {s. length s = n \<and> (\<forall>c\<in>set s. p c)}"
proof (induction n)
  case (Suc n)
  show ?case
  proof (rule set_eqI)
    fix s
    show "s \<in> lang (times (Suc n) (Cls p)) \<longleftrightarrow> s \<in> {s. length s = Suc n \<and> (\<forall>c\<in>set s. p c)}"
      by (cases s) (auto simp: Suc)
  qed
qed auto

lemma lang_upto_Cls: "lang (upto n (Cls p)) = {s. length s \<le> n \<and> (\<forall>c\<in>set s. p c)}"
proof (induction n)
  case (Suc n)
  show ?case
  proof (rule set_eqI)
    fix s
    show "s \<in> lang (upto (Suc n) (Cls p)) \<longleftrightarrow> s \<in> {s. length s \<le> Suc n \<and> (\<forall>c\<in>set s. p c)}"
      by (cases s) (auto simp: Suc)
  qed
qed auto

lemma match_prefix_lang: "match_prefix r s \<longleftrightarrow> (\<exists>u v. s = u @ v \<and> u \<in> lang r)"
  by (auto simp: match_prefix_def full_match_lang lang_Cat)

lemma match_dollar_lang:
  "match_dollar r s \<longleftrightarrow> s \<in> lang r \<or> (\<exists>u. s = u @ [newline] \<and> u \<in> lang r)"
  by (auto simp: match_dollar_def full_match_lang lang_Cat)

lemma search_lang: "search r s \<longleftrightarrow> (\<exists>a u b. s = a @ u @ b \<and> u \<in> lang r)"
  by (auto simp: search_def full_match_lang lang_Cat)

lemma match_prefix_lit: "match_prefix (lit p) s \<longleftrightarrow> prefix p s"
  by (auto simp: match_prefix_lang prefix_def)


text \<open>The characters of a match are among those the expression names.\<close>

fun may_use :: "rx \<Rightarrow> char \<Rightarrow> bool" where
  "may_use Void c = False"
| "may_use Eps c = False"
| "may_use (Cls p) c = p c"
| "may_use (Cat r s) c = (may_use r c \<or> may_use s c)"
| "may_use (Alt r s) c = (may_use r c \<or> may_use s c)"
| "may_use (Star r) c = may_use r c"

lemma lang_may_use: "s \<in> lang r \<Longrightarrow> c \<in> set s \<Longrightarrow> may_use r c"
proof (induction r arbitrary: s)
  case (Cat r1 r2)
  then obtain u v where w: "s = u @ v" "u \<in> lang r1" "v \<in> lang r2"
    by (auto simp: lang_Cat)
  then have "c \<in> set u \<or> c \<in> set v"
    using Cat.prems(2) by simp
  then show ?case
    using Cat.IH(1) [OF w(2)] Cat.IH(2) [OF w(3)] unfolding may_use.simps by blast
next
  case (Star r)
  from Star.prems have "s \<in> star (lang r)" by simp
  then have "c \<in> set s \<Longrightarrow> may_use r c"
    by (induction rule: star.induct) (auto dest: Star.IH)
  then show ?case using Star.prems(2) by simp
qed auto

lemma full_match_may_use: "full_match r s \<Longrightarrow> c \<in> set s \<Longrightarrow> may_use r c"
  by (simp add: full_match_lang lang_may_use)

lemma may_use_upto: "may_use (upto n r) c \<Longrightarrow> may_use r c"
  by (induction n) (auto simp: opt_def)

lemma may_use_lit: "may_use (lit s) c \<longleftrightarrow> c \<in> set s"
  by (induction s) (auto simp: chr_def)

end
