(* ===== verification/VoiceDispatch.thy ===== *)
theory VoiceDispatch
  imports Json Regex "HOL-Library.Word"
begin

text \<open>
  \<open>compose/nuc/voice-worker/dispatch.py\<close>: the forced command behind the voice worker's SSH
  key. The two directories it works on are dictionaries from a file's stem to its JSON object:
  \<open>queue\<close> is \<open>/var/lib/voice-worker/queue/<stem>.json\<close>, \<open>status\<close> the same under \<open>status\<close>, and
  \<open>health\<close> is \<open>health.json\<close> where it exists. The hidden \<open>.tmp\<close> files never match \<open>*.json\<close>
  and are renamed in one step, so they are not part of the state. What the program reads
  from outside is an argument: the command line, standard input as \<open>json.loads\<close> reads it
  (\<open>None\<close> for text that is not JSON), the clock and the random token.
\<close>

type_synonym task = "json dict"

record vw_config =
  allowed_repos :: "string list"
  max_active :: nat

record vw_dirs =
  queue :: "task dict"
  status :: "task dict"
  health :: "json option"

record clock =
  year :: nat
  month :: nat
  day :: nat
  hour :: nat
  minute :: nat
  second :: nat
  epoch :: int
  token :: "16 word"

datatype reply =
    Printed json nat  \<comment> \<open>the JSON line and the exit status of \<open>out\<close>\<close>
  | Raised string     \<comment> \<open>an exception nothing catches\<close>

definition max_instructions :: nat where
  "max_instructions = 4000"

text \<open>\<open>ID_RE\<close>.\<close>

definition id_class :: "char \<Rightarrow> bool" where
  "id_class c \<longleftrightarrow> is_lower c \<or> is_digit c"

definition id_re :: rx where
  "id_re = Cat (times 8 (Cls is_digit)) (Cat (chr (CHR ''-''))
     (Cat (times 6 (Cls is_digit)) (Cat (chr (CHR ''-'')) (times 4 (Cls id_class)))))"

section \<open>Reading the directories\<close>

definition state_field :: "string \<Rightarrow> string \<Rightarrow> task" where
  "state_field i s = [(''id'', JStr i), (''state'', JStr s)]"

definition load_status :: "vw_dirs \<Rightarrow> string \<Rightarrow> task option" where
  "load_status d i =
     (case map_of (status d) i of
        Some t \<Rightarrow> Some t
      | None \<Rightarrow> (if i \<in> set (keys (queue d)) then Some (state_field i ''queued'') else None))"

definition task_ids :: "vw_dirs \<Rightarrow> string list" where
  "task_ids d = rev (sorted_set (keys (status d) @ keys (queue d)))"

definition recent :: "vw_dirs \<Rightarrow> nat \<Rightarrow> task option list" where
  "recent d n = map (load_status d) (take n (task_ids d))"

definition is_active :: "task option \<Rightarrow> bool" where
  "is_active s = (case s of
      None \<Rightarrow> False
    | Some t \<Rightarrow> t \<noteq> [] \<and> jget ''state'' t \<in> {JStr ''queued'', JStr ''running''})"

definition present :: "task option list \<Rightarrow> task list" where
  "present ss = [t. Some t \<leftarrow> ss, t \<noteq> []]"

section \<open>The commands\<close>

definition err :: "string \<Rightarrow> json" where
  "err m = JObj [(''error'', JStr m)]"

definition hex4 :: "16 word \<Rightarrow> string" where
  "hex4 w = map (\<lambda>k. hex_digit (unat w div 16 ^ k mod 16)) [3, 2, 1, 0]"

text \<open>\<open>time.strftime("%Y%m%d-%H%M%S") + "-" + secrets.token_hex(2)\<close>.\<close>

definition new_id :: "clock \<Rightarrow> string" where
  "new_id c = zfill 4 (year c) @ zfill 2 (month c) @ zfill 2 (day c) @ ''-'' @
     zfill 2 (hour c) @ zfill 2 (minute c) @ zfill 2 (second c) @ ''-'' @ hex4 (token c)"

definition new_task :: "clock \<Rightarrow> string \<Rightarrow> string \<Rightarrow> json \<Rightarrow> task" where
  "new_task c repo instructions requested_by =
     [(''id'', JStr (new_id c)), (''repo'', JStr repo), (''instructions'', JStr instructions),
      (''requested_by'', JStr (take 64 (py_str requested_by))), (''queued_at'', JInt (epoch c))]"

definition active_count :: "vw_dirs \<Rightarrow> nat" where
  "active_count d = length (filter is_active (recent d 20))"

text \<open>\<open>(req.get("instructions") or "").strip()\<close>: a truthy value that is not a string has no \<open>strip\<close>.\<close>

definition instructions_of :: "json dict \<Rightarrow> string option" where
  "instructions_of req =
     (let v = jget ''instructions'' req
      in if \<not> truthy v then Some [] else case v of JStr s \<Rightarrow> Some (strip s) | _ \<Rightarrow> None)"

definition start :: "vw_config \<Rightarrow> vw_dirs \<Rightarrow> json option \<Rightarrow> clock \<Rightarrow> reply \<times> vw_dirs" where
  "start cfg d stdin c =
     (case stdin of
        None \<Rightarrow> (Printed (err ''request must be JSON'') 2, d)
      | Some (JObj req) \<Rightarrow>
          (let repo = get_or (JStr []) ''repo'' req in
           case instructions_of req of
             None \<Rightarrow> (Raised ''AttributeError'', d)
           | Some instructions \<Rightarrow>
               (if repo \<notin> JStr ` set (allowed_repos cfg) then
                  (Printed (err (''repo '' @ repr repo @ '' is not allowed; allowed: '' @
                     repr (JList (map JStr (allowed_repos cfg))))) 2, d)
                else if instructions = [] \<or> length instructions > max_instructions then
                  (Printed (err (''instructions must be 1-'' @ str_of_nat max_instructions @ '' characters'')) 2, d)
                else if active_count d \<ge> max_active cfg then
                  (Printed (err (str_of_nat (active_count d) @
                     '' tasks already queued or running; try again when one finishes'')) 3, d)
                else
                  (Printed (JObj (state_field (new_id c) ''queued'')) 0,
                   d\<lparr>queue := AList.update (new_id c)
                       (new_task c (str_of repo) instructions (get_or (JStr []) ''requested_by'' req))
                       (queue d)\<rparr>)))
      | Some _ \<Rightarrow> (Raised ''AttributeError'', d))"

definition show_status :: "vw_dirs \<Rightarrow> string list \<Rightarrow> reply" where
  "show_status d argv =
     (let i = (if length argv > 1 then argv ! 1 else [])
      in if i \<noteq> [] \<and> \<not> match_dollar id_re i then Printed (err ''bad task id'') 2
         else if i = [] then
           (case recent d 1 of
              Some t # _ \<Rightarrow> Printed (JObj t) 0
            | None # _ \<Rightarrow> Printed JNull 0
            | [] \<Rightarrow> Printed (err ''no tasks yet'') 0)
         else case load_status d i of
             Some t \<Rightarrow> (if t \<noteq> [] then Printed (JObj t) 0 else Printed (err (''no task '' @ i)) 4)
           | None \<Rightarrow> Printed (err (''no task '' @ i)) 4)"

definition dispatch ::
  "vw_config \<Rightarrow> vw_dirs \<Rightarrow> string \<Rightarrow> json option \<Rightarrow> clock \<Rightarrow> reply \<times> vw_dirs" where
  "dispatch cfg d ssh_command stdin c =
     (let argv = split_ws ssh_command;
          cmd = (case argv of [] \<Rightarrow> [] | a # _ \<Rightarrow> a)
      in if cmd = ''start'' then start cfg d stdin c
         else if cmd = ''status'' then (show_status d argv, d)
         else if cmd = ''list'' then
           (Printed (JObj [(''tasks'', JList (map JObj (present (recent d 5))))]) 0, d)
         else if cmd = ''health'' then
           (Printed (case health d of Some h \<Rightarrow> h | None \<Rightarrow> err ''no token check yet'') 0, d)
         else (Printed (err ''usage: start | status [<id>] | list | health'') 2, d))"

section \<open>Identifiers\<close>

definition clock_ok :: "clock \<Rightarrow> bool" where
  "clock_ok c \<longleftrightarrow> year c < 10000 \<and> month c < 100 \<and> day c < 100 \<and> hour c < 100 \<and> minute c < 100 \<and> second c < 100"

lemma hex_digit_id_class: "n < 16 \<Longrightarrow> id_class (hex_digit n)"
  by (auto simp: hex_digit_def id_class_def is_lower_def is_digit_def)

lemma length_hex4 [simp]: "length (hex4 w) = 4"
  by (simp add: hex4_def)

lemma hex4_id_class: "x \<in> set (hex4 w) \<Longrightarrow> id_class x"
  by (auto simp: hex4_def intro: hex_digit_id_class)

lemma lang_id_re:
  "s \<in> lang id_re \<longleftrightarrow> (\<exists>a b t. s = a @ ''-'' @ b @ ''-'' @ t \<and>
      length a = 8 \<and> (\<forall>x\<in>set a. is_digit x) \<and> length b = 6 \<and> (\<forall>x\<in>set b. is_digit x) \<and>
      length t = 4 \<and> (\<forall>x\<in>set t. id_class x))"
  by (fastforce simp: id_re_def lang_Cat lang_times_Cls)

lemma id_re_chars: "s \<in> lang id_re \<Longrightarrow> x \<in> set s \<Longrightarrow> id_class x \<or> x = CHR ''-''"
  by (auto simp: lang_id_re id_class_def)

lemma new_id_in_id_re: "clock_ok c \<Longrightarrow> new_id c \<in> lang id_re"
proof -
  assume ok: "clock_ok c"
  let ?a = "zfill 4 (year c) @ zfill 2 (month c) @ zfill 2 (day c)"
  let ?b = "zfill 2 (hour c) @ zfill 2 (minute c) @ zfill 2 (second c)"
  have "new_id c = ?a @ ''-'' @ ?b @ ''-'' @ hex4 (token c)"
    by (simp add: new_id_def)
  moreover have "length ?a = 8" "length ?b = 6"
    using ok by (simp_all add: clock_ok_def length_zfill)
  moreover have "\<forall>x\<in>set ?a. is_digit x" "\<forall>x\<in>set ?b. is_digit x"
    by (auto dest: zfill_digits)
  ultimately show ?thesis
    unfolding lang_id_re using hex4_id_class length_hex4 by blast
qed

lemma id_chars_no_space: "id_class x \<or> x = CHR ''-'' \<Longrightarrow> \<not> is_space x"
  by (auto simp: id_class_def is_lower_def is_digit_def is_space_def)

lemma newline_is_space: "is_space newline"
  by (simp add: is_space_def newline_def code_def)

text \<open>An argument of the command line has no white space, so \<open>$\<close> is the end of the argument.\<close>

lemma id_re_arg:
  assumes "x \<in> set (split_ws s)"
  shows "match_dollar id_re x \<longleftrightarrow> x \<in> lang id_re"
  using split_ws_no_space [OF assms] newline_is_space
  by (auto simp: match_dollar_lang list_all_iff)

section \<open>What the commands do\<close>

text \<open>A request that passes the checks on its own content; whether it is accepted then only depends
  on how busy the worker is.\<close>

definition valid_request :: "vw_config \<Rightarrow> json option \<Rightarrow> json dict \<Rightarrow> string \<Rightarrow> string \<Rightarrow> bool" where
  "valid_request cfg stdin req repo s \<longleftrightarrow>
     stdin = Some (JObj req) \<and> get_or (JStr []) ''repo'' req = JStr repo \<and> repo \<in> set (allowed_repos cfg) \<and>
     instructions_of req = Some s \<and> s \<noteq> [] \<and> length s \<le> max_instructions"

definition queue_new :: "clock \<Rightarrow> json dict \<Rightarrow> string \<Rightarrow> string \<Rightarrow> vw_dirs \<Rightarrow> vw_dirs" where
  "queue_new c req repo s d =
     d\<lparr>queue := AList.update (new_id c)
         (new_task c repo s (get_or (JStr []) ''requested_by'' req)) (queue d)\<rparr>"

lemma start_valid:
  assumes "valid_request cfg stdin req repo s"
  shows "start cfg d stdin c =
    (if active_count d \<ge> max_active cfg then
       (Printed (err (str_of_nat (active_count d) @
          '' tasks already queued or running; try again when one finishes'')) 3, d)
     else (Printed (JObj (state_field (new_id c) ''queued'')) 0, queue_new c req repo s d))"
  using assms unfolding start_def valid_request_def queue_new_def Let_def
  by (simp add: image_iff str_of_def)

lemma start_invalid:
  assumes "\<And>req repo s. \<not> valid_request cfg stdin req repo s"
  shows "snd (start cfg d stdin c) = d \<and>
    (fst (start cfg d stdin c) = Raised ''AttributeError'' \<or> (\<exists>m. fst (start cfg d stdin c) = Printed (err m) 2))"
proof (cases "\<exists>req. stdin = Some (JObj req)")
  case True
  then obtain req where req: "stdin = Some (JObj req)" by blast
  have no: "get_or (JStr []) ''repo'' req \<in> JStr ` set (allowed_repos cfg) \<Longrightarrow> instructions_of req = Some s \<Longrightarrow>
      s = [] \<or> length s > max_instructions" for s
    using assms [of req _ s] req by (auto simp: valid_request_def)
  show ?thesis
    unfolding start_def Let_def req using no
    by (simp split: option.split if_split) blast
next
  case False
  then show ?thesis
    unfolding start_def by (auto split: option.split json.split)
qed

lemma err_not_queued [simp]: "err m \<noteq> JObj (state_field i s)"
  by (simp add: err_def state_field_def)

text \<open>The acceptance of a request, with everything it implies.\<close>

lemma start_accepted_iff:
  "start cfg d stdin c = (Printed (JObj (state_field i ''queued'')) 0, d') \<longleftrightarrow>
   i = new_id c \<and> active_count d < max_active cfg \<and>
   (\<exists>req repo s. valid_request cfg stdin req repo s \<and> d' = queue_new c req repo s d)"
proof (cases "\<exists>req repo s. valid_request cfg stdin req repo s")
  case True
  then obtain req repo s where v: "valid_request cfg stdin req repo s" by blast
  have "valid_request cfg stdin req' repo' s' \<longleftrightarrow> req' = req \<and> repo' = repo \<and> s' = s" for req' repo' s'
    using v by (auto simp: valid_request_def)
  then show ?thesis
    unfolding start_valid [OF v] by (auto simp: state_field_def)
next
  case False
  then show ?thesis
    using start_invalid [of cfg stdin d c] by (cases "start cfg d stdin c") fastforce
qed

lemma start_dirs:
  "snd (start cfg d stdin c) = d \<or>
   (\<exists>req repo s. valid_request cfg stdin req repo s \<and> active_count d < max_active cfg \<and>
      snd (start cfg d stdin c) = queue_new c req repo s d)"
proof (cases "\<exists>req repo s. valid_request cfg stdin req repo s")
  case True
  then obtain req repo s where v: "valid_request cfg stdin req repo s" by blast
  show ?thesis using start_valid [OF v, of d c] v by auto
next
  case False
  then show ?thesis using start_invalid [of cfg stdin d c] by blast
qed

lemma dispatch_cases:
  "dispatch cfg d s stdin c = start cfg d stdin c \<and> (\<exists>ws. split_ws s = ''start'' # ws) \<or>
   snd (dispatch cfg d s stdin c) = d \<and> \<not> (\<exists>ws. split_ws s = ''start'' # ws)"
  by (cases "split_ws s") (auto simp: dispatch_def Let_def)

text \<open>Queue and status files as the two programs write them: the object carries its own stem as
  \<open>id\<close>, and a queued one also has a repository and instructions that are not empty.\<close>

definition queued_ok :: "vw_config \<Rightarrow> string \<Rightarrow> task \<Rightarrow> bool" where
  "queued_ok cfg i t \<longleftrightarrow> jget ''id'' t = JStr i \<and> i \<in> lang id_re \<and>
     (\<exists>r\<in>set (allowed_repos cfg). jget ''repo'' t = JStr r) \<and>
     (\<exists>s. jget ''instructions'' t = JStr s \<and> s \<noteq> [] \<and> length s \<le> max_instructions)"

definition queue_ok :: "vw_config \<Rightarrow> vw_dirs \<Rightarrow> bool" where
  "queue_ok cfg d \<longleftrightarrow> (\<forall>(i, t)\<in>set (queue d). queued_ok cfg i t)"

lemma set_update_subset: "set (AList.update k v d) \<subseteq> insert (k, v) (set d)"
  by (induction d) auto

lemma queue_new_ok:
  assumes "queue_ok cfg d" and "clock_ok c" and v: "valid_request cfg stdin req repo s"
  shows "queue_ok cfg (queue_new c req repo s d)"
proof -
  let ?t = "new_task c repo s (get_or (JStr []) ''requested_by'' req)"
  have "queued_ok cfg (new_id c) ?t"
    using v new_id_in_id_re [OF \<open>clock_ok c\<close>]
    by (auto simp: queued_ok_def new_task_def valid_request_def)
  moreover have "set (queue (queue_new c req repo s d)) \<subseteq> insert (new_id c, ?t) (set (queue d))"
    by (simp add: queue_new_def set_update_subset)
  ultimately show ?thesis
    using assms(1) unfolding queue_ok_def by blast
qed

lemma start_queue_ok:
  "queue_ok cfg d \<Longrightarrow> clock_ok c \<Longrightarrow> queue_ok cfg (snd (start cfg d stdin c))"
  using start_dirs [of cfg d stdin c] queue_new_ok by metis

text \<open>\<open>dispatch.py\<close> writes nothing except one new queue file, and that only for \<open>start\<close>: the
  status files and the health file are never touched, and every other command leaves the
  queue as it was.\<close>

theorem dispatch_frame:
  "status (snd (dispatch cfg d s stdin c)) = status d \<and>
   health (snd (dispatch cfg d s stdin c)) = health d \<and>
   (queue (snd (dispatch cfg d s stdin c)) = queue d \<or>
    (\<exists>ws t. split_ws s = ''start'' # ws \<and>
       queue (snd (dispatch cfg d s stdin c)) = AList.update (new_id c) t (queue d)))"
  using dispatch_cases [of cfg d s stdin c] start_dirs [of cfg d stdin c]
  by (auto simp: queue_new_def)

text \<open>C5: a \<open>start\<close> request is accepted exactly when it is an object whose repository is on the
  allowlist, whose instructions have between 1 and 4000 characters after stripping, and fewer
  than \<open>max_active\<close> of the 20 most recent tasks are queued or running; it is then queued under
  a fresh identifier with the stripped instructions.\<close>

theorem start_accepts_iff:
  "fst (start cfg d (Some (JObj req)) c) = Printed (JObj (state_field (new_id c) ''queued'')) 0 \<longleftrightarrow>
   (\<exists>r\<in>set (allowed_repos cfg). get_or (JStr []) ''repo'' req = JStr r) \<and>
   (\<exists>s. instructions_of req = Some s \<and> 1 \<le> length s \<and> length s \<le> 4000) \<and>
   active_count d < max_active cfg"
proof -
  have len: "1 \<le> length s \<longleftrightarrow> s \<noteq> []" for s :: string
    by (cases s) simp_all
  have "fst (start cfg d (Some (JObj req)) c) = Printed (JObj (state_field (new_id c) ''queued'')) 0 \<longleftrightarrow>
    (\<exists>d'. start cfg d (Some (JObj req)) c = (Printed (JObj (state_field (new_id c) ''queued'')) 0, d'))"
    by (cases "start cfg d (Some (JObj req)) c") auto
  then show ?thesis
    unfolding start_accepted_iff len by (auto simp: valid_request_def max_instructions_def)
qed

text \<open>The exit status 3 means exactly that the request itself was fine and the worker was busy.\<close>

theorem start_exit_status:
  "(\<exists>j. fst (start cfg d stdin c) = Printed j 3) \<longleftrightarrow>
     active_count d \<ge> max_active cfg \<and> (\<exists>req repo s. valid_request cfg stdin req repo s)"
proof (cases "\<exists>req repo s. valid_request cfg stdin req repo s")
  case True
  then show ?thesis by (auto simp: start_valid split: if_splits)
next
  case False
  then show ?thesis using start_invalid [of cfg stdin d c] by auto
qed

definition idle_dirs :: vw_dirs where
  "idle_dirs = \<lparr>queue = [], status = [], health = None\<rparr>"

definition sample_cfg :: vw_config where
  "sample_cfg = \<lparr>allowed_repos = [''todo-app'', ''hue''], max_active = 3\<rparr>"

definition sample_clock :: clock where
  "sample_clock = \<lparr>year = 2026, month = 9, day = 30, hour = 15, minute = 9, second = 22,
     epoch = 1790781762, token = 0xeb50\<rparr>"

definition sample_fields :: "json dict" where
  "sample_fields = [(''repo'', JStr ''hue''), (''instructions'', JStr '' fix the README '')]"

definition sample_request :: json where
  "sample_request = JObj sample_fields"

lemma sample_valid:
  "valid_request sample_cfg (Some sample_request) sample_fields ''hue'' ''fix the README''"
proof -
  have "instructions_of sample_fields = Some ''fix the README''"
    by code_simp
  then show ?thesis
    by (simp add: valid_request_def sample_request_def sample_fields_def sample_cfg_def max_instructions_def get_or_def)
qed

lemma sample_start:
  "start sample_cfg idle_dirs (Some sample_request) sample_clock =
     (Printed (JObj (state_field (new_id sample_clock) ''queued'')) 0,
      queue_new sample_clock sample_fields ''hue'' ''fix the README'' idle_dirs)"
proof -
  have "active_count idle_dirs < max_active sample_cfg"
    by (simp add: active_count_def recent_def task_ids_def idle_dirs_def sample_cfg_def sorted_set_def)
  then show ?thesis by (simp add: start_valid [OF sample_valid])
qed

text \<open>Every identifier that \<open>start\<close> hands out is one that \<open>status\<close> accepts, and asking for it
  right away finds the task queued.\<close>

theorem start_then_status:
  assumes ok: "clock_ok c" and st: "start cfg d stdin c = (Printed (JObj (state_field i ''queued'')) 0, d')"
    and new: "i \<notin> set (keys (status d))"
  shows "fst (dispatch cfg d' (''status '' @ i) stdin' c') = Printed (JObj (state_field i ''queued'')) 0"
proof -
  have i: "i = new_id c" and d': "status d' = status d" "i \<in> set (keys (queue d'))"
    using st [unfolded start_accepted_iff] by (auto simp: queue_new_def)
  have lang: "i \<in> lang id_re"
    using new_id_in_id_re [OF ok] i by simp
  have "list_all (\<lambda>c. \<not> is_space c) i" "i \<noteq> []"
    using lang id_chars_no_space id_re_chars by (auto simp: list_all_iff lang_id_re)
  then have ws: "split_ws (''status '' @ i) = [''status'', i]"
    using split_ws_pair [of "''status''" i] by (simp add: is_space_def)
  have "map_of (status d') i = None"
    using new d'(1) by (simp add: map_of_eq_None_iff)
  then have "load_status d' i = Some (state_field i ''queued'')"
    using d'(2) by (simp add: load_status_def)
  then show ?thesis
    using lang \<open>i \<noteq> []\<close> unfolding dispatch_def show_status_def ws
    by (simp add: match_dollar_lang state_field_def)
qed

text \<open>An argument of \<open>status\<close> reaches the file system only if it is a task identifier; such an
  argument has neither a slash nor a dot, so \<open><id>.json\<close> names a file of the two directories
  and nothing else. Any other argument gets the same answer whatever the directories hold.\<close>

theorem status_argument_safe:
  assumes "split_ws s = ''status'' # i # ws"
  shows "i \<in> lang id_re \<and> CHR ''/'' \<notin> set i \<and> CHR ''.'' \<notin> set i \<or>
         fst (dispatch cfg d s stdin c) = Printed (err ''bad task id'') 2"
proof (cases "i \<in> lang id_re")
  case True
  then show ?thesis
    using id_re_chars [OF True, of "CHR ''/''"] id_re_chars [OF True, of "CHR ''.''"]
    by (auto simp: id_class_def is_lower_def is_digit_def)
next
  case False
  have "i \<in> set (split_ws s)" using assms by simp
  then have "\<not> match_dollar id_re i" "i \<noteq> []"
    using False id_re_arg split_ws_no_space by auto
  then show ?thesis
    using assms by (simp add: dispatch_def show_status_def)
qed

theorem start_then_status_witness:
  "fst (dispatch sample_cfg (snd (start sample_cfg idle_dirs (Some sample_request) sample_clock))
     (''status '' @ new_id sample_clock) None sample_clock) =
   Printed (JObj (state_field (new_id sample_clock) ''queued'')) 0"
proof -
  have "start sample_cfg idle_dirs (Some sample_request) sample_clock =
      (Printed (JObj (state_field (new_id sample_clock) ''queued'')) 0,
       snd (start sample_cfg idle_dirs (Some sample_request) sample_clock))"
    by (simp add: sample_start)
  then show ?thesis
    by (rule start_then_status [rotated]) (simp_all add: clock_ok_def sample_clock_def idle_dirs_def)
qed

theorem status_argument_safe_witness:
  "fst (dispatch sample_cfg idle_dirs ''status ../etc/passwd'' None sample_clock) =
     Printed (err ''bad task id'') 2"
proof -
  have ws: "split_ws ''status ../etc/passwd'' = ''status'' # ''../etc/passwd'' # []"
    by code_simp
  show ?thesis
    using status_argument_safe [OF ws, of sample_cfg idle_dirs None sample_clock] by simp
qed

end
