(* ===== verification/IoMonad.thy ===== *)
theory IoMonad
  imports Prelude
begin

text \<open>
  Code that calls out, changes its state and may raise: a function from the environment (the
  answers of everything outside the program) and the state to a result and the new state. A
  raised exception keeps the state changes made before it, as Python's does. The \<open>wp\<close> rules
  compute what a run establishes, one operation at a time.
\<close>

type_synonym ('e, 'w, 'x, 'a) io = "'e \<Rightarrow> 'w \<Rightarrow> ('x + 'a) \<times> 'w"

definition ret :: "'a \<Rightarrow> ('e, 'w, 'x, 'a) io" where
  "ret a = (\<lambda>e w. (Inr a, w))"

definition raise :: "'x \<Rightarrow> ('e, 'w, 'x, 'a) io" where
  "raise x = (\<lambda>e w. (Inl x, w))"

definition bind :: "('e, 'w, 'x, 'a) io \<Rightarrow> ('a \<Rightarrow> ('e, 'w, 'x, 'b) io) \<Rightarrow> ('e, 'w, 'x, 'b) io" where
  "bind m f = (\<lambda>e w. case m e w of (Inl x, w') \<Rightarrow> (Inl x, w') | (Inr a, w') \<Rightarrow> f a e w')"

definition andthen :: "('e, 'w, 'x, 'a) io \<Rightarrow> ('e, 'w, 'x, 'b) io \<Rightarrow> ('e, 'w, 'x, 'b) io" where
  "andthen m n = bind m (\<lambda>_. n)"

definition liftR :: "'x + 'a \<Rightarrow> ('e, 'w, 'x, 'a) io" where
  "liftR r = (\<lambda>e w. (r, w))"

definition ask :: "('e \<Rightarrow> 'a) \<Rightarrow> ('e, 'w, 'x, 'a) io" where
  "ask f = (\<lambda>e w. (Inr (f e), w))"

definition gets :: "('w \<Rightarrow> 'a) \<Rightarrow> ('e, 'w, 'x, 'a) io" where
  "gets f = (\<lambda>e w. (Inr (f w), w))"

definition modify :: "('w \<Rightarrow> 'w) \<Rightarrow> ('e, 'w, 'x, unit) io" where
  "modify f = (\<lambda>e w. (Inr (), f w))"

definition try_catch :: "('e, 'w, 'x, 'a) io \<Rightarrow> ('x \<Rightarrow> ('e, 'w, 'x, 'a) io) \<Rightarrow> ('e, 'w, 'x, 'a) io" where
  "try_catch m h = (\<lambda>e w. case m e w of (Inl x, w') \<Rightarrow> h x e w' | (Inr a, w') \<Rightarrow> (Inr a, w'))"

definition wp :: "('e, 'w, 'x, 'a) io \<Rightarrow> 'e \<Rightarrow> 'w \<Rightarrow> ('x + 'a \<Rightarrow> 'w \<Rightarrow> bool) \<Rightarrow> bool" where
  "wp m e w Q \<longleftrightarrow> (case m e w of (r, w') \<Rightarrow> Q r w')"

named_theorems wp_rules \<open>one rule for the operations of a component\<close>

lemma wp_ret [simp, wp_rules]: "wp (ret a) e w Q = Q (Inr a) w"
  by (simp add: wp_def ret_def)

lemma wp_raise [simp, wp_rules]: "wp (raise x) e w Q = Q (Inl x) w"
  by (simp add: wp_def raise_def)

lemma wp_bind [simp, wp_rules]:
  "wp (bind m f) e w Q = wp m e w (\<lambda>r w'. case r of Inl x \<Rightarrow> Q (Inl x) w' | Inr a \<Rightarrow> wp (f a) e w' Q)"
  by (auto simp: wp_def bind_def split: prod.splits sum.splits)

lemma wp_andthen [simp, wp_rules]:
  "wp (andthen m n) e w Q = wp m e w (\<lambda>r w'. case r of Inl x \<Rightarrow> Q (Inl x) w' | Inr a \<Rightarrow> wp n e w' Q)"
  by (simp add: andthen_def)

lemma wp_liftR [simp, wp_rules]: "wp (liftR r) e w Q = Q r w"
  by (simp add: wp_def liftR_def)

lemma wp_ask [simp, wp_rules]: "wp (ask f) e w Q = Q (Inr (f e)) w"
  by (simp add: wp_def ask_def)

lemma wp_gets [simp, wp_rules]: "wp (gets f) e w Q = Q (Inr (f w)) w"
  by (simp add: wp_def gets_def)

lemma wp_modify [simp, wp_rules]: "wp (modify f) e w Q = Q (Inr ()) (f w)"
  by (simp add: wp_def modify_def)

lemma wp_try_catch [simp, wp_rules]:
  "wp (try_catch m h) e w Q = wp m e w (\<lambda>r w'. case r of Inl x \<Rightarrow> wp (h x) e w' Q | Inr a \<Rightarrow> Q (Inr a) w')"
  by (auto simp: wp_def try_catch_def split: prod.splits sum.splits)

lemma wp_mono: "wp m e w Q \<Longrightarrow> (\<And>r w'. Q r w' \<Longrightarrow> Q' r w') \<Longrightarrow> wp m e w Q'"
  by (auto simp: wp_def split: prod.splits)

lemma wp_conj: "wp m e w Q \<Longrightarrow> wp m e w Q' \<Longrightarrow> wp m e w (\<lambda>r w'. Q r w' \<and> Q' r w')"
  by (auto simp: wp_def)

lemma wpD: "wp m e w Q \<Longrightarrow> m e w = (r, w') \<Longrightarrow> Q r w'"
  by (simp add: wp_def)

lemma wp_snd: "wp m e w (\<lambda>_ w'. Q w') \<longleftrightarrow> Q (snd (m e w))"
  by (simp add: wp_def split_beta)

section \<open>Invariants and results along a run\<close>

text \<open>\<open>keeps P m e\<close>: the operation keeps a condition of the state, however it ends. \<open>returns P m e a\<close>:
  started under that condition it can return \<open>a\<close>. \<open>establishes P m e Q\<close>: it keeps the condition, and
  if it returns, \<open>Q\<close> holds.\<close>

definition keeps :: "('w \<Rightarrow> bool) \<Rightarrow> ('e, 'w, 'x, 'a) io \<Rightarrow> 'e \<Rightarrow> bool" where
  "keeps P m e \<longleftrightarrow> (\<forall>w. P w \<longrightarrow> P (snd (m e w)))"

definition returns :: "('w \<Rightarrow> bool) \<Rightarrow> ('e, 'w, 'x, 'a) io \<Rightarrow> 'e \<Rightarrow> 'a \<Rightarrow> bool" where
  "returns P m e a \<longleftrightarrow> (\<exists>w w'. P w \<and> m e w = (Inr a, w'))"

definition establishes :: "('w \<Rightarrow> bool) \<Rightarrow> ('e, 'w, 'x, 'a) io \<Rightarrow> 'e \<Rightarrow> ('w \<Rightarrow> bool) \<Rightarrow> bool" where
  "establishes P m e Q \<longleftrightarrow>
     (\<forall>w. P w \<longrightarrow> P (snd (m e w)) \<and> ((\<exists>a. fst (m e w) = Inr a) \<longrightarrow> Q (snd (m e w))))"

lemma keeps_bind:
  "keeps P m e \<Longrightarrow> (\<And>a. returns P m e a \<Longrightarrow> keeps P (f a) e) \<Longrightarrow> keeps P (bind m f) e"
  unfolding keeps_def returns_def bind_def
  by (force split: prod.splits sum.splits)

lemma keeps_andthen: "keeps P m e \<Longrightarrow> keeps P n e \<Longrightarrow> keeps P (andthen m n) e"
  by (auto simp: andthen_def intro: keeps_bind)

lemma keeps_pure [simp]:
  "keeps P (ret a) e" "keeps P (raise x) e" "keeps P (liftR r) e" "keeps P (ask f) e" "keeps P (gets g) e"
  by (simp_all add: keeps_def ret_def raise_def liftR_def ask_def gets_def)

lemma keeps_if: "(b \<Longrightarrow> keeps P m e) \<Longrightarrow> (\<not> b \<Longrightarrow> keeps P n e) \<Longrightarrow> keeps P (if b then m else n) e"
  by simp

lemma keeps_split:
  "(\<And>a. r = Inl a \<Longrightarrow> keeps P (f a) e) \<Longrightarrow> (\<And>b. r = Inr b \<Longrightarrow> keeps P (g b) e) \<Longrightarrow>
    keeps P (case r of Inl a \<Rightarrow> f a | Inr b \<Rightarrow> g b) e"
  "(v = None \<Longrightarrow> keeps P n e) \<Longrightarrow> (\<And>a. v = Some a \<Longrightarrow> keeps P (h a) e) \<Longrightarrow>
    keeps P (case v of None \<Rightarrow> n | Some a \<Rightarrow> h a) e"
  "(\<And>a b. keeps P (k a b) e) \<Longrightarrow> keeps P (case p of (a, b) \<Rightarrow> k a b) e"
  "(xs = [] \<Longrightarrow> keeps P n' e) \<Longrightarrow> (\<And>x ys. xs = x # ys \<Longrightarrow> keeps P (l x ys) e) \<Longrightarrow>
    keeps P (case xs of [] \<Rightarrow> n' | x # ys \<Rightarrow> l x ys) e"
  by (auto split: sum.split option.split prod.split list.split)

lemma keeps_try_catch: "keeps P m e \<Longrightarrow> (\<And>x. keeps P (h x) e) \<Longrightarrow> keeps P (try_catch m h) e"
  unfolding keeps_def try_catch_def
  by (force split: prod.splits sum.splits)

lemma keepsD: "keeps P m e \<Longrightarrow> P w \<Longrightarrow> P (snd (m e w))"
  by (simp add: keeps_def)

lemma returns_bindD: "returns P (bind m f) e a \<Longrightarrow> keeps P m e \<Longrightarrow> \<exists>b. returns P m e b \<and> returns P (f b) e a"
  unfolding returns_def keeps_def bind_def
  by (fastforce split: prod.splits sum.splits)

lemma returns_pure:
  "returns P (ask f) e a \<Longrightarrow> a = f e"
  "returns P (ret b) e a \<Longrightarrow> a = b"
  "returns P (liftR r) e a \<Longrightarrow> r = Inr a"
  by (auto simp: returns_def ask_def ret_def liftR_def)

lemma establishes_bind:
  "keeps P m e \<Longrightarrow> (\<And>a. returns P m e a \<Longrightarrow> establishes P (f a) e Q) \<Longrightarrow> establishes P (bind m f) e Q"
  unfolding keeps_def establishes_def returns_def bind_def
  by (force split: prod.splits sum.splits)

lemma establishes_andthen_returns:
  "keeps P m e \<Longrightarrow> (\<And>a. returns P m e a \<Longrightarrow> establishes P n e Q) \<Longrightarrow> establishes P (andthen m n) e Q"
  by (auto simp: andthen_def intro: establishes_bind)

lemma establishes_andthen: "keeps P m e \<Longrightarrow> establishes P n e Q \<Longrightarrow> establishes P (andthen m n) e Q"
  by (rule establishes_andthen_returns)

lemma establishes_raise [simp]: "establishes P (raise x) e Q"
  by (simp add: establishes_def raise_def)

lemma establishes_if:
  "(b \<Longrightarrow> establishes P m e Q) \<Longrightarrow> (\<not> b \<Longrightarrow> establishes P n e Q) \<Longrightarrow> establishes P (if b then m else n) e Q"
  by simp

lemma establishes_try_catch:
  "establishes P m e Q \<Longrightarrow> (\<And>x. establishes P (h x) e Q) \<Longrightarrow> establishes P (try_catch m h) e Q"
  unfolding establishes_def try_catch_def
  by (fastforce split: prod.splits sum.splits)

lemma establishes_mono: "establishes P m e Q \<Longrightarrow> (\<And>w. Q w \<Longrightarrow> Q' w) \<Longrightarrow> establishes P m e Q'"
  by (auto simp: establishes_def)

end
