(* ===== verification/VoiceRunner.thy ===== *)
theory VoiceRunner
  imports VoiceDispatch IoMonad
begin

text \<open>
  \<open>compose/nuc/voice-worker/runner.py\<close>: the root service that turns a queued task into a pull
  request. Every command that it runs is an \<open>Exec\<close> event with the literal argument list and
  the environment variables added for it; reading a secret, writing a status or the patch
  file and posting to GitHub are events too. What those interactions answer is the
  environment \<open>env\<close>: output text, or the exception they raise. The state is the directories
  of \<open>VoiceDispatch\<close>, the task dictionary that \<open>write_status\<close> updates in place, the events so far
  and the number of clock readings. Writing files under \<open>/var/lib/voice-worker\<close> is taken to
  succeed.
\<close>

datatype exn =
    CalledProcessError "string list" string  \<comment> \<open>command and standard error\<close>
  | HTTPError nat string
  | OtherError string

datatype agent_outcome =
    TimeoutExpired
  | Exited int string string                 \<comment> \<open>return code, standard output, standard error\<close>

datatype event =
    Exec "string list" "string dict"
  | ReadSecret string
  | WriteStatus task
  | WriteFile string string
  | Post string json string                  \<comment> \<open>URL, body, bearer token\<close>

record runner_cfg =
  owner :: string
  max_minutes :: nat

record env =
  config_file :: "exn + runner_cfg"
  secret_file :: "string \<Rightarrow> exn + string"
  command :: "string list \<Rightarrow> exn + string"
  agent :: "string list \<Rightarrow> agent_outcome"
  post :: "string \<Rightarrow> json \<Rightarrow> exn + json dict"
  parse_json :: "string \<Rightarrow> json option"
  now :: "nat \<Rightarrow> rat"

record world =
  dirs :: vw_dirs
  cur :: task
  trace :: "event list"
  readings :: nat

type_synonym 'a run = "(env, world, exn, 'a) io"

section \<open>Constants\<close>

definition tasks_dir :: string where
  "tasks_dir = ''/var/lib/voice-worker/tasks''"

definition agent_image :: string where
  "agent_image = ''voice-agent:latest''"

definition agent_network :: string where
  "agent_network = ''voice-agent-net''"

definition proxy :: string where
  "proxy = ''http://voice-proxy:3128''"

definition agent_uid :: string where
  "agent_uid = str_of_nat 10001"

text \<open>\<open>FORBIDDEN_PATHS.match\<close>, a match at the start of the path.\<close>

definition forbidden_path :: "string \<Rightarrow> bool" where
  "forbidden_path p \<longleftrightarrow> match_prefix (lit ''.github/'') p \<or> match_prefix (lit ''.git/'') p \<or>
     match_dollar (lit ''.gitmodules'') p \<or> match_dollar (lit ''.gitattributes'') p"

definition agent_prompt :: "string \<Rightarrow> string \<Rightarrow> string" where
  "agent_prompt repo instructions = join [newline]
    [''You are running unattended in a disposable container, on a fresh clone of the'',
     ''`'' @ repo @ ''` repository at /work. No human can answer questions during this run.'',
     [],
     ''Do the task below. Keep changes focused on it. Read the README and CI config to'',
     ''learn how the project is built and tested, install dependencies, and make the'',
     ''project's tests and linters pass before you finish.'',
     [],
     ''Rules:'',
     ''- Never modify anything under .github/ -- changes there are rejected.'',
     ''- Don't try to push, open pull requests, or reach GitHub: the harness does that.'',
     ''- You may commit locally or leave changes uncommitted; either works.'',
     ''- For Node projects, install with `npm ci` and don't change package-lock.json'',
     ''  unless the task is about dependencies.'',
     ''- Network access is limited to Anthropic, PyPI and the npm registry. If a'',
     ''  build needs anything else (e.g. a C++ toolchain fetching from GitHub), skip'',
     ''  it and say so in your summary; CI on the pull request will build it.'',
     [],
     ''Finish with a summary of at most 5 short sentences: what you changed and the'',
     ''test/lint result. It will be read aloud, so no code blocks or file listings.'',
     [],
     ''Task:'',
     instructions,
     []]"

section \<open>Primitive operations\<close>

definition emit :: "event \<Rightarrow> unit run" where
  "emit v = modify (\<lambda>w. w\<lparr>trace := trace w @ [v]\<rparr>)"

definition config :: "runner_cfg run" where
  "config = (\<lambda>e w. (config_file e, w))"

definition secret :: "string \<Rightarrow> string run" where
  "secret name = andthen (emit (ReadSecret name))
     (\<lambda>e w. (map_sum id strip (secret_file e name), w))"

definition clock_time :: "rat run" where
  "clock_time = (\<lambda>e w. (Inr (now e (readings w)), w\<lparr>readings := Suc (readings w)\<rparr>))"

text \<open>\<open>run\<close>: a non-zero exit status raises, since \<open>check=True\<close>.\<close>

definition run_env :: "string list \<Rightarrow> string dict \<Rightarrow> string run" where
  "run_env argv vars = andthen (emit (Exec argv vars)) (\<lambda>e w. (command e argv, w))"

definition run :: "string list \<Rightarrow> string run" where
  "run argv = run_env argv []"

definition git_argv :: "string \<Rightarrow> string list \<Rightarrow> string list" where
  "git_argv repo_dir args =
     [''git'', ''-C'', repo_dir, ''-c'', ''core.hooksPath=/dev/null'', ''-c'', ''core.fsmonitor=false''] @ args"

definition token_vars :: "string \<Rightarrow> string dict" where
  "token_vars tok =
     [(''GIT_CONFIG_COUNT'', ''1''),
      (''GIT_CONFIG_KEY_0'', ''http.https://github.com/.extraheader''),
      (''GIT_CONFIG_VALUE_0'', ''AUTHORIZATION: basic '' @ base64 (''x-access-token:'' @ tok)),
      (''GIT_TERMINAL_PROMPT'', ''0'')]"

definition git :: "string \<Rightarrow> string list \<Rightarrow> string option \<Rightarrow> string run" where
  "git repo_dir args tok = run_env (git_argv repo_dir args)
     (case tok of None \<Rightarrow> [] | Some t \<Rightarrow> if t = [] then [] else token_vars t)"

definition write_status :: "json dict \<Rightarrow> unit run" where
  "write_status upd = (\<lambda>e w.
     let t = AList.update ''updated_at'' (JInt \<lfloor>now e (readings w)\<rfloor>) (dict_update (cur w) upd)
     in (Inr (), w\<lparr>cur := t, readings := Suc (readings w), trace := trace w @ [WriteStatus t],
          dirs := (dirs w)\<lparr>status := AList.update (str_of (jget ''id'' t)) t (status (dirs w))\<rparr>\<rparr>))"

definition task_str :: "string \<Rightarrow> string run" where
  "task_str k = gets (\<lambda>w. str_of (jget k (cur w)))"

section \<open>The agent\<close>

definition agent_argv :: "string \<Rightarrow> string \<Rightarrow> string \<Rightarrow> string list" where
  "agent_argv name work prompt =
     [''docker'', ''run'', ''--rm'', ''--name'', name,
      ''--network'', agent_network,
      ''-e'', ''CLAUDE_CODE_OAUTH_TOKEN'',
      ''-e'', ''HTTPS_PROXY='' @ proxy, ''-e'', ''HTTP_PROXY='' @ proxy,
      ''-e'', ''https_proxy='' @ proxy, ''-e'', ''http_proxy='' @ proxy,
      ''-e'', ''CLAUDE_CODE_DISABLE_NONESSENTIAL_TRAFFIC=1'',
      ''--user'', agent_uid @ '':'' @ agent_uid,
      ''--cap-drop'', ''ALL'', ''--security-opt'', ''no-new-privileges'',
      ''--cpus'', ''2'', ''--memory'', ''4g'', ''--pids-limit'', ''1024'',
      ''-v'', work @ '':/work:Z'', ''-w'', ''/work'',
      agent_image,
      ''claude'', ''-p'', prompt,
      ''--output-format'', ''json'',
      ''--permission-mode'', ''acceptEdits'',
      ''--allowedTools'', ''Bash,Read,Edit,Write,Glob,Grep'',
      ''--permission-prompts'', ''none'']"

definition type_name :: "json \<Rightarrow> string" where
  "type_name j = (case j of JNull \<Rightarrow> ''NoneType'' | JBool _ \<Rightarrow> ''bool'' | JInt _ \<Rightarrow> ''int'' | JFloat _ \<Rightarrow> ''float''
     | JStr _ \<Rightarrow> ''str'' | JList _ \<Rightarrow> ''list'' | JObj _ \<Rightarrow> ''dict'')"

text \<open>What the agent printed: the last line of its output, which has to be a JSON object without
  \<open>is_error\<close>, from a process that returned 0.\<close>

definition agent_result :: "(string \<Rightarrow> json option) \<Rightarrow> int \<Rightarrow> string \<Rightarrow> string \<Rightarrow> exn + json dict" where
  "agent_result parse rc out er =
     (let no_result = OtherError (''agent produced no result (exit '' @ str_of_int rc @ ''): '' @ last_n 400 er) in
      case splitlines (strip out) of
        [] \<Rightarrow> Inl no_result
      | ls \<Rightarrow>
          (case parse (last ls) of
             None \<Rightarrow> Inl no_result
           | Some (JObj result) \<Rightarrow>
               (if truthy (jget ''is_error'' result) \<or> rc \<noteq> 0
                then Inl (OtherError (''agent failed: '' @ take 400 (py_str (get_or (JStr []) ''result'' result))))
                else Inr result)
           | Some j \<Rightarrow> Inl (OtherError ([CHR 0x27] @ type_name j @ [CHR 0x27] @
               '' object has no attribute '' @ [CHR 0x27] @ ''get'' @ [CHR 0x27]))))"

definition run_agent :: "string \<Rightarrow> runner_cfg \<Rightarrow> json dict run" where
  "run_agent work cfg =
     bind (secret ''claude-oauth-token'') (\<lambda>tok.
     bind (task_str ''repo'') (\<lambda>repo.
     bind (task_str ''instructions'') (\<lambda>instructions.
     bind (task_str ''id'') (\<lambda>i.
     let name = ''voice-agent-'' @ i;
         argv = agent_argv name work (agent_prompt repo instructions) in
     andthen (emit (Exec argv [(''CLAUDE_CODE_OAUTH_TOKEN'', tok)]))
     (bind (ask (\<lambda>e. agent e argv)) (\<lambda>outcome.
      case outcome of
        TimeoutExpired \<Rightarrow>
          andthen (emit (Exec [''docker'', ''kill'', name] []))
            (raise (OtherError (''agent ran past the '' @ str_of_nat (max_minutes cfg) @
               ''-minute limit and was stopped'')))
      | Exited rc out er \<Rightarrow> bind (ask parse_json) (\<lambda>parse. liftR (agent_result parse rc out er))))))))"

definition export_argv :: "string \<Rightarrow> string \<Rightarrow> string list" where
  "export_argv work base_sha =
     [''docker'', ''run'', ''--rm'', ''--network'', ''none'', ''--user'', agent_uid @ '':'' @ agent_uid,
      ''--cap-drop'', ''ALL'', ''--security-opt'', ''no-new-privileges'',
      ''-v'', work @ '':/work:Z'', ''--entrypoint'', ''sh'', agent_image, ''-c'',
      ''set -e; cd /work; git add -A; git diff --binary --cached '' @ base_sha @ '' -- . ; '']"

definition export_patch :: "string \<Rightarrow> string \<Rightarrow> string run" where
  "export_patch work base_sha = run (export_argv work base_sha)"

section \<open>The pull request\<close>

text \<open>\<open>s.splitlines()[0]\<close>.\<close>

definition first_line :: "string \<Rightarrow> string run" where
  "first_line s = (case splitlines s of [] \<Rightarrow> raise (OtherError ''list index out of range'') | l # _ \<Rightarrow> ret l)"

text \<open>The dash of the pull request's text, U+2014, as its bytes.\<close>

definition em_dash :: string where
  "em_dash = map char_of [226, 128, 148 :: nat]"

definition pr_body :: "string \<Rightarrow> string \<Rightarrow> string \<Rightarrow> string" where
  "pr_body i instructions summary =
     ''Opened by the voice coding agent (task `'' @ i @ ''`, ADR-0021). **Not merged automatically** '' @
     em_dash @ '' review and merge yourself.'' @ [newline, newline] @
     ''### Request'' @ [newline, newline] @ instructions @ [newline, newline] @
     ''### Agent summary'' @ [newline, newline] @ summary @ [newline]"

definition open_pr :: "string \<Rightarrow> string \<Rightarrow> runner_cfg \<Rightarrow> string \<Rightarrow> json dict run" where
  "open_pr branch summary cfg tok =
     bind (task_str ''instructions'') (\<lambda>instructions.
     bind (task_str ''id'') (\<lambda>i.
     bind (task_str ''repo'') (\<lambda>repo.
     bind (first_line instructions) (\<lambda>line.
     let url = ''https://api.github.com/repos/'' @ owner cfg @ ''/'' @ repo @ ''/pulls'';
         body = JObj [(''title'', JStr (''voice: '' @ take 60 line)), (''head'', JStr branch),
                      (''base'', JStr ''main''), (''body'', JStr (pr_body i instructions summary))] in
     andthen (emit (Post url body tok)) (\<lambda>e w. (post e url body, w))))))"

text \<open>\<open>pr[k]\<close>.\<close>

definition item :: "string \<Rightarrow> json dict \<Rightarrow> json run" where
  "item k d = (case map_of d k of None \<Rightarrow> raise (OtherError (repr_str k)) | Some v \<Rightarrow> ret v)"

section \<open>One task\<close>

definition is_byte_space :: "char \<Rightarrow> bool" where
  "is_byte_space c \<longleftrightarrow> code c \<in> {9, 10, 11, 12, 13, 32}"

definition changed_paths :: "string \<Rightarrow> string list" where
  "changed_paths out = [p \<leftarrow> splitlines out. p \<noteq> []]"

definition diff_args :: "string list" where
  "diff_args = [''diff'', ''--cached'', ''--no-renames'', ''--name-only'']"

definition push_args :: "string \<Rightarrow> string list" where
  "push_args branch = [''push'', ''--quiet'', ''origin'', ''HEAD:refs/heads/'' @ branch]"

definition minutes_since :: "rat \<Rightarrow> rat \<Rightarrow> json" where
  "minutes_since started t = JFloat (fixed1 ((t - started) / 60))"

text \<open>From the patch to the pull request: the part of \<open>process\<close> after \<open>export_patch\<close> found changes.\<close>

definition publish :: "string \<Rightarrow> runner_cfg \<Rightarrow> string \<Rightarrow> string \<Rightarrow> rat \<Rightarrow> unit run" where
  "publish tdir cfg patch summary started =
     (let pristine = tdir @ ''/pristine'' in
     andthen (emit (WriteFile (tdir @ ''/task.patch'') patch))
     (bind (task_str ''id'') (\<lambda>i.
     bind (task_str ''instructions'') (\<lambda>instructions.
     let branch = ''voice/'' @ i in
     andthen (git pristine [''checkout'', ''--quiet'', ''-b'', branch] None)
     (andthen (git pristine [''apply'', ''--index'', ''--binary'', ''--whitespace=nowarn'', tdir @ ''/task.patch''] None)
     (bind (git pristine diff_args None) (\<lambda>out.
     let paths = changed_paths out; bad = filter forbidden_path paths in
     if bad \<noteq> [] then
       raise (OtherError (''agent changed protected paths '' @ repr (JList (map JStr bad)) @ ''; nothing was pushed''))
     else
     bind (secret ''github-token'') (\<lambda>tok.
     bind (first_line instructions) (\<lambda>line.
     andthen (git pristine [''-c'', ''user.name=voice-agent'', ''-c'',
         ''user.email=voice-agent@'' @ owner cfg @ ''.invalid'',
         ''commit'', ''--quiet'', ''-m'', ''voice: '' @ take 60 line,
         ''-m'', ''Voice task '' @ i @ '' (ADR-0021).'' @ [newline, newline] @ summary] None)
     (andthen (write_status [(''step'', JStr ''pushing''), (''files_changed'', JInt (int (length paths)))])
     (andthen (git pristine (push_args branch) (Some tok))
     (bind (open_pr branch summary cfg tok) (\<lambda>pr.
     bind (item ''html_url'' pr) (\<lambda>url.
     bind (item ''number'' pr) (\<lambda>number.
     bind clock_time (\<lambda>t.
     write_status [(''state'', JStr ''done''), (''step'', JStr ''pr opened''), (''pr_url'', url),
       (''pr_number'', number), (''branch'', JStr branch), (''minutes'', minutes_since started t)]))))))))))))))))"

definition process :: "unit run" where
  "process =
     bind config (\<lambda>cfg.
     bind (task_str ''id'') (\<lambda>i.
     bind (task_str ''repo'') (\<lambda>repo.
     let tdir = tasks_dir @ ''/'' @ i; pristine = tdir @ ''/pristine''; work = tdir @ ''/work'';
         url = ''https://github.com/'' @ owner cfg @ ''/'' @ repo @ ''.git'' in
     bind clock_time (\<lambda>started.
     andthen (write_status [(''state'', JStr ''running''), (''step'', JStr ''cloning''),
         (''started_at'', JInt \<lfloor>started\<rfloor>)])
     (andthen (run [''git'', ''clone'', ''--quiet'', url, pristine])
     (bind (git pristine [''rev-parse'', ''HEAD''] None) (\<lambda>out.
     let base_sha = strip out in
     andthen (run [''git'', ''clone'', ''--quiet'', ''--no-hardlinks'', pristine, work])
     (andthen (run [''chown'', ''-R'', agent_uid @ '':'' @ agent_uid, work])
     (andthen (write_status [(''step'', JStr ''agent working''), (''base_sha'', JStr base_sha)])
     (bind (run_agent work cfg) (\<lambda>result.
     let summary = take 2000 (strip (py_str (get_or (JStr []) ''result'' result))) in
     andthen (write_status [(''step'', JStr ''collecting changes''), (''summary'', JStr summary),
         (''cost_usd'', jget ''total_cost_usd'' result)])
     (bind (export_patch work base_sha) (\<lambda>patch.
     if list_all is_byte_space patch then
       bind clock_time (\<lambda>t.
       write_status [(''state'', JStr ''done''), (''step'', JStr ''no changes''), (''pr_url'', JNull),
         (''minutes'', minutes_since started t),
         (''message'', JStr ''The agent finished without changing any files, so no PR was opened.'')])
     else publish tdir cfg patch summary started)))))))))))))"

section \<open>The loop of \<open>main\<close>\<close>

definition failure_text :: "exn \<Rightarrow> string" where
  "failure_text x = (case x of
      CalledProcessError cmd er \<Rightarrow> join '' '' (take 3 cmd) @ '' failed: '' @ last_n 400 er
    | HTTPError c body \<Rightarrow> ''GitHub API '' @ str_of_nat c @ '': '' @ take 300 body
    | OtherError m \<Rightarrow> take 500 m)"

definition process_or_fail :: "unit run" where
  "process_or_fail = try_catch process
     (\<lambda>x. write_status [(''state'', JStr ''failed''), (''error'', JStr (failure_text x))])"

text \<open>Taking the first queued task: its file is read and removed.\<close>

definition pop_task :: "vw_dirs \<Rightarrow> (task \<times> vw_dirs) option" where
  "pop_task d = (case sorted_set (keys (queue d)) of
      [] \<Rightarrow> None
    | i # _ \<Rightarrow> Some (the (map_of (queue d) i), d\<lparr>queue := AList.delete i (queue d)\<rparr>))"

definition run_next :: "env \<Rightarrow> vw_dirs \<Rightarrow> world option" where
  "run_next e d = map_option (\<lambda>(t, d').
     snd (process_or_fail e \<lparr>dirs = d', cur = t, trace = [], readings = 0\<rparr>)) (pop_task d)"

end
