(* ===== verification/VoiceRunnerSafety.thy ===== *)
theory VoiceRunnerSafety
  imports VoiceRunner
begin

text \<open>
  What the runner guarantees for every answer of the outside world: a task always ends with a
  final status, other tasks are left alone, git runs only in the pristine clone, and the
  GitHub token is read and used only after the check of the changed paths has passed.
\<close>

section \<open>Primitive operations keep a condition\<close>

lemma emit_eq: "emit v e w = (Inr (), w\<lparr>trace := trace w @ [v]\<rparr>)"
  by (simp add: emit_def modify_def)

lemma run_env_eq: "run_env argv vars e w = (command e argv, w\<lparr>trace := trace w @ [Exec argv vars]\<rparr>)"
  by (simp add: run_env_def andthen_def bind_def emit_eq)

lemma secret_eq:
  "secret n e w = (map_sum id strip (secret_file e n), w\<lparr>trace := trace w @ [ReadSecret n]\<rparr>)"
  by (simp add: secret_def andthen_def bind_def emit_eq)

lemma returns_run_env: "returns P (run_env argv vars) e a \<Longrightarrow> command e argv = Inr a"
  by (auto simp: returns_def run_env_eq)

lemma returns_git: "returns P (git dir args tok) e a \<Longrightarrow> command e (git_argv dir args) = Inr a"
  by (simp add: git_def returns_run_env)

lemma returns_run: "returns P (run argv) e a \<Longrightarrow> command e argv = Inr a"
  by (simp add: run_def returns_run_env)

lemma keeps_task_str [simp]: "keeps P (task_str k) e"
  by (simp add: task_str_def)

lemma keeps_config [simp]: "keeps P config e"
  by (simp add: keeps_def config_def)

lemma keeps_first_line [simp]: "keeps P (first_line s) e"
  by (auto simp: first_line_def split: list.split)

lemma keeps_item [simp]: "keeps P (item k d) e"
  by (auto simp: item_def split: option.split)

lemma keeps_emit: "(\<And>w. P w \<Longrightarrow> P (w\<lparr>trace := trace w @ [v]\<rparr>)) \<Longrightarrow> keeps P (emit v) e"
  by (simp add: keeps_def emit_eq)

lemma keeps_secret:
  "(\<And>w. P w \<Longrightarrow> P (w\<lparr>trace := trace w @ [ReadSecret n]\<rparr>)) \<Longrightarrow> keeps P (secret n) e"
  by (simp add: keeps_def secret_eq)

lemma keeps_run_env:
  "(\<And>w. P w \<Longrightarrow> P (w\<lparr>trace := trace w @ [Exec argv vars]\<rparr>)) \<Longrightarrow> keeps P (run_env argv vars) e"
  by (simp add: keeps_def run_env_eq)

lemma keeps_clock: "(\<And>w n. P w \<Longrightarrow> P (w\<lparr>readings := n\<rparr>)) \<Longrightarrow> keeps P clock_time e"
  by (simp add: keeps_def clock_time_def)

section \<open>The state a run keeps\<close>

text \<open>While task \<open>i\<close> is processed, the queue, the health file and every other task's status are as in
  \<open>d\<close>, the task dictionary is still that of \<open>i\<close>, and every event so far satisfies \<open>V\<close>.\<close>

definition working :: "string \<Rightarrow> vw_dirs \<Rightarrow> (event \<Rightarrow> bool) \<Rightarrow> world \<Rightarrow> bool" where
  "working i d V w \<longleftrightarrow>
     jget ''id'' (cur w) = JStr i \<and>
     queue (dirs w) = queue d \<and> health (dirs w) = health d \<and>
     (\<forall>j. j \<noteq> i \<longrightarrow> map_of (status (dirs w)) j = map_of (status d) j) \<and>
     (\<forall>v\<in>set (trace w). V v)"

lemma working_emit: "working i d V w \<Longrightarrow> V v \<Longrightarrow> working i d V (w\<lparr>trace := trace w @ [v]\<rparr>)"
  by (auto simp: working_def)

lemma working_clock: "working i d V w \<Longrightarrow> working i d V (w\<lparr>readings := n\<rparr>)"
  by (auto simp: working_def)

lemma jget_dict_update_other: "k \<notin> set (keys u) \<Longrightarrow> jget k (dict_update t u) = jget k t"
proof -
  have "k \<notin> set (keys u) \<Longrightarrow> jget k (fold (\<lambda>(k, v). AList.update k v) u t) = jget k t"
    by (induction u arbitrary: t) auto
  then show "k \<notin> set (keys u) \<Longrightarrow> ?thesis"
    by (simp add: dict_update_def)
qed

definition new_status :: "json dict \<Rightarrow> env \<Rightarrow> world \<Rightarrow> task" where
  "new_status u e w = AList.update ''updated_at'' (JInt \<lfloor>now e (readings w)\<rfloor>) (dict_update (cur w) u)"

lemma new_status_id: "''id'' \<notin> set (keys u) \<Longrightarrow> jget ''id'' (new_status u e w) = jget ''id'' (cur w)"
  by (simp add: new_status_def jget_dict_update_other)

lemma new_status_state:
  "distinct (keys u) \<Longrightarrow> map_of u ''state'' = Some v \<Longrightarrow> jget ''state'' (new_status u e w) = v"
  by (simp add: new_status_def jget_def get_or_def map_of_dict_update)

text \<open>\<open>write_status\<close> of fields other than \<open>id\<close> writes the file of this task and no other, and the file
  then holds the updated dictionary.\<close>

lemma write_status_eq:
  "write_status u e w = (Inr (), w\<lparr>cur := new_status u e w, readings := Suc (readings w),
     trace := trace w @ [WriteStatus (new_status u e w)],
     dirs := (dirs w)\<lparr>status := AList.update (str_of (jget ''id'' (new_status u e w)))
        (new_status u e w) (status (dirs w))\<rparr>\<rparr>)"
  by (simp add: write_status_def new_status_def Let_def)

lemma working_write_status:
  assumes "working i d V w" and "''id'' \<notin> set (keys u)" and "\<And>t. V (WriteStatus t)"
  shows "working i d V (snd (write_status u e w))"
  using assms by (auto simp: write_status_eq working_def new_status_id str_of_def)

lemma write_status_own:
  assumes "working i d V w" and "''id'' \<notin> set (keys u)"
  shows "map_of (status (dirs (snd (write_status u e w)))) i = Some (cur (snd (write_status u e w)))"
  using assms by (simp add: write_status_eq working_def new_status_id str_of_def)

lemma keeps_write_status:
  assumes "''id'' \<notin> set (keys u)" and "\<And>t. V (WriteStatus t)"
  shows "keeps (working i d V) (write_status u) e"
  using working_write_status assms by (auto simp: keeps_def)

definition ended :: "string \<Rightarrow> string \<Rightarrow> world \<Rightarrow> bool" where
  "ended i s w \<longleftrightarrow> map_of (status (dirs w)) i = Some (cur w) \<and> jget ''state'' (cur w) = JStr s"

lemma ended_state:
  "ended i s w \<Longrightarrow> JStr s \<in> A \<Longrightarrow> \<exists>t. map_of (status (dirs w)) i = Some t \<and> jget ''state'' t \<in> A"
  by (rule exI [of _ "cur w"]) (simp add: ended_def)

lemma establishes_write_status:
  assumes "''id'' \<notin> set (keys u)" and "distinct (keys u)" and "map_of u ''state'' = Some (JStr s)"
    and "\<And>t. V (WriteStatus t)"
  shows "establishes (working i d V) (write_status u) e (ended i s)"
  unfolding establishes_def ended_def
proof (intro allI impI conjI)
  fix w assume w: "working i d V w"
  show "working i d V (snd (write_status u e w))"
    using working_write_status [OF w assms(1,4)] .
  show "map_of (status (dirs (snd (write_status u e w)))) i = Some (cur (snd (write_status u e w)))"
    using write_status_own [OF w assms(1)] .
  show "jget ''state'' (cur (snd (write_status u e w))) = JStr s"
    using new_status_state [OF assms(2,3)] by (simp add: write_status_eq)
qed

lemma returns_id: "returns (working i d V) (task_str ''id'') e a \<Longrightarrow> a = i"
  by (auto simp: returns_def task_str_def gets_def working_def str_of_def)

section \<open>What the events of a run may be\<close>

definition task_dir :: "string \<Rightarrow> string" where
  "task_dir i = tasks_dir @ ''/'' @ i"

definition pristine_of :: "string \<Rightarrow> string" where
  "pristine_of i = task_dir i @ ''/pristine''"

definition work_of :: "string \<Rightarrow> string" where
  "work_of i = task_dir i @ ''/work''"

text \<open>The check passed: the pristine clone listed the changed paths, and none is protected.\<close>

definition paths_checked :: "env \<Rightarrow> string \<Rightarrow> bool" where
  "paths_checked e i \<longleftrightarrow>
     (\<exists>out. command e (git_argv (pristine_of i) diff_args) = Inr out \<and>
        (\<forall>p\<in>set (changed_paths out). \<not> forbidden_path p))"

text \<open>The agent's container finished and its tree differs from the base.\<close>

definition patch_exported :: "env \<Rightarrow> string \<Rightarrow> bool" where
  "patch_exported e i \<longleftrightarrow>
     (\<exists>base patch. command e (export_argv (work_of i) base) = Inr patch \<and> \<not> list_all is_byte_space patch)"

text \<open>The arguments of git: the repository is cloned from GitHub to the pristine clone, that one to the tree for the
  agent, and all else is done in the pristine clone.\<close>

definition is_clone :: "string \<Rightarrow> string list \<Rightarrow> bool" where
  "is_clone i args \<longleftrightarrow>
     (\<exists>name. args = [''clone'', ''--quiet'', ''https://github.com/'' @ name, pristine_of i]) \<or>
     args = [''clone'', ''--quiet'', ''--no-hardlinks'', pristine_of i, work_of i]"

definition git_ok :: "string \<Rightarrow> string list \<Rightarrow> bool" where
  "git_ok i args \<longleftrightarrow> is_clone i args \<or> (\<exists>more. args = ''-C'' # pristine_of i # more)"

definition event_ok :: "env \<Rightarrow> string \<Rightarrow> event \<Rightarrow> bool" where
  "event_ok e i v = (case v of
      Exec argv vars \<Rightarrow>
        (\<forall>args. argv = ''git'' # args \<longrightarrow> git_ok i args) \<and>
        (''GIT_CONFIG_VALUE_0'' \<in> set (keys vars) \<longrightarrow>
           argv = git_argv (pristine_of i) (push_args (''voice/'' @ i)) \<and>
           paths_checked e i \<and> patch_exported e i)
    | ReadSecret n \<Rightarrow> (n = ''github-token'' \<longrightarrow> paths_checked e i \<and> patch_exported e i)
    | Post url body tok \<Rightarrow> paths_checked e i \<and> patch_exported e i \<and>
        (\<exists>out. command e (git_argv (pristine_of i) (push_args (''voice/'' @ i))) = Inr out)
    | WriteStatus t \<Rightarrow> True
    | WriteFile f s \<Rightarrow> True)"

abbreviation guarded :: "env \<Rightarrow> string \<Rightarrow> vw_dirs \<Rightarrow> world \<Rightarrow> bool" where
  "guarded e i d \<equiv> working i d (event_ok e i)"

lemma event_ok_status [simp]: "event_ok e i (WriteStatus t)" "event_ok e i (WriteFile f s)"
  by (simp_all add: event_ok_def)

lemma keeps_guarded_status: "''id'' \<notin> set (keys u) \<Longrightarrow> keeps (guarded e i d) (write_status u) e"
  by (rule keeps_write_status) simp_all

lemma keeps_guarded_exec:
  "event_ok e i (Exec argv vars) \<Longrightarrow> keeps (guarded e i d) (run_env argv vars) e"
  by (rule keeps_run_env) (simp add: working_emit)


lemma keeps_guarded_emit: "event_ok e i v \<Longrightarrow> keeps (guarded e i d) (emit v) e"
  by (rule keeps_emit) (simp add: working_emit)

lemma keeps_guarded_git: "keeps (guarded e i d) (git (pristine_of i) args None) e"
  unfolding git_def by (rule keeps_guarded_exec) (simp add: event_ok_def git_argv_def git_ok_def)

lemma keeps_guarded_run:
  "(\<And>args. argv = ''git'' # args \<Longrightarrow> is_clone i args) \<Longrightarrow> keeps (guarded e i d) (run argv) e"
  unfolding run_def by (rule keeps_guarded_exec) (auto simp: event_ok_def git_ok_def)

lemma keeps_guarded_clones:
  "keeps (guarded e i d) (run [''git'', ''clone'', ''--quiet'', ''https://github.com/'' @ name, pristine_of i]) e"
  "keeps (guarded e i d) (run [''git'', ''clone'', ''--quiet'', ''--no-hardlinks'', pristine_of i, work_of i]) e"
  by (rule keeps_guarded_run, unfold is_clone_def list.inject, blast)+

lemma keeps_guarded_push:
  "paths_checked e i \<Longrightarrow> patch_exported e i \<Longrightarrow>
     keeps (guarded e i d) (git (pristine_of i) (push_args (''voice/'' @ i)) (Some tok)) e"
  unfolding git_def by (rule keeps_guarded_exec) (simp add: event_ok_def git_argv_def git_ok_def)

lemma keeps_guarded_secret:
  "(n = ''github-token'' \<longrightarrow> paths_checked e i \<and> patch_exported e i) \<Longrightarrow> keeps (guarded e i d) (secret n) e"
  by (rule keeps_secret) (simp add: working_emit event_ok_def)

lemma keeps_guarded_clock: "keeps (guarded e i d) clock_time e"
  by (rule keeps_clock) (rule working_clock)

lemmas keeps_guarded = keeps_bind keeps_andthen keeps_if keeps_guarded_status keeps_guarded_git
  keeps_guarded_emit keeps_guarded_secret keeps_guarded_clock keeps_guarded_push

lemma keeps_run_agent: "keeps (guarded e i d) (run_agent work cfg) e"
  unfolding run_agent_def Let_def
  by (intro keeps_guarded keeps_pure keeps_task_str)
    (auto simp: event_ok_def agent_argv_def split: agent_outcome.split
       intro!: keeps_guarded keeps_pure)

lemma keeps_open_pr:
  assumes "paths_checked e i" and "patch_exported e i"
    and "command e (git_argv (pristine_of i) (push_args (''voice/'' @ i))) = Inr out"
  shows "keeps (guarded e i d) (open_pr branch summary cfg tok) e"
  unfolding open_pr_def Let_def
  using assms
  by (intro keeps_guarded keeps_pure keeps_task_str keeps_first_line) (auto simp: event_ok_def keeps_def)

section \<open>One task, end to end\<close>

lemma establishes_finish:
  "''id'' \<notin> set (keys u) \<Longrightarrow> distinct (keys u) \<Longrightarrow> map_of u ''state'' = Some (JStr s) \<Longrightarrow>
     establishes (guarded e i d) (write_status u) e (ended i s)"
  by (rule establishes_write_status) simp_all

lemma establishes_publish:
  assumes "patch_exported e i"
  shows "establishes (guarded e i d) (publish (task_dir i) cfg patch summary started) e (ended i ''done'')"
  unfolding publish_def Let_def pristine_of_def [symmetric]
proof (rule establishes_andthen [OF keeps_guarded_emit], simp,
    rule establishes_bind [OF keeps_task_str], drule returns_id, hypsubst,
    rule establishes_bind [OF keeps_task_str], rule establishes_andthen [OF keeps_guarded_git],
    rule establishes_andthen [OF keeps_guarded_git], rule establishes_bind [OF keeps_guarded_git],
    rule establishes_if [OF establishes_raise])
  fix instructions out
  assume "returns (guarded e i d) (git (pristine_of i) diff_args None) e out"
    and "\<not> filter forbidden_path (changed_paths out) \<noteq> []"
  then have checked: "paths_checked e i"
    by (auto simp: paths_checked_def filter_empty_conv dest: returns_git)
  note ok = checked assms
  show "establishes (guarded e i d)
    (bind (secret ''github-token'') (\<lambda>tok.
     bind (first_line instructions) (\<lambda>line.
     andthen (git (pristine_of i) [''-c'', ''user.name=voice-agent'', ''-c'',
         ''user.email=voice-agent@'' @ owner cfg @ ''.invalid'',
         ''commit'', ''--quiet'', ''-m'', ''voice: '' @ take 60 line,
         ''-m'', ''Voice task '' @ i @ '' (ADR-0021).'' @ [newline, newline] @ summary] None)
     (andthen (write_status [(''step'', JStr ''pushing''), (''files_changed'', JInt (int (length (changed_paths out))))])
     (andthen (git (pristine_of i) (push_args (''voice/'' @ i)) (Some tok))
     (bind (open_pr (''voice/'' @ i) summary cfg tok) (\<lambda>pr.
     bind (item ''html_url'' pr) (\<lambda>url.
     bind (item ''number'' pr) (\<lambda>number.
     bind clock_time (\<lambda>t.
     write_status [(''state'', JStr ''done''), (''step'', JStr ''pr opened''), (''pr_url'', url),
       (''pr_number'', number), (''branch'', JStr (''voice/'' @ i)), (''minutes'', minutes_since started t)])))))))))) e (ended i ''done'')"
  proof (rule establishes_bind [OF keeps_guarded_secret], use ok in simp,
      rule establishes_bind [OF keeps_first_line], rule establishes_andthen [OF keeps_guarded_git],
      rule establishes_andthen [OF keeps_guarded_status], simp,
      rule establishes_andthen_returns [OF keeps_guarded_push [OF ok]])
    fix tok line pushed
    assume "returns (guarded e i d) (git (pristine_of i) (push_args (''voice/'' @ i)) (Some tok)) e pushed"
    then have push: "command e (git_argv (pristine_of i) (push_args (''voice/'' @ i))) = Inr pushed"
      by (rule returns_git)
    show "establishes (guarded e i d)
      (bind (open_pr (''voice/'' @ i) summary cfg tok) (\<lambda>pr.
       bind (item ''html_url'' pr) (\<lambda>url.
       bind (item ''number'' pr) (\<lambda>number.
       bind clock_time (\<lambda>t.
       write_status [(''state'', JStr ''done''), (''step'', JStr ''pr opened''), (''pr_url'', url),
         (''pr_number'', number), (''branch'', JStr (''voice/'' @ i)), (''minutes'', minutes_since started t)])))))
      e (ended i ''done'')"
      by (intro establishes_bind keeps_open_pr [OF ok push] keeps_item keeps_guarded_clock establishes_finish) simp_all
  qed
qed

lemma establishes_process: "establishes (guarded e i d) process e (ended i ''done'')"
  unfolding process_def Let_def task_dir_def [symmetric] pristine_of_def [symmetric] work_of_def [symmetric]
proof (rule establishes_bind [OF keeps_config], rule establishes_bind [OF keeps_task_str],
    drule returns_id, hypsubst, rule establishes_bind [OF keeps_task_str],
    rule establishes_bind [OF keeps_guarded_clock],
    rule establishes_andthen [OF keeps_guarded_status], simp,
    rule establishes_andthen [OF keeps_guarded_clones(1)],
    rule establishes_bind [OF keeps_guarded_git],
    rule establishes_andthen [OF keeps_guarded_clones(2)],
    rule establishes_andthen [OF keeps_guarded_run], simp,
    rule establishes_andthen [OF keeps_guarded_status], simp,
    rule establishes_bind [OF keeps_run_agent],
    rule establishes_andthen [OF keeps_guarded_status], simp,
    rule establishes_bind, unfold export_patch_def, rule keeps_guarded_run, simp add: export_argv_def,
    rule establishes_if)
  fix cfg started out result patch
  assume "returns (guarded e i d) (run (export_argv (work_of i) (strip out))) e patch"
    and "\<not> list_all is_byte_space patch"
  then have "patch_exported e i"
    by (auto simp: patch_exported_def dest: returns_run)
  then show "establishes (guarded e i d) (publish (task_dir i) cfg patch
      (take 2000 (strip (py_str (get_or (JStr []) ''result'' result)))) started) e (ended i ''done'')"
    by (rule establishes_publish)
qed (intro establishes_bind keeps_guarded_clock establishes_finish; simp)

lemma establishes_process_or_fail:
  "establishes (guarded e i d) process_or_fail e (\<lambda>w. ended i ''done'' w \<or> ended i ''failed'' w)"
  unfolding process_or_fail_def
  by (rule establishes_try_catch, rule establishes_mono [OF establishes_process], simp,
      rule establishes_mono [OF establishes_finish [where s = "''failed''"]], simp_all)

section \<open>The loop\<close>

lemma pop_task_Some:
  assumes "pop_task d = Some (t, d')"
  obtains i where "map_of (queue d) i = Some t" and "\<And>j. j \<in> set (keys (queue d)) \<Longrightarrow> i \<le> j"
    and "d' = d\<lparr>queue := AList.delete i (queue d)\<rparr>"
proof -
  obtain i rest where s: "sorted_set (keys (queue d)) = i # rest"
    and t: "t = the (map_of (queue d) i)" and d': "d' = d\<lparr>queue := AList.delete i (queue d)\<rparr>"
    using assms by (auto simp: pop_task_def split: list.splits)
  have keys: "set (keys (queue d)) = set (i # rest)" "sorted (i # rest)"
    using set_sorted_set [of "keys (queue d)"] sorted_sorted_set [of "keys (queue d)"] s by simp_all
  then have "i \<in> set (keys (queue d))" by simp
  then have "map_of (queue d) i \<noteq> None" by (simp add: map_of_eq_None_iff)
  with t have some: "map_of (queue d) i = Some t" by auto
  have least: "\<And>j. j \<in> set (keys (queue d)) \<Longrightarrow> i \<le> j"
    using keys by auto
  show thesis by (rule that [OF some least d'])
qed

lemma run_next_Some:
  assumes ok: "queue_ok cfg d" and run: "run_next e d = Some w"
  obtains i where "i \<in> set (keys (queue d))" and "\<And>j. j \<in> set (keys (queue d)) \<Longrightarrow> i \<le> j"
    and "guarded e i (d\<lparr>queue := AList.delete i (queue d)\<rparr>) w"
    and "ended i ''done'' w \<or> ended i ''failed'' w"
    and "\<exists>t. process_or_fail e \<lparr>dirs = d\<lparr>queue := AList.delete i (queue d)\<rparr>, cur = t, trace = [], readings = 0\<rparr>
           = (Inr (), w)"
proof -
  obtain t d' where pop: "pop_task d = Some (t, d')"
    and w: "w = snd (process_or_fail e \<lparr>dirs = d', cur = t, trace = [], readings = 0\<rparr>)"
    using run by (auto simp: run_next_def)
  obtain i where i: "map_of (queue d) i = Some t" "\<And>j. j \<in> set (keys (queue d)) \<Longrightarrow> i \<le> j"
    "d' = d\<lparr>queue := AList.delete i (queue d)\<rparr>"
    using pop_task_Some [OF pop] by blast
  let ?w0 = "\<lparr>dirs = d', cur = t, trace = [], readings = 0\<rparr>"
  have "(i, t) \<in> set (queue d)" using i(1) by (rule map_of_SomeD)
  then have "jget ''id'' t = JStr i"
    using ok by (auto simp: queue_ok_def queued_ok_def)
  then have "guarded e i d' ?w0"
    by (simp add: working_def)
  then have g: "guarded e i d' w" and e: "(\<exists>a. fst (process_or_fail e ?w0) = Inr a) \<Longrightarrow> ended i ''done'' w \<or> ended i ''failed'' w"
    using establishes_process_or_fail [of i d' e] unfolding establishes_def w by blast+
  have "\<exists>a. fst (process_or_fail e ?w0) = Inr a"
    by (auto simp: process_or_fail_def try_catch_def write_status_eq split: prod.splits sum.splits)
  then have "process_or_fail e ?w0 = (Inr (), w)"
    by (auto simp: w prod_eq_iff)
  then show thesis
    using that [of i] i(2,3) g e \<open>(i, t) \<in> set (queue d)\<close> by (force simp: image_iff)
qed

text \<open>C7: whatever the outside world answers, processing the next task takes the smallest identifier
  out of the queue, ends with that task's status file saying \<open>done\<close> or \<open>failed\<close>, and changes no
  other task's queue entry or status.\<close>

theorem run_next_final_status:
  assumes "queue_ok cfg d" and "run_next e d = Some w"
  shows "\<exists>i\<in>set (keys (queue d)). (\<forall>j\<in>set (keys (queue d)). i \<le> j) \<and>
    queue (dirs w) = AList.delete i (queue d) \<and>
    (\<exists>t. map_of (status (dirs w)) i = Some t \<and> jget ''state'' t \<in> {JStr ''done'', JStr ''failed''}) \<and>
    (\<forall>j. j \<noteq> i \<longrightarrow> map_of (status (dirs w)) j = map_of (status d) j)"
proof (rule run_next_Some [OF assms], rule bexI, intro conjI ballI)
  fix i
  assume i: "i \<in> set (keys (queue d))" and least: "\<And>j. j \<in> set (keys (queue d)) \<Longrightarrow> i \<le> j"
    and g: "guarded e i (d\<lparr>queue := AList.delete i (queue d)\<rparr>) w"
    and fin: "ended i ''done'' w \<or> ended i ''failed'' w"
  show "i \<in> set (keys (queue d))" by (rule i)
  show "i \<le> j" if "j \<in> set (keys (queue d))" for j using that by (rule least)
  show "queue (dirs w) = AList.delete i (queue d)"
    and "\<forall>j. j \<noteq> i \<longrightarrow> map_of (status (dirs w)) j = map_of (status d) j"
    using g by (simp_all add: working_def)
  show "\<exists>t. map_of (status (dirs w)) i = Some t \<and> jget ''state'' t \<in> {JStr ''done'', JStr ''failed''}"
    using fin by (elim disjE) (rule ended_state, assumption, simp)+
qed

definition queued_dirs :: vw_dirs where
  "queued_dirs = snd (start sample_cfg idle_dirs (Some sample_request) sample_clock)"

definition no_config_env :: env where
  "no_config_env = \<lparr>config_file = Inl (OtherError ''no such file''),
     secret_file = (\<lambda>_. Inr []), command = (\<lambda>_. Inr []), agent = (\<lambda>_. TimeoutExpired),
     post = (\<lambda>_ _. Inr []), parse_json = (\<lambda>_. None), now = (\<lambda>n. of_nat n)\<rparr>"

lemma queued_dirs_ok: "queue_ok sample_cfg queued_dirs"
  unfolding queued_dirs_def
  by (rule start_queue_ok) (simp_all add: queue_ok_def idle_dirs_def clock_ok_def sample_clock_def)

lemma queued_dirs_queue:
  "queue queued_dirs = [(new_id sample_clock, new_task sample_clock ''hue'' ''fix the README'' (JStr []))]"
  by (simp add: queued_dirs_def sample_start queue_new_def) (simp add: idle_dirs_def sample_fields_def get_or_def)

theorem run_next_final_status_witness:
  "\<exists>w i. run_next no_config_env queued_dirs = Some w \<and> queue (dirs w) = AList.delete i (queue queued_dirs) \<and>
     (\<exists>t. map_of (status (dirs w)) i = Some t \<and> jget ''state'' t \<in> {JStr ''done'', JStr ''failed''})"
proof -
  have "run_next no_config_env queued_dirs \<noteq> None"
    by (simp add: queued_dirs_queue run_next_def pop_task_def sorted_set_def)
  then obtain w where w: "run_next no_config_env queued_dirs = Some w" by auto
  then show ?thesis
    using run_next_final_status [OF queued_dirs_ok w] by blast
qed

text \<open>C3: the GitHub token is read, put into a command's environment, or used to open a pull request
  only after the pristine clone has listed the changed paths and none of them is protected, and
  after the agent's container has exported a patch that is not blank; the only command that gets
  the token is the push of the branch \<open>voice/<id>\<close>.\<close>

theorem token_after_path_check:
  assumes "queue_ok cfg d" and "run_next e d = Some w"
    and "ReadSecret ''github-token'' \<in> set (trace w) \<or> Post url body tok \<in> set (trace w) \<or>
         (Exec argv vars \<in> set (trace w) \<and> ''GIT_CONFIG_VALUE_0'' \<in> set (keys vars))"
  shows "\<exists>i\<in>set (keys (queue d)). paths_checked e i \<and> patch_exported e i \<and>
     (Exec argv vars \<in> set (trace w) \<and> ''GIT_CONFIG_VALUE_0'' \<in> set (keys vars) \<longrightarrow>
        argv = git_argv (pristine_of i) (push_args (''voice/'' @ i)))"
proof -
  obtain i where i: "i \<in> set (keys (queue d))"
    and g: "guarded e i (d\<lparr>queue := AList.delete i (queue d)\<rparr>) w"
    using run_next_Some [OF assms(1,2)] by metis
  have ev: "v \<in> set (trace w) \<Longrightarrow> event_ok e i v" for v
    using g by (auto simp: working_def)
  show ?thesis
    using assms(3) i ev [of "ReadSecret ''github-token''"] ev [of "Post url body tok"] ev [of "Exec argv vars"]
    by (intro bexI [of _ i]) (auto simp: event_ok_def)
qed

section \<open>The clones come before the containers\<close>

text \<open>A condition on the events so far that a kind of events does not break is kept by operations that emit only
  such events.\<close>

definition traced :: "(event list \<Rightarrow> bool) \<Rightarrow> world \<Rightarrow> bool" where
  "traced T w \<longleftrightarrow> T (trace w)"

locale unbroken =
  fixes T :: "event list \<Rightarrow> bool" and V :: "event \<Rightarrow> bool"
  assumes event_fine: "T vs \<Longrightarrow> V v \<Longrightarrow> T (vs @ [v])"
    and not_exec: "(\<And>argv vars. v \<noteq> Exec argv vars) \<Longrightarrow> V v"
begin

lemma keeps_traced_emit: "V v \<Longrightarrow> keeps (traced T) (emit v) e"
  by (rule keeps_emit) (simp add: traced_def event_fine)

lemma keeps_traced_run_env: "V (Exec argv vars) \<Longrightarrow> keeps (traced T) (run_env argv vars) e"
  by (rule keeps_run_env) (simp add: traced_def event_fine)

lemma keeps_traced_run: "V (Exec argv []) \<Longrightarrow> keeps (traced T) (run argv) e"
  unfolding run_def by (rule keeps_traced_run_env)

lemma keeps_traced_git: "(\<And>vars. V (Exec (git_argv dir args) vars)) \<Longrightarrow> keeps (traced T) (git dir args tok) e"
  unfolding git_def by (rule keeps_traced_run_env)

lemma keeps_traced_status: "keeps (traced T) (write_status u) e"
  by (simp add: keeps_def write_status_eq traced_def event_fine not_exec)

lemma keeps_traced_secret: "keeps (traced T) (secret n) e"
  by (rule keeps_secret) (simp add: traced_def event_fine not_exec)

lemma keeps_traced_clock: "keeps (traced T) clock_time e"
  by (rule keeps_clock) (simp add: traced_def)

lemmas keeps_traced = keeps_bind keeps_andthen keeps_if keeps_pure keeps_task_str keeps_config keeps_first_line keeps_item
  keeps_traced_emit keeps_traced_run keeps_traced_git keeps_traced_status keeps_traced_secret keeps_traced_clock

end

definition starts_container :: "event \<Rightarrow> bool" where
  "starts_container v \<longleftrightarrow> (\<exists>args vars. v = Exec (''docker'' # args) vars)"

definition clones :: "event \<Rightarrow> bool" where
  "clones v \<longleftrightarrow> (\<exists>args vars. v = Exec (''git'' # ''clone'' # args) vars)"

definition clones_first :: "event list \<Rightarrow> bool" where
  "clones_first vs \<longleftrightarrow> (\<exists>us ws. vs = us @ ws \<and> (\<forall>v\<in>set us. \<not> starts_container v) \<and> (\<forall>v\<in>set ws. \<not> clones v))"

abbreviation no_container :: "event list \<Rightarrow> bool" where
  "no_container vs \<equiv> (\<forall>v\<in>set vs. \<not> starts_container v)"

interpretation before: unbroken no_container "\<lambda>v. \<not> starts_container v"
  by unfold_locales (auto simp: starts_container_def)

interpretation after: unbroken clones_first "\<lambda>v. \<not> clones v"
proof
  fix vs v assume "clones_first vs" and "\<not> clones v"
  then obtain us ws where "vs = us @ ws" "\<forall>v\<in>set us. \<not> starts_container v" "\<forall>v\<in>set (ws @ [v]). \<not> clones v"
    by (auto simp: clones_first_def)
  then show "clones_first (vs @ [v])"
    unfolding clones_first_def by (intro exI [of _ us] exI [of _ "ws @ [v]"]) simp
qed (auto simp: clones_def)

lemma before_after: "traced no_container w \<Longrightarrow> traced clones_first w"
  unfolding traced_def clones_first_def by (intro exI [of _ "trace w"] exI [of _ "[]"]) simp

text \<open>An operation that leads from the first condition to the second: the first is kept for a while, then the second.\<close>

definition leads :: "'a run \<Rightarrow> env \<Rightarrow> bool" where
  "leads m e \<longleftrightarrow> (\<forall>w. traced no_container w \<longrightarrow> traced clones_first (snd (m e w)))"

lemma leads_bind: "keeps (traced no_container) m e \<Longrightarrow> (\<And>a. leads (f a) e) \<Longrightarrow> leads (bind m f) e"
  using before_after by (fastforce simp: leads_def keeps_def bind_def split: prod.split sum.split)

lemma leads_andthen: "keeps (traced no_container) m e \<Longrightarrow> leads n e \<Longrightarrow> leads (andthen m n) e"
  unfolding andthen_def by (rule leads_bind)

lemma leads_keeps: "keeps (traced clones_first) m e \<Longrightarrow> leads m e"
  using before_after by (auto simp: leads_def keeps_def)

lemma keeps_traced_agent: "keeps (traced clones_first) (run_agent work cfg) e"
  unfolding run_agent_def Let_def
  by (intro after.keeps_traced) (auto simp: clones_def agent_argv_def intro!: after.keeps_traced split: agent_outcome.split)

lemma keeps_traced_publish: "keeps (traced clones_first) (publish tdir cfg patch summary started) e"
  unfolding publish_def open_pr_def Let_def
  by (intro after.keeps_traced) (auto simp: clones_def git_argv_def keeps_def)

lemma leads_process: "leads process e"
  unfolding process_def Let_def
proof (rule leads_bind [OF keeps_config], rule leads_bind [OF keeps_task_str], rule leads_bind [OF keeps_task_str],
    rule leads_bind [OF before.keeps_traced_clock], rule leads_andthen [OF before.keeps_traced_status],
    rule leads_andthen [OF before.keeps_traced_run], simp add: starts_container_def,
    rule leads_bind [OF before.keeps_traced_git], simp add: starts_container_def git_argv_def,
    rule leads_andthen [OF before.keeps_traced_run], simp add: starts_container_def,
    rule leads_andthen [OF before.keeps_traced_run], simp add: starts_container_def,
    rule leads_andthen [OF before.keeps_traced_status], rule leads_keeps)
qed (intro after.keeps_traced keeps_traced_agent keeps_traced_publish; simp add: clones_def export_patch_def export_argv_def
      after.keeps_traced_run)

lemma process_clones_first: "clones_first (trace (snd (process_or_fail e \<lparr>dirs = d, cur = t, trace = [], readings = n\<rparr>)))"
proof -
  have "traced clones_first (snd (process e \<lparr>dirs = d, cur = t, trace = [], readings = n\<rparr>))"
    using leads_process by (simp add: leads_def traced_def)
  then have "traced clones_first (snd (process_or_fail e \<lparr>dirs = d, cur = t, trace = [], readings = n\<rparr>))"
    using keepsD [OF after.keeps_traced_status] by (auto simp: process_or_fail_def try_catch_def split: prod.split sum.split)
  then show ?thesis by (simp add: traced_def)
qed

lemma take_one: "take 1 xs = [x] \<longleftrightarrow> (\<exists>ys. xs = x # ys)"
  by (cases xs) auto

lemma clones_first_before:
  assumes "clones_first (us @ v # ws)" and "clones v"
  shows "no_container us"
  using assms by (fastforce simp: clones_first_def append_eq_append_conv2 Cons_eq_append_conv append_eq_Cons_conv)

text \<open>C38: git never runs in the tree that the agent controls. Every git command of the runner runs in the pristine clone
  (\<open>git -C\<close>), or it is one of two clones: from GitHub to the pristine clone, and from there to the tree for the
  agent. Both are made before any container is started, so that neither works on what an agent left.\<close>

theorem git_only_in_pristine:
  assumes "queue_ok cfg d" and "run_next e d = Some w" and "trace w = us @ Exec (''git'' # args) vars # ws"
  shows "\<exists>i\<in>set (keys (queue d)).
    let pristine = tasks_dir @ ''/'' @ i @ ''/pristine''; work = tasks_dir @ ''/'' @ i @ ''/work'' in
    (\<exists>more. args = ''-C'' # pristine # more) \<or>
    ((\<exists>name. args = [''clone'', ''--quiet'', ''https://github.com/'' @ name, pristine]) \<or>
     args = [''clone'', ''--quiet'', ''--no-hardlinks'', pristine, work]) \<and>
    (\<forall>argv vars'. Exec argv vars' \<in> set us \<longrightarrow> take 1 argv \<noteq> [''docker''])"
proof -
  obtain i t where i: "i \<in> set (keys (queue d))"
    and g: "guarded e i (d\<lparr>queue := AList.delete i (queue d)\<rparr>) w"
    and run: "process_or_fail e \<lparr>dirs = d\<lparr>queue := AList.delete i (queue d)\<rparr>, cur = t, trace = [], readings = 0\<rparr> = (Inr (), w)"
    using run_next_Some [OF assms(1,2)] by metis
  have ok: "git_ok i args"
    using g assms(3) by (auto simp: working_def event_ok_def)
  have first: "clones_first (us @ Exec (''git'' # args) vars # ws)"
    using process_clones_first [of e "d\<lparr>queue := AList.delete i (queue d)\<rparr>" t 0] by (simp add: run assms(3))
  have "take 1 argv \<noteq> [''docker'']" if "is_clone i args" and e: "Exec argv vars' \<in> set us" for argv vars'
  proof -
    have "clones (Exec (''git'' # args) vars)" using that(1) by (auto simp: clones_def is_clone_def)
    then have "\<not> starts_container (Exec argv vars')" using clones_first_before [OF first] e by blast
    then show ?thesis unfolding starts_container_def take_one by blast
  qed
  with i ok show ?thesis
    unfolding Let_def git_ok_def is_clone_def pristine_of_def work_of_def task_dir_def append_assoc
    by (intro bexI [of _ i]) blast+
qed

section \<open>The run in which everything succeeds\<close>

lemma wp_emit [simp]: "wp (emit v) e w Q = Q (Inr ()) (w\<lparr>trace := trace w @ [v]\<rparr>)"
  by (simp add: wp_def emit_eq)

lemma wp_run_env [simp]:
  "wp (run_env argv vars) e w Q = Q (command e argv) (w\<lparr>trace := trace w @ [Exec argv vars]\<rparr>)"
  by (simp add: wp_def run_env_eq)

lemma wp_secret [simp]:
  "wp (secret n) e w Q = Q (map_sum id strip (secret_file e n)) (w\<lparr>trace := trace w @ [ReadSecret n]\<rparr>)"
  by (simp add: wp_def secret_eq)

lemma wp_clock_time [simp]: "wp clock_time e w Q = Q (Inr (now e (readings w))) (w\<lparr>readings := Suc (readings w)\<rparr>)"
  by (simp add: wp_def clock_time_def)

lemma wp_config [simp]: "wp config e w Q = Q (config_file e) w"
  by (simp add: wp_def config_def)

lemma wp_task_str [simp]: "wp (task_str k) e w Q = Q (Inr (str_of (jget k (cur w)))) w"
  by (simp add: task_str_def)

lemma wp_write_status [simp]:
  "wp (write_status u) e w Q = Q (Inr ()) (w\<lparr>cur := new_status u e w, readings := Suc (readings w),
     trace := trace w @ [WriteStatus (new_status u e w)],
     dirs := (dirs w)\<lparr>status := AList.update (str_of (jget ''id'' (new_status u e w)))
        (new_status u e w) (status (dirs w))\<rparr>\<rparr>)"
  by (simp add: wp_def write_status_eq)

lemma wp_item: "map_of d k = Some v \<Longrightarrow> wp (item k d) e w Q = Q (Inr v) w"
  by (simp add: item_def)

lemma wp_first_line: "splitlines s = l # ls \<Longrightarrow> wp (first_line s) e w Q = Q (Inr l) w"
  by (simp add: first_line_def)

lemma jget_new_status:
  "k \<notin> set (keys u) \<Longrightarrow> k \<noteq> ''updated_at'' \<Longrightarrow> jget k (new_status u e w) = jget k (cur w)"
  by (simp add: new_status_def jget_dict_update_other)

lemma jget_new_status_own:
  "distinct (keys u) \<Longrightarrow> k \<noteq> ''updated_at'' \<Longrightarrow> map_of u k = Some v \<Longrightarrow> jget k (new_status u e w) = v"
  by (simp add: new_status_def jget_def get_or_def map_of_dict_update)

text \<open>The agent ran to its end and its last line of output is a result object.\<close>

definition agent_succeeds :: "env \<Rightarrow> json dict \<Rightarrow> bool" where
  "agent_succeeds e result \<longleftrightarrow>
     (\<forall>argv. \<exists>so er. agent e argv = Exited 0 so er \<and> agent_result (parse_json e) 0 so er = Inr result)"

lemma wp_run_agent:
  assumes "agent_succeeds e result" and "secret_file e ''claude-oauth-token'' = Inr tok"
    and "\<And>evs. Q (Inr result) (w\<lparr>trace := trace w @ evs\<rparr>)"
  shows "wp (run_agent work cfg) e w Q"
proof -
  let ?argv = "agent_argv (''voice-agent-'' @ str_of (jget ''id'' (cur w))) work
    (agent_prompt (str_of (jget ''repo'' (cur w))) (str_of (jget ''instructions'' (cur w))))"
  obtain so er where "agent e ?argv = Exited 0 so er" "agent_result (parse_json e) 0 so er = Inr result"
    using assms(1) unfolding agent_succeeds_def by blast
  then show ?thesis
    using assms(2) assms(3) [of "[ReadSecret ''claude-oauth-token'', Exec ?argv [(''CLAUDE_CODE_OAUTH_TOKEN'', strip tok)]]"]
    by (simp add: run_agent_def Let_def)
qed

text \<open>The pull request call answers with the two fields that are read from it.\<close>

definition pr_opens :: "env \<Rightarrow> json \<Rightarrow> bool" where
  "pr_opens e url \<longleftrightarrow> (\<exists>pr n. (\<forall>u body. post e u body = Inr pr) \<and>
     map_of pr ''html_url'' = Some url \<and> map_of pr ''number'' = Some n)"

definition commands_succeed :: "env \<Rightarrow> (string list \<Rightarrow> string) \<Rightarrow> bool" where
  "commands_succeed e out \<longleftrightarrow> (\<forall>argv. command e argv = Inr (out argv)) \<and> (\<forall>n. \<exists>s. secret_file e n = Inr s)"

text \<open>The token was read and the task's branch was pushed.\<close>

definition pushed :: "string \<Rightarrow> world \<Rightarrow> bool" where
  "pushed i w \<longleftrightarrow> ReadSecret ''github-token'' \<in> set (trace w) \<and>
     (\<exists>vars. Exec (git_argv (pristine_of i) (push_args (''voice/'' @ i))) vars \<in> set (trace w))"

lemma wp_post: "wp (\<lambda>e w. (post e u b, w)) e w Q = Q (post e u b) w"
  by (simp add: wp_def)

lemma publish_success:
  assumes w: "jget ''id'' (cur w) = JStr i" "jget ''instructions'' (cur w) = JStr s" "splitlines s = l # ls"
    and e: "commands_succeed e out" "pr_opens e url"
    and ok: "filter forbidden_path (changed_paths (out (git_argv (pristine_of i) diff_args))) = []"
  shows "wp (publish (task_dir i) cfg patch summary started) e w (\<lambda>r w'. r = Inr () \<and>
     pushed i w' \<and> jget ''state'' (cur w') = JStr ''done'' \<and> jget ''pr_url'' (cur w') = url)"
proof -
  obtain pr n where pr: "\<And>u body. post e u body = Inr pr" "map_of pr ''html_url'' = Some url" "map_of pr ''number'' = Some n"
    using e(2) unfolding pr_opens_def by blast
  obtain tok where tok: "secret_file e ''github-token'' = Inr tok"
    using e(1) unfolding commands_succeed_def by blast
  have out: "\<And>argv. command e argv = Inr (out argv)"
    using e(1) by (simp add: commands_succeed_def)
  note facts = w ok pr tok out wp_item wp_first_line jget_new_status jget_new_status_own str_of_def
  show ?thesis
    unfolding publish_def open_pr_def Let_def git_def pristine_of_def [symmetric]
    by (simp add: facts pushed_def wp_post) blast
qed

definition base_of :: "(string list \<Rightarrow> string) \<Rightarrow> string \<Rightarrow> string" where
  "base_of out i = strip (out (git_argv (pristine_of i) [''rev-parse'', ''HEAD'']))"

text \<open>The task dictionary still has its identifier and instructions; a step that keeps that and
  returns can be dropped from the front of a run.\<close>

definition task_is :: "string \<Rightarrow> string \<Rightarrow> world \<Rightarrow> bool" where
  "task_is i s w \<longleftrightarrow> jget ''id'' (cur w) = JStr i \<and> jget ''instructions'' (cur w) = JStr s"

lemma wp_bind_step:
  assumes "wp m e w (\<lambda>r w'. r = Inr a \<and> task_is i s w')"
    and "\<And>w'. task_is i s w' \<Longrightarrow> wp (f a) e w' Q"
  shows "wp (bind m f) e w Q"
  using assms by (simp, elim wp_mono) auto

lemma wp_andthen_step:
  assumes "wp m e w (\<lambda>r w'. r = Inr a \<and> task_is i s w')"
    and "\<And>w'. task_is i s w' \<Longrightarrow> wp n e w' Q"
  shows "wp (andthen m n) e w Q"
  unfolding andthen_def by (rule wp_bind_step [OF assms(1)]) (rule assms(2))

lemma task_is_write_status:
  "task_is i s w \<Longrightarrow> ''id'' \<notin> set (keys u) \<Longrightarrow> ''instructions'' \<notin> set (keys u) \<Longrightarrow>
     wp (write_status u) e w (\<lambda>r w'. r = Inr () \<and> task_is i s w')"
  by (simp add: task_is_def jget_new_status)

lemma task_is_run:
  "task_is i s w \<Longrightarrow> command e argv = Inr a \<Longrightarrow> wp (run argv) e w (\<lambda>r w'. r = Inr a \<and> task_is i s w')"
  by (simp add: task_is_def run_def)

lemma task_is_git:
  "task_is i s w \<Longrightarrow> command e (git_argv d args) = Inr a \<Longrightarrow>
     wp (git d args tok) e w (\<lambda>r w'. r = Inr a \<and> task_is i s w')"
  by (simp add: task_is_def git_def)

lemma task_is_agent:
  "task_is i s w \<Longrightarrow> agent_succeeds e result \<Longrightarrow> secret_file e ''claude-oauth-token'' = Inr tok \<Longrightarrow>
     wp (run_agent work cfg) e w (\<lambda>r w'. r = Inr result \<and> task_is i s w')"
  by (erule (1) wp_run_agent) (simp add: task_is_def)

lemma task_is_reads:
  "task_is i s w \<Longrightarrow> wp clock_time e w (\<lambda>r w'. r = Inr (now e (readings w)) \<and> task_is i s w')"
  "task_is i s w \<Longrightarrow> wp (task_str ''id'') e w (\<lambda>r w'. r = Inr i \<and> task_is i s w')"
  "task_is i s w \<Longrightarrow> wp (task_str k) e w (\<lambda>r w'. r = Inr (str_of (jget k (cur w))) \<and> task_is i s w')"
  "task_is i s w \<Longrightarrow> config_file e = Inr cfg \<Longrightarrow> wp config e w (\<lambda>r w'. r = Inr cfg \<and> task_is i s w')"
  by (simp_all add: task_is_def str_of_def)

lemmas task_is_steps = task_is_reads(2,1,3,4) task_is_write_status task_is_run task_is_git task_is_agent

lemma process_success:
  assumes w: "task_is i s w" "splitlines s = l # ls"
    and e: "config_file e = Inr cfg" "agent_succeeds e result" "commands_succeed e out" "pr_opens e url"
    and changes: "\<not> list_all is_byte_space (out (export_argv (work_of i) (base_of out i)))"
    and ok: "filter forbidden_path (changed_paths (out (git_argv (pristine_of i) diff_args))) = []"
  shows "wp process e w (\<lambda>r w'. r = Inr () \<and>
     pushed i w' \<and> jget ''state'' (cur w') = JStr ''done'' \<and> jget ''pr_url'' (cur w') = url)"
proof -
  obtain tok where tok: "secret_file e ''claude-oauth-token'' = Inr tok"
    using e(3) unfolding commands_succeed_def by blast
  have out: "\<And>argv. command e argv = Inr (out argv)"
    using e(3) by (simp add: commands_succeed_def)
  have fin: "wp (if list_all is_byte_space (out (export_argv (work_of i) (base_of out i))) then m
      else publish (task_dir i) cfg (out (export_argv (work_of i) (base_of out i))) summary started) e w' (\<lambda>r w'. r = Inr () \<and>
     pushed i w' \<and> jget ''state'' (cur w') = JStr ''done'' \<and> jget ''pr_url'' (cur w') = url)"
    if "task_is i s w'" for m summary started w'
    using that publish_success [of w' i s l ls e out url cfg _ summary started, OF _ _ w(2) e(3,4) ok] changes
    by (simp add: task_is_def)
  show ?thesis
    unfolding process_def Let_def export_patch_def
      task_dir_def [symmetric] pristine_of_def [symmetric] work_of_def [symmetric]
    by (rule wp_bind_step wp_andthen_step, (rule task_is_steps; (assumption | rule w(1) e(1,2) tok out | simp; fail)))+
      (fold base_of_def, rule fin)
qed

lemma splitlines_not_Nil: "s \<noteq> [] \<Longrightarrow> splitlines s \<noteq> []"
proof -
  have acc: "v \<noteq> [] \<Longrightarrow> lines_acc False v t \<noteq> []" for v t
    by (induction t arbitrary: v) simp_all
  show "s \<noteq> [] \<Longrightarrow> splitlines s \<noteq> []"
    by (cases s) (simp_all add: splitlines_def acc)
qed

text \<open>The conditions under which a queued task becomes a pull request, with its answers: every command
  succeeds, the agent reports a result, its tree differs from the base, no listed path is
  protected, and the pull request is opened.\<close>

definition smooth :: "env \<Rightarrow> (string list \<Rightarrow> string) \<Rightarrow> json \<Rightarrow> string \<Rightarrow> bool" where
  "smooth e out url i \<longleftrightarrow>
     (\<exists>cfg. config_file e = Inr cfg) \<and> (\<exists>result. agent_succeeds e result) \<and> commands_succeed e out \<and> pr_opens e url \<and>
     \<not> list_all is_byte_space (out (export_argv (work_of i) (base_of out i))) \<and>
     filter forbidden_path (changed_paths (out (git_argv (pristine_of i) diff_args))) = []"

lemma run_next_smooth:
  assumes ok: "queue_ok cfg d" and first: "sorted_set (keys (queue d)) = i # rest" and e: "smooth e out url i"
  shows "\<exists>w. run_next e d = Some w \<and> pushed i w \<and>
     jget ''state'' (cur w) = JStr ''done'' \<and> jget ''pr_url'' (cur w) = url"
proof -
  have "i \<in> set (sorted_set (keys (queue d)))"
    unfolding first by simp
  then have "map_of (queue d) i \<noteq> None"
    by (simp add: map_of_eq_None_iff)
  then obtain t where t: "map_of (queue d) i = Some t"
    by blast
  let ?w0 = "\<lparr>dirs = d\<lparr>queue := AList.delete i (queue d)\<rparr>, cur = t, trace = [], readings = 0\<rparr>"
  have "queued_ok cfg i t"
    using ok map_of_SomeD [OF t] by (auto simp: queue_ok_def)
  then obtain s where s: "task_is i s ?w0" "s \<noteq> []"
    by (auto simp: queued_ok_def task_is_def)
  then obtain l ls where l: "splitlines s = l # ls"
    using splitlines_not_Nil by (cases "splitlines s") auto
  have "wp process e ?w0 (\<lambda>r w'. r = Inr () \<and> pushed i w' \<and>
      jget ''state'' (cur w') = JStr ''done'' \<and> jget ''pr_url'' (cur w') = url)"
    using e process_success [OF s(1) l] unfolding smooth_def by blast
  then obtain w where run: "process e ?w0 = (Inr (), w)" and w: "pushed i w"
    "jget ''state'' (cur w) = JStr ''done''" "jget ''pr_url'' (cur w) = url"
    unfolding wp_def by (cases "process e ?w0") (auto simp only: split)
  have "run_next e d = Some w"
    by (simp add: run_next_def pop_task_def process_or_fail_def try_catch_def first t run)
  then show ?thesis using w by blast
qed

text \<open>The runner does its work: when every step succeeds, the first queued task is pushed to its own
  branch, its pull request is opened, and its status file says \<open>done\<close> with the URL.\<close>

theorem run_next_success:
  assumes "queue_ok cfg d" and "sorted_set (keys (queue d)) = i # rest" and "smooth e out url i"
  shows "\<exists>w t. run_next e d = Some w \<and> pushed i w \<and> map_of (status (dirs w)) i = Some t \<and>
     jget ''state'' t = JStr ''done'' \<and> jget ''pr_url'' t = url"
proof -
  obtain w where w: "run_next e d = Some w" "pushed i w"
    "jget ''state'' (cur w) = JStr ''done''" "jget ''pr_url'' (cur w) = url"
    using run_next_smooth [OF assms] by blast
  have least: "\<And>j. j \<in> set (keys (queue d)) \<Longrightarrow> i \<le> j" and i: "i \<in> set (keys (queue d))"
    using assms(2) set_sorted_set [of "keys (queue d)"] sorted_sorted_set [of "keys (queue d)"] by auto
  obtain j where j: "j \<in> set (keys (queue d))" "\<And>k. k \<in> set (keys (queue d)) \<Longrightarrow> j \<le> k"
    and "ended j ''done'' w \<or> ended j ''failed'' w"
    using run_next_Some [OF assms(1) w(1)] by blast
  moreover have "j = i" using j least i by (simp add: order.antisym)
  ultimately have "map_of (status (dirs w)) i = Some (cur w)"
    unfolding ended_def by blast
  with w show ?thesis by blast
qed

text \<open>The output of \<open>git diff --name-only\<close> without \<open>-z\<close> quotes a path that has bytes beyond ASCII: the
  line then starts with a double quote (git's documented \<open>core.quotePath\<close>).\<close>

definition quoted_path :: string where
  "quoted_path = CHR 0x22 # ''.github/workflows/caf'' @ [CHR 0x5C] @ ''303'' @ [CHR 0x5C] @ ''251.yml'' @ [CHR 0x22]"

definition sample_env :: "string \<Rightarrow> env" where
  "sample_env diff = \<lparr>config_file = Inr \<lparr>owner = ''bcalaway'', max_minutes = 45\<rparr>,
     secret_file = (\<lambda>_. Inr ''ghp''),
     command = (\<lambda>argv. Inr (if drop 7 argv = diff_args then diff else ''abc'')),
     agent = (\<lambda>_. Exited 0 ''{}'' []),
     post = (\<lambda>_ _. Inr [(''html_url'', JStr ''https://github.com/bcalaway/hue/pull/9''), (''number'', JInt 9)]),
     parse_json = (\<lambda>_. Some (JObj [(''result'', JStr ''ok'')])), now = (\<lambda>n. 0)\<rparr>"

abbreviation sample_out :: "string \<Rightarrow> string list \<Rightarrow> string" where
  "sample_out diff argv \<equiv> if drop 7 argv = diff_args then diff else ''abc''"

lemma smooth_sample:
  assumes "filter forbidden_path (changed_paths diff) = []"
  shows "smooth (sample_env diff) (sample_out diff) (JStr ''https://github.com/bcalaway/hue/pull/9'') i"
proof -
  have agent: "agent_succeeds (sample_env diff) [(''result'', JStr ''ok'')]"
    by (simp add: agent_succeeds_def sample_env_def agent_result_def splitlines_def strip_def strip_if_def
        lstrip_if_def rstrip_if_def is_space_def is_linebreak_def newline_def)
  have "drop 7 (export_argv (work_of i) b) \<noteq> diff_args" for b
    by (simp add: export_argv_def diff_args_def)
  then have "\<not> list_all is_byte_space (sample_out diff (export_argv (work_of i) b))" for b
    by (simp add: is_byte_space_def)
  then show ?thesis
    unfolding smooth_def using agent assms
    by (auto simp: commands_succeed_def pr_opens_def sample_env_def git_argv_def)
qed

lemma queued_dirs_first: "sorted_set (keys (queue queued_dirs)) = new_id sample_clock # []"
  by (simp add: queued_dirs_queue sorted_set_def)

theorem run_next_success_witness:
  "\<exists>w t. run_next (sample_env ''README.md'') queued_dirs = Some w \<and> pushed (new_id sample_clock) w \<and>
     map_of (status (dirs w)) (new_id sample_clock) = Some t \<and> jget ''state'' t = JStr ''done'' \<and>
     jget ''pr_url'' t = JStr ''https://github.com/bcalaway/hue/pull/9''"
proof -
  have "filter forbidden_path (changed_paths ''README.md'') = []"
    by code_simp
  then show ?thesis
    by (rule run_next_success [OF queued_dirs_ok queued_dirs_first smooth_sample])
qed

text \<open>The path check does not see a quoted path. When the agent adds a workflow file whose name git
  quotes, the check passes, the branch with that file is pushed with the token and the pull
  request is opened; the same path without the quoting is refused.\<close>

theorem quoted_path_is_pushed:
  "changed_paths (quoted_path @ [newline]) = [quoted_path] \<and>
   (\<exists>w. run_next (sample_env (quoted_path @ [newline])) queued_dirs = Some w \<and> pushed (new_id sample_clock) w \<and>
      jget ''state'' (cur w) = JStr ''done'') \<and>
   forbidden_path ''.github/workflows/cafe.yml''"
proof (intro conjI)
  show paths: "changed_paths (quoted_path @ [newline]) = [quoted_path]"
    by code_simp
  have "\<not> forbidden_path quoted_path"
    by code_simp
  then have "filter forbidden_path (changed_paths (quoted_path @ [newline])) = []"
    by (simp add: paths)
  then show "\<exists>w. run_next (sample_env (quoted_path @ [newline])) queued_dirs = Some w \<and>
      pushed (new_id sample_clock) w \<and> jget ''state'' (cur w) = JStr ''done''"
    using run_next_smooth [OF queued_dirs_ok queued_dirs_first smooth_sample] by blast
  show "forbidden_path ''.github/workflows/cafe.yml''"
    by code_simp
qed

lemma sample_run:
  "\<exists>w. run_next (sample_env ''README.md'') queued_dirs = Some w \<and> pushed (new_id sample_clock) w"
proof -
  have "filter forbidden_path (changed_paths ''README.md'') = []"
    by code_simp
  then show ?thesis
    using run_next_smooth [OF queued_dirs_ok queued_dirs_first smooth_sample] by blast
qed

theorem token_after_path_check_witness:
  "paths_checked (sample_env ''README.md'') (new_id sample_clock) \<and>
   patch_exported (sample_env ''README.md'') (new_id sample_clock)"
proof -
  obtain w where w: "run_next (sample_env ''README.md'') queued_dirs = Some w" "pushed (new_id sample_clock) w"
    using sample_run by blast
  have "ReadSecret ''github-token'' \<in> set (trace w) \<or> Post [] JNull [] \<in> set (trace w) \<or>
      (Exec [] [] \<in> set (trace w) \<and> ''GIT_CONFIG_VALUE_0'' \<in> set (keys []))"
    using w(2) by (simp add: pushed_def)
  then show ?thesis
    using token_after_path_check [OF queued_dirs_ok w(1)] by (fastforce simp: queued_dirs_queue)
qed

theorem git_only_in_pristine_witness:
  "\<exists>w vars. run_next (sample_env ''README.md'') queued_dirs = Some w \<and>
     Exec (git_argv (tasks_dir @ ''/'' @ new_id sample_clock @ ''/pristine'') (push_args (''voice/'' @ new_id sample_clock))) vars \<in> set (trace w)"
proof -
  let ?i = "new_id sample_clock"
  obtain w vars where w: "run_next (sample_env ''README.md'') queued_dirs = Some w"
    and "Exec (git_argv (pristine_of ?i) (push_args (''voice/'' @ ?i))) vars \<in> set (trace w)"
    using sample_run unfolding pushed_def by blast
  then obtain us ws where ex: "trace w = us @ Exec (''git'' # drop 1 (git_argv (pristine_of ?i) (push_args (''voice/'' @ ?i)))) vars # ws"
    by (auto simp: git_argv_def in_set_conv_decomp)
  have "pristine_of ?i = tasks_dir @ ''/'' @ ?i @ ''/pristine''"
    using git_only_in_pristine [OF queued_dirs_ok w ex] by (simp add: queued_dirs_queue Let_def git_argv_def)
  with w ex show ?thesis
    by (auto simp: git_argv_def)
qed

end
