(* ===== verification/PyNum.thy ===== *)
theory PyNum
  imports Prelude
begin

text \<open>
  Python's \<open>int(s)\<close> and \<open>float(s)\<close> of a text, with \<open>None\<close> for a \<open>ValueError\<close>. A float is an
  exact rational; the texts of infinities and of not-a-number, and digits grouped by
  underscores, are not modelled and count as errors.
\<close>

definition all_digits :: "string \<Rightarrow> bool" where
  "all_digits s \<longleftrightarrow> list_all is_digit s"

definition split_sign :: "string \<Rightarrow> bool \<times> string" where
  "split_sign s = (case s of
      c # t \<Rightarrow> (if c = CHR ''-'' then (True, t) else if c = CHR ''+'' then (False, t) else (False, s))
    | [] \<Rightarrow> (False, []))"

definition int_of :: "string \<Rightarrow> int option" where
  "int_of s =
     (let (neg, d) = split_sign (strip s) in
      if d \<noteq> [] \<and> all_digits d then Some (if neg then - int (nat_of_str d) else int (nat_of_str d)) else None)"

definition scale10 :: "rat \<Rightarrow> int \<Rightarrow> rat" where
  "scale10 r k = (if 0 \<le> k then r * 10 ^ nat k else r / 10 ^ nat (- k))"

definition is_exp_mark :: "char \<Rightarrow> bool" where
  "is_exp_mark c \<longleftrightarrow> c = CHR ''e'' \<or> c = CHR ''E''"

definition exponent_of :: "string \<Rightarrow> int option" where
  "exponent_of x = (case x of
      [] \<Rightarrow> Some 0
    | _ # y \<Rightarrow> (let (neg, d) = split_sign y in
        if d \<noteq> [] \<and> all_digits d then Some (if neg then - int (nat_of_str d) else int (nat_of_str d)) else None))"

definition mantissa_of :: "string \<Rightarrow> rat option" where
  "mantissa_of m =
     (case partition1 (CHR ''.'') m of
        None \<Rightarrow> (if m \<noteq> [] \<and> all_digits m then Some (of_nat (nat_of_str m)) else None)
      | Some (i, f) \<Rightarrow>
          (if i @ f \<noteq> [] \<and> all_digits (i @ f)
           then Some (scale10 (of_nat (nat_of_str (i @ f))) (- int (length f))) else None))"

definition float_of :: "string \<Rightarrow> rat option" where
  "float_of s =
     (let (neg, u) = split_sign (strip s);
          m = takeWhile (\<lambda>c. \<not> is_exp_mark c) u; x = dropWhile (\<lambda>c. \<not> is_exp_mark c) u
      in case mantissa_of m of
           None \<Rightarrow> None
         | Some r \<Rightarrow> map_option (\<lambda>k. scale10 (if neg then - r else r) k) (exponent_of x))"

text \<open>\<open>int(x)\<close> of a float: towards zero.\<close>

definition trunc :: "rat \<Rightarrow> int" where
  "trunc r = (if r < 0 then \<lceil>r\<rceil> else \<lfloor>r\<rfloor>)"

lemma float_of_samples:
  "float_of ''1.79e+09'' = Some 1790000000" "float_of '' -0.25 '' = Some (- (1 / 4))" "float_of ''1e-2'' = Some (1 / 100)"
  "float_of ''x'' = None" "float_of [] = None"
  by code_simp+

lemma trunc_of_int [simp]: "trunc (of_int i) = i"
  by (simp add: trunc_def)

lemma trunc_bounds: "0 \<le> r \<Longrightarrow> 0 \<le> trunc r \<and> of_int (trunc r) \<le> r \<and> r < of_int (trunc r) + 1"
  by (auto simp: trunc_def) linarith+

lemma strip_no_space: "list_all (\<lambda>c. \<not> is_space c) s \<Longrightarrow> strip s = s"
proof -
  have id: "list_all (\<lambda>c. \<not> is_space c) t \<Longrightarrow> dropWhile is_space t = t" for t
    by (cases t) auto
  assume "list_all (\<lambda>c. \<not> is_space c) s"
  then show "strip s = s"
    using id [of s] id [of "rev s"] by (simp add: strip_def strip_if_def lstrip_if_def rstrip_if_def list_all_iff)
qed

lemma is_digit_no_space: "is_digit c \<Longrightarrow> \<not> is_space c"
  by (auto simp: is_digit_def is_space_def)

lemma int_of_str_of_nat [simp]: "int_of (str_of_nat n) = Some (int n)"
proof -
  have d: "list_all is_digit (str_of_nat n)"
    by (auto simp: list_all_iff dest: str_of_nat_digits)
  then have s: "strip (str_of_nat n) = str_of_nat n"
    by (intro strip_no_space) (auto simp: list_all_iff dest: is_digit_no_space)
  obtain c t where ct: "str_of_nat n = c # t" by (cases "str_of_nat n") auto
  then have "c \<noteq> CHR ''-''" "c \<noteq> CHR ''+''"
    using d by (auto simp: is_digit_def)
  then have "split_sign (str_of_nat n) = (False, str_of_nat n)"
    by (simp add: split_sign_def ct)
  then show ?thesis
    using d by (simp add: int_of_def s all_digits_def)
qed

end
