(* ===== verification/VoiceTasks.thy ===== *)
theory VoiceTasks
  imports Json IoMonad PyNum
begin

text \<open>
  \<open>compose/aws/home-mcp/tasks.py\<close>: voice coding tasks, from the hub's side. The worker's answer to
  an SSH call is the environment: the standard output, or \<open>None\<close> when it does not answer in
  time. Calls and e-mails are recorded in the state, with the key file that \<open>_prepare_ssh\<close>
  writes once. An answer that is not a JSON object raises; the worker prints only objects
  and, for a task file that vanished, \<open>null\<close>.
\<close>

record tasks_env =
  ssh_key_b64 :: string
  host_key :: string
  decode64 :: "string \<Rightarrow> string option"   \<comment> \<open>\<open>base64.b64decode\<close>, \<open>None\<close> where it raises\<close>
  worker :: "nat \<Rightarrow> string \<Rightarrow> string \<Rightarrow> string option"  \<comment> \<open>call number, command, standard input\<close>
  task_loads :: "string \<Rightarrow> json option"
  task_now :: rat
  smtp_password :: string
  tasks_enabled :: bool
  hub_repos :: "string list"

record tasks_world =
  key_file :: "(string \<times> string) option"
  calls :: "(string \<times> string) list"
  outbox :: "(string \<times> string) list"   \<comment> \<open>subject and body\<close>

type_synonym 'a task_io = "(tasks_env, tasks_world, string, 'a) io"

section \<open>The SSH call\<close>

definition prepare_ssh :: "bool task_io" where
  "prepare_ssh = (\<lambda>e w.
     if ssh_key_b64 e = [] \<or> host_key e = [] then (Inr False, w)
     else if key_file w \<noteq> None then (Inr True, w)
     else case decode64 e (ssh_key_b64 e) of
         None \<Rightarrow> (Inl ''Error'', w)
       | Some k \<Rightarrow> (Inr True, w\<lparr>key_file := Some (k, strip (host_key e) @ [newline])\<rparr>))"

definition error_obj :: "string \<Rightarrow> json" where
  "error_obj m = JObj [(''error'', JStr m)]"

text \<open>The last line of the output as JSON, or the error object.\<close>

definition ssh_result :: "(string \<Rightarrow> json option) \<Rightarrow> string \<Rightarrow> json" where
  "ssh_result parse out =
     (case splitlines (strip out) of
        [] \<Rightarrow> error_obj ''couldn't reach the worker on nuc4''
      | ls \<Rightarrow> (case parse (last ls) of
          None \<Rightarrow> error_obj ''couldn't reach the worker on nuc4'' | Some j \<Rightarrow> j))"

definition ssh :: "string \<Rightarrow> string \<Rightarrow> nat \<Rightarrow> json task_io" where
  "ssh command stdin timeout =
     bind prepare_ssh (\<lambda>ready.
     if \<not> ready then ret (error_obj ''voice worker SSH credentials aren't configured on the hub'')
     else (\<lambda>e w.
       (Inr (case worker e (length (calls w)) command stdin of
          None \<Rightarrow> error_obj (''the worker on nuc4 didn't answer within '' @ str_of_nat timeout @ '' seconds'')
        | Some out \<Rightarrow> ssh_result (task_loads e) out),
        w\<lparr>calls := calls w @ [(command, stdin)]\<rparr>)))"

definition as_object :: "json \<Rightarrow> string + json dict" where
  "as_object j = (case j of JObj d \<Rightarrow> Inr d | _ \<Rightarrow> Inl ''TypeError'')"

definition email :: "string \<Rightarrow> string \<Rightarrow> unit task_io" where
  "email subject body = (\<lambda>e w.
     (Inr (), if smtp_password e = [] then w else w\<lparr>outbox := outbox w @ [(subject, body)]\<rparr>))"

section \<open>Spoken status\<close>

definition number :: "json \<Rightarrow> string + rat" where
  "number j = (case j of
      JInt i \<Rightarrow> Inr (of_int i)
    | JBool b \<Rightarrow> Inr (if b then 1 else 0)
    | JFloat r \<Rightarrow> (case float_of r of Some x \<Rightarrow> Inr x | None \<Rightarrow> Inl ''ValueError'')
    | _ \<Rightarrow> Inl ''TypeError'')"

definition has_key :: "string \<Rightarrow> json dict \<Rightarrow> bool" where
  "has_key k d \<longleftrightarrow> k \<in> set (keys d)"

definition minutes_in :: "rat \<Rightarrow> json dict \<Rightarrow> string + int" where
  "minutes_in now s =
     (case map_of s ''started_at'' of
        None \<Rightarrow> Inr 0
      | Some j \<Rightarrow> bindR (number j) (\<lambda>t. Inr (round_half_even ((now - t) / 60))))"

definition spoken :: "rat \<Rightarrow> json dict \<Rightarrow> string + string" where
  "spoken now s =
     (if has_key ''error'' s then Inr (py_str (jget ''error'' s))
      else
        let tid = py_str (get_or (JStr ''?'') ''id'' s); state = jget ''state'' s in
        if state = JStr ''queued'' then Inr (''Task '' @ tid @ '' is queued.'')
        else if state = JStr ''running'' then
          bindR (minutes_in now s) (\<lambda>m.
          Inr (''Task '' @ tid @ '' is running: '' @ py_str (get_or (JStr ''working'') ''step'' s) @ '', '' @
            str_of_int m @ '' minutes in.''))
        else if state = JStr ''done'' \<and> truthy (jget ''pr_url'' s) then
          Inr (''Task '' @ tid @ '' finished in '' @ py_str (jget ''minutes'' s) @ '' minutes. Pull request '' @
            py_str (jget ''pr_number'' s) @ '' is open: '' @ py_str (jget ''pr_url'' s) @ ''. '' @
            py_str (get_or (JStr []) ''summary'' s))
        else if state = JStr ''done'' then
          Inr (''Task '' @ tid @ '' finished: '' @ py_str (get_or (JStr ''no changes'') ''message'' s))
        else if state = JStr ''failed'' then
          Inr (''Task '' @ tid @ '' failed: '' @ py_str (get_or (JStr ''unknown error'') ''error'' s))
        else Inr (dumps (JObj s)))"

section \<open>The tools\<close>

definition start_payload :: "string \<Rightarrow> string \<Rightarrow> string option \<Rightarrow> json" where
  "start_payload repo instructions user =
     JObj [(''repo'', JStr repo), (''instructions'', JStr instructions),
       (''requested_by'', JStr (case user of None \<Rightarrow> [] | Some u \<Rightarrow> u))]"

definition mail_body :: "string \<Rightarrow> string \<Rightarrow> string \<Rightarrow> string option \<Rightarrow> string" where
  "mail_body repo tid instructions user =
     ''A voice coding task was queued on nuc4 by '' @ (case user of None \<Rightarrow> ''None'' | Some u \<Rightarrow> u) @ ''.'' @
     [newline, newline] @ ''Repo: '' @ repo @ [newline] @ ''Task: '' @ tid @ [newline, newline] @ instructions @
     [newline, newline] @
     ''It will open a PR on a voice/ branch and never merge. To stop new tasks, set '' @
     ''VOICE_TASKS_ENABLED=false for home-mcp or disable the home-mcp app in Authentik.''"

definition start_task :: "string \<Rightarrow> string \<Rightarrow> string option \<Rightarrow> string task_io" where
  "start_task repo instructions user =
     bind (ask tasks_enabled) (\<lambda>on.
     bind (ask hub_repos) (\<lambda>allowed.
     if \<not> on then ret ''Voice coding tasks are switched off on the hub right now.''
     else if repo \<notin> set allowed then ret (''I can only work on '' @ join '', '' allowed @ '' for now.'')
     else
       bind (ssh ''start'' (dumps (start_payload repo instructions user)) 30) (\<lambda>j.
       bind (liftR (as_object j)) (\<lambda>result.
       if has_key ''error'' result then ret (''Couldn't start the task: '' @ py_str (jget ''error'' result))
       else case map_of result ''id'' of
           None \<Rightarrow> raise ''KeyError''
         | Some i \<Rightarrow>
             let tid = py_str i in
             andthen (email (''[home-mcp] Voice coding task started: '' @ repo @ '' ('' @ tid @ '')'')
                (mail_body repo tid instructions user))
             (ret (''Started task '' @ tid @ '' on '' @ repo @
                ''. It usually takes 5 to 20 minutes; ask me for its status any time.''))))))"

definition task_status :: "string \<Rightarrow> string task_io" where
  "task_status task_id =
     bind (ask task_now) (\<lambda>now.
     if task_id = ''all'' then
       bind (ssh ''list'' [] 30) (\<lambda>j.
       bind (liftR (as_object j)) (\<lambda>result.
       if has_key ''error'' result then ret (py_str (jget ''error'' result))
       else case get_or (JList []) ''tasks'' result of
           JList (t # ts) \<Rightarrow>
             liftR (bindR (mapR (\<lambda>j. bindR (as_object j) (spoken now)) (t # ts)) (\<lambda>ls. Inr (join '' '' ls)))
         | _ \<Rightarrow> ret ''No voice tasks yet.''))
     else
       bind (ssh (strip (''status '' @ task_id)) [] 30) (\<lambda>j.
       bind (liftR (as_object j)) (\<lambda>s. liftR (spoken now s))))"

definition token_line :: "rat \<Rightarrow> json dict \<Rightarrow> string \<times> string \<Rightarrow> string + string list" where
  "token_line now h kl = (case kl of (key, label) \<Rightarrow>
     (if \<not> truthy (jget key h) then Inr []
      else bindR (number (jget key h)) (\<lambda>t.
        let days = \<lfloor>(t - now) / 86400\<rfloor> in
        Inr (if days < 0 then [''the voice agent's '' @ label @ '' has expired'']
             else if days \<le> 21 then
               [''the voice agent's '' @ label @ '' expires in '' @ str_of_int days @ '' day'' @ (if days \<noteq> 1 then ''s'' else [])]
             else []))))"

definition health_warnings :: "rat \<Rightarrow> json dict \<Rightarrow> string + string list" where
  "health_warnings now h =
     (if has_key ''error'' h then
        Inr [''the voice worker on nuc4 isn't answering ('' @ py_str (jget ''error'' h) @ '')'']
      else
        bindR (token_line now h (''github_token_expires'', ''GitHub token'')) (\<lambda>g.
        bindR (token_line now h (''claude_token_expires'', ''Claude token'')) (\<lambda>c.
        Inr ((if jget ''github_token_ok'' h = JBool False \<or> truthy (jget ''github_token_error'' h)
              then [''the voice agent's GitHub token is failing ('' @
                    py_str (get_or (JStr ''rejected'') ''github_token_error'' h) @ '')''] else []) @ g @ c))))"

definition worker_token_warnings :: "string list task_io" where
  "worker_token_warnings =
     bind prepare_ssh (\<lambda>ready.
     if \<not> ready then ret []
     else
       bind (ssh ''health'' [] 8) (\<lambda>j.
       bind (liftR (as_object j)) (\<lambda>h. bind (ask task_now) (\<lambda>now. liftR (health_warnings now h)))))"

section \<open>What the hub sends\<close>

lemma ssh_calls:
  "calls (snd (ssh c s n e w)) = calls w \<or> calls (snd (ssh c s n e w)) = calls w @ [(c, s)]"
  by (auto simp: ssh_def prepare_ssh_def bind_def ret_def split: option.split)

lemma ssh_outbox: "outbox (snd (ssh c s n e w)) = outbox w"
  by (auto simp: ssh_def prepare_ssh_def bind_def ret_def split: option.split)

lemma ssh_not_called: "calls (snd (ssh c s n e w)) = calls w \<Longrightarrow> fst (ssh c s n e w) = Inr j \<Longrightarrow> \<exists>m. j = error_obj m"
  by (auto simp: ssh_def prepare_ssh_def bind_def ret_def split: option.splits prod.splits sum.splits if_splits)

lemma error_object: "as_object (error_obj m) = Inr d \<Longrightarrow> has_key ''error'' d"
  by (auto simp: as_object_def error_obj_def has_key_def)

lemma ssh_wp:
  assumes "\<And>r w'. calls w' = calls w @ [(c, s)] \<Longrightarrow> outbox w' = outbox w \<Longrightarrow> Q r w'"
    and "\<And>r w'. calls w' = calls w \<Longrightarrow> outbox w' = outbox w \<Longrightarrow> (\<And>j. r = Inr j \<Longrightarrow> \<exists>m. j = error_obj m) \<Longrightarrow> Q r w'"
  shows "wp (ssh c s n) e w Q"
  using assms ssh_calls [of c s n e w] ssh_outbox [of c s n e w] ssh_not_called [of c s n e w]
  by (auto simp: wp_def split_beta)

text \<open>\<open>start_task\<close> calls the worker at most once, only while tasks are switched on and only for a
  repository of the hub's list, with the fixed command \<open>start\<close> and the request as its input;
  an e-mail goes out only for a task that was started, and names it.\<close>

theorem start_task_calls:
  "wp (start_task repo instructions user) e w (\<lambda>r w'.
     (calls w' = calls w \<or>
      tasks_enabled e \<and> repo \<in> set (hub_repos e) \<and>
      calls w' = calls w @ [(''start'', dumps (start_payload repo instructions user))]) \<and>
     (outbox w' = outbox w \<or>
      calls w' \<noteq> calls w \<and> (\<exists>tid. r = Inr (''Started task '' @ tid @ '' on '' @ repo @ ''. It usually takes 5 to 20 minutes; ask me for its status any time.'') \<and>
         outbox w' = outbox w @ [(''[home-mcp] Voice coding task started: '' @ repo @ '' ('' @ tid @ '')'',
           mail_body repo tid instructions user)])))"
proof -
  have mail: "wp (email s b) e v Q" if "Q (Inr ()) v" "Q (Inr ()) (v\<lparr>outbox := outbox v @ [(s, b)]\<rparr>)" for s b v Q
    using that by (simp add: email_def wp_def)
  show ?thesis
    unfolding start_task_def Let_def
    by (auto intro!: ssh_wp mail dest: error_object split: sum.split option.split)
qed

end
