(* ===== verification/Calendar.thy ===== *)
theory Calendar
  imports Prelude
begin

text \<open>
  Python's \<open>datetime.date\<close>, as far as the program uses it: the proleptic Gregorian ordinal, the
  day of the week, moving by days, comparison, and the ISO text form.
\<close>

datatype date = Date (year_of: nat) (month_of: nat) (day_of: nat)

definition leap :: "nat \<Rightarrow> bool" where
  "leap y \<longleftrightarrow> y mod 4 = 0 \<and> (y mod 100 \<noteq> 0 \<or> y mod 400 = 0)"

definition days_in_month :: "nat \<Rightarrow> nat \<Rightarrow> nat" where
  "days_in_month y m =
     (if m = 2 then if leap y then 29 else 28 else if m \<in> {4, 6, 9, 11} then 30 else 31)"

definition valid_date :: "date \<Rightarrow> bool" where
  "valid_date d \<longleftrightarrow> 1 \<le> year_of d \<and> year_of d \<le> 9999 \<and> 1 \<le> month_of d \<and> month_of d \<le> 12 \<and>
     1 \<le> day_of d \<and> day_of d \<le> days_in_month (year_of d) (month_of d)"

definition days_before_year :: "nat \<Rightarrow> nat" where
  "days_before_year y = (let k = y - 1 in 365 * k + k div 4 + k div 400 - k div 100)"

definition days_before_month :: "nat \<Rightarrow> nat \<Rightarrow> nat" where
  "days_before_month y m = (\<Sum>k\<leftarrow>[1..<m]. days_in_month y k)"

definition toordinal :: "date \<Rightarrow> nat" where
  "toordinal d = days_before_year (year_of d) + days_before_month (year_of d) (month_of d) + day_of d"

text \<open>Monday is 0.\<close>

definition weekday :: "date \<Rightarrow> nat" where
  "weekday d = (toordinal d + 6) mod 7"

definition next_day :: "date \<Rightarrow> date" where
  "next_day d = (case d of Date y m k \<Rightarrow>
     if k < days_in_month y m then Date y m (k + 1)
     else if m < 12 then Date y (m + 1) 1 else Date (y + 1) 1 1)"

text \<open>\<open>d + timedelta(days=n)\<close>.\<close>

definition add_days :: "date \<Rightarrow> nat \<Rightarrow> date" where
  "add_days d n = (next_day ^^ n) d"

text \<open>\<open>(a - b).days\<close>.\<close>

definition days_between :: "date \<Rightarrow> date \<Rightarrow> int" where
  "days_between a b = int (toordinal a) - int (toordinal b)"

definition isoformat :: "date \<Rightarrow> string" where
  "isoformat d = zfill 4 (year_of d) @ ''-'' @ zfill 2 (month_of d) @ ''-'' @ zfill 2 (day_of d)"

text \<open>\<open>date.fromisoformat\<close> of the extended form \<open>YYYY-MM-DD\<close>; \<open>None\<close> where it raises. (Python also
  reads the basic and the week form, which no source of the program answers with.)\<close>

definition fromisoformat :: "string \<Rightarrow> date option" where
  "fromisoformat s =
     (case split_on (CHR ''-'') s of
        [y, m, d] \<Rightarrow>
          (if length y = 4 \<and> length m = 2 \<and> length d = 2 \<and> list_all is_digit (y @ m @ d) then
             let t = Date (nat_of_str y) (nat_of_str m) (nat_of_str d)
             in if valid_date t then Some t else None
           else None)
      | _ \<Rightarrow> None)"

instantiation date :: linorder
begin

definition less_eq_date :: "date \<Rightarrow> date \<Rightarrow> bool" where
  "less_eq_date a b \<longleftrightarrow> year_of a < year_of b \<or> year_of a = year_of b \<and>
     (month_of a < month_of b \<or> month_of a = month_of b \<and> day_of a \<le> day_of b)"

definition less_date :: "date \<Rightarrow> date \<Rightarrow> bool" where
  "less_date a b \<longleftrightarrow> a \<le> b \<and> \<not> b \<le> (a :: date)"

instance
  by standard (auto simp: less_eq_date_def less_date_def intro: date.expand)

end

section \<open>Ordinals\<close>

lemma days_in_month_bounds: "28 \<le> days_in_month y m" "days_in_month y m \<le> 31"
  by (simp_all add: days_in_month_def)

lemma days_in_month_pos [simp]: "Suc 0 \<le> days_in_month y m" "0 < days_in_month y m"
  by (simp_all add: days_in_month_def)

lemma days_before_month_Suc:
  "1 \<le> m \<Longrightarrow> days_before_month y (Suc m) = days_before_month y m + days_in_month y m"
  by (simp add: days_before_month_def)

lemma days_before_month_1 [simp]: "days_before_month y (Suc 0) = 0"
  by (simp add: days_before_month_def)

lemma days_before_month_year: "days_before_month y 12 + 31 = (if leap y then 366 else 365)"
  by (simp add: days_before_month_def days_in_month_def upt_rec)

lemma leap_count:
  fixes a b c k :: nat
  assumes "b \<le> a" and "C \<longrightarrow> B" and "B \<longrightarrow> A"
  shows "365 * Suc k + (a + of_bool A) + (c + of_bool C) - (b + of_bool B) =
    365 * k + a + c - b + (if A \<and> (\<not> B \<or> C) then 366 else 365)"
  using assms by (cases A; cases B; cases C) simp_all

lemma days_before_year_Suc:
  assumes "1 \<le> y"
  shows "days_before_year (Suc y) = days_before_year y + (if leap y then 366 else 365)"
proof -
  obtain k where y: "y = Suc k" using assms by (cases y) auto
  have step: "Suc k div n = k div n + of_bool (Suc k mod n = 0)" for n
    by (simp add: div_Suc)
  have imp: "Suc k mod 400 = 0 \<longrightarrow> Suc k mod 100 = 0" "Suc k mod 100 = 0 \<longrightarrow> Suc k mod 4 = 0"
    using dvd_trans [of 100 400 "Suc k"] dvd_trans [of 4 100 "Suc k"]
    by (simp_all add: mod_eq_0_iff_dvd)
  have le: "k div 100 \<le> k div 4"
    by (rule div_le_mono2) simp_all
  show ?thesis
    unfolding y days_before_year_def Let_def leap_def diff_Suc_1 step
    by (rule leap_count [OF le imp])
qed

lemma toordinal_next_day:
  assumes "1 \<le> year_of d" and "1 \<le> month_of d" and "month_of d \<le> 12"
    and "day_of d \<le> days_in_month (year_of d) (month_of d)"
  shows "toordinal (next_day d) = toordinal d + 1"
proof (cases d)
  case (Date y m k)
  consider "k < days_in_month y m" | "k = days_in_month y m" "m < 12" | "k = days_in_month y m" "m = 12"
    using assms by (fastforce simp: Date)
  then show ?thesis
  proof cases
    case 2
    then show ?thesis
      using assms by (simp add: Date next_day_def toordinal_def days_before_month_Suc)
  next
    case 3
    moreover have "days_in_month y 12 = 31" by (simp add: days_in_month_def)
    ultimately show ?thesis
      using assms days_before_year_Suc [of y] days_before_month_year [of y]
      by (simp add: Date next_day_def toordinal_def split: if_splits)
  qed (simp add: Date next_day_def toordinal_def)
qed

text \<open>A date of the calendar whose year is not bounded.\<close>

definition proper :: "date \<Rightarrow> bool" where
  "proper d \<longleftrightarrow> 1 \<le> year_of d \<and> 1 \<le> month_of d \<and> month_of d \<le> 12 \<and>
     1 \<le> day_of d \<and> day_of d \<le> days_in_month (year_of d) (month_of d)"

lemma valid_date_proper: "valid_date d \<longleftrightarrow> proper d \<and> year_of d \<le> 9999"
  by (auto simp: valid_date_def proper_def)

lemma proper_next_day: "proper d \<Longrightarrow> proper (next_day d)"
  by (cases d) (auto simp: proper_def next_day_def)

lemma proper_add_days: "proper d \<Longrightarrow> proper (add_days d n)"
  by (induction n) (simp_all add: add_days_def proper_next_day)

lemma toordinal_add_days: "proper d \<Longrightarrow> toordinal (add_days d n) = toordinal d + n"
proof (induction n)
  case (Suc n)
  then show ?case
    using proper_add_days [of d n] toordinal_next_day [of "add_days d n"]
    by (simp add: add_days_def proper_def)
qed (simp add: add_days_def)

lemma next_day_greater: "proper d \<Longrightarrow> d < next_day d"
  by (cases d) (auto simp: proper_def next_day_def less_date_def less_eq_date_def)

lemma add_days_Suc: "add_days d (Suc n) = next_day (add_days d n)"
  by (simp add: add_days_def)

lemma add_days_0 [simp]: "add_days d 0 = d"
  by (simp add: add_days_def)

lemma weekday_add_days: "proper d \<Longrightarrow> weekday (add_days d n) = (weekday d + n) mod 7"
  by (simp add: weekday_def toordinal_add_days mod_add_left_eq mod_add_right_eq ac_simps)

lemma days_between_add [simp]: "proper d \<Longrightarrow> days_between (add_days d n) d = int n"
  by (simp add: days_between_def toordinal_add_days)

lemma days_before_month_mono: "m \<le> n \<Longrightarrow> days_before_month y m \<le> days_before_month y n"
proof (induction n)
  case (Suc n)
  then show ?case
    by (cases "m = Suc n"; cases n) (auto simp: days_before_month_Suc days_before_month_def)
qed simp

lemma days_before_month_day:
  assumes "1 \<le> m" and "m < n"
  shows "days_before_month y m + days_in_month y m \<le> days_before_month y n"
  using days_before_month_mono [of "Suc m" n y] assms by (simp add: days_before_month_Suc)

lemma days_before_year_mono: "1 \<le> y \<Longrightarrow> y \<le> z \<Longrightarrow> days_before_year y \<le> days_before_year z"
proof (induction z)
  case (Suc z)
  then show ?case
    by (cases "y = Suc z") (auto simp: days_before_year_Suc)
qed simp

lemma toordinal_year_end:
  assumes "proper d"
  shows "toordinal d \<le> days_before_year (Suc (year_of d))"
proof -
  let ?y = "year_of d" and ?m = "month_of d"
  have "days_before_month ?y ?m + days_in_month ?y ?m \<le> days_before_month ?y 12 + 31"
  proof (cases "?m = 12")
    case False
    then show ?thesis
      using days_before_month_day [of ?m 12 ?y] assms by (simp add: proper_def)
  qed (simp add: days_in_month_def)
  then show ?thesis
    using assms days_before_month_year [of ?y] days_before_year_Suc [of ?y]
    by (simp add: toordinal_def proper_def split: if_splits)
qed

text \<open>Ordinals order dates as Python's comparison does.\<close>

lemma toordinal_less:
  assumes "proper a" and "proper b" and "a < b"
  shows "toordinal a < toordinal b"
proof -
  consider "year_of a < year_of b" | "year_of a = year_of b" "month_of a < month_of b"
    | "year_of a = year_of b" "month_of a = month_of b" "day_of a < day_of b"
    using assms(3) by (auto simp: less_date_def less_eq_date_def)
  then show ?thesis
  proof cases
    case 1
    then have "days_before_year (Suc (year_of a)) \<le> days_before_year (year_of b)"
      using assms by (intro days_before_year_mono) auto
    then show ?thesis
      using toordinal_year_end [OF assms(1)] assms(2) by (simp add: toordinal_def proper_def)
  next
    case 2
    then show ?thesis
      using days_before_month_day [of "month_of a" "month_of b" "year_of a"] assms
      by (simp add: toordinal_def proper_def)
  qed (simp add: toordinal_def)
qed

lemma toordinal_less_iff: "proper a \<Longrightarrow> proper b \<Longrightarrow> toordinal a < toordinal b \<longleftrightarrow> a < b"
  using toordinal_less [of a b] toordinal_less [of b a] by (cases a b rule: linorder_cases) auto

lemma toordinal_inject: "proper a \<Longrightarrow> proper b \<Longrightarrow> toordinal a = toordinal b \<longleftrightarrow> a = b"
  by (metis less_irrefl linorder_neqE toordinal_less)

lemma days_between_neg: "proper a \<Longrightarrow> proper b \<Longrightarrow> days_between a b < 0 \<longleftrightarrow> a < b"
  by (simp add: days_between_def toordinal_less_iff)

section \<open>The text form\<close>

lemma nat_of_str_replicate_0: "nat_of_str (replicate n (CHR ''0'') @ s) = nat_of_str s"
proof (induction s rule: rev_induct)
  case Nil
  show ?case by (induction n) (auto simp: nat_of_str_def digit_val_def)
next
  case (snoc c s)
  then show ?case by (simp flip: append_assoc)
qed

lemma nat_of_str_zfill [simp]: "nat_of_str (zfill w n) = n"
  by (simp add: zfill_def nat_of_str_replicate_0)

lemma zfill_no_dash: "CHR ''-'' \<notin> set (zfill w n)"
  using zfill_digits [of "CHR ''-''" w n] by (auto simp: is_digit_def)

lemma fromisoformat_isoformat: "valid_date d \<Longrightarrow> fromisoformat (isoformat d) = Some d"
proof -
  assume d: "valid_date d"
  have "days_in_month (year_of d) (month_of d) < 10 ^ 2"
    using days_in_month_bounds(2) [of "year_of d" "month_of d"] by simp
  then have "length (zfill 4 (year_of d)) = 4" "length (zfill 2 (month_of d)) = 2" "length (zfill 2 (day_of d)) = 2"
    using d by (auto intro!: length_zfill simp: valid_date_def)
  moreover have "split_on (CHR ''-'') (isoformat d) =
      [zfill 4 (year_of d), zfill 2 (month_of d), zfill 2 (day_of d)]"
    by (simp add: isoformat_def split_on_append split_on_id zfill_no_dash)
  ultimately show ?thesis
    using d by (auto simp: fromisoformat_def list_all_iff Let_def dest: zfill_digits)
qed

lemma fromisoformat_valid: "fromisoformat s = Some d \<Longrightarrow> valid_date d"
  by (auto simp: fromisoformat_def Let_def split: list.splits if_splits)

end
