(* ===== verification/Moment.thy ===== *)
theory Moment
  imports Calendar PyNum
begin

text \<open>
  Python's \<open>datetime.fromisoformat\<close> on the extended form with a time of day, an optional fraction
  and an optional offset. The value is the local time in seconds since day 0 of the proleptic
  calendar, with the offset in seconds where the text has one (a naive time has none).
\<close>

type_synonym moment = "rat \<times> int option"

definition two_digits :: "string \<Rightarrow> nat option" where
  "two_digits s = (if length s = 2 \<and> all_digits s then Some (nat_of_str s) else None)"

definition fraction_of :: "string \<Rightarrow> rat option" where
  "fraction_of s =
     (case s of
        [] \<Rightarrow> Some 0
      | c # d \<Rightarrow> (if (c = CHR ''.'' \<or> c = CHR '','') \<and> d \<noteq> [] \<and> all_digits d
                   then Some (of_nat (nat_of_str (take 6 d)) / 10 ^ length (take 6 d)) else None))"

text \<open>\<open>HH:MM:SS\<close> with an optional fraction.\<close>

definition time_of_day :: "string \<Rightarrow> rat option" where
  "time_of_day s =
     (case (two_digits (take 2 s), two_digits (take 2 (drop 3 s)), two_digits (take 2 (drop 6 s)),
            fraction_of (drop 8 s)) of
        (Some h, Some m, Some k, Some f) \<Rightarrow>
          (if s ! 2 = CHR '':'' \<and> s ! 5 = CHR '':'' \<and> h < 24 \<and> m < 60 \<and> k < 60
           then Some (of_nat (3600 * h + 60 * m + k) + f) else None)
      | _ \<Rightarrow> None)"

definition is_offset_mark :: "char \<Rightarrow> bool" where
  "is_offset_mark c \<longleftrightarrow> c = CHR ''+'' \<or> c = CHR ''-'' \<or> c = CHR ''Z''"

text \<open>The offset: nothing, \<open>Z\<close>, or a sign with \<open>HH:MM\<close>. The outer option is a \<open>ValueError\<close>.\<close>

definition offset_of :: "string \<Rightarrow> int option option" where
  "offset_of s =
     (case s of
        [] \<Rightarrow> Some None
      | c # t \<Rightarrow>
          (if c = CHR ''Z'' then (if t = [] then Some (Some 0) else None)
           else case (two_digits (take 2 t), two_digits (drop 3 t)) of
               (Some h, Some m) \<Rightarrow>
                 (if length t = 5 \<and> t ! 2 = CHR '':'' \<and> h < 24 \<and> m < 60
                  then Some (Some ((if c = CHR ''-'' then - 1 else 1) * int (3600 * h + 60 * m))) else None)
             | _ \<Rightarrow> None))"

definition fromisodatetime :: "string \<Rightarrow> moment option" where
  "fromisodatetime s =
     (let t = drop 11 s; tod = takeWhile (\<lambda>c. \<not> is_offset_mark c) t; off = dropWhile (\<lambda>c. \<not> is_offset_mark c) t in
      case (fromisoformat (take 10 s), time_of_day tod, offset_of off) of
        (Some d, Some k, Some z) \<Rightarrow>
          (if length s > 11 then Some (of_nat (86400 * toordinal d) + k, z) else None)
      | _ \<Rightarrow> None)"

text \<open>The ordinal of 1970-01-01.\<close>

definition unix_epoch :: nat where
  "unix_epoch = 719163"

text \<open>\<open>t.timestamp()\<close> of an aware time, and \<open>(a - b).total_seconds()\<close>; \<open>None\<close> for one aware and one naive
  time, a \<open>TypeError\<close>.\<close>

definition timestamp :: "rat \<Rightarrow> int \<Rightarrow> rat" where
  "timestamp t z = t - of_int z - of_nat (86400 * unix_epoch)"

definition moment_diff :: "moment \<Rightarrow> moment \<Rightarrow> rat option" where
  "moment_diff a b =
     (case (snd a, snd b) of
        (Some y, Some z) \<Rightarrow> Some ((fst a - of_int y) - (fst b - of_int z))
      | (None, None) \<Rightarrow> Some (fst a - fst b)
      | _ \<Rightarrow> None)"

text \<open>\<open>calendar.timegm(time.strptime(s, "%Y-%m-%d %H:%M:%S UTC"))\<close> for a text in that form.\<close>

definition utc_expiry :: "string \<Rightarrow> int option" where
  "utc_expiry s =
     (if suffix '' UTC'' s \<and> length s = 23 \<and> s ! 10 = CHR '' '' then
        (case (fromisoformat (take 10 s), time_of_day (take 8 (drop 11 s))) of
           (Some d, Some k) \<Rightarrow> Some \<lfloor>timestamp (of_nat (86400 * toordinal d) + k) 0\<rfloor>
         | _ \<Rightarrow> None)
      else None)"

lemma unix_epoch_ordinal: "toordinal (Date 1970 1 1) = unix_epoch"
  by (simp add: toordinal_def days_before_year_def days_before_month_def unix_epoch_def)

lemma moment_diff_same_offset: "moment_diff (a, z) (b, z) = Some (a - b)"
  by (cases z) (simp_all add: moment_diff_def)

end
