(* ===== verification/VoiceHealth.thy ===== *)
theory VoiceHealth
  imports VoiceTasks Moment
begin

text \<open>
  The token check of \<open>compose/nuc/voice-worker/runner.py\<close> (\<open>check_tokens\<close>, and the timer of \<open>main\<close>)
  and what the hub says about its result. What GitHub answered, or the exception the request
  raised, is an argument.
\<close>

datatype gh_answer =
    Answered "string option"     \<comment> \<open>the expiration header\<close>
  | HttpStatus nat
  | OtherFailure string

definition health_every :: rat where
  "health_every = 6 * 3600"

definition claude_token_days :: int where
  "claude_token_days = 365"

definition strptime_error :: "string \<Rightarrow> string" where
  "strptime_error s = ''time data '' @ repr_str s @ '' does not match format '' @ repr_str ''%Y-%m-%d %H:%M:%S UTC''"

definition github_fields :: "gh_answer \<Rightarrow> json dict" where
  "github_fields a = (case a of
      Answered header \<Rightarrow>
        (''github_token_ok'', JBool True) #
        (case header of
           None \<Rightarrow> []
         | Some s \<Rightarrow>
             (if s = [] then []
              else case utc_expiry s of
                  Some t \<Rightarrow> [(''github_token_expires'', JInt t)]
                | None \<Rightarrow> [(''github_token_error'', JStr (take 200 (strptime_error s)))]))
    | HttpStatus c \<Rightarrow>
        [(''github_token_ok'', JBool False), (''github_token_error'', JStr (''GitHub API '' @ str_of_nat c))]
    | OtherFailure m \<Rightarrow> [(''github_token_error'', JStr (take 200 m))])"

text \<open>\<open>int(issued)\<close> of the configuration value.\<close>

definition issued_int :: "json \<Rightarrow> string + int" where
  "issued_int j = (case j of
      JStr s \<Rightarrow> (case int_of s of None \<Rightarrow> Inl ''ValueError'' | Some i \<Rightarrow> Inr i)
    | JInt i \<Rightarrow> Inr i
    | JBool b \<Rightarrow> Inr (if b then 1 else 0)
    | JFloat r \<Rightarrow> (case float_of r of None \<Rightarrow> Inl ''ValueError'' | Some x \<Rightarrow> Inr (trunc x))
    | _ \<Rightarrow> Inl ''TypeError'')"

text \<open>The health file, or the exception that \<open>main\<close> logs.\<close>

definition check_tokens :: "rat \<Rightarrow> gh_answer \<Rightarrow> json \<Rightarrow> string + json dict" where
  "check_tokens now a issued =
     (let h = (''checked_at'', JInt \<lfloor>now\<rfloor>) # github_fields a in
      if truthy issued then
        bindR (issued_int issued) (\<lambda>i. Inr (h @ [(''claude_token_expires'', JInt (i + claude_token_days * 86400))]))
      else Inr h)"

text \<open>One turn of the timer: the time of the last check and the health file. A failed check keeps the
  old file; the time is noted either way.\<close>

definition health_turn :: "rat \<Rightarrow> gh_answer \<Rightarrow> json \<Rightarrow> rat \<times> json option \<Rightarrow> rat \<times> json option" where
  "health_turn now a issued st =
     (if now - fst st > health_every
      then (now, case check_tokens now a issued of Inl _ \<Rightarrow> snd st | Inr h \<Rightarrow> Some (JObj h))
      else st)"

section \<open>From the worker's check to the hub's warnings\<close>

definition days_left :: "rat \<Rightarrow> int \<Rightarrow> int" where
  "days_left now t = \<lfloor>(of_int t - now) / 86400\<rfloor>"

lemma token_line_days:
  assumes "jget k h = JInt t" and "t \<noteq> 0"
  shows "token_line now h (k, label) = Inr [] \<longleftrightarrow> days_left now t > 21"
  using assms by (simp add: token_line_def number_def days_left_def Let_def)

lemma token_line_absent: "jget k h = JNull \<Longrightarrow> token_line now h (k, label) = Inr []"
  by (simp add: token_line_def)

lemma health_warnings_Nil:
  assumes "\<not> has_key ''error'' h"
  shows "health_warnings now h = Inr [] \<longleftrightarrow>
    jget ''github_token_ok'' h \<noteq> JBool False \<and> \<not> truthy (jget ''github_token_error'' h) \<and>
    token_line now h (''github_token_expires'', ''GitHub token'') = Inr [] \<and>
    token_line now h (''claude_token_expires'', ''Claude token'') = Inr []"
  using assms
  by (cases "token_line now h (''github_token_expires'', ''GitHub token'')";
      cases "token_line now h (''claude_token_expires'', ''Claude token'')")
    (auto simp: health_warnings_def)

text \<open>The hub is silent about the worker's tokens exactly when they are fine: after a check that
  GitHub answered with an expiry date, \<open>platform_status\<close> gets no warning if and only if both
  tokens have more than 21 full days left when it asks.\<close>

theorem silent_iff_tokens_fine:
  assumes "check_tokens now (Answered (Some s)) (JStr issued) = Inr h"
    and "utc_expiry s = Some t" and "s \<noteq> []" and "t \<noteq> 0" and "int_of issued = Some i" and "issued \<noteq> []"
    and "i + 365 * 86400 \<noteq> 0"
  shows "health_warnings later h = Inr [] \<longleftrightarrow> days_left later t > 21 \<and> days_left later (i + 365 * 86400) > 21"
proof -
  have h: "h = [(''checked_at'', JInt \<lfloor>now\<rfloor>), (''github_token_ok'', JBool True), (''github_token_expires'', JInt t),
      (''claude_token_expires'', JInt (i + 365 * 86400))]"
    using assms by (auto simp: check_tokens_def github_fields_def issued_int_def claude_token_days_def)
  have g: "jget ''github_token_expires'' h = JInt t" and c: "jget ''claude_token_expires'' h = JInt (i + 365 * 86400)"
    and rest: "\<not> has_key ''error'' h" "jget ''github_token_ok'' h = JBool True" "jget ''github_token_error'' h = JNull"
    by (simp_all add: h has_key_def)
  show ?thesis
    unfolding health_warnings_Nil [OF rest(1)] token_line_days [OF g assms(4)] token_line_days [OF c assms(7)]
    using rest by simp
qed

lemma sample_expiry: "utc_expiry ''2026-12-29 17:13:25 UTC'' = Some 1798564405"
  by (simp add: utc_expiry_def suffix_def fromisoformat_def time_of_day_def two_digits_def fraction_of_def
      all_digits_def is_digit_def nat_of_str_def digit_val_def valid_date_def days_in_month_def
      toordinal_def days_before_year_def days_before_month_def leap_def upt_rec timestamp_def unix_epoch_def Let_def)

theorem silent_iff_tokens_fine_witness:
  "\<exists>h. check_tokens 1796000000 (Answered (Some ''2026-12-29 17:13:25 UTC'')) (JStr ''1795000000'') = Inr h \<and>
     health_warnings 1796000000 h = Inr [] \<and> health_warnings 1797000000 h \<noteq> Inr []"
proof -
  have i: "int_of ''1795000000'' = Some 1795000000"
    by (simp add: int_of_def strip_def strip_if_def lstrip_if_def rstrip_if_def is_space_def split_sign_def
        all_digits_def is_digit_def nat_of_str_def digit_val_def)
  have run: "check_tokens 1796000000 (Answered (Some ''2026-12-29 17:13:25 UTC'')) (JStr ''1795000000'') =
      Inr [(''checked_at'', JInt 1796000000), (''github_token_ok'', JBool True), (''github_token_expires'', JInt 1798564405),
        (''claude_token_expires'', JInt (1795000000 + 365 * 86400))]"
    by (simp add: check_tokens_def github_fields_def sample_expiry issued_int_def i claude_token_days_def)
  note fine = silent_iff_tokens_fine [OF run sample_expiry _ _ i]
  show ?thesis
    unfolding run using fine [of 1796000000] fine [of 1797000000]
    by (simp add: days_left_def)
qed

end
