(* ===== verification/VoiceProtocol.thy ===== *)
theory VoiceProtocol
  imports VoiceRunnerSafety VoiceHealth
begin

text \<open>
  The voice worker as it runs: \<open>dispatch.py\<close> answers connections at any time while the loop of \<open>runner.py\<close> takes
  one task after the other, and the service may be stopped and started again at any moment. A task that is
  being processed still has some status files to write; these are the ones of the run in
  \<open>VoiceRunner\<close>, written one at a time between the connections. Nothing else of a run touches the directories.
\<close>

section \<open>The status files of a run\<close>

definition status_writes :: "event list \<Rightarrow> task list" where
  "status_writes vs = concat (map (\<lambda>v. case v of WriteStatus t \<Rightarrow> [t] | _ \<Rightarrow> []) vs)"

definition put_status :: "task \<Rightarrow> vw_dirs \<Rightarrow> vw_dirs" where
  "put_status t d = d\<lparr>status := AList.update (str_of (jget ''id'' t)) t (status d)\<rparr>"

text \<open>Taking the next task, with the status files that its run will write.\<close>

definition pick_up :: "env \<Rightarrow> vw_dirs \<Rightarrow> (task list \<times> vw_dirs) option" where
  "pick_up e d = map_option (\<lambda>(t, d').
     (status_writes (trace (snd (process_or_fail e \<lparr>dirs = d', cur = t, trace = [], readings = 0\<rparr>))), d')) (pop_task d)"

lemma status_writes_simps [simp]:
  "status_writes [] = []" "status_writes (vs @ us) = status_writes vs @ status_writes us"
  "status_writes (v # vs) = (case v of WriteStatus t \<Rightarrow> [t] | _ \<Rightarrow> []) @ status_writes vs"
  by (simp_all add: status_writes_def)

text \<open>The state of a run of task \<open>i\<close> that began with the directories \<open>d\<close>.\<close>

definition writing :: "string \<Rightarrow> vw_dirs \<Rightarrow> world \<Rightarrow> bool" where
  "writing i d w \<longleftrightarrow>
     jget ''id'' (cur w) = JStr i \<and> list_all (\<lambda>t. jget ''id'' t = JStr i) (status_writes (trace w)) \<and>
     dirs w = fold put_status (status_writes (trace w)) d \<and>
     (status_writes (trace w) = [] \<or> last (status_writes (trace w)) = cur w)"

lemma writing_write_status:
  assumes "''id'' \<notin> set (keys u)"
  shows "keeps (writing i d) (write_status u) e" "establishes (writing i d) (write_status u) e (\<lambda>w. status_writes (trace w) \<noteq> [])"
  using assms by (auto simp: keeps_def establishes_def writing_def write_status_eq new_status_id put_status_def)

lemma writing_ops:
  "keeps (writing i d) (run_env argv vars) e" "keeps (writing i d) (secret n) e" "keeps (writing i d) clock_time e"
  "keeps (writing i d) (\<lambda>e w. (post e url b, w)) e"
  by (simp_all add: keeps_def writing_def run_env_eq secret_eq clock_time_def)

lemma writing_emit: "status_writes [v] = [] \<Longrightarrow> keeps (writing i d) (emit v) e"
  by (simp add: keeps_def writing_def emit_eq)

lemmas writing_intros = keeps_bind keeps_andthen keeps_if keeps_split writing_ops writing_emit writing_write_status(1)
  keeps_pure keeps_task_str keeps_config keeps_first_line keeps_item

lemma writing_run: "keeps (writing i d) (run argv) e" "keeps (writing i d) (git dir args tok) e"
  unfolding run_def git_def by (rule writing_ops)+

lemma writing_agent: "keeps (writing i d) (run_agent work cfg) e"
  unfolding run_agent_def Let_def
  by (auto intro!: writing_intros writing_run split: agent_outcome.split)

lemma writing_parts:
  "keeps (writing i d) (export_patch work sha) e" "keeps (writing i d) (open_pr branch summary cfg tok) e"
  unfolding export_patch_def open_pr_def Let_def
  by (auto intro!: writing_intros writing_run)

abbreviation wrote :: "world \<Rightarrow> bool" where
  "wrote w \<equiv> status_writes (trace w) \<noteq> []"

lemmas wrote_intros = establishes_bind establishes_andthen establishes_if establishes_raise writing_write_status(2)
  writing_intros writing_run writing_agent writing_parts

lemma process_writes: "establishes (writing i d) process_or_fail e wrote"
  unfolding process_or_fail_def process_def publish_def Let_def
  by (rule establishes_try_catch; intro wrote_intros; simp)

text \<open>Taking a task: the least identifier leaves the queue, and its run writes its own status files only, at
  least one, the last of which says \<open>done\<close> or \<open>failed\<close>.\<close>

definition final :: "task \<Rightarrow> bool" where
  "final t \<longleftrightarrow> jget ''state'' t \<in> {JStr ''done'', JStr ''failed''}"

lemma pick_up_Some:
  assumes "queue_ok cfg d" and "pick_up e d = Some (ts, d')"
  obtains i where "i \<in> set (keys (queue d))" and "d' = d\<lparr>queue := AList.delete i (queue d)\<rparr>"
    and "ts \<noteq> []" and "list_all (\<lambda>t. jget ''id'' t = JStr i) ts" and "final (last ts)"
    and "\<exists>w. run_next e d = Some w \<and> dirs w = fold put_status ts d'"
proof -
  obtain t w where pop: "pop_task d = Some (t, d')"
    and w: "w = snd (process_or_fail e \<lparr>dirs = d', cur = t, trace = [], readings = 0\<rparr>)" and ts: "ts = status_writes (trace w)"
    using assms(2) by (auto simp: pick_up_def)
  have run: "run_next e d = Some w"
    using pop w by (simp add: run_next_def)
  obtain i where i: "i \<in> set (keys (queue d))" "ended i ''done'' w \<or> ended i ''failed'' w"
    and p: "\<exists>t'. process_or_fail e \<lparr>dirs = d\<lparr>queue := AList.delete i (queue d)\<rparr>, cur = t', trace = [], readings = 0\<rparr> = (Inr (), w)"
    and g: "guarded e i (d\<lparr>queue := AList.delete i (queue d)\<rparr>) w"
    by (rule run_next_Some [OF assms(1) run])
  obtain j where j: "map_of (queue d) j = Some t" "d' = d\<lparr>queue := AList.delete j (queue d)\<rparr>"
    using pop_task_Some [OF pop] by blast
  have id: "jget ''id'' t = JStr j"
    using assms(1) map_of_SomeD [OF j(1)] by (auto simp: queue_ok_def queued_ok_def)
  have "writing j d' \<lparr>dirs = d', cur = t, trace = [], readings = 0\<rparr>"
    by (simp add: writing_def id)
  moreover have "\<exists>a. fst (process_or_fail e \<lparr>dirs = d', cur = t, trace = [], readings = 0\<rparr>) = Inr a"
    by (auto simp: process_or_fail_def try_catch_def write_status_eq split: prod.splits sum.splits)
  ultimately have wr: "writing j d' w" "wrote w"
    using process_writes [of j d' e] unfolding establishes_def w by blast+
  have "jget ''id'' (cur w) = JStr i"
    using g by (simp add: working_def)
  then have "i = j"
    using wr(1) by (simp add: writing_def)
  moreover have "final (last ts)"
    using i(2) wr ts by (auto simp: writing_def ended_def final_def)
  ultimately show thesis
    using that [of i] i(1) j(2) wr ts run by (auto simp: writing_def)
qed

section \<open>Connections, turns of the loop and restarts\<close>

text \<open>The files, when the tokens were last checked, and the status files that the task being processed still has
  to write (\<open>None\<close> while the loop is between two tasks).\<close>

record worker_state =
  files :: vw_dirs
  last_check :: rat
  unwritten :: "task list option"

inductive worker_step :: "vw_config \<Rightarrow> worker_state \<Rightarrow> worker_state \<Rightarrow> bool" for cfg where
  Connect: "clock_ok c \<Longrightarrow> worker_step cfg w (w\<lparr>files := snd (dispatch cfg (files w) ssh_command stdin c)\<rparr>)"
| Check: "unwritten w = None \<Longrightarrow> health_turn t a issued (last_check w, health (files w)) = (l, h) \<Longrightarrow>
    worker_step cfg w (w\<lparr>files := (files w)\<lparr>health := h\<rparr>, last_check := l\<rparr>)"
| Take: "unwritten w = None \<Longrightarrow> pick_up e (files w) = Some (ts, d) \<Longrightarrow>
    worker_step cfg w (w\<lparr>files := d, unwritten := Some ts\<rparr>)"
| Write: "unwritten w = Some (t # ts) \<Longrightarrow>
    worker_step cfg w (w\<lparr>files := put_status t (files w), unwritten := Some ts\<rparr>)"
| Finish: "unwritten w = Some [] \<Longrightarrow> worker_step cfg w (w\<lparr>unwritten := None\<rparr>)"

text \<open>The service is stopped and started again (\<open>Restart=always\<close>): the loop begins anew.\<close>

definition restarted :: "worker_state \<Rightarrow> worker_state" where
  "restarted w = w\<lparr>last_check := 0, unwritten := None\<rparr>"

definition any_step :: "vw_config \<Rightarrow> worker_state \<Rightarrow> worker_state \<Rightarrow> bool" where
  "any_step cfg w w' \<longleftrightarrow> worker_step cfg w w' \<or> w' = restarted w"

definition fresh :: "vw_dirs \<Rightarrow> worker_state" where
  "fresh d = \<lparr>files = d, last_check = 0, unwritten = None\<rparr>"

text \<open>What a connection changes.\<close>

lemma dispatch_changes:
  obtains "snd (dispatch cfg d s stdin c) = d"
  | req repo ins where "valid_request cfg stdin req repo ins" and "active_count d < max_active cfg"
      and "snd (dispatch cfg d s stdin c) = queue_new c req repo ins d"
  using dispatch_cases [of cfg d s stdin c] start_dirs [of cfg d stdin c] by metis

lemma dispatch_queue_ok: "queue_ok cfg d \<Longrightarrow> clock_ok c \<Longrightarrow> queue_ok cfg (snd (dispatch cfg d s stdin c))"
  using dispatch_cases [of cfg d s stdin c] start_queue_ok [of cfg d c stdin] by auto

lemma queue_fold_put [simp]: "queue (fold put_status ts d) = queue d" "health (fold put_status ts d) = health d"
  by (induction ts arbitrary: d) (simp_all add: put_status_def)

lemma step_queue_ok: "worker_step cfg w w' \<Longrightarrow> queue_ok cfg (files w) \<Longrightarrow> queue_ok cfg (files w')"
proof (induction rule: worker_step.induct)
  case (Connect c w s stdin)
  then show ?case by (simp add: dispatch_queue_ok)
next
  case (Take w e ts d)
  from pick_up_Some [OF Take.prems Take.hyps(2)] obtain i where "d = (files w)\<lparr>queue := AList.delete i (queue (files w))\<rparr>"
    by blast
  then show ?case
    using Take.prems by (auto simp: queue_ok_def AList.delete_eq)
qed (simp_all add: queue_ok_def put_status_def)

section \<open>Without restarts every task settles\<close>

definition settling :: "worker_state \<Rightarrow> bool" where
  "settling w \<longleftrightarrow> (case unwritten w of
      None \<Rightarrow> \<forall>i t. map_of (status (files w)) i = Some t \<longrightarrow> final t
    | Some ts \<Rightarrow> \<exists>i. list_all (\<lambda>t. jget ''id'' t = JStr i) ts \<and> (ts \<noteq> [] \<longrightarrow> final (last ts)) \<and>
        (\<forall>j t. map_of (status (files w)) j = Some t \<and> (j \<noteq> i \<or> ts = []) \<longrightarrow> final t))"

lemma step_settling:
  assumes "worker_step cfg w w'" and "queue_ok cfg (files w)" and "settling w"
  shows "settling w'"
  using assms
proof (induction rule: worker_step.induct)
  case (Connect c w s stdin)
  have "status (snd (dispatch cfg (files w) s stdin c)) = status (files w)"
    by (rule dispatch_changes [of cfg "files w" s stdin c]) (simp_all add: queue_new_def)
  with Connect show ?case unfolding settling_def by (cases "unwritten w") auto
next
  case (Take w e ts d)
  from pick_up_Some [OF Take.prems(1) Take.hyps(2)] obtain i where
    "d = (files w)\<lparr>queue := AList.delete i (queue (files w))\<rparr>" "list_all (\<lambda>t. jget ''id'' t = JStr i) ts" "ts \<noteq> []" "final (last ts)"
    by blast
  with Take show ?case by (auto simp: settling_def)
next
  case (Write w t ts)
  then obtain i where i: "jget ''id'' t = JStr i" "list_all (\<lambda>t. jget ''id'' t = JStr i) ts" "final (last (t # ts))"
    "\<forall>j t'. map_of (status (files w)) j = Some t' \<and> j \<noteq> i \<longrightarrow> final t'"
    by (auto simp: settling_def)
  then show ?case
    by (auto simp: settling_def put_status_def str_of_def update_conv' intro!: exI [of _ i] split: if_splits)
qed (auto simp: settling_def)

lemma steps_settling:
  "(worker_step cfg)\<^sup>*\<^sup>* w w' \<Longrightarrow> queue_ok cfg (files w) \<Longrightarrow> settling w \<Longrightarrow> queue_ok cfg (files w') \<and> settling w'"
  by (induction rule: rtranclp_induct) (auto intro: step_queue_ok step_settling)

lemma no_active:
  assumes "queue d = []" and "\<And>i t. map_of (status d) i = Some t \<Longrightarrow> final t"
  shows "active_count d = 0"
proof -
  have "\<not> is_active (load_status d i)" for i
    using assms(1) assms(2) [of i] by (cases "map_of (status d) i") (auto simp: is_active_def load_status_def final_def)
  then show ?thesis by (simp add: active_count_def recent_def filter_empty_conv)
qed

text \<open>C9: As long as the service is not restarted, whatever connections arrive between the writes of the loop,
  every status file says \<open>done\<close> or \<open>failed\<close> except for the task being processed. Therefore a worker that
  is between two tasks and has an empty queue accepts every valid request.\<close>

theorem idle_worker_accepts:
  assumes "(worker_step cfg)\<^sup>*\<^sup>* (fresh idle_dirs) w" and "unwritten w = None" and "queue (files w) = []"
    and "0 < max_active cfg" and "valid_request cfg stdin req repo s"
  shows "fst (start cfg (files w) stdin c) = Printed (JObj (state_field (new_id c) ''queued'')) 0"
proof -
  have "settling w"
    using steps_settling [OF assms(1)] by (simp add: fresh_def idle_dirs_def queue_ok_def settling_def)
  then have "active_count (files w) = 0"
    using assms(2,3) by (intro no_active) (auto simp: settling_def)
  then show ?thesis
    using assms(4) by (simp add: start_valid [OF assms(5)])
qed

section \<open>The worker as tasks that run at once\<close>

text \<open>The specification: requests are admitted to the queue, and the task with the least identifier is run at
  once, as by \<open>run_next\<close>. What the writes still to come will make of the files relates the two.\<close>

inductive atomic_step :: "vw_config \<Rightarrow> vw_dirs \<Rightarrow> vw_dirs \<Rightarrow> bool" for cfg where
  Admit: "valid_request cfg stdin req repo s \<Longrightarrow> atomic_step cfg d (queue_new c req repo s d)"
| Run: "run_next e d = Some w \<Longrightarrow> atomic_step cfg d (dirs w)"
| Note: "atomic_step cfg d (d\<lparr>health := h\<rparr>)"

definition settled :: "worker_state \<Rightarrow> vw_dirs" where
  "settled w = fold put_status (case unwritten w of None \<Rightarrow> [] | Some ts \<Rightarrow> ts) (files w)"

lemma put_queue_new: "put_status t (queue_new c req repo s d) = queue_new c req repo s (put_status t d)"
  by (simp add: put_status_def queue_new_def)

lemma fold_put_queue_new: "fold put_status ts (queue_new c req repo s d) = queue_new c req repo s (fold put_status ts d)"
  by (induction ts arbitrary: d) (simp_all add: put_queue_new)

lemma step_refines:
  assumes "worker_step cfg w w'" and "queue_ok cfg (files w)"
  shows "settled w' = settled w \<or> atomic_step cfg (settled w) (settled w')"
  using assms
proof (induction rule: worker_step.induct)
  case (Connect c w s stdin)
  show ?case
  proof (rule dispatch_changes [of cfg "files w" s stdin c])
    fix req repo ins
    assume v: "valid_request cfg stdin req repo ins"
      and d: "snd (dispatch cfg (files w) s stdin c) = queue_new c req repo ins (files w)"
    show ?thesis
      using atomic_step.Admit [OF v, of "settled w" c] by (simp add: settled_def d fold_put_queue_new)
  qed (simp add: settled_def)
next
  case (Check w t a issued l h)
  then show ?case
    using atomic_step.Note [of cfg "settled w" h] by (simp add: settled_def)
next
  case (Take w e ts d)
  from pick_up_Some [OF Take.prems Take.hyps(2)] obtain v where "run_next e (files w) = Some v" "dirs v = fold put_status ts d"
    by blast
  with Take.hyps atomic_step.Run [of e "settled w" v cfg] show ?case
    by (simp add: settled_def)
qed (simp_all add: settled_def)

text \<open>C8: Connections that come while a task is being processed do not disturb it, nor it them: every run of
  the worker without restarts is a run of the specification in which each task is processed at once.\<close>

theorem worker_refines:
  assumes "(worker_step cfg)\<^sup>*\<^sup>* w w'" and "queue_ok cfg (files w)"
  shows "(atomic_step cfg)\<^sup>*\<^sup>* (settled w) (settled w')"
  using assms
proof (induction rule: rtranclp_induct)
  case (step v v')
  have "queue_ok cfg (files v)"
    using step.hyps(1) step.prems by (induction rule: rtranclp_induct) (auto intro: step_queue_ok)
  then show ?case
    using step step_refines [of cfg v v'] by (auto intro: rtranclp.rtrancl_into_rtrancl)
qed simp

section \<open>Restarts\<close>

text \<open>A restart in the middle of a task leaves its status file as it was: nothing takes the task up again.\<close>

definition blocked :: "vw_config \<Rightarrow> worker_state \<Rightarrow> bool" where
  "blocked cfg w \<longleftrightarrow> unwritten w = None \<and> queue (files w) = [] \<and> max_active cfg \<le> active_count (files w)"

lemma active_count_health [simp]: "active_count (d\<lparr>health := h\<rparr>) = active_count d"
proof -
  have "load_status (d\<lparr>health := h\<rparr>) = load_status d"
    by (rule ext) (simp add: load_status_def)
  then show ?thesis by (simp add: active_count_def recent_def task_ids_def)
qed

lemma step_blocked: "worker_step cfg w w' \<Longrightarrow> blocked cfg w \<Longrightarrow> blocked cfg w'"
proof (induction rule: worker_step.induct)
  case (Connect c w s stdin)
  show ?case
    by (rule dispatch_changes [of cfg "files w" s stdin c]) (use Connect in \<open>simp_all add: blocked_def\<close>)
next
  case (Take w e ts d)
  then show ?case by (simp add: blocked_def pick_up_def pop_task_def sorted_set_def)
qed (simp_all add: blocked_def)

lemma any_step_blocked: "(any_step cfg)\<^sup>*\<^sup>* w w' \<Longrightarrow> blocked cfg w \<Longrightarrow> blocked cfg w'"
proof (induction rule: rtranclp_induct)
  case (step v v')
  show ?case
  proof (cases "worker_step cfg v v'")
    case False
    with step show ?thesis by (simp add: any_step_def restarted_def blocked_def)
  qed (use step step_blocked in blast)
qed

lemma blocked_refuses:
  "blocked cfg w \<Longrightarrow> valid_request cfg stdin req repo s \<Longrightarrow> \<exists>m. fst (start cfg (files w) stdin c) = Printed (err m) 3"
  by (auto simp: blocked_def start_valid)

text \<open>One task that is cut off: it is accepted and taken, its status file says \<open>running\<close>, and the service restarts.\<close>

definition no_clone :: env where
  "no_clone = \<lparr>config_file = Inr \<lparr>owner = ''o'', max_minutes = 30\<rparr>, secret_file = (\<lambda>_. Inr []),
     command = (\<lambda>_. Inl (OtherError ''no network'')), agent = (\<lambda>_. TimeoutExpired), post = (\<lambda>_ _. Inr []),
     parse_json = (\<lambda>_. None), now = (\<lambda>n. of_nat n)\<rparr>"

lemma no_clone_writes:
  assumes "jget ''id'' t = JStr i"
  shows "\<exists>r f. status_writes (trace (snd (process_or_fail no_clone \<lparr>dirs = d, cur = t, trace = [], readings = 0\<rparr>))) = [r, f] \<and>
    jget ''id'' r = JStr i \<and> jget ''state'' r = JStr ''running''"
proof -
  let ?w = "\<lparr>dirs = d, cur = t, trace = [], readings = 1\<rparr>"
  let ?u = "[(''state'', JStr ''running''), (''step'', JStr ''cloning''), (''started_at'', JInt 0)]"
  have "jget ''id'' (new_status ?u no_clone ?w) = JStr i" "jget ''state'' (new_status ?u no_clone ?w) = JStr ''running''"
    using assms by (simp_all add: new_status_id new_status_state)
  then show ?thesis
    by (simp add: process_or_fail_def process_def no_clone_def bind_def andthen_def config_def task_str_def gets_def clock_time_def
      write_status_eq run_def run_env_eq try_catch_def Let_def)
qed

lemma start_word: "split_ws ''start'' = [''start'']"
  by code_simp

lemma cut_off:
  assumes "unwritten w = None" and "queue (files w) = []" and "clock_ok c" and v: "valid_request cfg stdin req repo s"
    and "active_count (files w) < max_active cfg"
  shows "\<exists>t w'. (any_step cfg)\<^sup>*\<^sup>* w w' \<and> unwritten w' = None \<and> queue (files w') = [] \<and>
    status (files w') = AList.update (new_id c) t (status (files w)) \<and> jget ''state'' t = JStr ''running''"
proof -
  let ?task = "new_task c repo s (get_or (JStr []) ''requested_by'' req)"
  let ?w1 = "w\<lparr>files := queue_new c req repo s (files w)\<rparr>"
  have q: "queue (files ?w1) = [(new_id c, ?task)]" and id: "jget ''id'' ?task = JStr (new_id c)"
    using assms(2) by (simp_all add: queue_new_def new_task_def)
  have "dispatch cfg (files w) ''start'' stdin c = start cfg (files w) stdin c"
    by (simp add: dispatch_def start_word)
  then have s1: "worker_step cfg w ?w1"
    using worker_step.Connect [OF assms(3), of cfg w "''start''" stdin] start_valid [OF v] assms(5) by simp
  obtain r f where p: "pick_up no_clone (files ?w1) = Some ([r, f], (files ?w1)\<lparr>queue := []\<rparr>)"
      and r: "jget ''id'' r = JStr (new_id c)" "jget ''state'' r = JStr ''running''"
    using no_clone_writes [OF id, of "(files ?w1)\<lparr>queue := []\<rparr>"] q by (auto simp: pick_up_def pop_task_def sorted_set_def)
  let ?w2 = "?w1\<lparr>files := (files ?w1)\<lparr>queue := []\<rparr>, unwritten := Some [r, f]\<rparr>"
  let ?w3 = "?w2\<lparr>files := put_status r (files ?w2), unwritten := Some [f]\<rparr>"
  have s2: "worker_step cfg ?w1 ?w2"
    using worker_step.Take [OF _ p, of cfg] assms(1) by simp
  have s3: "worker_step cfg ?w2 ?w3"
    using worker_step.Write [of ?w2 r "[f]" cfg] by simp
  have "any_step cfg w ?w1" "any_step cfg ?w1 ?w2" "any_step cfg ?w2 ?w3" "any_step cfg ?w3 (restarted ?w3)"
    using s1 s2 s3 by (simp_all add: any_step_def)
  then have "(any_step cfg)\<^sup>*\<^sup>* w (restarted ?w3)"
    by (meson converse_rtranclp_into_rtranclp rtranclp.rtrancl_refl)
  then show ?thesis
    using r by (intro exI [of _ r] exI [of _ "restarted ?w3"]) (simp add: restarted_def put_status_def queue_new_def str_of_def)
qed


lemma all_active:
  assumes "queue d = []" and "\<And>i t. map_of (status d) i = Some t \<Longrightarrow> jget ''state'' t = JStr ''running''"
    and "card (set (keys (status d))) \<le> 20"
  shows "active_count d = card (set (keys (status d)))"
proof -
  have "is_active (load_status d i)" if i: "i \<in> set (keys (status d))" for i
  proof -
    obtain t where "map_of (status d) i = Some t"
      using i by (cases "map_of (status d) i") (auto simp: map_of_eq_None_iff)
    then show ?thesis
      using assms(2) [of i t] by (cases t) (auto simp: is_active_def load_status_def jget_def get_or_def)
  qed
  moreover have "set (task_ids d) = set (keys (status d))" "length (task_ids d) = card (set (keys (status d)))"
    using assms(1) distinct_card [OF distinct_sorted_set, of "keys (status d)"] by (simp_all add: task_ids_def set_sorted_set)
  ultimately show ?thesis
    using assms(3) by (simp add: active_count_def recent_def filter_True)
qed

lemma cut_offs:
  assumes "valid_request cfg stdin req repo s" and "max_active cfg \<le> 20"
    and "\<And>n. clock_ok (clocks n)" and "inj_on (\<lambda>n. new_id (clocks n)) {..<max_active cfg}" and "n \<le> max_active cfg"
  shows "\<exists>w. (any_step cfg)\<^sup>*\<^sup>* (fresh idle_dirs) w \<and> unwritten w = None \<and> queue (files w) = [] \<and>
    (\<forall>i t. map_of (status (files w)) i = Some t \<longrightarrow> jget ''state'' t = JStr ''running'') \<and>
    set (keys (status (files w))) = (\<lambda>n. new_id (clocks n)) ` {..<n}"
  using assms(5)
proof (induction n)
  case 0
  show ?case by (intro exI [of _ "fresh idle_dirs"]) (simp add: fresh_def idle_dirs_def)
next
  case (Suc n)
  then obtain w where w: "(any_step cfg)\<^sup>*\<^sup>* (fresh idle_dirs) w" "unwritten w = None" "queue (files w) = []"
      "\<And>i t. map_of (status (files w)) i = Some t \<Longrightarrow> jget ''state'' t = JStr ''running''"
      "set (keys (status (files w))) = (\<lambda>n. new_id (clocks n)) ` {..<n}"
    by auto
  have "card (set (keys (status (files w)))) = n"
    using card_image [OF inj_on_subset [OF assms(4)], of "{..<n}"] Suc.prems w(5) by auto
  then have "active_count (files w) < max_active cfg"
    using all_active [OF w(3,4)] Suc.prems assms(2) by simp
  from cut_off [OF w(2,3) assms(3) [of n] assms(1) this] obtain t w' where
    "(any_step cfg)\<^sup>*\<^sup>* w w'" "unwritten w' = None" "queue (files w') = []"
    "status (files w') = AList.update (new_id (clocks n)) t (status (files w))" "jget ''state'' t = JStr ''running''"
    by blast
  with w show ?case
    by (intro exI [of _ w']) (auto simp: update_conv' AList.update_keys lessThan_Suc split: if_splits)
qed

text \<open>C10: Restarts of the service can make the worker useless for good. Each restart in the middle of a task leaves
  a status file that says \<open>running\<close>, and after as many of them as tasks may be active, whatever connections, turns and
  restarts follow, every valid request is refused although the queue is empty and nothing runs.\<close>

theorem restarts_block:
  assumes "valid_request cfg stdin req repo s" and "max_active cfg \<le> 20"
    and "\<And>n. clock_ok (clocks n)" and "inj_on (\<lambda>n. new_id (clocks n)) {..<max_active cfg}"
  shows "\<exists>w. (any_step cfg)\<^sup>*\<^sup>* (fresh idle_dirs) w \<and> (\<forall>w' stdin' req' repo' s' c.
    (any_step cfg)\<^sup>*\<^sup>* w w' \<and> valid_request cfg stdin' req' repo' s' \<longrightarrow>
      queue (files w') = [] \<and> unwritten w' = None \<and> (\<exists>m. fst (start cfg (files w') stdin' c) = Printed (err m) 3))"
proof -
  obtain w where w: "(any_step cfg)\<^sup>*\<^sup>* (fresh idle_dirs) w" "unwritten w = None" "queue (files w) = []"
      "\<And>i t. map_of (status (files w)) i = Some t \<Longrightarrow> jget ''state'' t = JStr ''running''"
      "set (keys (status (files w))) = (\<lambda>n. new_id (clocks n)) ` {..<max_active cfg}"
    using cut_offs [OF assms order_refl] by blast
  then have "active_count (files w) = max_active cfg"
    using all_active [OF w(3,4)] card_image [OF assms(4)] assms(2) by simp
  then have "blocked cfg w"
    using w by (simp add: blocked_def)
  then show ?thesis
    using w(1) any_step_blocked blocked_refuses by (intro exI [of _ w]) (auto simp: blocked_def)
qed

section \<open>Samples\<close>

text \<open>One task from its request to its last status file.\<close>

lemma processed:
  "\<exists>w. (worker_step sample_cfg)\<^sup>*\<^sup>* (fresh idle_dirs) w \<and> unwritten w = None \<and> queue (files w) = [] \<and> status (files w) \<noteq> []"
proof -
  let ?w1 = "(fresh idle_dirs)\<lparr>files := queued_dirs\<rparr>"
  have "clock_ok sample_clock" by (simp add: clock_ok_def sample_clock_def)
  moreover have "snd (dispatch sample_cfg idle_dirs ''start'' (Some sample_request) sample_clock) = queued_dirs"
    by (simp add: dispatch_def start_word queued_dirs_def)
  ultimately have s1: "worker_step sample_cfg (fresh idle_dirs) ?w1"
    using worker_step.Connect [of sample_clock sample_cfg "fresh idle_dirs" "''start''" "Some sample_request"] by (simp add: fresh_def)
  obtain r f where p: "pick_up no_clone queued_dirs = Some ([r, f], queued_dirs\<lparr>queue := []\<rparr>)"
    using no_clone_writes [of "new_task sample_clock ''hue'' ''fix the README'' (JStr [])" "new_id sample_clock" "queued_dirs\<lparr>queue := []\<rparr>"]
    by (auto simp: pick_up_def pop_task_def sorted_set_def queued_dirs_queue new_task_def)
  let ?w2 = "?w1\<lparr>files := queued_dirs\<lparr>queue := []\<rparr>, unwritten := Some [r, f]\<rparr>"
  let ?w3 = "?w2\<lparr>files := put_status r (files ?w2), unwritten := Some [f]\<rparr>"
  let ?w4 = "?w3\<lparr>files := put_status f (files ?w3), unwritten := Some []\<rparr>"
  have "worker_step sample_cfg ?w1 ?w2"
    using worker_step.Take [of ?w1 no_clone "[r, f]" _ sample_cfg] p by (simp add: fresh_def)
  moreover have "worker_step sample_cfg ?w2 ?w3" "worker_step sample_cfg ?w3 ?w4"
    using worker_step.Write [of ?w2 r "[f]" sample_cfg] worker_step.Write [of ?w3 f "[]" sample_cfg] by simp_all
  moreover have "worker_step sample_cfg ?w4 (?w4\<lparr>unwritten := None\<rparr>)"
    using worker_step.Finish [of ?w4 sample_cfg] by simp
  ultimately have "(worker_step sample_cfg)\<^sup>*\<^sup>* (fresh idle_dirs) (?w4\<lparr>unwritten := None\<rparr>)"
    using s1 by (meson converse_rtranclp_into_rtranclp rtranclp.rtrancl_refl)
  then show ?thesis
    by (intro exI [of _ "?w4\<lparr>unwritten := None\<rparr>"]) (simp add: put_status_def update_conv')
qed

theorem idle_worker_accepts_witness:
  "\<exists>w. (worker_step sample_cfg)\<^sup>*\<^sup>* (fresh idle_dirs) w \<and> status (files w) \<noteq> [] \<and>
    fst (start sample_cfg (files w) (Some sample_request) sample_clock) = Printed (JObj (state_field (new_id sample_clock) ''queued'')) 0"
proof -
  have "0 < max_active sample_cfg" by (simp add: sample_cfg_def)
  then show ?thesis
    using processed idle_worker_accepts [OF _ _ _ _ sample_valid] by blast
qed

theorem worker_refines_witness:
  "\<exists>w. status (files w) \<noteq> [] \<and> (atomic_step sample_cfg)\<^sup>*\<^sup>* idle_dirs (settled w)"
proof -
  have "queue_ok sample_cfg (files (fresh idle_dirs))" "settled (fresh idle_dirs) = idle_dirs"
    by (simp_all add: fresh_def queue_ok_def idle_dirs_def settled_def)
  then show ?thesis
    using processed worker_refines [of sample_cfg "fresh idle_dirs"] by metis
qed

definition sample_clocks :: "nat \<Rightarrow> clock" where
  "sample_clocks n = sample_clock\<lparr>token := of_nat n\<rparr>"

theorem restarts_block_witness:
  "\<exists>w. (any_step sample_cfg)\<^sup>*\<^sup>* (fresh idle_dirs) w \<and> (\<forall>w' stdin' req' repo' s' c.
    (any_step sample_cfg)\<^sup>*\<^sup>* w w' \<and> valid_request sample_cfg stdin' req' repo' s' \<longrightarrow>
      queue (files w') = [] \<and> unwritten w' = None \<and> (\<exists>m. fst (start sample_cfg (files w') stdin' c) = Printed (err m) 3))"
proof (rule restarts_block [OF sample_valid])
  show "max_active sample_cfg \<le> 20" by (simp add: sample_cfg_def)
  show "clock_ok (sample_clocks n)" for n by (simp add: clock_ok_def sample_clocks_def sample_clock_def)
  have three: "{..<max_active sample_cfg} = {0, 1, 2}" by (auto simp: sample_cfg_def)
  have "new_id (sample_clocks 0) \<noteq> new_id (sample_clocks 1)" "new_id (sample_clocks 0) \<noteq> new_id (sample_clocks 2)"
    "new_id (sample_clocks 1) \<noteq> new_id (sample_clocks 2)"
    by (simp_all add: new_id_def sample_clocks_def hex4_def hex_digit_def)
  then show "inj_on (\<lambda>n. new_id (sample_clocks n)) {..<max_active sample_cfg}"
    unfolding three by auto
qed

end
