(* ===== verification/JsonText.thy ===== *)
theory JsonText
  imports PyNum Json
begin

text \<open>
  \<open>json.loads\<close> on a text, for the lines that the program's own parts write for each other. A value is read as
  Python's decoder reads it; a float keeps its text, so that a float as \<open>repr\<close> prints it is read as \<open>Json\<close>
  has it, and an escape beyond code point 255, which has no character here, is not read. The lemmas show that
  every value reads back from what \<open>json.dumps\<close> writes, and that an object cut short is never read.
\<close>

section \<open>White space and strings\<close>

definition json_space :: "char \<Rightarrow> bool" where
  "json_space c \<longleftrightarrow> code c \<in> {9, 10, 13, 32}"

definition skip :: "string \<Rightarrow> string" where
  "skip = dropWhile json_space"

definition hex_val :: "char \<Rightarrow> nat option" where
  "hex_val c =
     (if is_digit c then Some (code c - 48)
      else if 97 \<le> code c \<and> code c \<le> 102 then Some (code c - 87)
      else if 65 \<le> code c \<and> code c \<le> 70 then Some (code c - 55) else None)"

definition simple_escapes :: "(char \<times> char) list" where
  "simple_escapes =
     [(CHR 0x22, CHR 0x22), (CHR 0x5C, CHR 0x5C), (CHR ''/'', CHR ''/''), (CHR ''b'', CHR 0x08), (CHR ''f'', CHR 0x0C),
      (CHR ''n'', CHR 0x0A), (CHR ''r'', CHR 0x0D), (CHR ''t'', CHR 0x09)]"

text \<open>What follows a backslash: the character it stands for, and how many characters it takes.\<close>

definition escape_of :: "string \<Rightarrow> (char \<times> nat) option" where
  "escape_of s =
     (case s of
        [] \<Rightarrow> None
      | c # t \<Rightarrow>
          (if c = CHR ''u'' then
             (case map hex_val (take 4 t) of
                [Some h3, Some h2, Some h1, Some h0] \<Rightarrow>
                  (let n = ((h3 * 16 + h2) * 16 + h1) * 16 + h0 in if n < 256 then Some (char_of n, 5) else None)
              | _ \<Rightarrow> None)
           else map_option (\<lambda>x. (x, 1)) (map_of simple_escapes c)))"

text \<open>The rest of a string after its opening quote.\<close>

fun json_chars :: "string \<Rightarrow> (string \<times> string) option" where
  "json_chars [] = None"
| "json_chars (c # s) =
     (if c = CHR 0x22 then Some ([], s)
      else if c = CHR 0x5C then
        (case escape_of s of
           None \<Rightarrow> None
         | Some (x, n) \<Rightarrow> map_option (apfst (Cons x)) (json_chars (drop n s)))
      else if code c < 32 then None
      else map_option (apfst (Cons c)) (json_chars s))"

section \<open>Numbers\<close>

text \<open>Each part of \<open>(-?(?:0|[1-9][0-9]*))(\.[0-9]+)?([eE][-+]?[0-9]+)?\<close> gives what follows it.\<close>

definition int_end :: "string \<Rightarrow> string option" where
  "int_end s =
     (case (if prefix ''-'' s then tl s else s) of
        [] \<Rightarrow> None
      | c # u \<Rightarrow> (if c = CHR ''0'' then Some u else if is_digit c then Some (dropWhile is_digit u) else None))"

definition starts_digit :: "string \<Rightarrow> bool" where
  "starts_digit s \<longleftrightarrow> (case s of [] \<Rightarrow> False | c # _ \<Rightarrow> is_digit c)"

definition frac_end :: "string \<Rightarrow> string" where
  "frac_end s = (case s of
      [] \<Rightarrow> []
    | c # t \<Rightarrow> (if c = CHR ''.'' \<and> starts_digit t then dropWhile is_digit t else s))"

definition exp_end :: "string \<Rightarrow> string" where
  "exp_end s = (case s of
      [] \<Rightarrow> []
    | c # t \<Rightarrow>
        (let u = (if prefix ''-'' t \<or> prefix ''+'' t then tl t else t) in
         if (c = CHR ''e'' \<or> c = CHR ''E'') \<and> starts_digit u then dropWhile is_digit u else s))"

definition json_number :: "string \<Rightarrow> (json \<times> string) option" where
  "json_number s = (case int_end s of
      None \<Rightarrow> None
    | Some u \<Rightarrow>
        (let r = exp_end (frac_end u); text = take (length s - length r) s in
         if r = u then map_option (\<lambda>i. (JInt i, r)) (int_of text) else Some (JFloat text, r)))"

section \<open>Values\<close>

definition json_plain :: "string \<Rightarrow> (json \<times> string) option" where
  "json_plain s =
    (if prefix ''null'' s then Some (JNull, drop 4 s)
    else if prefix ''true'' s then Some (JBool True, drop 4 s)
    else if prefix ''false'' s then Some (JBool False, drop 5 s)
    else if prefix ''NaN'' s then Some (JFloat ''nan'', drop 3 s)
    else if prefix ''Infinity'' s then Some (JFloat ''inf'', drop 8 s)
    else if prefix ''-Infinity'' s then Some (JFloat ''-inf'', drop 9 s)
     else json_number s)"

text \<open>The fuel bounds the depth of the calls, of which there are at most two for a character.\<close>

fun json_value :: "nat \<Rightarrow> string \<Rightarrow> (json \<times> string) option"
  and json_items :: "nat \<Rightarrow> string \<Rightarrow> (json list \<times> string) option"
  and json_members :: "nat \<Rightarrow> string \<Rightarrow> (json dict \<times> string) option" where
  "json_value 0 s = None"
| "json_value (Suc n) s =
     (case s of
        [] \<Rightarrow> None
      | c # t \<Rightarrow>
          if c = CHR 0x22 then map_option (apfst JStr) (json_chars t)
          else if c = CHR ''{'' then
            (if prefix ''}'' (skip t) then Some (JObj [], tl (skip t))
             else map_option (apfst (\<lambda>d. JObj (fold (\<lambda>(k, v). AList.update k v) d []))) (json_members n (skip t)))
          else if c = CHR ''['' then
            (if prefix '']'' (skip t) then Some (JList [], tl (skip t))
             else map_option (apfst JList) (json_items n (skip t)))
          else json_plain s)"
| "json_items 0 s = None"
| "json_items (Suc n) s =
     (case json_value n s of
        None \<Rightarrow> None
      | Some (v, r) \<Rightarrow>
          (case skip r of
             [] \<Rightarrow> None
           | c # t \<Rightarrow>
               if c = CHR '','' then map_option (apfst (Cons v)) (json_items n (skip t))
               else if c = CHR '']'' then Some ([v], t) else None))"
| "json_members 0 s = None"
| "json_members (Suc n) s =
     (if prefix [CHR 0x22] s then
        (case json_chars (tl s) of
           None \<Rightarrow> None
         | Some (k, r) \<Rightarrow>
             (if prefix '':'' (skip r) then
                (case json_value n (skip (tl (skip r))) of
                   None \<Rightarrow> None
                 | Some (v, r') \<Rightarrow>
                     (case skip r' of
                        [] \<Rightarrow> None
                      | c # t \<Rightarrow>
                          if c = CHR '','' then map_option (apfst (Cons (k, v))) (json_members n (skip t))
                          else if c = CHR ''}'' then Some ([(k, v)], t) else None))
              else None))
      else None)"

definition json_loads :: "string \<Rightarrow> json option" where
  "json_loads s =
     (case json_value (Suc (2 * length s)) (skip s) of
        None \<Rightarrow> None
      | Some (j, r) \<Rightarrow> if skip r = [] then Some j else None)"

section \<open>Strings read back\<close>

lemma hex_val_digit: "n < 16 \<Longrightarrow> hex_val (hex_digit n) = Some n"
  by (simp add: hex_val_def hex_digit_def is_digit_def code_def)

lemma escape_hex:
  "escape_of (''u00'' @ hex_digit (code c div 16) # hex_digit (code c mod 16) # s) = Some (c, 5)"
proof -
  have c: "code c < 256"
    by (simp add: code_def nat_of_char_less_256)
  then have "code c div 16 < 16" "code c mod 16 < 16"
    by (simp_all add: less_mult_imp_div_less)
  moreover have "hex_val (CHR ''0'') = Some 0"
    by code_simp
  ultimately show ?thesis
    using c by (simp add: escape_of_def hex_val_digit code_def)
qed

lemma escape_of_simple: "c \<noteq> CHR ''u'' \<Longrightarrow> escape_of (c # s) = map_option (\<lambda>x. (x, 1)) (map_of simple_escapes c)"
  by (simp add: escape_of_def)

lemma simple_escape_samples [simp]:
  "map_of simple_escapes CHR 0x22 = Some CHR 0x22" "map_of simple_escapes CHR 0x5C = Some CHR 0x5C"
  "map_of simple_escapes CHR ''n'' = Some CHR 0x0A" "map_of simple_escapes CHR ''r'' = Some CHR 0x0D"
  "map_of simple_escapes CHR ''t'' = Some CHR 0x09" "map_of simple_escapes CHR ''b'' = Some CHR 0x08"
  "map_of simple_escapes CHR ''f'' = Some CHR 0x0C"
  by (simp_all add: simple_escapes_def)

text \<open>A character is written as itself or as an escape, which is read as a whole only.\<close>

lemma escape_of_cut: "k < 5 \<Longrightarrow> escape_of (take k (''u00'' @ [x, y])) = None"
proof -
  assume "k < 5"
  then have "k = 0 \<or> k = 1 \<or> k = 2 \<or> k = 3 \<or> k = 4"
    by linarith
  then show ?thesis
    by (elim disjE) (simp_all add: escape_of_def split: option.split)
qed

lemma dumps_char_read:
  obtains (plain) "dumps_char c = [c]" "c \<noteq> CHR 0x22" "c \<noteq> CHR 0x5C" "32 \<le> code c"
  | (escaped) e where "dumps_char c = CHR 0x5C # e" "\<And>s. escape_of (e @ s) = Some (c, length e)"
      "\<And>k. k < length e \<Longrightarrow> escape_of (take k e) = None"
proof -
  have one: thesis if "dumps_char c = [CHR 0x5C, x]" "map_of simple_escapes x = Some c" "x \<noteq> CHR ''u''" for x
    using that by (intro escaped [of "[x]"]) (simp_all add: escape_of_simple, simp add: escape_of_def)
  show thesis
  proof (cases "c \<in> {CHR 0x22, CHR 0x5C, CHR 0x0A, CHR 0x0D, CHR 0x09, CHR 0x08, CHR 0x0C}")
    case True
    then show thesis
      using one [of c] one [of "CHR ''n''"] one [of "CHR ''r''"] one [of "CHR ''t''"] one [of "CHR ''b''"] one [of "CHR ''f''"]
      by (auto simp: dumps_char_def)
  next
    case False
    show thesis
    proof (cases "code c < 32 \<or> 126 < code c")
      case True
      let ?e = "''u00'' @ [hex_digit (code c div 16), hex_digit (code c mod 16)]"
      have "dumps_char c = CHR 0x5C # ?e"
        using False True by (simp add: dumps_char_def)
      then show thesis
        using escape_hex [of c] escape_of_cut by (intro escaped [of ?e]) simp_all
    qed (use False in \<open>simp add: dumps_char_def plain\<close>)
  qed
qed

lemma json_chars_quote: "json_chars (CHR 0x22 # s) = Some ([], s)"
  by simp

lemma json_chars_dumps: "json_chars (dumps_char c @ s) = map_option (apfst (Cons c)) (json_chars s)"
  by (cases c rule: dumps_char_read) simp_all

lemma json_chars_cut_char: "k < length (dumps_char c) \<Longrightarrow> json_chars (take k (dumps_char c)) = None"
proof (cases c rule: dumps_char_read)
  case (escaped e)
  moreover assume "k < length (dumps_char c)"
  ultimately show ?thesis by (cases k) simp_all
qed simp

lemma json_chars_dumps_all: "json_chars (concat (map dumps_char s) @ CHR 0x22 # r) = Some (s, r)"
proof (induction s)
  case (Cons c s)
  then show ?case
    using json_chars_dumps [of c "concat (map dumps_char s) @ CHR 0x22 # r"] by simp
qed simp

text \<open>A string without its closing quote is not read.\<close>

lemma json_chars_cut: "json_chars (take k (concat (map dumps_char s))) = None"
proof (induction s arbitrary: k)
  case (Cons c s)
  show ?case
  proof (cases "k < length (dumps_char c)")
    case True
    then show ?thesis by (simp add: json_chars_cut_char)
  next
    case False
    then show ?thesis
      using Cons.IH json_chars_dumps [of c "take (k - length (dumps_char c)) (concat (map dumps_char s))"] by simp
  qed
qed simp

section \<open>Numbers read back\<close>

text \<open>What may follow a number: nothing that could be a part of it.\<close>

definition ends_number :: "string \<Rightarrow> bool" where
  "ends_number r \<longleftrightarrow> (case r of [] \<Rightarrow> True | c # _ \<Rightarrow> \<not> is_digit c \<and> c \<notin> {CHR ''.'', CHR ''e'', CHR ''E'', CHR ''-'', CHR ''+''})"

definition float_text :: "string \<Rightarrow> bool" where
  "float_text s \<longleftrightarrow> json_number s = Some (JFloat s, [])"

lemma dropWhile_ends: "ends_number r \<Longrightarrow> dropWhile is_digit (s @ r) = dropWhile is_digit s @ r"
  by (induction s) (auto simp: ends_number_def split: list.splits)

lemma starts_digit_ends: "ends_number r \<Longrightarrow> starts_digit (s @ r) = starts_digit s"
  by (cases s) (auto simp: ends_number_def starts_digit_def split: list.splits)

lemma prefix_ends: "ends_number r \<Longrightarrow> prefix ''-'' (s @ r) = prefix ''-'' s \<and> prefix ''+'' (s @ r) = prefix ''+'' s"
  by (cases s) (auto simp: ends_number_def split: list.splits)

lemma int_end_ends: "ends_number r \<Longrightarrow> int_end s = Some u \<Longrightarrow> int_end (s @ r) = Some (u @ r)"
  using prefix_ends [of r s]
  by (cases s) (auto simp: int_end_def dropWhile_ends split: list.splits if_splits)

lemma frac_end_ends: "ends_number r \<Longrightarrow> frac_end (s @ r) = frac_end s @ r"
  by (cases s) (auto simp: frac_end_def dropWhile_ends starts_digit_ends ends_number_def split: list.splits)

lemma exp_end_ends: "ends_number r \<Longrightarrow> exp_end (s @ r) = exp_end s @ r"
proof (cases s)
  case (Cons c t)
  assume r: "ends_number r"
  have "(if prefix ''-'' (t @ r) \<or> prefix ''+'' (t @ r) then tl (t @ r) else t @ r) =
      (if prefix ''-'' t \<or> prefix ''+'' t then tl t else t) @ r"
    using prefix_ends [OF r, of t] by (cases t) auto
  then show ?thesis
    using r by (simp add: Cons exp_end_def Let_def dropWhile_ends starts_digit_ends)
qed (auto simp: exp_end_def ends_number_def split: list.splits)

lemma json_number_ends:
  assumes "ends_number r" and "json_number s = Some (j, [])"
  shows "json_number (s @ r) = Some (j, r)"
proof -
  obtain u where u: "int_end s = Some u"
    using assms(2) by (auto simp: json_number_def split: option.splits)
  have "exp_end (frac_end u) = []"
    using assms(2) u by (auto simp: json_number_def Let_def split: if_splits option.splits)
  with assms(2) u show ?thesis
    using int_end_ends [OF assms(1) u]
    by (auto simp: json_number_def Let_def frac_end_ends [OF assms(1)] exp_end_ends [OF assms(1)] split: if_splits)
qed

lemma int_of_str_of_int: "int_of (str_of_int i) = Some i"
proof (cases "i < 0")
  case True
  have "list_all (\<lambda>c. \<not> is_space c) (CHR ''-'' # str_of_nat n)" for n
    using is_digit_no_space str_of_nat_digits by (auto simp: list_all_iff is_space_def code_def)
  then show ?thesis
    using True by (simp add: str_of_int_def int_of_def strip_no_space split_sign_def all_digits_def list_all_iff str_of_nat_digits)
qed (simp add: str_of_int_def)

lemma dropWhile_digits: "dropWhile is_digit (str_of_nat n) = []"
  using str_of_nat_digits by auto

text \<open>The first digit of a number is 0 only for 0 itself.\<close>

lemma str_of_nat_Cons: "str_of_nat n = c # s \<Longrightarrow> is_digit c \<and> (c = CHR ''0'' \<longrightarrow> s = [])"
proof (induction n arbitrary: s rule: str_of_nat.induct)
  case (1 n)
  show ?case
  proof (cases "n < 10")
    case True
    then have "c = digit_char n" "s = []"
      using 1(2) by (simp_all add: str_of_nat.simps [of n])
    then show ?thesis
      using True by (simp add: is_digit_digit_char)
  next
    case False
    then obtain s' where s': "str_of_nat (n div 10) = c # s'" "s = s' @ [digit_char (n mod 10)]"
      using 1(2) by (cases "str_of_nat (n div 10)") (simp_all add: str_of_nat.simps [of n])
    have "str_of_nat 0 = ''0''"
      by code_simp
    then have "str_of_nat (n div 10) \<noteq> ''0''"
      using False str_of_nat_inject [of "n div 10" 0] by auto
    then show ?thesis
      using 1(1) [OF False s'(1)] s' by auto
  qed
qed

lemma int_end_digits: "int_end (str_of_nat n) = Some []" "int_end (CHR ''-'' # str_of_nat n) = Some []"
proof -
  obtain c s where c: "str_of_nat n = c # s"
    by (cases "str_of_nat n") auto
  then have "is_digit c" "c = CHR ''0'' \<longrightarrow> s = []" "dropWhile is_digit s = []"
    using str_of_nat_Cons [OF c] dropWhile_digits [of n] by auto
  moreover have "c \<noteq> CHR ''-''"
    using \<open>is_digit c\<close> by (auto simp: is_digit_def)
  ultimately show "int_end (str_of_nat n) = Some []" "int_end (CHR ''-'' # str_of_nat n) = Some []"
    by (auto simp: int_end_def c)
qed

lemma json_number_int: "json_number (str_of_int i) = Some (JInt i, [])"
proof -
  have "int_end (str_of_int i) = Some []"
    by (simp add: str_of_int_def int_end_digits)
  then show ?thesis
    by (simp add: json_number_def frac_end_def exp_end_def int_of_str_of_int)
qed

section \<open>Values read back\<close>

lemma number_start:
  assumes "json_number s = Some x"
  obtains c t where "s = c # t" "is_digit c" | d t where "s = CHR ''-'' # d # t" "is_digit d"
proof -
  obtain u where u: "int_end s = Some u"
    using assms by (auto simp: json_number_def split: option.splits)
  show thesis
  proof (cases "prefix ''-'' s")
    case True
    then obtain t where s: "s = CHR ''-'' # t"
      by (auto simp: prefix_def)
    with u show thesis
      using that(2) by (auto simp: int_end_def is_digit_def split: list.splits if_splits)
  next
    case False
    with u show thesis
      using that(1) by (auto simp: int_end_def is_digit_def split: list.splits if_splits)
  qed
qed

lemma digit_ten: "is_digit c \<Longrightarrow> c = CHR ''0'' \<or> c = CHR ''1'' \<or> c = CHR ''2'' \<or> c = CHR ''3'' \<or> c = CHR ''4'' \<or> c = CHR ''5'' \<or> c = CHR ''6'' \<or> c = CHR ''7'' \<or> c = CHR ''8'' \<or> c = CHR ''9''"
proof -
  assume "is_digit c"
  then have "code c \<in> {48..57}"
    by (simp add: is_digit_def)
  then have "code c = 48 \<or> code c = 49 \<or> code c = 50 \<or> code c = 51 \<or> code c = 52 \<or> code c = 53 \<or> code c = 54 \<or>
      code c = 55 \<or> code c = 56 \<or> code c = 57"
    by (simp only: atLeastAtMost_iff) arith
  then show ?thesis
    using code_eq_iff [of c "CHR ''0''"] code_eq_iff [of c "CHR ''1''"] code_eq_iff [of c "CHR ''2''"] code_eq_iff [of c "CHR ''3''"] code_eq_iff [of c "CHR ''4''"]
      code_eq_iff [of c "CHR ''5''"] code_eq_iff [of c "CHR ''6''"] code_eq_iff [of c "CHR ''7''"] code_eq_iff [of c "CHR ''8''"] code_eq_iff [of c "CHR ''9''"]
    by (elim disjE) (simp_all only: code_Char of_char_Char, simp_all)
qed

declare json_plain_def [simp]

lemma json_value_digit: "is_digit c \<Longrightarrow> json_value (Suc n) (c # s) = json_number (c # s)"
  by (drule digit_ten, elim disjE; hypsubst; simp)

lemma json_value_minus: "is_digit c \<Longrightarrow> json_value (Suc n) (CHR ''-'' # c # s) = json_number (CHR ''-'' # c # s)"
  by (drule digit_ten, elim disjE; hypsubst; simp)

lemma json_value_number: "json_number s = Some x \<Longrightarrow> json_value (Suc n) s = Some x"
  using number_start [of s x "json_value (Suc n) s = Some x"] by (metis json_value_digit json_value_minus)

fun printable :: "json \<Rightarrow> bool" where
  "printable (JFloat r) = float_text r"
| "printable (JList l) = list_all printable l"
| "printable (JObj d) = (distinct (keys d) \<and> list_all (\<lambda>(k, v). printable v) d)"
| "printable j = True"

lemma skip_Cons: "\<not> json_space c \<Longrightarrow> skip (c # s) = c # s"
  by (simp add: skip_def)

lemma json_space_simps [simp]:
  "json_space CHR '' ''" "\<not> json_space CHR '',''" "\<not> json_space CHR '':''" "\<not> json_space CHR '']''" "\<not> json_space CHR ''}''"
  "\<not> json_space CHR ''{''" "\<not> json_space CHR ''[''" "\<not> json_space CHR 0x22"
  by (simp_all add: json_space_def code_def)

lemma skip_simps [simp]: "skip [] = []" "skip (c # s) = (if json_space c then skip s else c # s)"
  by (simp_all add: skip_def)

lemma fold_update_distinct:
  "distinct (keys (acc @ d)) \<Longrightarrow> fold (\<lambda>(k, v). AList.update k v) d acc = acc @ d"
proof (induction d arbitrary: acc)
  case (Cons kv d)
  have "AList.update (fst kv) (snd kv) acc = acc @ [kv]"
    using Cons.prems by (induction acc) auto
  then show ?case
    using Cons.IH [of "acc @ [kv]"] Cons.prems by (simp add: split_beta)
qed simp

text \<open>What \<open>dumps\<close> writes begins neither with white space nor with a closing bracket.\<close>

definition opens :: "string \<Rightarrow> bool" where
  "opens s \<longleftrightarrow> (case s of [] \<Rightarrow> False | c # _ \<Rightarrow> \<not> json_space c \<and> c \<noteq> CHR '']'' \<and> c \<noteq> CHR ''}'')"

lemma opens_number: "json_number s = Some x \<Longrightarrow> opens s"
  by (erule number_start) (auto dest!: digit_ten simp: opens_def json_space_def code_def)

lemma opens_dumps: "printable j \<Longrightarrow> opens (dumps j)"
  by (cases j) (auto simp: float_text_def opens_number json_number_int dumps_str_def, auto simp: opens_def json_space_def code_def)

lemma opens_skip: "opens s \<Longrightarrow> skip (s @ r) = s @ r" "opens s \<Longrightarrow> \<not> prefix '']'' (s @ r) \<and> \<not> prefix ''}'' (s @ r)"
  by (cases s; auto simp: opens_def)+

lemma json_chars_str: "json_chars (tl (dumps_str s) @ r) = Some (s, r)"
  by (simp add: dumps_str_def json_chars_dumps_all)

lemma ends_number_simps [simp]:
  "ends_number []" "ends_number (CHR '','' # r)" "ends_number (CHR '']'' # r)" "ends_number (CHR ''}'' # r)"
  by (simp_all add: ends_number_def is_digit_def)

text \<open>With more fuel than its text has characters a value is read, and nothing after it.\<close>

definition reads_value :: "json \<Rightarrow> bool" where
  "reads_value j \<longleftrightarrow> (\<forall>n r. length (dumps j) < n \<longrightarrow> ends_number r \<longrightarrow> json_value n (dumps j @ r) = Some (j, r))"

lemma reads_valueD: "reads_value j \<Longrightarrow> length (dumps j) < n \<Longrightarrow> ends_number r \<Longrightarrow> json_value n (dumps j @ r) = Some (j, r)"
  by (simp add: reads_value_def)

lemma opens_join: "opens (dumps v) \<Longrightarrow> opens (join '', '' (dumps v # vs))"
  by (cases vs; cases "dumps v") (simp_all add: opens_def)

lemma json_items_dumps:
  assumes "list_all (\<lambda>v. reads_value v \<and> opens (dumps v)) (v # vs)" and "length (join '', '' (map dumps (v # vs))) + 1 < n"
  shows "json_items n (join '', '' (map dumps (v # vs)) @ CHR '']'' # r) = Some (v # vs, r)"
  using assms
proof (induction vs arbitrary: v n)
  case Nil
  then obtain m where m: "n = Suc m" "length (dumps v) < m"
    by (cases n) auto
  then show ?case
    using Nil.prems(1) by (simp add: reads_valueD)
next
  case (Cons w vs)
  let ?rest = "join '', '' (map dumps (w # vs))"
  obtain m where m: "n = Suc m" "length (dumps v) < m" "length ?rest + 1 < m"
    using Cons.prems(2) by (cases n) auto
  have "json_value m (dumps v @ '', '' @ ?rest @ CHR '']'' # r) = Some (v, '', '' @ ?rest @ CHR '']'' # r)"
    using Cons.prems(1) m(2) by (simp add: reads_valueD)
  moreover have "skip (?rest @ CHR '']'' # r) = ?rest @ CHR '']'' # r"
    using Cons.prems(1) opens_join [of w "map dumps vs"] by (intro opens_skip) simp
  moreover have "json_items m (?rest @ CHR '']'' # r) = Some (w # vs, r)"
    using Cons.prems(1) m(3) by (intro Cons.IH) simp_all
  ultimately show ?case
    by (simp add: m(1))
qed

abbreviation member_text :: "string \<times> json \<Rightarrow> string" where
  "member_text \<equiv> (\<lambda>(k, v). dumps_str k @ '': '' @ dumps v)"

lemma dumps_str_Cons: "dumps_str k = CHR 0x22 # tl (dumps_str k)"
  by (simp add: dumps_str_def)

lemma json_members_step:
  assumes "reads_value v" and "opens (dumps v)" and "length (dumps v) < m" and "ends_number r"
  shows "json_members (Suc m) (member_text (k, v) @ r) =
    (case skip r of
       [] \<Rightarrow> None
     | c # t \<Rightarrow>
         if c = CHR '','' then map_option (apfst (Cons (k, v))) (json_members m (skip t))
         else if c = CHR ''}'' then Some ([(k, v)], t) else None)"
proof -
  have "json_chars (tl (member_text (k, v) @ r)) = Some (k, '': '' @ dumps v @ r)"
    using json_chars_str [of k "'': '' @ dumps v @ r"] by (subst dumps_str_Cons) (simp add: dumps_str_def)
  moreover have "prefix [CHR 0x22] (member_text (k, v) @ r)"
    by (simp add: dumps_str_def)
  moreover have "skip (dumps v @ r) = dumps v @ r"
    using opens_skip(1) [OF assms(2)] .
  ultimately show ?thesis
    using reads_valueD [OF assms(1,3,4)] by (simp del: append_assoc add: append_assoc [symmetric] split: list.split)
qed

lemma member_text_length: "length (dumps v) + 4 \<le> length (member_text (k, v))"
  by (simp add: dumps_str_def)

lemma opens_member: "opens (join '', '' (map member_text (m # d)))"
  by (cases m; cases d) (simp_all add: opens_def dumps_str_def json_space_def code_def)

lemma json_members_dumps:
  assumes "list_all (\<lambda>(k, v). reads_value v \<and> opens (dumps v)) (m # d)" and "length (join '', '' (map member_text (m # d))) < n"
  shows "json_members n (join '', '' (map member_text (m # d)) @ CHR ''}'' # r) = Some (m # d, r)"
  using assms
proof (induction d arbitrary: m n)
  case Nil
  obtain k v where m: "m = (k, v)" by (cases m)
  with Nil obtain j where n: "n = Suc j" "length (dumps v) < j"
    using member_text_length [of v k] by (cases n) auto
  then show ?case
    using Nil.prems(1) json_members_step [of v j "CHR ''}'' # r" k] by (simp add: m)
next
  case (Cons m' d)
  let ?rest = "join '', '' (map member_text (m' # d))"
  obtain k v where m: "m = (k, v)" by (cases m)
  have len: "length (join '', '' (map member_text (m # m' # d))) = length (member_text m) + 2 + length ?rest"
    by simp
  with Cons.prems(2) obtain j where n: "n = Suc j" "length (dumps v) < j" "length ?rest < j"
    using member_text_length [of v k] unfolding m by (cases n) auto
  have "skip ('' '' @ ?rest @ CHR ''}'' # r) = ?rest @ CHR ''}'' # r"
    using opens_skip(1) [OF opens_member [of m' d], of "CHR ''}'' # r"] by simp
  moreover have "json_members j (?rest @ CHR ''}'' # r) = Some (m' # d, r)"
    using Cons.prems(1) n(3) by (intro Cons.IH) simp_all
  ultimately show ?case
    using Cons.prems(1) json_members_step [of v j "'', '' @ ?rest @ CHR ''}'' # r" k] n by (simp add: m)
qed

lemma printable_reads: "printable j \<Longrightarrow> reads_value j"
proof (induction j rule: dumps.induct)
  case (3 i)
  show ?case
    using json_value_number [OF json_number_ends [OF _ json_number_int]] by (auto simp: reads_value_def gr0_conv_Suc less_eq_Suc_le dest!: Suc_le_D)
next
  case (4 r)
  then show ?case
    using json_value_number [OF json_number_ends] by (auto simp: reads_value_def float_text_def less_eq_Suc_le dest!: Suc_le_D)
next
  case (5 s)
  show ?case
    using json_chars_str [of s] by (auto simp: reads_value_def dumps_str_def less_eq_Suc_le dest!: Suc_le_D)
next
  case (6 l)
  show ?case
    unfolding reads_value_def
  proof (intro allI impI)
    fix n r
    assume n: "length (dumps (JList l)) < n" and "ends_number r"
    show "json_value n (dumps (JList l) @ r) = Some (JList l, r)"
    proof (cases l)
      case Nil
      then show ?thesis using n by (cases n) simp_all
    next
      case (Cons v vs)
      have all: "list_all (\<lambda>v. reads_value v \<and> opens (dumps v)) (v # vs)"
        using 6 opens_dumps unfolding Cons by (simp add: list_all_iff)
      let ?t = "join '', '' (map dumps (v # vs))"
      obtain m where m: "n = Suc m" "length ?t + 1 < m"
        using n unfolding Cons by (cases n) auto
      have "opens ?t"
        using all opens_join [of v "map dumps vs"] by simp
      then have "skip (?t @ CHR '']'' # r) = ?t @ CHR '']'' # r" "\<not> prefix '']'' (?t @ CHR '']'' # r)"
        using opens_skip by blast+
      then show ?thesis
        using json_items_dumps [OF all m(2)] unfolding Cons m(1) by simp
    qed
  qed
next
  case (7 d)
  show ?case
    unfolding reads_value_def
  proof (intro allI impI)
    fix n r
    assume n: "length (dumps (JObj d)) < n" and "ends_number r"
    show "json_value n (dumps (JObj d) @ r) = Some (JObj d, r)"
    proof (cases d)
      case Nil
      then show ?thesis using n by (cases n) simp_all
    next
      case (Cons kv kvs)
      have all: "list_all (\<lambda>(k, v). reads_value v \<and> opens (dumps v)) (kv # kvs)"
        using 7 opens_dumps unfolding Cons by (fastforce simp: list_all_iff)
      let ?t = "join '', '' (map member_text (kv # kvs))"
      obtain m where m: "n = Suc m" "length ?t < m"
        using n unfolding Cons by (cases n) auto
      have "skip (?t @ CHR ''}'' # r) = ?t @ CHR ''}'' # r" "\<not> prefix ''}'' (?t @ CHR ''}'' # r)"
        using opens_skip [OF opens_member] by blast+
      moreover have "fold (\<lambda>(k, v). AList.update k v) (kv # kvs) [] = kv # kvs"
        using fold_update_distinct [of "[]" "kv # kvs"] 7(2) unfolding Cons by simp
      ultimately show ?thesis
        using json_members_dumps [OF all m(2)] unfolding Cons m(1) by simp
    qed
  qed
qed (auto simp: reads_value_def less_eq_Suc_le dest!: Suc_le_D)

declare json_plain_def [simp del]

text \<open>Every printable value reads back from its text.\<close>

lemma json_loads_dumps: "printable j \<Longrightarrow> json_loads (dumps j) = Some j"
  using reads_valueD [OF printable_reads, of j "Suc (2 * length (dumps j))" "[]"] opens_skip(1) [OF opens_dumps, of j "[]"]
  by (simp add: json_loads_def)

section \<open>Texts cut short\<close>

lemma json_members_Nil [simp]: "json_members n [] = None"
  by (cases n) simp_all

lemma json_value_Nil [simp]: "json_value n [] = None"
  by (cases n) simp_all

lemma json_chars_cut_str: "k < length (tl (dumps_str s)) \<Longrightarrow> json_chars (take k (tl (dumps_str s))) = None"
  using json_chars_cut [of k s] by (simp add: dumps_str_def)

lemma json_value_cut_str: "k < length (dumps_str s) \<Longrightarrow> json_value n (skip (take k (dumps_str s))) = None"
  by (subst dumps_str_Cons, cases k; cases n) (simp_all add: json_chars_cut_str)

lemma skip_quote: "skip (take k (dumps_str s @ r)) = take k (dumps_str s @ r)"
  by (subst (1 2) dumps_str_Cons, cases k) simp_all

definition text_member :: "string \<times> json \<Rightarrow> bool" where
  "text_member = (\<lambda>(k, v). is_str v)"

lemma json_value_str: "json_value (Suc n) (dumps_str s @ r) = Some (JStr s, r)"
  using json_chars_str [of s r] by (simp add: dumps_str_def)

text \<open>A list of members that is cut short, read up to the point where it ends.\<close>

lemma json_members_text_step:
  "json_members (Suc m) (member_text (k, JStr b) @ r) =
    (if m = 0 then None
     else case skip r of
       [] \<Rightarrow> None
     | c # t \<Rightarrow>
         if c = CHR '','' then map_option (apfst (Cons (k, JStr b))) (json_members m (skip t))
         else if c = CHR ''}'' then Some ([(k, JStr b)], t) else None)"
proof -
  have "json_chars (tl (member_text (k, JStr b) @ r)) = Some (k, '': '' @ dumps_str b @ r)"
    using json_chars_str [of k "'': '' @ dumps_str b @ r"] by (subst dumps_str_Cons) (simp add: dumps_str_def)
  moreover have "prefix [CHR 0x22] (member_text (k, JStr b) @ r)"
    by (simp add: dumps_str_def)
  moreover have "skip (dumps_str b @ r) = dumps_str b @ r"
    by (subst (1 2) dumps_str_Cons) simp
  ultimately show ?thesis
    by (cases m) (simp_all del: append_assoc json_value.simps(2) add: append_assoc [symmetric] json_value_str split: list.split)
qed

lemma json_members_cut_member:
  assumes "k < length (member_text (a, JStr b))"
  shows "json_members n (take k (member_text (a, JStr b))) = None"
proof (cases n)
  case n: (Suc m)
  let ?A = "dumps_str a"
  show ?thesis
  proof (cases "k < length ?A")
    case True
    then have "json_chars (tl (take k ?A)) = None" if "0 < k"
      using that json_chars_cut_str [of "k - 1" a] by (cases k) (simp_all add: tl_take)
    with True show ?thesis
      unfolding n by (cases k) simp_all
  next
    case False
    then obtain j where k: "k = length ?A + j" and j: "j < length ('': '' @ dumps_str b)"
      using assms by (auto dest!: le_Suc_ex simp: not_less)
    have "json_chars (tl (take k (member_text (a, JStr b)))) = Some (a, take j ('': '' @ dumps_str b))"
      using json_chars_str [of a "take j ('': '' @ dumps_str b)"] unfolding k by (subst dumps_str_Cons) (simp add: dumps_str_def)
    moreover have "json_value m (skip (take (j - 2) (dumps_str b))) = None"
    proof (rule json_value_cut_str)
      have "0 < length (dumps_str b)" by (simp add: dumps_str_def)
      moreover have "j < length (dumps_str b) + 2" using j by simp
      ultimately show "j - 2 < length (dumps_str b)" by linarith
    qed
    ultimately show ?thesis
      unfolding n by (cases j; cases "j - 1") (simp_all add: take_Cons')
  qed
qed simp

lemma json_members_cut:
  assumes "list_all text_member (m # d)" and "k \<le> length (join '', '' (map member_text (m # d)))"
  shows "json_members n (take k (join '', '' (map member_text (m # d)))) = None"
  using assms
proof (induction d arbitrary: m k n)
  case Nil
  then obtain a b where m: "m = (a, JStr b)"
    by (cases m; cases "snd m") (auto simp: text_member_def is_str_def)
  show ?case
  proof (cases "k < length (member_text m)")
    case True
    then show ?thesis
      using json_members_cut_member unfolding m by simp
  next
    case False
    then have "take k (member_text m) = member_text m @ []"
      by simp
    then show ?thesis
      using json_members_text_step [of _ a b "[]"] unfolding m by (cases n) (simp_all del: json_members.simps(2))
  qed
next
  case (Cons m' d)
  then obtain a b where m: "m = (a, JStr b)"
    by (cases m; cases "snd m") (auto simp: text_member_def is_str_def)
  let ?rest = "join '', '' (map member_text (m' # d))"
  have whole: "join '', '' (map member_text (m # m' # d)) = member_text m @ '', '' @ ?rest"
    by simp
  show ?case
  proof (cases "k < length (member_text m)")
    case True
    then have t: "take k (member_text m @ '', '' @ ?rest) = take k (member_text m)"
      by simp
    show ?thesis
      unfolding whole t using json_members_cut_member [of k a b n] True unfolding m by blast
  next
    case False
    then obtain j where k: "k = length (member_text m) + j" and j: "j \<le> length ('', '' @ ?rest)"
      using Cons.prems(2) unfolding whole by (auto dest!: le_Suc_ex simp: not_less)
    have t: "take k (member_text m @ '', '' @ ?rest) = member_text m @ take j ('', '' @ ?rest)"
      unfolding k by simp
    have "json_members i (take (j - 2) ?rest) = None" for i
      using Cons.prems(1) j by (intro Cons.IH) simp_all
    moreover have "skip (take (j - 2) ?rest) = take (j - 2) ?rest"
      using opens_member [of m' d] by (cases "take (j - 2) ?rest"; cases ?rest) (auto simp: opens_def take_Cons' split: if_splits)
    ultimately show ?thesis
      using json_members_text_step [of _ a b "take j ('', '' @ ?rest)"] unfolding whole t unfolding m
      by (cases n; cases j; cases "j - 1") (simp_all del: json_members.simps(2))
  qed
qed

text \<open>An object of texts is not read before its closing brace.\<close>

lemma json_loads_cut:
  assumes "list_all text_member d" and "k < length (dumps (JObj d))"
  shows "json_loads (take k (dumps (JObj d))) = None"
proof (cases k)
  case (Suc j)
  let ?s = "join '', '' (map member_text d)"
  have j: "j \<le> length ?s"
    using assms(2) by (simp add: Suc)
  have k: "take k (dumps (JObj d)) = CHR ''{'' # take j ?s"
    using j by (simp add: Suc)
  have "json_members n (skip (take j ?s)) = None" for n
  proof (cases d)
    case (Cons m ms)
    have "skip (take j ?s) = take j ?s"
      using opens_member [of m ms] unfolding Cons by (cases j; cases "join '', '' (map member_text (m # ms))") (auto simp: opens_def)
    then show ?thesis
      using json_members_cut [of m ms j n] assms(1) j unfolding Cons by simp
  qed simp
  moreover have "\<not> prefix ''}'' (skip (take j ?s))"
  proof (cases d)
    case (Cons m ms)
    show ?thesis
      using opens_member [of m ms] unfolding Cons by (cases j; cases "join '', '' (map member_text (m # ms))") (auto simp: opens_def)
  qed simp
  ultimately show ?thesis
    unfolding k json_loads_def by (simp del: json_members.simps)
qed (simp add: json_loads_def)

section \<open>What the text looks like\<close>

definition number_char :: "char \<Rightarrow> bool" where
  "number_char c \<longleftrightarrow> is_digit c \<or> c \<in> set ''+-.eE''"

lemma digits_before: "\<exists>p. s = p @ dropWhile is_digit s \<and> list_all number_char p"
  using set_takeWhileD [of _ is_digit s] by (intro exI [of _ "takeWhile is_digit s"]) (auto simp: list_all_iff number_char_def)

lemma number_parts:
  "int_end s = Some u \<Longrightarrow> \<exists>p. s = p @ u \<and> list_all number_char p"
  "\<exists>p. s = p @ frac_end s \<and> list_all number_char p"
  "\<exists>p. s = p @ exp_end s \<and> list_all number_char p"
proof -
  have more: "\<exists>p. q @ s = p @ u \<and> list_all number_char p" if "\<exists>p. s = p @ u \<and> list_all number_char p" "list_all number_char q" for q s u
    using that by (metis append.assoc list_all_append)
  note digits = more [OF digits_before]
  show "int_end s = Some u \<Longrightarrow> \<exists>p. s = p @ u \<and> list_all number_char p"
  proof -
    let ?t = "if prefix ''-'' s then tl s else s"
    assume "int_end s = Some u"
    then obtain c v where t: "?t = c # v" "is_digit c" "u = v \<or> u = dropWhile is_digit v"
      by (auto simp: int_end_def is_digit_def split: list.splits if_splits)
    then have "\<exists>p. ?t = p @ u \<and> list_all number_char p"
      using digits [of "[c]" v] by (auto simp: number_char_def intro: exI [of _ "[c]"])
    then show ?thesis
      using more [of ?t u "''-''"] by (auto simp: number_char_def prefix_def split: if_splits)
  qed
  show "\<exists>p. s = p @ frac_end s \<and> list_all number_char p"
    using digits [of "[CHR ''.'']" "tl s"] by (auto simp: frac_end_def number_char_def split: list.splits)
  show "\<exists>p. s = p @ exp_end s \<and> list_all number_char p"
    using digits [of "[hd s]" "tl s"] digits [of "[hd s, hd (tl s)]" "tl (tl s)"]
    by (auto simp: exp_end_def Let_def number_char_def prefix_def split: list.splits)
qed

lemma float_text_chars: "float_text s \<Longrightarrow> c \<in> set s \<Longrightarrow> number_char c"
proof -
  assume s: "float_text s" and c: "c \<in> set s"
  obtain u where u: "int_end s = Some u" "exp_end (frac_end u) = []"
    using s by (auto simp: float_text_def json_number_def Let_def split: option.splits if_splits)
  obtain p q v where "s = p @ u" "u = q @ frac_end u" "frac_end u = v" "list_all number_char (p @ q @ v)"
    using number_parts(1) [OF u(1)] number_parts(2) [of u] number_parts(3) [of "frac_end u"] u(2) by auto
  then show "number_char c"
    using c by (metis in_set_conv_decomp list_all_iff set_append UnE UnI1 UnI2)
qed

lemma number_char_ascii: "number_char c \<Longrightarrow> 32 \<le> code c \<and> code c \<le> 126"
  by (auto simp: number_char_def is_digit_def)

lemma hex_digit_code: "n < 16 \<Longrightarrow> 48 \<le> code (hex_digit n) \<and> code (hex_digit n) \<le> 102"
  by (simp add: hex_digit_def)

lemma dumps_char_ascii: "x \<in> set (dumps_char c) \<Longrightarrow> 32 \<le> code x \<and> code x \<le> 126"
proof -
  have "code c < 256"
    by (simp add: code_def nat_of_char_less_256)
  then have "code c div 16 < 16" "code c mod 16 < 16"
    by (simp_all add: less_mult_imp_div_less)
  then have "32 \<le> code (hex_digit (code c div 16)) \<and> code (hex_digit (code c div 16)) \<le> 126"
    "32 \<le> code (hex_digit (code c mod 16)) \<and> code (hex_digit (code c mod 16)) \<le> 126"
    using hex_digit_code [of "code c div 16"] hex_digit_code [of "code c mod 16"] by auto
  then show "x \<in> set (dumps_char c) \<Longrightarrow> ?thesis"
    by (auto simp: dumps_char_def code_def split: if_splits)
qed

lemma dumps_str_ascii: "x \<in> set (dumps_str s) \<Longrightarrow> 32 \<le> code x \<and> code x \<le> 126"
  by (auto simp: dumps_str_def code_def dest: dumps_char_ascii [unfolded code_def])

lemma dumps_ascii: "printable j \<Longrightarrow> x \<in> set (dumps j) \<Longrightarrow> 32 \<le> code x \<and> code x \<le> 126"
proof (induction j arbitrary: x rule: dumps.induct)
  case (3 i)
  then show ?case
    by (auto simp: str_of_int_def code_def dest!: str_of_nat_digits split: if_splits) (auto simp: is_digit_def code_def)
next
  case (4 r)
  then show ?case
    using float_text_chars number_char_ascii by auto
next
  case (5 s)
  then show ?case
    using dumps_str_ascii by simp
next
  case (6 l)
  then show ?case
    using set_join [of "'', ''" "map dumps l"] by (auto simp: list_all_iff)
next
  case (7 d)
  have "32 \<le> code y \<and> code y \<le> 126" if "m \<in> set d" "y \<in> set (member_text m)" for m y
  proof -
    obtain a v where m: "m = (a, v)" by (cases m)
    have "y \<in> set (dumps_str a) \<or> y = CHR '':'' \<or> y = CHR '' '' \<or> y \<in> set (dumps v)"
      using that(2) by (auto simp: m)
    moreover have "printable v"
      using 7(2) that(1) by (auto simp: m list_all_iff)
    ultimately show ?thesis
      using 7(1) [OF that(1) m [symmetric]] dumps_str_ascii by auto
  qed
  then show ?case
    using 7(3) set_join [of "'', ''" "map member_text d"] by auto
qed (auto split: if_splits)

text \<open>The text of a rounded number is one of a float.\<close>

lemma float_text_tenths:
  assumes "k < 10"
  shows "float_text (str_of_nat n @ ''.'' @ str_of_nat k)" "float_text (CHR ''-'' # str_of_nat n @ ''.'' @ str_of_nat k)"
proof -
  obtain c s where c: "str_of_nat n = c # s"
    by (cases "str_of_nat n") auto
  have d: "dropWhile is_digit (s @ t) = dropWhile is_digit t" for t
    using str_of_nat_digits [of _ n] unfolding c by (auto intro: dropWhile_append2)
  have k: "starts_digit (str_of_nat k)" "dropWhile is_digit (str_of_nat k) = []"
    using dropWhile_digits [of k] assms by (simp_all add: str_of_nat.simps [of k] starts_digit_def)
  have "int_end (str_of_nat n @ ''.'' @ str_of_nat k) = Some (''.'' @ str_of_nat k)"
    "int_end (CHR ''-'' # str_of_nat n @ ''.'' @ str_of_nat k) = Some (''.'' @ str_of_nat k)"
    using str_of_nat_Cons [OF c] d by (auto simp: int_end_def c is_digit_def)
  then show "float_text (str_of_nat n @ ''.'' @ str_of_nat k)" "float_text (CHR ''-'' # str_of_nat n @ ''.'' @ str_of_nat k)"
  proof -
    have "frac_end (''.'' @ str_of_nat k) = []"
      using k by (simp add: frac_end_def)
    moreover have "exp_end [] = []"
      by (simp add: exp_end_def)
    moreover assume "int_end (str_of_nat n @ ''.'' @ str_of_nat k) = Some (''.'' @ str_of_nat k)"
      "int_end (CHR ''-'' # str_of_nat n @ ''.'' @ str_of_nat k) = Some (''.'' @ str_of_nat k)"
    ultimately show "float_text (str_of_nat n @ ''.'' @ str_of_nat k)" "float_text (CHR ''-'' # str_of_nat n @ ''.'' @ str_of_nat k)"
      by (simp_all add: float_text_def json_number_def)
  qed
qed

lemma float_text_fixed1: "float_text (fixed1 q)"
proof -
  have "float_text (fixed1_abs r) \<and> float_text (CHR ''-'' # fixed1_abs r)" if "0 \<le> r" for r
  proof -
    let ?n = "round_half_even (10 * r)"
    have "0 \<le> \<lfloor>10 * r\<rfloor>"
      using that by simp
    then have "0 \<le> ?n"
      by (auto simp: round_half_even_def Let_def)
    then have "str_of_int (?n div 10) = str_of_nat (nat (?n div 10))" "str_of_int (?n mod 10) = str_of_nat (nat (?n mod 10))"
      by (simp_all add: str_of_int_def)
    moreover have "nat (?n mod 10) < 10"
      by simp
    ultimately show ?thesis
      using float_text_tenths by (simp add: fixed1_abs_def Let_def)
  qed
  then show ?thesis
    by (simp add: fixed1_def)
qed

section \<open>The fuel is enough\<close>

lemma json_chars_shorter: "json_chars s = Some (x, r) \<Longrightarrow> length r < length s"
proof (induction s arbitrary: x rule: json_chars.induct)
  case (2 c s)
  show ?case
  proof (cases "c = CHR 0x5C")
    case True
    then obtain y n y' where e: "escape_of s = Some (y, n)" "json_chars (drop n s) = Some (y', r)"
      using 2(3) by (auto split: option.splits)
    then show ?thesis
      using 2(1) [OF _ True e(1) refl e(2)] True by simp
  next
    case False
    then show ?thesis
      using 2 by (auto split: if_splits)
  qed
qed simp

lemma json_number_shorter: "json_number s = Some (x, r) \<Longrightarrow> length r < length s"
proof -
  assume n: "json_number s = Some (x, r)"
  then obtain u where u: "int_end s = Some u" "r = exp_end (frac_end u)"
    by (auto simp: json_number_def Let_def split: option.splits if_splits)
  have "length (dropWhile is_digit v) \<le> length v" for v
    by (rule length_dropWhile_le)
  then have "length u < length s"
    using u(1) by (auto simp: int_end_def prefix_def less_Suc_eq_le le_SucI split: list.splits if_splits)
  moreover have "length r \<le> length u"
    using number_parts(2) [of u] number_parts(3) [of "frac_end u"] unfolding u(2) by (metis length_append le_add2 le_trans)
  ultimately show ?thesis by simp
qed

lemma length_skip: "length (skip s) \<le> length s"
  by (simp add: skip_def length_dropWhile_le)

lemma json_plain_shorter:
  assumes "json_plain s = Some (x, r)"
  shows "length r < length s"
proof -
  have lit: "length (drop k s) < length s" if "prefix p s" "k = length p" "p \<noteq> []" for p and k :: nat
    using that by (auto simp: prefix_def)
  from assms show ?thesis
    unfolding json_plain_def
    by (auto split: if_splits simp del: length_drop intro: lit json_number_shorter)
qed

lemma json_shorter:
  "json_value n s = Some (x, r) \<Longrightarrow> length r < length s"
  "json_items n s = Some (xs, r) \<Longrightarrow> length r < length s"
  "json_members n s = Some (d, r) \<Longrightarrow> length r < length s"
proof (induction n s and n s and n s arbitrary: x r and xs r and d r rule: json_value_json_items_json_members.induct)
  case (2 n s)
  then obtain c t where s: "s = c # t"
    by (cases s) auto
  have skip: "length (skip t) \<le> length t"
    by (rule length_skip)
  consider "c = CHR 0x22" | "c = CHR ''{''" | "c = CHR ''[''" | "c \<noteq> CHR 0x22" "c \<noteq> CHR ''{''" "c \<noteq> CHR ''[''"
    by blast
  then show ?case
  proof cases
    case 1
    then show ?thesis
      using "2.prems" json_chars_shorter [of t] by (auto simp: s)
  next
    case c: 2
    then show ?thesis
      using "2.prems" "2.IH"(1) [OF s] skip by (force simp: s split: if_splits)
  next
    case c: 3
    then show ?thesis
      using "2.prems" "2.IH"(2) [OF s] skip by (force simp: s split: if_splits)
  next
    case 4
    then show ?thesis
      using "2.prems" json_plain_shorter [of s x r] by (simp add: s)
  qed
next
  case (4 n s)
  obtain v r' where v: "json_value n s = Some (v, r')"
    using "4.prems" by (auto split: option.splits)
  have r': "length r' < length s"
    by (rule "4.IH"(1) [OF v])
  obtain c t where c: "skip r' = c # t"
    using "4.prems" v by (cases "skip r'") auto
  have t: "length t < length r'"
    using length_skip [of r'] by (simp add: c)
  show ?case
  proof (cases "c = CHR '',''")
    case True
    then obtain ys where "json_items n (skip t) = Some (ys, r)"
      using "4.prems" v c by auto
    then have "length r < length (skip t)"
      by (rule "4.IH"(2) [OF v refl c True])
    then show ?thesis
      using t r' length_skip [of t] by simp
  next
    case False
    then show ?thesis
      using "4.prems" v c t r' by (auto split: if_splits)
  qed
next
  case (6 n s)
  obtain k r1 where k: "json_chars (tl s) = Some (k, r1)"
    using "6.prems" by (auto split: if_splits option.splits)
  have s: "prefix [CHR 0x22] s" "prefix '':'' (skip r1)"
    using "6.prems" k by (auto split: if_splits)
  have r1: "length (tl (skip r1)) < length s"
    using json_chars_shorter [OF k] length_skip [of r1] s(1) by (auto simp: prefix_def)
  obtain v r' where v: "json_value n (skip (tl (skip r1))) = Some (v, r')"
    using "6.prems" k s by (auto split: option.splits)
  have r': "length r' < length s"
    using "6.IH"(1) [OF s(1) k refl s(2) v] r1 length_skip [of "tl (skip r1)"] by simp
  obtain c t where c: "skip r' = c # t"
    using "6.prems" k s v by (cases "skip r'") auto
  have t: "length t < length r'"
    using length_skip [of r'] by (simp add: c)
  show ?case
  proof (cases "c = CHR '',''")
    case True
    then obtain ys where "json_members n (skip t) = Some (ys, r)"
      using "6.prems" k s v c by auto
    then have "length r < length (skip t)"
      by (rule "6.IH"(2) [OF s(1) k refl s(2) v refl c True])
    then show ?thesis
      using t r' length_skip [of t] by simp
  next
    case False
    then show ?thesis
      using "6.prems" k s v c t r' by (auto split: if_splits)
  qed
qed auto

text \<open>More fuel than twice the length of the text changes nothing.\<close>

lemma json_fuel_step:
  "(2 * length s < n \<longrightarrow> json_value (Suc n) s = json_value n s) \<and>
   (2 * length s + 1 < n \<longrightarrow> json_items (Suc n) s = json_items n s \<and> json_members (Suc n) s = json_members n s)"
proof (induction n arbitrary: s)
  case (Suc n)
  have V: "json_value (Suc n) u = json_value n u" if "2 * length u < n" for u
    using Suc.IH that by blast
  have I: "json_items (Suc n) u = json_items n u" "json_members (Suc n) u = json_members n u" if "2 * length u + 1 < n" for u
    using Suc.IH that by blast+
  have one: "json_value (Suc (Suc n)) s = json_value (Suc n) s" if "2 * length s < Suc n"
  proof (cases s)
    case (Cons c t)
    then have "2 * length (skip t) + 1 < n"
      using that length_skip [of t] by simp
    then show ?thesis
      by (simp only: Cons json_value.simps list.case I)
  qed simp
  have rest: "2 * length (skip t) + 1 < n" if "2 * length s + 1 < Suc n" "skip r = c # t" "length r < length s" for r c t
    using that length_skip [of r] length_skip [of t] by simp
  have items: "json_items (Suc (Suc n)) s = json_items (Suc n) s" if s: "2 * length s + 1 < Suc n"
  proof -
    have "json_value (Suc n) s = json_value n s"
      using V s by simp
    then show ?thesis
      using rest [OF s] json_shorter(1) [of n s] I(1)
      by (simp only: json_items.simps) (auto split: option.split list.split)
  qed
  have members: "json_members (Suc (Suc n)) s = json_members (Suc n) s" if s: "2 * length s + 1 < Suc n"
  proof -
    have "json_value (Suc n) (skip (tl (skip r))) = json_value n (skip (tl (skip r)))" and less: "length (skip (tl (skip r))) < length s"
      if "json_chars (tl s) = Some (k, r)" for k r
    proof -
      have "length r < length (tl s)"
        by (rule json_chars_shorter [OF that])
      then show "length (skip (tl (skip r))) < length s"
        using length_skip [of r] length_skip [of "tl (skip r)"] by simp
      then show "json_value (Suc n) (skip (tl (skip r))) = json_value n (skip (tl (skip r)))"
        using V s by simp
    qed
    moreover have "length r' < length s"
      if "json_chars (tl s) = Some (k, r)" "json_value n (skip (tl (skip r))) = Some (v, r')" for k r v r'
      using less [OF that(1)] json_shorter(1) [OF that(2)] by simp
    ultimately show ?thesis
      using rest [OF s] I(2)
      by (simp only: json_members.simps)
        (auto split: option.split list.split simp del: json_value.simps(2) json_items.simps(2) json_members.simps(2))
  qed
  show ?case
    using one items members by blast
qed simp

lemma json_value_fuel:
  assumes "2 * length s < m" and "m \<le> n"
  shows "json_value n s = json_value m s"
  using assms(2)
proof (induction rule: dec_induct)
  case (step k)
  then have "2 * length s < k"
    using assms(1) by simp
  then show ?case
    using json_fuel_step [of s k] step.IH by (simp only: simp_thms)
qed simp

section \<open>Samples\<close>

lemma json_loads_samples:
  "json_loads (''{'' @ [CHR 0x22] @ ''a'' @ [CHR 0x22] @ '': [1, -2.5e3, null] }'') =
     Some (JObj [(''a'', JList [JInt 1, JFloat ''-2.5e3'', JNull])])"
  "json_loads ''[1, 2'' = None" "json_loads ''01'' = None" "json_loads '' true '' = Some (JBool True)" "json_loads [] = None"
  by code_simp+

end
