(* ===== verification/VoiceEndToEnd.thy ===== *)
theory VoiceEndToEnd
  imports VoiceTasks VoiceDispatch JsonText
begin

text \<open>
  A voice task from the hub to the worker: \<open>tasks.start_task\<close> on the hub, whose SSH call runs
  \<open>dispatch.py\<close> on the worker. The two programs share the JSON lines between them, which both write with
  \<open>json.dumps\<close> and read with \<open>json.loads\<close> (\<open>JsonText\<close>).
\<close>

text \<open>\<open>json.loads(sys.stdin.read(MAX_INSTRUCTIONS * 2))\<close>: what is beyond is not read.\<close>

definition worker_stdin :: "string \<Rightarrow> json option" where
  "worker_stdin s = json_loads (take (2 * max_instructions) s)"

text \<open>What the SSH call brings back: the line that \<open>out\<close> prints, and nothing on standard output when the
  command raises.\<close>

definition worker_stdout :: "reply \<Rightarrow> string" where
  "worker_stdout r = (case r of Printed j st \<Rightarrow> dumps j @ [newline] | Raised x \<Rightarrow> [])"

definition runs_dispatch :: "tasks_env \<Rightarrow> nat \<Rightarrow> vw_config \<Rightarrow> vw_dirs \<Rightarrow> clock \<Rightarrow> bool" where
  "runs_dispatch e n cfg d c \<longleftrightarrow> task_loads e = json_loads \<and>
     worker e n = (\<lambda>command stdin. Some (worker_stdout (fst (dispatch cfg d command (worker_stdin stdin) c))))"

section \<open>The line between them\<close>

lemma lines_ascii:
  "\<forall>x\<in>set s. 32 \<le> code x \<and> code x \<le> 126 \<Longrightarrow> lines_acc False w s = (if w @ s = [] then [] else [w @ s])"
  by (induction s arbitrary: w) (auto simp: is_linebreak_def)

lemma strip_line:
  assumes "\<not> is_space a" and "\<not> is_space b"
  shows "strip (a # s @ [b, newline]) = a # s @ [b]"
proof -
  have "is_space newline"
    by (simp add: is_space_def newline_def code_def)
  then show ?thesis
    using assms by (simp add: strip_def strip_if_def lstrip_if_def rstrip_if_def)
qed

text \<open>An object that is printed on a line is read back from it.\<close>

lemma object_line:
  assumes "printable (JObj d)"
  shows "ssh_result json_loads (dumps (JObj d) @ [newline]) = JObj d"
proof -
  obtain s where s: "dumps (JObj d) = CHR ''{'' # s @ [CHR ''}'']"
    by simp
  have "strip (dumps (JObj d) @ [newline]) = dumps (JObj d)"
    unfolding s using strip_line [of "CHR ''{''" "CHR ''}''" s] by (simp add: is_space_def code_def)
  moreover have "\<forall>x\<in>set (dumps (JObj d)). 32 \<le> code x \<and> code x \<le> 126"
    using dumps_ascii [OF assms] by blast
  then have "splitlines (dumps (JObj d)) = [dumps (JObj d)]"
    unfolding splitlines_def using lines_ascii [of "dumps (JObj d)" "[]"] by (simp only: append_Nil s list.distinct if_False)
  ultimately show ?thesis
    using json_loads_dumps [OF assms] by (simp add: ssh_result_def del: dumps.simps)
qed

text \<open>What the worker prints for \<open>start\<close> is an object of texts.\<close>

lemma start_reply:
  "fst (start cfg d stdin c) = Printed j st \<Longrightarrow> \<exists>m. j = JObj m \<and> printable j"
  by (auto simp: start_def err_def state_field_def Let_def split: option.splits json.splits if_splits)

lemma dispatch_start: "dispatch cfg d ''start'' stdin c = start cfg d stdin c"
proof -
  have "split_ws ''start'' = [''start'']" by code_simp
  then show ?thesis by (simp add: dispatch_def)
qed

lemma ssh_result_start:
  "ssh_result json_loads (worker_stdout (fst (start cfg d stdin c))) =
    (case fst (start cfg d stdin c) of Printed j st \<Rightarrow> j | Raised x \<Rightarrow> error_obj ''couldn't reach the worker on nuc4'')"
proof (cases "fst (start cfg d stdin c)")
  case (Printed j st)
  then obtain m where "j = JObj m" "printable j"
    using start_reply by blast
  then show ?thesis
    using Printed object_line [of m] by (simp add: worker_stdout_def del: dumps.simps)
next
  case (Raised x)
  have "splitlines (strip []) = []" by code_simp
  then show ?thesis
    by (simp add: Raised worker_stdout_def ssh_result_def)
qed

text \<open>The request is read as it was written, or not at all.\<close>

lemma worker_stdin_payload:
  "worker_stdin (dumps (start_payload repo instructions user)) =
     (if length (dumps (start_payload repo instructions user)) \<le> 8000 then Some (start_payload repo instructions user) else None)"
proof -
  let ?p = "start_payload repo instructions user"
  obtain d where d: "?p = JObj d" "list_all text_member d" "printable ?p"
    by (simp add: start_payload_def text_member_def is_str_def)
  show ?thesis
    using json_loads_dumps [OF d(3)] json_loads_cut [OF d(2), of 8000] unfolding worker_stdin_def d(1)
    by (simp add: max_instructions_def not_le del: dumps.simps)
qed

section \<open>From the hub to the queue\<close>

lemma ssh_answer:
  "ssh c s n e w = (Inr j, w1) \<Longrightarrow>
    (\<exists>m. j = error_obj m) \<or> (\<exists>out. worker e (length (calls w)) c s = Some out \<and> j = ssh_result (task_loads e) out)"
  by (auto simp: ssh_def prepare_ssh_def bind_def ret_def split: option.splits if_splits)

definition started_text :: "string \<Rightarrow> string \<Rightarrow> string" where
  "started_text tid repo =
     ''Started task '' @ tid @ '' on '' @ repo @ ''. It usually takes 5 to 20 minutes; ask me for its status any time.''"

lemma email_returns: "email a b e w = (r, w') \<Longrightarrow> r = Inr ()"
  by (simp add: email_def)

lemma start_task_said:
  assumes "fst (start_task repo instructions user e w) = Inr s" and "prefix ''Started'' s"
  shows "\<exists>j w1 d i. ssh ''start'' (dumps (start_payload repo instructions user)) 30 e w = (Inr j, w1) \<and>
    j = JObj d \<and> \<not> has_key ''error'' d \<and> map_of d ''id'' = Some i \<and> s = started_text (py_str i) repo"
proof (cases "tasks_enabled e \<and> repo \<in> set (hub_repos e)")
  case False
  then have "s = ''Voice coding tasks are switched off on the hub right now.'' \<or>
      s = ''I can only work on '' @ join '', '' (hub_repos e) @ '' for now.''"
    using assms(1) by (auto simp: start_task_def bind_def ask_def ret_def split: if_splits)
  then show ?thesis
    using assms(2) by auto
next
  case True
  obtain r w1 where r: "ssh ''start'' (dumps (start_payload repo instructions user)) 30 e w = (r, w1)"
    by (metis prod.collapse)
  then obtain j where j: "r = Inr j"
    using assms(1) True by (cases r) (auto simp: start_task_def bind_def ask_def)
  obtain d where d: "j = JObj d"
    using assms(1) True r by (cases j) (auto simp: start_task_def bind_def ask_def j liftR_def as_object_def)
  have s: "fst ((if has_key ''error'' d then ret (''Couldn't start the task: '' @ py_str (jget ''error'' d))
       else case map_of d ''id'' of
           None \<Rightarrow> raise ''KeyError''
         | Some i \<Rightarrow>
             let tid = py_str i in
             andthen (email (''[home-mcp] Voice coding task started: '' @ repo @ '' ('' @ tid @ '')'')
                (mail_body repo tid instructions user))
             (ret (started_text tid repo))) e w1) = Inr s"
    using assms(1) True r unfolding started_text_def
    by (simp add: start_task_def bind_def ask_def j d liftR_def as_object_def)
  then have no_error: "\<not> has_key ''error'' d"
    using assms(2) by (auto simp: ret_def)
  then obtain i where i: "map_of d ''id'' = Some i"
    using s by (cases "map_of d ''id''") (auto simp: raise_def)
  then have "s = started_text (py_str i) repo"
    using s no_error by (simp add: Let_def andthen_def bind_def email_def ret_def)
  then show ?thesis
    using r j d no_error i by blast
qed

lemma start_printed_id:
  assumes "fst (start cfg d (Some (JObj req)) c) = Printed (JObj o') st" and "\<not> has_key ''error'' o'"
  shows "o' = state_field (new_id c) ''queued'' \<and>
    (\<exists>repo s. get_or (JStr []) ''repo'' req = JStr repo \<and> repo \<in> set (allowed_repos cfg) \<and> instructions_of req = Some s \<and>
      snd (start cfg d (Some (JObj req)) c) =
        d\<lparr>queue := AList.update (new_id c) (new_task c repo s (get_or (JStr []) ''requested_by'' req)) (queue d)\<rparr>)"
  using assms by (auto simp: start_def err_def has_key_def Let_def str_of_def split: option.splits if_splits)

text \<open>A task that the hub says was started is what the worker added to its queue.\<close>

lemma started_queue:
  assumes "runs_dispatch e (length (calls w)) cfg d c"
    and "fst (start_task repo instructions user e w) = Inr s" and "prefix ''Started'' s"
  shows "s = started_text (new_id c) repo \<and> repo \<in> set (allowed_repos cfg) \<and>
    snd (dispatch cfg d ''start'' (worker_stdin (dumps (start_payload repo instructions user))) c) =
      d\<lparr>queue := AList.update (new_id c) (new_task c repo (strip instructions) (JStr (case user of None \<Rightarrow> [] | Some u \<Rightarrow> u))) (queue d)\<rparr>"
proof -
  let ?p = "start_payload repo instructions user"
  let ?i = "worker_stdin (dumps ?p)"
  obtain j w1 o' i where ssh: "ssh ''start'' (dumps ?p) 30 e w = (Inr j, w1)" and j: "j = JObj o'"
    and no_error: "\<not> has_key ''error'' o'" and i: "map_of o' ''id'' = Some i" and s: "s = started_text (py_str i) repo"
    using start_task_said [OF assms(2,3)] by (elim exE conjE) (rule that)
  have "\<not> (\<exists>m. j = error_obj m)"
    using no_error by (auto simp: j error_obj_def has_key_def)
  then have "j = (case fst (start cfg d ?i c) of Printed j st \<Rightarrow> j | Raised x \<Rightarrow> error_obj ''couldn't reach the worker on nuc4'')"
    using ssh_answer [OF ssh] assms(1) ssh_result_start [of cfg d ?i c] by (simp add: runs_dispatch_def dispatch_start)
  then obtain st where printed: "fst (start cfg d ?i c) = Printed (JObj o') st"
    using \<open>\<not> (\<exists>m. j = error_obj m)\<close> j by (cases "fst (start cfg d ?i c)") auto
  have "?i \<noteq> None"
  proof
    assume "?i = None"
    with printed no_error show False
      by (auto simp: start_def err_def has_key_def)
  qed
  then have stdin: "?i = Some ?p"
    using worker_stdin_payload [of repo instructions user] by (auto split: if_splits)
  obtain req where req: "?p = JObj req" "get_or (JStr []) ''repo'' req = JStr repo" "jget ''instructions'' req = JStr instructions"
    "get_or (JStr []) ''requested_by'' req = JStr (case user of None \<Rightarrow> [] | Some u \<Rightarrow> u)"
    by (simp add: start_payload_def get_or_def)
  have "instructions_of req = Some t \<Longrightarrow> t = strip instructions" for t
    using req(3) by (auto simp: instructions_of_def Let_def strip_def strip_if_def lstrip_if_def rstrip_if_def split: if_splits)
  then have "o' = state_field (new_id c) ''queued''" "repo \<in> set (allowed_repos cfg)"
    "snd (start cfg d ?i c) = d\<lparr>queue := AList.update (new_id c)
       (new_task c repo (strip instructions) (JStr (case user of None \<Rightarrow> [] | Some u \<Rightarrow> u))) (queue d)\<rparr>"
    using start_printed_id [OF printed [unfolded stdin, unfolded req(1)] no_error] req unfolding stdin by auto
  then show ?thesis
    using i s by (auto simp: state_field_def dispatch_start)
qed

text \<open>C1: when the hub says that a task was started, it is in the worker's queue: under the identifier that was
  said, for the repository that was asked for, which the worker's own list allows too, with the
  instructions without the white space around them and the name of the user. Nothing is assumed
  of the worker but that its program runs: the request, which may be longer than what the worker reads of it,
  and the answer go over the line as JSON texts.\<close>

theorem started_task_is_queued:
  assumes "runs_dispatch e (length (calls w)) cfg d c"
    and "fst (start_task repo instructions user e w) = Inr s" and "prefix ''Started'' s"
  shows "s = started_text (new_id c) repo \<and> repo \<in> set (allowed_repos cfg) \<and>
    map_of (queue (snd (dispatch cfg d ''start'' (worker_stdin (dumps (start_payload repo instructions user))) c))) (new_id c) =
      Some (new_task c repo (strip instructions) (JStr (case user of None \<Rightarrow> [] | Some u \<Rightarrow> u)))"
  using started_queue [OF assms] by simp

section \<open>Requests that the worker does not read to their end\<close>

definition ssh_ready :: "tasks_env \<Rightarrow> tasks_world \<Rightarrow> bool" where
  "ssh_ready e w \<longleftrightarrow> fst (prepare_ssh e w) = Inr True"

lemma ssh_prepared:
  "ssh_ready e w \<Longrightarrow> worker e (length (calls w)) command stdin = Some out \<Longrightarrow>
    \<exists>w'. ssh command stdin n e w = (Inr (ssh_result (task_loads e) out), w')"
  by (auto simp: ssh_ready_def ssh_def bind_def prepare_ssh_def split: option.splits if_splits)

text \<open>C12: the worker reads 8000 characters of a request, which is twice what it allows for the instructions. In JSON a line
  break takes two of them and a letter beyond ASCII six; a request that takes more is refused as no JSON, even if
  its instructions are within the limit of 4000 characters and everything else about it is in order.\<close>

theorem long_request_refused:
  assumes "runs_dispatch e (length (calls w)) cfg d c" and "ssh_ready e w" and "tasks_enabled e" and "repo \<in> set (hub_repos e)"
    and "8000 < length (dumps (start_payload repo instructions user))"
  shows "fst (start_task repo instructions user e w) = Inr ''Couldn't start the task: request must be JSON''"
proof -
  let ?p = "start_payload repo instructions user"
  let ?r = "fst (start cfg d (worker_stdin (dumps ?p)) c)"
  have "worker_stdin (dumps ?p) = None"
    using assms(5) worker_stdin_payload [of repo instructions user] by simp
  then have r: "?r = Printed (err ''request must be JSON'') 2"
    by (simp add: start_def)
  have "worker e (length (calls w)) ''start'' (dumps ?p) = Some (worker_stdout ?r)"
    using assms(1) by (simp add: runs_dispatch_def dispatch_start)
  moreover have "ssh_result (task_loads e) (worker_stdout ?r) = err ''request must be JSON''"
    using assms(1) ssh_result_start [of cfg d "worker_stdin (dumps ?p)" c] by (simp add: runs_dispatch_def r)
  ultimately obtain w' where ssh: "ssh ''start'' (dumps ?p) 30 e w = (Inr (err ''request must be JSON''), w')"
    using ssh_prepared [OF assms(2)] by metis
  show ?thesis
    using assms(3,4) unfolding start_task_def bind_def ask_def
    by (simp add: ssh err_def liftR_def as_object_def has_key_def ret_def)
qed

text \<open>For the witnesses: an idle worker.\<close>

definition demo_clock :: clock where
  "demo_clock = \<lparr>year = 2026, month = 1, day = 2, hour = 3, minute = 4, second = 5, epoch = 0, token = 7\<rparr>"

definition demo_cfg :: vw_config where
  "demo_cfg = \<lparr>allowed_repos = [''hue''], max_active = 1\<rparr>"

definition demo_dirs :: vw_dirs where
  "demo_dirs = \<lparr>queue = [], status = [], health = None\<rparr>"

definition hub_env :: "vw_config \<Rightarrow> vw_dirs \<Rightarrow> clock \<Rightarrow> tasks_env" where
  "hub_env cfg d c =
     \<lparr>ssh_key_b64 = ''k'', host_key = ''h'', decode64 = Some,
      worker = (\<lambda>n command stdin. Some (worker_stdout (fst (dispatch cfg d command (worker_stdin stdin) c)))),
      task_loads = json_loads, task_now = 0, smtp_password = [], tasks_enabled = True, hub_repos = [''hue'']\<rparr>"

definition demo_world :: tasks_world where
  "demo_world = \<lparr>key_file = None, calls = [], outbox = []\<rparr>"

lemma hub_env_runs: "runs_dispatch (hub_env cfg d c) n cfg d c" "ssh_ready (hub_env cfg d c) demo_world"
  by (simp_all add: runs_dispatch_def hub_env_def ssh_ready_def prepare_ssh_def demo_world_def)

lemma demo_start:
  "start demo_cfg demo_dirs (Some (start_payload ''hue'' '' fix '' None)) demo_clock =
     (Printed (JObj (state_field (new_id demo_clock) ''queued'')) 0,
      demo_dirs\<lparr>queue := [(new_id demo_clock, new_task demo_clock ''hue'' ''fix'' (JStr []))]\<rparr>)"
proof -
  have "strip '' fix '' = ''fix''" by code_simp
  then show ?thesis
    by (simp add: start_def start_payload_def get_or_def instructions_of_def demo_cfg_def demo_dirs_def
        active_count_def recent_def task_ids_def sorted_set_def max_instructions_def Let_def str_of_def)
qed

lemma demo_said: "fst (start_task ''hue'' '' fix '' None (hub_env demo_cfg demo_dirs demo_clock) demo_world) = Inr (started_text (new_id demo_clock) ''hue'')"
proof -
  let ?p = "start_payload ''hue'' '' fix '' None" and ?e = "hub_env demo_cfg demo_dirs demo_clock"
  have "length (dumps ?p) \<le> 8000"
    by (simp add: start_payload_def dumps_str_def dumps_char_def code_def)
  then have stdin: "worker_stdin (dumps ?p) = Some ?p"
    by (simp only: worker_stdin_payload if_True)
  have "worker ?e (length (calls demo_world)) ''start'' (dumps ?p) = Some (worker_stdout (fst (start demo_cfg demo_dirs (Some ?p) demo_clock)))"
    by (simp add: hub_env_def dispatch_start stdin del: dumps.simps)
  moreover have "ssh_result (task_loads ?e) (worker_stdout (fst (start demo_cfg demo_dirs (Some ?p) demo_clock))) = JObj (state_field (new_id demo_clock) ''queued'')"
    using ssh_result_start [of demo_cfg demo_dirs "Some ?p" demo_clock] by (simp add: hub_env_def demo_start)
  ultimately obtain w1 where "ssh ''start'' (dumps ?p) 30 ?e demo_world = (Inr (JObj (state_field (new_id demo_clock) ''queued'')), w1)"
    using ssh_prepared [OF hub_env_runs(2)] by metis
  then show ?thesis
    by (simp add: start_task_def bind_def ask_def liftR_def as_object_def state_field_def has_key_def Let_def
        andthen_def email_def ret_def started_text_def hub_env_def del: dumps.simps)
qed

theorem started_task_is_queued_witness:
  "fst (start_task ''hue'' '' fix '' None (hub_env demo_cfg demo_dirs demo_clock) demo_world) = Inr (started_text (new_id demo_clock) ''hue'') \<and>
    map_of (queue (snd (dispatch demo_cfg demo_dirs ''start'' (worker_stdin (dumps (start_payload ''hue'' '' fix '' None))) demo_clock)))
      (new_id demo_clock) = Some (new_task demo_clock ''hue'' (strip '' fix '') (JStr []))"
  using started_task_is_queued [OF hub_env_runs(1) demo_said] demo_said by (simp add: started_text_def)

text \<open>A request with 1400 times the letter e with an acute accent.\<close>

theorem long_request_refused_witness:
  "fst (start_task ''hue'' (replicate 1400 (char_of (233 :: nat))) None (hub_env demo_cfg demo_dirs demo_clock) demo_world) =
     Inr ''Couldn't start the task: request must be JSON'' \<and>
   length (replicate 1400 (char_of (233 :: nat) :: char)) \<le> max_instructions"
proof -
  let ?s = "replicate 1400 (char_of (233 :: nat))"
  have "length (dumps_char (char_of (233 :: nat))) = 6"
    by code_simp
  then have "length (dumps_str ?s) = 8402"
    by (simp add: dumps_str_def length_concat sum_list_replicate)
  then have "8000 < length (dumps (start_payload ''hue'' ?s None))"
    by (simp add: start_payload_def)
  then show ?thesis
    using long_request_refused [OF hub_env_runs, of demo_cfg demo_dirs demo_clock "''hue''" ?s None]
    by (simp add: hub_env_def max_instructions_def)
qed

end
