(* ===== verification/VoiceLifecycle.thy ===== *)
theory VoiceLifecycle
  imports VoiceEndToEnd VoiceRunnerSafety
begin

text \<open>
  A voice task over its whole life: the hub starts it (\<open>VoiceEndToEnd\<close>), the worker's loop runs it
  (\<open>VoiceRunner\<close>), and the hub asks for its status, which the forced command reads from the status file. What the
  runner writes is followed as JSON, so that the hub reads the status as it was written.
\<close>

section \<open>Status files are printable\<close>

text \<open>What the runner reads as JSON from the agent and from GitHub prints as it was read: in particular its keys are
  distinct, and its numbers are finite.\<close>

definition prints_back :: "env \<Rightarrow> bool" where
  "prints_back e \<longleftrightarrow> (\<forall>s j. parse_json e s = Some j \<longrightarrow> printable j) \<and> (\<forall>u b d. post e u b = Inr d \<longrightarrow> printable (JObj d))"

definition clean :: "world \<Rightarrow> bool" where
  "clean w \<longleftrightarrow> printable (JObj (cur w)) \<and> \<not> has_key ''error'' (cur w)"

lemma printable_update: "printable (JObj d) \<Longrightarrow> printable v \<Longrightarrow> printable (JObj (AList.update k v d))"
  using set_update_subset [of k v d] by (auto simp: list_all_iff distinct_update)

lemma printable_dict_update: "printable (JObj d) \<Longrightarrow> list_all (\<lambda>(k, v). printable v) u \<Longrightarrow> printable (JObj (dict_update d u))"
proof -
  have "printable (JObj (fold (\<lambda>(k, v). AList.update k v) u d))" if "printable (JObj d)" "list_all (\<lambda>(k, v). printable v) u" for u d
    using that by (induction u arbitrary: d) (auto simp: printable_update simp del: printable.simps)
  then show "printable (JObj d) \<Longrightarrow> list_all (\<lambda>(k, v). printable v) u \<Longrightarrow> ?thesis"
    by (simp add: dict_update_def)
qed

lemma printable_new_status: "printable (JObj (cur w)) \<Longrightarrow> list_all (\<lambda>(k, v). printable v) u \<Longrightarrow> printable (JObj (new_status u e w))"
  unfolding new_status_def by (intro printable_update printable_dict_update) simp_all

lemma has_key_new_status: "has_key k (new_status u e w) \<longleftrightarrow> k = ''updated_at'' \<or> k \<in> set (keys u) \<or> has_key k (cur w)"
  using keys_dict_update [of "cur w" u] by (auto simp: new_status_def has_key_def AList.dom_update)

definition fine_fields :: "json dict \<Rightarrow> bool" where
  "fine_fields u \<longleftrightarrow> list_all (\<lambda>(k, v). printable v \<and> k \<noteq> ''error'') u"

lemma fine_fields_simps [simp]:
  "fine_fields []" "fine_fields ((k, v) # u) \<longleftrightarrow> printable v \<and> k \<noteq> ''error'' \<and> fine_fields u"
  by (simp_all add: fine_fields_def)

lemma clean_status: "fine_fields u \<Longrightarrow> keeps clean (write_status u) e"
  by (auto simp: keeps_def write_status_eq clean_def has_key_new_status fine_fields_def list_all_iff intro!: printable_new_status
      simp del: printable.simps)

lemma clean_ops:
  "keeps clean (emit v) e" "keeps clean (run_env argv vars) e" "keeps clean (secret n) e" "keeps clean clock_time e"
  "keeps clean (\<lambda>e w. (post e url b, w)) e" "keeps clean (run argv) e" "keeps clean (git dir args tok) e"
  by (simp_all add: keeps_def clean_def emit_eq run_env_eq secret_eq clock_time_def run_def git_def)

lemma clean_agent: "keeps clean (run_agent work cfg) e"
  unfolding run_agent_def Let_def
  by (auto intro!: keeps_bind keeps_andthen clean_ops split: agent_outcome.split)

lemma clean_patch: "keeps clean (export_patch work sha) e" "keeps clean (open_pr branch summary cfg tok) e"
  unfolding export_patch_def open_pr_def Let_def
  by (auto intro!: keeps_bind keeps_andthen clean_ops)

text \<open>What the agent and GitHub answered is printable.\<close>

lemma agent_result_printable:
  assumes "prints_back e" and "agent_result (parse_json e) rc out er = Inr r"
  shows "printable (JObj r)"
proof -
  have "\<exists>s. parse_json e s = Some (JObj r)"
    using assms(2) by (auto simp: agent_result_def Let_def split: list.splits option.splits json.splits if_splits)
  then show ?thesis
    using assms(1) unfolding prints_back_def by blast
qed

lemma returns_wp:
  assumes "returns P m e a" and post: "\<And>w. wp m e w (\<lambda>r w'. \<forall>b. r = Inr b \<longrightarrow> Q b)"
  shows "Q a"
proof -
  obtain w w' where "m e w = (Inr a, w')"
    using assms(1) by (auto simp: returns_def)
  then show ?thesis
    using post [of w] by (simp add: wp_def)
qed

lemma returns_agent:
  assumes "prints_back e" and "returns P (run_agent work cfg) e r"
  shows "printable (JObj r)"
  using assms(2)
proof (rule returns_wp)
  show "wp (run_agent work cfg) e w (\<lambda>r w'. \<forall>b. r = Inr b \<longrightarrow> printable (JObj b))" for w
    using agent_result_printable [OF assms(1)]
    by (auto simp: run_agent_def Let_def split: sum.split agent_outcome.split simp del: printable.simps)
qed

lemma returns_pr:
  assumes "prints_back e" and "returns P (open_pr branch summary cfg tok) e r"
  shows "printable (JObj r)"
  using assms(2)
proof (rule returns_wp)
  show "wp (open_pr branch summary cfg tok) e w (\<lambda>r w'. \<forall>b. r = Inr b \<longrightarrow> printable (JObj b))" for w
    using assms(1) unfolding prints_back_def open_pr_def Let_def first_line_def
    by (auto simp: wp_post split: sum.split list.split simp del: printable.simps)
qed

lemma returns_item: "returns P (item k d) e v \<Longrightarrow> printable (JObj d) \<Longrightarrow> printable v"
  by (auto simp: returns_def item_def ret_def raise_def list_all_iff dest!: map_of_SomeD split: option.splits)

lemma printable_jget: "printable (JObj d) \<Longrightarrow> printable (jget k d)"
  by (auto simp: jget_def get_or_def list_all_iff dest!: map_of_SomeD split: option.splits)

lemma printable_minutes: "printable (minutes_since s t)"
  by (simp add: minutes_since_def float_text_fixed1)

lemma clean_publish: "prints_back e \<Longrightarrow> keeps clean (publish tdir cfg patch summary started) e"
  unfolding publish_def Let_def
  by (auto intro!: keeps_bind keeps_andthen keeps_if clean_ops clean_status clean_patch printable_minutes
      intro: returns_item [OF _ returns_pr] simp del: printable.simps(3))

lemma clean_process: "prints_back e \<Longrightarrow> keeps clean process e"
  unfolding process_def Let_def
  by (auto intro!: keeps_bind keeps_andthen keeps_if clean_ops clean_status clean_patch clean_agent clean_publish printable_minutes
      printable_jget dest: returns_agent simp del: printable.simps(3))

section \<open>The status file at the end of a run\<close>

definition queue_clean :: "vw_dirs \<Rightarrow> bool" where
  "queue_clean d \<longleftrightarrow> (\<forall>(i, t)\<in>set (queue d). printable (JObj t) \<and> \<not> has_key ''error'' t)"

text \<open>A task that ended without an exception is \<open>done\<close> and has no \<open>error\<close>; one that ended with an exception is \<open>failed\<close> and
  has the exception's text there.\<close>

definition outcome_of :: "string \<Rightarrow> task \<Rightarrow> bool" where
  "outcome_of i t \<longleftrightarrow> printable (JObj t) \<and> jget ''id'' t = JStr i \<and>
     (\<not> has_key ''error'' t \<and> jget ''state'' t = JStr ''done'' \<or>
      (\<exists>x. map_of t ''error'' = Some (JStr (failure_text x)) \<and> jget ''state'' t = JStr ''failed''))"

lemma outcome_failed:
  assumes "printable (JObj (cur w))" and "jget ''id'' (cur w) = JStr i"
  shows "outcome_of i (new_status [(''state'', JStr ''failed''), (''error'', JStr (failure_text x))] e w)"
proof -
  let ?t = "new_status [(''state'', JStr ''failed''), (''error'', JStr (failure_text x))] e w"
  have "printable (JObj ?t)"
    using assms(1) by (intro printable_new_status) simp_all
  moreover have "map_of ?t ''error'' = Some (JStr (failure_text x))" "jget ''state'' ?t = JStr ''failed''"
    by (simp_all add: new_status_def jget_def get_or_def map_of_dict_update)
  moreover have "jget ''id'' ?t = JStr i"
    using assms(2) by (simp add: new_status_id)
  ultimately show ?thesis
    unfolding outcome_of_def by blast
qed

lemma run_next_outcome:
  assumes ok: "queue_ok cfg d" and fine: "queue_clean d" and e: "prints_back e"
    and first: "sorted_set (keys (queue d)) = i # rest" and run: "run_next e d = Some w"
  shows "map_of (status (dirs w)) i = Some (cur w) \<and> outcome_of i (cur w)"
proof -
  have "i \<in> set (sorted_set (keys (queue d)))"
    unfolding first by simp
  then have "map_of (queue d) i \<noteq> None"
    by (simp add: map_of_eq_None_iff)
  then obtain t where t: "map_of (queue d) i = Some t"
    by blast
  let ?d = "d\<lparr>queue := AList.delete i (queue d)\<rparr>"
  let ?w0 = "\<lparr>dirs = ?d, cur = t, trace = [], readings = 0\<rparr>"
  have "jget ''id'' t = JStr i"
    using ok map_of_SomeD [OF t] by (auto simp: queue_ok_def queued_ok_def)
  then have g: "guarded e i ?d ?w0"
    by (simp add: working_def)
  have c: "clean ?w0"
    using fine map_of_SomeD [OF t] by (auto simp: queue_clean_def clean_def)
  obtain r w1 where p: "process e ?w0 = (r, w1)"
    by (cases "process e ?w0")
  have w1: "guarded e i ?d w1" "clean w1" "r = Inr () \<Longrightarrow> ended i ''done'' w1"
    using establishes_process [of i ?d e] g clean_process [OF e] c p
    unfolding establishes_def keeps_def by (metis fst_conv snd_conv)+
  have id1: "jget ''id'' (cur w1) = JStr i" and print1: "printable (JObj (cur w1))"
    using w1(1,2) by (simp_all add: working_def clean_def)
  have w: "w = snd (process_or_fail e ?w0)"
    using run by (simp add: run_next_def pop_task_def first t)
  show ?thesis
  proof (cases r)
    case (Inl x)
    let ?u = "[(''state'', JStr ''failed''), (''error'', JStr (failure_text x))]"
    have w: "w = snd (write_status ?u e w1)"
      unfolding w by (simp add: process_or_fail_def try_catch_def p Inl)
    have "map_of (status (dirs w)) i = Some (cur w)"
      unfolding w by (rule write_status_own [OF w1(1)]) simp
    moreover have "cur w = new_status ?u e w1"
      by (simp add: w write_status_eq)
    ultimately show ?thesis
      using outcome_failed [OF print1 id1] by simp
  next
    case (Inr u)
    then have "w = w1"
      unfolding w by (simp add: process_or_fail_def try_catch_def p)
    then show ?thesis
      using w1(2,3) id1 print1 Inr by (simp add: ended_def outcome_of_def clean_def)
  qed
qed

section \<open>The hub asks\<close>

lemma status_command:
  assumes "i \<in> lang id_re"
  shows "strip (''status '' @ i) = ''status '' @ i" and "split_ws (''status '' @ i) = [''status'', i]" and "i \<noteq> ''all''" and "i \<noteq> []"
proof -
  have chars: "list_all (\<lambda>c. \<not> is_space c) i" and nonempty: "i \<noteq> []"
    using assms id_chars_no_space id_re_chars by (auto simp: list_all_iff lang_id_re)
  then show "split_ws (''status '' @ i) = [''status'', i]" "i \<noteq> []"
    using split_ws_pair [of "''status''" i] by (simp_all add: is_space_def)
  have hyphens: "CHR ''-'' \<in> set i"
    using assms by (auto simp: lang_id_re)
  show "i \<noteq> ''all''"
    using assms hyphens by fastforce
  obtain a b where "i = b @ [a]" "\<not> is_space a"
    using chars nonempty by (cases i rule: rev_cases) auto
  then show "strip (''status '' @ i) = ''status '' @ i"
    by (simp add: strip_def strip_if_def lstrip_if_def rstrip_if_def is_space_def)
qed

lemma task_status_read:
  assumes i: "i \<in> lang id_re" and t: "map_of (status d) i = Some t" "t \<noteq> []" "printable (JObj t)"
    and e: "runs_dispatch e (length (calls v)) cfg d c" "ssh_ready e v"
  shows "fst (task_status i e v) = spoken (task_now e) t"
proof -
  have "fst (dispatch cfg d (''status '' @ i) (worker_stdin []) c) = Printed (JObj t) 0"
    using i t status_command [OF i] unfolding dispatch_def show_status_def status_command(2) [OF i]
    by (simp add: match_dollar_lang load_status_def)
  then have "worker e (length (calls v)) (''status '' @ i) [] = Some (dumps (JObj t) @ [newline])"
    using e(1) by (simp add: runs_dispatch_def worker_stdout_def del: dumps.simps)
  then obtain v' where "ssh (''status '' @ i) [] 30 e v = (Inr (JObj t), v')"
    using ssh_prepared [OF e(2)] object_line [OF t(3)] e(1) unfolding runs_dispatch_def by metis
  then show ?thesis
    using status_command [OF i] by (simp add: task_status_def bind_def ask_def liftR_def as_object_def)
qed

section \<open>From the request to the answer\<close>

definition finished_text :: "task \<Rightarrow> string \<Rightarrow> string \<Rightarrow> string" where
  "finished_text t tid url =
     ''Task '' @ tid @ '' finished in '' @ py_str (jget ''minutes'' t) @ '' minutes. Pull request '' @
     py_str (jget ''pr_number'' t) @ '' is open: '' @ url @ ''. '' @ py_str (get_or (JStr []) ''summary'' t)"

lemma spoken_done:
  "\<not> has_key ''error'' t \<Longrightarrow> jget ''id'' t = JStr i \<Longrightarrow> jget ''state'' t = JStr ''done'' \<Longrightarrow> jget ''pr_url'' t = JStr url \<Longrightarrow>
    url \<noteq> [] \<Longrightarrow> spoken n t = Inr (finished_text t i url)"
  by (simp add: spoken_def finished_text_def jget_def get_or_def split: option.splits)

lemma started_clean:
  assumes "queue_clean d"
  shows "queue_clean (d\<lparr>queue := AList.update i (new_task c repo s (JStr u)) (queue d)\<rparr>)"
proof -
  have "printable (JObj (new_task c repo s (JStr u)))" "\<not> has_key ''error'' (new_task c repo s (JStr u))"
    by (simp_all add: new_task_def has_key_def)
  then show ?thesis
    using assms set_update_subset [of i "new_task c repo s (JStr u)" "queue d"] unfolding queue_clean_def
    by (auto simp del: printable.simps)
qed

text \<open>C2: the life of a voice task. When the hub has said that a task was started and the worker's loop comes to it, with every
  step of the run succeeding, then a later question for its status is answered with the pull request that
  the runner opened for it. The status goes over the directories of the worker, the line that the forced command
  prints, and the hub's reading of that line.\<close>

theorem task_lifecycle:
  assumes "runs_dispatch e (length (calls v)) cfg d c" and "queue_ok cfg d" and "queue_clean d" and "clock_ok c"
    and "fst (start_task repo instructions user e v) = Inr s" and "prefix ''Started'' s"
    and "sorted_set (keys (queue (snd (dispatch cfg d ''start'' (worker_stdin (dumps (start_payload repo instructions user))) c)))) = new_id c # rest"
    and "smooth er out (JStr url) (new_id c)" and "url \<noteq> []" and "prints_back er"
  shows "\<exists>w. run_next er (snd (dispatch cfg d ''start'' (worker_stdin (dumps (start_payload repo instructions user))) c)) = Some w \<and>
    (\<forall>e' v' c'. runs_dispatch e' (length (calls v')) cfg (dirs w) c' \<and> ssh_ready e' v' \<longrightarrow>
      fst (task_status (new_id c) e' v') = Inr (finished_text (cur w) (new_id c) url))"
proof -
  let ?d = "snd (dispatch cfg d ''start'' (worker_stdin (dumps (start_payload repo instructions user))) c)"
  have ok: "queue_ok cfg ?d"
    using start_queue_ok [OF assms(2,4)] by (simp add: dispatch_start)
  have fine: "queue_clean ?d"
    using started_queue [OF assms(1,5,6)] started_clean [OF assms(3)] by simp
  obtain w where run: "run_next er ?d = Some w" and fin: "jget ''state'' (cur w) = JStr ''done''" "jget ''pr_url'' (cur w) = JStr url"
    using run_next_smooth [OF ok assms(7,8)] by blast
  have st: "map_of (status (dirs w)) (new_id c) = Some (cur w)" and t: "outcome_of (new_id c) (cur w)"
    using run_next_outcome [OF ok fine assms(10,7) run] by simp_all
  have "spoken n (cur w) = Inr (finished_text (cur w) (new_id c) url)" for n
    using t fin assms(9) by (intro spoken_done) (auto simp: outcome_of_def)
  moreover have "fst (task_status (new_id c) e' v') = spoken (task_now e') (cur w)"
    if "runs_dispatch e' (length (calls v')) cfg (dirs w) c'" "ssh_ready e' v'" for e' v' c'
    using t fin that by (intro task_status_read [OF new_id_in_id_re [OF assms(4)] st]) (auto simp: outcome_of_def jget_def get_or_def simp del: printable.simps)
  ultimately show ?thesis
    using run by metis
qed

text \<open>C11: the status of a task that failed is spoken as the bare text of its error: \<open>_spoken\<close> takes every object that has an
  \<open>error\<close> for the answer of a request that went wrong, and every failed task has one. Which task failed, and that it
  did, is not said.\<close>

theorem failed_task_spoken:
  assumes "queue_ok cfg d" and "queue_clean d" and "prints_back er" and "sorted_set (keys (queue d)) = i # rest"
    and "run_next er d = Some w" and "jget ''state'' (cur w) = JStr ''failed''"
    and "runs_dispatch e (length (calls v)) cfg (dirs w) c" and "ssh_ready e v"
  shows "\<exists>x. jget ''error'' (cur w) = JStr (failure_text x) \<and> fst (task_status i e v) = Inr (failure_text x)"
proof -
  have st: "map_of (status (dirs w)) i = Some (cur w)" and t: "outcome_of i (cur w)"
    using run_next_outcome [OF assms(1-5)] by simp_all
  then obtain x where x: "map_of (cur w) ''error'' = Some (JStr (failure_text x))"
    using assms(6) by (auto simp: outcome_of_def)
  have "i \<in> set (keys (queue d))"
    by (metis assms(4) set_sorted_set list.set_intros(1))
  then have "i \<in> lang id_re"
    using assms(1) by (auto simp: queue_ok_def queued_ok_def)
  then have "fst (task_status i e v) = spoken (task_now e) (cur w)"
    using t x assms(7,8) by (intro task_status_read [OF _ st]) (auto simp: outcome_of_def simp del: printable.simps)
  moreover have "''error'' \<in> set (keys (cur w))"
    using map_of_SomeD [OF x] by force
  ultimately show ?thesis
    using x by (auto simp: spoken_def has_key_def jget_def get_or_def)
qed

section \<open>Witnesses\<close>

lemma sample_prints_back: "prints_back (sample_env s)" "prints_back no_config_env"
  by (simp_all add: prints_back_def sample_env_def no_config_env_def)

lemma queued_dirs_clean: "queue_clean queued_dirs"
  by (simp add: queue_clean_def queued_dirs_queue new_task_def has_key_def)

theorem task_lifecycle_witness:
  "\<exists>w. run_next (sample_env ''README.md'')
      (snd (dispatch demo_cfg demo_dirs ''start'' (worker_stdin (dumps (start_payload ''hue'' '' fix '' None))) demo_clock)) = Some w \<and>
    fst (task_status (new_id demo_clock) (hub_env demo_cfg (dirs w) demo_clock) demo_world) =
      Inr (finished_text (cur w) (new_id demo_clock) ''https://github.com/bcalaway/hue/pull/9'')"
proof -
  let ?e = "hub_env demo_cfg demo_dirs demo_clock"
  let ?d = "snd (dispatch demo_cfg demo_dirs ''start'' (worker_stdin (dumps (start_payload ''hue'' '' fix '' None))) demo_clock)"
  have empty: "queue_ok demo_cfg demo_dirs" "queue_clean demo_dirs"
    by (simp_all add: queue_ok_def queue_clean_def demo_dirs_def)
  have now: "clock_ok demo_clock"
    by (simp add: clock_ok_def demo_clock_def)
  have queued: "sorted_set (keys (queue ?d)) = new_id demo_clock # []"
    using started_queue [OF hub_env_runs(1) demo_said] by (simp add: started_text_def demo_dirs_def sorted_set_def)
  have paths: "filter forbidden_path (changed_paths ''README.md'') = []"
    by code_simp
  have said: "prefix ''Started'' (started_text (new_id demo_clock) ''hue'')" and url: "''https://github.com/bcalaway/hue/pull/9'' \<noteq> []"
    by (simp_all add: started_text_def)
  show ?thesis
    using task_lifecycle [OF hub_env_runs(1) empty now demo_said said queued smooth_sample [OF paths] url sample_prints_back(1)] hub_env_runs
    by blast
qed

theorem failed_task_spoken_witness:
  "\<exists>w. run_next no_config_env queued_dirs = Some w \<and>
    fst (task_status (new_id sample_clock) (hub_env sample_cfg (dirs w) sample_clock) demo_world) = Inr ''no such file''"
proof -
  obtain w where w: "run_next no_config_env queued_dirs = Some w" "jget ''state'' (cur w) = JStr ''failed''"
    "jget ''error'' (cur w) = JStr ''no such file''"
    using queued_dirs_first
    by (simp add: run_next_def pop_task_def process_or_fail_def try_catch_def process_def config_def no_config_env_def
        write_status_eq failure_text_def new_status_def bind_def jget_def get_or_def map_of_dict_update)
  then have "\<exists>x. JStr ''no such file'' = JStr (failure_text x) \<and>
      fst (task_status (new_id sample_clock) (hub_env sample_cfg (dirs w) sample_clock) demo_world) = Inr (failure_text x)"
    using failed_task_spoken [OF queued_dirs_ok queued_dirs_clean sample_prints_back(2) queued_dirs_first w(1,2) hub_env_runs]
    by simp
  then show ?thesis
    using w(1) by (auto simp only: json.inject)
qed

end
