(* ===== verification/Http.thy ===== *)
theory Http
  imports Json IoMonad
begin

text \<open>
  The HTTP calls of the services. What the other side answers is the environment: \<open>answer n q\<close> is
  the outcome of the \<open>n\<close>-th request of a run, a response or the exception httpx raises. Parsing
  a body is \<open>loads\<close> (\<open>json.loads\<close>) and \<open>yaml\<close> (\<open>yaml.safe_load\<close>), \<open>None\<close> for text that does not
  parse. The requests sent so far are part of the state, so that what a service asks for can
  be stated. The clocks stand still during one call of a tool.
\<close>

datatype py_exn =
    HTTPX string     \<comment> \<open>a subclass of \<open>httpx.HTTPError\<close>, by its name\<close>
  | RateLimited string  \<comment> \<open>\<open>github_status.RateLimited\<close>, with its argument\<close>
  | PyError string   \<comment> \<open>any other exception, by its name\<close>

datatype request = Request
  (req_method: string) (req_url: string) (req_params: "json dict") (req_bearer: "string option")
  (req_body: "json option")

datatype response = Response (resp_status: nat) (resp_headers: "string dict") (resp_text: string)

record http_env =
  answer :: "nat \<Rightarrow> request \<Rightarrow> py_exn + response"
  loads :: "string \<Rightarrow> json option"
  yaml :: "string \<Rightarrow> json option"
  mono :: rat
  wall :: rat

record net =
  sent :: "request list"

type_synonym ('w, 'a) web = "(http_env, 'w, py_exn, 'a) io"

definition exn_name :: "py_exn \<Rightarrow> string" where
  "exn_name x = (case x of HTTPX n \<Rightarrow> n | RateLimited _ \<Rightarrow> ''RateLimited'' | PyError n \<Rightarrow> n)"

definition is_http :: "py_exn \<Rightarrow> bool" where
  "is_http x = (case x of HTTPX _ \<Rightarrow> True | _ \<Rightarrow> False)"

definition send :: "request \<Rightarrow> ('z net_scheme, response) web" where
  "send q = (\<lambda>e w. (answer e (length (sent w)) q, w\<lparr>sent := sent w @ [q]\<rparr>))"

definition get :: "string \<Rightarrow> json dict \<Rightarrow> ('z net_scheme, response) web" where
  "get url params = send (Request ''GET'' url params None None)"

text \<open>\<open>r.raise_for_status()\<close>: httpx raises unless the status is 2xx.\<close>

definition check_status :: "response \<Rightarrow> ('w, unit) web" where
  "check_status r =
     (if 200 \<le> resp_status r \<and> resp_status r < 300 then ret () else raise (HTTPX ''HTTPStatusError''))"

definition json_of :: "response \<Rightarrow> ('w, json) web" where
  "json_of r = (\<lambda>e w. (case loads e (resp_text r) of None \<Rightarrow> Inl (PyError ''JSONDecodeError'') | Some j \<Rightarrow> Inr j, w))"

definition get_ok :: "string \<Rightarrow> json dict \<Rightarrow> ('z net_scheme, response) web" where
  "get_ok url params = bind (get url params) (\<lambda>r. andthen (check_status r) (ret r))"

definition get_json :: "string \<Rightarrow> json dict \<Rightarrow> ('z net_scheme, json) web" where
  "get_json url params = bind (get_ok url params) json_of"

text \<open>\<open>j[k]\<close>, \<open>j.get(k)\<close> and \<open>j.get(k, default)\<close> on a value that may not be an object.\<close>

definition item_of :: "string \<Rightarrow> json \<Rightarrow> py_exn + json" where
  "item_of k j = (case j of
      JObj d \<Rightarrow> (case map_of d k of None \<Rightarrow> Inl (PyError ''KeyError'') | Some v \<Rightarrow> Inr v)
    | _ \<Rightarrow> Inl (PyError ''TypeError''))"

definition get_of :: "json \<Rightarrow> string \<Rightarrow> json \<Rightarrow> py_exn + json" where
  "get_of v k j = (case j of JObj d \<Rightarrow> Inr (get_or v k d) | _ \<Rightarrow> Inl (PyError ''AttributeError''))"

text \<open>Iterating over a value: a list gives its elements, an object its keys, a text its characters.\<close>

definition iter_of :: "json \<Rightarrow> py_exn + json list" where
  "iter_of j = (case j of
      JList l \<Rightarrow> Inr l
    | JObj d \<Rightarrow> Inr (map (JStr \<circ> fst) d)
    | JStr s \<Rightarrow> Inr (map (\<lambda>c. JStr [c]) s)
    | _ \<Rightarrow> Inl (PyError ''TypeError''))"

fun mapM :: "('a \<Rightarrow> ('w, 'b) web) \<Rightarrow> 'a list \<Rightarrow> ('w, 'b list) web" where
  "mapM f [] = ret []"
| "mapM f (x # xs) = bind (f x) (\<lambda>y. bind (mapM f xs) (\<lambda>ys. ret (y # ys)))"

text \<open>\<open>except httpx.HTTPError\<close>: other exceptions go on.\<close>

definition catch_http :: "('w, 'a) web \<Rightarrow> (string \<Rightarrow> ('w, 'a) web) \<Rightarrow> ('w, 'a) web" where
  "catch_http m h = try_catch m (\<lambda>x. if is_http x then h (exn_name x) else raise x)"

text \<open>The result of a coroutine under \<open>asyncio.gather(\<dots>, return_exceptions=True)\<close>. Coroutines are
  run one after the other.\<close>

definition outcome :: "('w, 'a) web \<Rightarrow> ('w, py_exn + 'a) web" where
  "outcome m = try_catch (bind m (\<lambda>a. ret (Inr a))) (\<lambda>x. ret (Inl x))"

section \<open>What a run sends\<close>

text \<open>Every request a run sends satisfies a condition: the calculus of \<open>keeps\<close> for that case.\<close>

definition sends :: "(request \<Rightarrow> bool) \<Rightarrow> 'z net_scheme \<Rightarrow> bool" where
  "sends P w \<longleftrightarrow> list_all P (sent w)"

lemma keeps_send: "P q \<Longrightarrow> keeps (sends P) (send q) e"
  by (simp add: keeps_def send_def sends_def)

lemma keeps_get: "P (Request ''GET'' url params None None) \<Longrightarrow> keeps (sends P) (get url params) e"
  by (simp add: get_def keeps_send)

lemma keeps_web [simp]:
  "keeps P (check_status r) e" "keeps P (json_of r) e"
  by (simp_all add: check_status_def) (simp add: json_of_def keeps_def)

lemma keeps_get_ok: "P (Request ''GET'' url params None None) \<Longrightarrow> keeps (sends P) (get_ok url params) e"
  unfolding get_ok_def by (intro keeps_bind keeps_get keeps_andthen) simp_all

lemma keeps_get_json: "P (Request ''GET'' url params None None) \<Longrightarrow> keeps (sends P) (get_json url params) e"
  unfolding get_json_def by (intro keeps_bind keeps_get_ok) simp_all

lemma keeps_catch_http: "keeps P m e \<Longrightarrow> (\<And>n. keeps P (h n) e) \<Longrightarrow> keeps P (catch_http m h) e"
  unfolding catch_http_def by (rule keeps_try_catch) auto

lemma keeps_outcome: "keeps P m e \<Longrightarrow> keeps P (outcome m) e"
  unfolding outcome_def by (intro keeps_try_catch keeps_bind) simp_all

lemma keeps_mapM: "(\<And>x. x \<in> set xs \<Longrightarrow> keeps P (f x) e) \<Longrightarrow> keeps P (mapM f xs) e"
  by (induction xs) (auto intro!: keeps_bind)

lemmas keeps_http = keeps_send keeps_get keeps_get_ok keeps_get_json keeps_bind keeps_andthen
  keeps_catch_http keeps_outcome keeps_mapM keeps_if

lemma wp_send [simp]:
  "wp (send q) e w Q = Q (answer e (length (sent w)) q) (w\<lparr>sent := sent w @ [q]\<rparr>)"
  by (simp add: send_def wp_def)

lemma wp_json_of [simp]:
  "wp (json_of r) e w Q = (case loads e (resp_text r) of
     None \<Rightarrow> Q (Inl (PyError ''JSONDecodeError'')) w | Some j \<Rightarrow> Q (Inr j) w)"
  by (simp add: json_of_def wp_def split: option.split)

lemma wp_check_status [simp]:
  "wp (check_status r) e w Q =
     (if 200 \<le> resp_status r \<and> resp_status r < 300 then Q (Inr ()) w else Q (Inl (HTTPX ''HTTPStatusError'')) w)"
  by (simp add: check_status_def)

section \<open>Operations that only read\<close>

text \<open>A GET without a body. A condition on the list of what was sent that outlives every further read is kept by
  every operation that only reads; \<open>reading\<close> collects what is proved of all such conditions at once.\<close>

definition is_read :: "request \<Rightarrow> bool" where
  "is_read q \<longleftrightarrow> req_method q = ''GET'' \<and> req_body q = None"

lemma is_read_GET [simp]: "is_read (Request ''GET'' url params tok None)"
  by (simp add: is_read_def)

definition sent_as :: "(request list \<Rightarrow> bool) \<Rightarrow> 'z net_scheme \<Rightarrow> bool" where
  "sent_as L w \<longleftrightarrow> L (sent w)"

text \<open>A log that another one continues, with entries that satisfy a condition.\<close>

definition extends :: "('a \<Rightarrow> bool) \<Rightarrow> 'a list \<Rightarrow> 'a list \<Rightarrow> bool" where
  "extends P xs ys \<longleftrightarrow> (\<exists>zs. ys = xs @ zs \<and> list_all P zs)"

lemma extends_same [simp]: "extends P xs xs"
  by (simp add: extends_def)

lemma extends_snoc: "extends P xs ys \<Longrightarrow> P y \<Longrightarrow> extends P xs (ys @ [y])"
  by (auto simp: extends_def)

lemma extendsE:
  assumes "extends P xs ys"
  obtains zs where "ys = xs @ zs" and "list_all P zs"
  using assms by (auto simp: extends_def)

locale reading =
  fixes L :: "request list \<Rightarrow> bool"
  assumes reads_fine: "is_read q \<Longrightarrow> L qs \<Longrightarrow> L (qs @ [q])"
begin

lemma all_reads_fine: "list_all is_read qs \<Longrightarrow> L s \<Longrightarrow> L (s @ qs)"
  by (induction qs rule: rev_induct) (simp_all flip: append_assoc add: reads_fine)

lemma keeps_read: "is_read q \<Longrightarrow> keeps (sent_as L) (send q) e"
  by (simp add: keeps_def send_def sent_as_def reads_fine)

lemma keeps_gets:
  "keeps (sent_as L) (get url params) e" "keeps (sent_as L) (get_ok url params) e"
  "keeps (sent_as L) (get_json url params) e"
  unfolding get_json_def get_ok_def get_def
  by (auto intro!: keeps_bind keeps_andthen keeps_read)

lemmas keeps_reading = keeps_read keeps_gets

end

interpretation only_reads: reading "list_all is_read"
  by unfold_locales simp

interpretation grown: reading "extends is_read s" for s
  by unfold_locales (rule extends_snoc)

text \<open>An operation that keeps every such condition only adds reads to what was sent.\<close>

lemma keeps_extends:
  assumes "keeps (sent_as (extends P (sent w))) m e"
  shows "extends P (sent w) (sent (snd (m e w)))"
  using keepsD [OF assms, of w] by (simp add: sent_as_def)

end
