(* ===== verification/ImageTags.thy ===== *)
theory ImageTags
  imports Http
begin

text \<open>
  \<open>compose/aws/home-mcp/updates.py\<close>, the part without network: image references, the order of
  tags, the \<open>posixpath\<close> functions it uses, and what a Compose file names.
\<close>

section \<open>Tags\<close>

text \<open>The groups of \<open>TAG_RE\<close>. The numbers are matched greedily, so backtracking never finds more.\<close>

function dotted :: "string \<Rightarrow> (nat list \<times> string) option" where
  "dotted s =
     (let d = takeWhile is_digit s; r = dropWhile is_digit s in
      if d = [] then None
      else case r of
          c # t \<Rightarrow> (if c = CHR ''.'' then
                      (case dotted t of
                         None \<Rightarrow> Some ([nat_of_str d], r)
                       | Some (ns, u) \<Rightarrow> Some (nat_of_str d # ns, u))
                    else Some ([nat_of_str d], r))
        | [] \<Rightarrow> Some ([nat_of_str d], []))"
  by pat_completeness auto
termination
proof (relation "measure length")
  fix s d r c t
  assume "r = dropWhile is_digit s" and "r = c # t"
  then have "length (c # t) \<le> length s"
    using length_dropWhile_le [of is_digit s] by metis
  then show "(t, s) \<in> measure length" by simp
qed simp

declare dotted.simps [simp del]

text \<open>\<open>(.*)$\<close>: the rest up to the end, or up to a final newline.\<close>

definition dot_star_end :: "string \<Rightarrow> string option" where
  "dot_star_end s =
     (if newline \<notin> set s then Some s
      else if s \<noteq> [] \<and> last s = newline \<and> newline \<notin> set (butlast s) then Some (butlast s) else None)"

type_synonym tag = "string \<times> nat list \<times> string"

definition parse_tag :: "string \<Rightarrow> tag option" where
  "parse_tag s =
     (let p = (if prefix ''v'' s then ''v'' else []) in
      case dotted (drop (length p) s) of
        None \<Rightarrow> None
      | Some (ns, r) \<Rightarrow> map_option (\<lambda>suffix. (p, ns, suffix)) (dot_star_end r))"

definition prerelease :: "string \<Rightarrow> bool" where
  "prerelease s \<longleftrightarrow> list_ex (\<lambda>p. sublist p (lower s))
     [''rc'', ''beta'', ''alpha'', ''dev'', ''pre'', ''preview'', ''nightly'', ''test'', ''snapshot'', ''edge'']"

definition same_shape :: "tag \<Rightarrow> tag \<Rightarrow> bool" where
  "same_shape c p \<longleftrightarrow> fst p = fst c \<and> snd (snd p) = snd (snd c) \<and> length (fst (snd p)) = length (fst (snd c))"

text \<open>The loop of \<open>newest_same_shape\<close>, with \<open>best\<close> and \<open>best_nums\<close>.\<close>

fun newest_loop :: "tag \<Rightarrow> string list \<Rightarrow> string option \<times> nat list \<Rightarrow> string option \<times> nat list" where
  "newest_loop cur [] b = b"
| "newest_loop cur (t # ts) b =
     newest_loop cur ts
       (case parse_tag t of
          None \<Rightarrow> b
        | Some p \<Rightarrow>
            (if \<not> same_shape cur p then b
             else if prerelease (snd (snd p)) then b
             else if snd b < fst (snd p) then (Some t, fst (snd p)) else b))"

definition newest_same_shape :: "string \<Rightarrow> string list \<Rightarrow> string option" where
  "newest_same_shape current tags =
     (case parse_tag current of
        None \<Rightarrow> None
      | Some cur \<Rightarrow>
          (if prerelease (snd (snd cur)) then None
           else fst (newest_loop cur tags (None, fst (snd cur)))))"

section \<open>Image references\<close>

text \<open>\<open>s.split(c, 1)[0]\<close>.\<close>

definition before :: "char \<Rightarrow> string \<Rightarrow> string" where
  "before c s = takeWhile (\<lambda>x. x \<noteq> c) s"

definition name_and_tag :: "string \<Rightarrow> string \<times> string" where
  "name_and_tag ref =
     (case rpartition1 (CHR '':'') ref of
        Some (name, tag) \<Rightarrow> (if name = [] \<or> CHR ''/'' \<in> set tag then (ref, ''latest'') else (name, tag))
      | None \<Rightarrow> (ref, ''latest''))"

definition split_image :: "string \<Rightarrow> py_exn + string \<times> string \<times> string" where
  "split_image ref0 =
     (let (name, tag) = name_and_tag (before (CHR ''@'') ref0); first = before (CHR ''/'') name in
      if CHR ''.'' \<in> set first \<or> CHR '':'' \<in> set first then
        (case partition1 (CHR ''/'') name of
           None \<Rightarrow> Inl (PyError ''IndexError'')
         | Some (_, rest) \<Rightarrow> Inr (first, rest, tag))
      else Inr (''docker.io'', if CHR ''/'' \<in> set name then name else ''library/'' @ name, tag))"

section \<open>posixpath\<close>

definition dirname :: "string \<Rightarrow> string" where
  "dirname p =
     (case rpartition1 (CHR ''/'') p of
        None \<Rightarrow> []
      | Some (h, _) \<Rightarrow>
          (let head = h @ ''/'' in
           if list_all (\<lambda>c. c = CHR ''/'') head then head else rstrip_if (\<lambda>c. c = CHR ''/'') head))"

definition path_join :: "string \<Rightarrow> string \<Rightarrow> string" where
  "path_join a b =
     (if prefix ''/'' b then b else if a = [] \<or> suffix ''/'' a then a @ b else a @ ''/'' @ b)"

text \<open>The loop of \<open>normpath\<close> over the components; \<open>acc\<close> is what is kept so far, in reverse.\<close>

fun norm_comps :: "nat \<Rightarrow> string list \<Rightarrow> string list \<Rightarrow> string list" where
  "norm_comps slashes acc [] = rev acc"
| "norm_comps slashes acc (c # cs) =
     (if c = [] \<or> c = ''.'' then norm_comps slashes acc cs
      else if c \<noteq> ''..'' \<or> (slashes = 0 \<and> acc = []) \<or> (acc \<noteq> [] \<and> hd acc = ''..'')
        then norm_comps slashes (c # acc) cs
      else norm_comps slashes (tl acc) cs)"

definition initial_slashes :: "string \<Rightarrow> nat" where
  "initial_slashes p =
     (if prefix ''///'' p then 1 else if prefix ''//'' p then 2 else if prefix ''/'' p then 1 else 0)"

definition normpath :: "string \<Rightarrow> string" where
  "normpath p =
     (if p = [] then ''.''
      else let n = initial_slashes p;
               q = replicate n (CHR ''/'') @ join ''/'' (norm_comps n [] (split_on (CHR ''/'') p))
           in if q = [] then ''.'' else q)"

section \<open>Compose files\<close>

text \<open>\<open>x or y\<close>.\<close>

definition or_else :: "json \<Rightarrow> json \<Rightarrow> json" where
  "or_else x y = (if truthy x then x else y)"

text \<open>The argument is what \<open>yaml.safe_load\<close> returned for the file's text.\<close>

definition include_entry :: "string \<Rightarrow> json \<Rightarrow> py_exn + string list" where
  "include_entry base item =
     bindR (case item of JStr s \<Rightarrow> Inr item | _ \<Rightarrow> get_of JNull ''path'' (or_else item (JObj []))) (\<lambda>rel.
     bindR (case rel of JStr s \<Rightarrow> Inr [rel] | _ \<Rightarrow> iter_of (or_else rel (JList []))) (\<lambda>rs.
     mapR (\<lambda>r. case r of JStr s \<Rightarrow> Inr (normpath (path_join base s)) | _ \<Rightarrow> Inl (PyError ''TypeError'')) rs))"

definition includes_in_compose :: "json \<Rightarrow> string \<Rightarrow> py_exn + string list" where
  "includes_in_compose doc path =
     bindR (get_of JNull ''include'' (or_else doc (JObj []))) (\<lambda>inc.
     bindR (iter_of (or_else inc (JList []))) (\<lambda>items.
     bindR (mapR (include_entry (dirname path)) items) (\<lambda>outs. Inr (concat outs))))"

text \<open>The images of the services that are objects with a truthy image; \<open>None\<close> for one that is not
  text, which the program cannot sort or use.\<close>

definition service_images :: "json dict \<Rightarrow> json list" where
  "service_images services =
     [jget ''image'' d. (_, JObj d) \<leftarrow> services, truthy (jget ''image'' d)]"

definition images_in_compose :: "json \<Rightarrow> py_exn + string list" where
  "images_in_compose doc =
     bindR (get_of (JObj []) ''services'' (or_else doc (JObj []))) (\<lambda>s.
     case or_else s (JObj []) of
       JObj services \<Rightarrow>
         bindR (mapR (\<lambda>i. case i of JStr t \<Rightarrow> Inr t | _ \<Rightarrow> Inl (PyError ''TypeError'')) (service_images services))
           (\<lambda>images. Inr (sorted_set images))
     | _ \<Rightarrow> Inl (PyError ''AttributeError''))"

section \<open>The newest tag of a shape\<close>

lemma dotted_not_Nil: "dotted s = Some (ns, r) \<Longrightarrow> ns \<noteq> []"
  by (subst (asm) dotted.simps) (auto simp: Let_def split: if_splits list.splits option.splits)

lemma parse_tag_not_Nil: "parse_tag t = Some (p, ns, u) \<Longrightarrow> ns \<noteq> []"
  by (auto simp: parse_tag_def Let_def dest: dotted_not_Nil split: option.splits)

text \<open>A tag that can replace the current one: it has the same shape and is not a pre-release. \<open>nums\<close>
  are its numbers.\<close>

definition candidate :: "tag \<Rightarrow> string \<Rightarrow> nat list \<Rightarrow> bool" where
  "candidate cur t ns \<longleftrightarrow>
     (\<exists>p. parse_tag t = Some p \<and> same_shape cur p \<and> \<not> prerelease (snd (snd p)) \<and> ns = fst (snd p))"

lemma newest_loop_Cons:
  "newest_loop cur (t # ts) b =
     newest_loop cur ts (if \<exists>ns. candidate cur t ns \<and> snd b < ns
                         then (Some t, fst (snd (the (parse_tag t)))) else b)"
  by (auto simp: candidate_def split: option.split)

lemma newest_loop_spec:
  assumes "newest_loop cur ts (best, m) = (r, n)"
  shows "m \<le> n \<and> (\<forall>t\<in>set ts. \<forall>ns. candidate cur t ns \<longrightarrow> ns \<le> n) \<and>
    (r = best \<and> n = m \<or> (\<exists>t\<in>set ts. r = Some t \<and> candidate cur t n \<and> m < n))"
  using assms
proof (induction ts arbitrary: best m)
  case (Cons t ts)
  show ?case
  proof (cases "\<exists>ns. candidate cur t ns \<and> m < ns")
    case True
    then obtain ns where ns: "candidate cur t ns" "m < ns" by blast
    then have "fst (snd (the (parse_tag t))) = ns" and only: "candidate cur t k \<Longrightarrow> k = ns" for k
      by (auto simp: candidate_def)
    with Cons.prems True have "newest_loop cur ts (Some t, ns) = (r, n)"
      by (simp add: newest_loop_Cons del: newest_loop.simps)
    note IH = Cons.IH [OF this]
    have "ns \<le> n" using IH by blast
    have "m < n" using ns(2) \<open>ns \<le> n\<close> by (rule less_le_trans)
    moreover have "\<forall>u\<in>set (t # ts). \<forall>k. candidate cur u k \<longrightarrow> k \<le> n"
      using IH only \<open>ns \<le> n\<close> by (metis set_ConsD)
    moreover have "\<exists>u\<in>set (t # ts). r = Some u \<and> candidate cur u n"
      using IH ns(1) by (metis list.set_intros)
    ultimately show ?thesis by (metis less_imp_le)
  next
    case False
    with Cons.prems have "newest_loop cur ts (best, m) = (r, n)"
      by (simp add: newest_loop_Cons del: newest_loop.simps)
    from Cons.IH [OF this] False show ?thesis
      by (auto simp: not_less intro: order.trans)
  qed
qed simp

text \<open>C33: the answer of \<open>newest_same_shape\<close> is a tag of the list that has the prefix, the suffix and
  the number of components of the current one, is not a pre-release, is newer, and no other
  such tag is newer still; without an answer there is no newer tag of that shape.\<close>

theorem newest_same_shape_correct:
  assumes "parse_tag current = Some cur" and "\<not> prerelease (snd (snd cur))"
  shows "case newest_same_shape current tags of
      Some t \<Rightarrow> t \<in> set tags \<and> (\<exists>n. candidate cur t n \<and> fst (snd cur) < n \<and>
        (\<forall>u\<in>set tags. \<forall>m. candidate cur u m \<longrightarrow> m \<le> n))
    | None \<Rightarrow> (\<forall>u\<in>set tags. \<forall>m. candidate cur u m \<longrightarrow> m \<le> fst (snd cur))"
proof -
  obtain r n where loop: "newest_loop cur tags (None, fst (snd cur)) = (r, n)"
    by (cases "newest_loop cur tags (None, fst (snd cur))")
  have "newest_same_shape current tags = r"
    using assms by (simp add: newest_same_shape_def loop)
  then show ?thesis
    using newest_loop_spec [OF loop] by (cases r) auto
qed

theorem newest_same_shape_correct_witness:
  "parse_tag ''v1.8.2'' = Some (''v'', [1, 8, 2], []) \<and>
   newest_same_shape ''v1.8.2'' [''v1.9.0-rc.1'', ''v1.10.0'', ''v1.9.3'', ''1.11.0'', ''latest''] = Some ''v1.10.0'' \<and>
   candidate (''v'', [1, 8, 2], []) ''v1.10.0'' [1, 10, 0]"
proof -
  have p: "parse_tag ''v1.8.2'' = Some (''v'', [1, 8, 2], [])" by code_simp
  have n: "newest_same_shape ''v1.8.2'' [''v1.9.0-rc.1'', ''v1.10.0'', ''v1.9.3'', ''1.11.0'', ''latest''] = Some ''v1.10.0''"
    by code_simp
  have "parse_tag ''v1.10.0'' = Some (''v'', [1, 10, 0], [])" by code_simp
  moreover have "\<not> prerelease (snd (snd (''v'', [1, 8, 2 :: nat], [])))" by code_simp
  ultimately show ?thesis
    using newest_same_shape_correct [OF p, of "[''v1.9.0-rc.1'', ''v1.10.0'', ''v1.9.3'', ''1.11.0'', ''latest'']"] p n
    by (auto simp: candidate_def)
qed

section \<open>Taking an image reference apart\<close>

lemma before_append: "c \<notin> set a \<Longrightarrow> before c (a @ c # b) = a"
  by (induction a) (auto simp: before_def)

lemma before_id: "c \<notin> set a \<Longrightarrow> before c a = a"
  by (induction a) (auto simp: before_def)

lemma rpartition1_append: "c \<notin> set b \<Longrightarrow> rpartition1 c (a @ c # b) = Some (a, b)"
  by (simp add: rpartition1_Some)

text \<open>An optional digest, from its \<open>@\<close> on.\<close>

definition is_digest :: "string \<Rightarrow> bool" where
  "is_digest g \<longleftrightarrow> g = [] \<or> hd g = CHR ''@''"

lemma before_digest: "is_digest g \<Longrightarrow> CHR ''@'' \<notin> set s \<Longrightarrow> before (CHR ''@'') (s @ g) = s"
  by (cases g) (auto simp: is_digest_def before_append before_id)

lemma name_and_tag_tagged:
  "name \<noteq> [] \<Longrightarrow> CHR ''/'' \<notin> set tag \<Longrightarrow> CHR '':'' \<notin> set tag \<Longrightarrow> name_and_tag (name @ '':'' @ tag) = (name, tag)"
  by (simp add: name_and_tag_def rpartition1_append)

text \<open>A reference printed as registry, repository and tag is taken apart into them again, with or
  without a digest behind it, also when the registry has a port; a name without a registry is
  a Docker Hub image, and without a slash an official one.\<close>

theorem split_image_roundtrip:
  assumes "CHR ''/'' \<notin> set tag" and "CHR '':'' \<notin> set tag" and "is_digest g"
    and "CHR ''@'' \<notin> set (name @ repo @ tag)" and "CHR ''/'' \<notin> set name" and "name \<noteq> []"
  shows "if CHR ''.'' \<in> set name \<or> CHR '':'' \<in> set name
    then split_image (name @ ''/'' @ repo @ '':'' @ tag @ g) = Inr (name, repo, tag)
    else split_image (name @ ''/'' @ repo @ '':'' @ tag @ g) = Inr (''docker.io'', name @ ''/'' @ repo, tag) \<and>
      split_image (name @ '':'' @ tag @ g) = Inr (''docker.io'', ''library/'' @ name, tag)"
proof -
  have d: "before (CHR ''@'') (name @ ''/'' @ repo @ '':'' @ tag @ g) = (name @ ''/'' @ repo) @ '':'' @ tag"
    "before (CHR ''@'') (name @ '':'' @ tag @ g) = name @ '':'' @ tag"
    using before_digest [OF assms(3), of "name @ ''/'' @ repo @ '':'' @ tag"]
      before_digest [OF assms(3), of "name @ '':'' @ tag"] assms(4) by simp_all
  have n: "name_and_tag ((name @ ''/'' @ repo) @ '':'' @ tag) = (name @ ''/'' @ repo, tag)"
    "name_and_tag (name @ '':'' @ tag) = (name, tag)"
    using assms by (intro name_and_tag_tagged; simp)+
  have b: "before (CHR ''/'') (name @ CHR ''/'' # repo) = name" "before (CHR ''/'') name = name"
    using before_append [of "CHR ''/''" name repo] before_id assms(5) by simp_all
  have p: "partition1 (CHR ''/'') (name @ CHR ''/'' # repo) = Some (name, repo)"
    using partition1_append assms(5) by simp
  show ?thesis
    unfolding split_image_def d n by (simp add: Let_def b p assms(5))
qed

theorem split_image_roundtrip_witness:
  "split_image ''registry.local:5000/team/app:1.2@sha256:ab'' = Inr (''registry.local:5000'', ''team/app'', ''1.2'')"
  using split_image_roundtrip [of "''1.2''" "''@sha256:ab''" "''registry.local:5000''" "''team/app''"]
  by (simp add: is_digest_def)

end
