(* ===== verification/TtlCache.thy ===== *)
theory TtlCache
  imports Prelude
begin

text \<open>
  The interface of the in-process caches: an answer stored for a key comes back until it is
  as old as the limit. Some caches never return an answer that is empty; \<open>keepable\<close> says which
  answers come back at all. The clients only use these laws; each module's own cache is an
  instance.
\<close>

locale ttl_cache =
  fixes look :: "'c \<Rightarrow> 'k \<Rightarrow> rat \<Rightarrow> 'v option"
    and put :: "'c \<Rightarrow> 'k \<Rightarrow> rat \<Rightarrow> 'v \<Rightarrow> 'c"
    and fresh :: "rat \<Rightarrow> bool"   \<comment> \<open>by age\<close>
    and keepable :: "'v \<Rightarrow> bool"
  assumes look_put_same: "look (put c k t v) k t' = (if keepable v \<and> fresh (t' - t) then Some v else None)"
    and look_put_other: "k' \<noteq> k \<Longrightarrow> look (put c k t v) k' t' = look c k' t'"
begin

lemma look_fresh: "keepable v \<Longrightarrow> fresh (t' - t) \<Longrightarrow> look (put c k t v) k t' = Some v"
  by (simp add: look_put_same)

lemma look_expired: "\<not> fresh (t' - t) \<Longrightarrow> look (put c k t v) k t' = None"
  by (simp add: look_put_same)

text \<open>After any history of stores, the answer for a key is the last value stored for it, and it is
  younger than the limit; a key that was never stored is answered as at the start.\<close>

lemma look_history:
  assumes "look (foldl (\<lambda>c (k, t, v). put c k t v) c0 hist) k now = Some v"
  shows "look c0 k now = Some v \<and> k \<notin> fst ` set hist \<or>
    (\<exists>pre t post. hist = pre @ (k, t, v) # post \<and> k \<notin> fst ` set post \<and> fresh (now - t))"
  using assms
proof (induction hist rule: rev_induct)
  case (snoc h hist)
  obtain k' t' v' where h: "h = (k', t', v')" by (cases h)
  show ?case
  proof (cases "k' = k")
    case True
    then have "fresh (now - t')" "v' = v"
      using snoc.prems by (auto simp: h look_put_same split: if_splits)
    then have "hist @ [h] = hist @ (k, t', v) # []" "fresh (now - t')"
      using True h by simp_all
    then show ?thesis
      by (intro disjI2 exI [of _ hist] exI [of _ t'] exI [of _ "[]"]) simp
  next
    case False
    then have "look (foldl (\<lambda>c (k, t, v). put c k t v) c0 hist) k now = Some v"
      using snoc.prems by (simp add: h look_put_other)
    from snoc.IH [OF this] show ?thesis
    proof (elim disjE exE conjE)
      fix pre t post
      assume "hist = pre @ (k, t, v) # post" "k \<notin> fst ` set post" "fresh (now - t)"
      then show ?thesis
        using False h
        by (intro disjI2 exI [of _ pre] exI [of _ t] exI [of _ "post @ [h]"]) auto
    qed (use False h in auto)
  qed
qed simp

end

text \<open>A cache that holds one answer, for one question.\<close>

locale ttl_cell = ttl_cache look put fresh keepable
  for look :: "'c \<Rightarrow> unit \<Rightarrow> rat \<Rightarrow> 'v option" and put fresh keepable
begin

lemma look_put: "look (put c () t v) () t' = (if keepable v \<and> fresh (t' - t) then Some v else None)"
  by (rule look_put_same)

lemma put_replaces: "look (put (put c () s u) () t v) () t' = look (put c' () t v) () t'"
  by (simp add: look_put)

end

end
