(* ===== verification/UpdateChecks.thy ===== *)
theory UpdateChecks
  imports ImageTags TtlCache Calendar PyNum
begin

text \<open>
  \<open>compose/aws/home-mcp/updates.py\<close>, the lookups: the answer cache, the registries, the
  end-of-life dates, RouterOS releases and Prometheus, and the walk over the Compose files and
  their includes. Constants that come from the environment have the values of
  \<open>compose/aws\<close> by default: the owner and the repository.
\<close>

section \<open>The cache\<close>

type_synonym answers = "(string \<times> rat \<times> json) list"

record upd = net +
  cache :: answers

definition cache_seconds :: rat where
  "cache_seconds = 6 * 3600"

text \<open>\<open>_cached\<close> returns \<open>None\<close> for no entry, for an old one, and for a stored \<open>None\<close>.\<close>

definition cached :: "answers \<Rightarrow> string \<Rightarrow> rat \<Rightarrow> json option" where
  "cached c k t = (case map_of c k of
      Some (t0, v) \<Rightarrow> (if t - t0 < cache_seconds \<and> v \<noteq> JNull then Some v else None)
    | None \<Rightarrow> None)"

definition store :: "answers \<Rightarrow> string \<Rightarrow> rat \<Rightarrow> json \<Rightarrow> answers" where
  "store c k t v = AList.update k (t, v) c"

interpretation upd_cache: ttl_cache cached store "\<lambda>a. a < cache_seconds" "\<lambda>v. v \<noteq> JNull"
  by unfold_locales (auto simp: cached_def store_def)

text \<open>The shape of the three lookups that are cached: a hit, or the answer of the request, stored.\<close>

definition with_cache :: "string \<Rightarrow> (upd, json) web \<Rightarrow> (upd, json) web" where
  "with_cache k m =
     (\<lambda>e w. case cached (cache w) k (mono e) of
        Some v \<Rightarrow> (Inr v, w)
      | None \<Rightarrow> bind m (\<lambda>v. (\<lambda>e w. (Inr v, w\<lparr>cache := store (cache w) k (mono e) v\<rparr>))) e w)"

section \<open>Registries\<close>

definition names_of :: "json \<Rightarrow> py_exn + json list" where
  "names_of d = bindR (get_of (JList []) ''results'' d) (\<lambda>rs. bindR (iter_of rs) (mapR (item_of ''name'')))"

text \<open>The loop over at most \<open>n\<close> pages; \<open>tags\<close> are those of the pages before.\<close>

fun dockerhub_pages :: "nat \<Rightarrow> string \<Rightarrow> json dict \<Rightarrow> json list \<Rightarrow> (upd, json list) web" where
  "dockerhub_pages 0 url params tags = ret tags"
| "dockerhub_pages (Suc n) url params tags =
     bind (get_json url params) (\<lambda>d.
     bind (liftR (names_of d)) (\<lambda>names.
     bind (liftR (get_of JNull ''next'' d)) (\<lambda>nxt.
     if \<not> truthy nxt then ret (tags @ names)
     else dockerhub_pages n (str_of nxt) [] (tags @ names))))"

definition dockerhub_tags :: "string \<Rightarrow> (upd, json list) web" where
  "dockerhub_tags repo =
     (case partition1 (CHR ''/'') repo of
        None \<Rightarrow> raise (PyError ''ValueError'')
      | Some (ns, name) \<Rightarrow>
          dockerhub_pages 3 (''https://hub.docker.com/v2/namespaces/'' @ ns @ ''/repositories/'' @ name @ ''/tags'')
            [(''page_size'', JInt 100), (''ordering'', JStr ''last_updated'')] [])"

text \<open>The target of the first \<open><...>; rel="next"\<close> of a \<open>Link\<close> header.\<close>

definition rel_next :: string where
  "rel_next = ''rel='' @ [CHR 0x22] @ ''next'' @ [CHR 0x22]"

fun next_link :: "string \<Rightarrow> string option" where
  "next_link [] = None"
| "next_link (c # s) =
     (let u = takeWhile (\<lambda>x. x \<noteq> CHR ''>'') s; r = dropWhile (\<lambda>x. x \<noteq> CHR ''>'') s in
      if c = CHR ''<'' \<and> u \<noteq> [] \<and> prefix ''>;'' r \<and> prefix rel_next (dropWhile is_space (drop 2 r))
      then Some u else next_link s)"

fun ghcr_pages :: "nat \<Rightarrow> string \<Rightarrow> string \<Rightarrow> json list \<Rightarrow> (upd, json list) web" where
  "ghcr_pages 0 tok url tags = ret tags"
| "ghcr_pages (Suc n) tok url tags =
     bind (send (Request ''GET'' url [] (Some tok) None)) (\<lambda>r.
     andthen (check_status r)
     (bind (json_of r) (\<lambda>d.
     bind (liftR (bindR (get_of JNull ''tags'' d) (\<lambda>t. iter_of (or_else t (JList []))))) (\<lambda>more.
     case next_link (get_or [] ''link'' (resp_headers r)) of
       None \<Rightarrow> ret (tags @ more)
     | Some u \<Rightarrow> ghcr_pages n tok (if prefix ''http'' u then u else ''https://ghcr.io'' @ u) (tags @ more)))))"

definition ghcr_tags :: "string \<Rightarrow> (upd, json list) web" where
  "ghcr_tags repo =
     bind (get_json ''https://ghcr.io/token''
        [(''scope'', JStr (''repository:'' @ repo @ '':pull'')), (''service'', JStr ''ghcr.io'')]) (\<lambda>d.
     bind (liftR (item_of ''token'' d)) (\<lambda>tok.
     ghcr_pages 10 (py_str tok) (''https://ghcr.io/v2/'' @ repo @ ''/tags/list?n=1000'') []))"

definition registry_tags :: "string \<Rightarrow> string \<Rightarrow> (upd, json) web" where
  "registry_tags registry repo =
     with_cache (''tags:'' @ registry @ ''/'' @ repo)
       (bind (if registry = ''docker.io'' then dockerhub_tags repo
              else if registry = ''ghcr.io'' then ghcr_tags repo
              else raise (PyError ''ValueError'')) (\<lambda>tags. ret (JList tags)))"

section \<open>End of life, RouterOS and Prometheus\<close>

definition eol :: "string \<Rightarrow> (upd, json) web" where
  "eol product =
     with_cache (''eol:'' @ product)
       (bind (get_json (''https://endoflife.date/api/v1/products/'' @ product @ ''/'') []) (\<lambda>d.
        liftR (bindR (get_of (JObj []) ''result'' d) (get_of (JList []) ''releases''))))"

text \<open>The phrase for a release cycle and whether it is urgent.\<close>

fun eol_line :: "json list \<Rightarrow> string \<Rightarrow> date \<Rightarrow> py_exn + (string \<times> bool) option" where
  "eol_line [] cycle today = Inr None"
| "eol_line (rel # rels) cycle today =
     bindR (get_of JNull ''name'' rel) (\<lambda>name.
     if py_str name \<noteq> cycle then eol_line rels cycle today
     else bindR (get_of JNull ''eolFrom'' rel) (\<lambda>from.
     bindR (get_of JNull ''isEol'' rel) (\<lambda>over.
     if truthy over then
       Inr (Some (''reached end of life'' @ (if truthy from then '' on '' @ py_str from else []), True))
     else if truthy from then
       (case from of
          JStr s \<Rightarrow> (case fromisoformat s of
              None \<Rightarrow> Inl (PyError ''ValueError'')
            | Some d \<Rightarrow>
                (let days = days_between d today in
                 Inr (if days \<le> 180 then Some (''reaches end of life on '' @ s, days \<le> 60) else None)))
        | _ \<Rightarrow> Inl (PyError ''TypeError''))
     else Inr None)))"

definition mikrotik_latest :: "string \<Rightarrow> (upd, string) web" where
  "mikrotik_latest major =
     (let channel = (if major = ''7'' then ''NEWESTa7.stable'' else ''NEWEST6.stable'') in
      bind (with_cache (''mikrotik:'' @ channel)
        (bind (get_ok (''https://upgrade.mikrotik.com/routeros/'' @ channel) []) (\<lambda>r.
         case split_ws (resp_text r) of
           [] \<Rightarrow> raise (PyError ''IndexError'')
         | v # _ \<Rightarrow> ret (JStr v)))) (\<lambda>j. ret (str_of j)))"

definition prometheus_url :: string where
  "prometheus_url = ''http://prometheus:9090''"

text \<open>A sample of an instant vector: its labels and the text of its value. The answers of the
  Prometheus API are lists of these; an answer of another shape raises.\<close>

type_synonym sample = "string dict \<times> string"

definition labels_of :: "json \<Rightarrow> py_exn + string dict" where
  "labels_of j = (case j of
      JObj d \<Rightarrow> Inr (map (\<lambda>(k, v). (k, str_of v)) d)
    | _ \<Rightarrow> Inl (PyError ''TypeError''))"

definition sample_of :: "json \<Rightarrow> py_exn + sample" where
  "sample_of j =
     bindR (item_of ''metric'' j) (\<lambda>m. bindR (labels_of m) (\<lambda>labels.
     bindR (item_of ''value'' j) (\<lambda>v.
     case v of JList (_ # JStr s # _) \<Rightarrow> Inr (labels, s) | _ \<Rightarrow> Inl (PyError ''IndexError''))))"

definition prom :: "string \<Rightarrow> (upd, sample list) web" where
  "prom query =
     bind (get_json (prometheus_url @ ''/api/v1/query'') [(''query'', JStr query)]) (\<lambda>d.
     liftR (bindR (item_of ''data'' d) (\<lambda>data. bindR (item_of ''result'' data) (\<lambda>r.
       bindR (iter_of r) (mapR sample_of)))))"

text \<open>\<open>tuple(int(x) for x in re.findall(r"\d+", v))\<close>; the first argument holds the digits read so far.\<close>

fun digit_runs :: "string \<Rightarrow> string \<Rightarrow> nat list" where
  "digit_runs d [] = (if d = [] then [] else [nat_of_str d])"
| "digit_runs d (c # s) =
     (if is_digit c then digit_runs (d @ [c]) s
      else if d = [] then digit_runs [] s else nat_of_str d # digit_runs [] s)"

definition vtuple :: "string \<Rightarrow> nat list" where
  "vtuple v = digit_runs [] v"

section \<open>The Compose files\<close>

definition owner_repo :: string where
  "owner_repo = ''bcalaway/nyc_pa_aws_gitops''"

definition compose_files :: "string list" where
  "compose_files = [''compose/aws/docker-compose.yml'', ''compose/nuc/docker-compose.yml'',
     ''compose/nuc/voice-worker/docker-compose.yml'']"

definition compose_url :: "string \<Rightarrow> string" where
  "compose_url path = ''https://raw.githubusercontent.com/'' @ owner_repo @ ''/main/'' @ path"

text \<open>One file: its images and its includes; \<open>None\<close> where it cannot be read or parsed.\<close>

type_synonym page = "py_exn + (string list \<times> string list) option"

definition page_of :: "(string \<Rightarrow> json option) \<Rightarrow> string \<Rightarrow> py_exn + response \<Rightarrow> page" where
  "page_of parse path a = (case a of
      Inl x \<Rightarrow> (if is_http x then Inr None else Inl x)
    | Inr r \<Rightarrow>
        (if \<not> (200 \<le> resp_status r \<and> resp_status r < 300) then Inr None
         else case parse (resp_text r) of
             None \<Rightarrow> Inr None
           | Some doc \<Rightarrow>
               bindR (images_in_compose doc) (\<lambda>images.
               bindR (includes_in_compose doc path) (\<lambda>incs. Inr (Some (images, incs))))))"

text \<open>The work list. A file is fetched once; \<open>refs\<close> and \<open>couldnt\<close> grow in the order of the visits.
  Running out of fuel is \<open>None\<close>.\<close>

fun crawl :: "(string \<Rightarrow> page) \<Rightarrow> nat \<Rightarrow> string list \<Rightarrow> string list \<Rightarrow> string list \<times> string list \<Rightarrow>
    (py_exn + string list \<times> string list \<times> string list) option" where
  "crawl page 0 queue seen acc = None"
| "crawl page (Suc n) [] seen (refs, couldnt) = Some (Inr (seen, refs, couldnt))"
| "crawl page (Suc n) (path # queue) seen (refs, couldnt) =
     (if path \<in> set seen then crawl page n queue seen (refs, couldnt)
      else case page path of
          Inl x \<Rightarrow> Some (Inl x)
        | Inr None \<Rightarrow> crawl page n queue (seen @ [path]) (refs, couldnt @ [''image list from '' @ path])
        | Inr (Some (images, incs)) \<Rightarrow> crawl page n (queue @ incs) (seen @ [path]) (refs @ images, couldnt))"

subsection \<open>The walk visits what is reachable\<close>

definition includes_of :: "(string \<Rightarrow> page) \<Rightarrow> string \<Rightarrow> string list" where
  "includes_of page p = (case page p of Inr (Some (_, incs)) \<Rightarrow> incs | _ \<Rightarrow> [])"

definition images_of :: "(string \<Rightarrow> page) \<Rightarrow> string \<Rightarrow> string list" where
  "images_of page p = (case page p of Inr (Some (images, _)) \<Rightarrow> images | _ \<Rightarrow> [])"

inductive_set reached :: "(string \<Rightarrow> page) \<Rightarrow> string list \<Rightarrow> string set" for page start where
  reached_start: "p \<in> set start \<Longrightarrow> p \<in> reached page start"
| reached_step: "p \<in> reached page start \<Longrightarrow> q \<in> set (includes_of page p) \<Longrightarrow> q \<in> reached page start"

definition crawl_inv :: "(string \<Rightarrow> page) \<Rightarrow> string list \<Rightarrow> string list \<Rightarrow> string list \<Rightarrow> string list \<Rightarrow> string list \<Rightarrow> bool" where
  "crawl_inv page start queue seen refs couldnt \<longleftrightarrow>
     set start \<subseteq> set seen \<union> set queue \<and> set seen \<union> set queue \<subseteq> reached page start \<and>
     (\<forall>p\<in>set seen. set (includes_of page p) \<subseteq> set seen \<union> set queue) \<and> distinct seen \<and>
     set refs = (\<Union>p\<in>set seen. set (images_of page p)) \<and>
     couldnt = [''image list from '' @ p. p \<leftarrow> seen, page p = Inr None]"

lemma crawl_inv_skip:
  "crawl_inv page start (p # queue) seen refs couldnt \<Longrightarrow> p \<in> set seen \<Longrightarrow>
     crawl_inv page start queue seen refs couldnt"
  unfolding crawl_inv_def by auto

lemma crawl_inv_broken:
  "crawl_inv page start (p # queue) seen refs couldnt \<Longrightarrow> p \<notin> set seen \<Longrightarrow> page p = Inr None \<Longrightarrow>
     crawl_inv page start queue (seen @ [p]) refs (couldnt @ [''image list from '' @ p])"
  unfolding crawl_inv_def by (auto simp: includes_of_def images_of_def)

lemma crawl_inv_read:
  "crawl_inv page start (p # queue) seen refs couldnt \<Longrightarrow> p \<notin> set seen \<Longrightarrow>
     page p = Inr (Some (images, incs)) \<Longrightarrow>
     crawl_inv page start (queue @ incs) (seen @ [p]) (refs @ images) couldnt"
proof -
  assume inv: "crawl_inv page start (p # queue) seen refs couldnt" and new: "p \<notin> set seen"
    and read: "page p = Inr (Some (images, incs))"
  have facts: "includes_of page p = incs" "images_of page p = images"
    by (simp_all add: read includes_of_def images_of_def)
  have "set incs \<subseteq> reached page start"
    using inv reached_step [of p page start] by (auto simp: crawl_inv_def facts)
  then show ?thesis
    using inv new unfolding crawl_inv_def by (auto simp: facts read; blast)
qed

lemma crawl_result:
  assumes "crawl page n queue seen (refs, couldnt) = Some (Inr (seen', refs', couldnt'))"
    and "crawl_inv page start queue seen refs couldnt"
  shows "crawl_inv page start [] seen' refs' couldnt'"
  using assms
proof (induction page n queue seen "(refs, couldnt)" arbitrary: refs couldnt rule: crawl.induct)
  case (3 page n path queue seen refs couldnt)
  show ?case
  proof (cases "path \<in> set seen")
    case True
    then show ?thesis using 3 by (auto dest: crawl_inv_skip)
  next
    case False
    then show ?thesis
      using 3 by (auto split: sum.splits option.splits dest: crawl_inv_broken crawl_inv_read)
  qed
qed auto

lemma crawl_inv_end:
  assumes "crawl_inv page start [] seen refs couldnt"
  shows "set seen = reached page start"
proof
  show "reached page start \<subseteq> set seen"
  proof
    fix p assume "p \<in> reached page start"
    then show "p \<in> set seen"
      using assms by induction (auto simp: crawl_inv_def)
  qed
qed (use assms in \<open>auto simp: crawl_inv_def\<close>)

definition work_left :: "(string \<Rightarrow> page) \<Rightarrow> string set \<Rightarrow> string list \<Rightarrow> string list \<Rightarrow> nat" where
  "work_left page U queue seen = length queue + (\<Sum>p\<in>U - set seen. length (includes_of page p))"

lemma work_left_visit:
  assumes "finite U" and "\<And>p. includes_of page p \<noteq> [] \<Longrightarrow> p \<in> U" and "p \<notin> set seen"
  shows "work_left page U (queue @ includes_of page p) (seen @ [p]) < work_left page U (p # queue) seen"
proof (cases "p \<in> U")
  case True
  have "U - set seen = insert p (U - set (seen @ [p]))"
    using True assms(3) by auto
  then have "(\<Sum>q\<in>U - set seen. length (includes_of page q)) =
      length (includes_of page p) + (\<Sum>q\<in>U - set (seen @ [p]). length (includes_of page q))"
    using assms(1) by (metis (mono_tags, lifting) DiffD2 finite_Diff in_set_conv_decomp sum.insert)
  then show ?thesis by (simp add: work_left_def)
next
  case False
  then have "includes_of page p = []" "U - set (seen @ [p]) = U - set seen"
    using assms(2) by auto
  then show ?thesis by (simp add: work_left_def)
qed

lemma crawl_terminates:
  assumes "finite U" and "\<And>p. includes_of page p \<noteq> [] \<Longrightarrow> p \<in> U" and "work_left page U queue seen < n"
  shows "crawl page n queue seen acc \<noteq> None"
  using assms(3)
proof (induction n arbitrary: queue seen acc)
  case (Suc n)
  obtain refs couldnt where acc: "acc = (refs, couldnt)" by (cases acc)
  show ?case
  proof (cases queue)
    case (Cons p q)
    show ?thesis
    proof (cases "p \<in> set seen")
      case True
      then show ?thesis using Suc by (simp add: Cons acc work_left_def)
    next
      case False
      have "work_left page U (q @ includes_of page p) (seen @ [p]) < n"
        using work_left_visit [where page = page and queue = q, OF assms(1,2) False] Suc.prems by (simp add: Cons)
      then show ?thesis
        using Suc.IH False
        by (auto simp: Cons acc includes_of_def split: sum.splits option.splits)
    qed
  qed (simp add: acc)
qed simp

text \<open>C20: the walk over the Compose files ends and is complete: with finitely many files that have
  includes, it visits every file reachable from the three roots exactly once, collects exactly
  their images, and reports exactly the files that could not be read, whatever cycles the
  includes form. The number of steps is bounded by the roots and the includes.\<close>

theorem crawl_complete:
  assumes "finite U" and "\<And>p. includes_of page p \<noteq> [] \<Longrightarrow> p \<in> U" and "\<And>p x. page p \<noteq> Inl x"
    and "length start + (\<Sum>p\<in>U. length (includes_of page p)) < n"
  shows "\<exists>seen refs couldnt. crawl page n start [] ([], []) = Some (Inr (seen, refs, couldnt)) \<and>
    set seen = reached page start \<and> distinct seen \<and>
    set refs = (\<Union>p\<in>reached page start. set (images_of page p)) \<and>
    set couldnt = {''image list from '' @ p | p. p \<in> reached page start \<and> page p = Inr None}"
proof -
  have noraise: "crawl page k queue seen acc \<noteq> Some (Inl x)" for k queue seen acc x
    using assms(3) by (induction page k queue seen acc rule: crawl.induct) (auto split: sum.splits option.splits)
  have "crawl page n start [] ([], []) \<noteq> None"
    using crawl_terminates [OF assms(1,2)] assms(4) by (simp add: work_left_def)
  then obtain seen refs couldnt where run: "crawl page n start [] ([], []) = Some (Inr (seen, refs, couldnt))"
    using noraise [of n start "[]" "([], [])"]
    by (cases "crawl page n start [] ([], [])") (auto, metis obj_sumE prod_cases3)
  have "crawl_inv page start start [] [] []"
    by (auto simp: crawl_inv_def intro: reached_start)
  then have inv: "crawl_inv page start [] seen refs couldnt"
    by (rule crawl_result [OF run])
  then have "set seen = reached page start"
    by (rule crawl_inv_end)
  then show ?thesis
    using run inv by (intro exI conjI) (auto simp: crawl_inv_def)
qed

definition sample_page :: "string \<Rightarrow> page" where
  "sample_page p =
     (if p = ''a.yml'' then Inr (Some ([''redis:7''], [''b.yml'', ''c.yml'']))
      else if p = ''b.yml'' then Inr (Some ([''postgres:16''], [''a.yml''])) else Inr None)"

theorem crawl_complete_witness:
  "crawl sample_page 9 [''a.yml''] [] ([], []) =
     Some (Inr ([''a.yml'', ''b.yml'', ''c.yml''], [''redis:7'', ''postgres:16''], [''image list from c.yml''])) \<and>
   reached sample_page [''a.yml''] = {''a.yml'', ''b.yml'', ''c.yml''}"
proof -
  have run: "crawl sample_page 9 [''a.yml''] [] ([], []) =
     Some (Inr ([''a.yml'', ''b.yml'', ''c.yml''], [''redis:7'', ''postgres:16''], [''image list from c.yml'']))"
    by code_simp
  have "\<exists>seen refs couldnt. crawl sample_page 9 [''a.yml''] [] ([], []) = Some (Inr (seen, refs, couldnt)) \<and>
    set seen = reached sample_page [''a.yml''] \<and> distinct seen \<and>
    set refs = (\<Union>p\<in>reached sample_page [''a.yml'']. set (images_of sample_page p)) \<and>
    set couldnt = {''image list from '' @ p | p. p \<in> reached sample_page [''a.yml''] \<and> sample_page p = Inr None}"
    by (rule crawl_complete [where U = "{''a.yml'', ''b.yml''}"])
      (auto simp: includes_of_def sample_page_def split: if_splits)
  then show ?thesis using run by auto
qed

end
