(* ===== verification/UpdateReport.thy ===== *)
theory UpdateReport
  imports UpdateChecks
begin

text \<open>
  \<open>compose/aws/home-mcp/updates.py\<close>, the three sections and the report. A section returns the
  lines that are urgent, the other lines, and what could not be checked; coroutines that run
  under \<open>asyncio.gather\<close> are run one after the other. The walk over the Compose files gets
  its fuel as an argument (\<open>crawl_complete\<close> says how much is enough).
\<close>

type_synonym report_lines = "string list \<times> string list \<times> string list"

definition no_lines :: report_lines where
  "no_lines = ([], [], [])"

definition add_lines :: "report_lines \<Rightarrow> report_lines \<Rightarrow> report_lines" where
  "add_lines a b = (case a of (u, o1, c) \<Rightarrow> case b of (u', o', c') \<Rightarrow> (u @ u', o1 @ o', c @ c'))"

definition couldnt_check :: "string \<Rightarrow> report_lines" where
  "couldnt_check s = ([], [], [s])"

definition hit_line :: "bool \<Rightarrow> string \<Rightarrow> report_lines" where
  "hit_line urgent s = (if urgent then ([s], [], []) else ([], [s], []))"

definition label_of :: "string \<Rightarrow> sample \<Rightarrow> py_exn + string" where
  "label_of k s = (case map_of (fst s) k of None \<Rightarrow> Inl (PyError ''KeyError'') | Some v \<Rightarrow> Inr v)"

definition number_of :: "sample \<Rightarrow> py_exn + rat" where
  "number_of s = (case float_of (snd s) of None \<Rightarrow> Inl (PyError ''ValueError'') | Some r \<Rightarrow> Inr r)"

fun foldR :: "('a \<Rightarrow> 'b \<Rightarrow> 'e + 'b) \<Rightarrow> 'a list \<Rightarrow> 'b \<Rightarrow> 'e + 'b" where
  "foldR f [] b = Inr b"
| "foldR f (x # xs) b = bindR (f x b) (foldR f xs)"

definition off_season :: "date \<Rightarrow> bool" where
  "off_season today \<longleftrightarrow> month_of today \<ge> 11 \<or> month_of today \<le> 4"

section \<open>OS packages\<close>

definition count_pending :: "sample \<Rightarrow> (string \<times> (string \<times> int) list) list \<Rightarrow>
    py_exn + (string \<times> (string \<times> int) list) list" where
  "count_pending s by_host =
     bindR (label_of ''instance'' s) (\<lambda>i. bindR (label_of ''type'' s) (\<lambda>t. bindR (number_of s) (\<lambda>v.
     Inr (AList.update i (AList.update t (trunc v) (get_or [] i by_host)) by_host))))"

definition note_check :: "sample \<Rightarrow> (string \<times> rat) list \<Rightarrow> py_exn + (string \<times> rat) list" where
  "note_check s checked =
     bindR (label_of ''instance'' s) (\<lambda>i. bindR (number_of s) (\<lambda>v. Inr (AList.update i v checked)))"

definition host_name :: "string \<Rightarrow> string" where
  "host_name host = (if host = ''aws-hub'' then ''hub'' else host)"

definition host_parts :: "(string \<times> int) list \<Rightarrow> bool \<Rightarrow> string list" where
  "host_parts c reboot =
     (let n = get_or 0 ''all'' c; sec = get_or 0 ''security'' c; crit = get_or 0 ''critical'' c;
          imp = get_or 0 ''important'' c in
      (if n \<noteq> 0 then [str_of_int n @ '' package update'' @ (if n \<noteq> 1 then ''s'' else []) @ '' pending''] else []) @
      (if sec \<noteq> 0 then [str_of_int sec @ '' security ('' @ str_of_int crit @ '' critical, '' @ str_of_int imp @ '' important)''] else []) @
      (if reboot then [''needs a reboot to finish installing updates''] else []))"

definition host_entry :: "(string \<times> (string \<times> int) list) list \<Rightarrow> string list \<Rightarrow> (string \<times> rat) list \<Rightarrow>
    rat \<Rightarrow> bool \<Rightarrow> string \<Rightarrow> report_lines" where
  "host_entry by_host reboots checked now off host =
     (let name = host_name host in
      case map_of checked host of
        None \<Rightarrow>
          (if host = ''nuc5'' \<and> off then no_lines
           else couldnt_check (name @ '': no update data yet (its update check hasn't reported)''))
      | Some t \<Rightarrow>
          (let late = (if now - t > 24 * 3600
                       then [name @ '': update check hasn't run for '' @ str_of_int \<lfloor>(now - t) / 3600\<rfloor> @ '' hours'']
                       else []);
               c = get_or [] host by_host;
               parts = host_parts c (host \<in> set reboots);
               line = (if parts \<noteq> [] then name @ '': '' @ join '', '' parts else []) in
           if get_or 0 ''critical'' c \<noteq> 0 \<or> get_or 0 ''important'' c \<noteq> 0 \<or> host \<in> set reboots
           then ([line], [], late)
           else if line \<noteq> [] then ([], [line], late) else ([], [], late)))"

definition show_opt :: "string option \<Rightarrow> string" where
  "show_opt s = (case s of None \<Rightarrow> ''None'' | Some t \<Rightarrow> t)"

definition release_line :: "sample \<Rightarrow> string list" where
  "release_line s =
     (if snd s = ''1'' then
        [''hub: Amazon Linux '' @ show_opt (map_of (fst s) ''latest'') @ '' is available (running '' @
         show_opt (map_of (fst s) ''current'') @
         ''); dnf upgrade won't pick it up on its own, it needs dnf upgrade --releasever'']
      else [])"

definition os_eol_products :: "string dict" where
  "os_eol_products = [(''rocky'', ''rocky-linux''), (''amzn'', ''amazon-linux'')]"

definition eol_hit :: "string \<Rightarrow> string \<Rightarrow> date \<Rightarrow> (upd, (string \<times> bool) option) web" where
  "eol_hit product cycle today =
     bind (eol product) (\<lambda>j. liftR (bindR (iter_of j) (\<lambda>rels. eol_line rels cycle today)))"

definition os_entry :: "date \<Rightarrow> sample \<Rightarrow> (upd, report_lines) web" where
  "os_entry today s =
     (case map_of os_eol_products (get_or [] ''id'' (fst s)) of
        None \<Rightarrow> ret no_lines
      | Some product \<Rightarrow>
          catch_http
            (bind (eol_hit product (before (CHR ''.'') (get_or [] ''version_id'' (fst s))) today) (\<lambda>hit.
             case hit of
               None \<Rightarrow> ret no_lines
             | Some (phrase, urgent) \<Rightarrow>
                 liftR (bindR (label_of ''instance'' s) (\<lambda>i.
                   Inr (hit_line urgent (i @ '': '' @ get_or product ''pretty_name'' (fst s) @ '' '' @ phrase))))))
            (\<lambda>_. ret (couldnt_check (''end-of-life dates for '' @ get_or product ''name'' (fst s)))))"

definition sum_lines :: "report_lines list \<Rightarrow> report_lines" where
  "sum_lines ls = fold (\<lambda>l acc. add_lines acc l) ls no_lines"

definition hosts :: "date \<Rightarrow> (upd, report_lines) web" where
  "hosts today =
     bind (prom ''host_updates_pending{job=\"node-exporter\"}'') (\<lambda>pending.
     bind (prom ''host_reboot_required{job=\"node-exporter\"}'') (\<lambda>reboot.
     bind (prom ''host_os_release_update_available{job=\"node-exporter\"}'') (\<lambda>release.
     bind (prom ''host_updates_last_check_timestamp_seconds{job=\"node-exporter\"}'') (\<lambda>last_check.
     bind (prom ''node_os_info{job=\"node-exporter\", instance=~\"aws-hub|nuc.*\"}'') (\<lambda>osinfo.
     bind (liftR (foldR count_pending pending [])) (\<lambda>by_host.
     bind (liftR (mapR (label_of ''instance'') [r \<leftarrow> reboot. snd r = ''1''])) (\<lambda>reboots.
     bind (liftR (foldR note_check last_check [])) (\<lambda>checked.
     bind (ask wall) (\<lambda>now.
     bind (mapM (os_entry today) osinfo) (\<lambda>os.
     ret (sum_lines (map (host_entry by_host reboots checked now (off_season today)) [''aws-hub'', ''nuc4'', ''nuc5''] @
       [([], concat (map release_line release), [])] @ os))))))))))))"

section \<open>Network devices\<close>

definition device :: "sample \<Rightarrow> string option" where
  "device s = map_of (fst s) ''device''"

definition by_device :: "string \<Rightarrow> sample list \<Rightarrow> (string option \<times> string) list" where
  "by_device k ss = fold (\<lambda>s d. AList.update (device s) (get_or [] k (fst s)) d) ss []"

definition missing_routers :: "sample list \<Rightarrow> bool \<Rightarrow> string list" where
  "missing_routers ros off =
     [dev @ '': RouterOS version not reported over SNMP''.
        dev \<leftarrow> [''rt-nyc'', ''rt-rambles'', ''sw-10g''],
        Some dev \<notin> device ` set ros \<and> \<not> (dev = ''rt-rambles'' \<and> off)]"

definition boot_line :: "(string option \<times> string) list \<Rightarrow> (string option \<times> string) list \<Rightarrow> string option \<Rightarrow> string list" where
  "boot_line boot_by boot_up_by dev =
     (let a = get_or [] dev boot_by; b = get_or [] dev boot_up_by in
      if a \<noteq> [] \<and> b \<noteq> [] \<and> a \<noteq> b then
        [show_opt dev @ '': RouterBOOT '' @ a @ '' is behind the installed RouterOS ('' @ b @
         ''); /system routerboard upgrade, then reboot'']
      else [])"

definition router_entry :: "(string option \<times> string) list \<Rightarrow> (string option \<times> string) list \<Rightarrow> sample \<Rightarrow>
    (upd, report_lines) web" where
  "router_entry boot_by boot_up_by s =
     (let ver = get_or [] ''mtxrLicVersion'' (fst s) in
      catch_http
        (bind (mikrotik_latest (before (CHR ''.'') ver)) (\<lambda>latest.
         ret (add_lines
           (if vtuple ver < vtuple latest then
              hit_line (take 2 (vtuple latest) \<noteq> take 2 (vtuple ver))
                (show_opt (device s) @ '': RouterOS '' @ ver @ '', '' @ latest @ '' is the current stable'')
            else no_lines)
           ([], boot_line boot_by boot_up_by (device s), []))))
        (\<lambda>_. ret (couldnt_check ''MikroTik's latest RouterOS release'')))"

definition dsm_upgrade :: "string dict" where
  "dsm_upgrade = [(''1'', ''an update is available''), (''2'', ''up to date''), (''3'', ''still checking''),
     (''4'', ''can't reach Synology's update server''), (''5'', ''unknown'')]"

definition dsm_entry :: "(string option \<times> string) list \<Rightarrow> sample \<Rightarrow> report_lines" where
  "dsm_entry dsm_status s =
     (let st = get_or ''5'' (device s) dsm_status in
      if st = ''1'' then
        ([show_opt (device s) @ '': DSM '' @ get_or [] ''synoDsmVersion'' (fst s) @ '', '' @ get_or [] ''1'' dsm_upgrade], [], [])
      else if st \<in> {''4'', ''5''} then couldnt_check (show_opt (device s) @ '': DSM says '' @ get_or [] st dsm_upgrade)
      else no_lines)"

definition legacy_cisco :: string where
  "legacy_cisco = ''Cisco SG300 switches are end of life; no more firmware will come, so replacing them is the only fix for future vulnerabilities''"

definition cisco_entry :: "sample list \<Rightarrow> py_exn + report_lines" where
  "cisco_entry cisco =
     (if cisco = [] then Inr no_lines
      else bindR (mapR (\<lambda>s. case device s of None \<Rightarrow> Inl (PyError ''TypeError'') | Some d \<Rightarrow> Inr d) cisco) (\<lambda>devs.
        Inr ([], [join '' and '' (sorted_set devs) @ '' (firmware '' @
          join '', '' (sorted_set (map (\<lambda>s. get_or [] ''rlPhdUnitGenParamSoftwareVersion'' (fst s)) cisco)) @
          ''): '' @ legacy_cisco], [])))"

definition network :: "date \<Rightarrow> (upd, report_lines) web" where
  "network today =
     bind (prom ''mtxrLicVersion'') (\<lambda>ros.
     bind (prom ''mtxrFirmwareVersion'') (\<lambda>boot.
     bind (prom ''mtxrFirmwareUpgradeVersion'') (\<lambda>boot_up.
     bind (prom ''synoDsmVersion'') (\<lambda>dsm.
     bind (prom ''synoUpgradeAvailable'') (\<lambda>dsm_up.
     bind (prom ''rlPhdUnitGenParamSoftwareVersion'') (\<lambda>cisco.
     let boot_by = by_device ''mtxrFirmwareVersion'' boot;
         boot_up_by = by_device ''mtxrFirmwareUpgradeVersion'' boot_up;
         dsm_status = fold (\<lambda>s d. AList.update (device s) (snd s) d) dsm_up [] in
     bind (mapM (router_entry boot_by boot_up_by) ros) (\<lambda>routers.
     bind (liftR (cisco_entry cisco)) (\<lambda>switches.
     ret (sum_lines ([([], [], missing_routers ros (off_season today))] @ routers @
       map (dsm_entry dsm_status) dsm @
       [([], [], if dsm = [] then [''nas2: DSM version not reported over SNMP''] else [])] @
       [switches]))))))))))"

section \<open>Container images\<close>

definition image_notes :: "string dict" where
  "image_notes = [(''grafana/promtail'', ''Promtail is end of life; this platform moved to Grafana Alloy, so it shouldn't be pinned anywhere'')]"

definition eol_products :: "string dict" where
  "eol_products = [(''postgres'', ''postgresql'')]"

definition compose_crawl :: "nat \<Rightarrow> (upd, string list \<times> string list) web" where
  "compose_crawl fuel = (\<lambda>e w.
     let page = (\<lambda>p. page_of (yaml e) p (answer e (length (sent w)) (Request ''GET'' (compose_url p) [] None None))) in
     case crawl page fuel compose_files [] ([], []) of
       None \<Rightarrow> (Inl (PyError ''out of fuel''), w)
     | Some (Inl x) \<Rightarrow> (Inl x, w)
     | Some (Inr (seen, refs, couldnt)) \<Rightarrow>
         (Inr (refs, couldnt),
          w\<lparr>sent := sent w @ map (\<lambda>p. Request ''GET'' (compose_url p) [] None None) seen\<rparr>))"

definition tag_text :: "json \<Rightarrow> py_exn + string" where
  "tag_text j = (case j of JStr s \<Rightarrow> Inr s | _ \<Rightarrow> Inl (PyError ''TypeError''))"

text \<open>The tags of an image, or \<open>None\<close> for an error that the check reports: \<open>except (httpx.HTTPError,
  ValueError, KeyError)\<close>, where \<open>JSONDecodeError\<close> is a \<open>ValueError\<close>.\<close>

definition image_tags :: "string \<Rightarrow> string \<Rightarrow> (upd, json list option) web" where
  "image_tags registry repo =
     try_catch (bind (registry_tags registry repo) (\<lambda>j. bind (liftR (iter_of j)) (\<lambda>ts. ret (Some ts))))
       (\<lambda>x. case x of
          HTTPX _ \<Rightarrow> ret None
        | RateLimited _ \<Rightarrow> raise x
        | PyError n \<Rightarrow> if n \<in> {''ValueError'', ''KeyError'', ''JSONDecodeError''} then ret None else raise x)"

definition newer_line :: "string \<Rightarrow> string \<Rightarrow> string list \<Rightarrow> string list" where
  "newer_line short tag tags =
     (case (newest_same_shape tag tags, parse_tag tag) of
        (Some newer, Some (_, cur, _)) \<Rightarrow>
          (let floating = (length cur < 3 \<and> hd cur < 1000);
               kind = (case parse_tag newer of
                   Some (_, ns, _) \<Rightarrow> if hd ns \<noteq> hd cur then ''major'' else ''update''
                 | None \<Rightarrow> []) in
           [short @ '' '' @ tag @ '' -> '' @ newer @ '' ('' @ kind @ '')'' @ (if floating then '' [floating tag]'' else [])])
      | _ \<Rightarrow> [])"

definition check_image :: "date \<Rightarrow> string \<Rightarrow> (upd, report_lines) web" where
  "check_image today ref =
     bind (liftR (split_image ref)) (\<lambda>(registry, repo, tag).
     let short = removeprefix ''library/'' repo;
         note = ([], case map_of image_notes short of None \<Rightarrow> [] | Some n \<Rightarrow> [short @ '': '' @ n], []) in
     bind (image_tags registry repo) (\<lambda>found.
     case found of
       None \<Rightarrow> ret (add_lines note (couldnt_check (''newer tags for '' @ short)))
     | Some ts \<Rightarrow>
         bind (liftR (mapR tag_text ts)) (\<lambda>tags.
         let lines = add_lines note ([], newer_line short tag tags, []) in
         case (map_of eol_products short, parse_tag tag) of
           (Some product, Some (_, cur, _)) \<Rightarrow>
             catch_http
               (bind (eol_hit product (str_of_nat (hd cur)) today) (\<lambda>hit.
                ret (case hit of
                    None \<Rightarrow> lines
                  | Some (phrase, urgent) \<Rightarrow>
                      add_lines lines (hit_line urgent (short @ '' '' @ str_of_nat (hd cur) @ '' '' @ phrase)))))
               (\<lambda>_. ret (add_lines lines (couldnt_check (''end-of-life dates for '' @ short))))
         | _ \<Rightarrow> ret lines)))"

definition images :: "nat \<Rightarrow> date \<Rightarrow> (upd, report_lines) web" where
  "images fuel today =
     bind (compose_crawl fuel) (\<lambda>(refs, couldnt).
     bind (mapM (check_image today) (sorted_set refs)) (\<lambda>rs.
     case sum_lines (([], [], couldnt) # rs) of (u, o1, c) \<Rightarrow> ret (u, sort o1, c)))"

section \<open>The report\<close>

definition section_lines :: "string \<times> (py_exn + report_lines) \<Rightarrow> report_lines" where
  "section_lines s = (case s of (name, r) \<Rightarrow>
     (case r of
        Inl x \<Rightarrow> couldnt_check (name @ '' ('' @ exn_name x @ '')'')
      | Inr (u, o1, c) \<Rightarrow> ([x \<leftarrow> u. x \<noteq> []], [x \<leftarrow> o1. x \<noteq> []], c)))"

definition is_image_line :: "string \<Rightarrow> bool" where
  "is_image_line s \<longleftrightarrow> sublist '' -> '' s"

definition head_line :: "string list \<Rightarrow> string list \<Rightarrow> string list \<Rightarrow> string" where
  "head_line urgent rest image_lines =
     (if urgent = [] \<and> rest = [] \<and> image_lines = [] then ''Everything I can check is up to date.''
      else ''Updates: '' @ join '', ''
        ((if urgent \<noteq> [] then [str_of_nat (length urgent) @ '' thing'' @ plural (length urgent) @ '' worth doing soon''] else []) @
         (if rest \<noteq> [] then [str_of_nat (length rest) @ '' other update'' @ plural (length rest)] else []) @
         (if image_lines \<noteq> [] then [str_of_nat (length image_lines) @ '' container image'' @ plural (length image_lines) @ '' behind''] else [])) @ ''.'')"

definition report_text :: "bool \<Rightarrow> report_lines \<Rightarrow> string" where
  "report_text detail ls = (case ls of (urgent, other, couldnt) \<Rightarrow>
     (let image_lines = [x \<leftarrow> other. is_image_line x]; rest = [x \<leftarrow> other. \<not> is_image_line x] in
      join [newline]
        ([head_line urgent rest image_lines] @
         (if urgent \<noteq> [] then [''Soon: '' @ join ''; '' urgent @ ''.''] else []) @
         (if detail then
            (if rest \<noteq> [] then [''Also: '' @ join ''; '' rest @ ''.''] else []) @
            (if image_lines \<noteq> [] then
               [''Images (Dependabot opens PRs for these; [floating tag] means patch releases already arrive on each hub redeploy, the listed jump is a new major/minor line): '' @
                join ''; '' image_lines @ ''.''] else [])
          else if rest \<noteq> [] \<or> image_lines \<noteq> [] then [''Ask for the detail to hear the rest.''] else []) @
         (if couldnt \<noteq> [] then [''Couldn't check: '' @ join ''; '' (sorted_set couldnt) @ ''.''] else []))))"

definition update_status :: "nat \<Rightarrow> date \<Rightarrow> bool \<Rightarrow> (upd, string) web" where
  "update_status fuel today detail =
     bind (outcome (hosts today)) (\<lambda>h.
     bind (outcome (network today)) (\<lambda>n.
     bind (outcome (images fuel today)) (\<lambda>i.
     ret (report_text detail (sum_lines (map section_lines
       [(''OS packages'', h), (''network device firmware'', n), (''container images'', i)]))))))"

section \<open>No failure gets lost\<close>

lemma outcome_Inr: "\<exists>r. outcome m e w = (Inr r, snd (m e w)) \<and> r = fst (m e w)"
  by (cases "m e w"; cases "fst (m e w)") (simp_all add: outcome_def try_catch_def bind_def ret_def)

lemma outcome_eq: "outcome m e w = (Inr (fst (m e w)), snd (m e w))"
  using outcome_Inr [of m e w] by auto

lemma update_status_eq:
  "update_status fuel today detail e w =
    (let w1 = snd (hosts today e w); w2 = snd (network today e w1) in
     (Inr (report_text detail (sum_lines (map section_lines
        [(''OS packages'', fst (hosts today e w)), (''network device firmware'', fst (network today e w1)),
         (''container images'', fst (images fuel today e w2))]))), snd (images fuel today e w2)))"
  by (simp add: update_status_def bind_def outcome_eq ret_def Let_def)

lemma report_text_couldnt:
  assumes "c \<in> set couldnt"
  shows "sublist c (report_text detail (u, o1, couldnt))"
proof -
  have "sublist c (join ''; '' (sorted_set couldnt))"
    using assms by (intro sublist_join) simp
  then have "sublist c (''Couldn't check: '' @ join ''; '' (sorted_set couldnt) @ ''.'')"
    by (meson sublist_append_leftI sublist_append_rightI sublist_order.order_trans)
  then show ?thesis
    unfolding report_text_def Let_def prod.case
    by (rule sublist_line) (use assms in auto)
qed

lemma sum_lines_couldnt:
  assumes "(u, o1, c) \<in> set ls" and "x \<in> set c"
  shows "x \<in> set (snd (snd (sum_lines ls)))"
proof -
  have "x \<in> set (snd (snd acc)) \<or> (\<exists>(u, o1, c)\<in>set ls. x \<in> set c) \<Longrightarrow>
      x \<in> set (snd (snd (fold (\<lambda>l acc. add_lines acc l) ls acc)))" for acc
    by (induction ls arbitrary: acc) (force simp: add_lines_def split: prod.splits)+
  then show ?thesis
    using assms unfolding sum_lines_def by blast
qed

text \<open>\<open>update_status\<close> never fails, whatever the lookups answer or raise: it always returns a text,
  and a section that raised is named in it together with the exception.\<close>

theorem update_status_total:
  "\<exists>s w'. update_status fuel today detail e w = (Inr s, w') \<and>
     (case fst (hosts today e w) of
        Inl x \<Rightarrow> sublist (''OS packages'' @ '' ('' @ exn_name x @ '')'') s
      | Inr _ \<Rightarrow> True) \<and>
     (case fst (images fuel today e (snd (network today e (snd (hosts today e w))))) of
        Inl x \<Rightarrow> sublist (''container images'' @ '' ('' @ exn_name x @ '')'') s
      | Inr _ \<Rightarrow> True)"
proof -
  have named: "sublist (name @ '' ('' @ exn_name x @ '')'') (report_text detail (sum_lines ls))"
    if "section_lines (name, Inl x) \<in> set ls" for name x ls
  proof -
    have "name @ '' ('' @ exn_name x @ '')'' \<in> set (snd (snd (sum_lines ls)))"
      using that by (intro sum_lines_couldnt) (auto simp: section_lines_def couldnt_check_def)
    then show ?thesis
      using report_text_couldnt by (metis prod.collapse)
  qed
  let ?h = "fst (hosts today e w)" and ?n = "fst (network today e (snd (hosts today e w)))"
    and ?i = "fst (images fuel today e (snd (network today e (snd (hosts today e w)))))"
  let ?s = "report_text detail (sum_lines (map section_lines
    [(''OS packages'', ?h), (''network device firmware'', ?n), (''container images'', ?i)]))"
  have h: "case ?h of Inl x \<Rightarrow> sublist (''OS packages'' @ '' ('' @ exn_name x @ '')'') ?s | Inr _ \<Rightarrow> True"
    by (cases ?h) (simp_all only: sum.case, rule named, simp)
  have i: "case ?i of Inl x \<Rightarrow> sublist (''container images'' @ '' ('' @ exn_name x @ '')'') ?s | Inr _ \<Rightarrow> True"
    by (cases ?i) (simp_all only: sum.case, rule named, simp)
  show ?thesis
    unfolding update_status_eq Let_def by (intro exI conjI, rule refl) (rule h, rule i)
qed

section \<open>What the checks send\<close>

lemma keeps_with_cache: "keeps (sent_as L) m e \<Longrightarrow> keeps (sent_as L) (with_cache k m) e"
proof -
  assume m: "keeps (sent_as L) m e"
  have "keeps (sent_as L) (bind m (\<lambda>v e w. (Inr v, w\<lparr>cache := store (cache w) k (mono e) v\<rparr>))) e"
    by (rule keeps_bind [OF m]) (simp add: keeps_def sent_as_def)
  then show ?thesis
    by (auto simp: keeps_def with_cache_def split: option.split)
qed

context reading begin

lemmas keeps_reads = keeps_reading keeps_bind keeps_andthen keeps_catch_http keeps_outcome keeps_mapM keeps_if

lemma keeps_dockerhub_pages: "keeps (sent_as L) (dockerhub_pages n url params tags) e"
proof (induction n arbitrary: url params tags)
  case (Suc n)
  then show ?case by (auto intro!: keeps_reads)
qed simp

lemma keeps_ghcr_pages: "keeps (sent_as L) (ghcr_pages n tok url tags) e"
proof (induction n arbitrary: url tags)
  case (Suc n)
  then show ?case by (auto intro!: keeps_reads split: option.split)
qed simp

lemma keeps_registry_tags: "keeps (sent_as L) (registry_tags registry repo) e"
  unfolding registry_tags_def dockerhub_tags_def ghcr_tags_def
  by (intro keeps_with_cache keeps_reads keeps_ghcr_pages)
    (auto intro!: keeps_reads keeps_dockerhub_pages keeps_ghcr_pages split: option.split)

lemma keeps_eol_hit: "keeps (sent_as L) (eol_hit product cycle today) e"
  unfolding eol_hit_def eol_def by (intro keeps_reads keeps_with_cache) simp_all

lemma keeps_mikrotik: "keeps (sent_as L) (mikrotik_latest major) e"
  unfolding mikrotik_latest_def Let_def
  by (intro keeps_reads keeps_with_cache) (auto split: list.split)

lemma keeps_prom: "keeps (sent_as L) (prom query) e"
  unfolding prom_def by (intro keeps_reads) simp_all

lemma keeps_crawl: "keeps (sent_as L) (compose_crawl fuel) e"
  by (auto simp: keeps_def compose_crawl_def Let_def sent_as_def list_all_iff intro!: all_reads_fine split: option.split sum.split)

lemma keeps_os_entry: "keeps (sent_as L) (os_entry today s) e"
  unfolding os_entry_def
  by (auto intro!: keeps_reads keeps_eol_hit split: option.split)

lemma keeps_router_entry: "keeps (sent_as L) (router_entry a b s) e"
  unfolding router_entry_def Let_def by (intro keeps_reads keeps_mikrotik) simp_all

lemma keeps_check_image: "keeps (sent_as L) (check_image today ref) e"
  unfolding check_image_def image_tags_def Let_def
  by (auto intro!: keeps_reads keeps_registry_tags keeps_eol_hit keeps_try_catch
      split: option.split py_exn.split prod.split)

lemma keeps_update_status: "keeps (sent_as L) (update_status fuel today detail) e"
  unfolding update_status_def hosts_def network_def images_def Let_def
  by (auto intro!: keeps_reads keeps_prom keeps_os_entry keeps_router_entry keeps_crawl keeps_check_image split: prod.split)

end

text \<open>Checking for updates only reads: every request of \<open>update_status\<close> is a GET without a body.\<close>

theorem update_status_only_reads:
  assumes "list_all is_read (sent w)"
  shows "list_all is_read (sent (snd (update_status fuel today detail e w)))"
  using keepsD [OF only_reads.keeps_update_status [of fuel today detail e], of w] assms by (simp add: sent_as_def)

theorem update_status_only_reads_witness:
  "list_all is_read (sent (snd (update_status 9 (Date 2026 10 8) False
     \<lparr>answer = (\<lambda>n q. Inl (HTTPX ''ConnectError'')), loads = (\<lambda>_. None), yaml = (\<lambda>_. None), mono = 0, wall = 0\<rparr>
     \<lparr>sent = [], cache = []\<rparr>)))"
  by (rule update_status_only_reads) simp

end
