(* ===== verification/GithubStatus.thy ===== *)
theory GithubStatus
  imports Http TtlCache Moment
begin

text \<open>
  \<open>compose/aws/home-mcp/github_status.py\<close>: pull requests, CI and deploy runs of the three
  repositories, read aloud. Run and pull request objects are the JSON of GitHub's API. The
  label of a voice job (\<open>jobs._label_from_title\<close>) is here because a run's description uses it.
\<close>

section \<open>Fetching\<close>

type_synonym gh_data = "json \<times> json"   \<comment> \<open>open pull requests and workflow runs\<close>

record gh = net +
  gh_cache :: "(string \<times> rat \<times> gh_data) list"

definition gh_repos :: "string list" where
  "gh_repos = [''todo-app'', ''hue'', ''nyc_pa_aws_gitops'']"

definition spoken_names :: "string dict" where
  "spoken_names = [(''nyc_pa_aws_gitops'', ''platform repo''), (''todo-app'', ''todo-app''), (''hue'', ''hue'')]"

definition spoken_repo :: "string \<Rightarrow> string" where
  "spoken_repo r = get_or r r spoken_names"

definition gh_cache_seconds :: rat where
  "gh_cache_seconds = 60"

definition gh_look :: "(string \<times> rat \<times> gh_data) list \<Rightarrow> string \<Rightarrow> rat \<Rightarrow> gh_data option" where
  "gh_look c repo t = (case map_of c repo of
      Some (t0, v) \<Rightarrow> (if t - t0 < gh_cache_seconds then Some v else None)
    | None \<Rightarrow> None)"

definition gh_put :: "(string \<times> rat \<times> gh_data) list \<Rightarrow> string \<Rightarrow> rat \<Rightarrow> gh_data \<Rightarrow> (string \<times> rat \<times> gh_data) list" where
  "gh_put c repo t v = AList.update repo (t, v) c"

interpretation gh: ttl_cache gh_look gh_put "\<lambda>a. a < gh_cache_seconds" "\<lambda>_. True"
  by unfold_locales (auto simp: gh_look_def gh_put_def)

definition gh_api :: string where
  "gh_api = ''https://api.github.com''"

definition gh_get :: "string \<Rightarrow> json dict \<Rightarrow> ('z net_scheme, json) web" where
  "gh_get path params =
     bind (get (gh_api @ path) params) (\<lambda>r.
     if resp_status r \<in> {403, 429} \<and> map_of (resp_headers r) ''x-ratelimit-remaining'' = Some ''0''
     then raise (RateLimited (get_or [] ''x-ratelimit-reset'' (resp_headers r)))
     else andthen (check_status r) (json_of r))"

definition gh_fetch :: "string \<Rightarrow> ('z gh_scheme, gh_data) web" where
  "gh_fetch repo =
     (\<lambda>e w. case gh_look (gh_cache w) repo (mono e) of
        Some v \<Rightarrow> (Inr v, w)
      | None \<Rightarrow>
          bind (gh_get (''/repos/bcalaway/'' @ repo @ ''/pulls'') [(''state'', JStr ''open''), (''per_page'', JInt 20)]) (\<lambda>pulls.
          bind (gh_get (''/repos/bcalaway/'' @ repo @ ''/actions/runs'') [(''per_page'', JInt 30)]) (\<lambda>runs.
          bind (liftR (get_of (JList []) ''workflow_runs'' runs)) (\<lambda>rs.
          (\<lambda>e w. (Inr (pulls, rs), w\<lparr>gh_cache := gh_put (gh_cache w) repo (mono e) (pulls, rs)\<rparr>))))) e w)"

section \<open>Phrases\<close>

text \<open>\<open>_ago\<close>: the time of the text before \<open>now\<close>, a UNIX time.\<close>

definition ago_text :: "int \<Rightarrow> string" where
  "ago_text minutes =
     (if minutes < 1 then ''just now''
      else if minutes < 60 then str_of_int minutes @ '' minute'' @ (if minutes \<noteq> 1 then ''s'' else []) @ '' ago''
      else let hours = minutes div 60 in
        if hours < 48 then str_of_int hours @ '' hour'' @ (if hours \<noteq> 1 then ''s'' else []) @ '' ago''
        else str_of_int (hours div 24) @ '' days ago'')"

definition ago :: "string \<Rightarrow> rat \<Rightarrow> py_exn + string" where
  "ago ts now =
     (case fromisodatetime (replace ''Z'' ''+00:00'' ts) of
        None \<Rightarrow> Inl (PyError ''ValueError'')
      | Some (_, None) \<Rightarrow> Inl (PyError ''TypeError'')
      | Some (t, Some z) \<Rightarrow> Inr (ago_text \<lfloor>(now - timestamp t z) / 60\<rfloor>))"

definition running_states :: "string list" where
  "running_states = [''queued'', ''in_progress'', ''requested'', ''pending'']"

definition conclusion_phrases :: "string dict" where
  "conclusion_phrases =
     [(''success'', ''succeeded''), (''failure'', ''failed''), (''cancelled'', ''was cancelled''),
      (''timed_out'', ''timed out''), (''skipped'', ''was skipped''), (''action_required'', ''needs action'')]"

definition json_or :: "json \<Rightarrow> json \<Rightarrow> json" where
  "json_or x y = (if truthy x then x else y)"

definition run_state :: "json dict \<Rightarrow> string" where
  "run_state r =
     (let st = jget ''status'' r; conclusion = jget ''conclusion'' r in
      if st = JStr ''waiting'' then ''waiting for your approval''
      else if st \<in> JStr ` set running_states then ''running''
      else case map_of conclusion_phrases (str_of conclusion) of
          Some p \<Rightarrow> p
        | None \<Rightarrow> py_str (json_or conclusion (json_or st (JStr ''unknown''))))"

section \<open>What a run was about\<close>

text \<open>\<open>jobs._label\<close>: the job and its argument values.\<close>

definition job_label :: "string \<Rightarrow> json dict \<Rightarrow> string" where
  "job_label job args = join '' '' (job # map (py_str \<circ> snd) args)"

text \<open>\<open>s.rsplit(" [", 1)[0]\<close>.\<close>

fun before_last :: "string \<Rightarrow> string \<Rightarrow> string option" where
  "before_last sep [] = None"
| "before_last sep (c # s) =
     (case before_last sep s of
        Some t \<Rightarrow> Some (c # t)
      | None \<Rightarrow> (if prefix sep (c # s) then Some [] else None))"

definition rsplit_first :: "string \<Rightarrow> string \<Rightarrow> string" where
  "rsplit_first sep s = (case before_last sep s of None \<Rightarrow> s | Some t \<Rightarrow> t)"

text \<open>\<open>jobs._label_from_title\<close>; the first argument is \<open>json.loads\<close>.\<close>

definition label_from_title :: "(string \<Rightarrow> json option) \<Rightarrow> string \<Rightarrow> string" where
  "label_from_title parse title =
     (let body = rsplit_first '' ['' (removeprefix ''voice-job '' title);
          (job, raw) = (case partition1 (CHR '' '') body of None \<Rightarrow> (body, []) | Some p \<Rightarrow> p);
          args = (if raw = [] then [] else case parse raw of Some (JObj d) \<Rightarrow> d | _ \<Rightarrow> [])
      in if job \<noteq> [] then job_label job args else ''the job'')"

definition first_line_of :: "json \<Rightarrow> string" where
  "first_line_of j = (case splitlines (str_of j) of [] \<Rightarrow> [] | l # _ \<Rightarrow> l)"

definition merge_prefix :: string where
  "merge_prefix = ''Merge pull request #''"

definition what_of_message :: "string \<Rightarrow> string" where
  "what_of_message first =
     (let d = takeWhile is_digit (drop (length merge_prefix) first) in
      if prefix merge_prefix first \<and> d \<noteq> [] then ''PR #'' @ d
      else if length first > 50 then take 50 first @ ''...'' else first)"

definition what :: "(string \<Rightarrow> json option) \<Rightarrow> json dict \<Rightarrow> py_exn + string" where
  "what parse r =
     (let title = str_of (jget ''display_title'' r) in
      if prefix ''voice-job '' title then Inr (label_from_title parse title)
      else case (jget ''event'' r = JStr ''pull_request'', jget ''pull_requests'' r) of
          (True, JList (p # _)) \<Rightarrow> bindR (item_of ''number'' p) (\<lambda>n. Inr (''PR #'' @ py_str n))
        | _ \<Rightarrow> Inr (what_of_message (first_line_of (jget ''message'' (sub_obj ''head_commit'' r)))))"

section \<open>Pull requests\<close>

definition sha_of :: "json dict \<Rightarrow> py_exn + json" where
  "sha_of p = bindR (item_of ''head'' (JObj p)) (item_of ''sha'')"

definition preview_runs :: "json \<Rightarrow> json dict list \<Rightarrow> json dict list" where
  "preview_runs sha runs = [r \<leftarrow> runs. jget ''name'' r = JStr ''Preview'' \<and> jget ''head_sha'' r = sha]"

definition pr_preview :: "string \<Rightarrow> json dict \<Rightarrow> json dict list \<Rightarrow> py_exn + string" where
  "pr_preview repo p runs =
     bindR (sha_of p) (\<lambda>sha.
     case preview_runs sha runs of
       [] \<Rightarrow> Inr []
     | r # _ \<Rightarrow>
         bindR (item_of ''number'' (JObj p)) (\<lambda>n.
         Inr (if run_state r = ''succeeded'' then
                '', preview at '' @ repo @ ''-pr'' @ py_str n @ ''.preview.billandjessie.com''
              else if run_state r = ''running'' then '', preview deploying''
              else if run_state r = ''failed'' then '', preview failed'' else [])))"

definition ci_runs :: "json \<Rightarrow> json dict list \<Rightarrow> json dict list" where
  "ci_runs sha runs =
     [r \<leftarrow> runs. jget ''head_sha'' r = sha \<and> jget ''event'' r = JStr ''pull_request'' \<and> jget ''name'' r \<noteq> JStr ''Preview'']"

definition ci_phrase :: "string list \<Rightarrow> string" where
  "ci_phrase states =
     (if states = [] then ''no CI yet''
      else if ''failed'' \<in> set states \<or> ''timed out'' \<in> set states then ''CI failed''
      else if ''running'' \<in> set states then ''CI running''
      else if set states \<subseteq> {''succeeded'', ''was skipped''} then ''CI passed''
      else ''CI '' @ join '', '' (sorted_set states))"

definition pr_ci :: "json dict \<Rightarrow> json dict list \<Rightarrow> py_exn + string" where
  "pr_ci p runs = bindR (sha_of p) (\<lambda>sha. Inr (ci_phrase (map run_state (ci_runs sha runs))))"

section \<open>One repository\<close>

definition is_waiting :: "json dict \<Rightarrow> bool" where
  "is_waiting r \<longleftrightarrow> jget ''status'' r = JStr ''waiting''"

definition on_main :: "json dict \<Rightarrow> bool" where
  "on_main r \<longleftrightarrow> jget ''head_branch'' r = JStr ''main'' \<and>
     jget ''event'' r \<in> {JStr ''push'', JStr ''workflow_dispatch''} \<and> \<not> is_waiting r"

text \<open>\<open>latest.setdefault(r["name"], r)\<close> over the runs: the first run of each name.\<close>

fun latest_runs :: "json dict list \<Rightarrow> (json \<times> json dict) list \<Rightarrow> py_exn + (json \<times> json dict) list" where
  "latest_runs [] latest = Inr latest"
| "latest_runs (r # rs) latest =
     (if on_main r then
        bindR (item_of ''name'' (JObj r)) (\<lambda>n.
        latest_runs rs (if n \<in> set (keys latest) then latest else latest @ [(n, r)]))
      else latest_runs rs latest)"

definition max_prs :: nat where
  "max_prs = 3"

definition pr_line :: "string \<Rightarrow> json dict list \<Rightarrow> json dict \<Rightarrow> py_exn + string" where
  "pr_line repo runs p =
     bindR (item_of ''number'' (JObj p)) (\<lambda>n. bindR (item_of ''title'' (JObj p)) (\<lambda>title.
     bindR (pr_ci p runs) (\<lambda>ci. bindR (pr_preview repo p runs) (\<lambda>pv.
     Inr (''#'' @ py_str n @ '' '' @ take 60 (str_of title) @ '' ('' @ ci @ pv @ '')'')))))"

definition waiting_line :: "(string \<Rightarrow> json option) \<Rightarrow> json dict \<Rightarrow> py_exn + string" where
  "waiting_line parse r =
     bindR (item_of ''name'' (JObj r)) (\<lambda>n. bindR (what parse r) (\<lambda>x. Inr (py_str n @ '' for '' @ x)))"

definition main_line :: "(string \<Rightarrow> json option) \<Rightarrow> rat \<Rightarrow> json dict \<Rightarrow> py_exn + string" where
  "main_line parse now r =
     bindR (waiting_line parse r) (\<lambda>l. bindR (item_of ''created_at'' (JObj r)) (\<lambda>t. bindR (ago (str_of t) now) (\<lambda>a.
     Inr (l @ '': '' @ run_state r @ '', '' @ a))))"

definition created_at :: "json dict \<Rightarrow> string" where
  "created_at r = str_of (jget ''created_at'' r)"

text \<open>\<open>sorted(..., key=..., reverse=True)\<close> keeps the order of equal keys.\<close>

definition newest_first :: "json dict list \<Rightarrow> json dict list" where
  "newest_first rs = rev (sort_key created_at (rev rs))"

definition objects :: "json \<Rightarrow> json dict list" where
  "objects j = (case j of JList l \<Rightarrow> [d. JObj d \<leftarrow> l] | _ \<Rightarrow> [])"

definition summarize :: "(string \<Rightarrow> json option) \<Rightarrow> string \<Rightarrow> gh_data \<Rightarrow> rat \<Rightarrow> py_exn + string" where
  "summarize parse repo data now =
     (let pulls = objects (fst data); runs = objects (snd data) in
      bindR (mapR (waiting_line parse) (filter is_waiting runs)) (\<lambda>waiting.
      bindR (if pulls = [] then Inr ''no open PRs''
             else bindR (mapR (pr_line repo runs) (take max_prs pulls)) (\<lambda>shown.
               Inr (str_of_nat (length pulls) @ '' open PR'' @ plural (length pulls) @ '': '' @ join ''; '' shown @
                 (if length pulls > max_prs then '', plus '' @ str_of_nat (length pulls - max_prs) @ '' more'' else [])))) (\<lambda>prs.
      bindR (latest_runs runs []) (\<lambda>latest.
      bindR (mapR (\<lambda>(_, r). item_of ''created_at'' (JObj r)) latest) (\<lambda>_.
      bindR (mapR (main_line parse now) (take 3 (newest_first (map snd latest)))) (\<lambda>main.
      Inr (spoken_repo repo @ '': '' @ join ''. ''
        (map (\<lambda>w. w @ '' is waiting for your approval'') waiting @ [prs] @
         (if latest \<noteq> [] then [''On main: '' @ join ''; '' main] else [])) @ ''.'')))))))"

section \<open>The tools\<close>

definition wanted_repos :: "string dict" where
  "wanted_repos = map (\<lambda>r. (lower r, r)) (rev gh_repos) @ map (\<lambda>(k, v). (lower v, k)) (rev spoken_names)"

definition resolve_repo :: "string \<Rightarrow> string option" where
  "resolve_repo repo =
     (case map_of wanted_repos (lower repo) of
        Some k \<Rightarrow> Some k
      | None \<Rightarrow> map_of wanted_repos (replace '' '' ''-'' (lower repo)))"

definition rate_limit_line :: "string \<Rightarrow> string \<Rightarrow> rat \<Rightarrow> string" where
  "rate_limit_line name reset now =
     name @ '': GitHub's rate limit is used up'' @
     (if reset \<noteq> [] \<and> all_digits reset then
        '', try again in about '' @ str_of_int (max 1 (\<lfloor>(of_nat (nat_of_str reset) - now) / 60\<rfloor> + 1)) @ '' minutes''
      else []) @ ''.''"

definition repo_line :: "(string \<Rightarrow> json option) \<Rightarrow> rat \<Rightarrow> string \<times> (py_exn + gh_data) \<Rightarrow> py_exn + string" where
  "repo_line parse now rr =
     (case rr of (r, res) \<Rightarrow>
       (case res of
          Inl (RateLimited reset) \<Rightarrow> Inr (rate_limit_line (spoken_repo r) reset now)
        | Inl x \<Rightarrow> Inr (spoken_repo r @ '': couldn't reach GitHub ('' @ exn_name x @ '').'')
        | Inr data \<Rightarrow> summarize parse r data now))"

definition report_repos :: "string list \<Rightarrow> (gh, string) web" where
  "report_repos repos =
     bind (mapM (\<lambda>r. outcome (gh_fetch r)) repos) (\<lambda>results.
     bind (ask loads) (\<lambda>parse. bind (ask wall) (\<lambda>now.
     bind (liftR (mapR (repo_line parse now) (zip repos results))) (\<lambda>lines. ret (join '' '' lines)))))"

definition github_status :: "string \<Rightarrow> (gh, string) web" where
  "github_status repo0 =
     (let repo = strip repo0 in
      if repo \<noteq> [] then
        (case resolve_repo repo of
           None \<Rightarrow> ret (''I can check '' @ join '', '' (map spoken_repo gh_repos) @ ''.'')
         | Some k \<Rightarrow>
             (if k \<notin> set gh_repos then ret (''I can check '' @ join '', '' (map spoken_repo gh_repos) @ ''.'')
              else report_repos [k]))
      else report_repos gh_repos)"

definition pending_approvals :: "(gh, string list option) web" where
  "pending_approvals =
     bind (mapM (\<lambda>r. outcome (gh_fetch r)) gh_repos) (\<lambda>results.
     if list_all isl results then ret None
     else bind (ask loads) (\<lambda>parse.
       bind (liftR (mapR (\<lambda>(repo, res). case res of
            Inl _ \<Rightarrow> Inr []
          | Inr data \<Rightarrow> mapR (\<lambda>r. bindR (waiting_line parse r) (\<lambda>l. Inr (spoken_repo repo @ '' '' @ l)))
              (filter is_waiting (objects (snd data)))) (zip gh_repos results))) (\<lambda>ls. ret (Some (concat ls)))))"

section \<open>What the phrases say\<close>

lemma join_comma_word:
  assumes "join '', '' xs = s" and "CHR '','' \<notin> set s" and "s \<noteq> []"
  shows "xs = [s]"
proof (cases xs)
  case (Cons x ys)
  show ?thesis
  proof (cases ys)
    case (Cons y zs)
    then have "CHR '','' \<in> set (join '', '' xs)"
      using \<open>xs = x # ys\<close> by simp
    then show ?thesis using assms by simp
  qed (use assms Cons in simp)
qed (use assms in simp)

lemma ci_phrase_passed:
  "ci_phrase states = ''CI passed'' \<longleftrightarrow>
     states \<noteq> [] \<and> (set states \<subseteq> {''succeeded'', ''was skipped''} \<or> set states = {''passed''})"
proof (cases "states = [] \<or> ''failed'' \<in> set states \<or> ''timed out'' \<in> set states \<or> ''running'' \<in> set states \<or>
    set states \<subseteq> {''succeeded'', ''was skipped''}")
  case True
  have no: "\<not> (set states \<subseteq> {''succeeded'', ''was skipped''} \<or> set states = {''passed''})"
    if "x \<in> set states" "x \<noteq> ''succeeded''" "x \<noteq> ''was skipped''" "x \<noteq> ''passed''" for x
    using that by blast
  consider "states = []" | "''failed'' \<in> set states \<or> ''timed out'' \<in> set states"
    | "\<not> (''failed'' \<in> set states \<or> ''timed out'' \<in> set states)" "''running'' \<in> set states"
    | "states \<noteq> []" "set states \<subseteq> {''succeeded'', ''was skipped''}"
    using True by argo
  then show ?thesis
  proof cases
    case 2
    then have "\<not> (set states \<subseteq> {''succeeded'', ''was skipped''} \<or> set states = {''passed''})"
      using no [of "''failed''"] no [of "''timed out''"] by (elim disjE) simp_all
    then show ?thesis using 2 by (simp add: ci_phrase_def)
  next
    case 3
    then show ?thesis using no [of "''running''"] by (simp add: ci_phrase_def)
  next
    case 4
    then have "''failed'' \<notin> set states" "''timed out'' \<notin> set states" "''running'' \<notin> set states"
      by (auto dest!: subsetD)
    then show ?thesis using 4 by (simp add: ci_phrase_def)
  qed (simp add: ci_phrase_def)
next
  case False
  then have c: "ci_phrase states = ''CI '' @ join '', '' (sorted_set states)"
    by (simp add: ci_phrase_def)
  have "ci_phrase states = ''CI passed'' \<longleftrightarrow> join '', '' (sorted_set states) = ''passed''"
    unfolding c by simp
  also have "\<dots> \<longleftrightarrow> sorted_set states = [''passed'']"
    using join_comma_word [of "sorted_set states" "''passed''"] by auto
  also have "\<dots> \<longleftrightarrow> set states = {''passed''}"
  proof
    assume one: "set states = {''passed''}"
    then show "sorted_set states = [''passed'']"
      by (intro sorted_set_eqI) simp_all
  qed (metis set_sorted_set empty_set list.simps(15))
  finally show ?thesis using False by auto
qed

text \<open>A pull request is said to have passed CI exactly when runs of CI for its head commit exist and
  every one of them succeeded or was skipped (or GitHub itself calls each of them \<open>passed\<close>,
  which is none of its documented conclusions).\<close>

theorem pr_ci_passed_iff:
  "pr_ci p runs = Inr ''CI passed'' \<longleftrightarrow>
     (\<exists>sha. sha_of p = Inr sha \<and> ci_runs sha runs \<noteq> [] \<and>
       (run_state ` set (ci_runs sha runs) \<subseteq> {''succeeded'', ''was skipped''} \<or>
        run_state ` set (ci_runs sha runs) = {''passed''}))"
  by (cases "sha_of p") (auto simp: pr_ci_def ci_phrase_passed)

section \<open>The cache and the requests\<close>

text \<open>Asking again within a minute costs nothing: after a successful fetch, the next one within 60
  seconds gives the same data and sends no request.\<close>

theorem gh_fetch_cached:
  assumes "gh_fetch repo e w = (Inr data, w')" and "gh_look (gh_cache w) repo (mono e) = None"
    and "mono e' - mono e < 60"
  shows "gh_fetch repo e' w' = (Inr data, w')"
proof -
  obtain c where "gh_cache w' = gh_put c repo (mono e) data"
    using assms(1,2) by (auto simp: gh_fetch_def bind_def split: prod.splits sum.splits)
  then have "gh_look (gh_cache w') repo (mono e') = Some data"
    using assms(3) by (simp add: gh.look_fresh gh_cache_seconds_def)
  then show ?thesis
    by (simp add: gh_fetch_def)
qed

definition quiet_env :: http_env where
  "quiet_env = \<lparr>answer = (\<lambda>n q. Inr (Response 200 [] [])), loads = (\<lambda>_. Some (JObj [])), yaml = (\<lambda>_. None),
     mono = 1000, wall = 0\<rparr>"

theorem gh_fetch_cached_witness:
  "gh_fetch ''hue'' quiet_env \<lparr>sent = [], gh_cache = []\<rparr> =
     (Inr (JObj [], JList []), snd (gh_fetch ''hue'' quiet_env \<lparr>sent = [], gh_cache = []\<rparr>)) \<and>
   gh_fetch ''hue'' (quiet_env\<lparr>mono := 1059\<rparr>) (snd (gh_fetch ''hue'' quiet_env \<lparr>sent = [], gh_cache = []\<rparr>)) =
     (Inr (JObj [], JList []), snd (gh_fetch ''hue'' quiet_env \<lparr>sent = [], gh_cache = []\<rparr>))"
proof -
  have run: "gh_fetch ''hue'' quiet_env \<lparr>sent = [], gh_cache = []\<rparr> =
     (Inr (JObj [], JList []), snd (gh_fetch ''hue'' quiet_env \<lparr>sent = [], gh_cache = []\<rparr>))"
    by (simp add: gh_fetch_def gh_look_def gh_get_def get_def send_def bind_def andthen_def check_status_def
        json_of_def quiet_env_def ret_def liftR_def get_of_def get_or_def)
  then show ?thesis
    using gh_fetch_cached [OF run, of "quiet_env\<lparr>mono := 1059\<rparr>"]
    by (simp add: gh_look_def quiet_env_def)
qed

text \<open>GitHub is asked anonymously: every request of the two tools is a GET to the API without a token.\<close>

definition anonymous :: "request \<Rightarrow> bool" where
  "anonymous q \<longleftrightarrow> req_method q = ''GET'' \<and> prefix gh_api (req_url q) \<and> req_bearer q = None \<and> req_body q = None"

lemma keeps_gh_get: "keeps (sends anonymous) (gh_get path params) e"
  unfolding gh_get_def by (intro keeps_http) (auto simp: anonymous_def)

lemma keeps_gh_fetch: "keeps (sends anonymous) (gh_fetch repo) e"
proof -
  have "keeps (sends anonymous)
    (bind (gh_get (''/repos/bcalaway/'' @ repo @ ''/pulls'') [(''state'', JStr ''open''), (''per_page'', JInt 20)]) (\<lambda>pulls.
     bind (gh_get (''/repos/bcalaway/'' @ repo @ ''/actions/runs'') [(''per_page'', JInt 30)]) (\<lambda>runs.
     bind (liftR (get_of (JList []) ''workflow_runs'' runs)) (\<lambda>rs.
     (\<lambda>e w. (Inr (pulls, rs), w\<lparr>gh_cache := gh_put (gh_cache w) repo (mono e) (pulls, rs)\<rparr>))))))  e"
    by (intro keeps_bind keeps_gh_get keeps_pure) (simp add: keeps_def sends_def)
  then show ?thesis
    by (auto simp: keeps_def gh_fetch_def split: option.split)
qed

text \<open>\<open>github_status\<close> and \<open>pending_approvals\<close> only read, and anonymously: every request is a GET to
  GitHub's API without a token.\<close>

theorem github_status_anonymous:
  assumes "list_all anonymous (sent w)"
  shows "list_all anonymous (sent (snd (github_status repo e w))) \<and>
    list_all anonymous (sent (snd (pending_approvals e w)))"
proof -
  have r: "keeps (sends anonymous) (report_repos rs) e" for rs
    unfolding report_repos_def by (intro keeps_http keeps_gh_fetch keeps_pure)
  then have "keeps (sends anonymous) (github_status repo) e"
    by (auto simp: github_status_def Let_def split: option.split)
  moreover have "keeps (sends anonymous) pending_approvals e"
    unfolding pending_approvals_def by (intro keeps_http keeps_gh_fetch keeps_pure)
  ultimately show ?thesis
    using assms by (simp add: keeps_def sends_def)
qed

theorem github_status_anonymous_witness:
  "list_all anonymous (sent (snd (github_status [] quiet_env \<lparr>sent = [], gh_cache = []\<rparr>)))"
  using github_status_anonymous [of "\<lparr>sent = [], gh_cache = []\<rparr>"] by simp

end
