(* ===== verification/DeployReport.thy ===== *)
theory DeployReport
  imports GithubStatus
begin

text \<open>
  \<open>compose/aws/home-mcp/deploys.py\<close>: what the latest deploys did, from the annotations of their runs. The
  state adds the cache of the annotations of completed runs to that of \<open>GithubStatus\<close>.
\<close>

record deploys_state = gh +
  notes_cache :: "(json \<times> rat \<times> string list) list"

definition watched_deploys :: "(string \<times> string) list" where
  "watched_deploys =
    [(''nyc_pa_aws_gitops'', ''Platform release''), (''todo-app'', ''CD''), (''hue'', ''CD''), (''mkt-data'', ''CD''),
     (''calendar-svc'', ''CD''), (''secmaster-svc'', ''CD''), (''quote-svc'', ''CD''), (''mkt-api'', ''CD''), (''mkt-ui'', ''CD'')]"

definition notes_seconds :: rat where
  "notes_seconds = 120"

definition notes_look :: "(json \<times> rat \<times> string list) list \<Rightarrow> json \<Rightarrow> rat \<Rightarrow> string list option" where
  "notes_look c i t = (case map_of c i of
      Some (t0, v) \<Rightarrow> (if t - t0 < notes_seconds then Some v else None)
    | None \<Rightarrow> None)"

definition notes_put :: "(json \<times> rat \<times> string list) list \<Rightarrow> json \<Rightarrow> rat \<Rightarrow> string list \<Rightarrow> (json \<times> rat \<times> string list) list" where
  "notes_put c i t v = AList.update i (t, v) c"

interpretation run_notes: ttl_cache notes_look notes_put "\<lambda>a. a < notes_seconds" "\<lambda>_. True"
  by unfold_locales (auto simp: notes_look_def notes_put_def)

section \<open>The annotations of a run\<close>

definition repo_path :: "string \<Rightarrow> string" where
  "repo_path repo = ''/repos/bcalaway/'' @ repo"

text \<open>A job that ran.\<close>

definition job_ran :: "json \<Rightarrow> py_exn + bool" where
  "job_ran j =
     bindR (get_of JNull ''conclusion'' j) (\<lambda>c. bindR (get_of JNull ''started_at'' j) (\<lambda>s.
     Inr (c \<noteq> JStr ''skipped'' \<and> truthy s)))"

definition result_note :: "json \<Rightarrow> json \<Rightarrow> py_exn + string list" where
  "result_note j a =
     bindR (get_of JNull ''title'' a) (\<lambda>title.
     if title \<noteq> JStr ''result'' then Inr []
     else bindR (item_of ''name'' j) (\<lambda>name. bindR (get_of (JStr []) ''message'' a) (\<lambda>m.
     case m of
       JStr s \<Rightarrow> Inr [py_str name @ '': '' @ strip s]
     | _ \<Rightarrow> Inl (PyError ''AttributeError''))))"

definition job_notes :: "string \<Rightarrow> json \<Rightarrow> ('z net_scheme, string list) web" where
  "job_notes repo j =
     bind (liftR (job_ran j)) (\<lambda>ran.
     if \<not> ran then ret []
     else
       bind (liftR (item_of ''id'' j)) (\<lambda>i.
       bind (gh_get (repo_path repo @ ''/check-runs/'' @ py_str i @ ''/annotations'') []) (\<lambda>anns.
       liftR (bindR (iter_of anns) (\<lambda>al. bindR (mapR (result_note j) al) (\<lambda>rs. Inr (concat rs)))))))"

definition run_results :: "string \<Rightarrow> json dict \<Rightarrow> (deploys_state, string list) web" where
  "run_results repo r =
     bind (liftR (item_of ''id'' (JObj r))) (\<lambda>i.
     (\<lambda>e w. case notes_look (notes_cache w) i (mono e) of
        Some v \<Rightarrow> (Inr v, w)
      | None \<Rightarrow>
          bind (gh_get (repo_path repo @ ''/actions/runs/'' @ py_str i @ ''/jobs'') []) (\<lambda>jobs.
          bind (liftR (bindR (get_of (JList []) ''jobs'' jobs) iter_of)) (\<lambda>js.
          bind (mapM (job_notes repo) js) (\<lambda>ns.
          let out = concat ns in
          if jget ''status'' r = JStr ''completed''
          then andthen (modify (\<lambda>w. w\<lparr>notes_cache := notes_put (notes_cache w) i (mono e) out\<rparr>)) (ret out)
          else ret out))) e w))"

section \<open>One deploy\<close>

definition deploy_name :: "string \<times> string \<Rightarrow> string" where
  "deploy_name d = spoken_repo (fst d) @ '' '' @ snd d"

definition is_deploy_run :: "string \<Rightarrow> json dict \<Rightarrow> bool" where
  "is_deploy_run workflow r \<longleftrightarrow> jget ''name'' r = JStr workflow \<and> jget ''head_branch'' r = JStr ''main'' \<and>
     jget ''event'' r \<in> {JStr ''push'', JStr ''workflow_dispatch''}"

definition run_object :: "json \<Rightarrow> py_exn + json dict" where
  "run_object j = (case j of JObj d \<Rightarrow> Inr d | _ \<Rightarrow> Inl (PyError ''AttributeError''))"

definition created_at :: "json dict \<Rightarrow> py_exn + string" where
  "created_at r = bindR (item_of ''created_at'' (JObj r)) (\<lambda>c.
     case c of JStr s \<Rightarrow> Inr s | _ \<Rightarrow> Inl (PyError ''AttributeError''))"

definition deploy_head :: "(string \<Rightarrow> json option) \<Rightarrow> rat \<Rightarrow> string \<times> string \<Rightarrow> json dict \<Rightarrow> py_exn + string" where
  "deploy_head parse now d r =
     bindR (what parse r) (\<lambda>x. bindR (created_at r) (\<lambda>c. bindR (ago c now) (\<lambda>a.
     Inr (deploy_name d @ '' for '' @ x @ '' '' @ run_state r @ '', '' @ a))))"

definition deploy_text :: "string \<Rightarrow> json dict \<Rightarrow> string list \<Rightarrow> string" where
  "deploy_text head r results =
     (if results = [] then head @ ''.'' @ (if jget ''status'' r \<noteq> JStr ''completed'' then [] else '' Nothing to report (no deploy steps ran).'')
      else head @ '':'' @ [newline] @ ''  '' @ join ([newline] @ ''  '') results)"

definition one_deploy :: "string \<times> string \<Rightarrow> (deploys_state, string) web" where
  "one_deploy d =
     bind (gh_fetch (fst d)) (\<lambda>(pulls, runs).
     bind (liftR (bindR (iter_of runs) (mapR run_object))) (\<lambda>rs.
     case filter (is_deploy_run (snd d)) rs of
       [] \<Rightarrow> ret (deploy_name d @ '': no recent run on main.'')
     | r # _ \<Rightarrow>
         bind (ask id) (\<lambda>e.
         bind (liftR (deploy_head (loads e) (wall e) d r)) (\<lambda>head.
         bind (run_results (fst d) r) (\<lambda>results. ret (deploy_text head r results))))))"

section \<open>The tool\<close>

definition watched_for :: "string \<Rightarrow> (string \<times> string) list" where
  "watched_for repo =
     filter (\<lambda>d. repo = [] \<or> lower (strip repo) \<in> {lower (fst d), lower (spoken_repo (fst d))}) watched_deploys"

definition deploy_line :: "(string \<times> string) \<times> (py_exn + string) \<Rightarrow> string" where
  "deploy_line x = (case x of (d, r) \<Rightarrow> (case r of
      Inr s \<Rightarrow> s
    | Inl (RateLimited _) \<Rightarrow> deploy_name d @ '': GitHub's rate limit is used up.''
    | Inl y \<Rightarrow> deploy_name d @ '': couldn't reach GitHub ('' @ exn_name y @ '').''))"

definition last_deploys :: "string \<Rightarrow> (deploys_state, string) web" where
  "last_deploys repo =
     (let watched = watched_for repo in
      if watched = [] then
        ret (''I track deploys for: '' @ join '', '' (sorted_set (map (spoken_repo \<circ> fst) watched_deploys)) @ ''.'')
      else
        bind (mapM (\<lambda>d. outcome (one_deploy d)) watched) (\<lambda>res.
        ret (join [newline] (map deploy_line (zip watched res)))))"

section \<open>Every deploy is answered for\<close>

lemma returns_outcome: "\<exists>r w'. outcome m e w = (Inr r, w') \<and> (case r of Inl x \<Rightarrow> \<exists>w1. m e w = (Inl x, w1) | Inr a \<Rightarrow> \<exists>w1. m e w = (Inr a, w1))"
  by (cases "m e w"; cases "fst (m e w)") (auto simp: outcome_def try_catch_def bind_def ret_def)

lemma deploy_head_name: "deploy_head parse now d r = Inr head \<Longrightarrow> prefix (deploy_name d) head"
  by (auto simp: deploy_head_def bindR_Inr)

lemma one_deploy_name: "one_deploy d e w = (Inr s, w') \<Longrightarrow> prefix (deploy_name d) s"
  by (auto simp: one_deploy_def bind_def liftR_def ask_def ret_def deploy_text_def
      split: prod.splits sum.splits list.splits if_splits dest!: deploy_head_name intro: prefix_prefix)

lemma deploy_lines:
  "\<exists>res w'. mapM (\<lambda>d. outcome (one_deploy d)) ds e w = (Inr res, w') \<and> length res = length ds \<and>
    list_all2 (\<lambda>d l. prefix (deploy_name d) l) ds (map deploy_line (zip ds res))"
proof (induction ds arbitrary: w)
  case Nil
  then show ?case by (simp add: ret_def)
next
  case (Cons d ds)
  obtain r w1 where r: "outcome (one_deploy d) e w = (Inr r, w1)"
    and s: "case r of Inl x \<Rightarrow> \<exists>w1. one_deploy d e w = (Inl x, w1) | Inr a \<Rightarrow> \<exists>w1. one_deploy d e w = (Inr a, w1)"
    using returns_outcome [of "one_deploy d" e w] by (elim exE conjE) (rule that)
  obtain res w' where rest: "mapM (\<lambda>d. outcome (one_deploy d)) ds e w1 = (Inr res, w')" "length res = length ds"
    "list_all2 (\<lambda>d l. prefix (deploy_name d) l) ds (map deploy_line (zip ds res))"
    using Cons.IH [of w1] by blast
  have "prefix (deploy_name d) (deploy_line (d, r))"
    using s one_deploy_name [of d e w] by (cases r) (auto simp: deploy_line_def split: py_exn.split)
  then show ?case
    using r rest by (simp add: bind_def ret_def)
qed

text \<open>The tool always answers, whatever GitHub returns and however the reading of a deploy ends: with one
  paragraph per watched deploy, in the order of the list, each led by the deploy's name; a deploy
  that could not be read does not hide the others.\<close>

theorem last_deploys_total:
  "\<exists>lines w'. last_deploys repo e w = (Inr (join [newline] lines), w') \<and>
     (if watched_for repo = [] then \<exists>names. lines = [''I track deploys for: '' @ names @ ''.'']
      else list_all2 (\<lambda>d l. prefix (deploy_name d) l) (watched_for repo) lines)"
proof (cases "watched_for repo = []")
  case True
  then show ?thesis
    by (intro exI [of _ "[''I track deploys for: '' @ join '', '' (sorted_set (map (spoken_repo \<circ> fst) watched_deploys)) @ ''.'']"])
      (simp add: last_deploys_def ret_def)
next
  case False
  obtain res w' where "mapM (\<lambda>d. outcome (one_deploy d)) (watched_for repo) e w = (Inr res, w')"
    "list_all2 (\<lambda>d l. prefix (deploy_name d) l) (watched_for repo) (map deploy_line (zip (watched_for repo) res))"
    using deploy_lines by blast
  then show ?thesis
    using False by (intro exI [of _ "map deploy_line (zip (watched_for repo) res)"] exI [of _ w'])
      (simp add: last_deploys_def bind_def ret_def Let_def)
qed

end
