(* ===== verification/VoiceJobs.thy ===== *)
theory VoiceJobs
  imports GithubStatus "HOL-Library.Word"
begin

text \<open>
  \<open>compose/aws/home-mcp/jobs.py\<close>: named jobs by voice. The module's globals are the state: the
  registry as last read, the last request, and the token check; its settings are \<open>jobs_cfg\<close>.
  The random part of a request identifier is an argument.
\<close>

record jobs_cfg =
  jobs_enabled :: bool
  jobs_token :: string

record jobs = net +
  registry :: "rat \<times> json"
  last_id :: string
  last_label :: string
  token_health :: "rat \<times> string list"

text \<open>\<open>ENABLED\<close> and \<open>TOKEN\<close> from the environment variables.\<close>

definition jobs_settings :: "string \<Rightarrow> string \<Rightarrow> jobs_cfg" where
  "jobs_settings enabled tok =
     \<lparr>jobs_enabled = (lower enabled = ''true''), jobs_token = (if tok = ''none'' then [] else tok)\<rparr>"

definition jobs_repo :: string where
  "jobs_repo = ''bcalaway/nyc_pa_aws_gitops''"

definition registry_url :: string where
  "registry_url = ''https://raw.githubusercontent.com/'' @ jobs_repo @ ''/main/jobs/registry.yml''"

section \<open>The registry\<close>

definition registry_seconds :: rat where
  "registry_seconds = 600"

definition registry_look :: "rat \<times> json \<Rightarrow> unit \<Rightarrow> rat \<Rightarrow> json option" where
  "registry_look c u t = (if truthy (snd c) \<and> t - fst c < registry_seconds then Some (snd c) else None)"

definition registry_put :: "rat \<times> json \<Rightarrow> unit \<Rightarrow> rat \<Rightarrow> json \<Rightarrow> rat \<times> json" where
  "registry_put c u t v = (t, v)"

interpretation jobs_registry: ttl_cell registry_look registry_put "\<lambda>a. a < registry_seconds" truthy
  by unfold_locales (auto simp: registry_look_def registry_put_def)

definition load_registry :: "(jobs, json) web" where
  "load_registry =
     (\<lambda>e w. case registry_look (registry w) () (mono e) of
        Some v \<Rightarrow> (Inr v, w)
      | None \<Rightarrow>
          bind (get_ok registry_url []) (\<lambda>r.
          (\<lambda>e w. case yaml e (resp_text r) of
             None \<Rightarrow> (Inl (PyError ''YAMLError''), w)
           | Some j \<Rightarrow> (let v = json_or j (JObj []) in
               (Inr v, w\<lparr>registry := registry_put (registry w) () (mono e) v\<rparr>)))) e w)"

definition items_of :: "json \<Rightarrow> py_exn + json dict" where
  "items_of j = (case j of JObj d \<Rightarrow> Inr d | _ \<Rightarrow> Inl (PyError ''AttributeError''))"

definition list_entry :: "string \<times> json \<Rightarrow> py_exn + string" where
  "list_entry kv = (case kv of (name, spec) \<Rightarrow>
     bindR (get_of (JStr name) ''say'' spec) (\<lambda>say. bindR (get_of (JStr []) ''description'' spec) (\<lambda>d.
     Inr (py_str say @ '': '' @ py_str d))))"

definition list_jobs :: "jobs_cfg \<Rightarrow> (jobs, string) web" where
  "list_jobs cfg =
     catch_http
       (bind load_registry (\<lambda>reg.
        bind (liftR (bindR (items_of reg) (mapR list_entry))) (\<lambda>parts.
        ret (''I can run: '' @ join ''; '' parts @ ''. Every job waits for your approval in GitHub before it runs.'' @
          (if \<not> jobs_enabled cfg \<or> jobs_token cfg = []
           then '' Jobs are switched off right now, so I can list them but not start them.'' else [])))))
       (\<lambda>n. ret (''I couldn't read the job list from GitHub ('' @ n @ '').''))"

section \<open>Starting a job\<close>

definition hex8 :: "32 word \<Rightarrow> string" where
  "hex8 w = map (\<lambda>k. hex_digit (unat w div 16 ^ k mod 16)) [7, 6, 5, 4, 3, 2, 1, 0]"

definition request_id :: "32 word \<Rightarrow> string" where
  "request_id rnd = ''vj-'' @ hex8 rnd"

text \<open>\<open>args.get(name) in values\<close>, for whatever YAML put there.\<close>

definition among :: "string option \<Rightarrow> json \<Rightarrow> py_exn + bool" where
  "among arg values = (case values of
      JList l \<Rightarrow> Inr ((case arg of None \<Rightarrow> JNull | Some v \<Rightarrow> JStr v) \<in> set l)
    | JObj d \<Rightarrow> Inr (case arg of None \<Rightarrow> False | Some v \<Rightarrow> v \<in> set (keys d))
    | JStr s \<Rightarrow> (case arg of None \<Rightarrow> Inl (PyError ''TypeError'') | Some v \<Rightarrow> Inr (sublist v s))
    | _ \<Rightarrow> Inl (PyError ''TypeError''))"

text \<open>The first argument of the registry whose value is not one of the listed ones.\<close>

fun first_refused :: "string dict \<Rightarrow> json dict \<Rightarrow> py_exn + (string \<times> json) option" where
  "first_refused args [] = Inr None"
| "first_refused args ((name, values) # allowed) =
     bindR (among (map_of args name) values) (\<lambda>ok.
     if ok then first_refused args allowed else Inr (Some (name, values)))"

definition ordered_args :: "string dict \<Rightarrow> json dict \<Rightarrow> py_exn + string dict" where
  "ordered_args args allowed =
     mapR (\<lambda>(name, _). case map_of args name of
        None \<Rightarrow> Inl (PyError ''KeyError'') | Some v \<Rightarrow> Inr (name, v)) allowed"

definition value_texts :: "json \<Rightarrow> py_exn + string list" where
  "value_texts values =
     bindR (iter_of values) (mapR (\<lambda>j. case j of JStr s \<Rightarrow> Inr s | _ \<Rightarrow> Inl (PyError ''TypeError'')))"

text \<open>The checks on the request: the refusal to say, or the arguments in the registry's order.\<close>

definition check_job :: "json dict \<Rightarrow> string \<Rightarrow> string dict \<Rightarrow> py_exn + string + string dict" where
  "check_job reg job args =
     (case map_of reg job of
        None \<Rightarrow> Inr (Inl (''There's no job called '' @ job @ ''. I can run: '' @ join '', '' (keys reg) @ ''.''))
      | Some spec \<Rightarrow>
          (if spec = JNull then
             Inr (Inl (''There's no job called '' @ job @ ''. I can run: '' @ join '', '' (keys reg) @ ''.''))
           else
           bindR (get_of JNull ''args'' spec) (\<lambda>a.
           bindR (items_of (json_or a (JObj []))) (\<lambda>allowed.
           let extra = [k \<leftarrow> keys args. k \<notin> set (keys allowed)] in
           if extra \<noteq> [] then Inr (Inl (job @ '' doesn't take '' @ join '', '' (sorted_set extra) @ ''.''))
           else bindR (first_refused args allowed) (\<lambda>refused.
           case refused of
               Some (name, values) \<Rightarrow>
                 bindR (value_texts values) (\<lambda>vs.
                 Inr (Inl (job @ '' needs '' @ name @ '' to be one of '' @ join '', '' vs @ ''.'')))
             | None \<Rightarrow> bindR (ordered_args args allowed) (\<lambda>ordered. Inr (Inr ordered)))))))"

definition dispatch_request :: "string \<Rightarrow> string \<Rightarrow> string dict \<Rightarrow> string \<Rightarrow> request" where
  "dispatch_request tok job args rid =
     Request ''POST''
       (''https://api.github.com/repos/'' @ jobs_repo @ ''/actions/workflows/voice-job.yml/dispatches'') [] (Some tok)
       (Some (JObj [(''ref'', JStr ''main''),
          (''inputs'', JObj [(''job'', JStr job),
             (''args'', JStr (dumps (JObj (map (\<lambda>(k, v). (k, JStr v)) args)))), (''request_id'', JStr rid)])]))"

text \<open>The call after the checks: \<open>args\<close> are in the registry's order.\<close>

definition start_job :: "jobs_cfg \<Rightarrow> string \<Rightarrow> string dict \<Rightarrow> string \<Rightarrow> (jobs, string) web" where
  "start_job cfg job args rid =
     bind (send (dispatch_request (jobs_token cfg) job args rid)) (\<lambda>r.
     if resp_status r \<notin> {200, 201, 204} then
       ret (''GitHub didn't accept the job (HTTP '' @ str_of_nat (resp_status r) @ ''), so nothing is running.'')
     else
       let label = job_label job (map (\<lambda>(k, v). (k, JStr v)) args) in
       andthen (modify (\<lambda>w. w\<lparr>last_id := rid, last_label := label\<rparr>))
         (ret (''Started '' @ label @ '' (request '' @ rid @ ''). It's waiting for your approval in GitHub, then '' @
            ''usually takes a minute or two to run. Ask me for the job status any time.'')))"

definition run_job :: "jobs_cfg \<Rightarrow> string \<Rightarrow> json dict \<Rightarrow> 32 word \<Rightarrow> (jobs, string) web" where
  "run_job cfg job args0 rnd =
     (if \<not> jobs_enabled cfg then ret ''Voice jobs are switched off right now.''
      else if jobs_token cfg = [] then ret ''Voice jobs aren't set up yet: home-mcp has no GitHub token for them.''
      else
        let args = map (\<lambda>(k, v). (k, py_str v)) args0 in
        bind (catch_http (bind load_registry (\<lambda>reg. ret (Inr reg)))
          (\<lambda>n. ret (Inl (''I couldn't read the job list from GitHub ('' @ n @ ''), so I didn't start anything.'')))) (\<lambda>found.
        case found of
          Inl text \<Rightarrow> ret text
        | Inr reg \<Rightarrow>
            bind (liftR (bindR (items_of reg) (\<lambda>d. check_job d job args))) (\<lambda>checked.
            case checked of
              Inl refusal \<Rightarrow> ret refusal
            | Inr ordered \<Rightarrow> start_job cfg job ordered (request_id rnd))))"

section \<open>Reading a job back\<close>

definition title_of :: "json dict \<Rightarrow> string" where
  "title_of r = str_of (json_or (jget ''display_title'' r) (json_or (jget ''name'' r) (JStr [])))"

definition find_run :: "string \<Rightarrow> (jobs, json dict option) web" where
  "find_run rid =
     bind (gh_get (''/repos/'' @ jobs_repo @ ''/actions/workflows/voice-job.yml/runs'') [(''per_page'', JInt 20)]) (\<lambda>data.
     bind (liftR (get_of (JList []) ''workflow_runs'' data)) (\<lambda>rs.
     let runs = objects rs in
     ret (if rid = [] then (case runs of [] \<Rightarrow> None | r # _ \<Rightarrow> Some r)
          else find (\<lambda>r. sublist (''['' @ rid @ '']'') (title_of r)) runs)))"

fun first_result :: "json dict list \<Rightarrow> string option" where
  "first_result [] = None"
| "first_result (a # as) =
     (if jget ''title'' a = JStr ''result'' then Some (strip (str_of (get_or (JStr []) ''message'' a)))
      else first_result as)"

fun annotations :: "json dict list \<Rightarrow> (jobs, string) web" where
  "annotations [] = ret []"
| "annotations (j # js) =
     bind (liftR (item_of ''id'' (JObj j))) (\<lambda>i.
     bind (gh_get (''/repos/'' @ jobs_repo @ ''/check-runs/'' @ py_str i @ ''/annotations'') []) (\<lambda>notes.
     case first_result (objects notes) of
       Some m \<Rightarrow> ret m
     | None \<Rightarrow> annotations js))"

definition result_annotation :: "json \<Rightarrow> (jobs, string) web" where
  "result_annotation run_id =
     bind (gh_get (''/repos/'' @ jobs_repo @ ''/actions/runs/'' @ py_str run_id @ ''/jobs'') []) (\<lambda>d.
     bind (liftR (get_of (JList []) ''jobs'' d)) (\<lambda>js. annotations (rev (objects js))))"

definition finished_text :: "string \<Rightarrow> json \<Rightarrow> string \<Rightarrow> string" where
  "finished_text label conclusion result =
     (if conclusion = JStr ''success'' then
        label @ '' is done: '' @ (if result \<noteq> [] then result else ''it finished without a summary.'')
      else if conclusion = JStr ''cancelled'' then
        label @ '' was cancelled'' @ (if result = [] then '' or rejected'' else []) @ ''.''
      else label @ '' failed: '' @ (if result \<noteq> [] then result else ''no reason given; check the run in GitHub.''))"

definition run_text :: "json dict \<Rightarrow> (jobs, string) web" where
  "run_text r =
     bind (ask loads) (\<lambda>parse.
     let label = label_from_title parse (str_of (jget ''display_title'' r)); st = jget ''status'' r in
     if st = JStr ''waiting'' then ret (label @ '' is waiting for your approval in GitHub.'')
     else if st \<noteq> JStr ''completed'' then
       ret (label @ '' is '' @ (if st = JStr ''in_progress'' then ''running'' else ''queued'') @ ''.'')
     else
       bind (liftR (item_of ''id'' (JObj r))) (\<lambda>i.
       bind (result_annotation i) (\<lambda>result. ret (finished_text label (jget ''conclusion'' r) result))))"

definition no_run_text :: "string \<Rightarrow> jobs \<Rightarrow> string" where
  "no_run_text rid w =
     (if rid \<noteq> [] \<and> rid = last_id w then last_label w @ '' hasn't shown up in GitHub yet; it was only just requested.''
      else if rid \<noteq> [] then ''I can't find that job.'' else ''No voice jobs have run yet.'')"

definition job_status :: "string \<Rightarrow> (jobs, string) web" where
  "job_status rid0 =
     bind (gets (\<lambda>w. if strip rid0 \<noteq> [] then strip rid0 else last_id w)) (\<lambda>rid.
     try_catch
       (bind (find_run rid) (\<lambda>found.
        case found of
          None \<Rightarrow> bind (gets (no_run_text rid)) ret
        | Some r \<Rightarrow> run_text r))
       (\<lambda>x. case x of
          RateLimited _ \<Rightarrow> ret ''GitHub's rate limit is used up; ask again in a few minutes.''
        | HTTPX n \<Rightarrow> ret (''I couldn't reach GitHub ('' @ n @ '').'')
        | PyError n \<Rightarrow> raise x))"

section \<open>The token's expiry\<close>

definition token_warn_days :: int where
  "token_warn_days = 21"

text \<open>\<open>expires in n days\<close>; the first argument is what is about to expire.\<close>

definition expiry_warning :: "string \<Rightarrow> int \<Rightarrow> string list" where
  "expiry_warning what_token days =
     (if days < 0 then [what_token @ '' has expired'']
      else if days \<le> token_warn_days then
        [what_token @ '' expires in '' @ str_of_int days @ '' day'' @ (if days \<noteq> 1 then ''s'' else [])]
      else [])"

definition jobs_token_answer :: "response \<Rightarrow> rat \<Rightarrow> py_exn + string list" where
  "jobs_token_answer r now =
     (if resp_status r = 401 then Inr [''the voice jobs GitHub token is being rejected'']
      else case get_or [] ''github-authentication-token-expiration'' (resp_headers r) of
          [] \<Rightarrow> Inr []
        | x # xs \<Rightarrow>
            (case utc_expiry (x # xs) of
               None \<Rightarrow> Inl (PyError ''ValueError'')
             | Some expires \<Rightarrow>
                 Inr (expiry_warning ''the voice jobs GitHub token'' \<lfloor>(of_int expires - now) / 86400\<rfloor>)))"

definition jobs_token_warnings :: "jobs_cfg \<Rightarrow> (jobs, string list) web" where
  "jobs_token_warnings cfg =
     (if \<not> jobs_enabled cfg \<or> jobs_token cfg = [] then ret []
      else (\<lambda>e w.
        if mono e - fst (token_health w) < 6 * 3600 \<and> fst (token_health w) \<noteq> 0
        then (Inr (snd (token_health w)), w)
        else catch_http
          (bind (send (Request ''GET'' (gh_api @ ''/repos/'' @ jobs_repo) [] (Some (jobs_token cfg)) None)) (\<lambda>r.
           bind (liftR (jobs_token_answer r (wall e))) (\<lambda>warnings.
           andthen (modify (\<lambda>w. w\<lparr>token_health := (mono e, warnings)\<rparr>)) (ret warnings))))
          (\<lambda>_. gets (\<lambda>w. snd (token_health w))) e w))"

section \<open>Only registered jobs are started\<close>

lemma first_refused_None:
  "first_refused args allowed = Inr None \<Longrightarrow> (name, values) \<in> set allowed \<Longrightarrow> among (map_of args name) values = Inr True"
  by (induction args allowed rule: first_refused.induct) (auto simp: bindR_Inr split: if_splits)

lemma ordered_args_keys:
  assumes "ordered_args args allowed = Inr ordered"
  shows "keys ordered = keys allowed" and "(k, v) \<in> set ordered \<Longrightarrow> map_of args k = Some v"
proof -
  have all: "list_all2 (\<lambda>x y. (case x of (name, _) \<Rightarrow> case map_of args name of
      None \<Rightarrow> Inl (PyError ''KeyError'') | Some v \<Rightarrow> Inr (name, v)) = Inr y) allowed ordered"
    using assms by (simp add: ordered_args_def mapR_Inr)
  then show "keys ordered = keys allowed"
    by (induction rule: list_all2_induct) (auto split: option.splits)
  from all show "(k, v) \<in> set ordered \<Longrightarrow> map_of args k = Some v"
    by (induction rule: list_all2_induct) (auto split: option.splits)
qed

text \<open>What it means that the registry allows the arguments: the job is in it, the arguments are exactly
  the ones it names, in its order, and each value is in the list given for it.\<close>

definition registered :: "json dict \<Rightarrow> string \<Rightarrow> string dict \<Rightarrow> bool" where
  "registered reg job ordered \<longleftrightarrow>
     (\<exists>spec allowed. map_of reg job = Some spec \<and>
        (\<exists>a. get_of JNull ''args'' spec = Inr a \<and> items_of (json_or a (JObj [])) = Inr allowed) \<and>
        keys ordered = keys allowed \<and>
        (\<forall>(k, values)\<in>set allowed. \<exists>v. map_of ordered k = Some v \<and> among (Some v) values = Inr True))"

lemma check_job_registered:
  assumes "check_job reg job args = Inr (Inr ordered)"
  shows "registered reg job ordered" and "set (keys args) \<subseteq> set (keys ordered)"
proof -
  from assms obtain spec a allowed where spec: "map_of reg job = Some spec"
    and a: "get_of JNull ''args'' spec = Inr a" "items_of (json_or a (JObj [])) = Inr allowed"
    and extra: "[k \<leftarrow> keys args. k \<notin> set (keys allowed)] = []"
    and ok: "first_refused args allowed = Inr None" and ord: "ordered_args args allowed = Inr ordered"
    by (auto simp: check_job_def bindR_Inr Let_def split: option.splits if_splits)
  show "set (keys args) \<subseteq> set (keys ordered)"
    using extra ordered_args_keys(1) [OF ord] by (auto simp: filter_empty_conv)
  have "\<exists>v. map_of ordered k = Some v \<and> among (Some v) vs = Inr True" if "(k, vs) \<in> set allowed" for k vs
  proof -
    have "k \<in> set (keys ordered)"
      unfolding ordered_args_keys(1) [OF ord] using that by force
    then obtain v where v: "map_of ordered k = Some v"
      by (metis map_of_eq_None_iff option.exhaust set_map)
    then have "map_of args k = Some v"
      using ordered_args_keys(2) [OF ord] map_of_SomeD by fastforce
    then show ?thesis using first_refused_None [OF ok that] v by simp
  qed
  then show "registered reg job ordered"
    unfolding registered_def using spec a ordered_args_keys(1) [OF ord] by blast
qed

definition registry_request :: request where
  "registry_request = Request ''GET'' registry_url [] None None"

lemma wp_load_registry:
  assumes "\<And>g r. set g \<subseteq> {registry_request} \<Longrightarrow>
      Q (Inr (snd r)) (w\<lparr>sent := sent w @ g, registry := r\<rparr>)"
    and "\<And>x g. set g \<subseteq> {registry_request} \<Longrightarrow> Q (Inl x) (w\<lparr>sent := sent w @ g\<rparr>)"
  shows "wp load_registry e w Q"
proof (cases "registry_look (registry w) () (mono e)")
  case None
  let ?w = "w\<lparr>sent := sent w @ [registry_request]\<rparr>"
  show ?thesis
    using assms(2) [of "[registry_request]"] assms(1) [of "[registry_request]" "(mono e, _)"]
    unfolding load_registry_def wp_def
    by (auto simp: None get_ok_def get_def send_def bind_def andthen_def check_status_def ret_def raise_def
        registry_request_def [symmetric] registry_put_def Let_def split: sum.splits option.splits prod.splits)
next
  case (Some v)
  then have "v = snd (registry w)"
    by (simp add: registry_look_def split: if_splits)
  then show ?thesis
    using assms(1) [of "[]" "registry w"] by (simp add: load_registry_def wp_def Some)
qed

text \<open>A request that starts a job: the switch is on, there is a token, and the registry in force allows
  the job with these arguments.\<close>

definition allowed_dispatch :: "jobs_cfg \<Rightarrow> json \<Rightarrow> string \<Rightarrow> json dict \<Rightarrow> string \<Rightarrow> request \<Rightarrow> bool" where
  "allowed_dispatch cfg reg job args rid q \<longleftrightarrow>
     jobs_enabled cfg \<and> jobs_token cfg \<noteq> [] \<and>
     (\<exists>d ordered. reg = JObj d \<and> registered d job ordered \<and> set (keys args) \<subseteq> set (keys ordered) \<and>
        q = dispatch_request (jobs_token cfg) job ordered rid)"

text \<open>Reads of the registry, then at most one request, which satisfies \<open>P\<close>.\<close>

definition reads_then :: "(request \<Rightarrow> bool) \<Rightarrow> request list \<Rightarrow> request list \<Rightarrow> bool" where
  "reads_then P s s' \<longleftrightarrow>
     (\<exists>g p. s' = s @ g @ p \<and> set g \<subseteq> {registry_request} \<and> (p = [] \<or> (\<exists>q. p = [q] \<and> P q)))"

lemma reads_then_read: "set g \<subseteq> {registry_request} \<Longrightarrow> reads_then P s (s @ g)"
  unfolding reads_then_def by (intro exI [of _ g] exI [of _ "[]"]) simp

lemma reads_then_same: "reads_then P s s"
  using reads_then_read [of "[]"] by simp

lemma reads_then_one: "set g \<subseteq> {registry_request} \<Longrightarrow> P q \<Longrightarrow> reads_then P s (s @ g @ [q])"
  unfolding reads_then_def by (intro exI [of _ g] exI [of _ "[q]"]) simp

lemma keys_py_str: "keys (map (\<lambda>(k, v). (k, py_str v)) args) = keys args"
  by (induction args) auto

lemma wp_start_job:
  assumes "\<And>r w'. sent w' = sent w @ [dispatch_request (jobs_token cfg) job args rid] \<Longrightarrow>
    registry w' = registry w \<Longrightarrow> Q r w'"
  shows "wp (start_job cfg job args rid) e w Q"
  unfolding start_job_def Let_def
  by (auto split: sum.split intro!: assms)

lemma run_job_sends:
  "wp (run_job cfg job args rnd) e w (\<lambda>r w'.
     reads_then (allowed_dispatch cfg (snd (registry w')) job args (request_id rnd)) (sent w) (sent w'))"
proof (cases "jobs_enabled cfg \<and> jobs_token cfg \<noteq> []")
  case False
  then show ?thesis by (auto simp: run_job_def reads_then_same)
next
  case True
  have post: "case bindR (items_of reg) (\<lambda>d. check_job d job args') of
      Inl x \<Rightarrow> Q (Inl x) w'
    | Inr c \<Rightarrow>
        wp (case c of Inl refusal \<Rightarrow> ret refusal | Inr ordered \<Rightarrow> start_job cfg job ordered (request_id rnd)) e w' Q"
    if Q: "\<And>r w2. reads_then (allowed_dispatch cfg (snd (registry w')) job args (request_id rnd)) (sent w) (sent w2) \<Longrightarrow>
        registry w2 = registry w' \<Longrightarrow> Q r w2"
      and g: "set g \<subseteq> {registry_request}" "sent w' = sent w @ g" and reg: "reg = snd (registry w')"
      and args': "keys args' = keys args"
    for Q w' g reg args'
  proof -
    have step: "Q r w2"
      if "sent w2 = sent w' @ [dispatch_request (jobs_token cfg) job ordered (request_id rnd)]"
        "registry w2 = registry w'" "items_of reg = Inr d" "check_job d job args' = Inr (Inr ordered)" for r w2 d ordered
    proof (rule Q [OF _ that(2)])
      have "reg = JObj d" using that(3) by (simp add: items_of_def split: json.splits)
      then have "allowed_dispatch cfg (snd (registry w')) job args (request_id rnd)
          (dispatch_request (jobs_token cfg) job ordered (request_id rnd))"
        using check_job_registered [OF that(4)] True reg args' unfolding allowed_dispatch_def by auto
      then show "reads_then (allowed_dispatch cfg (snd (registry w')) job args (request_id rnd)) (sent w) (sent w2)"
        using reads_then_one [OF g(1)] that(1) g(2) by simp
    qed
    have stop: "Q r w'" for r
      using Q [of w' r] reads_then_read [OF g(1)] g(2) by simp
    show ?thesis
      by (auto simp: bindR_Inr stop intro!: wp_start_job step split: sum.split)
  qed
  let ?R = "\<lambda>w'. reads_then (allowed_dispatch cfg (snd (registry w')) job args (request_id rnd)) (sent w) (sent w')"
  have fin: "case bindR (items_of (snd rg)) (\<lambda>d. check_job d job (map (\<lambda>(k, v). (k, py_str v)) args)) of
      Inl x \<Rightarrow> ?R (w\<lparr>sent := sent w @ g, registry := rg\<rparr>)
    | Inr c \<Rightarrow>
        wp (case c of Inl refusal \<Rightarrow> ret refusal | Inr ordered \<Rightarrow> start_job cfg job ordered (request_id rnd)) e
          (w\<lparr>sent := sent w @ g, registry := rg\<rparr>) (\<lambda>r. ?R)" if "set g \<subseteq> {registry_request}" for g rg
    by (rule post [where Q = "\<lambda>r. ?R", OF _ that]) (simp_all add: split_beta)
  show ?thesis
    unfolding run_job_def catch_http_def Let_def wp_bind wp_try_catch
    using True fin [of _ "(_, _)"]
    by (auto intro!: wp_load_registry reads_then_read)
qed

text \<open>C16: a job is only started as the registry allows: besides reading the registry, \<open>run_job\<close> sends at
  most one request, and that only with the switch on and a token, for a job that is in the
  registry in force, with exactly the arguments it names, each with one of its listed values.\<close>

theorem run_job_only_registered:
  "reads_then (allowed_dispatch cfg (snd (registry (snd (run_job cfg job args rnd e w)))) job args (request_id rnd))
     (sent w) (sent (snd (run_job cfg job args rnd e w)))"
  using run_job_sends [of cfg job args rnd e w] by (simp add: wp_snd)

lemma before_last_None: "sep \<noteq> [] \<Longrightarrow> before_last sep s = None \<longleftrightarrow> \<not> sublist sep s"
  by (induction s) (auto simp: sublist_Cons_right split: option.splits)

lemma before_last_append:
  "\<not> sublist (c # sep) (sep @ b) \<Longrightarrow> before_last (c # sep) (a @ (c # sep) @ b) = Some a"
proof (induction a)
  case Nil
  then have "before_last (c # sep) (sep @ b) = None"
    by (simp add: before_last_None)
  then show ?case by simp
qed simp

lemma no_space_no_sublist: "CHR '' '' \<notin> set s \<Longrightarrow> \<not> sublist (CHR '' '' # t) s"
  by (auto dest: set_mono_sublist)

text \<open>What \<open>run_job\<close> announces is what \<open>job_status\<close> later calls the job: the label of a run whose
  title is the workflow's \<open>voice-job <job> <args JSON> [<request id>]\<close> is the label of the
  request, for any job name without a space, whatever the arguments contain.\<close>

theorem label_roundtrip:
  assumes "CHR '' '' \<notin> set job" and "job \<noteq> []" and "CHR '' '' \<notin> set rid"
    and "parse (dumps (JObj args)) = Some (JObj args)"
  shows "label_from_title parse (''voice-job '' @ job @ '' '' @ dumps (JObj args) @ '' ['' @ rid @ '']'') = job_label job args"
proof -
  let ?body = "job @ '' '' @ dumps (JObj args)"
  have "\<not> sublist '' ['' (''['' @ rid @ '']'')"
    using assms(3) by (intro no_space_no_sublist) simp
  then have "before_last '' ['' (?body @ '' ['' @ (rid @ '']'')) = Some ?body"
    using before_last_append [of "CHR '' ''" "''[''" "rid @ '']''" ?body] by simp
  then have body: "rsplit_first '' ['' (?body @ '' ['' @ rid @ '']'') = ?body"
    by (simp add: rsplit_first_def)
  have title: "removeprefix ''voice-job '' (''voice-job '' @ t) = t" for t
    by (simp add: removeprefix_def)
  have part: "partition1 (CHR '' '') ?body = Some (job, dumps (JObj args))"
    using partition1_append [of "CHR '' ''" job] assms(1) by simp
  have "label_from_title parse (''voice-job '' @ (?body @ '' ['' @ rid @ '']'')) = job_label job args"
    unfolding label_from_title_def title body part Let_def using assms(2,4) by simp
  then show ?thesis by simp
qed

theorem label_roundtrip_witness:
  "label_from_title (\<lambda>s. if s = dumps (JObj [(''app'', JStr ''hue'')]) then Some (JObj [(''app'', JStr ''hue'')]) else None)
     (''voice-job '' @ ''restart-app'' @ '' '' @ dumps (JObj [(''app'', JStr ''hue'')]) @ '' ['' @ ''vj-00ff10ab'' @ '']'') =
   ''restart-app hue''"
  by (subst label_roundtrip) (simp_all add: job_label_def)

end
