(* ===== verification/AirflowApi.thy ===== *)
theory AirflowApi
  imports Http TtlCache Moment Regex
begin

text \<open>
  \<open>compose/aws/home-mcp/airflow_api.py\<close>: Airflow's REST API. The state is the token with the time
  it was fetched. A call returns a status with either the error text or the body.
\<close>

record airflow = net +
  af_token :: "(string \<times> rat) option"

definition airflow_url :: string where
  "airflow_url = ''http://airflow-api-server:8080''"

definition name_char :: "char \<Rightarrow> bool" where
  "name_char c \<longleftrightarrow> is_lower c \<or> is_digit c \<or> c = CHR ''_''"

definition triggerable :: rx where
  "triggerable = Cat (alts [lit ''mkt_data'', lit ''secmaster_svc'', lit ''quote_svc'']) (Cat (lit ''__'') (plus (Cls name_char)))"

definition dag_char :: "char \<Rightarrow> bool" where
  "dag_char c \<longleftrightarrow> is_alnum c \<or> c \<in> {CHR ''_'', CHR ''.'', CHR ''-''}"

definition dag_id :: rx where
  "dag_id = Cat (Cls dag_char) (upto 249 (Cls dag_char))"

section \<open>Calls\<close>

text \<open>The token is fetched again when it is more than 600 seconds old.\<close>

definition af_look :: "(string \<times> rat) option \<Rightarrow> unit \<Rightarrow> rat \<Rightarrow> string option" where
  "af_look c u t = (case c of None \<Rightarrow> None | Some (tok, t0) \<Rightarrow> if t - t0 > 600 then None else Some tok)"

definition af_put :: "(string \<times> rat) option \<Rightarrow> unit \<Rightarrow> rat \<Rightarrow> string \<Rightarrow> (string \<times> rat) option" where
  "af_put c u t tok = Some (tok, t)"

interpretation af_cache: ttl_cell af_look af_put "\<lambda>a. a \<le> 600" "\<lambda>_. True"
  by unfold_locales (auto simp: af_look_def af_put_def)

definition af_auth :: "(airflow, string) web" where
  "af_auth =
     (\<lambda>e w. case af_look (af_token w) () (mono e) of
        Some tok \<Rightarrow> (Inr tok, w)
      | None \<Rightarrow>
          bind (get_json (airflow_url @ ''/auth/token'') []) (\<lambda>d.
          bind (liftR (item_of ''access_token'' d)) (\<lambda>tok.
          andthen (modify (\<lambda>w. w\<lparr>af_token := af_put (af_token w) () (mono e) (py_str tok)\<rparr>)) (ret (py_str tok)))) e w)"

definition detail_of :: "json \<Rightarrow> string \<Rightarrow> string" where
  "detail_of body text =
     (case body of
        JObj d \<Rightarrow> (if truthy (jget ''detail'' d) then py_str (jget ''detail'' d) else take 200 text)
      | _ \<Rightarrow> take 200 text)"

definition call_result :: "(string \<Rightarrow> json option) \<Rightarrow> response \<Rightarrow> nat \<times> (string + json)" where
  "call_result parse r =
     (let body = (case parse (resp_text r) of None \<Rightarrow> JObj [] | Some j \<Rightarrow> j); st = resp_status r in
      (st, if st \<ge> 300 then Inl (''Airflow answered '' @ str_of_nat st @ '': '' @ detail_of body (resp_text r)) else Inr body))"

definition call :: "string \<Rightarrow> string \<Rightarrow> json dict \<Rightarrow> json option \<Rightarrow> (airflow, nat \<times> (string + json)) web" where
  "call verb path params payload =
     catch_http
       (bind af_auth (\<lambda>tok.
        bind (send (Request verb (airflow_url @ ''/api/v2/'' @ path) params (Some tok) payload)) (\<lambda>r.
        bind (ask loads) (\<lambda>parse. ret (call_result parse r)))))
       (\<lambda>n. ret (0, Inl (''I couldn't reach Airflow's API ('' @ n @ '').'')))"

text \<open>The callers return the error text, or go on with the body. A body where a text is expected, or a
  text where a body is, is what Python would pass on unchanged.\<close>

definition text_of :: "string + json \<Rightarrow> string" where
  "text_of b = (case b of Inl t \<Rightarrow> t | Inr j \<Rightarrow> py_str j)"

definition body_of :: "string + json \<Rightarrow> json" where
  "body_of b = (case b of Inl t \<Rightarrow> JStr t | Inr j \<Rightarrow> j)"

section \<open>Runs\<close>

definition when_text :: "json \<Rightarrow> string" where
  "when_text ts = (case ts of
      JStr s \<Rightarrow> (if s = [] then ''-'' else replace ''T'' '' '' (take 16 s) @ '' UTC'')
    | _ \<Rightarrow> ''-'')"

definition duration :: "json dict \<Rightarrow> py_exn + string" where
  "duration r =
     (case (jget ''start_date'' r, jget ''end_date'' r) of
        (JStr s, JStr t) \<Rightarrow>
          (if s = [] \<or> t = [] then Inr []
           else case (fromisodatetime s, fromisodatetime t) of
               (Some a, Some b) \<Rightarrow>
                 (case moment_diff b a of
                    None \<Rightarrow> Inl (PyError ''TypeError'')
                  | Some secs \<Rightarrow>
                      Inr (if secs < 120 then '', '' @ fixed0 secs @ ''s'' else '', '' @ fixed0 (secs / 60) @ '' min''))
             | _ \<Rightarrow> Inl (PyError ''ValueError''))
      | _ \<Rightarrow> Inr [])"

definition clamp :: "int \<Rightarrow> int \<Rightarrow> int \<Rightarrow> int" where
  "clamp lo hi n = max lo (min n hi)"

definition run_line :: "json \<Rightarrow> py_exn + string" where
  "run_line r =
     (case r of
        JObj d \<Rightarrow>
          bindR (item_of ''dag_id'' r) (\<lambda>i. bindR (duration d) (\<lambda>dur. bindR (item_of ''dag_run_id'' r) (\<lambda>rid.
          Inr (''- '' @ py_str i @ '': '' @ py_str (jget ''state'' d) @ '' ('' @ py_str (jget ''run_type'' d) @ ''), started '' @
            when_text (jget ''start_date'' d) @ dur @ ''. Run id '' @ py_str rid))))
      | _ \<Rightarrow> Inl (PyError ''TypeError''))"

definition not_a_dag :: "string \<Rightarrow> string" where
  "not_a_dag dag = repr_str dag @ '' isn't a DAG id.''"

definition airflow_runs :: "string \<Rightarrow> int \<Rightarrow> (airflow, string) web" where
  "airflow_runs dag0 limit =
     (let dag = (if strip dag0 = [] then ''~'' else strip dag0) in
      if dag \<noteq> ''~'' \<and> \<not> match_dollar dag_id dag then ret (not_a_dag dag)
      else
        bind (call ''GET'' (''dags/'' @ dag @ ''/dagRuns'')
          [(''order_by'', JStr ''-run_after''), (''limit'', JInt (clamp 1 50 limit))] None) (\<lambda>(st, b).
        if st \<noteq> 200 then ret (text_of b)
        else
          bind (liftR (bindR (get_of (JList []) ''dag_runs'' (body_of b)) iter_of)) (\<lambda>runs.
          if runs = [] then ret (''No runs'' @ (if dag \<noteq> ''~'' then '' for '' @ dag else []) @ '' yet.'')
          else
            bind (liftR (mapR run_line runs)) (\<lambda>ls.
            ret (join [newline] ((str_of_nat (length runs) @ '' run'' @ plural (length runs) @ '', newest first:'') # ls))))))"

section \<open>Task logs\<close>

definition log_line :: "json \<Rightarrow> py_exn + string" where
  "log_line m =
     (case m of
        JStr s \<Rightarrow> Inr s
      | JObj d \<Rightarrow>
          (let stamp = take 8 (drop 11 (str_of (jget ''timestamp'' d))); level = upper (str_of (jget ''level'' d)) in
           Inr (join '' '' [x \<leftarrow> [stamp, level, py_str (get_or (JStr []) ''event'' d)]. x \<noteq> []]))
      | _ \<Rightarrow> Inl (PyError ''AttributeError''))"

text \<open>The task that is asked for; without one, the failed task if any, else the last.\<close>

definition pick_task :: "string \<Rightarrow> json dict list \<Rightarrow> json dict option" where
  "pick_task task tis =
     (if strip task \<noteq> [] then find (\<lambda>t. jget ''task_id'' t = JStr (strip task)) tis
      else case find (\<lambda>t. jget ''state'' t = JStr ''failed'') tis of
          Some t \<Rightarrow> Some t
        | None \<Rightarrow> (if tis = [] then None else Some (last tis)))"

definition attempt_of :: "int \<Rightarrow> json dict \<Rightarrow> string" where
  "attempt_of try_number ti =
     (if try_number \<noteq> 0 then str_of_int try_number
      else if truthy (jget ''try_number'' ti) then py_str (jget ''try_number'' ti) else ''1'')"

definition max_log_lines :: int where
  "max_log_lines = 200"

definition log_text :: "string \<Rightarrow> string \<Rightarrow> json dict \<Rightarrow> string \<Rightarrow> int \<Rightarrow> string list \<Rightarrow> string" where
  "log_text dag run_id ti attempt n text =
     (let keep = nat (clamp 1 max_log_lines n) in
      join [newline]
        ((dag @ '' / '' @ py_str (jget ''task_id'' ti) @ '' (run '' @ run_id @ '', try '' @ attempt @ '', '' @
          py_str (jget ''state'' ti) @ ''): last '' @ str_of_nat (min keep (length text)) @ '' of '' @
          str_of_nat (length text) @ '' log lines.'') #
         map (take 400) (last_n keep text)))"

definition objects_of :: "json \<Rightarrow> py_exn + json dict list" where
  "objects_of j = bindR (iter_of j) (mapR (\<lambda>x. case x of JObj d \<Rightarrow> Inr d | _ \<Rightarrow> Inl (PyError ''TypeError'')))"

definition task_ids_text :: "json dict list \<Rightarrow> string" where
  "task_ids_text tis = join '', '' (map (\<lambda>t. py_str (jget ''task_id'' t)) tis)"

definition latest_run :: "string \<Rightarrow> (airflow, string + string) web" where
  "latest_run dag =
     bind (call ''GET'' (''dags/'' @ dag @ ''/dagRuns'') [(''order_by'', JStr ''-run_after''), (''limit'', JInt 1)] None) (\<lambda>(st, b).
     if st \<noteq> 200 then ret (Inl (text_of b))
     else
       bind (liftR (bindR (get_of (JList []) ''dag_runs'' (body_of b)) objects_of)) (\<lambda>runs.
       case runs of
         [] \<Rightarrow> ret (Inl (dag @ '' has no runs yet.''))
       | r # _ \<Rightarrow> bind (liftR (item_of ''dag_run_id'' (JObj r))) (\<lambda>i. ret (Inr (py_str i)))))"

definition task_log :: "string \<Rightarrow> string \<Rightarrow> string \<Rightarrow> int \<Rightarrow> int \<Rightarrow> (airflow, string) web" where
  "task_log dag run_id task try_number lines =
     bind (call ''GET'' (''dags/'' @ dag @ ''/dagRuns/'' @ run_id @ ''/taskInstances'') [] None) (\<lambda>(st, b).
     if st \<noteq> 200 then ret (text_of b)
     else
       bind (liftR (bindR (get_of (JList []) ''task_instances'' (body_of b)) objects_of)) (\<lambda>tis.
       if tis = [] then ret (''Run '' @ run_id @ '' of '' @ dag @ '' has no task instances.'')
       else case pick_task task tis of
           None \<Rightarrow> ret (''No task '' @ repr_str task @ '' in that run; tasks: '' @ task_ids_text tis @ ''.'')
         | Some ti \<Rightarrow>
             bind (liftR (item_of ''task_id'' (JObj ti))) (\<lambda>tid.
             let attempt = attempt_of try_number ti in
             bind (call ''GET'' (''dags/'' @ dag @ ''/dagRuns/'' @ run_id @ ''/taskInstances/'' @ py_str tid @ ''/logs/'' @ attempt)
               [(''full_content'', JStr ''true'')] None) (\<lambda>(st, b).
             if st \<noteq> 200 then ret (text_of b)
             else
               bind (liftR (bindR (get_of (JList []) ''content'' (body_of b)) (\<lambda>c. bindR (iter_of c) (mapR log_line)))) (\<lambda>text.
               ret (log_text dag run_id ti attempt lines text))))))"

definition airflow_task_log :: "string \<Rightarrow> string \<Rightarrow> string \<Rightarrow> int \<Rightarrow> int \<Rightarrow> (airflow, string) web" where
  "airflow_task_log dag0 run_id task try_number lines =
     (let dag = strip dag0 in
      if \<not> match_dollar dag_id dag then ret (not_a_dag dag0)
      else if strip run_id = [] then
        bind (latest_run dag) (\<lambda>r. case r of
            Inl text \<Rightarrow> ret text
          | Inr rid \<Rightarrow> task_log dag rid task try_number lines)
      else task_log dag run_id task try_number lines)"

section \<open>Triggering\<close>

definition max_conf_bytes :: nat where
  "max_conf_bytes = 4096"

text \<open>\<open>conf\<close> as the tool receives it: nothing, or a JSON value, whose keys are texts.\<close>

definition conf_refusal :: "json option \<Rightarrow> string option" where
  "conf_refusal conf =
     (case conf of
        None \<Rightarrow> None
      | Some (JObj d) \<Rightarrow>
          (if length (dumps (JObj d)) > max_conf_bytes
           then Some (''conf is too big (over '' @ str_of_nat max_conf_bytes @ '' bytes).'') else None)
      | Some _ \<Rightarrow> Some (''conf must be a JSON object of the DAG's form fields, e.g. {'' @ [CHR 0x22] @ ''source'' @ [CHR 0x22] @
          '': '' @ [CHR 0x22] @ ''BLS-CPI'' @ [CHR 0x22] @ ''}.''))"

definition trigger_body :: "json option \<Rightarrow> json" where
  "trigger_body conf =
     JObj ([(''logical_date'', JNull), (''note'', JStr ''Triggered from home-mcp'')] @
       (case conf of Some (JObj (x # xs)) \<Rightarrow> [(''conf'', JObj (x # xs))] | _ \<Rightarrow> []))"

definition airflow_trigger :: "string \<Rightarrow> json option \<Rightarrow> (airflow, string) web" where
  "airflow_trigger dag0 conf =
     (let dag = strip dag0 in
      if \<not> match_dollar triggerable dag then
        ret (''I can only trigger the market data DAGs (mkt_data__*, secmaster_svc__*, quote_svc__*), not '' @ repr_str dag @ ''.'')
      else case conf_refusal conf of
          Some text \<Rightarrow> ret text
        | None \<Rightarrow>
            bind (call ''GET'' (''dags/'' @ dag) [] None) (\<lambda>(st, info).
            if st \<noteq> 200 then ret (text_of info)
            else
              bind (call ''POST'' (''dags/'' @ dag @ ''/dagRuns'') [] (Some (trigger_body conf))) (\<lambda>(st, b).
              if st \<notin> {200, 201} then ret (text_of b)
              else
                bind (liftR (get_of JNull ''is_paused'' (body_of info))) (\<lambda>paused.
                bind (liftR (item_of ''dag_run_id'' (body_of b))) (\<lambda>rid.
                bind (liftR (get_of JNull ''state'' (body_of b))) (\<lambda>state.
                ret (''Started '' @ dag @ '': run '' @ py_str rid @ '', '' @ py_str state @ ''.'' @
                  (if truthy paused then '' The DAG is paused, so the run waits until it's unpaused.'' else []) @
                  '' Check it with airflow_runs.'')))))))"

section \<open>Only the market data DAGs are started\<close>

definition market_dag :: "string \<Rightarrow> bool" where
  "market_dag dag \<longleftrightarrow> (\<exists>p\<in>{''mkt_data'', ''secmaster_svc'', ''quote_svc''}. \<exists>n. dag = p @ ''__'' @ n \<and> n \<noteq> [] \<and> list_all name_char n)"

lemma lang_triggerable: "s \<in> lang triggerable \<longleftrightarrow> market_dag s"
proof -
  have "lang (alts [lit ''mkt_data'', lit ''secmaster_svc'', lit ''quote_svc'']) = {''mkt_data'', ''secmaster_svc'', ''quote_svc''}"
    by (simp only: alts.simps lang.simps lang_lit Un_empty_right insert_is_Un [symmetric])
  moreover have "v \<in> lang (Cat (lit ''__'') (plus (Cls name_char))) \<longleftrightarrow> (\<exists>n. v = ''__'' @ n \<and> n \<noteq> [] \<and> list_all name_char n)" for v
    unfolding lang_Cat lang_lit lang_plus_Cls list_all_iff by blast
  ultimately show ?thesis
    unfolding triggerable_def market_dag_def lang_Cat [of _ "alts _"] by metis
qed

lemma name_char_no_newline: "name_char c \<Longrightarrow> c \<noteq> newline"
  by (auto simp: name_char_def is_lower_def is_digit_def newline_def)

lemma strip_last: "strip s = u @ [c] \<Longrightarrow> \<not> is_space c"
proof -
  assume "strip s = u @ [c]"
  then have "dropWhile is_space (rev (dropWhile is_space s)) = c # rev u"
    by (metis lstrip_if_def rev.simps(2) rev_append rev_rev_ident rstrip_if_def strip_def strip_if_def append_Nil append_Cons)
  then show "\<not> is_space c"
    by (metis hd_dropWhile list.distinct(1) list.sel(1))
qed

lemma triggerable_strip: "match_dollar triggerable (strip s) \<Longrightarrow> market_dag (strip s)"
proof -
  assume "match_dollar triggerable (strip s)"
  moreover have "strip s \<noteq> u @ [newline]" for u
    using strip_last [of s u newline] by (auto simp: newline_def is_space_def)
  ultimately show ?thesis
    by (auto simp: match_dollar_lang lang_triggerable)
qed

text \<open>A request that changes nothing, or the start of a run of one market data DAG.\<close>

definition harmless :: "request \<Rightarrow> bool" where
  "harmless q \<longleftrightarrow> req_method q = ''GET'' \<or>
     req_method q = ''POST'' \<and> (\<exists>dag. market_dag dag \<and> req_url q = airflow_url @ ''/api/v2/dags/'' @ dag @ ''/dagRuns'')"

lemma harmless_GET [simp]: "harmless (Request ''GET'' url params tok payload)"
  by (simp add: harmless_def)

lemma keeps_auth: "keeps (sends harmless) af_auth e"
proof -
  have "keeps (sends harmless) (bind (get_json (airflow_url @ ''/auth/token'') []) (\<lambda>d.
      bind (liftR (item_of ''access_token'' d)) (\<lambda>tok.
      andthen (modify (\<lambda>w. w\<lparr>af_token := af_put (af_token w) () (mono e) (py_str tok)\<rparr>)) (ret (py_str tok))))) e"
    by (intro keeps_http keeps_pure) (auto simp: keeps_def modify_def sends_def)
  then show ?thesis
    by (auto simp: keeps_def af_auth_def split: option.split)
qed

lemma keeps_call:
  "(\<And>tok. harmless (Request verb (airflow_url @ ''/api/v2/'' @ path) params tok payload)) \<Longrightarrow>
     keeps (sends harmless) (call verb path params payload) e"
  unfolding call_def by (intro keeps_http keeps_auth) auto

lemma keeps_trigger: "keeps (sends harmless) (airflow_trigger dag conf) e"
proof (cases "match_dollar triggerable (strip dag)")
  case True
  then have m: "market_dag (strip dag)" by (rule triggerable_strip)
  have "harmless (Request ''POST'' (airflow_url @ ''/api/v2/'' @ ''dags/'' @ strip dag @ ''/dagRuns'') [] tok p)" for tok p
    using m by (auto simp: harmless_def)
  then show ?thesis
    unfolding airflow_trigger_def Let_def
    by (auto intro!: keeps_bind keeps_call split: option.split prod.split)
qed (simp add: airflow_trigger_def)

lemma keeps_runs: "keeps (sends harmless) (airflow_runs dag limit) e"
  unfolding airflow_runs_def Let_def
  by (auto intro!: keeps_bind keeps_call split: prod.split)

lemma keeps_task_log: "keeps (sends harmless) (airflow_task_log dag run_id task n lines) e"
proof -
  have t: "keeps (sends harmless) (task_log dag' run_id' task n lines) e" for dag' run_id'
    unfolding task_log_def Let_def
    by (auto intro!: keeps_bind keeps_call split: prod.split option.split)
  have "keeps (sends harmless) (latest_run dag') e" for dag'
    unfolding latest_run_def
    by (auto intro!: keeps_bind keeps_call split: prod.split list.split)
  with t show ?thesis
    unfolding airflow_task_log_def Let_def
    by (auto intro!: keeps_bind split: sum.split)
qed

text \<open>C18: the only request of the three Airflow tools that is not a GET starts a run of a DAG whose name
  is one of the three market data prefixes followed by lower-case letters, digits and
  underscores, whatever the caller passes.\<close>

theorem airflow_only_market_dags:
  assumes "list_all harmless (sent w)"
  shows "list_all harmless (sent (snd (airflow_trigger dag conf e w))) \<and>
    list_all harmless (sent (snd (airflow_runs dag limit e w))) \<and>
    list_all harmless (sent (snd (airflow_task_log dag run_id task n lines e w)))"
  using assms keeps_trigger [of dag conf e] keeps_runs [of dag limit e] keeps_task_log [of dag run_id task n lines e]
  by (simp add: keeps_def sends_def)

definition airflow_sample :: http_env where
  "airflow_sample =
     \<lparr>answer = (\<lambda>n q. Inr (Response 200 [] ''{}'')),
      loads = (\<lambda>_. Some (JObj [(''access_token'', JStr ''t''), (''dag_run_id'', JStr ''manual__1''), (''state'', JStr ''queued'')])),
      yaml = (\<lambda>_. None), mono = 0, wall = 0\<rparr>"

theorem airflow_only_market_dags_witness:
  "list_all harmless (sent (snd (airflow_trigger ''mkt_data__nyse_calendar'' None airflow_sample \<lparr>sent = [], af_token = None\<rparr>)))"
  using airflow_only_market_dags [of "\<lparr>sent = [], af_token = None\<rparr>"] by simp

end
