(* ===== verification/PreviewCompose.thy ===== *)
theory PreviewCompose
  imports Json Regex
begin

text \<open>
  \<open>scripts/hub/preview-compose.py\<close>: an app's Compose fragment rewritten into a preview of a pull
  request. The fragment is the JSON document; the result is the new document with the routed
  service, or the message of \<open>sys.exit\<close> or of an exception nothing catches.
\<close>

datatype stop =
    Exit string    \<comment> \<open>\<open>sys.exit(message)\<close>\<close>
  | Crash string   \<comment> \<open>an exception, by its name\<close>

record preview_args =
  app :: string
  pr :: string
  image :: string
  strict :: bool

section \<open>Constants\<close>

definition app_char :: "char \<Rightarrow> bool" where
  "app_char c \<longleftrightarrow> is_lower c \<or> is_digit c \<or> c = CHR ''-''"

definition args_ok :: "preview_args \<Rightarrow> bool" where
  "args_ok a \<longleftrightarrow> full_match (plus (Cls app_char)) (app a) \<and> full_match (plus (Cls is_digit)) (pr a)"

definition project :: "preview_args \<Rightarrow> string" where
  "project a = app a @ ''-pr'' @ pr a"

definition preview_host :: "preview_args \<Rightarrow> string" where
  "preview_host a = project a @ ''.preview.billandjessie.com''"

definition repo_prefix :: "preview_args \<Rightarrow> string" where
  "repo_prefix a = rsplit1_head (CHR '':'') (image a)"

definition own_repos :: "preview_args \<Rightarrow> string list" where
  "own_repos a = [repo_prefix a, removesuffix ''-preview'' (repo_prefix a)]"

definition allowed_keys :: "string list" where
  "allowed_keys =
    [''image'', ''command'', ''entrypoint'', ''environment'', ''env_file'', ''healthcheck'',
     ''working_dir'', ''user'', ''restart'', ''depends_on'', ''labels'', ''networks'',
     ''stop_grace_period'', ''stop_signal'', ''init'', ''read_only'', ''tmpfs'', ''expose'',
     ''mem_limit'', ''cpus'', ''pids_limit'', ''security_opt'', ''cap_drop'']"

section \<open>Labels\<close>

text \<open>The labels as texts: a list as it is, an object as \<open>key=value\<close>.\<close>

definition label_text :: "json \<Rightarrow> stop + string" where
  "label_text j = (case j of JStr s \<Rightarrow> Inr s | _ \<Rightarrow> Inl (Crash ''TypeError''))"

definition labels_of_service :: "json dict \<Rightarrow> stop + string list" where
  "labels_of_service svc =
     (case jget ''labels'' svc of
        JObj d \<Rightarrow> Inr (map (\<lambda>(k, v). k @ ''='' @ py_str v) d)
      | JList l \<Rightarrow> mapR label_text l
      | JStr s \<Rightarrow> Inr (map (\<lambda>c. [c]) s)
      | j \<Rightarrow> if truthy j then Inl (Crash ''TypeError'') else Inr [])"

definition port_prefix :: string where
  "port_prefix = ''traefik.http.services.''"

definition port_infix :: string where
  "port_infix = ''loadbalancer.server.port=''"

text \<open>The group of \<open>traefik\.http\.services\.[^.]+\.loadbalancer\.server\.port=(\d+)\<close>.\<close>

definition port_of_label :: "string \<Rightarrow> string option" where
  "port_of_label s =
     (if prefix port_prefix s then
        (case partition1 (CHR ''.'') (drop (length port_prefix) s) of
           Some (n, r) \<Rightarrow>
             (let d = drop (length port_infix) r in
              if n \<noteq> [] \<and> prefix port_infix r \<and> d \<noteq> [] \<and> list_all is_digit d then Some d else None)
         | None \<Rightarrow> None)
      else None)"

text \<open>The last matching label gives the port.\<close>

definition port_of :: "string list \<Rightarrow> string option" where
  "port_of labels = fold (\<lambda>l p. case port_of_label l of Some d \<Rightarrow> Some d | None \<Rightarrow> p) labels None"

definition enabled :: "string list \<Rightarrow> bool" where
  "enabled labels \<longleftrightarrow> ''traefik.enable=true'' \<in> set labels"

section \<open>One service\<close>

definition drop_keys :: "string list \<Rightarrow> json dict \<Rightarrow> json dict" where
  "drop_keys ks d = filter (\<lambda>(k, _). k \<notin> set ks) d"

definition env_entry :: "json \<Rightarrow> stop + string \<times> json" where
  "env_entry j = (case j of
      JStr s \<Rightarrow> Inr (case partition1 (CHR ''='') s of Some (k, v) \<Rightarrow> (k, JStr v) | None \<Rightarrow> (s, JStr []))
    | _ \<Rightarrow> Inl (Crash ''TypeError''))"

definition environment_of :: "json dict \<Rightarrow> stop + json dict" where
  "environment_of svc =
     (case jget ''environment'' svc of
        JObj d \<Rightarrow> Inr d
      | JList l \<Rightarrow> bindR (mapR env_entry l) (\<lambda>es. Inr (dict_update [] es))
      | j \<Rightarrow> if truthy j then Inl (Crash ''TypeError'') else Inr [])"

definition own_image :: "preview_args \<Rightarrow> json dict \<Rightarrow> bool" where
  "own_image a svc \<longleftrightarrow> rsplit1_head (CHR '':'') (py_str (get_or (JStr []) ''image'' svc)) \<in> set (own_repos a)"

definition platform_values :: "json dict \<Rightarrow> json dict" where
  "platform_values env =
    [(''environment'', JObj env), (''env_file'', JList [JStr ''.env'']), (''networks'', JList [JStr ''preview'']),
     (''mem_limit'', JStr ''384m''), (''cpus'', JFloat ''0.5''), (''pids_limit'', JInt 256),
     (''security_opt'', JList [JStr ''no-new-privileges:true'']), (''cap_drop'', JList [JStr ''ALL''])]"

definition preview_env :: "preview_args \<Rightarrow> json dict \<Rightarrow> json dict" where
  "preview_env a env = AList.update ''PREVIEW'' (JStr ''1'') (AList.update ''APP_NAME'' (JStr (project a)) env)"

text \<open>The settings before the allowlist is applied.\<close>

definition with_platform :: "preview_args \<Rightarrow> json dict \<Rightarrow> json dict \<Rightarrow> json dict" where
  "with_platform a env svc =
     (let s1 = drop_keys [''container_name'', ''ports''] svc;
          s2 = (if own_image a s1 then AList.update ''image'' (JStr (image a)) s1 else s1);
          s3 = dict_update s2 (platform_values (preview_env a env));
          s4 = drop_keys [''privileged'', ''volumes'', ''devices'', ''cap_add''] s3
      in AList.update ''labels'' (JList []) s4)"

definition extra_keys :: "json dict \<Rightarrow> string list" where
  "extra_keys svc = sort [k \<leftarrow> keys svc. k \<notin> set allowed_keys]"

definition is_container :: "json \<Rightarrow> bool" where
  "is_container j \<longleftrightarrow> (case j of JList _ \<Rightarrow> True | JObj _ \<Rightarrow> True | _ \<Rightarrow> False)"

definition keep_dependencies :: "string list \<Rightarrow> json dict \<Rightarrow> stop + json dict" where
  "keep_dependencies names svc =
     (case jget ''depends_on'' svc of
        JObj d \<Rightarrow> Inr (AList.update ''depends_on'' (JObj (filter (\<lambda>(k, _). k \<in> set names) d)) svc)
      | JList l \<Rightarrow>
          (if list_ex is_container l then Inl (Crash ''TypeError'')
           else Inr (AList.update ''depends_on'' (JList (filter (\<lambda>d. d \<in> JStr ` set names) l)) svc))
      | _ \<Rightarrow> Inr svc)"

definition rewrite_service :: "preview_args \<Rightarrow> string list \<Rightarrow> json dict \<Rightarrow> stop + json dict \<times> string list" where
  "rewrite_service a names svc =
     bindR (environment_of svc) (\<lambda>env.
     let s = with_platform a env svc; extra = extra_keys s in
     bindR (keep_dependencies names (drop_keys extra s)) (\<lambda>s'. Inr (s', extra)))"

section \<open>The document\<close>

text \<open>\<open>dict(svc)\<close>: an object, or something empty.\<close>

definition service_of :: "json \<Rightarrow> stop + json dict" where
  "service_of j = (case j of
      JObj d \<Rightarrow> Inr d
    | JList [] \<Rightarrow> Inr []
    | JStr [] \<Rightarrow> Inr []
    | _ \<Rightarrow> Inl (Crash ''TypeError''))"

definition route :: "(string \<times> string) option \<Rightarrow> string \<Rightarrow> string list \<Rightarrow> stop + (string \<times> string) option" where
  "route routed name labels =
     (if \<not> enabled labels then Inr routed
      else if routed \<noteq> None then Inl (Exit ''more than one Traefik-routed service; previews support one'')
      else case port_of labels of
          None \<Rightarrow> Inl (Exit (''service '' @ name @ '' has no loadbalancer.server.port label''))
        | Some p \<Rightarrow> Inr (Some (name, p)))"

type_synonym rewritten = "(string \<times> string) option \<times> (string \<times> json dict) list \<times> (string \<times> string list) list"

fun rewrite_services :: "preview_args \<Rightarrow> string list \<Rightarrow> json dict \<Rightarrow> rewritten \<Rightarrow> stop + rewritten" where
  "rewrite_services a names [] st = Inr st"
| "rewrite_services a names ((name, j) # rest) (routed, out, dropped) =
     bindR (service_of j) (\<lambda>svc.
     bindR (labels_of_service svc) (\<lambda>labels.
     bindR (route routed name labels) (\<lambda>routed'.
     bindR (rewrite_service a names svc) (\<lambda>(svc', extra).
     rewrite_services a names rest
       (routed', out @ [(name, svc')], if extra \<noteq> [] then dropped @ [(name, extra)] else dropped)))))"

definition router_labels :: "preview_args \<Rightarrow> string \<Rightarrow> string list" where
  "router_labels a port =
     (let r = project a in
      [''traefik.enable=true'',
       ''traefik.docker.network=preview'',
       ''traefik.http.routers.'' @ r @ ''.rule=Host(`'' @ preview_host a @ ''`)'',
       ''traefik.http.routers.'' @ r @ ''.entrypoints=websecure'',
       ''traefik.http.routers.'' @ r @ ''.tls.certresolver=route53'',
       ''traefik.http.routers.'' @ r @ ''.tls.domains[0].main=*.preview.billandjessie.com'',
       ''traefik.http.routers.'' @ r @ ''.middlewares=hsts@docker,authentik-forward-auth@docker'',
       ''traefik.http.services.'' @ r @ ''.loadbalancer.server.port='' @ port])"

definition set_labels :: "string \<Rightarrow> string list \<Rightarrow> string \<times> json dict \<Rightarrow> string \<times> json dict" where
  "set_labels name labels entry =
     (case entry of (n, svc) \<Rightarrow> (n, if n = name then AList.update ''labels'' (JList (map JStr labels)) svc else svc))"

definition preview_doc :: "(string \<times> json dict) list \<Rightarrow> json dict" where
  "preview_doc services =
     [(''services'', JObj (map (\<lambda>(n, s). (n, JObj s)) services)),
      (''networks'', JObj [(''preview'', JObj [(''external'', JBool True)])])]"

text \<open>In strict mode the routed service must run exactly the given image.\<close>

definition wrong_image :: "preview_args \<Rightarrow> string \<Rightarrow> (string \<times> json dict) list \<Rightarrow> bool" where
  "wrong_image a name out \<longleftrightarrow>
     strict a \<and>
     (case map_of out name of Some svc \<Rightarrow> jget ''image'' svc \<noteq> JStr (image a) | None \<Rightarrow> True)"

text \<open>The new document, the routed service with its port, and what was dropped from each service.\<close>

type_synonym previewed = "json dict \<times> (string \<times> string) \<times> (string \<times> string list) list"

definition publish_preview :: "preview_args \<Rightarrow> rewritten \<Rightarrow> stop + previewed" where
  "publish_preview a st =
     (case st of
        (None, _, _) \<Rightarrow> Inl (Exit ''no service has traefik.enable=true; nothing to preview'')
      | (Some (name, port), out, dropped) \<Rightarrow>
          (if wrong_image a name out
           then Inl (Exit (''routed service '' @ name @ '' doesn't run the PR's image''))
           else Inr (preview_doc (map (set_labels name (router_labels a port)) out), (name, port), dropped)))"

definition preview :: "preview_args \<Rightarrow> json dict \<Rightarrow> stop + previewed" where
  "preview a src =
     (if \<not> args_ok a then Inl (Exit ''bad --app or --pr'')
      else case jget ''services'' src of
        JObj (s # ss) \<Rightarrow>
          bindR (rewrite_services a (keys (s # ss)) (s # ss) (None, [], [])) (publish_preview a)
      | j \<Rightarrow> if truthy j then Inl (Crash ''AttributeError'') else Inl (Exit ''fragment has no services''))"

lemma publish_preview_Inr:
  "publish_preview a st = Inr (doc, r, dropped) \<longleftrightarrow>
     (\<exists>name port out. st = (Some (name, port), out, dropped) \<and> \<not> wrong_image a name out \<and> r = (name, port) \<and>
        doc = preview_doc (map (set_labels name (router_labels a port)) out))"
  by (auto simp: publish_preview_def split: prod.splits option.splits if_splits)

section \<open>What a rewritten service is\<close>

lemma map_of_drop_keys: "map_of (drop_keys ks d) k = (if k \<in> set ks then None else map_of d k)"
  by (induction d) (auto simp: drop_keys_def)

lemma drop_keys_id: "set (keys d) \<inter> set ks = {} \<Longrightarrow> drop_keys ks d = d"
  unfolding drop_keys_def by (rule filter_True) auto

lemma keys_drop_keys: "set (keys (drop_keys ks d)) = set (keys d) - set ks"
  by (force simp: drop_keys_def)

definition sandboxed :: "preview_args \<Rightarrow> json dict \<Rightarrow> bool" where
  "sandboxed a svc \<longleftrightarrow> set (keys svc) \<subseteq> set allowed_keys \<and>
     (\<exists>env. (\<forall>(k, v)\<in>set (platform_values env). map_of svc k = Some v) \<and>
        map_of env ''APP_NAME'' = Some (JStr (project a)) \<and> map_of env ''PREVIEW'' = Some (JStr ''1''))"

definition deps_closed :: "string list \<Rightarrow> json dict \<Rightarrow> bool" where
  "deps_closed names svc \<longleftrightarrow>
     (case jget ''depends_on'' svc of
        JObj d \<Rightarrow> set (keys d) \<subseteq> set names
      | JList l \<Rightarrow> set l \<subseteq> JStr ` set names
      | _ \<Rightarrow> True)"

definition settled :: "preview_args \<Rightarrow> string list \<Rightarrow> json dict \<Rightarrow> bool" where
  "settled a names svc \<longleftrightarrow> sandboxed a svc \<and> deps_closed names svc \<and>
     (own_image a svc \<longrightarrow> map_of svc ''image'' = Some (JStr (image a))) \<and>
     map_of svc ''labels'' = Some (JList [])"

lemma distinct_platform [simp]: "distinct (keys (platform_values env))"
  by (simp add: platform_values_def)

lemma own_image_cong: "map_of s ''image'' = map_of s' ''image'' \<Longrightarrow> own_image a s = own_image a s'"
  by (simp add: own_image_def get_or_def)

lemma repo_prefix_own [simp]: "map_of s ''image'' = Some (JStr (image a)) \<Longrightarrow> own_image a s"
  by (simp add: own_image_def get_or_def own_repos_def repo_prefix_def)

lemma map_of_with_platform:
  "map_of (with_platform a env svc) k =
     (if k = ''labels'' then Some (JList [])
      else if k \<in> {''privileged'', ''volumes'', ''devices'', ''cap_add''} then None
      else case map_of (platform_values (preview_env a env)) k of
          Some v \<Rightarrow> Some v
        | None \<Rightarrow> (if k = ''image'' \<and> own_image a svc then Some (JStr (image a))
                   else if k \<in> {''container_name'', ''ports''} then None else map_of svc k))"
proof -
  have "own_image a (drop_keys [''container_name'', ''ports''] svc) = own_image a svc"
    by (rule own_image_cong) (simp add: map_of_drop_keys)
  then show ?thesis
    by (simp add: with_platform_def Let_def map_of_drop_keys map_of_dict_update split: option.split)
qed

lemma with_platform_image:
  "map_of (with_platform a env svc) ''image'' =
     (if own_image a svc then Some (JStr (image a)) else map_of svc ''image'')"
  by (simp add: map_of_with_platform platform_values_def)

lemma keep_dependencies_other:
  "keep_dependencies names svc = Inr svc' \<Longrightarrow> k \<noteq> ''depends_on'' \<Longrightarrow> map_of svc' k = map_of svc k"
  by (auto simp: keep_dependencies_def split: json.splits if_splits)

lemma jget_present: "jget k svc = v \<Longrightarrow> v \<noteq> JNull \<Longrightarrow> map_of svc k = Some v"
  by (auto simp: jget_def get_or_def split: option.splits)

lemma update_present_keys: "map_of d k = Some v \<Longrightarrow> set (keys (AList.update k w d)) = set (keys d)"
  using map_of_SomeD [of d k v] by (simp add: insert_absorb rev_image_eqI)

lemma keep_dependencies_keys:
  assumes "keep_dependencies names svc = Inr svc'"
  shows "set (keys svc') = set (keys svc)"
proof (cases "svc' = svc")
  case False
  then obtain v w where "svc' = AList.update ''depends_on'' w svc" "jget ''depends_on'' svc = v" "v \<noteq> JNull"
    using assms by (cases "jget ''depends_on'' svc") (auto simp: keep_dependencies_def split: if_splits)
  then show ?thesis
    using update_present_keys jget_present by metis
qed simp

lemma keep_dependencies_closed:
  "keep_dependencies names svc = Inr svc' \<Longrightarrow> deps_closed names svc'"
  by (cases "jget ''depends_on'' svc") (auto simp: keep_dependencies_def deps_closed_def split: if_splits)

lemma platform_allowed: "set (keys (platform_values env)) \<subseteq> set allowed_keys"
  by (simp add: platform_values_def allowed_keys_def)

lemma rewrite_settled:
  assumes "rewrite_service a names svc = Inr (svc', extra)"
  shows "settled a names svc'"
proof -
  obtain env where keep: "keep_dependencies names (drop_keys (extra_keys (with_platform a env svc)) (with_platform a env svc)) = Inr svc'"
    using assms by (auto simp: rewrite_service_def Let_def bindR_Inr)
  let ?s = "with_platform a env svc"
  have extra: "k \<in> set allowed_keys \<Longrightarrow> k \<notin> set (extra_keys ?s)" for k
    by (simp add: extra_keys_def)
  have same: "map_of svc' k = map_of ?s k" if "k \<in> set allowed_keys" "k \<noteq> ''depends_on''" for k
    using keep_dependencies_other [OF keep that(2)] extra [OF that(1)] by (simp add: map_of_drop_keys)
  have "set (keys svc') \<subseteq> set allowed_keys"
    unfolding keep_dependencies_keys [OF keep] keys_drop_keys by (auto simp: extra_keys_def)
  moreover have "\<forall>(k, v)\<in>set (platform_values (preview_env a env)). map_of svc' k = Some v"
    by (simp add: platform_values_def same allowed_keys_def map_of_with_platform)
  moreover have "map_of (preview_env a env) ''APP_NAME'' = Some (JStr (project a))"
    "map_of (preview_env a env) ''PREVIEW'' = Some (JStr ''1'')"
    by (simp_all add: preview_env_def)
  ultimately have "sandboxed a svc'"
    unfolding sandboxed_def by blast
  moreover have "map_of svc' ''image'' = map_of ?s ''image''" "map_of svc' ''labels'' = map_of ?s ''labels''"
    by (simp_all add: same allowed_keys_def)
  moreover have "own_image a svc' \<longrightarrow> map_of svc' ''image'' = Some (JStr (image a))"
    using own_image_cong [of svc' svc a] \<open>map_of svc' ''image'' = map_of ?s ''image''\<close>
    by (simp add: with_platform_image split: if_splits)
  ultimately show ?thesis
    using keep_dependencies_closed [OF keep] by (simp add: settled_def map_of_with_platform)
qed

section \<open>Rewriting again\<close>

lemma keep_dependencies_id: "deps_closed names svc \<Longrightarrow> keep_dependencies names svc = Inr svc"
proof (cases "jget ''depends_on'' svc")
  case (JList l)
  assume closed: "deps_closed names svc"
  then have "filter (\<lambda>d. d \<in> JStr ` set names) l = l" "\<not> list_ex is_container l"
    by (auto simp: deps_closed_def JList list_ex_iff is_container_def filter_id_conv)
  moreover have "map_of svc ''depends_on'' = Some (JList l)"
    using JList by (auto simp: jget_def get_or_def split: option.splits)
  ultimately show ?thesis
    by (simp add: keep_dependencies_def JList update_id)
next
  case (JObj d)
  assume closed: "deps_closed names svc"
  then have "filter (\<lambda>(k, _). k \<in> set names) d = d"
    by (auto simp: deps_closed_def JObj filter_id_conv)
  moreover have "map_of svc ''depends_on'' = Some (JObj d)"
    using JObj by (auto simp: jget_def get_or_def split: option.splits)
  ultimately show ?thesis
    by (simp add: keep_dependencies_def JObj update_id)
qed (simp_all add: keep_dependencies_def)

lemma with_platform_sandboxed:
  assumes "sandboxed a svc" and "own_image a svc \<longrightarrow> map_of svc ''image'' = Some (JStr (image a))"
    and "map_of svc ''environment'' = Some (JObj env)"
  shows "with_platform a env svc = AList.update ''labels'' (JList []) svc"
proof -
  obtain env' where p: "\<forall>(k, v)\<in>set (platform_values env'). map_of svc k = Some v"
    and e: "map_of env' ''APP_NAME'' = Some (JStr (project a))" "map_of env' ''PREVIEW'' = Some (JStr ''1'')"
    using assms(1) by (auto simp: sandboxed_def)
  then have "env' = env"
    using assms(3) by (simp add: platform_values_def)
  then have "preview_env a env = env"
    using e by (simp add: preview_env_def update_id)
  have keys: "set (keys svc) \<subseteq> set allowed_keys"
    using assms(1) by (simp add: sandboxed_def)
  have "drop_keys [''container_name'', ''ports''] svc = svc"
    "drop_keys [''privileged'', ''volumes'', ''devices'', ''cap_add''] svc = svc"
    using keys by (intro drop_keys_id; auto simp: allowed_keys_def)+
  moreover have "(if own_image a svc then AList.update ''image'' (JStr (image a)) svc else svc) = svc"
    using assms(2) by (simp add: update_id)
  moreover have "dict_update svc (platform_values (preview_env a env)) = svc"
    using p \<open>env' = env\<close> \<open>preview_env a env = env\<close> by (intro dict_update_id) auto
  ultimately show ?thesis
    by (simp add: with_platform_def Let_def)
qed

lemma settled_labels:
  assumes "settled a names svc"
  shows "sandboxed a (AList.update ''labels'' x svc) \<and> deps_closed names (AList.update ''labels'' x svc) \<and>
    (own_image a (AList.update ''labels'' x svc) \<longrightarrow> map_of (AList.update ''labels'' x svc) ''image'' = Some (JStr (image a)))"
proof -
  have "own_image a (AList.update ''labels'' x svc) = own_image a svc"
    by (rule own_image_cong) simp
  moreover have "sandboxed a (AList.update ''labels'' x svc)"
  proof -
    obtain env where keys: "set (keys svc) \<subseteq> set allowed_keys"
      and p: "\<forall>(k, v)\<in>set (platform_values env). map_of svc k = Some v"
      and e: "map_of env ''APP_NAME'' = Some (JStr (project a))" "map_of env ''PREVIEW'' = Some (JStr ''1'')"
      using assms unfolding settled_def sandboxed_def by blast
    have "\<forall>(k, v)\<in>set (platform_values env). map_of (AList.update ''labels'' x svc) k = Some v"
      using p by (simp add: platform_values_def)
    moreover have "set (keys (AList.update ''labels'' x svc)) \<subseteq> set allowed_keys"
      using keys by (simp add: allowed_keys_def)
    ultimately show ?thesis
      using e unfolding sandboxed_def by blast
  qed
  moreover have "deps_closed names (AList.update ''labels'' x svc)"
    using assms by (simp add: settled_def deps_closed_def jget_def get_or_def)
  ultimately show ?thesis
    using assms by (simp add: settled_def)
qed

lemma extra_keys_none: "set (keys svc) \<subseteq> set allowed_keys \<Longrightarrow> extra_keys svc = []"
proof -
  assume "set (keys svc) \<subseteq> set allowed_keys"
  then have "[k \<leftarrow> keys svc. k \<notin> set allowed_keys] = []"
    by (auto simp only: filter_empty_conv)
  then show ?thesis by (simp add: extra_keys_def)
qed

lemma rewrite_again:
  assumes "settled a names svc"
  shows "rewrite_service a names (AList.update ''labels'' x svc) = Inr (svc, [])"
proof -
  let ?s = "AList.update ''labels'' x svc"
  note s = settled_labels [OF assms, of x]
  obtain env where env: "map_of svc ''environment'' = Some (JObj env)"
    using assms by (auto simp: settled_def sandboxed_def platform_values_def)
  then have "environment_of ?s = Inr env"
    by (simp add: environment_of_def jget_def get_or_def)
  moreover have "with_platform a env ?s = svc"
  proof -
    have "map_of ?s ''environment'' = Some (JObj env)"
      using env by simp
    from with_platform_sandboxed [OF conjunct1 [OF s] conjunct2 [OF conjunct2 [OF s]] this]
    have "with_platform a env ?s = AList.update ''labels'' (JList []) svc"
      by simp
    moreover have "map_of svc ''labels'' = Some (JList [])"
      using assms by (simp add: settled_def)
    ultimately show ?thesis by (simp add: update_id)
  qed
  moreover have "extra_keys svc = []"
    using assms unfolding settled_def sandboxed_def by (blast intro: extra_keys_none)
  moreover have "drop_keys [] svc = svc"
    by (rule drop_keys_id) simp
  moreover have "keep_dependencies names svc = Inr svc"
    using assms by (intro keep_dependencies_id) (simp add: settled_def)
  ultimately show ?thesis
    by (simp add: rewrite_service_def Let_def)
qed


section \<open>All the services\<close>

text \<open>What \<open>rewrite_services\<close> makes of one service.\<close>

definition one_service :: "preview_args \<Rightarrow> string list \<Rightarrow> string \<times> json \<Rightarrow> string \<times> json dict \<Rightarrow> bool" where
  "one_service a names entry new \<longleftrightarrow>
     fst new = fst entry \<and>
     (\<exists>svc extra. service_of (snd entry) = Inr svc \<and> rewrite_service a names svc = Inr (snd new, extra))"

lemma rewrite_services_out:
  assumes "rewrite_services a names ss (routed, out, dropped) = Inr (routed', out', dropped')"
  shows "\<exists>new. out' = out @ new \<and> list_all2 (one_service a names) ss new"
  using assms
proof (induction ss arbitrary: routed out dropped)
  case (Cons s ss)
  obtain name j where s: "s = (name, j)" by (cases s)
  obtain svc labels r1 svc' extra where
    one: "service_of j = Inr svc" "rewrite_service a names svc = Inr (svc', extra)"
    and rest: "rewrite_services a names ss
       (r1, out @ [(name, svc')], if extra \<noteq> [] then dropped @ [(name, extra)] else dropped)
       = Inr (routed', out', dropped')"
    using Cons.prems by (auto simp: s bindR_Inr)
  obtain new where "out' = (out @ [(name, svc')]) @ new" "list_all2 (one_service a names) ss new"
    using Cons.IH [OF rest] by blast
  moreover have "one_service a names s (name, svc')"
    using one by (simp add: one_service_def s)
  ultimately show ?case
    by (intro exI [of _ "(name, svc') # new"]) simp
qed simp

lemma route_port: "route routed name labels = Inr (Some (n, p)) \<Longrightarrow>
    routed = Some (n, p) \<or> n = name \<and> port_of labels = Some p"
  by (auto simp: route_def split: if_splits option.splits)

lemma port_of_label_digits: "port_of_label s = Some d \<Longrightarrow> d \<noteq> [] \<and> list_all is_digit d"
  by (auto simp: port_of_label_def Let_def split: if_splits option.splits)

lemma port_of_digits: "port_of labels = Some d \<Longrightarrow> d \<noteq> [] \<and> list_all is_digit d"
proof -
  have "fold (\<lambda>l p. case port_of_label l of Some d \<Rightarrow> Some d | None \<Rightarrow> p) labels p0 = Some d \<Longrightarrow>
      p0 = Some d \<or> d \<noteq> [] \<and> list_all is_digit d" for p0
  proof (induction labels arbitrary: p0)
    case (Cons l labels)
    then show ?case
      using port_of_label_digits [of l] by (fastforce split: option.splits)
  qed simp
  then show "port_of labels = Some d \<Longrightarrow> ?thesis"
    unfolding port_of_def by blast
qed

definition good_route :: "string list \<Rightarrow> (string \<times> string) option \<Rightarrow> bool" where
  "good_route names r \<longleftrightarrow> (\<forall>n p. r = Some (n, p) \<longrightarrow> n \<in> set names \<and> p \<noteq> [] \<and> list_all is_digit p)"

lemma rewrite_services_route:
  assumes "rewrite_services a names ss (routed, out, dropped) = Inr (routed', out', dropped')"
    and "set (keys ss) \<subseteq> set names" and "good_route names routed"
  shows "good_route names routed'"
  using assms
proof (induction ss arbitrary: routed out dropped)
  case (Cons s ss)
  obtain name j where s: "s = (name, j)" by (cases s)
  obtain labels r1 out1 dropped1 where r: "route routed name labels = Inr r1"
    and rest: "rewrite_services a names ss (r1, out1, dropped1) = Inr (routed', out', dropped')"
    using Cons.prems by (auto simp: s bindR_Inr)
  have "good_route names r1"
    unfolding good_route_def
  proof (intro allI impI)
    fix n p
    assume "r1 = Some (n, p)"
    with r have "routed = Some (n, p) \<or> n = name \<and> port_of labels = Some p"
      using route_port by blast
    then show "n \<in> set names \<and> p \<noteq> [] \<and> list_all is_digit p"
      using Cons.prems(2,3) port_of_digits by (auto simp: good_route_def s)
  qed
  with Cons.IH [OF rest] Cons.prems(2) show ?case by simp
qed simp

lemma one_service_settled: "one_service a names e new \<Longrightarrow> fst new = fst e \<and> settled a names (snd new)"
  using rewrite_settled by (auto simp: one_service_def)

lemma services_settled:
  "list_all2 (one_service a names) ss new \<Longrightarrow>
     keys new = keys ss \<and> (\<forall>e\<in>set new. settled a names (snd e))"
  by (induction rule: list_all2_induct) (auto dest: one_service_settled)


section \<open>The second run\<close>

lemma args_chars: "args_ok a \<Longrightarrow> app a \<noteq> [] \<and> (\<forall>c\<in>set (app a). app_char c) \<and> (\<forall>c\<in>set (pr a). is_digit c)"
  by (simp add: args_ok_def full_match_lang lang_plus_Cls)

lemma project_no_dot: "args_ok a \<Longrightarrow> CHR ''.'' \<notin> set (project a)"
  using args_chars [of a] by (auto simp: project_def app_char_def is_lower_def is_digit_def)

definition port_label :: "preview_args \<Rightarrow> string \<Rightarrow> string" where
  "port_label a port = port_prefix @ project a @ ''.'' @ port_infix @ port"

lemma port_of_port_label:
  assumes "args_ok a" and "port \<noteq> []" and "list_all is_digit port"
  shows "port_of_label (port_label a port) = Some port"
proof -
  have "partition1 (CHR ''.'') (project a @ CHR ''.'' # port_infix @ port) = Some (project a, port_infix @ port)"
    by (rule partition1_append) (rule project_no_dot [OF assms(1)])
  moreover have "project a \<noteq> []"
    by (simp add: project_def)
  ultimately show ?thesis
    using assms(2,3) by (simp add: port_of_label_def port_label_def Let_def)
qed

lemma port_of_last: "port_of_label l = Some d \<Longrightarrow> port_of (ls @ [l]) = Some d"
  by (simp add: port_of_def)

lemma router_labels_last: "\<exists>ls. router_labels a port = (''traefik.enable=true'' # ls) @ [port_label a port]"
  unfolding router_labels_def Let_def port_label_def port_prefix_def port_infix_def
  by (rule exI [of _ "[_, _, _, _, _, _]"]) simp

lemma router_labels_route:
  assumes "args_ok a" and "port \<noteq> []" and "list_all is_digit port"
  shows "enabled (router_labels a port) \<and> port_of (router_labels a port) = Some port"
proof -
  obtain ls where ls: "router_labels a port = (''traefik.enable=true'' # ls) @ [port_label a port]"
    using router_labels_last by blast
  show ?thesis
    unfolding ls using port_of_last [OF port_of_port_label [OF assms], of "''traefik.enable=true'' # ls"]
    by (simp add: enabled_def)
qed

lemma mapR_label_text [simp]: "mapR label_text (map JStr ls) = Inr ls"
  by (induction ls) (simp_all add: label_text_def)

text \<open>The services as the second run reads them.\<close>

definition written :: "string \<Rightarrow> string list \<Rightarrow> string \<times> json dict \<Rightarrow> string \<times> json" where
  "written name labels e = (case set_labels name labels e of (n, s) \<Rightarrow> (n, JObj s))"

lemma written_settled:
  assumes "settled a names s"
  shows "written name labels (n, s) =
    (n, JObj (AList.update ''labels'' (JList (if n = name then map JStr labels else [])) s))"
proof -
  have "AList.update ''labels'' (JList []) s = s"
    using assms by (simp add: settled_def update_id)
  then show ?thesis
    by (simp add: written_def set_labels_def)
qed

lemma labels_written:
  "labels_of_service (AList.update ''labels'' (JList (if b then map JStr labels else [])) s) =
     Inr (if b then labels else [])"
  by (simp add: labels_of_service_def)

lemma route_written:
  assumes "enabled labels" and "port_of labels = Some port" and "n = name \<longrightarrow> routed = None"
  shows "route routed n (if n = name then labels else []) = Inr (if n = name then Some (name, port) else routed)"
  using assms by (simp add: route_def enabled_def)

lemma rewrite_services_again:
  assumes "\<forall>e\<in>set new. settled a names (snd e)"
    and "enabled labels" and "port_of labels = Some port" and "distinct (keys new)"
    and "name \<in> set (keys new) \<longrightarrow> routed = None"
  shows "rewrite_services a names (map (written name labels) new) (routed, out, dropped) =
    Inr (if name \<in> set (keys new) then Some (name, port) else routed, out @ new, dropped)"
  using assms
proof (induction new arbitrary: routed out)
  case (Cons e new)
  obtain n s where e: "e = (n, s)" by (cases e)
  have s: "settled a names s" using Cons.prems(1) e by simp
  have r: "n = name \<longrightarrow> routed = None" using Cons.prems(5) e by simp
  note route = route_written [OF Cons.prems(2,3) r]
  define r1 where "r1 = (if n = name then Some (name, port) else routed)"
  have "rewrite_services a names (map (written name labels) (e # new)) (routed, out, dropped) =
     rewrite_services a names (map (written name labels) new) (r1, out @ [(n, s)], dropped)"
    by (simp add: e written_settled [OF s] service_of_def labels_written route rewrite_again [OF s] r1_def del: if_split)
  also have "\<dots> = Inr (if name \<in> set (keys new) then Some (name, port) else r1, (out @ [(n, s)]) @ new, dropped)"
    using Cons.prems e by (intro Cons.IH) (auto simp: r1_def)
  also have "\<dots> = Inr (if name \<in> set (keys (e # new)) then Some (name, port) else routed, out @ e # new, dropped)"
    using Cons.prems(4) by (auto simp: e r1_def)
  finally show ?case .
qed simp


section \<open>The whole script\<close>

lemma preview_result:
  assumes "preview a src = Inr (doc, (name, port), dropped)"
  obtains ss new where "args_ok a" "jget ''services'' src = JObj ss" "ss \<noteq> []"
    "list_all2 (one_service a (keys ss)) ss new" "keys new = keys ss"
    "\<forall>e\<in>set new. settled a (keys ss) (snd e)"
    "name \<in> set (keys ss)" "port \<noteq> []" "list_all is_digit port"
    "doc = preview_doc (map (set_labels name (router_labels a port)) new)" "\<not> wrong_image a name new"
proof -
  have args: "args_ok a"
    using assms by (simp add: preview_def split: if_splits)
  obtain ss where ss: "jget ''services'' src = JObj ss" "ss \<noteq> []"
    using assms args by (auto simp: preview_def split: json.splits list.splits if_splits)
  then obtain s ss' where "ss = s # ss'"
    by (cases ss) auto
  with assms args ss have
    "bindR (rewrite_services a (keys ss) ss (None, [], [])) (publish_preview a) = Inr (doc, (name, port), dropped)"
    by (simp add: preview_def)
  then obtain out where
    run: "rewrite_services a (keys ss) ss (None, [], []) = Inr (Some (name, port), out, dropped)"
    and doc: "doc = preview_doc (map (set_labels name (router_labels a port)) out)" "\<not> wrong_image a name out"
    unfolding bindR_Inr publish_preview_Inr by blast
  obtain new where new: "out = new" "list_all2 (one_service a (keys ss)) ss new"
    using rewrite_services_out [OF run] by auto
  have "good_route (keys ss) (Some (name, port))"
    by (rule rewrite_services_route [OF run]) (simp_all add: good_route_def)
  then have "name \<in> set (keys ss)" "port \<noteq> []" "list_all is_digit port"
    by (simp_all add: good_route_def)
  with that [OF args ss new(2)] services_settled [OF new(2)] doc new(1) show ?thesis
    by simp
qed

lemma preview_doc_services: "jget ''services'' (preview_doc (map (set_labels name labels) new)) =
    JObj (map (written name labels) new)"
  by (simp add: preview_doc_def written_def)

lemma keys_written: "keys (map (written name labels) new) = keys new"
  by (auto simp: written_def set_labels_def split: prod.splits)

text \<open>C34: the script run on its own output, as the hub does, changes nothing: the second document
  is the first, with the same routed service and port, and nothing is dropped.\<close>

theorem preview_idempotent:
  assumes "preview a src = Inr (doc, routed, dropped)" and "distinct (keys (sub_obj ''services'' src))"
  shows "preview a doc = Inr (doc, routed, [])"
proof -
  obtain name port where routed: "routed = (name, port)" by (cases routed)
  obtain ss new where args: "args_ok a" and ss: "jget ''services'' src = JObj ss" "ss \<noteq> []"
    and one: "list_all2 (one_service a (keys ss)) ss new" and keys: "keys new = keys ss"
    and new: "\<forall>e\<in>set new. settled a (keys ss) (snd e)"
    and name: "name \<in> set (keys ss)" and port: "port \<noteq> []" "list_all is_digit port"
    and doc: "doc = preview_doc (map (set_labels name (router_labels a port)) new)" "\<not> wrong_image a name new"
    by (rule preview_result [OF assms(1) [unfolded routed]])
  let ?L = "router_labels a port"
  let ?ss = "map (written name ?L) new"
  have L: "enabled ?L" "port_of ?L = Some port"
    using router_labels_route [OF args port] by simp_all
  have "distinct (keys new)"
    using assms(2) keys by (simp add: sub_obj_def ss)
  then have "rewrite_services a (keys ss) ?ss (None, [], []) =
      Inr (if name \<in> set (keys new) then Some (name, port) else None, [] @ new, [])"
    by (intro rewrite_services_again [OF new L]) simp_all
  then have run: "rewrite_services a (keys ?ss) ?ss (None, [], []) = Inr (Some (name, port), new, [])"
    using name keys by (simp only: keys_written) simp
  obtain s ss' where cons: "?ss = s # ss'"
    using ss(2) keys by (cases new) auto
  have "jget ''services'' doc = JObj (s # ss')"
    using cons by (simp add: doc preview_doc_services)
  moreover have "publish_preview a (Some (name, port), new, []) = Inr (doc, routed, [])"
    using doc by (simp add: publish_preview_Inr routed)
  ultimately show ?thesis
    using args run unfolding cons preview_def by (simp del: rewrite_services.simps)
qed

lemma sandboxed_update: "settled a names s \<Longrightarrow> sandboxed a (AList.update ''labels'' x s)"
  using settled_labels by blast

lemma set_labels_entry:
  assumes "settled a names s" and "set_labels name labels (n, s) = (n', s')"
  shows "n' = n \<and> sandboxed a s' \<and> deps_closed names s' \<and>
    jget ''labels'' s' = JList (if n = name then map JStr labels else [])"
proof (cases "n = name")
  case True
  then have "n' = n" "s' = AList.update ''labels'' (JList (map JStr labels)) s"
    using assms(2) by (simp_all add: set_labels_def)
  moreover have "sandboxed a (AList.update ''labels'' x s) \<and> deps_closed names (AList.update ''labels'' x s)" for x
    using settled_labels [OF assms(1)] by blast
  ultimately show ?thesis
    by (simp add: True)
next
  case False
  then have "n' = n" "s' = s"
    using assms(2) by (simp_all add: set_labels_def)
  moreover have "jget ''labels'' s = JList []"
    using assms(1) by (simp add: settled_def jget_def get_or_def)
  ultimately show ?thesis
    using assms(1) False by (simp add: settled_def)
qed

text \<open>The example of the witnesses: an app with a database and a privileged sidecar.\<close>

definition example_args :: preview_args where
  "example_args = \<lparr>app = ''web'', pr = ''7'', image = ''r/web-preview:pr7'', strict = True\<rparr>"

definition example_doc :: "json dict" where
  "example_doc =
    [(''services'', JObj
       [(''web'', JObj
          [(''image'', JStr ''r/web:1''), (''container_name'', JStr ''web''),
           (''labels'', JList [JStr ''traefik.enable=true'', JStr ''traefik.http.services.web.loadbalancer.server.port=80'']),
           (''depends_on'', JList [JStr ''side'', JStr ''db''])]),
        (''side'', JObj [(''image'', JStr ''other:9''), (''pid'', JStr ''host''), (''privileged'', JBool True)])])]"

definition example_out :: "(string \<times> json dict) list" where
  "example_out =
    [(''web'',
       [(''image'', JStr ''r/web-preview:pr7''),
        (''labels'', JList (map JStr (router_labels example_args ''80''))),
        (''depends_on'', JList [JStr ''side'']),
        (''environment'', JObj [(''APP_NAME'', JStr ''web-pr7''), (''PREVIEW'', JStr ''1'')]),
        (''env_file'', JList [JStr ''.env'']), (''networks'', JList [JStr ''preview'']),
        (''mem_limit'', JStr ''384m''), (''cpus'', JFloat ''0.5''), (''pids_limit'', JInt 256),
        (''security_opt'', JList [JStr ''no-new-privileges:true'']), (''cap_drop'', JList [JStr ''ALL''])]),
     (''side'',
       [(''image'', JStr ''other:9''),
        (''environment'', JObj [(''APP_NAME'', JStr ''web-pr7''), (''PREVIEW'', JStr ''1'')]),
        (''env_file'', JList [JStr ''.env'']), (''networks'', JList [JStr ''preview'']),
        (''mem_limit'', JStr ''384m''), (''cpus'', JFloat ''0.5''), (''pids_limit'', JInt 256),
        (''security_opt'', JList [JStr ''no-new-privileges:true'']), (''cap_drop'', JList [JStr ''ALL'']),
        (''labels'', JList [])])]"

lemma example_preview:
  "preview example_args example_doc = Inr (preview_doc example_out, (''web'', ''80''), [(''side'', [''pid''])])"
  by code_simp

theorem preview_idempotent_witness:
  "preview example_args (preview_doc example_out) = Inr (preview_doc example_out, (''web'', ''80''), [])"
  by (rule preview_idempotent [OF example_preview]) code_simp

text \<open>What a service may not escape: the platform's network and limits, no capabilities and no new
  privileges, and no key through which it could reach the host.\<close>

definition confined :: "preview_args \<Rightarrow> json dict \<Rightarrow> bool" where
  "confined a svc \<longleftrightarrow>
     set (keys svc) \<subseteq> set allowed_keys \<and>
     (\<forall>k\<in>{''privileged'', ''volumes'', ''devices'', ''cap_add'', ''ports'', ''container_name''}. k \<notin> set (keys svc)) \<and>
     jget ''networks'' svc = JList [JStr ''preview''] \<and>
     jget ''cap_drop'' svc = JList [JStr ''ALL''] \<and>
     jget ''security_opt'' svc = JList [JStr ''no-new-privileges:true''] \<and>
     jget ''mem_limit'' svc = JStr ''384m'' \<and> jget ''cpus'' svc = JFloat ''0.5'' \<and> jget ''pids_limit'' svc = JInt 256 \<and>
     jget ''env_file'' svc = JList [JStr ''.env''] \<and>
     (\<exists>env. jget ''environment'' svc = JObj env \<and> jget ''APP_NAME'' env = JStr (project a) \<and> jget ''PREVIEW'' env = JStr ''1'')"

lemma sandboxed_confined: "sandboxed a svc \<Longrightarrow> confined a svc"
  by (auto simp: sandboxed_def confined_def platform_values_def jget_def get_or_def allowed_keys_def)

text \<open>C6: what a successful run puts in the document: the services of the fragment under their own
  names and the one external network, and nothing else. Every service has only allowed keys, the
  platform's network, limits, environment and dropped capabilities, depends only on services of
  the document, and has no labels unless it is the routed one, which has exactly the router's.\<close>

theorem preview_sandboxed:
  assumes "preview a src = Inr (doc, (name, port), dropped)"
  shows "\<exists>services. doc = preview_doc services \<and> keys services = keys (sub_obj ''services'' src) \<and>
    name \<in> set (keys services) \<and>
    (\<forall>(n, s)\<in>set services. confined a s \<and> deps_closed (keys services) s \<and>
       jget ''labels'' s = JList (if n = name then map JStr (router_labels a port) else []))"
proof -
  obtain ss new where "args_ok a" and ss: "jget ''services'' src = JObj ss" and "ss \<noteq> []"
    and "list_all2 (one_service a (keys ss)) ss new" and keys: "keys new = keys ss"
    and new: "\<forall>e\<in>set new. settled a (keys ss) (snd e)"
    and name: "name \<in> set (keys ss)" and "port \<noteq> []" "list_all is_digit port"
    and doc: "doc = preview_doc (map (set_labels name (router_labels a port)) new)" "\<not> wrong_image a name new"
    by (rule preview_result [OF assms])
  let ?services = "map (set_labels name (router_labels a port)) new"
  have k: "keys ?services = keys new"
    by (auto simp: set_labels_def split: prod.splits)
  have "\<forall>(n, s)\<in>set ?services. confined a s \<and> deps_closed (keys ?services) s \<and>
      jget ''labels'' s = JList (if n = name then map JStr (router_labels a port) else [])"
  proof (rule ballI, clarify)
    fix n' s'
    assume "(n', s') \<in> set ?services"
    then obtain n s where e: "(n, s) \<in> set new" "set_labels name (router_labels a port) (n, s) = (n', s')"
      by auto
    then have "settled a (keys ss) s" using new by auto
    from set_labels_entry [OF this e(2)] have "sandboxed a s' \<and> deps_closed (keys ?services) s' \<and>
        jget ''labels'' s' = JList (if n' = name then map JStr (router_labels a port) else [])"
      using keys k by metis
    then show "confined a s' \<and> deps_closed (keys ?services) s' \<and>
        jget ''labels'' s' = JList (if n' = name then map JStr (router_labels a port) else [])"
      using sandboxed_confined by blast
  qed
  moreover have "keys ?services = keys (sub_obj ''services'' src)"
    using k keys by (simp add: sub_obj_def ss)
  moreover have "name \<in> set (keys ?services)"
    using name keys k by (simp only:)
  ultimately show ?thesis
    using doc(1) by (intro exI [of _ ?services] conjI)
qed

theorem preview_sandboxed_witness:
  "\<exists>services. preview_doc example_out = preview_doc services \<and>
    keys services = keys (sub_obj ''services'' example_doc) \<and> ''web'' \<in> set (keys services) \<and>
    (\<forall>(n, s)\<in>set services. confined example_args s \<and> deps_closed (keys services) s \<and>
       jget ''labels'' s = JList (if n = ''web'' then map JStr (router_labels example_args ''80'') else []))"
  by (rule preview_sandboxed [OF example_preview])

lemma rewrite_image:
  assumes "rewrite_service a names svc = Inr (svc', extra)"
  shows "map_of svc' ''image'' = (if own_image a svc then Some (JStr (image a)) else map_of svc ''image'')"
proof -
  obtain env where keep: "keep_dependencies names (drop_keys (extra_keys (with_platform a env svc)) (with_platform a env svc)) = Inr svc'"
    using assms by (auto simp: rewrite_service_def Let_def bindR_Inr)
  have "''image'' \<notin> set (extra_keys (with_platform a env svc))"
    by (simp add: extra_keys_def allowed_keys_def)
  then have "map_of svc' ''image'' = map_of (with_platform a env svc) ''image''"
    using keep_dependencies_other [OF keep, of "''image''"] by (simp add: map_of_drop_keys)
  then show ?thesis
    by (simp add: with_platform_image)
qed

lemma set_labels_image: "map_of (snd (set_labels name labels e)) ''image'' = map_of (snd e) ''image''"
  by (simp add: set_labels_def split: prod.splits)

text \<open>The images of a preview, in strict mode too: each service that runs the app's own repository
  runs the image of the pull request, and every other service keeps the image the fragment names,
  whatever it is.\<close>

theorem preview_images:
  assumes "preview a src = Inr (doc, routed, dropped)"
  shows "\<exists>services. doc = preview_doc services \<and>
    list_all2 (\<lambda>(n, j) (n', s). n' = n \<and>
        (\<exists>svc. service_of j = Inr svc \<and>
           map_of s ''image'' = (if own_image a svc then Some (JStr (image a)) else map_of svc ''image'')))
      (sub_obj ''services'' src) services"
proof -
  obtain name port where routed: "routed = (name, port)" by (cases routed)
  obtain ss new where "args_ok a" and ss: "jget ''services'' src = JObj ss" and "ss \<noteq> []"
    and one: "list_all2 (one_service a (keys ss)) ss new" and "keys new = keys ss"
    and "\<forall>e\<in>set new. settled a (keys ss) (snd e)"
    and "name \<in> set (keys ss)" and "port \<noteq> []" "list_all is_digit port"
    and doc: "doc = preview_doc (map (set_labels name (router_labels a port)) new)" "\<not> wrong_image a name new"
    by (rule preview_result [OF assms [unfolded routed]])
  let ?same = "\<lambda>(n, j) (n', s). n' = n \<and> (\<exists>svc. service_of j = Inr svc \<and>
      map_of s ''image'' = (if own_image a svc then Some (JStr (image a)) else map_of svc ''image''))"
  have "?same e (set_labels name (router_labels a port) e')" if "one_service a (keys ss) e e'" for e e'
  proof -
    obtain svc extra where "fst e' = fst e" "service_of (snd e) = Inr svc"
      "rewrite_service a (keys ss) svc = Inr (snd e', extra)"
      using \<open>one_service a (keys ss) e e'\<close> unfolding one_service_def by blast
    moreover have "fst (set_labels name (router_labels a port) e') = fst e'"
      by (simp add: set_labels_def split: prod.splits)
    ultimately show ?thesis
      using rewrite_image set_labels_image [of name "router_labels a port" e'] by (auto split: prod.splits)
  qed
  with one have "list_all2 ?same ss (map (set_labels name (router_labels a port)) new)"
    unfolding list.rel_map(2) by (rule list.rel_mono_strong)
  moreover have "sub_obj ''services'' src = ss"
    by (simp add: sub_obj_def ss)
  ultimately show ?thesis
    using doc(1) by (intro exI [of _ "map (set_labels name (router_labels a port)) new"]) (simp only: simp_thms)
qed

theorem preview_images_witness:
  "\<exists>services. preview_doc example_out = preview_doc services \<and>
    list_all2 (\<lambda>(n, j) (n', s). n' = n \<and>
        (\<exists>svc. service_of j = Inr svc \<and>
           map_of s ''image'' = (if own_image example_args svc then Some (JStr (image example_args)) else map_of svc ''image'')))
      (sub_obj ''services'' example_doc) services"
  by (rule preview_images [OF example_preview])

end
