(* ===== verification/DagArchive.thy ===== *)
theory DagArchive
  imports Regex
begin

text \<open>
  \<open>scripts/hub/app-dags.py\<close>: the check of an app's staged DAG archive. The archive is the list of
  its members, as \<open>tarfile\<close> returns it; a run gives the exit status, the line it prints and the
  files it writes, in order. An archive that \<open>tarfile\<close> cannot read raises before anything is written.
\<close>

datatype member_kind = Directory | Regular | Special

record tar_member =
  member_name :: string
  member_kind :: member_kind
  member_size :: int
  member_data :: string

section \<open>The check\<close>

definition max_files :: nat where
  "max_files = 200"

definition max_file_bytes :: int where
  "max_file_bytes = 1024 * 1024"

definition plain_start :: "char \<Rightarrow> bool" where
  "plain_start c \<longleftrightarrow> is_alnum c \<or> c = CHR ''_''"

definition plain_char :: "char \<Rightarrow> bool" where
  "plain_char c \<longleftrightarrow> plain_start c \<or> c = CHR ''-''"

definition dag_dir :: rx where
  "dag_dir = Cat (Cls plain_start) (Cat (Star (Cls plain_char)) (lit ''/''))"

definition dag_file :: rx where
  "dag_file = Cat (Cls plain_start) (Cat (Star (Cls plain_char)) (lit ''.py''))"

definition dag_name :: rx where
  "dag_name = Cat (Star dag_dir) dag_file"

definition inner_name :: "tar_member \<Rightarrow> string" where
  "inner_name m = (if prefix ''./'' (member_name m) then drop 2 (member_name m) else member_name m)"

definition skipped :: "tar_member \<Rightarrow> bool" where
  "skipped m \<longleftrightarrow> inner_name m = [] \<or> inner_name m = ''.'' \<or> member_kind m = Directory"

text \<open>The line that refuses a member, if any.\<close>

definition refusal :: "tar_member \<Rightarrow> string option" where
  "refusal m =
     (if member_kind m \<noteq> Regular then Some (''not a regular file: '' @ member_name m)
      else if \<not> full_match dag_name (inner_name m) then Some (''not an allowed DAG file name: '' @ member_name m)
      else if max_file_bytes < member_size m
        then Some (''too large ('' @ str_of_int (member_size m) @ '' bytes): '' @ member_name m)
      else None)"

fun check_members :: "tar_member list \<Rightarrow> (string \<times> tar_member) list \<Rightarrow> string + (string \<times> tar_member) list" where
  "check_members [] files = Inr files"
| "check_members (m # ms) files =
     (if skipped m then check_members ms files
      else case refusal m of
          Some line \<Rightarrow> Inl line
        | None \<Rightarrow> check_members ms (files @ [(inner_name m, m)]))"

text \<open>\<open>os.path.join\<close>.\<close>

definition path_join :: "string \<Rightarrow> string \<Rightarrow> string" where
  "path_join a b =
     (if prefix ''/'' b then b else if a = [] \<or> suffix ''/'' a then a @ b else a @ ''/'' @ b)"

definition app_dags :: "tar_member list \<Rightarrow> string \<Rightarrow> nat \<times> string \<times> (string \<times> string) list" where
  "app_dags members dest =
     (case check_members members [] of
        Inl line \<Rightarrow> (1, line, [])
      | Inr files \<Rightarrow>
          (if max_files < length files
           then (1, ''too many files ('' @ str_of_nat (length files) @ '' > '' @ str_of_nat max_files @ '')'', [])
           else (0, str_of_nat (length files), map (\<lambda>(name, m). (path_join dest name, member_data m)) files)))"

section \<open>What a DAG name is\<close>

text \<open>A path component that is neither hidden nor an option nor a dot name.\<close>

definition plain_word :: "string \<Rightarrow> bool" where
  "plain_word w \<longleftrightarrow> w \<noteq> [] \<and> plain_start (hd w) \<and> list_all plain_char w"

definition plain_path :: "string list \<Rightarrow> string \<Rightarrow> bool" where
  "plain_path dirs base \<longleftrightarrow> list_all plain_word dirs \<and> plain_word base"

definition dag_path :: "string list \<Rightarrow> string \<Rightarrow> string" where
  "dag_path dirs base = join ''/'' (dirs @ [base @ ''.py''])"

lemma plain_word_Cons: "plain_word (c # w) \<longleftrightarrow> plain_start c \<and> list_all plain_char w"
  by (auto simp: plain_word_def plain_char_def)

lemma word_then: "s \<in> lang (Cat (Cls plain_start) (Cat (Star (Cls plain_char)) (lit x))) \<longleftrightarrow>
    (\<exists>w. plain_word w \<and> s = w @ x)"
proof (cases s)
  case Nil
  then show ?thesis
    by (auto simp: plain_word_def lang_Cat)
next
  case (Cons c t)
  have "t \<in> lang (Cat (Star (Cls plain_char)) (lit x)) \<longleftrightarrow> (\<exists>w. list_all plain_char w \<and> t = w @ x)"
    by (auto simp: lang_Cat star_chars list_all_iff)
  moreover have "(\<exists>w. plain_word w \<and> c # t = w @ x) \<longleftrightarrow> plain_start c \<and> (\<exists>w. list_all plain_char w \<and> t = w @ x)"
  proof
    assume "\<exists>w. plain_word w \<and> c # t = w @ x"
    then obtain w where w: "plain_word w" "c # t = w @ x" by blast
    then obtain w' where "w = c # w'"
      by (cases w) (auto simp: plain_word_def)
    with w show "plain_start c \<and> (\<exists>w. list_all plain_char w \<and> t = w @ x)"
      by (auto simp: plain_word_Cons)
  next
    assume "plain_start c \<and> (\<exists>w. list_all plain_char w \<and> t = w @ x)"
    then obtain w where "plain_word (c # w)" "t = w @ x"
      by (auto simp: plain_word_Cons)
    then show "\<exists>w. plain_word w \<and> c # t = w @ x"
      by (intro exI [of _ "c # w"]) simp
  qed
  ultimately show ?thesis
    by (simp add: Cons)
qed

lemma star_dirs: "s \<in> star (lang dag_dir) \<longleftrightarrow> (\<exists>dirs. list_all plain_word dirs \<and> s = concat (map (\<lambda>d. d @ ''/'') dirs))"
proof
  assume "s \<in> star (lang dag_dir)"
  then show "\<exists>dirs. list_all plain_word dirs \<and> s = concat (map (\<lambda>d. d @ ''/'') dirs)"
  proof (induction rule: star.induct)
    case star_Nil
    show ?case by (rule exI [of _ "[]"]) simp
  next
    case (star_step u v)
    then obtain d dirs where "plain_word d" "u = d @ ''/''" "list_all plain_word dirs"
      "v = concat (map (\<lambda>d. d @ ''/'') dirs)"
      using word_then [of u "''/''"] unfolding dag_dir_def by blast
    then show ?case by (intro exI [of _ "d # dirs"]) simp
  qed
next
  have "list_all plain_word dirs \<Longrightarrow> concat (map (\<lambda>d. d @ ''/'') dirs) \<in> star (lang dag_dir)" for dirs
  proof (induction dirs)
    case Nil
    show ?case using star.star_Nil by simp
  next
    case (Cons d dirs)
    have "d @ ''/'' \<in> lang dag_dir"
      using word_then [of "d @ ''/''" "''/''"] Cons.prems unfolding dag_dir_def by auto
    with Cons star.star_step [of "d @ ''/''" "lang dag_dir"] show ?case by simp
  qed
  then show "\<exists>dirs. list_all plain_word dirs \<and> s = concat (map (\<lambda>d. d @ ''/'') dirs) \<Longrightarrow> s \<in> star (lang dag_dir)"
    by blast
qed

lemma concat_dirs: "concat (map (\<lambda>d. d @ ''/'') dirs) @ f = join ''/'' (dirs @ [f])"
  by (induction dirs) (simp_all add: join_Cons)

lemma dag_name_match: "full_match dag_name s \<longleftrightarrow> (\<exists>dirs base. plain_path dirs base \<and> s = dag_path dirs base)"
proof -
  have "s \<in> lang dag_name \<longleftrightarrow> (\<exists>u v. s = u @ v \<and> u \<in> star (lang dag_dir) \<and> v \<in> lang dag_file)"
    by (simp add: dag_name_def lang_Cat)
  also have "\<dots> \<longleftrightarrow> (\<exists>dirs base. list_all plain_word dirs \<and> plain_word base \<and>
      s = concat (map (\<lambda>d. d @ ''/'') dirs) @ base @ ''.py'')"
    unfolding star_dirs dag_file_def word_then by blast
  finally show ?thesis
    by (simp add: full_match_lang plain_path_def dag_path_def concat_dirs)
qed

lemma plain_word_chars: "plain_word w \<Longrightarrow> c \<in> set w \<Longrightarrow> c \<noteq> CHR ''/'' \<and> c \<noteq> CHR ''.''"
  by (auto simp: plain_word_def list_all_iff plain_char_def plain_start_def is_alnum_def is_digit_def
      is_lower_def is_upper_def)

text \<open>The components of a name are the words it is made of: no component is empty, a dot name or an
  absolute path, and no file is a directory of another file.\<close>

lemma dag_path_components:
  assumes "plain_path dirs base"
  shows "split_on (CHR ''/'') (dag_path dirs base) = dirs @ [base @ ''.py'']"
  unfolding dag_path_def
proof (rule split_on_join)
  fix x
  assume "x \<in> set (dirs @ [base @ ''.py''])"
  then consider "plain_word x" | "x = base @ ''.py''" "plain_word base"
    using assms by (auto simp: plain_path_def list_all_iff)
  then show "CHR ''/'' \<notin> set x"
    by cases (auto dest: plain_word_chars)
qed simp

lemma dag_path_relative: "plain_path dirs base \<Longrightarrow> \<not> prefix ''/'' (dag_path dirs base)"
proof -
  assume "plain_path dirs base"
  then have "[] \<notin> set (dirs @ [base @ ''.py''])"
    by (auto simp: plain_path_def list_all_iff plain_word_def)
  then have no_empty: "[] \<notin> set (split_on (CHR ''/'') (dag_path dirs base))"
    unfolding dag_path_components [OF \<open>plain_path dirs base\<close>] .
  show ?thesis
  proof
    assume "prefix ''/'' (dag_path dirs base)"
    then obtain r where "dag_path dirs base = CHR ''/'' # r"
      by (auto simp: prefix_def)
    with no_empty show False by simp
  qed
qed

section \<open>What a run writes\<close>

definition accepted :: "tar_member \<Rightarrow> bool" where
  "accepted m \<longleftrightarrow> member_kind m = Regular \<and> member_size m \<le> max_file_bytes \<and>
     (\<exists>dirs base. plain_path dirs base \<and> inner_name m = dag_path dirs base)"

lemma refusal_None: "refusal m = None \<longleftrightarrow> accepted m"
  by (auto simp: refusal_def accepted_def dag_name_match not_less)

definition dag_files :: "tar_member list \<Rightarrow> tar_member list" where
  "dag_files members = filter (\<lambda>m. \<not> skipped m) members"

lemma dag_files_simps [simp]:
  "dag_files [] = []"
  "dag_files (m # ms) = (if skipped m then dag_files ms else m # dag_files ms)"
  by (simp_all add: dag_files_def)

lemma check_members_Inr:
  "list_all accepted (dag_files ms) \<Longrightarrow>
     check_members ms files = Inr (files @ map (\<lambda>m. (inner_name m, m)) (dag_files ms))"
  by (induction ms arbitrary: files) (auto simp: refusal_None [symmetric])

lemma check_members_Inl:
  "\<not> list_all accepted (dag_files ms) \<Longrightarrow> \<exists>line. check_members ms files = Inl line"
proof (induction ms arbitrary: files)
  case (Cons m ms)
  then show ?case
    using refusal_None [of m] by (cases "refusal m") (simp_all split: if_splits)
qed simp

text \<open>C28: the archive is delivered exactly when every member that is neither a directory nor the root is a
  regular file with an allowed name and size, and there are at most 200; then exactly those
  files are written, under their names. Otherwise the exit status is 1 and nothing is written.\<close>

theorem app_dags_all_or_nothing:
  "(if list_all accepted (dag_files members) \<and> length (dag_files members) \<le> max_files
    then app_dags members dest =
      (0, str_of_nat (length (dag_files members)),
       map (\<lambda>m. (path_join dest (inner_name m), member_data m)) (dag_files members))
    else fst (app_dags members dest) = 1 \<and> snd (snd (app_dags members dest)) = [])"
proof (cases "list_all accepted (dag_files members)")
  case True
  then have "check_members members [] = Inr (map (\<lambda>m. (inner_name m, m)) (dag_files members))"
    by (simp add: check_members_Inr)
  then show ?thesis
    using True by (simp add: app_dags_def)
next
  case False
  then obtain line where "check_members members [] = Inl line"
    using check_members_Inl by blast
  then show ?thesis
    using False by (simp add: app_dags_def)
qed

lemma app_dags_Inr:
  assumes "app_dags members dest = (0, out, written)"
  shows "list_all accepted (dag_files members) \<and>
    written = map (\<lambda>m. (path_join dest (inner_name m), member_data m)) (dag_files members)"
proof (cases "list_all accepted (dag_files members)")
  case True
  then have "check_members members [] = Inr (map (\<lambda>m. (inner_name m, m)) (dag_files members))"
    by (simp add: check_members_Inr)
  with True assms show ?thesis
    by (auto simp: app_dags_def split: if_splits)
next
  case False
  then obtain line where "check_members members [] = Inl line"
    using check_members_Inl by blast
  with assms show ?thesis
    by (simp add: app_dags_def)
qed

text \<open>Every file that is written lies under the staging directory: its path is the directory
  followed by plain components only (so no component is empty, \<open>..\<close>, hidden or absolute), the last
  with the suffix \<open>.py\<close>.\<close>

theorem app_dags_inside:
  assumes "app_dags members dest = (0, out, written)" and "dest \<noteq> []" and "\<not> suffix ''/'' dest"
    and "(p, data) \<in> set written"
  shows "\<exists>dirs base. plain_path dirs base \<and> p = dest @ ''/'' @ dag_path dirs base \<and>
    split_on (CHR ''/'') (dag_path dirs base) = dirs @ [base @ ''.py'']"
proof -
  obtain m where m: "m \<in> set (dag_files members)" "p = path_join dest (inner_name m)"
    using app_dags_Inr [OF assms(1)] assms(4) by auto
  moreover have "accepted m"
    using app_dags_Inr [OF assms(1)] m(1) by (simp add: list_all_iff)
  ultimately obtain dirs base where "plain_path dirs base" "p = path_join dest (dag_path dirs base)"
    by (auto simp: accepted_def)
  then show ?thesis
    using dag_path_components dag_path_relative assms(2,3) by (auto simp: path_join_def)
qed

theorem app_dags_inside_witness:
  "\<exists>dirs base. plain_path dirs base \<and> ''/s/a/d_1.py'' = ''/s'' @ ''/'' @ dag_path dirs base \<and>
    split_on (CHR ''/'') (dag_path dirs base) = dirs @ [base @ ''.py'']"
proof (rule app_dags_inside)
  show "app_dags [\<lparr>member_name = ''./'', member_kind = Directory, member_size = 0, member_data = []\<rparr>,
      \<lparr>member_name = ''./a/d_1.py'', member_kind = Regular, member_size = 2, member_data = ''x=''\<rparr>] ''/s'' =
      (0, ''1'', [(''/s/a/d_1.py'', ''x='')])"
    by code_simp
  show "''/s'' \<noteq> []" "\<not> suffix ''/'' ''/s''" by code_simp+
  show "(''/s/a/d_1.py'', ''x='') \<in> set [(''/s/a/d_1.py'', ''x='')]" by simp
qed

end
