(* ===== verification/MemLimits.thy ===== *)
theory MemLimits
  imports Json PyNum
begin

text \<open>
  \<open>scripts/hub/compose-mem-check.py\<close>: an app's Compose configuration is refused when a service has no
  memory limit. The configuration is what \<open>json.load\<close> returns (\<open>None\<close> for a decoding error); the
  result is the exit status with the printed line, or the name of an exception that nothing
  catches.
\<close>

section \<open>Sizes\<close>

definition units :: "(string \<times> int) list" where
  "units = [('''', 1), (''b'', 1), (''k'', 1024), (''kb'', 1024), (''m'', 1048576), (''mb'', 1048576),
    (''g'', 1073741824), (''gb'', 1073741824)]"

definition is_letter :: "char \<Rightarrow> bool" where
  "is_letter c \<longleftrightarrow> is_lower c \<or> is_upper c"

text \<open>The fraction of a decimal number: the text after a point that a digit follows.\<close>

definition split_fraction :: "string \<Rightarrow> string \<times> string" where
  "split_fraction s =
     (case s of
        c # r \<Rightarrow> (if c = CHR ''.'' \<and> takeWhile is_digit r \<noteq> []
                 then (c # takeWhile is_digit r, dropWhile is_digit r) else ([], s))
      | [] \<Rightarrow> ([], []))"

text \<open>The groups of \<open>\s*(\d+(?:\.\d+)?)\s*([a-zA-Z]*)\s*\<close> matched against a whole text.\<close>

definition size_groups :: "string \<Rightarrow> (string \<times> string) option" where
  "size_groups s =
     (let t = lstrip_if is_space s;
          d = takeWhile is_digit t;
          (f, r) = split_fraction (dropWhile is_digit t);
          u = lstrip_if is_space r
      in if d \<noteq> [] \<and> list_all is_space (dropWhile is_letter u) then Some (d @ f, takeWhile is_letter u) else None)"

definition size_of_text :: "string \<Rightarrow> string + int option" where
  "size_of_text s =
     (case size_groups s of
        None \<Rightarrow> Inr None
      | Some (n, u) \<Rightarrow>
          (case map_of units (lower u) of
             None \<Rightarrow> Inr None
           | Some k \<Rightarrow>
               (case float_of n of
                  None \<Rightarrow> Inl ''ValueError''
                | Some r \<Rightarrow> Inr (Some (trunc (r * of_int k))))))"

definition size_bytes :: "json \<Rightarrow> string + int option" where
  "size_bytes j = (case j of
      JNull \<Rightarrow> Inr None
    | JBool _ \<Rightarrow> Inr None
    | JInt i \<Rightarrow> Inr (Some i)
    | JFloat r \<Rightarrow> (case float_of r of None \<Rightarrow> Inl ''ValueError'' | Some x \<Rightarrow> Inr (Some (trunc x)))
    | _ \<Rightarrow> size_of_text (py_str j))"

section \<open>Limits\<close>

text \<open>\<open>(j or {})\<close> where a method of a dictionary follows.\<close>

definition dict_or_empty :: "json \<Rightarrow> string + json dict" where
  "dict_or_empty j = (case j of
      JObj d \<Rightarrow> Inr d
    | _ \<Rightarrow> if truthy j then Inl ''AttributeError'' else Inr [])"

definition deploy_memory :: "json dict \<Rightarrow> string + json" where
  "deploy_memory svc =
     bindR (dict_or_empty (jget ''deploy'' svc)) (\<lambda>deploy.
     bindR (dict_or_empty (jget ''resources'' deploy)) (\<lambda>resources.
     bindR (dict_or_empty (jget ''limits'' resources)) (\<lambda>limits.
     Inr (jget ''memory'' limits))))"

definition falsy_size :: "int option \<Rightarrow> bool" where
  "falsy_size l \<longleftrightarrow> l = None \<or> l = Some 0"

definition limit_of :: "json dict \<Rightarrow> string + int option" where
  "limit_of svc =
     bindR (deploy_memory svc) (\<lambda>memory.
     bindR (size_bytes (jget ''mem_limit'' svc)) (\<lambda>l.
     if falsy_size l then size_bytes memory else Inr l))"

definition entry_limit :: "string \<times> json \<Rightarrow> string + string \<times> int option" where
  "entry_limit e = bindR (dict_or_empty (snd e)) (\<lambda>svc. bindR (limit_of svc) (\<lambda>l. Inr (fst e, l)))"

definition limit_text :: "string \<times> int option \<Rightarrow> string" where
  "limit_text e = fst e @ ''='' @ str_of_int ((case snd e of Some b \<Rightarrow> b | None \<Rightarrow> 0) div 1048576) @ ''MiB''"

definition missing_limits :: "(string \<times> int option) list \<Rightarrow> string list" where
  "missing_limits ls = sort (map fst (filter (\<lambda>e. falsy_size (snd e)) ls))"

text \<open>The message for what cannot be read is the exception's, which is not modelled further.\<close>

definition mem_check :: "json option \<Rightarrow> string + int \<times> string" where
  "mem_check input =
     (case input of
        None \<Rightarrow> Inr (1, ''could not read compose config'')
      | Some (JObj d) \<Rightarrow>
          bindR (dict_or_empty (jget ''services'' d)) (\<lambda>services.
          bindR (mapR entry_limit services) (\<lambda>ls.
          Inr (if missing_limits ls \<noteq> []
            then (1, ''no memory limit on: '' @ join '', '' (missing_limits ls) @
              '' -- every hub container needs mem_limit (ADR-0026; '' @
              ''docs/app-platform.md, onboarding checklist).'')
            else (0, ''memory limits: '' @ join '', '' (map limit_text (sort_key fst ls))))))
      | Some _ \<Rightarrow> Inr (1, ''could not read compose config''))"

section \<open>What the check establishes\<close>

lemma missing_limits_Nil: "missing_limits ls = [] \<longleftrightarrow> (\<forall>e\<in>set ls. \<not> falsy_size (snd e))"
proof -
  have "missing_limits ls = [] \<longleftrightarrow> filter (\<lambda>e. falsy_size (snd e)) ls = []"
    unfolding missing_limits_def length_0_conv [symmetric] length_sort length_map ..
  then show ?thesis by (simp only: filter_empty_conv)
qed

definition limited :: "json \<Rightarrow> bool" where
  "limited s \<longleftrightarrow> (\<exists>svc b. dict_or_empty s = Inr svc \<and> limit_of svc = Inr (Some b) \<and> b \<noteq> 0)"

lemma entry_limit_Inr: "entry_limit e = Inr l \<and> \<not> falsy_size (snd l) \<Longrightarrow> limited (snd e)"
  by (auto simp: entry_limit_def limited_def falsy_size_def bindR_Inr)

lemma limited_entry: "limited (snd e) \<Longrightarrow> \<exists>l. entry_limit e = Inr l \<and> \<not> falsy_size (snd l)"
  by (auto simp: entry_limit_def limited_def falsy_size_def)

lemma mapR_all: "(\<forall>x\<in>set xs. \<exists>y. f x = Inr y \<and> P y) \<longleftrightarrow> (\<exists>ys. mapR f xs = Inr ys \<and> (\<forall>y\<in>set ys. P y))"
proof (induction xs)
  case (Cons x xs)
  show ?case
  proof (cases "f x")
    case (Inr y)
    with Cons show ?thesis
      by (cases "mapR f xs") auto
  qed auto
qed auto

lemma all_limited: "(\<forall>e\<in>set ss. limited (snd e)) \<longleftrightarrow> (\<exists>ls. mapR entry_limit ss = Inr ls \<and> missing_limits ls = [])"
  unfolding missing_limits_Nil mapR_all [symmetric]
  using entry_limit_Inr limited_entry by blast

text \<open>A configuration passes exactly when each of its services has a limit that is a number other
  than zero, under \<open>mem_limit\<close> or under \<open>deploy.resources.limits.memory\<close>.\<close>

theorem mem_check_passes_iff:
  "(\<exists>line. mem_check (Some (JObj d)) = Inr (0, line)) \<longleftrightarrow>
     (\<exists>ss. dict_or_empty (jget ''services'' d) = Inr ss \<and> list_all (\<lambda>e. limited (snd e)) ss)"
proof -
  have "(\<exists>line. mem_check (Some (JObj d)) = Inr (0, line)) \<longleftrightarrow>
      (\<exists>ss ls. dict_or_empty (jget ''services'' d) = Inr ss \<and> mapR entry_limit ss = Inr ls \<and> missing_limits ls = [])"
    by (auto simp: mem_check_def bindR_Inr)
  then show ?thesis
    using all_limited by (auto simp: list_all_iff)
qed

lemma takeWhile_digits: "takeWhile is_digit (str_of_nat n @ u) = str_of_nat n @ takeWhile is_digit u"
  and dropWhile_digits: "dropWhile is_digit (str_of_nat n @ u) = dropWhile is_digit u"
  by (auto intro: takeWhile_append2 dropWhile_append2 dest: str_of_nat_digits)

lemma lstrip_digits: "lstrip_if is_space (str_of_nat n @ u) = str_of_nat n @ u"
proof -
  obtain c t where ct: "str_of_nat n = c # t" by (cases "str_of_nat n") auto
  then have "\<not> is_space c"
    using str_of_nat_digits [of c n] by (auto dest: is_digit_no_space)
  then show ?thesis by (simp add: lstrip_if_def ct)
qed

lemma mantissa_str_of_nat [simp]: "mantissa_of (str_of_nat n) = Some (of_nat n)"
proof -
  have "CHR ''.'' \<notin> set (str_of_nat n)"
    using str_of_nat_digits [of "CHR ''.''" n] by (auto simp: is_digit_def)
  moreover have "all_digits (str_of_nat n)"
    by (auto simp: all_digits_def list_all_iff dest: str_of_nat_digits)
  ultimately show ?thesis by (simp add: mantissa_of_def partition1_def)
qed

lemma float_of_str_of_nat [simp]: "float_of (str_of_nat n) = Some (of_nat n)"
proof -
  have d: "\<forall>c\<in>set (str_of_nat n). is_digit c"
    by (auto dest: str_of_nat_digits)
  then have "strip (str_of_nat n) = str_of_nat n"
    by (intro strip_no_space) (auto simp: list_all_iff dest: is_digit_no_space)
  moreover have "split_sign (str_of_nat n) = (False, str_of_nat n)"
  proof -
    obtain c t where ct: "str_of_nat n = c # t" by (cases "str_of_nat n") auto
    then have "c \<noteq> CHR ''-''" "c \<noteq> CHR ''+''"
      using d by (auto simp: is_digit_def)
    then show ?thesis by (simp add: split_sign_def ct)
  qed
  moreover have exp: "takeWhile (\<lambda>c. \<not> is_exp_mark c) (str_of_nat n) = str_of_nat n"
    "dropWhile (\<lambda>c. \<not> is_exp_mark c) (str_of_nat n) = []"
    using d by (auto simp: takeWhile_eq_all_conv dropWhile_eq_Nil_conv is_exp_mark_def is_digit_def)
  ultimately show ?thesis
    by (simp only: float_of_def Let_def prod.case exp) (simp add: exponent_of_def scale10_def)
qed

text \<open>A whole number with a known unit, in either case of letters, is that number of units.\<close>

theorem size_of_whole_number:
  assumes "list_all is_letter u" and "map_of units (lower u) = Some k"
  shows "size_bytes (JStr (str_of_nat n @ u)) = Inr (Some (int n * k))"
proof -
  have no: "c \<in> set u \<Longrightarrow> \<not> is_digit c \<and> \<not> is_space c \<and> c \<noteq> CHR ''.''" for c
    using assms(1) by (auto simp: list_all_iff is_letter_def is_lower_def is_upper_def is_digit_def is_space_def)
  then have "takeWhile is_digit u = []" "dropWhile is_digit u = u" "lstrip_if is_space u = u"
    by (cases u; simp add: lstrip_if_def)+
  moreover have "split_fraction u = ([], u)"
    using no by (cases u) (auto simp: split_fraction_def)
  moreover have letters: "takeWhile is_letter u = u" "dropWhile is_letter u = []"
    using assms(1) by (auto simp: list_all_iff takeWhile_eq_all_conv dropWhile_eq_Nil_conv)
  ultimately have "size_groups (str_of_nat n @ u) = Some (str_of_nat n, u)"
    by (simp only: size_groups_def Let_def lstrip_digits takeWhile_digits dropWhile_digits letters prod.case) simp
  moreover have "trunc (of_nat n * of_int k) = int n * k"
    using trunc_of_int [of "int n * k"] by simp
  ultimately show ?thesis
    using assms(2) by (simp add: size_bytes_def size_of_text_def)
qed

theorem size_of_whole_number_witness: "size_bytes (JStr (str_of_nat 512 @ ''Mb'')) = Inr (Some (int 512 * 1048576))"
  by (rule size_of_whole_number) code_simp+

text \<open>A negative number passes.\<close>

lemma negative_limit_passes: "limit_of [(''mem_limit'', JInt (- 1))] = Inr (Some (- 1))"
  by code_simp

end
