(* ===== verification/RouterApply.thy ===== *)
theory RouterApply
  imports IoMonad
begin

text \<open>
  \<open>routeros/apply-config.py\<close>: a RouterOS configuration is filled in, uploaded and imported. The
  answers of the AWS CLI, the prompt, the file system and paramiko are the environment; the
  state is the list of the program's actions, printed lines included. \<open>sys.exit\<close> and exceptions
  that nothing catches end a run; a run that returns has exit status 0. Command-line parsing is
  \<open>argparse\<close>'s, an option that is not given is the empty text, and a printed dash is written \<open>--\<close>.
\<close>

record host_key =
  key_type :: string
  key_bytes :: string
  key_text :: string   \<comment> \<open>its base 64 form\<close>

datatype connect_answer =
    Connected "host_key option"   \<comment> \<open>with the key, where the missing-key policy was consulted\<close>
  | KeyChanged host_key           \<comment> \<open>\<open>BadHostKeyException\<close>\<close>
  | SshError string               \<comment> \<open>another \<open>SSHException\<close>, by its text\<close>
  | OtherError string

datatype import_answer = Answer string string | Dropped string

datatype policy = AcceptOnce | RejectNew

record apply_env =
  router_host :: string
  config_path :: string
  ssm_param :: string
  ssh_option :: string
  wg_param :: string
  known_hosts :: string
  accept_new :: bool
  ssm_answer :: "string \<Rightarrow> string + string"   \<comment> \<open>the error output, or the value\<close>
  prompt_answer :: string
  config_read :: "string + string"   \<comment> \<open>the error of opening and reading the file, or its text\<close>
  file_exists :: "string \<Rightarrow> bool"
  host_keys_error :: "string option"   \<comment> \<open>the error of \<open>load_host_keys\<close>, if it raises\<close>
  sha256 :: "string \<Rightarrow> string"
  connect_result :: "policy \<Rightarrow> string \<Rightarrow> connect_answer"
  upload_error :: "string option"
  import_result :: import_answer

datatype action =
    Say string
  | FetchParameter string
  | Prompt
  | OpenSession policy string      \<comment> \<open>the policy and the password that is sent\<close>
  | Upload string string
  | Import string
  | CloseSession

datatype failure = SysExit nat | Uncaught string

type_synonym 'a apply_io = "(apply_env, action list, failure, 'a) io"

definition act :: "action \<Rightarrow> unit apply_io" where
  "act a = modify (\<lambda>w. w @ [a])"

definition say :: "string \<Rightarrow> unit apply_io" where
  "say s = act (Say s)"

section \<open>Passwords and keys\<close>

definition get_ssm_password :: "string \<Rightarrow> string apply_io" where
  "get_ssm_password param =
     andthen (act (FetchParameter param))
     (bind (ask (\<lambda>e. ssm_answer e param)) (\<lambda>r. case r of
        Inr v \<Rightarrow> ret v
      | Inl err \<Rightarrow> andthen (say (''SSM fetch failed: '' @ strip err)) (raise (SysExit 1))))"

text \<open>The password to set and the password to log in with.\<close>

definition passwords :: "(string \<times> string) apply_io" where
  "passwords =
     bind (ask id) (\<lambda>e.
     if ssh_option e \<noteq> [] \<and> ssm_param e = [] then raise (SysExit 2)
     else if ssm_param e \<noteq> [] then
       andthen (say (''Fetching password from SSM: '' @ ssm_param e))
       (bind (get_ssm_password (ssm_param e)) (\<lambda>pw.
        ret (pw, if ssh_option e \<noteq> [] then ssh_option e else pw)))
     else
       andthen (act Prompt) (ret (prompt_answer e, prompt_answer e)))"

section \<open>The text that is uploaded\<close>

definition wg_token :: string where
  "wg_token = ''WG_PRIVATE_KEY_PLACEHOLDER''"

definition pw_token :: string where
  "pw_token = ''PLACEHOLDER''"

definition refusal_text :: string where
  "refusal_text =
     [newline] @ ''Refusing to apply: this config contains WG_PRIVATE_KEY_PLACEHOLDER.'' @ [newline] @
     ''The WireGuard section unconditionally removes the live wg-aws interface'' @ [newline] @
     ''before recreating it -- uploading this as-is would DELETE THE LIVE TUNNEL'' @ [newline] @
     ''and fail to bring it back up (invalid key), causing an outage.'' @ [newline, newline] @
     ''Re-run with --wg-key-ssm <param> to substitute the real key, e.g.:'' @ [newline] @
     ''  --wg-key-ssm /home-platform/wireguard/nyc-private-key'' @ [newline] @
     ''  --wg-key-ssm /home-platform/wireguard/rambles-private-key'' @ [newline, newline] @
     ''For a small targeted change (e.g. one DNS record) on an already-live'' @ [newline] @
     ''router, don't reapply the whole file at all -- SSH in and run just that'' @ [newline] @
     ''one command instead.''"

definition fill_wg_key :: "string \<Rightarrow> string apply_io" where
  "fill_wg_key content =
     bind (ask wg_param) (\<lambda>param.
     if param \<noteq> [] then
       andthen (say (''Fetching WireGuard private key from SSM: '' @ param))
       (bind (get_ssm_password param) (\<lambda>key.
        andthen (say ''Substituted WG_PRIVATE_KEY_PLACEHOLDER with key from SSM.'')
        (ret (replace wg_token key content))))
     else if sublist wg_token content then andthen (say refusal_text) (raise (SysExit 1))
     else ret content)"

definition fill_password :: "string \<Rightarrow> string \<Rightarrow> string apply_io" where
  "fill_password new_password content =
     (if sublist pw_token content then
        andthen (say ''Substituted PLACEHOLDER with password from SSM.'') (ret (replace pw_token new_password content))
      else ret content)"

section \<open>The session\<close>

definition fingerprint :: "(string \<Rightarrow> string) \<Rightarrow> host_key \<Rightarrow> string" where
  "fingerprint sha k = ''SHA256:'' @ rstrip_if (\<lambda>c. c = CHR ''='') (base64 (sha (key_bytes k)))"

definition missing_host_key :: "string \<Rightarrow> (string \<Rightarrow> string) \<Rightarrow> host_key \<Rightarrow> unit apply_io" where
  "missing_host_key host sha k =
     andthen (say (''WARNING: '' @ host @ '' isn't in known_hosts; accepting its '' @ key_type k @ '' key '' @
       fingerprint sha k @ '' for this session only (--accept-new-host-key).''))
     (andthen (say (''Check that fingerprint on the router (/ip ssh print), then add this line to ansible/known_hosts:''))
     (say (''  '' @ host @ '' '' @ key_type k @ '' '' @ key_text k)))"

definition session_policy :: "apply_env \<Rightarrow> policy" where
  "session_policy e = (if accept_new e then AcceptOnce else RejectNew)"

definition say_all :: "string list \<Rightarrow> unit apply_io" where
  "say_all ls = modify (\<lambda>w. w @ map Say ls)"

definition connect_failed :: "string list \<Rightarrow> 'a apply_io" where
  "connect_failed ls = andthen (say_all ls) (raise (SysExit 1))"

definition connect :: "string \<Rightarrow> unit apply_io" where
  "connect password =
     bind (ask id) (\<lambda>e.
     andthen (say (''Connecting to '' @ router_host e @ ''...''))
     (if \<not> file_exists e (known_hosts e) \<and> \<not> accept_new e
      then connect_failed [''Known-hosts file not found: '' @ known_hosts e]
      else if file_exists e (known_hosts e) \<and> host_keys_error e \<noteq> None
      then raise (Uncaught (the (host_keys_error e)))
      else
        andthen (act (OpenSession (session_policy e) password))
        (case connect_result e (session_policy e) password of
          Connected new \<Rightarrow>
            andthen (case new of Some k \<Rightarrow> missing_host_key (router_host e) (sha256 e) k | None \<Rightarrow> ret ())
            (say ''Connected.'')
        | KeyChanged k \<Rightarrow> connect_failed
            [''REFUSING: '' @ router_host e @ [CHR 0x27] @ ''s SSH host key has CHANGED (now '' @ fingerprint (sha256 e) k @ '').'',
             ''Either the router was reset/replaced, or something else is answering on its IP.'',
             ''If it was reset, check the fingerprint on the router (/ip ssh print) and update ansible/known_hosts.'']
        | SshError m \<Rightarrow>
            (if sublist ''not found in known_hosts'' m then connect_failed
               [''REFUSING: '' @ router_host e @ '' has no entry in '' @ known_hosts e @ ''.'',
                ''Add its key there (ssh-keyscan from a trusted network, checked against /ip ssh print),'',
                ''or for a first connection to a factory-reset router use --accept-new-host-key.'']
             else connect_failed [''SSH failed: '' @ m])
        | OtherError m \<Rightarrow> connect_failed [''SSH failed: '' @ m])))"

text \<open>\<open>os.path.basename\<close>.\<close>

definition basename :: "string \<Rightarrow> string" where
  "basename p = (case rpartition1 (CHR ''/'') p of None \<Rightarrow> p | Some (_, b) \<Rightarrow> b)"

definition upload :: "string \<Rightarrow> unit apply_io" where
  "upload content =
     bind (ask id) (\<lambda>e.
     andthen (say (''Uploading '' @ config_path e @ '' via SFTP as '' @ basename (config_path e) @ ''...''))
     (case upload_error e of
        Some m \<Rightarrow> raise (Uncaught m)
      | None \<Rightarrow> andthen (act (Upload (basename (config_path e)) content)) (say ''Upload complete.'')))"

definition script_error :: "string \<Rightarrow> bool" where
  "script_error out \<longleftrightarrow> sublist ''Script Error'' out \<or> sublist ''failure:'' out"

text \<open>The import, with whether it is known to have failed. Only the first 8192 characters of the
  answer are read.\<close>

definition run_import :: "bool apply_io" where
  "run_import =
     bind (ask id) (\<lambda>e.
     andthen (say (''Running /import '' @ basename (config_path e) @ '' ...''))
     (andthen (say (''(SSH will drop here if this file changes the LAN IP -- expected for initial-config.rsc, '' @
        ''not for managed-config.rsc)''))
     (andthen (act (Import (basename (config_path e))))
     (case import_result e of
        Dropped m \<Rightarrow>
          andthen (say (''Connection dropped during import (expected if LAN IP changed): '' @ m)) (ret False)
      | Answer stdout stderr \<Rightarrow>
          let out = take 8192 stdout; err = take 8192 stderr in
          andthen (if out \<noteq> [] then say (''Output: '' @ take 2000 out) else ret ())
          (andthen (if err \<noteq> [] then say (''Stderr: '' @ take 500 err) else ret ())
          (if script_error out
           then andthen (say ([newline] @ ''RouterOS reported a script error above -- treating this as a failed apply.''))
             (ret True)
           else andthen (say ''Import completed without connection drop.'') (ret False)))))))"

definition read_config :: "string apply_io" where
  "read_config = bind (ask config_read) (\<lambda>r. case r of Inl m \<Rightarrow> raise (Uncaught m) | Inr content \<Rightarrow> ret content)"

definition prepare :: "(string \<times> string) apply_io" where
  "prepare =
     bind passwords (\<lambda>(new_password, ssh_password).
     bind read_config (\<lambda>content.
     bind (fill_wg_key content) (\<lambda>content.
     bind (fill_password new_password content) (\<lambda>content.
     ret (ssh_password, content)))))"

definition session :: "string \<Rightarrow> string \<Rightarrow> unit apply_io" where
  "session ssh_password content =
     andthen (connect ssh_password)
     (andthen (upload content)
     (bind run_import (\<lambda>failed.
     andthen (act CloseSession)
     (if failed then andthen (say ([newline] @ ''Failed.'')) (raise (SysExit 1))
      else say ([newline] @ ''Done.'')))))"

definition apply_config :: "unit apply_io" where
  "apply_config = bind prepare (\<lambda>(ssh_password, content). session ssh_password content)"

section \<open>Replacing a token everywhere\<close>

text \<open>A word whose first character does not occur again in it cannot overlap itself, so replacing it is
  splitting at it and joining again.\<close>

lemma no_straddle:
  assumes "old = x # xs" and "x \<notin> set xs" and "\<not> sublist old (c # p)"
  shows "\<not> prefix old ((c # p) @ old @ rest)"
proof
  assume "prefix old ((c # p) @ old @ rest)"
  then obtain s where s: "old @ s = (c # p) @ old @ rest"
    by (auto simp: prefix_def)
  consider r where "old @ r = c # p" | r where "old = (c # p) @ r" "r \<noteq> []" "r @ s = old @ rest"
  proof -
    obtain us where us: "old = (c # p) @ us \<and> us @ s = old @ rest \<or> old @ us = c # p"
      using s unfolding append_eq_append_conv2 by blast
    show thesis
    proof (cases "us = []")
      case True
      with us have "old @ [] = c # p" by auto
      then show ?thesis by (rule that(1))
    next
      case False
      with us that show ?thesis by blast
    qed
  qed
  then show False
  proof cases
    case 1
    from prefixI [OF 1 [symmetric]] have "prefix old (c # p)" .
    with assms(3) show False by (simp add: prefix_imp_sublist)
  next
    case 2
    then obtain r' where "r = x # r'"
      using assms(1) by (cases r) auto
    with 2(1) assms(1) have "x \<in> set xs" by auto
    with assms(2) show False by simp
  qed
qed

lemma replace_piece:
  assumes "old = x # xs" and "x \<notin> set xs" and "\<not> sublist old p"
  shows "replace old new (p @ old @ rest) = p @ new @ replace old new rest"
  using assms(3)
proof (induction p)
  case Nil
  show ?case using replace_skip_prefix [of old new rest] assms(1) by simp
next
  case (Cons c p)
  have "\<not> prefix old ((c # p) @ old @ rest)"
    using Cons.prems by (intro no_straddle [OF assms(1,2)])
  then have "replace old new ((c # p) @ old @ rest) = c # replace old new (p @ old @ rest)"
    by (simp add: replace_def)
  moreover have "\<not> sublist old p"
    using Cons.prems by (simp add: sublist_Cons_right)
  ultimately show ?case
    using Cons.IH by simp
qed

lemma replace_join:
  assumes "old = x # xs" and "x \<notin> set xs" and "\<forall>p\<in>set ps. \<not> sublist old p"
  shows "replace old new (join old ps) = join new ps"
  using assms(3)
proof (induction ps)
  case (Cons p ps)
  show ?case
  proof (cases ps)
    case Nil
    then show ?thesis using Cons.prems by (simp add: replace_id)
  next
    case (Cons q qs)
    have "replace old new (p @ old @ join old ps) = p @ new @ replace old new (join old ps)"
      using Cons.prems by (intro replace_piece [OF assms(1,2)]) simp
    then show ?thesis
      using Cons.IH Cons.prems Cons by simp
  qed
qed (simp add: replace_def)


section \<open>What a run does\<close>

definition touches_router :: "action \<Rightarrow> bool" where
  "touches_router a = (case a of OpenSession _ _ \<Rightarrow> True | Upload _ _ \<Rightarrow> True | Import _ \<Rightarrow> True | _ \<Rightarrow> False)"

definition quiet :: "action list \<Rightarrow> bool" where
  "quiet w \<longleftrightarrow> (\<forall>a\<in>set w. \<not> touches_router a)"

lemma quiet_append [simp]: "quiet (w @ v) \<longleftrightarrow> quiet w \<and> quiet v"
  by (auto simp: quiet_def)

lemma quiet_simps [simp]: "quiet []" "quiet (Say s # w) = quiet w" "quiet (FetchParameter q # w) = quiet w"
  "quiet (Prompt # w) = quiet w" "\<not> quiet (OpenSession p s # w)" "\<not> quiet (Upload n c # w)" "\<not> quiet (Import n # w)"
  by (auto simp: quiet_def touches_router_def)

lemma wp_act [simp]: "wp (act a) e w Q = Q (Inr ()) (w @ [a])"
  by (simp add: act_def)

lemma wp_say [simp]: "wp (say s) e w Q = Q (Inr ()) (w @ [Say s])"
  by (simp add: say_def)

lemma wp_say_all [simp]: "wp (say_all ls) e w Q = Q (Inr ()) (w @ map Say ls)"
  by (simp add: say_all_def)

text \<open>What the preparation returns, without its actions, which do not touch the router.\<close>

definition login :: "apply_env \<Rightarrow> failure + string \<times> string" where
  "login e =
     (if ssh_option e \<noteq> [] \<and> ssm_param e = [] then Inl (SysExit 2)
      else if ssm_param e \<noteq> [] then
        (case ssm_answer e (ssm_param e) of
           Inl _ \<Rightarrow> Inl (SysExit 1)
         | Inr pw \<Rightarrow> Inr (pw, if ssh_option e \<noteq> [] then ssh_option e else pw))
      else Inr (prompt_answer e, prompt_answer e))"

definition wg_filled :: "apply_env \<Rightarrow> string \<Rightarrow> failure + string" where
  "wg_filled e content =
     (if wg_param e \<noteq> [] then
        (case ssm_answer e (wg_param e) of
           Inl _ \<Rightarrow> Inl (SysExit 1) | Inr key \<Rightarrow> Inr (replace wg_token key content))
      else if sublist wg_token content then Inl (SysExit 1) else Inr content)"

definition prepared :: "apply_env \<Rightarrow> failure + string \<times> string" where
  "prepared e = bindR (login e) (\<lambda>(new, ssh).
     bindR (case config_read e of Inl m \<Rightarrow> Inl (Uncaught m) | Inr content \<Rightarrow> Inr content) (\<lambda>content.
     bindR (wg_filled e content) (\<lambda>c. Inr (ssh, replace pw_token new c))))"

definition quietly :: "'a apply_io \<Rightarrow> apply_env \<Rightarrow> failure + 'a \<Rightarrow> bool" where
  "quietly m e r \<longleftrightarrow> (\<forall>w. \<exists>v. quiet v \<and> m e w = (r, w @ v))"

lemma quietly_bind: "quietly m e (Inr a) \<Longrightarrow> quietly (f a) e r \<Longrightarrow> quietly (bind m f) e r"
  unfolding quietly_def
proof
  fix w
  assume m: "\<forall>w. \<exists>v. quiet v \<and> m e w = (Inr a, w @ v)" and f: "\<forall>w. \<exists>v. quiet v \<and> f a e w = (r, w @ v)"
  from m obtain v where v: "quiet v" "m e w = (Inr a, w @ v)" by blast
  from f obtain u where "quiet u" "f a e (w @ v) = (r, (w @ v) @ u)" by blast
  with v show "\<exists>v. quiet v \<and> bind m f e w = (r, w @ v)"
    by (intro exI [of _ "v @ u"]) (simp add: bind_def)
qed

lemma quietly_raise: "quietly m e (Inl x) \<Longrightarrow> quietly (bind m f) e (Inl x)"
  unfolding quietly_def
proof
  fix w
  assume "\<forall>w. \<exists>v. quiet v \<and> m e w = (Inl x, w @ v)"
  then obtain v where "quiet v" "m e w = (Inl x, w @ v)" by blast
  then show "\<exists>v. quiet v \<and> bind m f e w = (Inl x, w @ v)"
    by (intro exI [of _ v]) (simp add: bind_def)
qed

lemma quietly_andthen: "quietly m e (Inr a) \<Longrightarrow> quietly n e r \<Longrightarrow> quietly (andthen m n) e r"
  unfolding andthen_def by (rule quietly_bind)

lemma quietly_pure: "quietly (ret a) e (Inr a)" "quietly (raise x) e (Inl x)" "quietly (ask f) e (Inr (f e))"
  "quietly (say s) e (Inr ())" "\<not> touches_router act' \<Longrightarrow> quietly (act act') e (Inr ())"
  by (auto simp: quietly_def ret_def raise_def ask_def say_def act_def modify_def quiet_def touches_router_def
      intro: exI [of _ "[]"])

lemma quietly_get_ssm: "quietly (get_ssm_password p) e
    (case ssm_answer e p of Inl _ \<Rightarrow> Inl (SysExit 1) | Inr v \<Rightarrow> Inr v)"
proof -
  have fetch: "quietly (act (FetchParameter p)) e (Inr ())"
    by (rule quietly_pure) (simp add: touches_router_def)
  show ?thesis
    unfolding get_ssm_password_def
    by (intro quietly_andthen [OF fetch] quietly_bind [OF quietly_pure(3)])
      (cases "ssm_answer e p"; simp add: quietly_pure quietly_andthen [OF quietly_pure(4)])
qed

lemma quietly_passwords: "quietly passwords e (login e)"
proof -
  have prompt: "quietly (act Prompt) e (Inr ())"
    by (rule quietly_pure) (simp add: touches_router_def)
  have fetch: "quietly (bind (get_ssm_password q) f) e
      (case ssm_answer e q of Inl _ \<Rightarrow> Inl (SysExit 1) | Inr v \<Rightarrow> r v)"
    if "\<And>v. quietly (f v) e (r v)" for q f and r :: "string \<Rightarrow> failure + string \<times> string"
    using quietly_get_ssm [of q e] that
    by (cases "ssm_answer e q") (simp_all add: quietly_raise quietly_bind)
  show ?thesis
    unfolding passwords_def login_def
    by (intro quietly_bind [OF quietly_pure(3)])
      (auto intro!: quietly_pure quietly_andthen [OF quietly_pure(4)] quietly_andthen [OF prompt] fetch)
qed

lemma quietly_fill_wg: "quietly (fill_wg_key content) e (wg_filled e content)"
proof (cases "wg_param e = []")
  case True
  then show ?thesis
    unfolding fill_wg_key_def wg_filled_def
    by (intro quietly_bind [OF quietly_pure(3)]) (simp add: quietly_pure quietly_andthen [OF quietly_pure(4)])
next
  case False
  have "quietly (bind (get_ssm_password (wg_param e)) (\<lambda>key.
      andthen (say ''Substituted WG_PRIVATE_KEY_PLACEHOLDER with key from SSM.'')
        (ret (replace wg_token key content)))) e (wg_filled e content)"
    using quietly_get_ssm [of "wg_param e" e] False
    by (cases "ssm_answer e (wg_param e)")
      (simp_all add: wg_filled_def quietly_raise quietly_bind quietly_andthen [OF quietly_pure(4)] quietly_pure)
  then show ?thesis
    unfolding fill_wg_key_def using False
    by (intro quietly_bind [OF quietly_pure(3)]) (simp add: quietly_andthen [OF quietly_pure(4)])
qed

lemma quietly_fill_password: "quietly (fill_password pw c) e (Inr (replace pw_token pw c))"
  by (simp add: fill_password_def replace_id quietly_pure quietly_andthen [OF quietly_pure(4)])

lemma quietly_prepare: "quietly prepare e (prepared e)"
proof (cases "login e")
  case (Inl x)
  then show ?thesis
    using quietly_passwords [of e] by (simp add: prepare_def prepared_def quietly_raise)
next
  case (Inr r)
  obtain new ssh where r: "r = (new, ssh)" by (cases r)
  have fill: "quietly (bind (fill_wg_key content) (\<lambda>c. bind (fill_password new c) (\<lambda>c. ret (ssh, c)))) e
      (bindR (wg_filled e content) (\<lambda>c. Inr (ssh, replace pw_token new c)))" for content
    using quietly_fill_wg [of content e]
    by (cases "wg_filled e content") (auto intro: quietly_raise quietly_bind quietly_pure quietly_fill_password)
  have read: "quietly read_config e (case config_read e of Inl m \<Rightarrow> Inl (Uncaught m) | Inr content \<Rightarrow> Inr content)"
    unfolding read_config_def by (rule quietly_bind [OF quietly_pure(3)]) (simp add: quietly_pure split: sum.split)
  have "quietly (bind read_config (\<lambda>c. bind (fill_wg_key c) (\<lambda>c. bind (fill_password new c) (\<lambda>c. ret (ssh, c))))) e (prepared e)"
    using read fill by (cases "config_read e") (auto simp: prepared_def Inr r intro: quietly_raise quietly_bind)
  then show ?thesis
    using quietly_passwords [of e] unfolding prepare_def by (simp add: Inr r quietly_bind)
qed

text \<open>A run is the preparation followed by the session on what it made.\<close>

lemma apply_config_run:
  obtains v where "quiet v"
    "apply_config e [] = (case prepared e of Inl x \<Rightarrow> (Inl x, v) | Inr (ssh, c) \<Rightarrow> session ssh c e v)"
proof -
  obtain v where "quiet v" "prepare e [] = (prepared e, [] @ v)"
    using quietly_prepare unfolding quietly_def by blast
  then show ?thesis
    by (intro that [of v]) (auto simp: apply_config_def bind_def split: sum.splits prod.splits)
qed

lemma wg_token_Cons: "wg_token = CHR ''W'' # tl wg_token" "CHR ''W'' \<notin> set (tl wg_token)"
  by code_simp+

lemma pw_token_Cons: "pw_token = CHR ''P'' # tl pw_token" "CHR ''P'' \<notin> set (tl pw_token)"
  by code_simp+

text \<open>When the file still has the token of the WireGuard key and no key is asked for, the run ends
  with an error, and nothing was connected to, uploaded or imported.\<close>

theorem no_session_without_key:
  assumes "wg_param e = []" and "config_read e = Inr content" and "sublist wg_token content"
  shows "(\<exists>n. fst (apply_config e []) = Inl (SysExit n) \<and> n \<noteq> 0) \<and> quiet (snd (apply_config e []))"
proof -
  obtain n where n: "prepared e = Inl (SysExit n)" "n \<noteq> 0"
  proof -
    have "\<exists>n. prepared e = Inl (SysExit n) \<and> n \<noteq> 0"
      using assms by (auto simp: prepared_def login_def wg_filled_def split: sum.split)
    with that show ?thesis by blast
  qed
  moreover obtain v where "quiet v"
    "apply_config e [] = (case prepared e of Inl x \<Rightarrow> (Inl x, v) | Inr (ssh, c) \<Rightarrow> session ssh c e v)"
    by (rule apply_config_run)
  ultimately show ?thesis by simp
qed

text \<open>The environment of the witnesses: a router with a pinned key and a file with both tokens.\<close>

definition example_env :: "string \<Rightarrow> apply_env" where
  "example_env wg =
    \<lparr>router_host = ''10.0.1.1'', config_path = ''nyc/m.rsc'', ssm_param = ''/pw'', ssh_option = [], wg_param = wg,
     known_hosts = ''kh'', accept_new = False, ssm_answer = (\<lambda>p. Inr (if p = ''/wg'' then ''kEy='' else ''s3c'')),
     prompt_answer = [], config_read = Inr ''key=WG_PRIVATE_KEY_PLACEHOLDER pw=PLACEHOLDER;'', file_exists = (\<lambda>_. True), host_keys_error = None,
     sha256 = id, connect_result = (\<lambda>_ _. Connected None), upload_error = None, import_result = Answer ''ok'' []\<rparr>"

theorem no_session_without_key_witness:
  "(\<exists>n. fst (apply_config (example_env []) []) = Inl (SysExit n) \<and> n \<noteq> 0) \<and>
     quiet (snd (apply_config (example_env []) []))"
  by (rule no_session_without_key [where content = "''key=WG_PRIVATE_KEY_PLACEHOLDER pw=PLACEHOLDER;''"]) code_simp+

text \<open>Only \<open>upload\<close> uploads.\<close>

definition uploads_only :: "string \<Rightarrow> action list \<Rightarrow> bool" where
  "uploads_only c w \<longleftrightarrow> (\<forall>n text. Upload n text \<in> set w \<longrightarrow> text = c)"

lemma uploads_say: "keeps (uploads_only c) (say s) e" "keeps (uploads_only c) (say_all ls) e"
  by (auto simp: keeps_def say_def say_all_def act_def modify_def uploads_only_def)

lemma uploads_act: "(\<And>n text. a = Upload n text \<Longrightarrow> text = c) \<Longrightarrow> keeps (uploads_only c) (act a) e"
  by (auto simp: keeps_def act_def modify_def uploads_only_def)

lemmas uploads_rules = keeps_bind keeps_andthen keeps_if keeps_pure uploads_say uploads_act

lemma connect_failed_uploads: "keeps (uploads_only c) (connect_failed ls) e"
  unfolding connect_failed_def by (intro uploads_rules)

lemma missing_host_key_uploads: "keeps (uploads_only c) (missing_host_key h sha k) e"
  unfolding missing_host_key_def by (intro uploads_rules)

lemma connect_uploads: "keeps (uploads_only c) (connect pw) e"
proof -
  have "keeps (uploads_only c) (case new of Some k \<Rightarrow> missing_host_key h sha k | None \<Rightarrow> ret ()) e" for new h sha
    by (cases new) (simp_all add: missing_host_key_uploads)
  then show ?thesis
    unfolding connect_def
    by (intro uploads_rules connect_failed_uploads)
      (auto split: connect_answer.split intro!: uploads_rules connect_failed_uploads)
qed

lemma session_uploads: "keeps (uploads_only c) (session ssh c) e"
proof -
  have "keeps (uploads_only c) (upload c) e"
    unfolding upload_def by (intro uploads_rules) (auto split: option.split intro!: uploads_rules)
  moreover have "keeps (uploads_only c) run_import e"
    unfolding run_import_def Let_def
    by (intro uploads_rules) (auto split: import_answer.split intro!: uploads_rules)
  ultimately show ?thesis
    unfolding session_def by (intro uploads_rules connect_uploads) auto
qed

text \<open>What is uploaded: the file with each token of the WireGuard key replaced by the key and then
  each remaining token of the password replaced by the password, for every way of writing the file
  as pieces around the tokens.\<close>

theorem uploaded_text:
  assumes "Upload name text \<in> set (snd (apply_config e []))"
    and "login e = Inr (new_password, ssh_password)" and "ssm_answer e (wg_param e) = Inr key" and "wg_param e \<noteq> []"
    and "config_read e = Inr (join wg_token pieces)" and "\<forall>p\<in>set pieces. \<not> sublist wg_token p"
    and "join key pieces = join pw_token parts" and "\<forall>p\<in>set parts. \<not> sublist pw_token p"
  shows "text = join new_password parts"
proof -
  have "replace wg_token key (join wg_token pieces) = join key pieces"
    by (rule replace_join [OF wg_token_Cons assms(6)])
  moreover have "replace pw_token new_password (join pw_token parts) = join new_password parts"
    by (rule replace_join [OF pw_token_Cons assms(8)])
  ultimately have p: "prepared e = Inr (ssh_password, join new_password parts)"
    using assms(2-5,7) by (simp add: prepared_def wg_filled_def)
  obtain v where v: "quiet v"
    "apply_config e [] = (case prepared e of Inl x \<Rightarrow> (Inl x, v) | Inr (ssh, c) \<Rightarrow> session ssh c e v)"
    by (rule apply_config_run)
  then have "Upload name text \<in> set (snd (session ssh_password (join new_password parts) e v))"
    using assms(1) p by simp
  moreover have "uploads_only (join new_password parts) v"
    using v(1) by (auto simp: uploads_only_def quiet_def touches_router_def)
  from keepsD [OF session_uploads this]
  have "uploads_only (join new_password parts) (snd (session ssh_password (join new_password parts) e v))" .
  ultimately show ?thesis
    unfolding uploads_only_def by blast
qed

theorem uploaded_text_witness: "''key=kEy= pw=s3c;'' = join ''s3c'' [''key=kEy= pw='', '';'']"
proof (rule uploaded_text)
  show "Upload ''m.rsc'' ''key=kEy= pw=s3c;'' \<in> set (snd (apply_config (example_env ''/wg'') []))"
    by code_simp
  show "login (example_env ''/wg'') = Inr (''s3c'', ''s3c'')"
    by code_simp
  show "ssm_answer (example_env ''/wg'') (wg_param (example_env ''/wg'')) = Inr ''kEy=''"
    by code_simp
  show "wg_param (example_env ''/wg'') \<noteq> []"
    by code_simp
  show "config_read (example_env ''/wg'') = Inr (join wg_token [''key='', '' pw=PLACEHOLDER;''])"
    by code_simp
  show "\<forall>p\<in>set [''key='', '' pw=PLACEHOLDER;'']. \<not> sublist wg_token p"
    by code_simp
  show "join ''kEy='' [''key='', '' pw=PLACEHOLDER;''] = join pw_token [''key=kEy= pw='', '';'']"
    by code_simp
  show "\<forall>p\<in>set [''key=kEy= pw='', '';'']. \<not> sublist pw_token p"
    by code_simp
qed

definition import_failed :: "import_answer \<Rightarrow> bool" where
  "import_failed a = (case a of Answer out _ \<Rightarrow> script_error (take 8192 out) | Dropped _ \<Rightarrow> False)"

definition may_connect :: "apply_env \<Rightarrow> bool" where
  "may_connect e \<longleftrightarrow> (if file_exists e (known_hosts e) then host_keys_error e = None else accept_new e)"

lemma connect_ok: "(\<exists>u w'. connect pw e w = (Inr u, w')) \<longleftrightarrow>
    may_connect e \<and> (\<exists>k. connect_result e (session_policy e) pw = Connected k)"
proof -
  have "wp (connect pw) e w (\<lambda>r w'. isl r \<longleftrightarrow>
      \<not> (may_connect e \<and> (\<exists>k. connect_result e (session_policy e) pw = Connected k)))"
    unfolding connect_def connect_failed_def missing_host_key_def may_connect_def
    by (simp split: connect_answer.split option.split)
  then show ?thesis
    by (cases "connect pw e w"; cases "fst (connect pw e w)") (auto simp: wp_def)
qed

lemma run_import_failed: "\<exists>w'. run_import e w = (Inr (import_failed (import_result e)), w')"
proof -
  have "wp run_import e w (\<lambda>r w'. r = Inr (import_failed (import_result e)))"
    unfolding run_import_def import_failed_def by (simp add: Let_def split: import_answer.split)
  then show ?thesis
    by (cases "run_import e w") (auto simp: wp_def)
qed

lemma upload_ok: "(\<exists>u w'. upload c e w = (Inr u, w')) \<longleftrightarrow> upload_error e = None"
proof -
  have "wp (upload c) e w (\<lambda>r w'. isl r \<longleftrightarrow> upload_error e \<noteq> None)"
    unfolding upload_def by (simp split: option.split)
  then show ?thesis
    by (cases "upload c e w"; cases "fst (upload c e w)") (auto simp: wp_def)
qed

lemma andthen_returns: "fst (andthen m n e w) = Inr a \<longleftrightarrow> (\<exists>u w'. m e w = (Inr u, w') \<and> fst (n e w') = Inr a)"
  by (cases "m e w"; cases "fst (m e w)") (auto simp: andthen_def bind_def)

lemma session_returns: "fst (session pw c e w) = Inr () \<longleftrightarrow>
    may_connect e \<and> (\<exists>k. connect_result e (session_policy e) pw = Connected k) \<and> upload_error e = None \<and>
    \<not> import_failed (import_result e)"
proof -
  let ?rest = "bind run_import (\<lambda>failed. andthen (act CloseSession)
     (if failed then andthen (say ([newline] @ ''Failed.'')) (raise (SysExit 1)) else say ([newline] @ ''Done.'')))"
  have last: "fst (?rest e w) = Inr () \<longleftrightarrow> \<not> import_failed (import_result e)" for w
  proof -
    obtain w' where "run_import e w = (Inr (import_failed (import_result e)), w')"
      using run_import_failed by blast
    then show ?thesis
      by (simp add: bind_def andthen_def act_def say_def modify_def raise_def)
  qed
  have "fst (andthen (upload c) ?rest e w) = Inr () \<longleftrightarrow>
      upload_error e = None \<and> \<not> import_failed (import_result e)" for w
    unfolding andthen_returns [of "upload c"] last using upload_ok [of c e w] by blast
  then show ?thesis
    unfolding session_def andthen_returns [of "connect pw"] using connect_ok [of pw e w] by simp
qed

text \<open>C19: the exit status is 0 exactly when the file can be read and the values for it are there, the pinned host keys,
  if there is a file of them, can be loaded, the router is connected to under a known or explicitly accepted key, the upload succeeds and the first 8192 characters of
  the import's output show no script error. A connection that drops during the import, or an
  import that times out, counts as success, for every file.\<close>

theorem apply_config_succeeds_iff:
  "fst (apply_config e []) = Inr () \<longleftrightarrow>
     (\<exists>ssh c k. prepared e = Inr (ssh, c) \<and> may_connect e \<and>
        connect_result e (session_policy e) ssh = Connected k) \<and>
     upload_error e = None \<and>
     (case import_result e of Answer out _ \<Rightarrow> \<not> script_error (take 8192 out) | Dropped _ \<Rightarrow> True)"
proof -
  obtain v where v: "quiet v"
    "apply_config e [] = (case prepared e of Inl x \<Rightarrow> (Inl x, v) | Inr (ssh, c) \<Rightarrow> session ssh c e v)"
    by (rule apply_config_run)
  show ?thesis
  proof (cases "prepared e")
    case (Inr r)
    then show ?thesis
      by (cases r; cases "import_result e") (auto simp: v(2) session_returns import_failed_def)
  qed (simp add: v(2))
qed

end
