(* ===== verification/Gauges.thy ===== *)
theory Gauges
  imports Json PyNum
begin

text \<open>
  What the exporters share: the registry of Prometheus gauges, and numbers out of JSON. A sample
  is set under its metric's name and its labels; setting it again replaces the value and keeps
  its place. A gauge holds an exact rational, and \<open>None\<close> for not-a-number.
\<close>

type_synonym series = "string \<times> (string \<times> string) list"

type_synonym registry = "(series \<times> rat option) list"

definition set_gauge :: "string \<Rightarrow> (string \<times> string) list \<Rightarrow> rat option \<Rightarrow> registry \<Rightarrow> registry" where
  "set_gauge metric labels v g = AList.update (metric, labels) v g"

definition gauge :: "string \<Rightarrow> (string \<times> string) list \<Rightarrow> registry \<Rightarrow> rat option option" where
  "gauge metric labels g = map_of g (metric, labels)"

lemma gauge_set [simp]:
  "gauge m ls (set_gauge m' ls' v g) = (if m = m' \<and> ls = ls' then Some v else gauge m ls g)"
  by (simp add: gauge_def set_gauge_def)

text \<open>A JSON value used in arithmetic.\<close>

definition as_number :: "json \<Rightarrow> string + rat" where
  "as_number j = (case j of
      JInt i \<Rightarrow> Inr (of_int i)
    | JBool b \<Rightarrow> Inr (if b then 1 else 0)
    | JFloat r \<Rightarrow> (case float_of r of Some x \<Rightarrow> Inr x | None \<Rightarrow> Inl ''ValueError'')
    | _ \<Rightarrow> Inl ''TypeError'')"

end
