(* ===== verification/TankExporter.thy ===== *)
theory TankExporter
  imports Gauges IoMonad "HOL-Library.Word"
begin

unbundle bit_operations_syntax

text \<open>
  \<open>compose/nuc/mopeka-exporter/mopeka_exporter.py\<close>: propane tank readings from Bluetooth
  advertisements, as Prometheus gauges. The Bluetooth libraries are parameters: reading an
  advertisement, and the decoder object of each sensor with its state. Log lines are left out.
\<close>

section \<open>Configuration\<close>

text \<open>The proxies, from the comma-separated variables; \<open>None\<close> is the \<open>SystemExit\<close> of a mismatch.\<close>

definition proxies :: "string \<Rightarrow> string \<Rightarrow> string \<Rightarrow> (string \<times> string \<times> string) list option" where
  "proxies hosts_var keys_var names_var =
     (let hosts = filter (\<lambda>h. h \<noteq> []) (map strip (split_on (CHR '','') hosts_var));
          ks = map strip (split_on (CHR '','') keys_var);
          given = filter (\<lambda>n. n \<noteq> []) (map strip (split_on (CHR '','') names_var));
          names = (if length given \<noteq> length hosts then hosts else given)
      in if length hosts \<noteq> length ks then None else Some (zip hosts (zip ks names)))"

record sensor_cfg =
  sensor_label :: json
  full_mm :: json
  empty_mm :: json

definition no_cfg :: sensor_cfg where
  "no_cfg = \<lparr>sensor_label = JNull, full_mm = JNull, empty_mm = JNull\<rparr>"

datatype file_answer = Missing | Broken | Loaded json

definition object_or_empty :: "json \<Rightarrow> string + json dict" where
  "object_or_empty j = (case j of JObj d \<Rightarrow> Inr d | _ \<Rightarrow> if truthy j then Inl ''AttributeError'' else Inr [])"

definition sensor_entry :: "string \<times> json \<Rightarrow> string + string \<times> sensor_cfg" where
  "sensor_entry e =
     bindR (object_or_empty (snd e)) (\<lambda>cfg.
     Inr (upper (fst e),
       \<lparr>sensor_label = jget ''name'' cfg, full_mm = jget ''full_mm'' cfg,
        empty_mm = get_or (JInt 0) ''empty_mm'' cfg\<rparr>))"

definition load_sensor_map :: "file_answer \<Rightarrow> string + (string \<times> sensor_cfg) list" where
  "load_sensor_map answer = (case answer of
      Loaded j \<Rightarrow>
        bindR (object_or_empty j) (\<lambda>raw.
        bindR (object_or_empty (jget ''sensors'' raw)) (\<lambda>sensors.
        bindR (mapR sensor_entry sensors) (\<lambda>es. Inr (dict_update [] es))))
    | _ \<Rightarrow> Inr [])"

section \<open>Fill level\<close>

definition clamp :: "rat \<Rightarrow> rat" where
  "clamp p = max 0 (min 100 p)"

definition fill_percent :: "rat \<Rightarrow> sensor_cfg \<Rightarrow> string + rat option" where
  "fill_percent level cfg =
     (if \<not> truthy (full_mm cfg) then Inr None
      else
        bindR (as_number (full_mm cfg)) (\<lambda>full.
        bindR (if truthy (empty_mm cfg) then as_number (empty_mm cfg) else Inr 0) (\<lambda>empty.
        let span = full - empty in
        if span \<le> 0 then Inr None else Inr (Some (clamp (100 * (level - empty) / span))))))"

section \<open>Addresses\<close>

definition hex_upper :: "nat \<Rightarrow> char" where
  "hex_upper d = (if d < 10 then char_of (48 + d) else char_of (55 + d))"

definition byte_text :: "64 word \<Rightarrow> string" where
  "byte_text b = [hex_upper (unat b div 16), hex_upper (unat b mod 16)]"

definition address_byte :: "64 word \<Rightarrow> nat \<Rightarrow> 64 word" where
  "address_byte a i = drop_bit (8 * i) a AND 0xFF"

definition mac :: "64 word \<Rightarrow> string" where
  "mac a = join '':'' (map (\<lambda>i. byte_text (address_byte a i)) (rev [0..<6]))"

section \<open>One advertisement\<close>

record parsed_adv =
  local_name :: "string option"
  service_uuids :: "string list"
  service_data :: "(string \<times> string) list"
  manufacturer_data :: "(int \<times> string) list"
  tx_power :: "int option"

record service_info =
  info_name :: string
  info_address :: string
  info_rssi :: int
  info_adv :: parsed_adv
  info_tx_power :: int

text \<open>What a decoder returns: the names of the devices it knows, and the readings; a reading that is not
  a number is \<open>None\<close>.\<close>

record sensor_update =
  device_names :: "string option list"
  entity_values :: "(string \<times> rat option) list"

record 'd ble_library =
  parse_adv :: "string \<Rightarrow> string + parsed_adv"
  new_device :: 'd
  supported :: "'d \<Rightarrow> service_info \<Rightarrow> bool \<times> 'd"
  update_device :: "'d \<Rightarrow> service_info \<Rightarrow> (string + sensor_update) \<times> 'd"

record 'd tank_env =
  ble :: "'d ble_library"
  sensor_map :: "(string \<times> sensor_cfg) list"
  tank_now :: rat

record 'd tank_world =
  devices :: "(string \<times> 'd) list"
  tank_gauges :: registry

type_synonym ('d, 'a) tank_io = "('d tank_env, 'd tank_world, string, 'a) io"

definition metric_by_key :: "(string \<times> string) list" where
  "metric_by_key =
    [(''temperature'', ''mopeka_sensor_temperature_celsius''),
     (''battery'', ''mopeka_sensor_battery_percent''),
     (''battery_voltage'', ''mopeka_sensor_battery_volts''),
     (''tank_level'', ''mopeka_sensor_tank_level_mm''),
     (''reading_quality'', ''mopeka_sensor_reading_quality_percent'')]"

definition put_gauge :: "string \<Rightarrow> (string \<times> string) list \<Rightarrow> rat \<Rightarrow> ('d, unit) tank_io" where
  "put_gauge metric labels v = modify (\<lambda>w. w\<lparr>tank_gauges := set_gauge metric labels (Some v) (tank_gauges w)\<rparr>)"

definition firmware_name :: "sensor_update \<Rightarrow> string \<Rightarrow> string" where
  "firmware_name u fallback =
     (case find (\<lambda>n. n \<noteq> None \<and> n \<noteq> Some []) (device_names u) of Some (Some n) \<Rightarrow> n | _ \<Rightarrow> fallback)"

definition adv_info :: "string \<Rightarrow> int \<Rightarrow> parsed_adv \<Rightarrow> service_info" where
  "adv_info m rssi p =
     \<lparr>info_name = (case local_name p of Some (c # n) \<Rightarrow> c # n | _ \<Rightarrow> m), info_address = m, info_rssi = rssi,
      info_adv = p, info_tx_power = (case tx_power p of Some t \<Rightarrow> t | None \<Rightarrow> - 127)\<rparr>"

text \<open>The decoder of a sensor: the stored one, or a new one if it supports the advertisement.\<close>

definition decoder :: "string \<Rightarrow> service_info \<Rightarrow> ('d, 'd option) tank_io" where
  "decoder m info = (\<lambda>e w.
     case map_of (devices w) m of
       Some d \<Rightarrow> (Inr (Some d), w)
     | None \<Rightarrow>
         (case supported (ble e) (new_device (ble e)) info of
            (False, _) \<Rightarrow> (Inr None, w)
          | (True, d) \<Rightarrow> (Inr (Some d), w\<lparr>devices := AList.update m d (devices w)\<rparr>)))"

definition decode :: "string \<Rightarrow> 'd \<Rightarrow> service_info \<Rightarrow> ('d, sensor_update) tank_io" where
  "decode m d info = (\<lambda>e w.
     case update_device (ble e) d info of (r, d') \<Rightarrow> (r, w\<lparr>devices := AList.update m d' (devices w)\<rparr>))"

definition export_value :: "string \<Rightarrow> string \<Rightarrow> string \<times> rat option \<Rightarrow> ('d, unit) tank_io" where
  "export_value name m entry =
     (case entry of
        (_, None) \<Rightarrow> ret ()
      | (key, Some v) \<Rightarrow>
          (case map_of metric_by_key key of
             Some metric \<Rightarrow> put_gauge metric [(''sensor'', name), (''mac'', m)] v
           | None \<Rightarrow> ret ()))"

fun export_values :: "string \<Rightarrow> string \<Rightarrow> (string \<times> rat option) list \<Rightarrow> ('d, unit) tank_io" where
  "export_values name m [] = ret ()"
| "export_values name m (x # xs) = andthen (export_value name m x) (export_values name m xs)"

text \<open>The last numeric tank level.\<close>

definition level_of :: "(string \<times> rat option) list \<Rightarrow> rat option" where
  "level_of vs = fold (\<lambda>(k, v) l. if k = ''tank_level'' \<and> v \<noteq> None then v else l) vs None"

definition sensor_name :: "sensor_cfg \<Rightarrow> sensor_update \<Rightarrow> string \<Rightarrow> string" where
  "sensor_name cfg u m = (if truthy (sensor_label cfg) then py_str (sensor_label cfg) else firmware_name u m)"

definition export_fill :: "string \<Rightarrow> string \<Rightarrow> sensor_cfg \<Rightarrow> rat option \<Rightarrow> ('d, unit) tank_io" where
  "export_fill name m cfg level =
     (case level of
        None \<Rightarrow> ret ()
      | Some l \<Rightarrow> bind (liftR (fill_percent l cfg)) (\<lambda>p. case p of
          None \<Rightarrow> ret ()
        | Some pct \<Rightarrow> put_gauge ''mopeka_sensor_fill_percent'' [(''sensor'', name), (''mac'', m)] pct))"

definition handle_advertisement :: "string \<Rightarrow> 64 word \<Rightarrow> int \<Rightarrow> string \<Rightarrow> ('d, unit) tank_io" where
  "handle_advertisement proxy address rssi raw =
     bind (ask id) (\<lambda>e.
     bind (liftR (parse_adv (ble e) raw)) (\<lambda>p.
     let m = mac address; info = adv_info m rssi p in
     bind (decoder m info) (\<lambda>d. case d of
       None \<Rightarrow> ret ()
     | Some dev \<Rightarrow>
         bind (decode m dev info) (\<lambda>u.
         let cfg = get_or no_cfg m (sensor_map e); name = sensor_name cfg u m in
         andthen (export_values name m (entity_values u))
         (andthen (export_fill name m cfg (level_of (entity_values u)))
         (andthen (put_gauge ''mopeka_sensor_signal_dbm'' [(''sensor'', name), (''mac'', m), (''proxy'', proxy)] (of_int rssi))
         (put_gauge ''mopeka_sensor_last_seen_timestamp_seconds'' [(''sensor'', name), (''mac'', m)] (tank_now e))))))))"

text \<open>An advertisement that cannot be handled does not stop the ones after it.\<close>

fun on_raw :: "string \<Rightarrow> (64 word \<times> int \<times> string) list \<Rightarrow> ('d, unit) tank_io" where
  "on_raw proxy [] = ret ()"
| "on_raw proxy ((address, rssi, raw) # advs) =
     andthen (try_catch (handle_advertisement proxy address rssi raw) (\<lambda>_. ret ())) (on_raw proxy advs)"


section \<open>The connections to the proxies\<close>

text \<open>Where the loop of a proxy stands: between two runs of \<open>_run_once\<close>, or at one of its awaits, \<open>connect\<close>,
  \<open>device_info\<close>, \<open>disconnected.wait\<close> or, in the \<open>finally\<close>, \<open>disconnect\<close>.\<close>

datatype phase = Idle | Connecting | Asking | Waiting | Closing

text \<open>What became of the connection of the client of this run, which the loop learns of later.\<close>

datatype wire = NotYet | Open | Lost

record proxy_link =
  phase :: phase
  wire :: wire
  disconnected :: bool   \<comment> \<open>the event that \<open>on_stop\<close> sets\<close>

record 'd net_state =
  links :: "nat \<Rightarrow> proxy_link"
  exporter :: "'d tank_world"

definition proxy_up :: "string \<Rightarrow> rat \<Rightarrow> 'd tank_world \<Rightarrow> 'd tank_world" where
  "proxy_up name v w = w\<lparr>tank_gauges := set_gauge ''mopeka_proxy_up'' [(''proxy'', name)] (Some v) (tank_gauges w)\<rparr>"

definition connected :: "rat \<Rightarrow> string \<Rightarrow> 'd tank_world \<Rightarrow> 'd tank_world" where
  "connected t name w =
     (let w = proxy_up name 1 w
      in w\<lparr>tank_gauges :=
        set_gauge ''mopeka_exporter_last_success_timestamp_seconds'' [(''proxy'', name)] (Some t) (tank_gauges w)\<rparr>)"

text \<open>The start: every proxy is reported down. Then the loops of the proxies (given by their names) run
  interleaved, one step from await to await at a time, and the network takes its own steps in between: a connection
  opens before \<open>connect\<close> returns, can be lost at any time, and \<open>on_stop\<close> is called some time after that. Once
  \<open>device_info\<close> has answered, the loop raises the gauge, subscribes to the advertisements and waits; when subscribing
  raises, the gauge is lowered in the same step. Advertisements come in as long as the client is not closed.\<close>

definition idle_link :: proxy_link where
  "idle_link = \<lparr>phase = Idle, wire = NotYet, disconnected = False\<rparr>"

definition initial :: "string list \<Rightarrow> 'd net_state" where
  "initial names =
     \<lparr>links = (\<lambda>_. idle_link), exporter = fold (\<lambda>n. proxy_up n 0) names \<lparr>devices = [], tank_gauges = []\<rparr>\<rparr>"

definition set_link :: "nat \<Rightarrow> proxy_link \<Rightarrow> 'd net_state \<Rightarrow> 'd net_state" where
  "set_link i l s = s\<lparr>links := (links s)(i := l)\<rparr>"

inductive proxy_step :: "'d ble_library \<Rightarrow> (string \<times> sensor_cfg) list \<Rightarrow> string list \<Rightarrow> 'd net_state \<Rightarrow> 'd net_state \<Rightarrow> bool"
  for lib cfgs names where
  attempt: "i < length names \<Longrightarrow> phase (links s i) = Idle \<Longrightarrow>
    proxy_step lib cfgs names s (set_link i (idle_link\<lparr>phase := Connecting\<rparr>) s)"
| opened: "i < length names \<Longrightarrow> phase (links s i) = Connecting \<Longrightarrow> wire (links s i) = NotYet \<Longrightarrow>
    proxy_step lib cfgs names s (set_link i ((links s i)\<lparr>wire := Open\<rparr>) s)"
| lost: "i < length names \<Longrightarrow> wire (links s i) = Open \<Longrightarrow>
    proxy_step lib cfgs names s (set_link i ((links s i)\<lparr>wire := Lost\<rparr>) s)"
| on_stop: "i < length names \<Longrightarrow> wire (links s i) = Lost \<Longrightarrow>
    proxy_step lib cfgs names s (set_link i ((links s i)\<lparr>disconnected := True\<rparr>) s)"
| connect_returned: "i < length names \<Longrightarrow> phase (links s i) = Connecting \<Longrightarrow> wire (links s i) \<noteq> NotYet \<Longrightarrow>
    proxy_step lib cfgs names s (set_link i ((links s i)\<lparr>phase := Asking\<rparr>) s)"
| answered: "i < length names \<Longrightarrow> phase (links s i) = Asking \<Longrightarrow>
    proxy_step lib cfgs names s
      (set_link i ((links s i)\<lparr>phase := Waiting\<rparr>) (s\<lparr>exporter := connected t (names ! i) (exporter s)\<rparr>))"
| not_subscribed: "i < length names \<Longrightarrow> phase (links s i) = Asking \<Longrightarrow>
    proxy_step lib cfgs names s
      (set_link i ((links s i)\<lparr>phase := Closing\<rparr>)
        (s\<lparr>exporter := proxy_up (names ! i) 0 (connected t (names ! i) (exporter s))\<rparr>))"
| advertised: "i < length names \<Longrightarrow> phase (links s i) \<in> {Waiting, Closing} \<Longrightarrow> wire (links s i) = Open \<Longrightarrow>
    proxy_step lib cfgs names s
      (s\<lparr>exporter := snd (on_raw (names ! i) advs \<lparr>ble = lib, sensor_map = cfgs, tank_now = t\<rparr> (exporter s))\<rparr>)"
| failed: "i < length names \<Longrightarrow> phase (links s i) \<in> {Connecting, Asking} \<Longrightarrow>
    proxy_step lib cfgs names s
      (set_link i ((links s i)\<lparr>phase := Closing\<rparr>) (s\<lparr>exporter := proxy_up (names ! i) 0 (exporter s)\<rparr>))"
| woken: "i < length names \<Longrightarrow> phase (links s i) = Waiting \<Longrightarrow> disconnected (links s i) \<Longrightarrow>
    proxy_step lib cfgs names s
      (set_link i ((links s i)\<lparr>phase := Closing\<rparr>) (s\<lparr>exporter := proxy_up (names ! i) 0 (exporter s)\<rparr>))"
| closed: "i < length names \<Longrightarrow> phase (links s i) = Closing \<Longrightarrow>
    proxy_step lib cfgs names s (set_link i idle_link s)"

definition reachable :: "'d ble_library \<Rightarrow> (string \<times> sensor_cfg) list \<Rightarrow> string list \<Rightarrow> 'd net_state \<Rightarrow> bool" where
  "reachable lib cfgs names s \<longleftrightarrow> (proxy_step lib cfgs names)\<^sup>*\<^sup>* (initial names) s"

section \<open>Fill level and addresses\<close>

text \<open>A fill level is a percentage: it lies between 0 and 100, is 100 from the full reading on and 0 up
  to the empty reading, and in between it is the linear position of the reading.\<close>

theorem fill_percent_range:
  assumes "fill_percent level cfg = Inr (Some p)"
  shows "\<exists>full empty. as_number (full_mm cfg) = Inr full \<and> empty < full \<and> 0 \<le> p \<and> p \<le> 100 \<and>
    (full \<le> level \<longrightarrow> p = 100) \<and> (level \<le> empty \<longrightarrow> p = 0) \<and>
    (empty \<le> level \<and> level \<le> full \<longrightarrow> p * (full - empty) = 100 * (level - empty))"
proof -
  obtain full empty where full: "as_number (full_mm cfg) = Inr full" and less: "empty < full"
    and p: "p = clamp (100 * (level - empty) / (full - empty))"
    using assms by (auto simp: fill_percent_def Let_def bindR_Inr not_le split: if_splits)
  have "100 \<le> 100 * (level - empty) / (full - empty)" if "full \<le> level"
    using less that by (simp add: le_divide_eq)
  moreover have "100 * (level - empty) / (full - empty) \<le> 0" if "level \<le> empty"
    using less that by (simp add: divide_le_0_iff)
  moreover have "0 \<le> 100 * (level - empty) / (full - empty) \<and> 100 * (level - empty) / (full - empty) \<le> 100"
    if "empty \<le> level" "level \<le> full"
    using less that by (simp add: divide_le_eq)
  ultimately show ?thesis
    using full less unfolding p clamp_def by (intro exI [of _ full] exI [of _ empty]) auto
qed

definition rv_right :: sensor_cfg where
  "rv_right = \<lparr>sensor_label = JStr ''RV Right'', full_mm = JInt 485, empty_mm = JInt 46\<rparr>"

lemma rv_right_fill: "fill_percent 485 rv_right = Inr (Some 100)"
  by (simp add: fill_percent_def rv_right_def as_number_def clamp_def)

theorem fill_percent_range_witness:
  "\<exists>full empty. as_number (full_mm rv_right) = Inr full \<and> empty < full \<and> 0 \<le> (100::rat) \<and> (100::rat) \<le> 100 \<and>
    (full \<le> 485 \<longrightarrow> (100::rat) = 100) \<and> (485 \<le> empty \<longrightarrow> (100::rat) = 0) \<and>
    (empty \<le> 485 \<and> 485 \<le> full \<longrightarrow> 100 * (full - empty) = 100 * (485 - empty))"
  by (rule fill_percent_range [OF rv_right_fill])

lemma hex_upper_inject: "m < 16 \<Longrightarrow> n < 16 \<Longrightarrow> hex_upper m = hex_upper n \<longleftrightarrow> m = n"
  by (auto simp: hex_upper_def dest!: arg_cong [where f = code] split: if_splits)

lemma hex_upper_no_colon: "n < 16 \<Longrightarrow> hex_upper n \<noteq> CHR '':''"
  by (auto simp: hex_upper_def dest!: arg_cong [where f = code] split: if_splits)

lemma address_byte_take: "address_byte a i = take_bit 8 (drop_bit (8 * i) a)"
  by (simp add: address_byte_def take_bit_eq_mask mask_eq_exp_minus_1)

lemma address_byte_bit: "bit (address_byte a i) j \<longleftrightarrow> j < 8 \<and> bit a (8 * i + j)"
  by (simp add: address_byte_take bit_take_bit_iff bit_drop_bit_eq)

lemma address_byte_less: "unat (address_byte a i) < 256"
  using take_bit_nat_less_exp [of 8 "unat (drop_bit (8 * i) a)"]
  by (simp add: address_byte_take unsigned_take_bit_eq)

lemma byte_text_no_colon: "unat b < 256 \<Longrightarrow> CHR '':'' \<notin> set (byte_text b)"
  using hex_upper_no_colon [of "unat b div 16"] hex_upper_no_colon [of "unat b mod 16"]
  by (simp add: byte_text_def less_mult_imp_div_less)

lemma byte_text_inject:
  assumes "unat b < 256" and "unat c < 256"
  shows "byte_text b = byte_text c \<longleftrightarrow> b = c"
proof
  assume "byte_text b = byte_text c"
  then have "unat b div 16 = unat c div 16" "unat b mod 16 = unat c mod 16"
    using assms by (simp_all add: byte_text_def hex_upper_inject less_mult_imp_div_less)
  then have "unat b = unat c"
    by (metis div_mult_mod_eq)
  then show "b = c" by (simp add: word_unat_eq_iff)
qed simp

lemma mac_bytes: "mac a = mac b \<longleftrightarrow> (\<forall>i<6. address_byte a i = address_byte b i)"
proof -
  let ?t = "\<lambda>a. map (\<lambda>i. byte_text (address_byte a i)) (rev [0..<6])"
  have split: "split_on (CHR '':'') (mac a) = ?t a" for a
    unfolding mac_def
  proof (rule split_on_join)
    fix x
    assume "x \<in> set (?t a)"
    then show "CHR '':'' \<notin> set x"
      using byte_text_no_colon [OF address_byte_less] by auto
  qed simp
  have "mac a = mac b \<longleftrightarrow> ?t a = ?t b"
    unfolding split [of a, symmetric] split [of b, symmetric] using mac_def [of a] mac_def [of b] split by metis
  also have "\<dots> \<longleftrightarrow> (\<forall>i<6. byte_text (address_byte a i) = byte_text (address_byte b i))"
    by (simp only: map_eq_conv set_rev set_upt) auto
  finally show ?thesis
    using byte_text_inject [OF address_byte_less address_byte_less] by simp
qed

text \<open>Two advertisements get the same printed address exactly when the lower 48 bits of their addresses
  agree: no two sensors share the label, and a sensor heard through two proxies is one sensor.\<close>

theorem mac_inject: "mac a = mac b \<longleftrightarrow> take_bit 48 a = take_bit 48 b"
proof -
  have "(\<forall>i<6. address_byte a i = address_byte b i) \<longleftrightarrow> (\<forall>n<48. bit a n = bit b n)"
  proof (rule iffI; intro allI impI)
    fix n :: nat
    assume h: "\<forall>i<6. address_byte a i = address_byte b i" and n: "n < 48"
    then have "address_byte a (n div 8) = address_byte b (n div 8)"
      by (simp add: less_mult_imp_div_less)
    then have "bit (address_byte a (n div 8)) (n mod 8) = bit (address_byte b (n div 8)) (n mod 8)"
      by simp
    then show "bit a n = bit b n"
      by (simp add: address_byte_bit)
  next
    fix i :: nat
    assume h: "\<forall>n<48. bit a n = bit b n" and i: "i < 6"
    have "j < 8 \<Longrightarrow> bit a (8 * i + j) = bit b (8 * i + j)" for j
      using h i by simp
    then show "address_byte a i = address_byte b i"
      by (intro bit_eqI) (auto simp: address_byte_bit)
  qed
  also have "\<dots> \<longleftrightarrow> take_bit 48 a = take_bit 48 b"
    by (auto simp: bit_eq_iff bit_take_bit_iff; drule_tac x = n in spec; simp)
  finally show ?thesis
    by (simp add: mac_bytes)
qed


section \<open>The connection gauge\<close>

definition up_gauge :: "string \<Rightarrow> 'd tank_world \<Rightarrow> rat option option" where
  "up_gauge name w = gauge ''mopeka_proxy_up'' [(''proxy'', name)] (tank_gauges w)"

lemma up_gauge_proxy_up [simp]: "up_gauge n (proxy_up m v w) = (if n = m then Some (Some v) else up_gauge n w)"
  by (simp add: up_gauge_def proxy_up_def)

lemma up_gauge_connected [simp]: "up_gauge n (connected t m w) = (if n = m then Some (Some 1) else up_gauge n w)"
  by (simp add: up_gauge_def connected_def proxy_up_def Let_def)

definition same_up :: "'d tank_world \<Rightarrow> 'd tank_world \<Rightarrow> bool" where
  "same_up w0 w \<longleftrightarrow> (\<forall>n. up_gauge n w = up_gauge n w0)"

lemma keeps_put_gauge: "metric \<noteq> ''mopeka_proxy_up'' \<Longrightarrow> keeps (same_up w0) (put_gauge metric ls v) e"
  by (auto simp: keeps_def put_gauge_def modify_def same_up_def up_gauge_def)

lemma keeps_export_value: "keeps (same_up w0) (export_value name m x) e"
proof -
  have "metric \<noteq> ''mopeka_proxy_up''" if "map_of metric_by_key key = Some metric" for key metric
    using map_of_SomeD [OF that] by (auto simp: metric_by_key_def)
  then show ?thesis
    by (auto simp: export_value_def keeps_put_gauge split: prod.split option.split)
qed

lemma keeps_export_values: "keeps (same_up w0) (export_values name m xs) e"
  by (induction xs) (simp_all add: keeps_export_value keeps_andthen)

lemma keeps_export_fill: "keeps (same_up w0) (export_fill name m cfg l) e"
  unfolding export_fill_def
  by (auto split: option.split intro!: keeps_bind keeps_put_gauge)

lemma keeps_decoder: "keeps (same_up w0) (decoder m info) e" "keeps (same_up w0) (decode m d info) e"
  by (auto simp: keeps_def decoder_def decode_def same_up_def up_gauge_def split: option.split prod.split bool.split)

lemma keeps_handle: "keeps (same_up w0) (handle_advertisement proxy address rssi raw) e"
  unfolding handle_advertisement_def Let_def
  by (intro keeps_bind keeps_pure keeps_decoder)
    (auto split: option.split intro!: keeps_bind keeps_andthen keeps_decoder keeps_export_values keeps_export_fill keeps_put_gauge)

lemma keeps_on_raw: "keeps (same_up w0) (on_raw proxy advs) e"
  by (induction proxy advs rule: on_raw.induct)
    (simp_all add: keeps_andthen keeps_try_catch keeps_handle)

lemma on_raw_up: "up_gauge n (snd (on_raw proxy advs e w)) = up_gauge n w"
  using keepsD [OF keeps_on_raw, of w w proxy advs e] by (simp add: same_up_def)

definition up_matches :: "string list \<Rightarrow> 'd net_state \<Rightarrow> bool" where
  "up_matches names s \<longleftrightarrow>
     (\<forall>i < length names. up_gauge (names ! i) (exporter s) = Some (Some (if phase (links s i) = Waiting then 1 else 0)))"

text \<open>What a run has come to and what became of its connection.\<close>

definition link_ok :: "proxy_link \<Rightarrow> bool" where
  "link_ok l \<longleftrightarrow> (phase l \<in> {Asking, Waiting} \<longrightarrow> wire l \<noteq> NotYet) \<and> (phase l = Idle \<longrightarrow> wire l = NotYet) \<and>
     (disconnected l \<longrightarrow> wire l = Lost)"

lemma link_set [simp]: "links (set_link i l s) j = (if j = i then l else links s j)" "exporter (set_link i l s) = exporter s"
  by (simp_all add: set_link_def)

lemma up_gauge_fold: "up_gauge n (fold (\<lambda>n. proxy_up n 0) ns w) = (if n \<in> set ns then Some (Some 0) else up_gauge n w)"
  by (induction ns arbitrary: w) auto

lemma up_matches_initial: "up_matches names (initial names)"
  by (simp add: up_matches_def initial_def idle_link_def up_gauge_fold)

lemma up_matches_step:
  assumes "proxy_step lib cfgs names s s'" and "distinct names" and "up_matches names s"
  shows "up_matches names s'"
  using assms(1)
proof (cases rule: proxy_step.cases)
  case (advertised i advs t)
  then show ?thesis using assms(3) by (simp add: up_matches_def on_raw_up)
qed (use assms(2,3) in \<open>auto simp: up_matches_def idle_link_def nth_eq_iff_index_eq\<close>)

lemma link_ok_step:
  assumes "proxy_step lib cfgs names s s'" and "link_ok (links s i)"
  shows "link_ok (links s' i)"
  using assms by (cases rule: proxy_step.cases) (auto simp: link_ok_def idle_link_def)

lemma reachable_ok:
  assumes "distinct names" and "reachable lib cfgs names s"
  shows "up_matches names s \<and> (\<forall>i. link_ok (links s i))"
proof -
  have "(proxy_step lib cfgs names)\<^sup>*\<^sup>* (initial names) s"
    using assms(2) by (simp add: reachable_def)
  then show ?thesis
  proof (induction rule: rtranclp_induct)
    case base
    show ?case by (simp add: up_matches_initial) (simp add: initial_def idle_link_def link_ok_def)
  next
    case (step s s')
    then show ?case using up_matches_step [OF step.hyps(2) assms(1)] link_ok_step [OF step.hyps(2)] by blast
  qed
qed

text \<open>C22: however the loops of the proxies and the network interleave, and whatever the proxies send, the connection
  gauge of each proxy is always 1 or 0, if the names of the proxies differ. When it is 1, the connection was set up and
  the proxy has answered on it: it is open, or it has been lost and the loop, which waits for just that, has not been
  woken yet. When it is 0 although a connection is open, the loop is still setting it up, up to the proxy's
  answer, or is already closing it. So with a loop that waits on an open connection the gauge is 1, and with one that has
  none it is 0.\<close>

theorem proxy_up_accurate:
  assumes "distinct names" and "reachable lib cfgs names s" and "i < length names"
  shows "up_gauge (names ! i) (exporter s) = Some (Some 1) \<and>
       phase (links s i) = Waiting \<and> (wire (links s i) = Open \<or> wire (links s i) = Lost) \<or>
     up_gauge (names ! i) (exporter s) = Some (Some 0) \<and>
       (wire (links s i) = Open \<longrightarrow> phase (links s i) \<in> {Connecting, Asking, Closing}) \<and> phase (links s i) \<noteq> Waiting"
proof -
  have "up_matches names s" and "link_ok (links s i)"
    using reachable_ok [OF assms(1,2)] by simp_all
  then show ?thesis
    using assms(3) by (cases "phase (links s i)"; cases "wire (links s i)") (auto simp: up_matches_def link_ok_def)
qed

text \<open>A library that never supports a sensor, for the witness: two proxies, the first connected.\<close>

definition deaf :: "unit ble_library" where
  "deaf = \<lparr>parse_adv = (\<lambda>_. Inl ''ValueError''), new_device = (), supported = (\<lambda>d _. (False, d)),
     update_device = (\<lambda>d _. (Inl ''ValueError'', d))\<rparr>"

definition first_connected :: "unit net_state" where
  "first_connected = (let s = initial [''a'', ''b''] in
     set_link 0 \<lparr>phase = Waiting, wire = Open, disconnected = False\<rparr> (s\<lparr>exporter := connected 5 ''a'' (exporter s)\<rparr>))"

lemma first_connected_reachable: "reachable deaf [] [''a'', ''b''] first_connected"
proof -
  let ?step = "proxy_step deaf [] [''a'', ''b'']" and ?s = "initial [''a'', ''b''] :: unit net_state"
  let ?l = "\<lambda>p x. \<lparr>phase = p, wire = x, disconnected = False\<rparr>"
  have "?step ?s (set_link 0 (?l Connecting NotYet) ?s)"
    using proxy_step.attempt [of 0 "[''a'', ''b'']" ?s deaf "[]"] by (simp add: initial_def idle_link_def)
  moreover have "?step (set_link 0 (?l Connecting NotYet) ?s) (set_link 0 (?l Connecting Open) ?s)"
    using proxy_step.opened [of 0 "[''a'', ''b'']" "set_link 0 (?l Connecting NotYet) ?s" deaf "[]"] by (simp add: set_link_def)
  moreover have "?step (set_link 0 (?l Connecting Open) ?s) (set_link 0 (?l Asking Open) ?s)"
    using proxy_step.connect_returned [of 0 "[''a'', ''b'']" "set_link 0 (?l Connecting Open) ?s" deaf "[]"] by (simp add: set_link_def)
  moreover have "?step (set_link 0 (?l Asking Open) ?s) first_connected"
    using proxy_step.answered [of 0 "[''a'', ''b'']" "set_link 0 (?l Asking Open) ?s" deaf "[]" 5]
    by (simp add: set_link_def first_connected_def Let_def)
  ultimately show ?thesis
    unfolding reachable_def by (meson converse_rtranclp_into_rtranclp rtranclp.rtrancl_refl)
qed

theorem proxy_up_accurate_witness:
  "up_gauge ''a'' (exporter first_connected) = Some (Some 1) \<and> up_gauge ''b'' (exporter first_connected) = Some (Some 0)"
  using proxy_up_accurate [OF _ first_connected_reachable, of 0] proxy_up_accurate [OF _ first_connected_reachable, of 1]
  by (simp add: first_connected_def Let_def initial_def idle_link_def)

end
