(* ===== verification/WeatherExporter.thy ===== *)
theory WeatherExporter
  imports Gauges IoMonad Calendar
begin

text \<open>
  \<open>compose/nuc/weather-exporter/weather_exporter.py\<close>: the weather station's live data as Prometheus
  gauges, with daily highs and lows kept by the exporter. The station's answer and the clock are
  the environment. A gauge set from a text without a number is not-a-number. The main loop catches
  every exception, so the name given to the exception of a malformed answer decides nothing.
\<close>

section \<open>Numbers\<close>

text \<open>The match of \<open>[-+]?\d*\.\d+|[-+]?\d+\<close> at the start of a text.\<close>

definition sign_part :: "string \<Rightarrow> string" where
  "sign_part s = (case s of c # _ \<Rightarrow> if c = CHR ''-'' \<or> c = CHR ''+'' then [c] else [] | [] \<Rightarrow> [])"

definition number_at :: "string \<Rightarrow> string option" where
  "number_at s =
     (let r = drop (length (sign_part s)) s; d = takeWhile is_digit r; rest = dropWhile is_digit r;
          f = takeWhile is_digit (drop 1 rest)
      in if take 1 rest = ''.'' \<and> f \<noteq> [] then Some (sign_part s @ d @ ''.'' @ f)
         else if d \<noteq> [] then Some (sign_part s @ d) else None)"

fun find_number :: "string \<Rightarrow> string option" where
  "find_number [] = None"
| "find_number (c # s) = (case number_at (c # s) of Some m \<Rightarrow> Some m | None \<Rightarrow> find_number s)"

definition num :: "string \<Rightarrow> rat option" where
  "num s = (case find_number s of None \<Rightarrow> None | Some m \<Rightarrow> float_of m)"

section \<open>Daily highs and lows\<close>

record day_record =
  rec_day :: date
  rec_min :: rat
  rec_max :: rat

definition track_record :: "date \<Rightarrow> rat \<Rightarrow> day_record option \<Rightarrow> day_record" where
  "track_record today v old =
     (case old of
        None \<Rightarrow> \<lparr>rec_day = today, rec_min = v, rec_max = v\<rparr>
      | Some r \<Rightarrow>
          (if rec_day r \<noteq> today then \<lparr>rec_day = today, rec_min = v, rec_max = v\<rparr>
           else r\<lparr>rec_min := min (rec_min r) v, rec_max := max (rec_max r) v\<rparr>))"

record weather_env =
  station_data :: "string + json"       \<comment> \<open>the decoded answer, or the exception of the request\<close>
  station_day :: "string \<Rightarrow> date"        \<comment> \<open>the station's date when a key is tracked\<close>
  weather_now :: rat

record weather =
  daily_stats :: "(string \<times> day_record) list"
  weather_gauges :: registry

type_synonym 'a weather_io = "(weather_env, weather, string, 'a) io"

definition track_stats :: "string \<Rightarrow> date \<Rightarrow> rat \<Rightarrow> (string \<times> day_record) list \<Rightarrow> (string \<times> day_record) list" where
  "track_stats key today v stats = AList.update key (track_record today v (map_of stats key)) stats"

definition track_daily :: "string \<Rightarrow> rat option \<Rightarrow> (rat \<times> rat) option weather_io" where
  "track_daily key value = (\<lambda>e w.
     case value of
       None \<Rightarrow> (Inr None, w)
     | Some v \<Rightarrow>
         let stats = track_stats key (station_day e key) v (daily_stats w)
         in (Inr (map_option (\<lambda>r. (rec_min r, rec_max r)) (map_of stats key)), w\<lparr>daily_stats := stats\<rparr>))"

section \<open>The poll\<close>

definition emit :: "string \<Rightarrow> (string \<times> string) list \<Rightarrow> rat option \<Rightarrow> unit weather_io" where
  "emit metric labels v = modify (\<lambda>w. w\<lparr>weather_gauges := set_gauge metric labels v (weather_gauges w)\<rparr>)"

definition as_entry :: "json \<Rightarrow> json dict weather_io" where
  "as_entry j = (case j of JObj d \<Rightarrow> ret d | _ \<Rightarrow> raise ''AttributeError'')"

definition entries_of :: "string \<Rightarrow> json dict \<Rightarrow> json list weather_io" where
  "entries_of key d = (case get_or (JList []) key d of
      JList l \<Rightarrow> ret l
    | JStr s \<Rightarrow> ret (map (\<lambda>c. JStr [c]) s)
    | JObj e \<Rightarrow> ret (map (\<lambda>(k, _). JStr k) e)
    | _ \<Rightarrow> raise ''TypeError'')"

fun find_entry :: "json list \<Rightarrow> string \<Rightarrow> json dict option weather_io" where
  "find_entry [] i = ret None"
| "find_entry (x # xs) i =
     bind (as_entry x) (\<lambda>d. if jget ''id'' d = JStr i then ret (Some d) else find_entry xs i)"

definition number_field :: "string \<Rightarrow> json dict \<Rightarrow> rat option weather_io" where
  "number_field k d = (case map_of d k of
      None \<Rightarrow> raise ''KeyError''
    | Some (JStr s) \<Rightarrow> ret (num s)
    | Some _ \<Rightarrow> raise ''TypeError'')"

definition emit_entry :: "json list \<Rightarrow> (string \<times> string) list \<Rightarrow> string \<times> string \<Rightarrow> unit weather_io" where
  "emit_entry entries labels im =
     bind (find_entry entries (fst im)) (\<lambda>r. case r of
       None \<Rightarrow> ret ()
     | Some d \<Rightarrow> bind (number_field ''val'' d) (emit (snd im) labels))"

fun emit_entries :: "json list \<Rightarrow> (string \<times> string) list \<Rightarrow> (string \<times> string) list \<Rightarrow> unit weather_io" where
  "emit_entries entries labels [] = ret ()"
| "emit_entries entries labels (im # ims) =
     andthen (emit_entry entries labels im) (emit_entries entries labels ims)"

definition rain_metrics :: "(string \<times> string) list" where
  "rain_metrics =
    [(''0x0D'', ''weather_rain_event_inches''), (''0x0E'', ''weather_rain_rate_inches_per_hour''),
     (''0x10'', ''weather_rain_day_inches''), (''0x11'', ''weather_rain_week_inches''),
     (''0x12'', ''weather_rain_month_inches'')]"

definition optional_field :: "string \<Rightarrow> json dict \<Rightarrow> string \<Rightarrow> (string \<times> string) list \<Rightarrow> unit weather_io" where
  "optional_field k d metric labels =
     (if k \<in> set (keys d) then bind (number_field k d) (emit metric labels) else ret ())"

definition apply_rain :: "json list \<Rightarrow> string \<Rightarrow> unit weather_io" where
  "apply_rain entries sensor =
     (let labels = [(''sensor'', sensor)] in
      andthen (emit_entries entries labels rain_metrics)
      (bind (find_entry entries ''0x13'') (\<lambda>r. case r of
         None \<Rightarrow> ret ()
       | Some d \<Rightarrow>
           andthen (bind (number_field ''val'' d) (emit ''weather_rain_year_inches'' labels))
           (andthen (optional_field ''battery'' d ''weather_rain_sensor_battery_raw'' labels)
           (optional_field ''voltage'' d ''weather_rain_sensor_voltage'' labels)))))"

text \<open>The low and high of a tracked reading under a metric's name and labels.\<close>

definition emit_daily :: "string \<Rightarrow> string \<Rightarrow> (string \<times> string) list \<Rightarrow> rat option \<Rightarrow> unit weather_io" where
  "emit_daily key metric labels v =
     bind (track_daily key v) (\<lambda>mm. case mm of
       None \<Rightarrow> ret ()
     | Some (lo, hi) \<Rightarrow>
         andthen (emit (metric @ ''_daily_min_fahrenheit'') labels (Some lo))
         (emit (metric @ ''_daily_max_fahrenheit'') labels (Some hi)))"

definition common_metrics :: "(string \<times> string) list" where
  "common_metrics =
    [(''3'', ''weather_apparent_temp_fahrenheit''), (''0x03'', ''weather_dew_point_fahrenheit''),
     (''0x07'', ''weather_outdoor_humidity_percent''), (''0x0A'', ''weather_wind_direction_degrees''),
     (''0x0B'', ''weather_wind_speed_mph''), (''0x0C'', ''weather_wind_gust_mph''),
     (''0x19'', ''weather_wind_gust_daily_max_mph''), (''0x15'', ''weather_solar_radiation_watts_per_m2''),
     (''0x17'', ''weather_uv_index'')]"

definition poll_outdoor :: "json list \<Rightarrow> unit weather_io" where
  "poll_outdoor common =
     andthen
       (bind (find_entry common ''0x02'') (\<lambda>r. case r of
          None \<Rightarrow> ret ()
        | Some d \<Rightarrow> bind (number_field ''val'' d) (\<lambda>v.
            andthen (emit ''weather_outdoor_temp_fahrenheit'' [] v)
            (emit_daily ''outdoor'' ''weather_outdoor_temp'' [] v))))
       (emit_entries common [] common_metrics)"

definition poll_indoor :: "json list \<Rightarrow> unit weather_io" where
  "poll_indoor wh25 = (case wh25 of
      [] \<Rightarrow> ret ()
    | j # _ \<Rightarrow>
        bind (as_entry j) (\<lambda>d.
        bind (number_field ''intemp'' d) (\<lambda>v.
        andthen (emit ''weather_indoor_temp_fahrenheit'' [] v)
        (andthen (bind (number_field ''inhumi'' d) (emit ''weather_indoor_humidity_percent'' []))
        (andthen (bind (number_field ''abs'' d) (emit ''weather_pressure_absolute_inhg'' []))
        (andthen (bind (number_field ''rel'' d) (emit ''weather_pressure_relative_inhg'' []))
        (emit_daily ''indoor'' ''weather_indoor_temp'' [] v)))))))"

definition poll_channel :: "json \<Rightarrow> unit weather_io" where
  "poll_channel j =
     bind (as_entry j) (\<lambda>ch.
     if jget ''channel'' ch = JNull then ret ()
     else
       let c = py_str (jget ''channel'' ch); labels = [(''channel'', c)] in
       bind (number_field ''temp'' ch) (\<lambda>v.
       andthen (emit ''weather_extra_sensor_temp_fahrenheit'' labels v)
       (andthen (bind (number_field ''humidity'' ch) (emit ''weather_extra_sensor_humidity_percent'' labels))
       (emit_daily (''extra'' @ c) ''weather_extra_sensor_temp'' labels v))))"

fun poll_channels :: "json list \<Rightarrow> unit weather_io" where
  "poll_channels [] = ret ()"
| "poll_channels (x # xs) = andthen (poll_channel x) (poll_channels xs)"

definition poll :: "unit weather_io" where
  "poll =
     bind (bind (ask station_data) liftR) (\<lambda>j.
     bind (as_entry j) (\<lambda>data.
     andthen (bind (entries_of ''common_list'' data) poll_outdoor)
     (andthen (bind (entries_of ''wh25'' data) poll_indoor)
     (andthen (bind (entries_of ''rain'' data) (\<lambda>l. apply_rain l ''bucket''))
     (andthen (bind (entries_of ''piezoRain'' data) (\<lambda>l. apply_rain l ''piezo''))
     (andthen (bind (entries_of ''ch_aisle'' data) poll_channels)
     (bind (ask weather_now) (\<lambda>t. emit ''weather_exporter_last_success_timestamp_seconds'' [] (Some t)))))))))"

text \<open>One turn of the main loop: an exception only ends the poll.\<close>

definition turn :: "unit weather_io" where
  "turn = try_catch poll (\<lambda>_. ret ())"

section \<open>The daily record refines the day's readings\<close>

text \<open>The specification: all readings are kept, with their days, and the record of today is made from the
  readings of the last day alone.\<close>

definition last_day :: "(date \<times> rat) list \<Rightarrow> rat list" where
  "last_day readings = map snd (takeWhile (\<lambda>(d, _). d = fst (last readings)) (rev readings))"

definition day_summary :: "(date \<times> rat) list \<Rightarrow> day_record option" where
  "day_summary readings =
     (if readings = [] then None
      else Some \<lparr>rec_day = fst (last readings), rec_min = Min (set (last_day readings)),
        rec_max = Max (set (last_day readings))\<rparr>)"

lemma last_day_snoc:
  "last_day (rs @ [(d, v)]) = v # (if rs \<noteq> [] \<and> fst (last rs) = d then last_day rs else [])"
proof (cases rs rule: rev_cases)
  case (snoc rs' r)
  then show ?thesis
    by (cases r) (auto simp: last_day_def)
qed (simp add: last_day_def)

lemma last_day_not_Nil: "rs \<noteq> [] \<Longrightarrow> last_day rs \<noteq> []"
  by (cases rs rule: rev_cases) (auto simp: last_day_def)

lemma day_summary_step: "day_summary (rs @ [(d, v)]) = Some (track_record d v (day_summary rs))"
proof (cases "rs \<noteq> [] \<and> fst (last rs) = d")
  case True
  then show ?thesis
    using last_day_not_Nil [of rs]
    by (simp add: day_summary_def track_record_def last_day_snoc min.commute max.commute)
next
  case False
  then show ?thesis
    by (auto simp: day_summary_def track_record_def last_day_snoc)
qed

lemma map_of_track_stats:
  "map_of (track_stats k d v stats) key =
     (if key = k then Some (track_record d v (map_of stats k)) else map_of stats key)"
  by (simp add: track_stats_def)

text \<open>C32: whatever readings come for whatever keys on whatever days, the record the exporter keeps for a
  key is the day of the key's last reading, with the least and the greatest reading since that day
  began: it refines the specification that keeps every reading.\<close>

theorem track_refines_summary:
  "map_of (fold (\<lambda>(k, d, v). track_stats k d v) readings []) key =
     day_summary (map snd (filter (\<lambda>(k, _). k = key) readings))"
proof (induction readings rule: rev_induct)
  case (snoc x xs)
  obtain k d v where "x = (k, d, v)" by (cases x)
  with snoc show ?case
    by (auto simp: map_of_track_stats day_summary_step)
qed (simp add: day_summary_def)

end
