(* ===== verification/PyConv.thy ===== *)
theory PyConv
  imports PyNum Http
begin

text \<open>
  Python's \<open>int(x)\<close> and \<open>float(x)\<close> of a JSON value, with the exceptions they raise. A float is an
  exact rational; the texts of infinities and NaN, which Python's \<open>float\<close> also reads, raise here.
\<close>

definition to_float :: "json \<Rightarrow> py_exn + rat" where
  "to_float j = (case j of
      JInt i \<Rightarrow> Inr (of_int i)
    | JBool b \<Rightarrow> Inr (if b then 1 else 0)
    | JFloat r \<Rightarrow> (case float_of r of Some q \<Rightarrow> Inr q | None \<Rightarrow> Inl (PyError ''ValueError''))
    | JStr s \<Rightarrow> (case float_of s of Some q \<Rightarrow> Inr q | None \<Rightarrow> Inl (PyError ''ValueError''))
    | _ \<Rightarrow> Inl (PyError ''TypeError''))"

definition to_int :: "json \<Rightarrow> py_exn + int" where
  "to_int j = (case j of
      JInt i \<Rightarrow> Inr i
    | JBool b \<Rightarrow> Inr (if b then 1 else 0)
    | JFloat r \<Rightarrow> (case float_of r of Some q \<Rightarrow> Inr (trunc q) | None \<Rightarrow> Inl (PyError ''ValueError''))
    | JStr s \<Rightarrow> (case int_of s of Some i \<Rightarrow> Inr i | None \<Rightarrow> Inl (PyError ''ValueError''))
    | _ \<Rightarrow> Inl (PyError ''TypeError''))"

text \<open>A JSON value in arithmetic or a comparison with a number.\<close>

definition py_number :: "json \<Rightarrow> py_exn + rat" where
  "py_number j = (case j of JStr _ \<Rightarrow> Inl (PyError ''TypeError'') | _ \<Rightarrow> to_float j)"

text \<open>\<open>j[0]\<close> and \<open>j[1]\<close>.\<close>

definition at_index :: "nat \<Rightarrow> json \<Rightarrow> py_exn + json" where
  "at_index n j = (case j of
      JList l \<Rightarrow> (if n < length l then Inr (l ! n) else Inl (PyError ''IndexError''))
    | JStr s \<Rightarrow> (if n < length s then Inr (JStr [s ! n]) else Inl (PyError ''IndexError''))
    | JObj _ \<Rightarrow> Inl (PyError ''KeyError'')
    | _ \<Rightarrow> Inl (PyError ''TypeError''))"

text \<open>\<open>a or b\<close>.\<close>

definition or_j :: "json \<Rightarrow> json \<Rightarrow> json" where
  "or_j a b = (if truthy a then a else b)"

text \<open>\<open>(j.get(k) or {})\<close>.\<close>

definition get_dict :: "string \<Rightarrow> json \<Rightarrow> py_exn + json" where
  "get_dict k j = bindR (get_of JNull k j) (\<lambda>v. Inr (or_j v (JObj [])))"

text \<open>A value where the code needs a text.\<close>

definition text_of :: "json \<Rightarrow> py_exn + string" where
  "text_of j = (case j of JStr s \<Rightarrow> Inr s | _ \<Rightarrow> Inl (PyError ''TypeError''))"

text \<open>\<open>j[k1][k2]...\<close>.\<close>

fun item_path :: "string list \<Rightarrow> json \<Rightarrow> py_exn + json" where
  "item_path [] j = Inr j"
| "item_path (k # ks) j = bindR (item_of k j) (item_path ks)"

text \<open>\<open>any(p(x) for x in xs)\<close>, which stops at the first one, and \<open>[x for x in xs if p(x)]\<close>.\<close>

fun anyR :: "('a \<Rightarrow> 'e + bool) \<Rightarrow> 'a list \<Rightarrow> 'e + bool" where
  "anyR p [] = Inr False"
| "anyR p (x # xs) = bindR (p x) (\<lambda>b. if b then Inr True else anyR p xs)"

definition filterR :: "('a \<Rightarrow> 'e + bool) \<Rightarrow> 'a list \<Rightarrow> 'e + 'a list" where
  "filterR p xs = bindR (mapR (\<lambda>x. bindR (p x) (\<lambda>b. Inr (x, b))) xs) (\<lambda>ys. Inr (map fst (filter snd ys)))"

text \<open>The text of \<open>j.get(k, v)\<close> in a line.\<close>

definition get_text :: "json \<Rightarrow> string \<Rightarrow> json \<Rightarrow> py_exn + string" where
  "get_text v k j = bindR (get_of v k j) (\<lambda>x. Inr (py_str x))"

lemma anyR_Inr: "list_all (\<lambda>x. \<not> isl (p x)) xs \<Longrightarrow> anyR p xs = Inr (list_ex (\<lambda>x. p x = Inr True) xs)"
proof (induction xs)
  case (Cons x xs)
  then show ?case by (cases "p x") auto
qed simp

end
