(* ===== verification/PastDays.thy ===== *)
theory PastDays
  imports Calendar
begin

text \<open>
  Moving a date back by days, and to the first day of a month (\<open>d - timedelta(days=n)\<close> and
  \<open>d.replace(day=k)\<close>). Years before the first, where Python raises, are left out.
\<close>

definition prev_day :: "date \<Rightarrow> date" where
  "prev_day d = (case d of Date y m k \<Rightarrow>
     if 1 < k then Date y m (k - 1)
     else if 1 < m then Date y (m - 1) (days_in_month y (m - 1)) else Date (y - 1) 12 31)"

definition sub_days :: "date \<Rightarrow> nat \<Rightarrow> date" where
  "sub_days d n = (prev_day ^^ n) d"

definition with_day :: "date \<Rightarrow> nat \<Rightarrow> date" where
  "with_day d k = Date (year_of d) (month_of d) k"

lemma next_prev_day:
  assumes "proper d" and "1 < year_of d"
  shows "next_day (prev_day d) = d" and "proper (prev_day d)"
proof -
  obtain y m k where d: "d = Date y m k" by (cases d)
  consider "1 < k" | "k = 1" "1 < m" | "k = 1" "m = 1"
    using assms(1) by (fastforce simp: d proper_def)
  then have "next_day (prev_day d) = d \<and> proper (prev_day d)"
  proof cases
    case 3
    moreover have "days_in_month (y - 1) 12 = 31" by (simp add: days_in_month_def)
    ultimately show ?thesis
      using assms by (simp add: d prev_day_def next_day_def proper_def)
  qed (use assms in \<open>auto simp: d prev_day_def next_day_def proper_def\<close>)
  then show "next_day (prev_day d) = d" "proper (prev_day d)"
    by simp_all
qed

lemma prev_day_less: "proper d \<Longrightarrow> 1 < year_of d \<Longrightarrow> prev_day d < d"
  using next_day_greater [of "prev_day d"] next_prev_day [of d] by simp

lemma proper_with_day: "proper d \<Longrightarrow> 1 \<le> k \<Longrightarrow> k \<le> 28 \<Longrightarrow> proper (with_day d k)"
  using days_in_month_bounds(1) [of "year_of d" "month_of d"] by (simp add: proper_def with_day_def)

lemma first_day_le: "proper d \<Longrightarrow> with_day d 1 \<le> d"
  by (simp add: with_day_def less_eq_date_def proper_def)

end
