(* ===== verification/CostExporter.thy ===== *)
theory CostExporter
  imports PyConv Gauges PastDays
begin

text \<open>
  \<open>compose/aws/cost-exporter/cost_exporter.py\<close>: the AWS cost gauges. The calls of Cost Explorer are
  recorded, and what they answer is the environment: by number and call, a response or an
  exception. Sums are exact; the log lines are left out.
\<close>

datatype cost_call =
    Usage (call_period: "string \<times> string") (granularity: string) (group_by: "string option")
  | Forecast (call_period: "string \<times> string")

record cost_env =
  ce_answer :: "nat \<Rightarrow> cost_call \<Rightarrow> py_exn + json"
  ce_today :: date
  ce_now :: rat

record cost_world =
  ce_calls :: "cost_call list"
  cost_gauges :: registry

type_synonym 'a cost_io = "(cost_env, cost_world, py_exn, 'a) io"

definition call_ce :: "cost_call \<Rightarrow> json cost_io" where
  "call_ce c = (\<lambda>e w. (ce_answer e (length (ce_calls w)) c, w\<lparr>ce_calls := ce_calls w @ [c]\<rparr>))"

definition set_cost :: "string \<Rightarrow> (string \<times> string) list \<Rightarrow> rat \<Rightarrow> unit cost_io" where
  "set_cost metric labels v = modify (\<lambda>w. w\<lparr>cost_gauges := set_gauge metric labels (Some v) (cost_gauges w)\<rparr>)"

definition time_period :: "date \<Rightarrow> date \<Rightarrow> string \<times> string" where
  "time_period a b = (isoformat a, isoformat b)"

definition first_of_next_month :: "date \<Rightarrow> date" where
  "first_of_next_month d = with_day (add_days (with_day d 28) 4) 1"

text \<open>The first of the results by time, if there is one.\<close>

definition first_result :: "json \<Rightarrow> py_exn + json option" where
  "first_result resp =
     bindR (item_of ''ResultsByTime'' resp) (\<lambda>r.
     if truthy r then bindR (at_index 0 r) (\<lambda>x. Inr (Some x)) else Inr None)"

text \<open>A group of a result: its key and its amount.\<close>

definition group_entry :: "json \<Rightarrow> py_exn + string \<times> rat" where
  "group_entry g =
     bindR (bindR (item_of ''Keys'' g) (at_index 0)) (\<lambda>k.
     bindR (bindR (item_path [''Metrics'', ''UnblendedCost'', ''Amount''] g) to_float) (\<lambda>x. Inr (py_str k, x)))"

definition groups_of :: "json \<Rightarrow> py_exn + json list" where
  "groups_of resp =
     bindR (first_result resp) (\<lambda>r.
     case r of None \<Rightarrow> Inr [] | Some x \<Rightarrow> bindR (item_of ''Groups'' x) iter_of)"

text \<open>The services one after the other: a group that cannot be read leaves the gauges of those before it set.\<close>

fun set_services :: "json list \<Rightarrow> rat \<Rightarrow> rat cost_io" where
  "set_services [] acc = ret acc"
| "set_services (g # gs) acc =
     bind (liftR (group_entry g)) (\<lambda>(service, amount).
     andthen (set_cost ''aws_cost_by_service_usd'' [(''service'', service)] amount) (set_services gs (acc + amount)))"

definition month_total :: "json \<Rightarrow> py_exn + rat" where
  "month_total resp =
     bindR (first_result resp) (\<lambda>r.
     case r of None \<Rightarrow> Inr 0 | Some x \<Rightarrow> bindR (item_path [''Total'', ''UnblendedCost'', ''Amount''] x) to_float)"

text \<open>Gross usage and credits: of several groups of one type the last one counts.\<close>

definition record_type :: "string \<times> rat \<Rightarrow> rat \<times> rat \<Rightarrow> rat \<times> rat" where
  "record_type g acc =
     (if fst g = ''Usage'' then (snd g, snd acc) else if fst g = ''Credit'' then (fst acc, snd g) else acc)"

definition usage_and_credits :: "json \<Rightarrow> py_exn + rat \<times> rat" where
  "usage_and_credits resp =
     bindR (groups_of resp) (\<lambda>gs. bindR (mapR group_entry gs) (\<lambda>es. Inr (fold record_type es (0, 0))))"

definition month_period :: "date \<Rightarrow> string \<times> string" where
  "month_period today =
     (let first = with_day today 1 in time_period first (if first < today then today else add_days first 1))"

definition set_forecast :: "date \<Rightarrow> rat \<Rightarrow> unit cost_io" where
  "set_forecast today mtd =
     try_catch
       (bind (call_ce (Forecast (time_period today (first_of_next_month today)))) (\<lambda>f.
        bind (liftR (bindR (item_path [''Total'', ''Amount''] f) to_float)) (\<lambda>remaining.
        set_cost ''aws_cost_forecast_month_usd'' [] (mtd + remaining))))
       (\<lambda>x. ret ())"

definition cost_poll :: "unit cost_io" where
  "cost_poll =
     bind (ask ce_today) (\<lambda>today.
     bind (call_ce (Usage (time_period (prev_day today) today) ''DAILY'' (Some ''SERVICE''))) (\<lambda>resp.
     bind (liftR (groups_of resp)) (\<lambda>gs.
     bind (set_services gs 0) (\<lambda>day_total.
     andthen (set_cost ''aws_cost_yesterday_usd'' [] day_total)
     (bind (call_ce (Usage (month_period today) ''MONTHLY'' None)) (\<lambda>resp.
     bind (liftR (month_total resp)) (\<lambda>mtd.
     andthen (set_cost ''aws_cost_month_to_date_usd'' [] mtd)
     (bind (call_ce (Usage (month_period today) ''MONTHLY'' (Some ''RECORD_TYPE''))) (\<lambda>resp.
     bind (liftR (usage_and_credits resp)) (\<lambda>(gross, credits).
     andthen (set_cost ''aws_cost_month_to_date_gross_usage_usd'' [] gross)
     (andthen (set_cost ''aws_cost_month_to_date_credits_usd'' [] credits)
     (andthen (set_forecast today mtd)
     (bind (ask ce_now) (\<lambda>t.
      set_cost ''aws_cost_exporter_last_success_timestamp_seconds'' [] t))))))))))))))"

text \<open>One turn of the loop: a poll that raised is only logged.\<close>

definition cost_turn :: "unit cost_io" where
  "cost_turn = try_catch cost_poll (\<lambda>x. ret ())"

section \<open>The periods asked for\<close>

lemma first_of_next_month_eq:
  assumes "proper d"
  shows "first_of_next_month d = (if month_of d < 12 then Date (year_of d) (month_of d + 1) 1 else Date (year_of d + 1) 1 1)"
proof -
  have step: "add_days x 4 = next_day (next_day (next_day (next_day x)))" for x
    by (simp add: add_days_def numeral_eq_Suc)
  have "days_in_month (year_of d) (month_of d) \<in> {28, 29, 30, 31}"
    by (simp add: days_in_month_def)
  moreover have "k < 28 \<Longrightarrow> k < days_in_month y m" for k y m
    using days_in_month_bounds(1) [of y m] by linarith
  ultimately show ?thesis
    by (auto simp: first_of_next_month_def step with_day_def next_day_def split: if_splits)
qed

lemma next_month_later: "proper d \<Longrightarrow> proper (first_of_next_month d) \<and> d < first_of_next_month d"
  using first_of_next_month_eq [of d] by (auto simp: less_date_def less_eq_date_def proper_def)

text \<open>The forecast ends with the first day of the next month, which the code reaches by moving four days
  on from the 28th: for every date it is a first day, later than the date, and no first day lies
  between them.\<close>

theorem forecast_until_next_month:
  assumes "proper d"
  shows "day_of (first_of_next_month d) = 1 \<and> proper (first_of_next_month d) \<and> d < first_of_next_month d \<and>
    (\<forall>x. proper x \<and> d < x \<and> day_of x = 1 \<longrightarrow> first_of_next_month d \<le> x)"
proof -
  have "first_of_next_month d \<le> x" if "proper x" "d < x" "day_of x = 1" for x
    using that assms first_of_next_month_eq [OF assms]
    by (auto simp: less_date_def less_eq_date_def proper_def)
  moreover have "day_of (first_of_next_month d) = 1"
    using first_of_next_month_eq [OF assms] by simp
  ultimately show ?thesis
    using next_month_later [OF assms] by blast
qed

theorem forecast_until_next_month_witness:
  "day_of (first_of_next_month (Date 2027 12 31)) = 1 \<and> proper (first_of_next_month (Date 2027 12 31)) \<and>
    Date 2027 12 31 < first_of_next_month (Date 2027 12 31) \<and>
    (\<forall>x. proper x \<and> Date 2027 12 31 < x \<and> day_of x = 1 \<longrightarrow> first_of_next_month (Date 2027 12 31) \<le> x)"
  by (rule forecast_until_next_month) (simp add: proper_def days_in_month_def)

section \<open>Periods are never empty\<close>

text \<open>Cost Explorer refuses a period that ends where it starts.\<close>

definition some_days :: "cost_call \<Rightarrow> bool" where
  "some_days c \<longleftrightarrow> (\<exists>a b. call_period c = time_period a b \<and> proper a \<and> proper b \<and> a < b)"

definition calls_ok :: "cost_world \<Rightarrow> bool" where
  "calls_ok w \<longleftrightarrow> list_all some_days (ce_calls w)"

lemma keeps_call_ce: "some_days c \<Longrightarrow> keeps calls_ok (call_ce c) e"
  by (simp add: keeps_def calls_ok_def call_ce_def)

lemma keeps_set_cost: "keeps calls_ok (set_cost m ls v) e"
  by (simp add: keeps_def calls_ok_def set_cost_def modify_def)

lemma keeps_set_services: "keeps calls_ok (set_services gs acc) e"
  by (induction gs arbitrary: acc) (auto intro!: keeps_bind keeps_andthen keeps_set_cost split: prod.split)

lemma month_period_some_days: "proper d \<Longrightarrow> call_period c = month_period d \<Longrightarrow> some_days c"
proof -
  assume d: "proper d" and c: "call_period c = month_period d"
  let ?f = "with_day d 1"
  have f: "proper ?f" "?f \<le> d" "add_days ?f 1 = next_day ?f"
    using first_day_le [OF d] proper_with_day [OF d, of 1] by (simp_all add: add_days_def)
  show ?thesis
  proof (cases "?f < d")
    case True
    then show ?thesis
      using d f c unfolding some_days_def month_period_def Let_def by auto
  next
    case False
    then show ?thesis
      using f c next_day_greater [of ?f] proper_next_day [of ?f]
      unfolding some_days_def month_period_def Let_def by auto
  qed
qed

text \<open>Whatever the day of the poll, the first of a month included, and however the earlier calls ended,
  every period that Cost Explorer is asked for ends after it starts, so that it is never
  refused for being empty.\<close>

theorem cost_periods_not_empty:
  assumes "proper (ce_today e)" and "1 < year_of (ce_today e)" and "ce_calls w = []"
  shows "list_all some_days (ce_calls (snd (cost_turn e w)))"
proof -
  let ?d = "ce_today e"
  have yesterday: "some_days (Usage (time_period (prev_day ?d) ?d) g b)" for g b
    using next_prev_day [OF assms(1,2)] prev_day_less [OF assms(1,2)] assms(1) unfolding some_days_def by auto
  have month: "some_days (Usage (month_period ?d) g b)" for g b
    by (rule month_period_some_days [OF assms(1)]) simp
  have forecast: "some_days (Forecast (time_period ?d (first_of_next_month ?d)))"
    using next_month_later [OF assms(1)] assms(1) unfolding some_days_def by auto
  have "keeps calls_ok (set_forecast ?d mtd) e" for mtd
    unfolding set_forecast_def
    by (intro keeps_try_catch keeps_bind keeps_call_ce forecast keeps_set_cost keeps_pure)
  then have "keeps calls_ok cost_poll e"
    unfolding cost_poll_def
    by (auto intro!: keeps_bind keeps_andthen keeps_call_ce yesterday month keeps_set_cost keeps_set_services
        dest!: returns_pure(1) split: prod.split)
  then have "keeps calls_ok cost_turn e"
    unfolding cost_turn_def by (intro keeps_try_catch keeps_pure)
  then show ?thesis
    using assms(3) keepsD [of calls_ok cost_turn e w] by (simp add: calls_ok_def)
qed

theorem cost_periods_not_empty_witness:
  "list_all some_days (ce_calls (snd (cost_turn
     \<lparr>ce_answer = (\<lambda>n c. Inl (PyError ''EndpointConnectionError'')), ce_today = Date 2026 10 1, ce_now = 0\<rparr>
     \<lparr>ce_calls = [], cost_gauges = []\<rparr>)))"
  by (rule cost_periods_not_empty) (simp_all add: proper_def days_in_month_def)

end
