(* ===== verification/RachioExporter.thy ===== *)
theory RachioExporter
  imports PyConv Gauges PastDays Moment
begin

text \<open>
  \<open>compose/aws/rachio-exporter/rachio_exporter.py\<close>: which garden valves watered, as gauges. The answers of
  Rachio's API, read as JSON, are the environment: by call number and call, a value or an
  exception. A poll reads the whole answer before it sets the first gauge.
\<close>

datatype rachio_call = RGet string | RPost string json

record rachio_env =
  rachio_answer :: "nat \<Rightarrow> rachio_call \<Rightarrow> py_exn + json"
  rachio_today :: date
  rachio_now :: rat
  utc_offset :: int   \<comment> \<open>of the local time, for a time without an offset\<close>

record rachio_world =
  rachio_calls :: "rachio_call list"
  base_station :: "json option"
  valve_names :: "(json \<times> json) list"
  valve_gauges :: registry

type_synonym 'a rachio_io = "(rachio_env, rachio_world, py_exn, 'a) io"

definition classic_api :: string where
  "classic_api = ''https://api.rach.io/1/public''"

definition valve_api :: string where
  "valve_api = ''https://cloud-rest.rach.io''"

definition call_rachio :: "rachio_call \<Rightarrow> json rachio_io" where
  "call_rachio c = (\<lambda>e w. (rachio_answer e (length (rachio_calls w)) c, w\<lparr>rachio_calls := rachio_calls w @ [c]\<rparr>))"

section \<open>Discovery\<close>

definition list_of :: "string \<Rightarrow> json \<Rightarrow> py_exn + json list" where
  "list_of k j = bindR (get_of (JList []) k j) iter_of"

definition valve_entry :: "json \<Rightarrow> py_exn + json \<times> json" where
  "valve_entry v = bindR (item_of ''id'' v) (\<lambda>i. bindR (item_of ''name'' v) (\<lambda>n. Inr (i, n)))"

definition discover :: "unit rachio_io" where
  "discover =
     bind (call_rachio (RGet (classic_api @ ''/person/info''))) (\<lambda>person.
     bind (liftR (item_of ''id'' person)) (\<lambda>pid.
     bind (call_rachio (RGet (valve_api @ ''/valve/listBaseStations/'' @ py_str pid))) (\<lambda>stations.
     bind (liftR (get_of (JList []) ''baseStations'' stations)) (\<lambda>bs.
     if \<not> truthy bs then raise (PyError ''RuntimeError'')
     else
       bind (liftR (bindR (at_index 0 bs) (item_of ''id''))) (\<lambda>sid.
       andthen (modify (\<lambda>w. w\<lparr>base_station := Some sid\<rparr>))
       (bind (call_rachio (RGet (valve_api @ ''/valve/listValves/'' @ py_str sid))) (\<lambda>valves.
        bind (liftR (bindR (list_of ''valves'' valves) (mapR valve_entry))) (\<lambda>names.
        modify (\<lambda>w. w\<lparr>valve_names := dict_update [] names\<rparr>)))))))))"

section \<open>Reading a day view\<close>

fun foldR :: "('a \<Rightarrow> 'b \<Rightarrow> 'e + 'b) \<Rightarrow> 'a list \<Rightarrow> 'b \<Rightarrow> 'e + 'b" where
  "foldR f [] acc = Inr acc"
| "foldR f (x # xs) acc = bindR (f x acc) (foldR f xs)"

definition run_dict :: "json \<Rightarrow> py_exn + json dict" where
  "run_dict j = (case j of JObj d \<Rightarrow> Inr d | _ \<Rightarrow> Inl (PyError ''TypeError''))"

definition wrapped_runs :: "json \<Rightarrow> py_exn + json dict list" where
  "wrapped_runs wrapper = bindR (list_of ''valveRunSummaries'' wrapper) (mapR run_dict)"

definition plain_list :: "json \<Rightarrow> py_exn + json list" where
  "plain_list j = (case j of JList l \<Rightarrow> Inr l | _ \<Rightarrow> Inl (PyError ''TypeError''))"

text \<open>The runs of a day, each with whether it was skipped.\<close>

definition runs_for_day :: "json \<Rightarrow> py_exn + (json dict \<times> bool) list" where
  "runs_for_day day =
     bindR (list_of ''valveProgramRunSummaries'' day) (\<lambda>programs.
     bindR (mapR wrapped_runs programs) (\<lambda>rs.
     bindR (bindR (get_of (JList []) ''valveQuickRunSummaries'' day) plain_list) (\<lambda>quick.
     bindR (bindR (get_of (JList []) ''valveManualRunSummaries'' day) plain_list) (\<lambda>manual.
     bindR (mapR wrapped_runs (quick @ manual)) (\<lambda>rs'.
     Inr (map (\<lambda>r. (r, ''skip'' \<in> set (keys r))) (concat rs) @ map (\<lambda>r. (r, False)) (concat rs')))))))"

definition as_nat :: "json \<Rightarrow> py_exn + nat" where
  "as_nat j = (case j of JInt i \<Rightarrow> (if 0 \<le> i then Inr (nat i) else Inl (PyError ''ValueError'')) | _ \<Rightarrow> Inl (PyError ''TypeError''))"

definition day_date :: "json \<Rightarrow> py_exn + date" where
  "day_date day =
     bindR (item_of ''date'' day) (\<lambda>d.
     bindR (bindR (item_of ''year'' d) as_nat) (\<lambda>y. bindR (bindR (item_of ''month'' d) as_nat) (\<lambda>m.
     bindR (bindR (item_of ''day'' d) as_nat) (\<lambda>k.
     if valid_date (Date y m k) then Inr (Date y m k) else Inl (PyError ''ValueError'')))))"

definition start_of :: "json dict \<Rightarrow> py_exn + moment" where
  "start_of r =
     bindR (item_of ''start'' (JObj r)) (\<lambda>s.
     case s of
       JStr t \<Rightarrow> (case fromisodatetime (replace ''Z'' ''+00:00'' t) of Some m \<Rightarrow> Inr m | None \<Rightarrow> Inl (PyError ''ValueError''))
     | _ \<Rightarrow> Inl (PyError ''AttributeError''))"

definition run_valve :: "(json \<times> json) list \<Rightarrow> json dict \<Rightarrow> json" where
  "run_valve names r =
     get_or (get_or (jget ''valveId'' r) ''valveName'' r) (jget ''valveId'' r) names"

type_synonym poll_state = "(json \<times> bool) list \<times> (json \<times> moment) list"

text \<open>The dictionary of the latest starts: a later start replaces an earlier one.\<close>

definition note_start :: "json \<Rightarrow> moment \<Rightarrow> (json \<times> moment) list \<Rightarrow> py_exn + (json \<times> moment) list" where
  "note_start name m latest =
     (case map_of latest name of
        None \<Rightarrow> Inr (AList.update name m latest)
      | Some m0 \<Rightarrow> (case moment_diff m m0 of
          None \<Rightarrow> Inl (PyError ''TypeError'')
        | Some d \<Rightarrow> Inr (if 0 < d then AList.update name m latest else latest)))"

definition run_step :: "(json \<times> json) list \<Rightarrow> date \<Rightarrow> date \<Rightarrow> json dict \<times> bool \<Rightarrow> poll_state \<Rightarrow> py_exn + poll_state" where
  "run_step names today day rs st = (case (rs, st) of ((r, skipped), (watered, latest)) \<Rightarrow>
     if skipped then Inr (watered, latest)
     else bindR (py_number (get_or (JInt 0) ''durationSeconds'' r)) (\<lambda>duration.
       if duration \<le> 0 then Inr (watered, latest)
       else
         let name = run_valve names r; watered' = (if day = today then AList.update name True watered else watered) in
         bindR (start_of r) (\<lambda>m. bindR (note_start name m latest) (\<lambda>latest'. Inr (watered', latest')))))"

definition day_step :: "(json \<times> json) list \<Rightarrow> date \<Rightarrow> json \<Rightarrow> poll_state \<Rightarrow> py_exn + poll_state" where
  "day_step names today day st =
     bindR (day_date day) (\<lambda>d. bindR (runs_for_day day) (\<lambda>rs. foldR (run_step names today d) rs st))"

definition nothing_watered :: "(json \<times> json) list \<Rightarrow> (json \<times> bool) list" where
  "nothing_watered names = dict_update [] (map (\<lambda>(i, n). (n, False)) names)"

definition read_views :: "(json \<times> json) list \<Rightarrow> date \<Rightarrow> json \<Rightarrow> py_exn + poll_state" where
  "read_views names today resp =
     bindR (list_of ''valveDayViews'' resp) (\<lambda>days. foldR (day_step names today) days (nothing_watered names, []))"

section \<open>The poll\<close>

definition lookback_days :: nat where
  "lookback_days = 3"

definition date_json :: "date \<Rightarrow> json" where
  "date_json d = JObj [(''year'', JInt (int (year_of d))), (''month'', JInt (int (month_of d))), (''day'', JInt (int (day_of d)))]"

definition views_body :: "date \<Rightarrow> json option \<Rightarrow> json" where
  "views_body today station =
     JObj [(''start'', date_json (sub_days today lookback_days)), (''end'', date_json today),
       (''resourceId'', JObj [(''baseStationId'', case station of None \<Rightarrow> JNull | Some s \<Rightarrow> s)])]"

definition moment_stamp :: "int \<Rightarrow> moment \<Rightarrow> rat" where
  "moment_stamp local m = timestamp (fst m) (case snd m of Some z \<Rightarrow> z | None \<Rightarrow> local)"

definition set_watered :: "json \<times> bool \<Rightarrow> registry \<Rightarrow> registry" where
  "set_watered v = set_gauge ''rachio_valve_watered_today'' [(''valve'', py_str (fst v))] (Some (if snd v then 1 else 0))"

definition set_last :: "int \<Rightarrow> json \<times> moment \<Rightarrow> registry \<Rightarrow> registry" where
  "set_last local v =
     set_gauge ''rachio_valve_last_watered_timestamp_seconds'' [(''valve'', py_str (fst v))] (Some (moment_stamp local (snd v)))"

definition export_valves :: "int \<Rightarrow> rat \<Rightarrow> poll_state \<Rightarrow> registry \<Rightarrow> registry" where
  "export_valves local t st g =
     set_gauge ''rachio_exporter_last_success_timestamp_seconds'' [] (Some t)
       (fold (set_last local) (snd st) (fold set_watered (fst st) g))"

definition valve_poll :: "unit rachio_io" where
  "valve_poll =
     bind (ask id) (\<lambda>e.
     bind (gets id) (\<lambda>w.
     bind (call_rachio (RPost (valve_api @ ''/summary/getValveDayViews'') (views_body (rachio_today e) (base_station w)))) (\<lambda>resp.
     bind (liftR (read_views (valve_names w) (rachio_today e) resp)) (\<lambda>st.
     modify (\<lambda>w. w\<lparr>valve_gauges := export_valves (utc_offset e) (rachio_now e) st (valve_gauges w)\<rparr>)))))"

text \<open>One turn of the two loops of \<open>main\<close>: discovery until a base station is known, then polls.\<close>

definition rachio_turn :: "unit rachio_io" where
  "rachio_turn =
     bind (gets base_station) (\<lambda>s.
     try_catch (case s of None \<Rightarrow> discover | Some _ \<Rightarrow> valve_poll) (\<lambda>x. ret ()))"

section \<open>The valves that watered\<close>

text \<open>What the loops of the poll come across: the day, the valve and the start of each run that they count.\<close>

definition watering :: "(json \<times> json) list \<Rightarrow> date \<Rightarrow> json dict \<times> bool \<Rightarrow> py_exn + (date \<times> json \<times> moment) list" where
  "watering names day rs =
     (if snd rs then Inr []
      else bindR (py_number (get_or (JInt 0) ''durationSeconds'' (fst rs))) (\<lambda>duration.
        if duration \<le> 0 then Inr []
        else bindR (start_of (fst rs)) (\<lambda>m. Inr [(day, run_valve names (fst rs), m)])))"

definition day_waterings :: "(json \<times> json) list \<Rightarrow> json \<Rightarrow> py_exn + (date \<times> json \<times> moment) list" where
  "day_waterings names day =
     bindR (day_date day) (\<lambda>d. bindR (runs_for_day day) (\<lambda>rs. bindR (mapR (watering names d) rs) (\<lambda>es. Inr (concat es))))"

definition waterings :: "(json \<times> json) list \<Rightarrow> json \<Rightarrow> py_exn + (date \<times> json \<times> moment) list" where
  "waterings names resp =
     bindR (list_of ''valveDayViews'' resp) (\<lambda>days. bindR (mapR (day_waterings names) days) (\<lambda>es. Inr (concat es)))"

definition mark_watered :: "date \<Rightarrow> (date \<times> json \<times> moment) list \<Rightarrow> (json \<times> bool) list \<Rightarrow> (json \<times> bool) list" where
  "mark_watered today evs ws = fold (\<lambda>(d, n, m) ws. if d = today then AList.update n True ws else ws) evs ws"

lemma mark_watered_append: "mark_watered today (es @ es') ws = mark_watered today es' (mark_watered today es ws)"
  by (simp add: mark_watered_def)

lemma run_step_watered:
  assumes "run_step names today day rs st = Inr st'"
  shows "\<exists>es. watering names day rs = Inr es \<and> fst st' = mark_watered today es (fst st)"
proof -
  obtain r skipped watered latest where s: "rs = (r, skipped)" "st = (watered, latest)" by (cases rs; cases st)
  show ?thesis
  proof (cases skipped)
    case True
    then show ?thesis using assms by (auto simp: s run_step_def watering_def mark_watered_def)
  next
    case False
    then obtain k where k: "py_number (get_or (JInt 0) ''durationSeconds'' r) = Inr k"
      using assms by (auto simp: s run_step_def bindR_Inr)
    then show ?thesis
      using assms False by (cases "k \<le> 0") (auto simp: s run_step_def watering_def bindR_Inr mark_watered_def Let_def)
  qed
qed

lemma runs_watered:
  "foldR (run_step names today day) rs st = Inr st' \<Longrightarrow>
    \<exists>es. mapR (watering names day) rs = Inr es \<and> fst st' = mark_watered today (concat es) (fst st)"
proof (induction rs arbitrary: st)
  case (Cons r rs)
  then obtain st1 where 1: "run_step names today day r st = Inr st1" "foldR (run_step names today day) rs st1 = Inr st'"
    by (auto simp: bindR_Inr)
  then show ?case
    using run_step_watered [OF 1(1)] Cons.IH [OF 1(2)] by (auto simp: mark_watered_append)
qed (simp add: mark_watered_def)

lemma days_watered:
  "foldR (day_step names today) days st = Inr st' \<Longrightarrow>
    \<exists>es. mapR (day_waterings names) days = Inr es \<and> fst st' = mark_watered today (concat es) (fst st)"
proof (induction days arbitrary: st)
  case (Cons d ds)
  then obtain st1 where 1: "day_step names today d st = Inr st1" "foldR (day_step names today) ds st1 = Inr st'"
    by (auto simp: bindR_Inr)
  then obtain es where "day_waterings names d = Inr es" "fst st1 = mark_watered today es (fst st)"
    by (auto simp: day_step_def day_waterings_def bindR_Inr dest!: runs_watered)
  then show ?case
    using Cons.IH [OF 1(2)] by (auto simp: mark_watered_append)
qed (simp add: mark_watered_def)

lemma views_watered:
  assumes "read_views names today resp = Inr st" and "waterings names resp = Inr evs"
  shows "fst st = mark_watered today evs (nothing_watered names)"
  using assms by (auto simp: read_views_def waterings_def bindR_Inr dest!: days_watered)

lemma map_of_mark:
  "map_of (mark_watered today evs ws) n = (if (\<exists>m. (today, n, m) \<in> set evs) then Some True else map_of ws n)"
proof (induction evs arbitrary: ws)
  case (Cons v evs)
  obtain d n' m where v: "v = (d, n', m)" by (cases v)
  have "mark_watered today (v # evs) ws = mark_watered today evs (if d = today then AList.update n' True ws else ws)"
    by (simp add: mark_watered_def v)
  then show ?case
    using Cons.IH by (cases m) (auto simp: v)
qed (simp add: mark_watered_def)

lemma keys_mark: "set (keys (mark_watered today evs ws)) \<subseteq> set (keys ws) \<union> fst ` snd ` set evs"
proof (induction evs arbitrary: ws)
  case (Cons v evs)
  obtain d n m where v: "v = (d, n, m)" by (cases v)
  have "mark_watered today (v # evs) ws = mark_watered today evs (if d = today then AList.update n True ws else ws)"
    by (simp add: mark_watered_def v)
  then show ?case
    using Cons.IH [of "if d = today then AList.update n True ws else ws"] by (auto simp: v split: if_splits)
qed (simp add: mark_watered_def)

lemma map_of_nothing: "map_of (nothing_watered names) n = (if n \<in> snd ` set names then Some False else None)"
proof -
  have "map_of (fold (\<lambda>(k, v). AList.update k v) (map (\<lambda>(i, n). (n, False)) names) ws) n =
      (if n \<in> snd ` set names then Some False else map_of ws n)" for ws :: "(json \<times> bool) list"
    by (induction names arbitrary: ws) auto
  then show ?thesis
    by (simp add: nothing_watered_def dict_update_def)
qed

lemma keys_nothing: "set (keys (nothing_watered names)) = snd ` set names"
  using map_of_nothing [of names] by (metis (no_types, lifting) map_of_eq_None_iff not_Some_eq set_eqI set_map)

lemma distinct_fold_update: "distinct (keys ws) \<Longrightarrow> distinct (keys (fold (\<lambda>(k, v). AList.update k v) us ws))"
  by (induction us arbitrary: ws) (auto simp: distinct_update)

lemma distinct_mark: "distinct (keys ws) \<Longrightarrow> distinct (keys (mark_watered today evs ws))"
  unfolding mark_watered_def by (induction evs arbitrary: ws) (auto simp: distinct_update)

abbreviation watered_gauge :: "json \<Rightarrow> registry \<Rightarrow> rat option option" where
  "watered_gauge n \<equiv> gauge ''rachio_valve_watered_today'' [(''valve'', py_str n)]"

lemma gauge_fold_watered:
  "distinct (keys ws) \<Longrightarrow> inj_on py_str (insert n (set (keys ws))) \<Longrightarrow>
    watered_gauge n (fold set_watered ws g) =
      (case map_of ws n of Some b \<Rightarrow> Some (Some (if b then 1 else 0)) | None \<Rightarrow> watered_gauge n g)"
proof (induction ws arbitrary: g)
  case (Cons x ws)
  obtain k b where x: "x = (k, b)" by (cases x)
  have "inj_on py_str (insert n (set (keys ws)))" "py_str n = py_str k \<longleftrightarrow> n = k"
    using Cons.prems(2) by (auto simp: x inj_on_def)
  then have here: "watered_gauge n (set_watered x g) = (if n = k then Some (Some (if b then 1 else 0)) else watered_gauge n g)"
    by (simp add: x set_watered_def)
  have rest: "watered_gauge n (fold set_watered ws (set_watered x g)) =
      (case map_of ws n of Some b \<Rightarrow> Some (Some (if b then 1 else 0)) | None \<Rightarrow> watered_gauge n (set_watered x g))"
    using Cons.IH Cons.prems(1) \<open>inj_on py_str (insert n (set (keys ws)))\<close> by simp
  show ?case
  proof (cases "n = k")
    case True
    then have "map_of ws n = None"
      using Cons.prems(1) by (simp add: x map_of_eq_None_iff)
    then show ?thesis
      using rest here True by (simp add: x)
  next
    case False
    then show ?thesis
      by (simp add: rest here split: option.split) (simp add: x)
  qed
qed simp

lemma gauge_export: "watered_gauge n (export_valves local t st g) = watered_gauge n (fold set_watered (fst st) g)"
proof -
  have "watered_gauge n (fold (set_last local) ls h) = watered_gauge n h" for ls h
    by (induction ls arbitrary: h) (simp_all add: set_last_def)
  then show ?thesis
    by (simp add: export_valves_def)
qed

definition todays_call :: "rachio_env \<Rightarrow> rachio_world \<Rightarrow> rachio_call" where
  "todays_call e w = RPost (valve_api @ ''/summary/getValveDayViews'') (views_body (rachio_today e) (base_station w))"

lemma valve_poll_result:
  assumes "valve_poll e w = (Inr (), w')"
  shows "\<exists>resp st. rachio_answer e (length (rachio_calls w)) (todays_call e w) = Inr resp \<and>
    read_views (valve_names w) (rachio_today e) resp = Inr st \<and>
    valve_gauges w' = export_valves (utc_offset e) (rachio_now e) st (valve_gauges w)"
  using assms
  by (auto simp: valve_poll_def bind_def ask_def gets_def call_rachio_def liftR_def modify_def todays_call_def
      split: sum.splits)

section \<open>What is really watering\<close>

text \<open>The specification, on the answer itself. A field of an object, and the elements of one that is a list:\<close>

definition field :: "string \<Rightarrow> json \<Rightarrow> json option" where
  "field k j = (case j of JObj d \<Rightarrow> map_of d k | _ \<Rightarrow> None)"

definition elements :: "string \<Rightarrow> json \<Rightarrow> json set" where
  "elements k j = (case field k j of Some (JList l) \<Rightarrow> set l | _ \<Rightarrow> {})"

text \<open>The view of a day; a run that ran on it, which is one of a program without the mark of a skipped run, or a quick
  or manual one; a run that took some time; and the valve of a run, by its id if discovery found that, otherwise by the
  name, or the id, in the run itself.\<close>

definition view_of :: "date \<Rightarrow> json \<Rightarrow> bool" where
  "view_of d v \<longleftrightarrow> (\<exists>t. field ''date'' v = Some t \<and> field ''year'' t = Some (JInt (int (year_of d))) \<and>
     field ''month'' t = Some (JInt (int (month_of d))) \<and> field ''day'' t = Some (JInt (int (day_of d))))"

definition ran :: "json \<Rightarrow> json \<Rightarrow> bool" where
  "ran v run \<longleftrightarrow>
     (\<exists>program\<in>elements ''valveProgramRunSummaries'' v. run \<in> elements ''valveRunSummaries'' program \<and> field ''skip'' run = None) \<or>
     (\<exists>wrapper\<in>elements ''valveQuickRunSummaries'' v \<union> elements ''valveManualRunSummaries'' v.
        run \<in> elements ''valveRunSummaries'' wrapper)"

definition took_time :: "json \<Rightarrow> bool" where
  "took_time run \<longleftrightarrow> (\<exists>j k. field ''durationSeconds'' run = Some j \<and> py_number j = Inr k \<and> 0 < k)"

definition valve_of_run :: "(json \<times> json) list \<Rightarrow> json \<Rightarrow> json" where
  "valve_of_run names run =
     (let i = (case field ''valveId'' run of None \<Rightarrow> JNull | Some i \<Rightarrow> i) in
      case map_of names i of Some n \<Rightarrow> n
      | None \<Rightarrow> (case field ''valveName'' run of Some n \<Rightarrow> n | None \<Rightarrow> i))"

definition really_watered :: "(json \<times> json) list \<Rightarrow> date \<Rightarrow> json \<Rightarrow> json \<Rightarrow> bool" where
  "really_watered names d resp n \<longleftrightarrow>
     (\<exists>v\<in>elements ''valveDayViews'' resp. view_of d v \<and> (\<exists>run. ran v run \<and> took_time run \<and> valve_of_run names run = n))"

lemma mapR_ok: "mapR f xs = Inr ys \<Longrightarrow> x \<in> set xs \<Longrightarrow> \<exists>y\<in>set ys. f x = Inr y"
  by (induction xs arbitrary: ys) (auto simp: bindR_Inr)

lemma mapR_concat_mem:
  "mapR f xs = Inr yss \<Longrightarrow> z \<in> set (concat yss) \<longleftrightarrow> (\<exists>x\<in>set xs. \<exists>ys. f x = Inr ys \<and> z \<in> set ys)"
  by (induction xs arbitrary: yss) (auto simp: bindR_Inr)

lemma mapR_mem: "mapR f xs = Inr ys \<Longrightarrow> y \<in> set ys \<longleftrightarrow> (\<exists>x\<in>set xs. f x = Inr y)"
  by (induction xs arbitrary: ys) (auto simp: bindR_Inr)

lemma list_of_elements:
  assumes "list_of k j = Inr l" and "\<And>x. x \<in> set l \<Longrightarrow> \<exists>d. x = JObj d"
  shows "set l = elements k j"
proof -
  obtain d where d: "j = JObj d" "iter_of (get_or (JList []) k d) = Inr l"
    using assms(1) by (auto simp: list_of_def get_of_def bindR_Inr split: json.splits)
  have none: "l = []" if "\<forall>x\<in>set l. \<exists>t. x = JStr t"
    using that assms(2) by (cases l) fastforce+
  show ?thesis
  proof (cases "map_of d k")
    case None
    then show ?thesis using d by (simp add: elements_def field_def get_or_def iter_of_def)
  next
    case (Some x)
    then show ?thesis
    proof (cases x)
      case (JList xs)
      then show ?thesis using d Some by (simp add: elements_def field_def get_or_def iter_of_def)
    qed (use d Some none in \<open>auto simp: elements_def field_def get_or_def iter_of_def\<close>)
  qed
qed

lemma run_dict_object: "run_dict x = Inr d \<longleftrightarrow> x = JObj d"
  by (auto simp: run_dict_def split: json.splits)

lemma wrapped_elements:
  assumes "wrapped_runs wr = Inr rs"
  shows "d \<in> set rs \<longleftrightarrow> JObj d \<in> elements ''valveRunSummaries'' wr"
proof -
  obtain l where l: "list_of ''valveRunSummaries'' wr = Inr l" "mapR run_dict l = Inr rs"
    using assms by (auto simp: wrapped_runs_def bindR_Inr)
  have "set l = elements ''valveRunSummaries'' wr"
    by (rule list_of_elements [OF l(1)]) (use mapR_ok [OF l(2)] in \<open>auto simp: run_dict_object\<close>)
  then show ?thesis
    using mapR_mem [OF l(2), of d] by (auto simp: run_dict_object)
qed

lemma wrapped_object: "wrapped_runs wr = Inr rs \<Longrightarrow> \<exists>d. wr = JObj d"
  by (auto simp: wrapped_runs_def list_of_def get_of_def bindR_Inr split: json.splits)

lemma all_wrapped:
  assumes "mapR wrapped_runs ws = Inr rss"
  shows "d \<in> set (concat rss) \<longleftrightarrow> (\<exists>wr\<in>set ws. JObj d \<in> elements ''valveRunSummaries'' wr)"
proof
  assume "d \<in> set (concat rss)"
  then obtain rs where "rs \<in> set rss" "d \<in> set rs" by auto
  then show "\<exists>wr\<in>set ws. JObj d \<in> elements ''valveRunSummaries'' wr"
    using mapR_mem [OF assms, of rs] wrapped_elements by blast
next
  assume "\<exists>wr\<in>set ws. JObj d \<in> elements ''valveRunSummaries'' wr"
  then show "d \<in> set (concat rss)"
    using mapR_ok [OF assms] wrapped_elements by fastforce
qed

lemma plain_list_elements:
  assumes "bindR (get_of (JList []) k j) plain_list = Inr l"
  shows "set l = elements k j"
  using assms
  by (auto simp: get_of_def bindR_Inr plain_list_def elements_def field_def get_or_def split: json.splits option.splits)

text \<open>The runs of a day that the code does not take for skipped are those that ran.\<close>

lemma runs_ran:
  assumes "runs_for_day v = Inr rs"
  shows "(d, False) \<in> set rs \<longleftrightarrow> ran v (JObj d)"
proof -
  obtain programs prs quick manual qrs where r: "list_of ''valveProgramRunSummaries'' v = Inr programs"
      "mapR wrapped_runs programs = Inr prs" "bindR (get_of (JList []) ''valveQuickRunSummaries'' v) plain_list = Inr quick"
      "bindR (get_of (JList []) ''valveManualRunSummaries'' v) plain_list = Inr manual"
      "mapR wrapped_runs (quick @ manual) = Inr qrs"
      "rs = map (\<lambda>r. (r, ''skip'' \<in> set (keys r))) (concat prs) @ map (\<lambda>r. (r, False)) (concat qrs)"
    using assms by (auto simp: runs_for_day_def bindR_Inr)
  have "set programs = elements ''valveProgramRunSummaries'' v"
    by (rule list_of_elements [OF r(1)]) (use mapR_ok [OF r(2)] wrapped_object in blast)
  then have "d \<in> set (concat prs) \<longleftrightarrow> (\<exists>wr\<in>elements ''valveProgramRunSummaries'' v. JObj d \<in> elements ''valveRunSummaries'' wr)"
    using all_wrapped [OF r(2)] by simp
  moreover have "d \<in> set (concat qrs) \<longleftrightarrow> (\<exists>wr\<in>elements ''valveQuickRunSummaries'' v \<union> elements ''valveManualRunSummaries'' v.
      JObj d \<in> elements ''valveRunSummaries'' wr)"
    using all_wrapped [OF r(5)] plain_list_elements [OF r(3)] plain_list_elements [OF r(4)] by simp
  moreover have "''skip'' \<in> set (keys d) \<longleftrightarrow> field ''skip'' (JObj d) \<noteq> None"
    by (simp add: field_def map_of_eq_None_iff)
  ultimately show ?thesis
    unfolding r(6) ran_def by (auto simp del: set_concat)
qed

lemma runs_objects: "ran v run \<Longrightarrow> runs_for_day v = Inr rs \<Longrightarrow> \<exists>d. run = JObj d"
proof -
  assume "ran v run" and "runs_for_day v = Inr rs"
  then obtain programs prs quick manual qrs where r: "list_of ''valveProgramRunSummaries'' v = Inr programs"
      "mapR wrapped_runs programs = Inr prs" "bindR (get_of (JList []) ''valveQuickRunSummaries'' v) plain_list = Inr quick"
      "bindR (get_of (JList []) ''valveManualRunSummaries'' v) plain_list = Inr manual" "mapR wrapped_runs (quick @ manual) = Inr qrs"
    by (auto simp: runs_for_day_def bindR_Inr)
  have p: "set programs = elements ''valveProgramRunSummaries'' v"
    by (rule list_of_elements [OF r(1)]) (use mapR_ok [OF r(2)] wrapped_object in blast)
  obtain wr rs' where "wrapped_runs wr = Inr rs'" "run \<in> elements ''valveRunSummaries'' wr"
    using \<open>ran v run\<close> mapR_ok [OF r(2)] mapR_ok [OF r(5)] plain_list_elements [OF r(3)] plain_list_elements [OF r(4)] p
    unfolding ran_def by fastforce
  moreover then obtain l where l: "list_of ''valveRunSummaries'' wr = Inr l" "mapR run_dict l = Inr rs'"
    by (auto simp: wrapped_runs_def bindR_Inr)
  moreover have "set l = elements ''valveRunSummaries'' wr"
    by (rule list_of_elements [OF l(1)]) (use mapR_ok [OF l(2)] in \<open>auto simp: run_dict_object\<close>)
  ultimately show ?thesis
    using mapR_ok [OF l(2), of run] by (auto simp: run_dict_object)
qed

lemma item_field: "item_of k j = Inr x \<longleftrightarrow> field k j = Some x"
  by (auto simp: item_of_def field_def split: json.splits option.splits)

lemma as_nat_int: "as_nat j = Inr n \<longleftrightarrow> j = JInt (int n)"
  by (auto simp: as_nat_def split: json.splits if_splits)

lemma if_Inr: "(if b then Inr x else Inl e) = Inr y \<longleftrightarrow> b \<and> x = y"
  by simp

lemma day_date_fields:
  "day_date v = Inr d \<longleftrightarrow> valid_date d \<and> (\<exists>t. field ''date'' v = Some t \<and> field ''year'' t = Some (JInt (int (year_of d))) \<and>
     field ''month'' t = Some (JInt (int (month_of d))) \<and> field ''day'' t = Some (JInt (int (day_of d))))"
  unfolding day_date_def bindR_Inr item_field as_nat_int if_Inr by (cases d) (simp, blast)

lemma day_date_view:
  assumes "day_date v = Inr d"
  shows "view_of d' v \<longleftrightarrow> d' = d"
  using assms unfolding day_date_fields view_of_def by (cases d; cases d') auto

lemma valve_of_run_dict: "valve_of_run names (JObj d) = run_valve names d"
  by (simp add: valve_of_run_def run_valve_def field_def jget_def get_or_def Let_def split: option.split)

lemma watering_took_time:
  assumes "watering names day (d, False) = Inr es"
  shows "(\<exists>m. (day', n, m) \<in> set es) \<longleftrightarrow> day' = day \<and> took_time (JObj d) \<and> valve_of_run names (JObj d) = n"
proof -
  obtain k where k: "py_number (get_or (JInt 0) ''durationSeconds'' d) = Inr k"
    using assms by (auto simp: watering_def bindR_Inr)
  have "took_time (JObj d) \<longleftrightarrow> 0 < k"
  proof (cases "map_of d ''durationSeconds''")
    case None
    then have "k = 0" using k by (simp add: get_or_def py_number_def to_float_def)
    then show ?thesis using None by (simp add: took_time_def field_def)
  qed (use k in \<open>simp add: took_time_def field_def get_or_def\<close>)
  then show ?thesis
  proof (cases "k \<le> 0")
    case False
    then obtain m where "es = [(day, run_valve names d, m)]"
      using assms k by (auto simp: watering_def bindR_Inr)
    then show ?thesis
      using \<open>took_time (JObj d) \<longleftrightarrow> 0 < k\<close> False valve_of_run_dict [of names d] by auto
  qed (use assms k in \<open>simp add: watering_def\<close>)
qed

lemma day_waterings_view:
  assumes "day_waterings names v = Inr es"
  shows "(\<exists>m. (d, n, m) \<in> set es) \<longleftrightarrow> view_of d v \<and> (\<exists>run. ran v run \<and> took_time run \<and> valve_of_run names run = n)"
proof -
  obtain day rs ess where r: "day_date v = Inr day" "runs_for_day v = Inr rs" "mapR (watering names day) rs = Inr ess" "es = concat ess"
    using assms by (auto simp: day_waterings_def bindR_Inr)
  have "(\<exists>m. (d, n, m) \<in> set es) \<longleftrightarrow> (\<exists>r\<in>set rs. \<exists>ys. watering names day r = Inr ys \<and> (\<exists>m. (d, n, m) \<in> set ys))"
    unfolding r(4) mapR_concat_mem [OF r(3)] by blast
  also have "\<dots> \<longleftrightarrow> (\<exists>x. (x, False) \<in> set rs \<and> d = day \<and> took_time (JObj x) \<and> valve_of_run names (JObj x) = n)"
  proof (rule iffI)
    assume "\<exists>r\<in>set rs. \<exists>ys. watering names day r = Inr ys \<and> (\<exists>m. (d, n, m) \<in> set ys)"
    then obtain x b ys where x: "(x, b) \<in> set rs" "watering names day (x, b) = Inr ys" "\<exists>m. (d, n, m) \<in> set ys"
      by (metis surj_pair)
    then have "\<not> b" by (cases b) (simp_all add: watering_def)
    then show "\<exists>x. (x, False) \<in> set rs \<and> d = day \<and> took_time (JObj x) \<and> valve_of_run names (JObj x) = n"
      using x watering_took_time [of names day x ys d n] by (intro exI [of _ x]) simp
  next
    assume "\<exists>x. (x, False) \<in> set rs \<and> d = day \<and> took_time (JObj x) \<and> valve_of_run names (JObj x) = n"
    then obtain x where x: "(x, False) \<in> set rs" "d = day \<and> took_time (JObj x) \<and> valve_of_run names (JObj x) = n" by blast
    obtain ys where ys: "watering names day (x, False) = Inr ys" using mapR_ok [OF r(3) x(1)] by blast
    then show "\<exists>r\<in>set rs. \<exists>ys. watering names day r = Inr ys \<and> (\<exists>m. (d, n, m) \<in> set ys)"
      using x watering_took_time [OF ys, of d n] by blast
  qed
  also have "\<dots> \<longleftrightarrow> view_of d v \<and> (\<exists>run. ran v run \<and> took_time run \<and> valve_of_run names run = n)"
    using runs_ran [OF r(2)] runs_objects [OF _ r(2)] day_date_view [OF r(1)] by blast
  finally show ?thesis .
qed

lemma waterings_really:
  assumes "waterings names resp = Inr evs"
  shows "(\<exists>m. (d, n, m) \<in> set evs) \<longleftrightarrow> really_watered names d resp n"
proof -
  obtain days ess where r: "list_of ''valveDayViews'' resp = Inr days" "mapR (day_waterings names) days = Inr ess" "evs = concat ess"
    using assms by (auto simp: waterings_def bindR_Inr)
  have "\<exists>o'. v = JObj o'" if "v \<in> set days" for v
    using mapR_ok [OF r(2) that] by (auto simp: day_waterings_def day_date_def bindR_Inr item_of_def split: json.splits)
  then have days: "set days = elements ''valveDayViews'' resp"
    by (rule list_of_elements [OF r(1)])
  have "(\<exists>m. (d, n, m) \<in> set evs) \<longleftrightarrow> (\<exists>v\<in>set days. \<exists>es. day_waterings names v = Inr es \<and> (\<exists>m. (d, n, m) \<in> set es))"
    unfolding r(3) mapR_concat_mem [OF r(2)] by blast
  also have "\<dots> \<longleftrightarrow> (\<exists>v\<in>set days. view_of d v \<and> (\<exists>run. ran v run \<and> took_time run \<and> valve_of_run names run = n))"
  proof (rule bex_cong [OF refl])
    fix v assume "v \<in> set days"
    then obtain es where es: "day_waterings names v = Inr es" using mapR_ok [OF r(2)] by blast
    then show "(\<exists>es. day_waterings names v = Inr es \<and> (\<exists>m. (d, n, m) \<in> set es)) \<longleftrightarrow>
        view_of d v \<and> (\<exists>run. ran v run \<and> took_time run \<and> valve_of_run names run = n)"
      unfolding day_waterings_view [OF es, symmetric] by simp
  qed
  finally show ?thesis by (simp add: really_watered_def days)
qed

lemma read_views_waterings: "read_views names today resp = Inr st \<Longrightarrow> \<exists>evs. waterings names resp = Inr evs"
  by (auto simp: read_views_def waterings_def bindR_Inr dest!: days_watered)

lemma keys_mark_today: "set (keys (mark_watered today evs ws)) \<subseteq> set (keys ws) \<union> {n. \<exists>m. (today, n, m) \<in> set evs}"
proof -
  have "n \<in> set (keys ws) \<or> (\<exists>m. (today, n, m) \<in> set evs)" if "n \<in> set (keys (mark_watered today evs ws))" for n
    using that map_of_mark [of today evs ws n] by (metis map_of_eq_None_iff set_map)
  then show ?thesis by blast
qed

text \<open>C29: after a poll that succeeded, the gauge of every valve that discovery found is 1 if the answer has a run of that
  valve that really watered today, and 0 otherwise: one of a program that is not marked as skipped, or a quick or
  manual one, that took some time. The names of the valves are taken to be told apart by their labels.\<close>

theorem watered_today_exact:
  assumes "valve_poll e w = (Inr (), w')"
    and "rachio_answer e (length (rachio_calls w)) (todays_call e w) = Inr resp"
    and "n \<in> snd ` set (valve_names w)"
    and "inj_on py_str (snd ` set (valve_names w) \<union> {n. really_watered (valve_names w) (rachio_today e) resp n})"
  shows "watered_gauge n (valve_gauges w') =
    Some (Some (if really_watered (valve_names w) (rachio_today e) resp n then 1 else 0))"
proof -
  obtain st where st: "read_views (valve_names w) (rachio_today e) resp = Inr st"
    and g: "valve_gauges w' = export_valves (utc_offset e) (rachio_now e) st (valve_gauges w)"
    using valve_poll_result [OF assms(1)] assms(2) by auto
  obtain evs where evs: "waterings (valve_names w) resp = Inr evs" using read_views_waterings [OF st] ..
  let ?ws = "mark_watered (rachio_today e) evs (nothing_watered (valve_names w))"
  have ws: "fst st = ?ws"
    by (rule views_watered [OF st evs])
  have "distinct (keys ?ws)"
    by (rule distinct_mark) (simp add: nothing_watered_def dict_update_def distinct_fold_update)
  moreover have "insert n (set (keys ?ws)) \<subseteq> snd ` set (valve_names w) \<union> {n. really_watered (valve_names w) (rachio_today e) resp n}"
    using keys_mark_today [of "rachio_today e" evs "nothing_watered (valve_names w)"] keys_nothing assms(3) waterings_really [OF evs]
    by blast
  then have "inj_on py_str (insert n (set (keys ?ws)))"
    by (rule inj_on_subset [OF assms(4)])
  moreover have "map_of ?ws n = Some (really_watered (valve_names w) (rachio_today e) resp n)"
    using assms(3) waterings_really [OF evs] by (simp add: map_of_mark map_of_nothing)
  ultimately show ?thesis
    by (simp add: g gauge_export ws gauge_fold_watered)
qed

section \<open>A discovery that ends half way\<close>

lemma mark_all_True: "\<forall>(k, b)\<in>set ws. b \<Longrightarrow> \<forall>(k, b)\<in>set (mark_watered today evs ws). b"
proof (induction evs arbitrary: ws)
  case (Cons v evs)
  obtain d n m where v: "v = (d, n, m)" by (cases v)
  have "\<forall>(k, b)\<in>set (AList.update n True ws). b"
    using Cons.prems by (induction ws) auto
  then show ?case
    using Cons by (simp add: mark_watered_def v)
qed (simp add: mark_watered_def)

lemma fold_watered_True: "\<forall>(k, b)\<in>set ws. b \<Longrightarrow> watered_gauge n g = Some (Some 1) \<Longrightarrow> watered_gauge n (fold set_watered ws g) = Some (Some 1)"
  by (induction ws arbitrary: g) (auto simp: set_watered_def)

lemma turn_half_discovered:
  assumes "base_station w = Some s" and "valve_names w = []"
  shows "base_station (snd (rachio_turn e w)) = Some s \<and> valve_names (snd (rachio_turn e w)) = [] \<and>
    (watered_gauge n (valve_gauges w) = Some (Some 1) \<longrightarrow> watered_gauge n (valve_gauges (snd (rachio_turn e w))) = Some (Some 1))"
proof (cases "valve_poll e w")
  case (Pair r w')
  have turn: "snd (rachio_turn e w) = w'"
    using assms(1) Pair by (simp add: rachio_turn_def bind_def gets_def try_catch_def ret_def split: sum.split)
  have same: "base_station w' = Some s" "valve_names w' = []"
    using Pair assms by (auto simp: valve_poll_def bind_def ask_def gets_def call_rachio_def liftR_def modify_def split: sum.splits)
  show ?thesis
  proof (cases r)
    case (Inl x)
    then have "valve_gauges w' = valve_gauges w"
      using Pair by (auto simp: valve_poll_def bind_def ask_def gets_def call_rachio_def liftR_def modify_def split: sum.splits)
    then show ?thesis using turn same by simp
  next
    case (Inr u)
    then obtain resp st where "read_views [] (rachio_today e) resp = Inr st"
      and g: "valve_gauges w' = export_valves (utc_offset e) (rachio_now e) st (valve_gauges w)"
      using valve_poll_result [of e w w'] Pair assms(2) by auto
    then obtain es where es: "fst st = mark_watered (rachio_today e) es []"
      by (auto simp: read_views_def nothing_watered_def dict_update_def bindR_Inr dest!: days_watered)
    have "\<forall>(k, b)\<in>set ([] :: (json \<times> bool) list). b" by simp
    from mark_all_True [OF this] have "\<forall>(k, b)\<in>set (fst st). b"
      by (simp only: es)
    then show ?thesis
      using turn same by (auto simp: g gauge_export fold_watered_True)
  qed
qed

text \<open>A discovery that fails after it has found the base station is never completed: the loop that retries it
  only waits for the station. From then on, in every sequence of turns, no valve's name is ever
  known, and the gauge of a valve that has watered once stays 1 on every later day.\<close>

theorem half_discovery_sticks:
  assumes "base_station w = Some s" and "valve_names w = []" and "watered_gauge n (valve_gauges w) = Some (Some 1)"
  shows "valve_names (fold (\<lambda>e w. snd (rachio_turn e w)) envs w) = [] \<and>
    watered_gauge n (valve_gauges (fold (\<lambda>e w. snd (rachio_turn e w)) envs w)) = Some (Some 1)"
  using assms
proof (induction envs arbitrary: w)
  case (Cons e envs)
  then show ?case
    using turn_half_discovered [OF Cons.prems(1,2), of e n] by simp
qed simp

text \<open>For the witnesses: a valve whose run of the day was skipped, and one that was watered by hand.\<close>

definition sample_views :: json where
  "sample_views =
     JObj [(''valveDayViews'', JList [JObj
       [(''date'', JObj [(''year'', JInt 2026), (''month'', JInt 6), (''day'', JInt 1)]),
        (''valveProgramRunSummaries'', JList [JObj [(''valveRunSummaries'', JList [JObj
          [(''valveId'', JStr ''v1''), (''durationSeconds'', JInt 600), (''skip'', JObj [])]])]]),
        (''valveManualRunSummaries'', JList [JObj [(''valveRunSummaries'', JList [JObj
          [(''valveId'', JStr ''v2''), (''durationSeconds'', JInt 300), (''start'', JStr ''2026-06-01T08:00:00Z'')]])]])]])]"

definition sample_rachio :: rachio_env where
  "sample_rachio = \<lparr>rachio_answer = (\<lambda>n c. Inr sample_views), rachio_today = Date 2026 6 1, rachio_now = 9, utc_offset = 0\<rparr>"

definition sample_valves :: rachio_world where
  "sample_valves = \<lparr>rachio_calls = [], base_station = Some (JStr ''b''),
     valve_names = [(JStr ''v1'', JStr ''Front''), (JStr ''v2'', JStr ''Back'')], valve_gauges = []\<rparr>"

lemma sample_run_start: "\<exists>m. fromisodatetime (replace ''Z'' ''+00:00'' ''2026-06-01T08:00:00Z'') = Some m"
proof -
  have r: "replace ''Z'' ''+00:00'' ''2026-06-01T08:00:00Z'' = ''2026-06-01T08:00:00+00:00''" by code_simp
  have "fromisoformat ''2026-06-01'' = Some (Date 2026 6 1)" by code_simp
  moreover have "time_of_day ''08:00:00'' = Some 28800"
    by (simp add: time_of_day_def two_digits_def fraction_of_def all_digits_def is_digit_def nat_of_str_def digit_val_def)
  moreover have "takeWhile (\<lambda>c. \<not> is_offset_mark c) ''08:00:00+00:00'' = ''08:00:00''"
    "dropWhile (\<lambda>c. \<not> is_offset_mark c) ''08:00:00+00:00'' = ''+00:00''" "offset_of ''+00:00'' = Some (Some 0)"
    by code_simp+
  ultimately show ?thesis
    unfolding r by (simp add: fromisodatetime_def)
qed

lemma sample_views_read: "\<not> isl (read_views (valve_names sample_valves) (Date 2026 6 1) sample_views)"
proof -
  obtain m where m: "fromisodatetime (replace ''Z'' ''+00:00'' ''2026-06-01T08:00:00Z'') = Some m"
    using sample_run_start ..
  show ?thesis
    by (simp add: read_views_def sample_views_def sample_valves_def list_of_def get_of_def get_or_def iter_of_def day_step_def
        day_date_def item_of_def as_nat_def valid_date_def days_in_month_def runs_for_day_def wrapped_runs_def run_dict_def
        plain_list_def run_step_def py_number_def to_float_def start_of_def m note_start_def Let_def)
qed

lemma sample_really:
  "really_watered (valve_names sample_valves) (Date 2026 6 1) sample_views n \<longleftrightarrow> n = JStr ''Back''"
  by (auto simp: really_watered_def sample_views_def sample_valves_def elements_def field_def view_of_def ran_def took_time_def
      valve_of_run_def py_number_def to_float_def)

theorem watered_today_exact_witness:
  "watered_gauge (JStr ''Front'') (valve_gauges (snd (valve_poll sample_rachio sample_valves))) = Some (Some 0) \<and>
   watered_gauge (JStr ''Back'') (valve_gauges (snd (valve_poll sample_rachio sample_valves))) = Some (Some 1)"
proof -
  have poll: "valve_poll sample_rachio sample_valves = (Inr (), snd (valve_poll sample_rachio sample_valves))"
    using sample_views_read
    by (auto simp: valve_poll_def bind_def ask_def gets_def call_rachio_def liftR_def modify_def sample_rachio_def sample_valves_def
        split: sum.split)
  have answer: "rachio_answer sample_rachio (length (rachio_calls sample_valves)) (todays_call sample_rachio sample_valves) = Inr sample_views"
    by (simp add: sample_rachio_def)
  have today: "rachio_today sample_rachio = Date 2026 6 1"
    by (simp add: sample_rachio_def)
  have names: "JStr ''Front'' \<in> snd ` set (valve_names sample_valves)" "JStr ''Back'' \<in> snd ` set (valve_names sample_valves)"
    "inj_on py_str (snd ` set (valve_names sample_valves) \<union>
       {n. really_watered (valve_names sample_valves) (rachio_today sample_rachio) sample_views n})"
    unfolding today sample_really by (auto simp: sample_valves_def inj_on_def)
  show ?thesis
    using watered_today_exact [OF poll answer names(1,3)] watered_today_exact [OF poll answer names(2,3)]
    unfolding today sample_really by simp
qed

theorem half_discovery_sticks_witness:
  "valve_names (fold (\<lambda>e w. snd (rachio_turn e w)) [sample_rachio, sample_rachio]
      \<lparr>rachio_calls = [], base_station = Some (JStr ''b''), valve_names = [],
        valve_gauges = [((''rachio_valve_watered_today'', [(''valve'', ''Front'')]), Some 1)]\<rparr>) = [] \<and>
    watered_gauge (JStr ''Front'') (valve_gauges (fold (\<lambda>e w. snd (rachio_turn e w)) [sample_rachio, sample_rachio]
      \<lparr>rachio_calls = [], base_station = Some (JStr ''b''), valve_names = [],
        valve_gauges = [((''rachio_valve_watered_today'', [(''valve'', ''Front'')]), Some 1)]\<rparr>)) = Some (Some 1)"
  by (rule half_discovery_sticks) (simp_all add: gauge_def)

end
