(* ===== verification/ExposureScan.thy ===== *)
theory ExposureScan
  imports Json IoMonad PyNum
begin

text \<open>
  \<open>compose/aws/host/exposure-check.py\<close>: the weekly port scan from the hub. The answers of the
  metadata service, of \<open>wg\<close> and of \<open>nmap\<close> (with the ports that its XML lists) are the environment,
  the commands that are run and the files that are written are the state. A file of JSON is the
  JSON value; an exception has its class and its text.
\<close>

datatype problem = Problem (problem_class: string) (problem_text: string)

record port_element =
  port_id :: string
  port_state :: string
  port_service :: "string option"

record scan_env =
  metadata :: "string \<Rightarrow> string \<Rightarrow> (string \<times> string) list \<Rightarrow> problem + string"  \<comment> \<open>method, URL, headers\<close>
  wg_dump :: "problem + string"
  nmap_result :: "string list \<Rightarrow> problem + int \<times> string"   \<comment> \<open>return code and output\<close>
  nmap_ports :: "string \<Rightarrow> problem + port_element list"     \<comment> \<open>the port elements of the XML\<close>
  expected_file :: "problem + json dict"
  scan_clock :: rat
  scan_stamp :: string
  textfile_dir :: string

record scan_world =
  commands :: "string list list"
  latest :: "json option"
  metrics_file :: "string list option"

type_synonym 'a scan_io = "(scan_env, scan_world, problem, 'a) io"

section \<open>Targets\<close>

definition metadata_base :: string where
  "metadata_base = ''http://169.254.169.254/latest/''"

definition hub_public_ip :: "string scan_io" where
  "hub_public_ip =
     bind (bind (ask (\<lambda>e. metadata e ''PUT'' (metadata_base @ ''api/token'')
       [(''X-aws-ec2-metadata-token-ttl-seconds'', ''60'')])) liftR) (\<lambda>token.
     bind (bind (ask (\<lambda>e. metadata e ''GET'' (metadata_base @ ''meta-data/public-ipv4'')
       [(''X-aws-ec2-metadata-token'', token)])) liftR) (\<lambda>ip.
     ret (strip ip)))"

definition site_by_lan :: "(string \<times> string) list" where
  "site_by_lan = [(''10.0.1.0/24'', ''nyc''), (''10.0.2.0/24'', ''rambles'')]"

definition is_bracket :: "char \<Rightarrow> bool" where
  "is_bracket c \<longleftrightarrow> c = CHR ''['' \<or> c = CHR '']''"

type_synonym sites = "(string \<times> string \<times> rat option) list"

definition tab :: char where
  "tab = CHR 0x09"

text \<open>The peer of a line of the dump: its address, its handshake's age, and the sites it is.\<close>

definition handshake_age :: "rat \<Rightarrow> string \<Rightarrow> problem + rat option" where
  "handshake_age now s =
     (case (if s = [] then Some 0 else int_of s) of
        None \<Rightarrow> Inl (Problem ''ValueError'' ''invalid literal for int() with base 10'')
      | Some h \<Rightarrow> Inr (if h = 0 then None else Some (now - of_int h)))"

definition peer_ip :: "string \<Rightarrow> string" where
  "peer_ip endpoint = strip_if is_bracket (rsplit1_head (CHR '':'') endpoint)"

fun peer_sites :: "rat \<Rightarrow> string list \<Rightarrow> (string \<times> string) list \<Rightarrow> sites \<Rightarrow> problem + sites" where
  "peer_sites now f [] acc = Inr acc"
| "peer_sites now f ((lan, site) # rest) acc =
     (if lan \<in> set (split_on (CHR '','') (f ! 4)) then
        bindR (handshake_age now (f ! 5)) (\<lambda>age.
        peer_sites now f rest (AList.update site (peer_ip (f ! 3), age) acc))
      else peer_sites now f rest acc)"

fun endpoint_lines :: "rat \<Rightarrow> string list \<Rightarrow> sites \<Rightarrow> problem + sites" where
  "endpoint_lines now [] acc = Inr acc"
| "endpoint_lines now (l # ls) acc =
     (let f = split_on tab l in
      if length f \<noteq> 9 \<or> f ! 3 = ''(none)'' \<or> f ! 3 = [] then endpoint_lines now ls acc
      else bindR (peer_sites now f site_by_lan acc) (endpoint_lines now ls))"

definition site_endpoints :: "sites scan_io" where
  "site_endpoints =
     andthen (modify (\<lambda>w. w\<lparr>commands := commands w @ [[''wg'', ''show'', ''all'', ''dump'']]\<rparr>))
     (bind (bind (ask wg_dump) liftR) (\<lambda>out.
      bind (ask scan_clock) (\<lambda>now.
      liftR (endpoint_lines now (splitlines out) []))))"

section \<open>Scans\<close>

definition open_port :: "port_element \<Rightarrow> problem + (int \<times> string) option" where
  "open_port p =
     (if port_state p \<noteq> ''open'' then Inr None
      else case int_of (port_id p) of
          None \<Rightarrow> Inl (Problem ''ValueError'' ''invalid literal for int() with base 10'')
        | Some n \<Rightarrow> Inr (Some (n, case port_service p of Some s \<Rightarrow> s | None \<Rightarrow> [])))"

definition somes :: "'a option list \<Rightarrow> 'a list" where
  "somes xs = map the (filter (\<lambda>x. x \<noteq> None) xs)"

definition nmap :: "string list \<Rightarrow> (int \<times> string) list scan_io" where
  "nmap args =
     (let argv = [''nmap'', ''-Pn'', ''-n'', ''-oX'', ''-''] @ args in
      andthen (modify (\<lambda>w. w\<lparr>commands := commands w @ [argv]\<rparr>))
      (bind (bind (ask (\<lambda>e. nmap_result e argv)) liftR) (\<lambda>(code, out).
       if code \<noteq> 0 then raise (Problem ''RuntimeError'' (''nmap exited '' @ str_of_int code))
       else bind (bind (ask (\<lambda>e. nmap_ports e out)) liftR) (\<lambda>ports.
         bind (liftR (mapR open_port ports)) (\<lambda>os. ret (somes os))))))"

definition udp_ports :: string where
  "udp_ports = ''53,123,161,500,1900,4500,5353,51820''"

definition scan :: "string \<Rightarrow> ((int \<times> string) list \<times> (int \<times> string) list) scan_io" where
  "scan ip =
     bind (nmap [''-sS'', ''-T3'', ''--top-ports'', ''1000'', ''--open'', ip]) (\<lambda>tcp.
     bind (nmap [''-sU'', ''-T3'', ''-p'', udp_ports, ip]) (\<lambda>udp.
     ret (tcp, udp)))"

section \<open>The run\<close>

definition port_json :: "int \<times> string \<Rightarrow> json" where
  "port_json p = JObj [(''port'', JInt (fst p)), (''service'', JStr (snd p))]"

definition type_error :: "problem" where
  "type_error = Problem ''TypeError'' []"

definition json_object :: "json \<Rightarrow> problem + json dict" where
  "json_object j = (case j of JObj d \<Rightarrow> Inr d | _ \<Rightarrow> Inl (Problem ''AttributeError'' []))"

definition json_list :: "json \<Rightarrow> problem + json list" where
  "json_list j = (case j of JList l \<Rightarrow> Inr l | _ \<Rightarrow> Inl type_error)"

text \<open>\<open>[f"tcp/{p['port']}" for p in tcp if p["port"] not in want.get("tcp", [])]\<close>. With no port open the list
  of expected ones is not looked at.\<close>

definition port_name :: "string \<Rightarrow> int \<times> string \<Rightarrow> string" where
  "port_name proto p = proto @ ''/'' @ str_of_int (fst p)"

definition unexpected_ports :: "string \<Rightarrow> (int \<times> string) list \<Rightarrow> json dict \<Rightarrow> problem + string list" where
  "unexpected_ports proto found want =
     (if found = [] then Inr []
      else bindR (json_list (get_or (JList []) proto want)) (\<lambda>ok.
        Inr (map (port_name proto) (filter (\<lambda>p. JInt (fst p) \<notin> set ok) found))))"

definition stale_handshake_seconds :: rat where
  "stale_handshake_seconds = 900"

text \<open>The sites in the order of their names: those with a recent handshake, and a line for the others.\<close>

definition is_stale :: "rat option \<Rightarrow> bool" where
  "is_stale age = (case age of None \<Rightarrow> True | Some a \<Rightarrow> stale_handshake_seconds < a)"

definition site_targets :: "sites \<Rightarrow> (string \<times> string) list \<times> string list" where
  "site_targets ss =
     (let sorted = sort_key fst ss in
      (map (\<lambda>(site, ip, _). (site, ip)) (filter (\<lambda>(_, _, age). \<not> is_stale age) sorted),
       map (\<lambda>(site, _, _). site @ '' skipped: no recent WireGuard handshake'')
         (filter (\<lambda>(_, _, age). is_stale age) sorted)))"

definition find_targets :: "((string \<times> string) list \<times> string list) scan_io" where
  "find_targets =
     bind (try_catch (bind hub_public_ip (\<lambda>ip. ret ([(''hub'', ip)], [])))
       (\<lambda>x. ret ([], [''hub public IP lookup failed: '' @ problem_class x]))) (\<lambda>(ts, es).
     bind (try_catch (bind site_endpoints (\<lambda>ss. ret (site_targets ss)))
       (\<lambda>x. ret ([], [''WireGuard endpoint lookup failed: '' @ problem_class x]))) (\<lambda>(ts', es').
     ret (ts @ ts', es @ es')))"

definition target_entry :: "json dict \<Rightarrow> string \<times> string \<Rightarrow> json dict scan_io" where
  "target_entry expected target =
     (let entry = [(''name'', JStr (fst target)), (''ip'', JStr (snd target))] in
      bind (try_catch (bind (scan (snd target)) (\<lambda>r. ret (Inr r))) (\<lambda>x. ret (Inl x))) (\<lambda>r. case r of
        Inl x \<Rightarrow> ret (entry @ [(''error'', JStr (''scan failed: '' @ problem_text x))])
      | Inr (tcp, udp) \<Rightarrow>
          bind (liftR (json_object (get_or (JObj []) (fst target) expected))) (\<lambda>want.
          bind (liftR (unexpected_ports ''tcp'' tcp want)) (\<lambda>bad_tcp.
          bind (liftR (unexpected_ports ''udp'' udp want)) (\<lambda>bad_udp.
          ret (entry @ [(''open_tcp'', JList (map port_json tcp)), (''open_udp'', JList (map port_json udp)),
            (''unexpected'', JList (map JStr (bad_tcp @ bad_udp)))]))))))"

fun scan_targets :: "json dict \<Rightarrow> (string \<times> string) list \<Rightarrow> json dict list scan_io" where
  "scan_targets expected [] = ret []"
| "scan_targets expected (t # ts) =
     bind (target_entry expected t) (\<lambda>e. bind (scan_targets expected ts) (\<lambda>es. ret (e # es)))"

definition scan_result :: "string \<Rightarrow> json dict list \<Rightarrow> string list \<Rightarrow> json" where
  "scan_result stamp entries errors =
     JObj [(''scanned_at'', JStr stamp), (''targets'', JList (map JObj entries)), (''errors'', JList (map JStr errors))]"

definition list_length :: "json \<Rightarrow> nat" where
  "list_length j = (case j of JList l \<Rightarrow> length l | _ \<Rightarrow> 0)"

definition metric_line :: "json dict \<Rightarrow> string list" where
  "metric_line entry =
     (case map_of entry ''unexpected'' of
        None \<Rightarrow> []
      | Some j \<Rightarrow> [''exposure_unexpected_open_ports{target='' @ [CHR 0x22] @ py_str (jget ''name'' entry) @ [CHR 0x22] @ ''} '' @
          str_of_nat (list_length j)])"

definition metric_lines :: "json dict list \<Rightarrow> rat \<Rightarrow> string list" where
  "metric_lines entries now =
     [''# HELP exposure_unexpected_open_ports Ports open to the internet that aren't on the expected list.'',
      ''# TYPE exposure_unexpected_open_ports gauge''] @
     concat (map metric_line entries) @
     [''# HELP exposure_last_scan_timestamp_seconds When the exposure check last finished.'',
      ''# TYPE exposure_last_scan_timestamp_seconds gauge'',
      ''exposure_last_scan_timestamp_seconds '' @ str_of_int (trunc now)]"

definition write_metrics :: "json dict list \<Rightarrow> unit scan_io" where
  "write_metrics entries =
     bind (ask id) (\<lambda>e.
     if textfile_dir e = [] then ret ()
     else modify (\<lambda>w. w\<lparr>metrics_file := Some (metric_lines entries (scan_clock e))\<rparr>))"

text \<open>The run, with the one line that it prints.\<close>

definition exposure_scan :: "string scan_io" where
  "exposure_scan =
     bind (bind (ask expected_file) liftR) (\<lambda>expected.
     bind (ask scan_stamp) (\<lambda>stamp.
     bind find_targets (\<lambda>(targets, errors).
     bind (scan_targets expected targets) (\<lambda>entries.
     andthen (modify (\<lambda>w. w\<lparr>latest := Some (scan_result stamp entries errors)\<rparr>))
     (andthen (write_metrics entries)
     (ret ''RESULT: Exposure check finished; ask for the exposure check to hear the results.''))))))"


section \<open>What the result says\<close>

definition expected_ports :: "json dict \<Rightarrow> string \<Rightarrow> string \<Rightarrow> json list" where
  "expected_ports expected name proto =
     (case get_or (JObj []) name expected of
        JObj want \<Rightarrow> (case get_or (JList []) proto want of JList l \<Rightarrow> l | _ \<Rightarrow> [])
      | _ \<Rightarrow> [])"

text \<open>Every open port of a target is on its list.\<close>

definition all_expected :: "json dict \<Rightarrow> string \<Rightarrow> (int \<times> string) list \<Rightarrow> (int \<times> string) list \<Rightarrow> bool" where
  "all_expected expected name tcp udp \<longleftrightarrow>
     (\<forall>p\<in>set tcp. JInt (fst p) \<in> set (expected_ports expected name ''tcp'')) \<and>
     (\<forall>p\<in>set udp. JInt (fst p) \<in> set (expected_ports expected name ''udp''))"

lemma unexpected_Nil:
  assumes "unexpected_ports proto found want = Inr bad" and "get_or (JObj []) name expected = JObj want"
  shows "bad = [] \<longleftrightarrow> (\<forall>p\<in>set found. JInt (fst p) \<in> set (expected_ports expected name proto))"
  using assms
  by (fastforce simp: unexpected_ports_def expected_ports_def json_list_def bindR_Inr filter_empty_conv
      split: if_splits json.splits)

text \<open>The scans answer the same whatever was run before.\<close>

definition scan_answer :: "scan_env \<Rightarrow> string \<Rightarrow> problem + (int \<times> string) list \<times> (int \<times> string) list" where
  "scan_answer e ip = fst (scan ip e \<lparr>commands = [], latest = None, metrics_file = None\<rparr>)"

lemma nmap_answer: "fst (nmap args e w) = fst (nmap args e v)"
  unfolding nmap_def Let_def
  by (simp add: andthen_def bind_def modify_def ask_def liftR_def raise_def ret_def split: sum.split prod.split)

lemma scan_same: "fst (scan ip e w) = scan_answer e ip"
proof -
  let ?v = "\<lparr>commands = [], latest = None, metrics_file = None\<rparr>"
  let ?t = "[''-sS'', ''-T3'', ''--top-ports'', ''1000'', ''--open'', ip]"
  let ?u = "[''-sU'', ''-T3'', ''-p'', udp_ports, ip]"
  obtain r w1 v1 where t: "nmap ?t e w = (r, w1)" "nmap ?t e ?v = (r, v1)"
    using nmap_answer [of ?t e w ?v] by (metis prod.collapse)
  show ?thesis
  proof (cases r)
    case (Inr tcp)
    obtain q w2 v2 where "nmap ?u e w1 = (q, w2)" "nmap ?u e v1 = (q, v2)"
      using nmap_answer [of ?u e w1 v1] by (metis prod.collapse)
    with t Inr show ?thesis
      unfolding scan_answer_def scan_def bind_def by (simp add: ret_def split: sum.split)
  qed (use t in \<open>simp add: scan_answer_def scan_def bind_def\<close>)
qed

definition entry_ok :: "scan_env \<Rightarrow> json dict \<Rightarrow> string \<times> string \<Rightarrow> json dict \<Rightarrow> bool" where
  "entry_ok e expected target entry \<longleftrightarrow>
     map_of entry ''name'' = Some (JStr (fst target)) \<and>
     (case scan_answer e (snd target) of
        Inl x \<Rightarrow> map_of entry ''error'' = Some (JStr (''scan failed: '' @ problem_text x))
      | Inr (tcp, udp) \<Rightarrow>
          map_of entry ''error'' = None \<and> map_of entry ''open_tcp'' = Some (JList (map port_json tcp)) \<and>
          map_of entry ''open_udp'' = Some (JList (map port_json udp)) \<and>
          (\<exists>bad. map_of entry ''unexpected'' = Some (JList (map JStr bad)) \<and>
             (bad = [] \<longleftrightarrow> all_expected expected (fst target) tcp udp)))"

lemma target_entry_ok:
  assumes "target_entry expected target e w = (Inr entry, w')"
  shows "entry_ok e expected target entry"
proof (cases "scan_answer e (snd target)")
  case (Inl x)
  then obtain w1 where "scan (snd target) e w = (Inl x, w1)"
    using scan_same [of "snd target" e w] by (cases "scan (snd target) e w") auto
  with assms Inl show ?thesis
    by (auto simp: target_entry_def entry_ok_def bind_def try_catch_def ret_def Let_def)
next
  case (Inr r)
  obtain tcp udp where r: "r = (tcp, udp)" by (cases r)
  obtain w1 where "scan (snd target) e w = (Inr (tcp, udp), w1)"
    using scan_same [of "snd target" e w] Inr r by (cases "scan (snd target) e w") auto
  with assms obtain want bad_tcp bad_udp where
    want: "json_object (get_or (JObj []) (fst target) expected) = Inr want"
    and bad: "unexpected_ports ''tcp'' tcp want = Inr bad_tcp" "unexpected_ports ''udp'' udp want = Inr bad_udp"
    and entry: "entry = [(''name'', JStr (fst target)), (''ip'', JStr (snd target)),
      (''open_tcp'', JList (map port_json tcp)), (''open_udp'', JList (map port_json udp)),
      (''unexpected'', JList (map JStr (bad_tcp @ bad_udp)))]"
    by (auto simp: target_entry_def bind_def try_catch_def ret_def liftR_def Let_def split: sum.splits)
  have "get_or (JObj []) (fst target) expected = JObj want"
    using want by (auto simp: json_object_def split: json.splits)
  then have "bad_tcp @ bad_udp = [] \<longleftrightarrow> all_expected expected (fst target) tcp udp"
    using unexpected_Nil [OF bad(1)] unexpected_Nil [OF bad(2)] by (simp add: all_expected_def)
  then show ?thesis
    by (auto simp: entry_ok_def Inr r entry simp del: map_append)
qed

lemma scan_targets_ok:
  "scan_targets expected ts e w = (Inr es, w') \<Longrightarrow> list_all2 (entry_ok e expected) ts es"
proof (induction ts arbitrary: w es)
  case (Cons t ts)
  then obtain entry w1 es' where "target_entry expected t e w = (Inr entry, w1)" "es = entry # es'"
    "scan_targets expected ts e w1 = (Inr es', w')"
    by (auto simp: bind_def ret_def split: prod.splits sum.splits)
  then show ?case
    using Cons.IH target_entry_ok by simp
qed (simp add: ret_def)

end
