(* ===== verification/ExposureReport.thy ===== *)
theory ExposureReport
  imports ExposureScan Moment
begin

text \<open>
  \<open>compose/aws/home-mcp/exposure.py\<close>: the answer of the \<open>exposure_check\<close> tool, from the file that the
  hub's scan wrote and from the certificates of the public hostnames. What a TLS connection to a
  host gives, the file's content and the clock (seconds, as a timestamp) are the environment.
\<close>

datatype certificate =
    ExpiresAt rat          \<comment> \<open>\<open>notAfter\<close> as a timestamp\<close>
  | Unverified string      \<comment> \<open>\<open>SSLCertVerificationError\<close>, with its message\<close>
  | Unreachable string     \<comment> \<open>another exception, by its class\<close>

datatype scan_file = NoFile | Unreadable string | Content json

record report_env =
  tls_hosts :: "string list"
  certificate_of :: "string \<Rightarrow> certificate"
  exposure_file :: scan_file
  report_clock :: rat

section \<open>Certificates\<close>

definition cert_warn_days :: rat where
  "cert_warn_days = 14"

definition stale_days :: int where
  "stale_days = 8"

definition cert_days :: "rat \<Rightarrow> rat \<Rightarrow> rat" where
  "cert_days now expires = (expires - now) / 86400"

type_synonym cert_summary = "string list \<times> string list \<times> rat option"

definition note_cert :: "rat \<Rightarrow> string \<times> certificate \<Rightarrow> cert_summary \<Rightarrow> cert_summary" where
  "note_cert now hc s =
     (case (hc, s) of ((host, c), (problems, couldnt, soonest)) \<Rightarrow>
        (case c of
           Unverified m \<Rightarrow> (problems @ [host @ '' has an invalid certificate ('' @ m @ '')''], couldnt, soonest)
         | Unreachable k \<Rightarrow> (problems, couldnt @ [host @ '' ('' @ k @ '')''], soonest)
         | ExpiresAt t \<Rightarrow>
             let d = cert_days now t in
             (if d < cert_warn_days
              then problems @ [host @ '' certificate expires in '' @ fixed0 d @ '' days (renewal may be failing)'']
              else problems,
              couldnt, Some (case soonest of None \<Rightarrow> d | Some s \<Rightarrow> min s d))))"

definition certs :: "report_env \<Rightarrow> string list \<times> string list \<times> int" where
  "certs e =
     (case fold (note_cert (report_clock e)) (map (\<lambda>h. (h, certificate_of e h)) (tls_hosts e)) ([], [], None) of
        (problems, couldnt, soonest) \<Rightarrow>
          (problems, couldnt, case soonest of None \<Rightarrow> - 1 | Some d \<Rightarrow> trunc d))"

section \<open>The scan\<close>

definition weekday_names :: "string list" where
  "weekday_names = [''Mon'', ''Tue'', ''Wed'', ''Thu'', ''Fri'', ''Sat'', ''Sun'']"

definition month_names :: "string list" where
  "month_names = [''Jan'', ''Feb'', ''Mar'', ''Apr'', ''May'', ''Jun'', ''Jul'', ''Aug'', ''Sep'', ''Oct'', ''Nov'', ''Dec'']"

text \<open>\<open>f"{when:%a %b %-d}"\<close>.\<close>

definition day_text :: "date \<Rightarrow> string" where
  "day_text d = (weekday_names ! weekday d) @ '' '' @ (month_names ! (month_of d - 1)) @ '' '' @ str_of_nat (day_of d)"

definition field :: "string \<Rightarrow> json dict \<Rightarrow> string + json" where
  "field k d = (case map_of d k of None \<Rightarrow> Inl ''KeyError'' | Some j \<Rightarrow> Inr j)"

definition as_dict :: "json \<Rightarrow> string + json dict" where
  "as_dict j = (case j of JObj d \<Rightarrow> Inr d | _ \<Rightarrow> Inl ''TypeError'')"

definition as_list :: "json \<Rightarrow> string + json list" where
  "as_list j = (case j of JList l \<Rightarrow> Inr l | _ \<Rightarrow> Inl ''TypeError'')"

definition as_text :: "json \<Rightarrow> string + string" where
  "as_text j = (case j of JStr s \<Rightarrow> Inr s | _ \<Rightarrow> Inl ''TypeError'')"

definition port_text :: "string \<Rightarrow> json \<Rightarrow> string + string" where
  "port_text proto j = bindR (as_dict j) (\<lambda>p. bindR (field ''port'' p) (\<lambda>n. Inr (proto @ ''/'' @ py_str n)))"

definition port_texts :: "string \<Rightarrow> string \<Rightarrow> json dict \<Rightarrow> string + string list" where
  "port_texts proto k t = bindR (as_list (get_or (JList []) k t)) (mapR (port_text proto))"

type_synonym findings = "string list \<times> string list \<times> string list"

text \<open>One target's line: a problem, a piece of information, or something that couldn't be checked.\<close>

definition note_target :: "findings \<Rightarrow> json \<Rightarrow> string + findings" where
  "note_target acc j =
     (case acc of (problems, info, couldnt) \<Rightarrow>
        bindR (as_dict j) (\<lambda>t.
        bindR (field ''name'' t) (\<lambda>n.
        let name = py_str n in
        case map_of t ''error'' of
          Some m \<Rightarrow> Inr (problems, info, couldnt @ [name @ '' scan ('' @ py_str m @ '')''])
        | None \<Rightarrow>
            if truthy (jget ''unexpected'' t) then
              bindR (bindR (as_list (jget ''unexpected'' t)) (mapR as_text)) (\<lambda>ports.
              Inr (problems @ [name @ '' has unexpected open ports: '' @ join '', '' ports], info, couldnt))
            else
              bindR (port_texts ''tcp'' ''open_tcp'' t) (\<lambda>tcp.
              bindR (port_texts ''udp'' ''open_udp'' t) (\<lambda>udp.
              let opened = tcp @ udp in
              Inr (problems, info @ [name @ '': only expected ports open ('' @
                (if opened = [] then ''none'' else join '', '' opened) @ '')''], couldnt))))))"

fun note_targets :: "findings \<Rightarrow> json list \<Rightarrow> string + findings" where
  "note_targets acc [] = Inr acc"
| "note_targets acc (t # ts) = bindR (note_target acc t) (\<lambda>acc'. note_targets acc' ts)"

definition is_skipped :: "string \<Rightarrow> bool" where
  "is_skipped s \<longleftrightarrow> sublist '' skipped:'' s"

definition age_days :: "rat \<Rightarrow> string \<Rightarrow> string + int" where
  "age_days now stamp =
     (case fromisodatetime stamp of
        None \<Rightarrow> Inl ''ValueError''
      | Some (t, None) \<Rightarrow> Inl ''TypeError''
      | Some (t, Some z) \<Rightarrow> Inr \<lfloor>(now - timestamp t z) / 86400\<rfloor>)"

definition stamp_text :: "string \<Rightarrow> string" where
  "stamp_text stamp = (case fromisoformat (take 10 stamp) of Some d \<Rightarrow> day_text d | None \<Rightarrow> [])"

definition scan_heading :: "string \<Rightarrow> int \<Rightarrow> findings" where
  "scan_heading stamp age =
     (if stale_days < age then [''the weekly port scan hasn't run for '' @ str_of_int age @ '' days''] else [],
      [''port scan from '' @ stamp_text stamp @ '' ('' @ str_of_int age @ '' day'' @
         (if age \<noteq> 1 then ''s'' else []) @ '' ago)''], [])"

definition note_errors :: "string list \<Rightarrow> findings \<Rightarrow> findings" where
  "note_errors errors acc =
     (case acc of (problems, info, couldnt) \<Rightarrow>
        let skipped = filter is_skipped errors in
        (problems, if skipped \<noteq> [] then info @ [''not scanned: '' @ join '', '' skipped] else info,
         couldnt @ filter (\<lambda>s. \<not> is_skipped s) errors))"

definition read_scan :: "rat \<Rightarrow> json \<Rightarrow> string + findings" where
  "read_scan now j =
     bindR (as_dict j) (\<lambda>data.
     bindR (bindR (field ''scanned_at'' data) as_text) (\<lambda>stamp.
     bindR (age_days now stamp) (\<lambda>age.
     bindR (as_list (get_or (JList []) ''targets'' data)) (\<lambda>targets.
     bindR (note_targets (scan_heading stamp age) targets) (\<lambda>acc.
     bindR (bindR (as_list (get_or (JList []) ''errors'' data)) (mapR as_text)) (\<lambda>errors.
     Inr (note_errors errors acc)))))))"

definition scan_findings :: "rat \<Rightarrow> scan_file \<Rightarrow> string + findings" where
  "scan_findings now f = (case f of
      NoFile \<Rightarrow> Inr ([], [], [''port scan (no results yet; it runs Friday late afternoon, or ask to run '' @
        ''the exposure check now)''])
    | Unreadable k \<Rightarrow> Inr ([], [], [''port scan results ('' @ k @ '')''])
    | Content j \<Rightarrow> read_scan now j)"

section \<open>The tool\<close>

definition head_line :: "string list \<Rightarrow> string" where
  "head_line problems =
     (if problems \<noteq> []
      then str_of_nat (length problems) @ '' exposure issue'' @ plural (length problems) @ '': '' @
        join ''; '' problems @ ''.''
      else ''Nothing unexpected is reachable from the internet, and all certificates are current.'')"

definition caveats :: string where
  "caveats = ''Caveats: the hub scans its own public IP through AWS's gateway, and the site routers trust the hub, '' @
     ''so a port opened only to the hub would show up here too.''"

definition exposure_check :: "report_env \<Rightarrow> string + string" where
  "exposure_check e =
     bindR (scan_findings (report_clock e) (exposure_file e)) (\<lambda>(scan_problems, scan_info, scan_couldnt).
     case certs e of (cert_problems, cert_couldnt, soonest) \<Rightarrow>
       let couldnt = scan_couldnt @ cert_couldnt in
       Inr (join [newline]
         ([head_line (scan_problems @ cert_problems)] @
          (if scan_info \<noteq> [] then [''Scan: '' @ join ''; '' scan_info @ ''.''] else []) @
          (if 0 \<le> soonest
           then [''Certificates: '' @ str_of_nat (length (tls_hosts e)) @ '' public hostnames checked; the soonest expires in '' @
             str_of_int soonest @ '' days.'']
           else []) @
          [caveats] @
          (if couldnt \<noteq> [] then [''Couldn't check: '' @ join ''; '' couldnt @ ''.''] else []))))"


section \<open>The report of a scan\<close>

lemma mapR_as_text [simp]: "mapR as_text (map JStr ls) = Inr ls"
  by (induction ls) (simp_all add: as_text_def)

lemma port_texts_scanned:
  "map_of t k = Some (JList (map port_json ps)) \<Longrightarrow> port_texts proto k t = Inr (map (port_name proto) ps)"
proof -
  have "mapR (port_text proto) (map port_json ps) = Inr (map (port_name proto) ps)"
    by (induction ps) (simp_all add: port_text_def port_json_def as_dict_def field_def port_name_def py_str_def)
  then show "map_of t k = Some (JList (map port_json ps)) \<Longrightarrow> ?thesis"
    by (simp add: port_texts_def get_or_def as_list_def)
qed

text \<open>Whether a target of a run is a problem: it was scanned, and a port is open that shouldn't be.\<close>

definition bad_target :: "scan_env \<Rightarrow> json dict \<Rightarrow> string \<times> string \<Rightarrow> bool" where
  "bad_target e expected target \<longleftrightarrow>
     (case scan_answer e (snd target) of
        Inl _ \<Rightarrow> False
      | Inr (tcp, udp) \<Rightarrow> \<not> all_expected expected (fst target) tcp udp)"

lemma note_target_error:
  "map_of entry ''name'' = Some n \<Longrightarrow> map_of entry ''error'' = Some m \<Longrightarrow>
     \<exists>c. note_target (ps, info, couldnt) (JObj entry) = Inr (ps, info, c)"
  by (simp add: note_target_def as_dict_def field_def)

lemma note_target_bad:
  "map_of entry ''name'' = Some n \<Longrightarrow> map_of entry ''error'' = None \<Longrightarrow>
     jget ''unexpected'' entry = JList (map JStr bad) \<Longrightarrow> bad \<noteq> [] \<Longrightarrow>
     \<exists>line. note_target (ps, info, couldnt) (JObj entry) = Inr (ps @ [line], info, couldnt)"
  by (simp add: note_target_def as_dict_def field_def as_list_def Let_def)

lemma note_target_good:
  "map_of entry ''name'' = Some n \<Longrightarrow> map_of entry ''error'' = None \<Longrightarrow> jget ''unexpected'' entry = JList [] \<Longrightarrow>
     port_texts ''tcp'' ''open_tcp'' entry = Inr tcp \<Longrightarrow> port_texts ''udp'' ''open_udp'' entry = Inr udp \<Longrightarrow>
     \<exists>i. note_target (ps, info, couldnt) (JObj entry) = Inr (ps, i, couldnt)"
  by (simp add: note_target_def as_dict_def field_def Let_def)

lemma note_target_ok:
  assumes "entry_ok e expected target entry"
  shows "\<exists>new info' couldnt'. note_target (ps, info, couldnt) (JObj entry) = Inr (ps @ new, info', couldnt') \<and>
    (new = [] \<longleftrightarrow> \<not> bad_target e expected target)"
proof (cases "scan_answer e (snd target)")
  case (Inl x)
  then have entry: "map_of entry ''name'' = Some (JStr (fst target))"
    "map_of entry ''error'' = Some (JStr (''scan failed: '' @ problem_text x))" "\<not> bad_target e expected target"
    using assms by (simp_all add: entry_ok_def bad_target_def)
  from note_target_error [OF entry(1,2)] obtain c where
    "note_target (ps, info, couldnt) (JObj entry) = Inr (ps @ [], info, c)"
    unfolding append_Nil2 by blast
  with entry(3) show ?thesis by blast
next
  case (Inr r)
  obtain tcp udp where r: "r = (tcp, udp)" by (cases r)
  obtain bad where entry: "map_of entry ''name'' = Some (JStr (fst target))" "map_of entry ''error'' = None"
    "map_of entry ''open_tcp'' = Some (JList (map port_json tcp))"
    "map_of entry ''open_udp'' = Some (JList (map port_json udp))"
    "map_of entry ''unexpected'' = Some (JList (map JStr bad))"
    and bad: "bad = [] \<longleftrightarrow> \<not> bad_target e expected target"
    using assms Inr r by (auto simp: entry_ok_def bad_target_def)
  have unexpected: "jget ''unexpected'' entry = JList (map JStr bad)"
    using entry(5) by (simp only: jget_def get_or_def option.case)
  show ?thesis
  proof (cases "bad = []")
    case True
    then have "jget ''unexpected'' entry = JList []"
      using unexpected by simp
    from note_target_good [OF entry(1,2) this port_texts_scanned [OF entry(3)] port_texts_scanned [OF entry(4)]]
    obtain i where "note_target (ps, info, couldnt) (JObj entry) = Inr (ps @ [], i, couldnt)"
      unfolding append_Nil2 by blast
    with True bad show ?thesis by blast
  next
    case False
    from note_target_bad [OF entry(1,2) unexpected False] obtain l where
      "note_target (ps, info, couldnt) (JObj entry) = Inr (ps @ [l], info, couldnt)"
      by blast
    with False bad show ?thesis by blast
  qed
qed

lemma note_targets_ok:
  assumes "list_all2 (entry_ok e expected) ts es"
  shows "\<exists>new info' couldnt'. note_targets (ps, info, couldnt) (map JObj es) = Inr (ps @ new, info', couldnt') \<and>
    (new = [] \<longleftrightarrow> (\<forall>t\<in>set ts. \<not> bad_target e expected t))"
  using assms
proof (induction ts es arbitrary: ps info couldnt rule: list_all2_induct)
  case (Cons t ts x es)
  obtain new info1 couldnt1 where one: "note_target (ps, info, couldnt) (JObj x) = Inr (ps @ new, info1, couldnt1)"
    "new = [] \<longleftrightarrow> \<not> bad_target e expected t"
    using note_target_ok [OF Cons.hyps(1)] by blast
  obtain new2 info2 couldnt2 where two:
    "note_targets (ps @ new, info1, couldnt1) (map JObj es) = Inr ((ps @ new) @ new2, info2, couldnt2)"
    "new2 = [] \<longleftrightarrow> (\<forall>t\<in>set ts. \<not> bad_target e expected t)"
    using Cons.IH [of "ps @ new" info1 couldnt1] by (elim exE conjE) (rule that)
  have "note_targets (ps, info, couldnt) (map JObj (x # es)) = Inr (ps @ new @ new2, info2, couldnt2)"
    using one(1) two(1) by (simp del: append_assoc add: append_assoc [symmetric])
  moreover have "new @ new2 = [] \<longleftrightarrow> (\<forall>t\<in>set (t # ts). \<not> bad_target e expected t)"
    using one(2) two(2) by simp
  ultimately show ?case by blast
qed simp

lemma read_scan_result:
  assumes "age_days now stamp = Inr age"
  shows "read_scan now (scan_result stamp entries errors) =
    bindR (note_targets (scan_heading stamp age) (map JObj entries)) (\<lambda>acc. Inr (note_errors errors acc))"
  using assms
  by (simp add: read_scan_def scan_result_def as_dict_def field_def as_text_def as_list_def get_or_def)

lemma run_result:
  assumes "exposure_scan e w = (Inr line, w')" and "expected_file e = Inr expected"
    and "find_targets e w = (Inr (targets, errors), w1)"
  shows "\<exists>entries. latest w' = Some (scan_result (scan_stamp e) entries errors) \<and>
    list_all2 (entry_ok e expected) targets entries"
proof -
  obtain entries w2 where "scan_targets expected targets e w1 = (Inr entries, w2)"
    and "latest w' = Some (scan_result (scan_stamp e) entries errors)"
    using assms
    by (auto simp: exposure_scan_def bind_def ask_def liftR_def andthen_def modify_def write_metrics_def ret_def
        split: sum.splits prod.splits if_splits)
  then show ?thesis
    using scan_targets_ok by blast
qed

text \<open>C24: the scan of the hub and the tool of the MCP server together: from the file a run wrote, read while
  it is at most eight days old, the tool reports no problem of the scan exactly when, on every
  target that could be scanned, every open port is one that is expected.\<close>

theorem exposure_silent_iff:
  assumes "exposure_scan e w = (Inr line, w')" and "expected_file e = Inr expected"
    and "find_targets e w = (Inr (targets, errors), w1)"
    and "fromisodatetime (scan_stamp e) = Some (t, Some z)" and "now - timestamp t z < 9 * 86400"
  shows "\<exists>j problems info couldnt. latest w' = Some j \<and>
    scan_findings now (Content j) = Inr (problems, info, couldnt) \<and>
    (problems = [] \<longleftrightarrow> (\<forall>target\<in>set targets. \<not> bad_target e expected target))"
proof -
  obtain entries where j: "latest w' = Some (scan_result (scan_stamp e) entries errors)"
    and entries: "list_all2 (entry_ok e expected) targets entries"
    using run_result [OF assms(1-3)] by blast
  have "(now - timestamp t z) / 86400 < 9"
    using assms(5) by (simp add: divide_less_eq)
  then have "\<lfloor>(now - timestamp t z) / 86400\<rfloor> < 9"
    by (simp only: floor_less_iff of_int_numeral)
  then obtain age where age: "age_days now (scan_stamp e) = Inr age" "age \<le> stale_days"
    using assms(4) by (simp add: age_days_def stale_days_def)
  then obtain info where heading: "scan_heading (scan_stamp e) age = ([], info, [])"
    by (simp add: scan_heading_def)
  obtain new info' couldnt' where new:
    "note_targets ([], info, []) (map JObj entries) = Inr ([] @ new, info', couldnt')"
    "new = [] \<longleftrightarrow> (\<forall>target\<in>set targets. \<not> bad_target e expected target)"
    using note_targets_ok [OF entries, of "[]" info "[]"] by (elim exE conjE) (rule that)
  have "read_scan now (scan_result (scan_stamp e) entries errors) = Inr (note_errors errors (new, info', couldnt'))"
    unfolding read_scan_result [OF age(1)] heading new(1) by simp
  then have "\<exists>info couldnt. read_scan now (scan_result (scan_stamp e) entries errors) = Inr (new, info, couldnt)"
    by (simp add: note_errors_def Let_def)
  with j new(2) show ?thesis
    unfolding scan_findings_def by (simp only: scan_file.case) blast
qed

text \<open>A run for the witness: the hub alone, with port 443 open and expected.\<close>

definition example_scan :: scan_env where
  "example_scan =
    \<lparr>metadata = (\<lambda>_ _ _. Inr ''1.2.3.4''), wg_dump = Inr [],
     nmap_result = (\<lambda>argv. Inr (0, if ''-sU'' \<in> set argv then ''u'' else ''t'')),
     nmap_ports = (\<lambda>out. Inr (if out = ''t'' then [\<lparr>port_id = ''443'', port_state = ''open'', port_service = None\<rparr>] else [])),
     expected_file = Inr [(''hub'', JObj [(''tcp'', JList [JInt 443])])], scan_clock = 0,
     scan_stamp = ''2026-10-02T16:00:00+00:00'', textfile_dir = []\<rparr>"

definition fresh_host :: scan_world where
  "fresh_host = \<lparr>commands = [], latest = None, metrics_file = None\<rparr>"

definition example_time :: rat where
  "example_time = of_nat (86400 * toordinal (Date 2026 10 2)) + 57600"

lemma example_stamp: "fromisodatetime (scan_stamp example_scan) = Some (example_time, Some 0)"
proof -
  have "fromisoformat ''2026-10-02'' = Some (Date 2026 10 2)" "offset_of ''+00:00'' = Some (Some 0)"
    by code_simp+
  moreover have "time_of_day ''16:00:00'' = Some 57600"
    by (simp add: time_of_day_def two_digits_def fraction_of_def all_digits_def is_digit_def nat_of_str_def digit_val_def)
  moreover have "take 10 (scan_stamp example_scan) = ''2026-10-02''" "drop 11 (scan_stamp example_scan) = ''16:00:00+00:00''"
    "length (scan_stamp example_scan) = 25"
    "takeWhile (\<lambda>c. \<not> is_offset_mark c) ''16:00:00+00:00'' = ''16:00:00''"
    "dropWhile (\<lambda>c. \<not> is_offset_mark c) ''16:00:00+00:00'' = ''+00:00''"
    by code_simp+
  ultimately show ?thesis
    by (simp only: fromisodatetime_def Let_def prod.case option.case example_time_def) simp
qed

theorem exposure_silent_iff_witness:
  "\<exists>j problems info couldnt. latest (snd (exposure_scan example_scan fresh_host)) = Some j \<and>
    scan_findings (timestamp example_time 0) (Content j) = Inr (problems, info, couldnt) \<and>
    (problems = [] \<longleftrightarrow> (\<forall>target\<in>set [(''hub'', ''1.2.3.4'')].
       \<not> bad_target example_scan [(''hub'', JObj [(''tcp'', JList [JInt 443])])] target))"
proof (rule exposure_silent_iff)
  show "exposure_scan example_scan fresh_host =
      (Inr ''RESULT: Exposure check finished; ask for the exposure check to hear the results.'',
       snd (exposure_scan example_scan fresh_host))"
    by code_simp
  show "expected_file example_scan = Inr [(''hub'', JObj [(''tcp'', JList [JInt 443])])]"
    by code_simp
  show "find_targets example_scan fresh_host =
      (Inr ([(''hub'', ''1.2.3.4'')], []), snd (find_targets example_scan fresh_host))"
    by code_simp
  show "fromisodatetime (scan_stamp example_scan) = Some (example_time, Some 0)"
    by (rule example_stamp)
  show "timestamp example_time 0 - timestamp example_time 0 < 9 * 86400"
    by simp
qed

end
