(* ===== verification/Matchers.thy ===== *)
theory Matchers
  imports Prelude
begin

text \<open>
  Python's \<open>re\<close> where a pattern's groups, or the text it replaces, matter: a backtracking engine. A
  position in a text is the text before it, reversed, and the text after it. A matcher lists the
  positions where a match from a position can end, in the order in which Python's engine tries them.
\<close>

type_synonym pos = "string \<times> string"

type_synonym matcher = "pos \<Rightarrow> pos list"

definition m_seq :: "matcher \<Rightarrow> matcher \<Rightarrow> matcher" where
  "m_seq a b p = concat (map b (a p))"

definition m_alt :: "matcher \<Rightarrow> matcher \<Rightarrow> matcher" where
  "m_alt a b p = a p @ b p"

definition m_opt :: "matcher \<Rightarrow> matcher" where
  "m_opt a p = a p @ [p]"

definition m_cls :: "(char \<Rightarrow> bool) \<Rightarrow> matcher" where
  "m_cls q p = (case p of (b, c # s) \<Rightarrow> if q c then [(c # b, s)] else [] | _ \<Rightarrow> [])"

fun m_star_at :: "(char \<Rightarrow> bool) \<Rightarrow> string \<Rightarrow> string \<Rightarrow> pos list" where
  "m_star_at q b [] = [(b, [])]"
| "m_star_at q b (c # s) = (if q c then m_star_at q (c # b) s else []) @ [(b, c # s)]"

text \<open>\<open>[q]*\<close>, \<open>[q]+\<close> and \<open>[q]{n,}\<close>, the longest first.\<close>

definition m_star :: "(char \<Rightarrow> bool) \<Rightarrow> matcher" where
  "m_star q p = m_star_at q (fst p) (snd p)"

definition m_plus :: "(char \<Rightarrow> bool) \<Rightarrow> matcher" where
  "m_plus q = m_seq (m_cls q) (m_star q)"

definition m_least :: "nat \<Rightarrow> (char \<Rightarrow> bool) \<Rightarrow> matcher" where
  "m_least n q p = filter (\<lambda>(b, s). length (fst p) + n \<le> length b) (m_star q p)"

fun m_chars :: "(char \<Rightarrow> char \<Rightarrow> bool) \<Rightarrow> string \<Rightarrow> matcher" where
  "m_chars eq [] p = [p]"
| "m_chars eq (x # xs) p = m_seq (m_cls (eq x)) (m_chars eq xs) p"

definition m_lit :: "string \<Rightarrow> matcher" where
  "m_lit = m_chars (=)"

fun m_any :: "matcher list \<Rightarrow> matcher" where
  "m_any [] p = []"
| "m_any (m # ms) p = m p @ m_any ms p"

fun m_cat :: "matcher list \<Rightarrow> matcher" where
  "m_cat [] p = [p]"
| "m_cat (m # ms) p = m_seq m (m_cat ms) p"

text \<open>\<open>\b\<close>, with the word characters below code point 256.\<close>

definition is_word :: "char \<Rightarrow> bool" where
  "is_word c \<longleftrightarrow> is_alnum c \<or> c = CHR ''_'' \<or> code c \<in> {170, 178, 179, 181, 185, 186, 188, 189, 190} \<or>
     192 \<le> code c \<and> code c \<noteq> 215 \<and> code c \<noteq> 247"

definition starts_word :: "string \<Rightarrow> bool" where
  "starts_word s = (case s of c # _ \<Rightarrow> is_word c | [] \<Rightarrow> False)"

definition m_boundary :: matcher where
  "m_boundary p = (if starts_word (fst p) \<noteq> starts_word (snd p) then [p] else [])"

text \<open>The text between two positions.\<close>

definition between :: "pos \<Rightarrow> pos \<Rightarrow> string" where
  "between p q = rev (take (length (fst q) - length (fst p)) (fst q))"

text \<open>A group: its text, with the position after it. \<open>$\<close> also holds before a final newline.\<close>

definition grab :: "matcher \<Rightarrow> pos \<Rightarrow> (string \<times> pos) list" where
  "grab m p = map (\<lambda>q. (between p q, q)) (m p)"

definition m_end :: matcher where
  "m_end p = (if snd p \<in> {[], [newline]} then [p] else [])"

definition first_of :: "'a list \<Rightarrow> 'a option" where
  "first_of xs = (case xs of [] \<Rightarrow> None | x # _ \<Rightarrow> Some x)"

text \<open>\<open>re.search\<close>, as a test.\<close>

fun search_at :: "matcher \<Rightarrow> string \<Rightarrow> string \<Rightarrow> bool" where
  "search_at m b [] = (m (b, []) \<noteq> [])"
| "search_at m b (c # s) = (m (b, c # s) \<noteq> [] \<or> search_at m (c # b) s)"

definition re_search :: "matcher \<Rightarrow> string \<Rightarrow> bool" where
  "re_search m s = search_at m [] s"

text \<open>\<open>pattern.sub(repl, s)\<close> for a pattern of a group and a rest that no empty text matches: \<open>repl\<close> is given
  the text of the group. The fuel is the length of the text that is left.\<close>

fun sub_from :: "nat \<Rightarrow> matcher \<Rightarrow> matcher \<Rightarrow> (string \<Rightarrow> string) \<Rightarrow> pos \<Rightarrow> string" where
  "sub_from 0 g r repl p = snd p"
| "sub_from (Suc n) g r repl p =
     (case concat (map (\<lambda>q. map (\<lambda>e. (q, e)) (r q)) (g p)) of
        (q, e) # _ \<Rightarrow> repl (between p q) @ sub_from n g r repl e
      | [] \<Rightarrow> (case snd p of [] \<Rightarrow> [] | c # s \<Rightarrow> c # sub_from n g r repl (c # fst p, s)))"

definition re_sub :: "matcher \<Rightarrow> matcher \<Rightarrow> (string \<Rightarrow> string) \<Rightarrow> string \<Rightarrow> string" where
  "re_sub g r repl s = sub_from (Suc (length s)) g r repl ([], s)"

section \<open>Where nothing matches\<close>

definition matches :: "matcher \<Rightarrow> matcher \<Rightarrow> pos \<Rightarrow> (pos \<times> pos) list" where
  "matches g r p = concat (map (\<lambda>q. map (\<lambda>e. (q, e)) (r q)) (g p))"

lemma sub_from_Suc:
  "sub_from (Suc n) g r repl p =
     (case matches g r p of
        (q, e) # _ \<Rightarrow> repl (between p q) @ sub_from n g r repl e
      | [] \<Rightarrow> (case snd p of [] \<Rightarrow> [] | c # s \<Rightarrow> c # sub_from n g r repl (c # fst p, s)))"
  by (simp add: matches_def)

lemma sub_none:
  assumes "\<And>b' w. suffix w s \<Longrightarrow> matches g r (b', w) = []"
  shows "sub_from n g r repl (b, s) = s"
  using assms
proof (induction s arbitrary: n b)
  case Nil
  then show ?case by (cases n) (simp_all add: sub_from_Suc del: sub_from.simps(2))
next
  case (Cons c s)
  then have "matches g r (b, c # s) = []" "\<And>b' w. suffix w s \<Longrightarrow> matches g r (b', w) = []"
    by (auto simp: suffix_Cons)
  with Cons.IH show ?case
    by (cases n) (simp_all add: sub_from_Suc del: sub_from.simps(2))
qed

lemma re_sub_none: "(\<And>b' w. suffix w s \<Longrightarrow> matches g r (b', w) = []) \<Longrightarrow> re_sub g r repl s = s"
  unfolding re_sub_def by (rule sub_none)

text \<open>A matcher only moves forward.\<close>

definition forward :: "matcher \<Rightarrow> bool" where
  "forward m \<longleftrightarrow> (\<forall>p q. q \<in> set (m p) \<longrightarrow> suffix (snd q) (snd p))"

lemma forward_cls: "forward (m_cls q)"
  by (auto simp: forward_def m_cls_def suffix_def split: list.splits if_splits)

lemma forward_seq: "forward a \<Longrightarrow> forward b \<Longrightarrow> forward (m_seq a b)"
  unfolding forward_def m_seq_def by (fastforce intro: suffix_order.trans)

lemma forward_star_at: "q \<in> set (m_star_at f b s) \<Longrightarrow> suffix (snd q) s"
  by (induction f b s rule: m_star_at.induct) (auto simp: suffix_Cons split: if_splits)

lemma forward_star: "forward (m_star f)"
  by (auto simp: forward_def m_star_def dest: forward_star_at)

lemma forward_plus: "forward (m_plus f)"
  unfolding m_plus_def by (rule forward_seq [OF forward_cls forward_star])

lemma forward_least: "forward (m_least n f)"
  by (auto simp: forward_def m_least_def m_star_def dest: forward_star_at)

lemma forward_opt: "forward a \<Longrightarrow> forward (m_opt a)"
  by (auto simp: forward_def m_opt_def)

lemma forward_chars: "forward (m_chars eq w)"
proof (induction w)
  case Nil
  then show ?case by (simp add: forward_def)
next
  case (Cons x w)
  have "m_chars eq (x # w) = m_seq (m_cls (eq x)) (m_chars eq w)"
    by (simp add: fun_eq_iff)
  then show ?case
    using forward_seq [OF forward_cls Cons] by simp
qed

lemma forward_boundary: "forward m_boundary"
  by (auto simp: forward_def m_boundary_def)


text \<open>A matcher that needs a character of some kind ahead.\<close>

definition needs :: "(char \<Rightarrow> bool) \<Rightarrow> matcher \<Rightarrow> bool" where
  "needs f m \<longleftrightarrow> (\<forall>p q. q \<in> set (m p) \<longrightarrow> (\<exists>c\<in>set (snd p). f c))"

lemma needs_cls: "needs f (m_cls f)"
  by (auto simp: needs_def m_cls_def split: list.splits if_splits)

lemma needs_seq_first: "needs f a \<Longrightarrow> needs f (m_seq a b)"
  unfolding needs_def m_seq_def by fastforce

lemma needs_seq_then: "forward a \<Longrightarrow> needs f b \<Longrightarrow> needs f (m_seq a b)"
  unfolding needs_def forward_def m_seq_def by (auto dest: set_mono_suffix) (meson set_mono_suffix subsetD)

lemma m_cat_Cons: "m_cat (m # ms) = m_seq m (m_cat ms)"
  by (simp add: fun_eq_iff)

lemma forward_any: "list_all forward ms \<Longrightarrow> forward (m_any ms)"
  by (induction ms) (auto simp: forward_def)

lemma forward_cat: "list_all forward ms \<Longrightarrow> forward (m_cat ms)"
proof (induction ms)
  case (Cons m ms)
  then show ?case by (simp add: m_cat_Cons forward_seq)
qed (simp add: forward_def)

lemmas forwards = forward_cls forward_star forward_plus forward_opt forward_chars forward_boundary forward_least
  forward_any forward_cat

lemma no_match_needs: "needs f g \<Longrightarrow> \<not> (\<exists>c\<in>set w. f c) \<Longrightarrow> matches g r (b, w) = []"
  by (auto simp: needs_def matches_def)

lemma no_match_rest_needs:
  "forward g \<Longrightarrow> needs f r \<Longrightarrow> \<not> (\<exists>c\<in>set w. f c) \<Longrightarrow> matches g r (b, w) = []"
proof -
  assume fwd: "forward g" and needs: "needs f r" and none: "\<not> (\<exists>c\<in>set w. f c)"
  have "r q = []" if "q \<in> set (g (b, w))" for q
  proof -
    have "suffix (snd q) w"
      using fwd that unfolding forward_def by (metis snd_conv)
    then have "\<not> (\<exists>c\<in>set (snd q). f c)"
      using none set_mono_suffix by blast
    then show "r q = []"
      using needs unfolding needs_def by (metis last_in_set)
  qed
  then show ?thesis
    by (simp add: matches_def)
qed

lemma star_at_length: "q \<in> set (m_star_at f b s) \<Longrightarrow> length (fst q) \<le> length b + length (takeWhile f s)"
  by (induction f b s rule: m_star_at.induct) (auto split: if_splits)

lemma least_Nil: "length (takeWhile f (snd p)) < n \<Longrightarrow> m_least n f p = []"
  by (auto simp: m_least_def m_star_def filter_empty_conv dest!: star_at_length)

section \<open>What a matcher reads, and what it tries first\<close>

text \<open>\<open>reads L m\<close>: what \<open>m\<close> reads is a text of \<open>L\<close>.\<close>

definition reads :: "string set \<Rightarrow> matcher \<Rightarrow> bool" where
  "reads L m \<longleftrightarrow> (\<forall>b s q. q \<in> set (m (b, s)) \<longrightarrow> (\<exists>w v. w \<in> L \<and> s = w @ v \<and> q = (rev w @ b, v)))"

lemma readsD: "reads L m \<Longrightarrow> q \<in> set (m (b, s)) \<Longrightarrow> \<exists>w v. w \<in> L \<and> s = w @ v \<and> q = (rev w @ b, v)"
  unfolding reads_def by blast

lemma reads_mono: "reads L m \<Longrightarrow> L \<subseteq> M \<Longrightarrow> reads M m"
  unfolding reads_def by blast

lemma reads_seq: "reads L a \<Longrightarrow> reads M b \<Longrightarrow> reads {u @ v | u v. u \<in> L \<and> v \<in> M} (m_seq a b)"
  unfolding reads_def m_seq_def
proof (intro allI impI)
  fix c s q
  assume a: "\<forall>b s q. q \<in> set (a (b, s)) \<longrightarrow> (\<exists>w v. w \<in> L \<and> s = w @ v \<and> q = (rev w @ b, v))"
    and b: "\<forall>c s q. q \<in> set (b (c, s)) \<longrightarrow> (\<exists>w v. w \<in> M \<and> s = w @ v \<and> q = (rev w @ c, v))"
    and "q \<in> set (concat (map b (a (c, s))))"
  then obtain p where p: "p \<in> set (a (c, s))" "q \<in> set (b p)" by auto
  obtain u v where u: "u \<in> L" "s = u @ v" "p = (rev u @ c, v)" using a p(1) by blast
  obtain u' v' where "u' \<in> M" "v = u' @ v'" "q = (rev u' @ rev u @ c, v')" using b p(2) u(3) by blast
  with u show "\<exists>w v. w \<in> {u @ v | u v. u \<in> L \<and> v \<in> M} \<and> s = w @ v \<and> q = (rev w @ c, v)"
    by (intro exI [of _ "u @ u'"] exI [of _ v']) auto
qed

lemma reads_star_at:
  "q \<in> set (m_star_at f b s) \<Longrightarrow> \<exists>w v. list_all f w \<and> s = w @ v \<and> q = (rev w @ b, v)"
proof (induction f b s rule: m_star_at.induct)
  case (2 f b c s)
  then consider "q = (b, c # s)" | "f c" "q \<in> set (m_star_at f (c # b) s)" by (auto split: if_splits)
  then show ?case
  proof cases
    case 1
    then show ?thesis by simp
  next
    case 2
    with "2.IH" obtain w v where "list_all f w" "s = w @ v" "q = (rev w @ c # b, v)" by blast
    with 2(1) show ?thesis by (intro exI [of _ "c # w"] exI [of _ v]) auto
  qed
qed auto

lemma reads_star: "reads {w. list_all f w} (m_star f)"
  unfolding reads_def m_star_def by (auto dest!: reads_star_at)

lemma reads_cls: "reads {[c] | c. f c} (m_cls f)"
  unfolding reads_def m_cls_def by (auto split: list.splits if_splits)

lemma reads_plus: "reads {w. w \<noteq> [] \<and> list_all f w} (m_plus f)"
  unfolding m_plus_def by (rule reads_mono [OF reads_seq [OF reads_cls reads_star]]) auto

lemma m_lit_eq: "m_lit w (b, s) = (if prefix w s then [(rev w @ b, drop (length w) s)] else [])"
proof (induction w arbitrary: b s)
  case (Cons x w)
  then show ?case
    unfolding m_lit_def m_chars.simps m_seq_def m_cls_def by (auto split: list.splits)
qed (simp add: m_lit_def)

lemma reads_lit: "reads {w} (m_lit w)"
  unfolding reads_def m_lit_eq by (auto simp: prefix_def)

lemma reads_opt: "reads L m \<Longrightarrow> reads (insert [] L) (m_opt m)"
  unfolding reads_def m_opt_def by simp blast

lemma reads_any: "list_all (reads L) ms \<Longrightarrow> reads L (m_any ms)"
  by (induction ms) (auto simp: reads_def)

lemma reads_cat_Nil: "reads {[]} (m_cat [])"
  by (auto simp: reads_def)

lemma grab_reads: "reads L m \<Longrightarrow> (w, q) \<in> set (grab m p) \<Longrightarrow> w \<in> L"
  by (cases p) (auto simp: grab_def between_def dest!: readsD)

text \<open>\<open>tries xs x\<close>: the first of the positions.\<close>

definition tries :: "'a list \<Rightarrow> 'a \<Rightarrow> bool" where
  "tries xs x \<longleftrightarrow> (\<exists>ys. xs = x # ys)"

lemma tries_concat: "tries xs x \<Longrightarrow> tries (f x) y \<Longrightarrow> tries (concat (map f xs)) y"
  by (auto simp: tries_def)

lemma tries_seq: "tries (a p) q \<Longrightarrow> tries (b q) r \<Longrightarrow> tries (m_seq a b p) r"
  unfolding m_seq_def by (rule tries_concat)

lemma tries_first_of: "tries xs x \<Longrightarrow> first_of xs = Some x"
  by (auto simp: tries_def first_of_def)

lemma first_of_in: "first_of xs = Some x \<Longrightarrow> x \<in> set xs"
  by (cases xs) (auto simp: first_of_def)

lemma tries_grab: "tries (m (b, s)) (rev w @ b, v) \<Longrightarrow> tries (grab m (b, s)) (w, (rev w @ b, v))"
  by (auto simp: tries_def grab_def between_def)

lemma tries_lit: "tries (m_lit w (b, w @ s)) (rev w @ b, s)"
  by (simp add: tries_def m_lit_eq)

lemma tries_opt: "tries (m p) q \<Longrightarrow> tries (m_opt m p) q"
  by (auto simp: tries_def m_opt_def)

lemma tries_opt_none: "m p = [] \<Longrightarrow> tries (m_opt m p) p"
  by (simp add: tries_def m_opt_def)

lemma tries_cat_Nil: "tries (m_cat [] p) p"
  by (simp add: tries_def)

lemma tries_cat_Cons: "tries (m p) q \<Longrightarrow> tries (m_cat ms q) r \<Longrightarrow> tries (m_cat (m # ms) p) r"
  unfolding m_cat_Cons by (rule tries_seq)

definition stops :: "(char \<Rightarrow> bool) \<Rightarrow> string \<Rightarrow> bool" where
  "stops f s \<longleftrightarrow> (case s of [] \<Rightarrow> True | c # _ \<Rightarrow> \<not> f c)"

lemma tries_star: "list_all f w \<Longrightarrow> stops f s \<Longrightarrow> tries (m_star f (b, w @ s)) (rev w @ b, s)"
proof (induction w arbitrary: b)
  case Nil
  then show ?case by (cases s) (simp_all add: tries_def m_star_def stops_def)
next
  case (Cons c w)
  show ?case
  proof -
    obtain ys where "m_star_at f (c # b) (w @ s) = (rev w @ c # b, s) # ys"
      using Cons by (force simp: tries_def m_star_def)
    then show ?thesis
      using Cons.prems by (simp add: tries_def m_star_def)
  qed
qed

lemma tries_plus: "list_all f w \<Longrightarrow> w \<noteq> [] \<Longrightarrow> stops f s \<Longrightarrow> tries (m_plus f (b, w @ s)) (rev w @ b, s)"
proof (cases w)
  case (Cons c u)
  assume "list_all f w" "stops f s"
  then show ?thesis
    unfolding m_plus_def using tries_star [of f u s "c # b"]
    by (intro tries_seq [of _ _ "(c # b, u @ s)"]) (auto simp: Cons tries_def m_cls_def)
qed simp

end
