(* ===== verification/Redact.thy ===== *)
theory Redact
  imports Matchers
begin

text \<open>
  The redactions of \<open>compose/aws/home-mcp/logs.py\<close>, as substitutions with the matchers.
\<close>

definition lower_code :: "char \<Rightarrow> nat" where
  "lower_code c = (if is_upper c then code c + 32 else code c)"

definition ci_eq :: "char \<Rightarrow> char \<Rightarrow> bool" where
  "ci_eq x y \<longleftrightarrow> lower_code x = lower_code y"

definition m_word_ci :: "string \<Rightarrow> matcher" where
  "m_word_ci = m_chars ci_eq"

section \<open>The redactions\<close>

definition secret_words :: "matcher list" where
  "secret_words =
    map m_word_ci [''authorization'', ''bearer'', ''token'', ''access_token'', ''refresh_token'', ''id_token'',
      ''password'', ''passwd'', ''secret'', ''client_secret''] @
    [m_cat [m_word_ci ''api'', m_opt (m_cls (\<lambda>c. c = CHR ''_'' \<or> c = CHR ''-'')), m_word_ci ''key'']] @
    map m_word_ci [''cookie'', ''set-cookie'', ''session'', ''code'', ''state'', ''sig'', ''signature'']"

definition is_value_char :: "char \<Rightarrow> bool" where
  "is_value_char c \<longleftrightarrow> \<not> is_space c \<and> c \<noteq> CHR 0x22 \<and> c \<noteq> CHR ''&'' \<and> c \<noteq> CHR '','' \<and> c \<noteq> CHR ''}''"

definition secret_key :: matcher where
  "secret_key =
     m_cat [m_opt (m_lit [CHR 0x22]), m_any secret_words, m_opt (m_lit [CHR 0x22]), m_star is_space,
       m_cls (\<lambda>c. c = CHR '':'' \<or> c = CHR ''=''), m_star is_space, m_opt (m_lit [CHR 0x22])]"

definition redact_keys :: "string \<Rightarrow> string" where
  "redact_keys = re_sub secret_key (m_plus is_value_char) (\<lambda>g. g @ ''[redacted]'')"

definition in_chars :: "string \<Rightarrow> char \<Rightarrow> bool" where
  "in_chars extra c \<longleftrightarrow> is_alnum c \<or> c \<in> set extra"

definition redact_auth :: "string \<Rightarrow> string" where
  "redact_auth = re_sub (m_cat [m_boundary, m_any [m_word_ci ''bearer'', m_word_ci ''basic'']])
     (m_cat [m_plus is_space, m_plus (in_chars ''._~+/=-'')]) (\<lambda>g. g @ '' [redacted]'')"

definition redact_jwt :: "string \<Rightarrow> string" where
  "redact_jwt = re_sub (m_cat [])
     (m_cat [m_lit ''eyJ'', m_plus (in_chars ''_-''), m_lit ''.'', m_plus (in_chars ''_-''), m_lit ''.'', m_plus (in_chars ''_-'')])
     (\<lambda>_. ''[redacted-jwt]'')"

definition redact_opaque :: "string \<Rightarrow> string" where
  "redact_opaque = re_sub (m_cat []) (m_cat [m_boundary, m_least 40 (in_chars ''_+/=-''), m_boundary]) (\<lambda>_. ''[redacted]'')"

definition redact :: "string \<Rightarrow> string" where
  "redact line = redact_opaque (redact_jwt (redact_auth (redact_keys line)))"

lemma redact_samples:
  "redact_keys ''a token=b1 c'' = ''a token=[redacted] c''"
  "redact_auth ''a Basic d1 c'' = ''a Basic [redacted] c''"
  "redact_jwt ''a eyJh.b.c d'' = ''a [redacted-jwt] d''"
  by code_simp+

lemma secret_key_needs: "needs (\<lambda>c. c = CHR '':'' \<or> c = CHR ''='') secret_key"
proof -
  have "forward (m_any secret_words)"
    by (rule forward_any) (simp add: secret_words_def m_word_ci_def forwards)
  then show ?thesis
    unfolding secret_key_def m_cat_Cons m_lit_def
    by (intro needs_seq_then [OF forward_opt [OF forward_chars]] needs_seq_then [OF \<open>forward (m_any secret_words)\<close>]
      needs_seq_then [OF forward_star] needs_seq_first needs_cls)
qed

section \<open>What is not redacted\<close>

definition auth_head :: string where
  "auth_head = ''Authorization: [redacted] ''"

lemma redact_keys_basic:
  assumes "list_all is_alnum v"
  shows "redact_keys (''Authorization: Basic '' @ v) = auth_head @ v"
proof -
  have first: "\<exists>rest. matches secret_key (m_plus is_value_char) ([], ''Authorization: Basic '' @ v) =
      ((rev ''Authorization: '', ''Basic '' @ v), (rev ''Authorization: Basic'', '' '' @ v)) # rest"
    by (simp add: matches_def secret_key_def secret_words_def m_cat_Cons m_seq_def m_opt_def m_lit_def m_word_ci_def
        m_cls_def ci_eq_def lower_code_def is_upper_def m_star_def is_space_def m_plus_def is_value_char_def)
  have none: "matches secret_key (m_plus is_value_char) (b, w) = []" if "suffix w ('' '' @ v)" for b w
  proof (rule no_match_needs [OF secret_key_needs])
    have "c \<in> set w \<Longrightarrow> c = CHR '' '' \<or> is_alnum c" for c
      using set_mono_suffix [OF that] assms by (auto simp: list_all_iff)
    moreover have "\<not> is_alnum (CHR '':'')" "\<not> is_alnum (CHR ''='')"
      by (simp_all add: is_alnum_def is_digit_def is_lower_def is_upper_def)
    ultimately show "\<not> (\<exists>c\<in>set w. c = CHR '':'' \<or> c = CHR ''='')"
      by auto
  qed
  show ?thesis
    unfolding redact_keys_def re_sub_def sub_from_Suc using first sub_none [OF none]
    by (auto simp: between_def auth_head_def simp del: sub_from.simps)
qed


lemma auth_starts_b: "q \<in> set (m_cat [m_boundary, m_any [m_word_ci ''bearer'', m_word_ci ''basic'']] (b, w)) \<Longrightarrow>
    \<exists>c s. w = c # s \<and> lower_code c = 98"
  by (cases w) (auto simp: m_cat_Cons m_seq_def m_boundary_def m_word_ci_def m_cls_def ci_eq_def lower_code_def
      is_upper_def split: if_splits)

text \<open>A suffix of the line is one of the credentials, or starts inside the head.\<close>

lemma suffix_head:
  assumes "suffix w (auth_head @ v)"
  obtains "suffix w v" | h where "h \<noteq> []" "suffix h auth_head" "w = h @ v"
proof -
  consider "suffix w v" | h where "w = h @ v" "suffix h auth_head"
    using assms by (auto simp: suffix_append)
  then show thesis
  proof cases
    case (2 h)
    then show thesis using that by (cases "h = []") auto
  qed (rule that(1))
qed

lemma alnum_not: "is_alnum c \<Longrightarrow> \<not> is_space c \<and> c \<noteq> CHR ''.'' \<and> c \<noteq> CHR '':'' \<and> c \<noteq> CHR ''=''"
  by (auto simp: is_alnum_def is_digit_def is_lower_def is_upper_def is_space_def)

lemma redact_auth_head:
  assumes "list_all is_alnum v"
  shows "redact_auth (auth_head @ v) = auth_head @ v"
  unfolding redact_auth_def
proof (rule re_sub_none)
  fix b w
  let ?g = "m_cat [m_boundary, m_any [m_word_ci ''bearer'', m_word_ci ''basic'']]"
  let ?r = "m_cat [m_plus is_space, m_plus (in_chars ''._~+/=-'')]"
  assume "suffix w (auth_head @ v)"
  then show "matches ?g ?r (b, w) = []"
  proof (cases rule: suffix_head)
    case 1
    have "forward ?g"
      by (simp add: forwards m_word_ci_def)
    moreover have "needs is_space ?r"
      unfolding m_cat_Cons m_plus_def by (intro needs_seq_first needs_cls)
    moreover have "\<not> (\<exists>c\<in>set w. is_space c)"
      using set_mono_suffix [OF 1] assms by (auto simp: list_all_iff dest!: alnum_not)
    ultimately show ?thesis by (rule no_match_rest_needs)
  next
    case (2 h)
    have "\<forall>c\<in>set auth_head. lower_code c \<noteq> 98"
      by (simp add: auth_head_def lower_code_def is_upper_def)
    moreover have "hd w \<in> set auth_head"
      using set_mono_suffix [OF 2(2)] hd_in_set [OF 2(1)] 2(1,3) by auto
    ultimately have "lower_code (hd w) \<noteq> 98" by blast
    then have "?g (b, w) = []"
      using auth_starts_b [of _ b w] by (metis last_in_set list.sel(1))
    then show ?thesis by (simp add: matches_def)
  qed
qed

lemma redact_jwt_head:
  assumes "list_all is_alnum v"
  shows "redact_jwt (auth_head @ v) = auth_head @ v"
  unfolding redact_jwt_def
proof (rule re_sub_none)
  fix b w
  let ?r = "m_cat [m_lit ''eyJ'', m_plus (in_chars ''_-''), m_lit ''.'', m_plus (in_chars ''_-''), m_lit ''.'', m_plus (in_chars ''_-'')]"
  assume "suffix w (auth_head @ v)"
  then have "set w \<subseteq> set auth_head \<union> set v"
    using set_mono_suffix [of w "auth_head @ v"] by simp
  moreover have "CHR ''.'' \<notin> set auth_head" "CHR ''.'' \<notin> set v"
    using assms by (auto simp: auth_head_def list_all_iff dest: alnum_not)
  ultimately have no_dot: "\<not> (\<exists>c\<in>set w. c = CHR ''.'')"
    by auto
  have dot: "needs (\<lambda>c. c = CHR ''.'') (m_lit ''.'')"
    by (auto simp: needs_def m_lit_def m_seq_def m_cls_def split: list.splits if_splits)
  have "needs (\<lambda>c. c = CHR ''.'') ?r"
    unfolding m_cat_Cons
    by (intro needs_seq_then [OF forward_chars [of "(=)" "''eyJ''", folded m_lit_def]] needs_seq_then [OF forward_plus]
      needs_seq_first dot)
  moreover have "forward (m_cat [])"
    by (rule forward_cat) simp
  ultimately show "matches (m_cat []) ?r (b, w) = []"
    by (intro no_match_rest_needs [OF _ _ no_dot])
qed

lemma redact_opaque_head:
  assumes "list_all is_alnum v" and "length v < 40"
  shows "redact_opaque (auth_head @ v) = auth_head @ v"
  unfolding redact_opaque_def
proof (rule re_sub_none)
  fix b w
  let ?f = "in_chars ''_+/=-''"
  assume "suffix w (auth_head @ v)"
  then have "length (takeWhile ?f w) < 40"
  proof (cases rule: suffix_head)
    case 1
    then have "length w < 40"
      using assms(2) suffix_length_le by fastforce
    then show ?thesis
      using length_takeWhile_le [of ?f w] by linarith
  next
    case (2 h)
    have "last auth_head = CHR '' ''" "length auth_head = 26"
      by (simp_all add: auth_head_def)
    moreover obtain zs where "auth_head = zs @ h"
      using 2(2) by (auto simp: suffix_def)
    ultimately have "last h = CHR '' ''" "length h \<le> 26"
      using 2(1) by (metis last_append) (metis \<open>length auth_head = 26\<close> 2(2) suffix_length_le)
    moreover have "\<not> ?f (CHR '' '')"
      by (simp add: in_chars_def is_alnum_def is_digit_def is_lower_def is_upper_def)
    ultimately have "takeWhile ?f (h @ v) = takeWhile ?f h"
      using takeWhile_append1 [OF last_in_set [OF 2(1)], of ?f v] by simp
    then show ?thesis
      using length_takeWhile_le [of ?f h] \<open>length h \<le> 26\<close> 2(3) by simp
  qed
  then show "matches (m_cat []) (m_cat [m_boundary, m_least 40 ?f, m_boundary]) (b, w) = []"
    by (simp add: matches_def m_cat_Cons m_seq_def m_boundary_def least_Nil)
qed

text \<open>What the redaction lets through: of a basic authorization header it replaces the scheme's name
  and leaves the credentials, if they are letters and digits and shorter than 40 characters. The
  first pattern takes the scheme for the value of the key, and the second no longer finds it.\<close>

theorem basic_credentials_survive:
  assumes "list_all is_alnum v" and "length v < 40"
  shows "redact (''Authorization: Basic '' @ v) = ''Authorization: [redacted] '' @ v"
  using assms
  by (simp only: redact_def redact_keys_basic redact_auth_head redact_jwt_head redact_opaque_head) (simp add: auth_head_def)

theorem basic_credentials_survive_witness:
  "redact (''Authorization: Basic '' @ ''dXNlcjpwYXNz'') = ''Authorization: [redacted] '' @ ''dXNlcjpwYXNz''"
  by (rule basic_credentials_survive) code_simp+

end
