(* ===== verification/ContainerLogs.thy ===== *)
theory ContainerLogs
  imports Redact Regex TtlCache PyConv
begin

text \<open>
  \<open>compose/aws/home-mcp/logs.py\<close>: recent log lines of one container, from Loki. The set of known
  containers is a sorted list. Sending and parsing are those of \<open>Http\<close>; the clock is the wall
  clock of a call.
\<close>

section \<open>Containers\<close>

definition containers :: "string list" where
  "containers =
    [''authentik-server'', ''authentik-worker'', ''traefik'', ''home-mcp'', ''postgres'', ''postgres-backup'',
     ''grafana'', ''uptime-kuma'', ''umami'', ''prometheus'', ''loki'', ''alloy'', ''redis'', ''cost-exporter'',
     ''rachio-exporter'', ''todo-app'', ''hue'', ''cadvisor'', ''node-exporter'', ''snmp-exporter'',
     ''postgres-exporter'', ''redis-exporter'']"

definition container_aliases :: "string dict" where
  "container_aliases =
    [(''authentik'', ''authentik-server''), (''auth'', ''authentik-server''), (''outpost'', ''authentik-server''),
     (''mcp'', ''home-mcp''), (''home platform'', ''home-mcp''), (''kuma'', ''uptime-kuma''), (''status'', ''uptime-kuma''),
     (''analytics'', ''umami''), (''todo'', ''todo-app''), (''backup'', ''postgres-backup'')]"

definition small_alnum :: "char \<Rightarrow> bool" where
  "small_alnum c \<longleftrightarrow> is_lower c \<or> is_digit c"

definition preview_container :: rx where
  "preview_container =
     cats [plus (Cls (\<lambda>c. small_alnum c \<or> c = CHR ''-'')), lit ''-pr'', plus (Cls is_digit),
       opt (cats [lit ''-'', plus (Cls (\<lambda>c. small_alnum c \<or> c = CHR ''_'' \<or> c = CHR ''-'')), lit ''-'', plus (Cls is_digit)])]"

definition container_name :: rx where
  "container_name =
     Cat (Cls small_alnum) (upto 63 (Cls (\<lambda>c. small_alnum c \<or> c = CHR ''_'' \<or> c = CHR ''.'' \<or> c = CHR ''-'')))"

definition loki_url :: string where
  "loki_url = ''http://loki:3100''"

definition known_cache_seconds :: rat where
  "known_cache_seconds = 300"

type_synonym known_cell = "rat \<times> string list"

definition known_look :: "known_cell \<Rightarrow> unit \<Rightarrow> rat \<Rightarrow> string list option" where
  "known_look c u t = (if t - fst c < known_cache_seconds \<and> snd c \<noteq> [] then Some (snd c) else None)"

definition known_put :: "known_cell \<Rightarrow> unit \<Rightarrow> rat \<Rightarrow> string list \<Rightarrow> known_cell" where
  "known_put c u t v = (t, v)"

interpretation known_containers: ttl_cell known_look known_put "\<lambda>a. a < known_cache_seconds" "\<lambda>v. v \<noteq> []"
  by unfold_locales (auto simp: known_look_def known_put_def)

record logs = net +
  known :: known_cell

definition max_minutes :: int where
  "max_minutes = 1440"

definition now_ns :: "http_env \<Rightarrow> int" where
  "now_ns e = trunc (wall e * 1000000000)"

definition minute_ns :: int where
  "minute_ns = 60 * 1000000000"

text \<open>A label value counts if it is a plain container name; \<open>fullmatch\<close> of something else than a text raises.\<close>

definition name_in :: "json \<Rightarrow> py_exn + string option" where
  "name_in j = (case j of
      JStr s \<Rightarrow> Inr (if full_match container_name s then Some s else None)
    | _ \<Rightarrow> Inl (PyError ''TypeError''))"

definition listed_names :: "json \<Rightarrow> py_exn + string list" where
  "listed_names j =
     bindR (get_of (JList []) ''data'' j) (\<lambda>d. bindR (iter_of d) (\<lambda>l.
     bindR (mapR name_in l) (\<lambda>ns. Inr (map the (filter (\<lambda>n. n \<noteq> None) ns)))))"

definition ask_loki :: "(logs, string list) web" where
  "ask_loki =
     bind (ask id) (\<lambda>e.
     bind (get_json (loki_url @ ''/loki/api/v1/label/container/values'')
       [(''start'', JInt (now_ns e - max_minutes * minute_ns)), (''end'', JInt (now_ns e))]) (\<lambda>j.
     bind (liftR (listed_names j)) (\<lambda>ns.
     let names = sorted_set (containers @ ns) in
     andthen (modify (\<lambda>w. w\<lparr>known := known_put (known w) () (mono e) names\<rparr>)) (ret names))))"

definition is_value_error :: "py_exn \<Rightarrow> bool" where
  "is_value_error x \<longleftrightarrow> is_http x \<or> x \<in> {PyError ''JSONDecodeError'', PyError ''ValueError''}"

definition known_names :: "(logs, string list) web" where
  "known_names =
     (\<lambda>e w. case known_look (known w) () (mono e) of
        Some ns \<Rightarrow> (Inr ns, w)
      | None \<Rightarrow> try_catch ask_loki (\<lambda>x. if is_value_error x then ret (sorted_set containers) else raise x) e w)"

definition resolve :: "string \<Rightarrow> (logs, string option \<times> string list) web" where
  "resolve container =
     (let c0 = lower (strip container); c = get_or c0 c0 container_aliases in
      bind known_names (\<lambda>ns.
      ret (if c \<in> set ns \<or> full_match preview_container c then Some c else None, ns)))"

section \<open>The query\<close>

definition breaks_out :: "char \<Rightarrow> bool" where
  "breaks_out c \<longleftrightarrow> c = CHR 0x5C \<or> c = CHR 0x22 \<or> c = CHR 0x60"

definition needle_of :: "string \<Rightarrow> string" where
  "needle_of contains = take 80 (filter (\<lambda>c. \<not> breaks_out c) contains)"

definition metachars :: string where
  "metachars = ''.^$*+?()[]{}|'' @ [CHR 0x5C]"

definition escape :: "string \<Rightarrow> string" where
  "escape s = concat (map (\<lambda>c. if c \<in> set metachars then [CHR 0x5C, c] else [c]) s)"

definition log_query :: "string \<Rightarrow> string \<Rightarrow> string" where
  "log_query name needle =
     ''{container='' @ [CHR 0x22] @ name @ [CHR 0x22] @ ''}'' @
     (if needle \<noteq> [] then '' |~ '' @ [CHR 0x60] @ ''(?i)'' @ escape needle @ [CHR 0x60] else [])"

section \<open>The lines\<close>

definition max_lines :: nat where
  "max_lines = 40"

definition max_line_chars :: nat where
  "max_line_chars = 400"

definition or_else :: "json \<Rightarrow> json \<Rightarrow> json" where
  "or_else a b = (if truthy a then a else b)"

definition log_fields :: "string list" where
  "log_fields = [''level'', ''lvl'', ''event'', ''msg'', ''message'', ''timestamp'', ''time'', ''ts'', ''logger'', ''pid'']"

definition is_plain :: "json \<Rightarrow> bool" where
  "is_plain j = (case j of JStr _ \<Rightarrow> True | JInt _ \<Rightarrow> True | JFloat _ \<Rightarrow> True | JBool _ \<Rightarrow> True | _ \<Rightarrow> False)"

definition json_line :: "json dict \<Rightarrow> string" where
  "json_line d =
     (let level = or_else (jget ''level'' d) (or_else (jget ''lvl'' d) (JStr []));
          msg = or_else (jget ''event'' d) (or_else (jget ''msg'' d) (or_else (jget ''message'' d) (JStr [])));
          extra = filter (\<lambda>(k, v). k \<notin> set log_fields \<and> is_plain v) d
      in join '' '' (map py_str (filter truthy [level, msg])) @
         (if extra \<noteq> [] then '' '' @ dumps (JObj extra) else []))"

definition clip :: "string \<Rightarrow> string" where
  "clip s = (if length s \<le> max_line_chars then s else take max_line_chars s @ ''...'')"

definition shorten :: "(string \<Rightarrow> json option) \<Rightarrow> json \<Rightarrow> py_exn + string" where
  "shorten parse raw =
     (case raw of
        JStr s \<Rightarrow> Inr (clip (redact (case parse s of Some (JObj d) \<Rightarrow> json_line d | _ \<Rightarrow> s)))
      | _ \<Rightarrow> Inl (PyError ''TypeError''))"

text \<open>\<open>time.strftime("%H:%M:%S", time.gmtime(ns / 1e9))\<close>, with an exact division in place of the float.\<close>

definition clock_text :: "int \<Rightarrow> string" where
  "clock_text ns =
     (let s = nat (ns div 1000000000 mod 86400) in
      zfill 2 (s div 3600) @ '':'' @ zfill 2 (s div 60 mod 60) @ '':'' @ zfill 2 (s mod 60))"

text \<open>The entries of all streams, each with the time \<open>int(e[0])\<close> by which it is sorted.\<close>

definition entries_in :: "json \<Rightarrow> py_exn + json list" where
  "entries_in j =
     bindR (get_of (JObj []) ''data'' j) (\<lambda>d. bindR (get_of (JList []) ''result'' d) (\<lambda>r. bindR (iter_of r) (\<lambda>streams.
     bindR (mapR (\<lambda>s. bindR (get_of (JList []) ''values'' s) iter_of) streams) (\<lambda>vs.
     Inr (concat vs)))))"

definition stamped :: "json \<Rightarrow> py_exn + int \<times> json" where
  "stamped e = bindR (at_index 0 e) (\<lambda>x. bindR (to_int x) (\<lambda>t. Inr (t, e)))"

definition line_of :: "(string \<Rightarrow> json option) \<Rightarrow> int \<times> json \<Rightarrow> py_exn + string" where
  "line_of parse entry =
     bindR (iter_of (snd entry)) (\<lambda>items.
     case items of
       [ts, raw] \<Rightarrow> bindR (shorten parse raw) (\<lambda>s. Inr (clock_text (fst entry) @ ''Z '' @ s))
     | _ \<Rightarrow> Inl (PyError ''ValueError''))"

section \<open>The tool\<close>

definition quoted :: "string \<Rightarrow> string" where
  "quoted needle = (if needle \<noteq> [] then '' matching '' @ [CHR 0x27] @ needle @ [CHR 0x27] else [])"

definition bounded_minutes :: "int \<Rightarrow> int" where
  "bounded_minutes m = max 1 (min (if m = 0 then 30 else m) max_minutes)"

definition shown_lines :: "(string \<Rightarrow> json option) \<Rightarrow> json list \<Rightarrow> py_exn + string list" where
  "shown_lines parse entries =
     bindR (mapR stamped entries) (\<lambda>es. mapR (line_of parse) (last_n max_lines (sort_key fst es)))"

definition log_report :: "string \<Rightarrow> string \<Rightarrow> int \<Rightarrow> string list \<Rightarrow> string" where
  "log_report name needle minutes lines =
     str_of_nat (length lines) @ '' '' @ name @ '' log line'' @ plural (length lines) @ quoted needle @
     '' from the last '' @ str_of_int minutes @ '' minutes (secrets redacted):'' @ [newline] @ join [newline] lines"

definition no_container :: "string list \<Rightarrow> string" where
  "no_container ns =
     ''I can read logs for: '' @ join '', '' (filter (\<lambda>n. \<not> full_match preview_container n) ns) @
     '', and preview containers like todo-app-pr7-app-1.''"

definition query_params :: "string \<Rightarrow> string \<Rightarrow> int \<Rightarrow> int \<Rightarrow> json dict" where
  "query_params name needle minutes end_ns =
     [(''query'', JStr (log_query name needle)), (''start'', JInt (end_ns - minutes * minute_ns)), (''end'', JInt end_ns),
      (''limit'', JInt (int max_lines)), (''direction'', JStr ''backward'')]"

definition recent_logs :: "string \<Rightarrow> int \<Rightarrow> string \<Rightarrow> (logs, string) web" where
  "recent_logs container m contains =
     bind (resolve container) (\<lambda>(found, ns).
     case found of
       None \<Rightarrow> ret (no_container ns)
     | Some name \<Rightarrow>
         let minutes = bounded_minutes m; needle = needle_of contains in
         bind (ask id) (\<lambda>e.
         bind (outcome (get_ok (loki_url @ ''/loki/api/v1/query_range'') (query_params name needle minutes (now_ns e)))) (\<lambda>r.
         case r of
           Inl x \<Rightarrow> (if is_http x then ret (''I couldn't read logs from Loki ('' @ exn_name x @ '').'') else raise x)
         | Inr resp \<Rightarrow>
             bind (json_of resp) (\<lambda>j.
             bind (liftR (entries_in j)) (\<lambda>entries.
             if entries = [] then
               ret (''No '' @ name @ '' log lines'' @ quoted needle @ '' in the last '' @ str_of_int minutes @ '' minutes.'')
             else
               bind (liftR (shown_lines (loads e) entries)) (\<lambda>lines.
               ret (log_report name needle minutes lines)))))))"


section \<open>Only plain queries\<close>

definition name_char :: "char \<Rightarrow> bool" where
  "name_char c \<longleftrightarrow> small_alnum c \<or> c \<in> {CHR ''_'', CHR ''.'', CHR ''-''}"

lemma preview_chars: "full_match preview_container s \<Longrightarrow> list_all name_char s"
proof -
  have "may_use preview_container c \<Longrightarrow> name_char c" for c
    by (auto simp: preview_container_def plus_def opt_def chr_def name_char_def small_alnum_def is_lower_def)
  then show "full_match preview_container s \<Longrightarrow> ?thesis"
    by (auto simp: list_all_iff dest: full_match_may_use)
qed

lemma container_name_chars: "full_match container_name s \<Longrightarrow> list_all name_char s"
proof -
  have "may_use container_name c \<Longrightarrow> name_char c" for c
    by (auto simp: container_name_def name_char_def dest: may_use_upto)
  then show "full_match container_name s \<Longrightarrow> ?thesis"
    by (auto simp: list_all_iff dest: full_match_may_use)
qed

definition plain_name :: "string \<Rightarrow> bool" where
  "plain_name n \<longleftrightarrow> n \<noteq> [] \<and> list_all name_char n"

lemma preview_plain: "full_match preview_container s \<Longrightarrow> plain_name s"
  using preview_chars [of s] by (cases s) (auto simp: plain_name_def preview_container_def plus_def)

lemma container_name_plain: "full_match container_name s \<Longrightarrow> plain_name s"
  using container_name_chars [of s] by (cases s) (auto simp: plain_name_def container_name_def)

lemma containers_plain: "list_all plain_name containers"
  by (simp add: containers_def plain_name_def name_char_def small_alnum_def is_lower_def is_digit_def)

definition plain_names :: "string list \<Rightarrow> bool" where
  "plain_names ns \<longleftrightarrow> list_all plain_name ns"

lemma plain_sorted_set: "plain_names ns \<Longrightarrow> plain_names (sorted_set (containers @ ns))" "plain_names (sorted_set containers)"
  using containers_plain by (auto simp: plain_names_def list_all_iff)

lemma listed_names_plain: "listed_names j = Inr ns \<Longrightarrow> plain_names ns"
proof -
  assume "listed_names j = Inr ns"
  then obtain l os where os: "mapR name_in l = Inr os" "ns = map the (filter (\<lambda>n. n \<noteq> None) os)"
    by (auto simp: listed_names_def bindR_Inr)
  have "\<forall>n\<in>set os. \<forall>s. n = Some s \<longrightarrow> full_match container_name s"
    using os(1)
    by (induction l arbitrary: os) (auto simp: bindR_Inr name_in_def split: json.splits if_splits)
  then have "plain_name s" if "Some s \<in> set os" for s
    using that container_name_plain by blast
  then show ?thesis
    by (auto simp: os(2) plain_names_def list_all_iff)
qed

text \<open>How Loki reads a pattern (RE2): the text that is the only one it matches, or \<open>None\<close> for a pattern with an
  operator or a class in it. A backslash takes the operator after it for itself; before a letter it would begin a class.\<close>

definition re2_operators :: string where
  "re2_operators = [CHR 0x5C, CHR ''|'', CHR ''('', CHR '')'', CHR ''['', CHR '']'', CHR ''{'', CHR ''}'', CHR ''^'', CHR ''$'',
     CHR ''*'', CHR ''+'', CHR ''?'', CHR ''.'']"

fun literal_pattern :: "string \<Rightarrow> string option" where
  "literal_pattern [] = Some []"
| "literal_pattern (c # s) =
     (if c = CHR 0x5C
      then (case s of [] \<Rightarrow> None | d # s' \<Rightarrow> if d \<in> set re2_operators then map_option ((#) d) (literal_pattern s') else None)
      else if c \<in> set re2_operators then None
      else map_option ((#) c) (literal_pattern s))"

lemma escape_literal: "literal_pattern (escape s) = Some s"
proof (induction s)
  case (Cons c s)
  have "set metachars = set re2_operators" "CHR 0x5C \<in> set re2_operators"
    by (auto simp: metachars_def re2_operators_def)
  with Cons show ?case
    by (auto simp: escape_def)
qed (simp add: escape_def)

text \<open>The text that a caller may look for: what was passed, without backslashes, quotes and backticks, the first 80
  characters of it.\<close>

definition searched :: "string \<Rightarrow> string" where
  "searched contains = take 80 (filter (\<lambda>c. c \<notin> {CHR 0x5C, CHR 0x22, CHR 0x60}) contains)"

lemma needle_searched: "needle_of contains = searched contains"
  by (simp add: needle_of_def searched_def breaks_out_def)

text \<open>What may be asked of Loki: the names of its containers, or the lines of one container of a plain name from a
  day at most, the last 40 of them. Either all lines are asked for, or, behind the container, those that match a
  pattern in backticks: it holds no backtick itself, and after the flag for either case matches nothing but the text
  that is looked for.\<close>

definition plain_query :: "string \<Rightarrow> string \<Rightarrow> bool" where
  "plain_query contains q \<longleftrightarrow>
     (\<exists>name. plain_name name \<and>
        (if searched contains = [] then q = ''{container='' @ [CHR 0x22] @ name @ [CHR 0x22] @ ''}''
         else \<exists>pattern. q = ''{container='' @ [CHR 0x22] @ name @ [CHR 0x22] @ ''} |~ '' @ [CHR 0x60] @ ''(?i)'' @ pattern @ [CHR 0x60] \<and>
           CHR 0x60 \<notin> set pattern \<and> literal_pattern pattern = Some (searched contains)))"

definition loki_request :: "string \<Rightarrow> request \<Rightarrow> bool" where
  "loki_request contains q \<longleftrightarrow> is_read q \<and>
     (req_url q = loki_url @ ''/loki/api/v1/label/container/values'' \<or>
      req_url q = loki_url @ ''/loki/api/v1/query_range'' \<and>
      (\<exists>s. jget ''query'' (req_params q) = JStr s \<and> plain_query contains s) \<and> jget ''limit'' (req_params q) = JInt 40 \<and>
      (\<exists>a b. jget ''start'' (req_params q) = JInt a \<and> jget ''end'' (req_params q) = JInt b \<and>
        0 < b - a \<and> b - a \<le> 24 * 3600 * 1000000000))"

definition logs_ok :: "string \<Rightarrow> request list \<Rightarrow> logs \<Rightarrow> bool" where
  "logs_ok contains s w \<longleftrightarrow> extends (loki_request contains) s (sent w) \<and> plain_names (snd (known w))"

lemma keeps_logs_get:
  "loki_request contains (Request ''GET'' url params None None) \<Longrightarrow> keeps (logs_ok contains s) (get_ok url params) e"
  unfolding get_ok_def get_def
  by (intro keeps_bind keeps_andthen keeps_web keeps_pure) (simp add: keeps_def logs_ok_def send_def extends_snoc)

lemma keeps_ask_loki: "keeps (logs_ok contains s) ask_loki e"
proof -
  have "keeps (logs_ok contains s) (get_json (loki_url @ ''/loki/api/v1/label/container/values'') ps) e" for ps
    unfolding get_json_def by (intro keeps_bind keeps_logs_get keeps_web) (simp add: loki_request_def)
  moreover have "keeps (logs_ok contains s) (modify (\<lambda>w. w\<lparr>known := known_put (known w) () t (sorted_set (containers @ ns))\<rparr>)) e"
    if "plain_names ns" for ns t
    using plain_sorted_set(1) [OF that] by (simp add: keeps_def modify_def logs_ok_def known_put_def)
  ultimately show ?thesis
    unfolding ask_loki_def Let_def
    by (intro keeps_bind keeps_andthen keeps_pure) (auto dest!: returns_pure(3) listed_names_plain)
qed

lemma keeps_known_names: "keeps (logs_ok contains s) known_names e"
proof -
  have "keeps (logs_ok contains s) (try_catch ask_loki (\<lambda>x. if is_value_error x then ret (sorted_set containers) else raise x)) e"
    by (intro keeps_try_catch keeps_ask_loki keeps_if keeps_pure)
  then show ?thesis
    by (auto simp: known_names_def keeps_def split: option.split)
qed


lemma known_names_plain: "returns (logs_ok contains s) known_names e ns \<Longrightarrow> plain_names ns"
proof -
  assume "returns (logs_ok contains s) known_names e ns"
  then obtain w w' where w: "logs_ok contains s w" "known_names e w = (Inr ns, w')"
    by (auto simp: returns_def)
  show ?thesis
  proof (cases "known_look (known w) () (mono e)")
    case (Some v)
    then have "ns = snd (known w)"
      using w(2) by (auto simp: known_names_def known_look_def split: if_splits)
    then show ?thesis using w(1) by (simp add: logs_ok_def)
  next
    case None
    then consider x w1 where "ask_loki e w = (Inl x, w1)" "ns = sorted_set containers" |
        w1 where "ask_loki e w = (Inr ns, w1)"
      using w(2) by (cases "ask_loki e w"; cases "fst (ask_loki e w)")
        (auto simp: known_names_def try_catch_def ret_def raise_def split: if_splits)
    then show ?thesis
    proof cases
      case 2
      then obtain ns0 where "plain_names ns0" "ns = sorted_set (containers @ ns0)"
        by (auto simp: ask_loki_def bind_def ask_def liftR_def andthen_def modify_def ret_def Let_def
            split: prod.splits sum.splits dest!: listed_names_plain)
      then show ?thesis using plain_sorted_set(1) by simp
    qed (use plain_sorted_set(2) in simp)
  qed
qed

lemma keeps_resolve: "keeps (logs_ok contains s) (resolve c) e"
  unfolding resolve_def Let_def by (intro keeps_bind keeps_known_names keeps_pure)

lemma resolve_plain:
  assumes "returns (logs_ok contains s) (resolve c) e (found, ns)" and "found = Some name"
  shows "plain_name name"
proof -
  obtain ns' where ns: "plain_names ns'" and name: "name \<in> set ns' \<or> full_match preview_container name"
    using assms returns_bindD [OF _ keeps_known_names] known_names_plain
    unfolding resolve_def Let_def by (fastforce dest!: returns_pure(2) split: if_splits)
  then show ?thesis
    using preview_plain by (auto simp: plain_names_def list_all_iff)
qed

lemma escape_chars: "c \<in> set (escape s) \<Longrightarrow> c \<in> set s \<or> c = CHR 0x5C"
  by (auto simp: escape_def split: if_splits)

lemma log_query_plain:
  assumes "plain_name name"
  shows "plain_query contains (log_query name (needle_of contains))"
proof (cases "searched contains = []")
  case False
  have "CHR 0x60 \<notin> set (escape (searched contains))"
    using escape_chars [of "CHR 0x60" "searched contains"] by (auto simp: searched_def dest!: in_set_takeD)
  then show ?thesis
    unfolding plain_query_def needle_searched log_query_def using assms False escape_literal
    by (intro exI [of _ name] conjI) auto
qed (use assms in \<open>auto simp: plain_query_def needle_searched log_query_def\<close>)

lemma query_plain:
  assumes "plain_name name"
  shows "loki_request contains (Request ''GET'' (loki_url @ ''/loki/api/v1/query_range'')
    (query_params name (needle_of contains) (bounded_minutes m) t) None None)"
  using log_query_plain [OF assms, of contains]
  by (auto simp: loki_request_def query_params_def max_lines_def bounded_minutes_def max_minutes_def minute_ns_def)

lemma keeps_outcome_get: "loki_request contains (Request ''GET'' url params None None) \<Longrightarrow> keeps (logs_ok contains s) (outcome (get_ok url params)) e"
  by (intro keeps_outcome keeps_logs_get)

text \<open>C26: whatever a caller passes for the container and for the text to look for, and whatever Loki
  answers, what the tool sends is only reads of Loki, and every query selects one container by a plain name over at most
  a day, at most 40 lines, either all of them or those that hold the given text: the pattern in the query cannot end
  the string it stands in, and as Loki reads it, it matches that text, character for character, and no other (but
  for case). The names that are kept for the next call are plain again.\<close>

theorem recent_logs_plain_queries:
  assumes "plain_names (snd (known w))"
  shows "\<exists>qs. sent (snd (recent_logs container m contains e w)) = sent w @ qs \<and> list_all (loki_request contains) qs \<and>
    plain_names (snd (known (snd (recent_logs container m contains e w))))"
proof -
  have "keeps (logs_ok contains (sent w)) (recent_logs container m contains) e"
    unfolding recent_logs_def
  proof (rule keeps_bind [OF keeps_resolve])
    fix r
    assume r: "returns (logs_ok contains (sent w)) (resolve container) e r"
    show "keeps (logs_ok contains (sent w)) (case r of (None, ns) \<Rightarrow> ret (no_container ns) | (Some name, ns) \<Rightarrow>
        let minutes = bounded_minutes m; needle = needle_of contains in
        bind (ask id) (\<lambda>e.
        bind (outcome (get_ok (loki_url @ ''/loki/api/v1/query_range'') (query_params name needle minutes (now_ns e)))) (\<lambda>r.
        case r of
          Inl x \<Rightarrow> (if is_http x then ret (''I couldn't read logs from Loki ('' @ exn_name x @ '').'') else raise x)
        | Inr resp \<Rightarrow>
            bind (json_of resp) (\<lambda>j.
            bind (liftR (entries_in j)) (\<lambda>entries.
            if entries = [] then
              ret (''No '' @ name @ '' log lines'' @ quoted needle @ '' in the last '' @ str_of_int minutes @ '' minutes.'')
            else
              bind (liftR (shown_lines (loads e) entries)) (\<lambda>lines.
              ret (log_report name needle minutes lines))))))) e"
    proof (cases r)
      case (Pair found ns)
      show ?thesis
      proof (cases found)
        case (Some name)
        have "plain_name name"
          using resolve_plain r Pair Some by blast
        then show ?thesis
          unfolding Pair Some Let_def
          by (auto intro!: keeps_bind keeps_outcome_get query_plain keeps_web split: sum.split)
      qed (simp add: Pair)
    qed
  qed
  then have "logs_ok contains (sent w) (snd (recent_logs container m contains e w))"
    by (rule keepsD) (use assms in \<open>simp add: logs_ok_def\<close>)
  then show ?thesis
    by (auto simp: logs_ok_def extends_def)
qed

text \<open>With a text that would match anything if it were taken for a pattern.\<close>

theorem recent_logs_plain_queries_witness:
  "list_all (loki_request ''.*'') (sent (snd (recent_logs ''Kuma'' 0 ''.*''
     \<lparr>answer = (\<lambda>n q. Inl (HTTPX ''ConnectError'')), loads = (\<lambda>_. None), yaml = (\<lambda>_. None), mono = 0, wall = 0\<rparr>
     \<lparr>sent = [], known = (0, [])\<rparr>)))"
proof -
  have "plain_names (snd (known \<lparr>sent = [], known = (0, [])\<rparr>))"
    by (simp add: plain_names_def)
  from recent_logs_plain_queries [OF this, of "''Kuma''" 0 "''.*''"] show ?thesis by auto
qed

end
