(* ===== verification/ContextDocs.thy ===== *)
theory ContextDocs
  imports Json PyNum Http TtlCache
begin

text \<open>
  \<open>compose/aws/home-mcp/context.py\<close>: the project's documents, cut into chunks and searched. A document
  is read line by line; the state of the reading is the chunks so far, the trail of headings and
  the lines since the last heading. Scores are real numbers, as \<open>math.log\<close> is used; they only
  order the hits. Documents come from GitHub; the directory that tests read is left out.
\<close>

section \<open>Words\<close>

definition word_start :: "char \<Rightarrow> bool" where
  "word_start c \<longleftrightarrow> is_lower c \<or> is_digit c"

definition word_char :: "char \<Rightarrow> bool" where
  "word_char c \<longleftrightarrow> word_start c \<or> c = CHR ''_'' \<or> c = CHR ''.'' \<or> c = CHR ''-''"

text \<open>\<open>findall\<close> of \<open>[a-z0-9][a-z0-9_.-]*\<close>, with the word read so far, which is empty between words.\<close>

fun find_words :: "string \<Rightarrow> string \<Rightarrow> string list" where
  "find_words w [] = (if w = [] then [] else [w])"
| "find_words w (c # s) =
     (if w = [] then (if word_start c then find_words [c] s else find_words [] s)
      else if word_char c then find_words (w @ [c]) s
      else w # find_words [] s)"

definition trim_word :: "string \<Rightarrow> string" where
  "trim_word w = strip_if (\<lambda>c. c = CHR ''.'' \<or> c = CHR ''-'') w"

definition tokenize :: "string \<Rightarrow> string list" where
  "tokenize s = filter (\<lambda>w. 1 < length w) (map trim_word (find_words [] (lower s)))"

section \<open>Chunks\<close>

record chunk =
  chunk_path :: string
  chunk_heading :: string
  chunk_text :: string
  chunk_tokens :: "string list"

definition max_chunk :: nat where
  "max_chunk = 2500"

definition max_reply :: nat where
  "max_reply = 6000"

text \<open>\<open>^(#{1,4})\s+(.*)\<close> on a line: the level and the text of a heading.\<close>

definition heading_of :: "string \<Rightarrow> (nat \<times> string) option" where
  "heading_of line =
     (let n = length (takeWhile (\<lambda>c. c = CHR ''#'') line); rest = drop n line in
      if 1 \<le> n \<and> n \<le> 4 \<and> rest \<noteq> [] \<and> is_space (hd rest) then Some (n, strip rest) else None)"

type_synonym trail = "(nat \<times> string) list"

text \<open>Popping to the parent level.\<close>

definition parents :: "nat \<Rightarrow> trail \<Rightarrow> trail" where
  "parents level tr = rev (dropWhile (\<lambda>(l, h). level \<le> l) (rev tr))"

definition breadcrumb :: "string \<Rightarrow> trail \<Rightarrow> string" where
  "breadcrumb path tr =
     (let inner = map snd (filter (\<lambda>(l, h). 1 < l) tr);
          names = (if inner \<noteq> [] then inner else map snd tr);
          text = join '' > '' names
      in if text \<noteq> [] then text else path)"

text \<open>\<open>re.split(r"(?m)^(?=- )", body)\<close>: the body is cut before each line that starts with a dash and a
  space. Given the lines of the piece so far.\<close>

fun bullets :: "string list \<Rightarrow> string list \<Rightarrow> string list" where
  "bullets piece [] = [join [newline] piece]"
| "bullets piece (l # ls) =
     (if prefix ''- '' l then (join [newline] piece) # bullets [l] ls else bullets (piece @ [l]) ls)"

definition pieces_of :: "string \<Rightarrow> string list" where
  "pieces_of body =
     (if max_chunk < length body
      then filter (\<lambda>p. p \<noteq> []) (map strip (bullets [] (split_on newline body)))
      else [body])"

definition flush :: "string \<Rightarrow> trail \<Rightarrow> string list \<Rightarrow> chunk list" where
  "flush path tr buf =
     (let body = strip (join [newline] buf); heading = breadcrumb path tr in
      if body = [] then []
      else map (\<lambda>p. \<lparr>chunk_path = path, chunk_heading = heading, chunk_text = p, chunk_tokens = tokenize (heading @ '' '' @ p)\<rparr>)
             (pieces_of body))"

type_synonym reading = "chunk list \<times> trail \<times> string list"

definition read_line :: "string \<Rightarrow> string \<Rightarrow> reading \<Rightarrow> reading" where
  "read_line path line st = (case st of (out, tr, buf) \<Rightarrow>
     (case heading_of line of
        Some (level, h) \<Rightarrow> (out @ flush path tr buf, parents level tr @ [(level, h)], [])
      | None \<Rightarrow> (out, tr, buf @ [line])))"

definition chunks_of :: "string \<Rightarrow> string \<Rightarrow> chunk list" where
  "chunks_of path text =
     (case fold (read_line path) (split_on newline text) ([], [], []) of (out, tr, buf) \<Rightarrow> out @ flush path tr buf)"

section \<open>Loading\<close>

type_synonym docs = "(string \<times> string) list"

type_synonym docs_cell = "rat \<times> docs \<times> chunk list"

definition cache_seconds :: rat where
  "cache_seconds = 600"

definition docs_look :: "docs_cell \<Rightarrow> unit \<Rightarrow> rat \<Rightarrow> (docs \<times> chunk list) option" where
  "docs_look c u t = (if t - fst c < cache_seconds \<and> fst (snd c) \<noteq> [] then Some (snd c) else None)"

definition docs_put :: "docs_cell \<Rightarrow> unit \<Rightarrow> rat \<Rightarrow> docs \<times> chunk list \<Rightarrow> docs_cell" where
  "docs_put c u t v = (t, v)"

interpretation docs_cache: ttl_cell docs_look docs_put "\<lambda>a. a < cache_seconds" "\<lambda>v. fst v \<noteq> []"
  by unfold_locales (auto simp: docs_look_def docs_put_def)

record context_state = net +
  docs_cell :: docs_cell

definition tree_url :: string where
  "tree_url = ''https://api.github.com/repos/bcalaway/nyc_pa_aws_gitops/git/trees/main?recursive=1''"

definition raw_url :: string where
  "raw_url = ''https://raw.githubusercontent.com/bcalaway/nyc_pa_aws_gitops/main/''"

text \<open>An entry of the tree that is a document.\<close>

definition doc_path :: "json \<Rightarrow> py_exn + string option" where
  "doc_path e =
     bindR (item_of ''type'' e) (\<lambda>t.
     if t \<noteq> JStr ''blob'' then Inr None
     else bindR (item_of ''path'' e) (\<lambda>p.
     case p of
       JStr s \<Rightarrow> Inr (if s = ''CLAUDE.md'' \<or> prefix ''docs/'' s \<and> suffix ''.md'' s then Some s else None)
     | _ \<Rightarrow> Inl (PyError ''AttributeError'')))"

definition doc_paths :: "json \<Rightarrow> py_exn + string list" where
  "doc_paths j =
     bindR (item_of ''tree'' j) (\<lambda>l. bindR (iter_of l) (\<lambda>es. bindR (mapR doc_path es) (\<lambda>ps.
     Inr (map the (filter (\<lambda>p. p \<noteq> None) ps)))))"

definition all_chunks :: "docs \<Rightarrow> chunk list" where
  "all_chunks ds = concat (map (\<lambda>(p, t). chunks_of p (replace [CHR 0x0D, newline] [newline] t)) ds)"

definition load_docs :: "(context_state, docs \<times> chunk list) web" where
  "load_docs =
     (\<lambda>e w. case docs_look (docs_cell w) () (wall e) of
        Some v \<Rightarrow> (Inr v, w)
      | None \<Rightarrow>
          bind (get_json tree_url []) (\<lambda>j.
          bind (liftR (doc_paths j)) (\<lambda>paths.
          bind (mapM (\<lambda>p. get (raw_url @ p) []) paths) (\<lambda>bodies.
          let ds = dict_update [] (map (\<lambda>(p, r). (p, resp_text r)) (filter (\<lambda>(p, r). resp_status r = 200) (zip paths bodies)));
              v = (ds, all_chunks ds)
          in andthen (modify (\<lambda>w. w\<lparr>docs_cell := docs_put (docs_cell w) () (wall e) v\<rparr>)) (ret v)))) e w)"

section \<open>Names of documents\<close>

definition doc_aliases :: "string dict" where
  "doc_aliases =
    [(''roadmap'', ''docs/roadmap.md''), (''archive'', ''docs/roadmap-archive.md''),
     (''roadmap archive'', ''docs/roadmap-archive.md''), (''gotchas'', ''docs/gotchas.md''),
     (''ssm'', ''docs/ssm-parameters.md''), (''secrets'', ''docs/ssm-parameters.md''),
     (''reference'', ''docs/platform-reference.md''), (''platform reference'', ''docs/platform-reference.md''),
     (''topology'', ''docs/platform-reference.md''), (''network'', ''docs/network-inventory.md''),
     (''network inventory'', ''docs/network-inventory.md''), (''hardware'', ''docs/hardware-inventory.md''),
     (''ip plan'', ''docs/ip-plan.md''), (''app platform'', ''docs/app-platform.md''),
     (''new machine'', ''docs/new-machine-setup.md''), (''setup'', ''docs/new-machine-setup.md''),
     (''claude'', ''CLAUDE.md''), (''rules'', ''CLAUDE.md'')]"

text \<open>\<open>adr[\s-]*0*(\d+)\<close>, searched from the left: the number.\<close>

definition adr_here :: "string \<Rightarrow> nat option" where
  "adr_here s =
     (if prefix ''adr'' s then
        (let d = takeWhile is_digit (dropWhile (\<lambda>c. is_space c \<or> c = CHR ''-'') (drop 3 s)) in
         if d \<noteq> [] then Some (nat_of_str d) else None)
      else None)"

fun find_adr :: "string \<Rightarrow> nat option" where
  "find_adr [] = None"
| "find_adr (c # s) = (case adr_here (c # s) of Some n \<Rightarrow> Some n | None \<Rightarrow> find_adr s)"

text \<open>\<open>docs/adr/0*N-\<close> at the start of a path.\<close>

definition is_adr :: "nat \<Rightarrow> string \<Rightarrow> bool" where
  "is_adr n p \<longleftrightarrow> prefix ''docs/adr/'' p \<and>
     (let rest = drop 9 p; zeros = length (takeWhile (\<lambda>c. c = CHR ''0'') rest) in
      list_ex (\<lambda>k. prefix (str_of_nat n @ ''-'') (drop k rest)) [0..<Suc zeros])"

definition resolve_doc :: "docs \<Rightarrow> string \<Rightarrow> string option" where
  "resolve_doc ds name =
     (let n = removesuffix ''.md'' (lower (strip name)); alias = map_of doc_aliases n in
      if alias \<noteq> None \<and> the alias \<in> set (keys ds) then alias
      else case find_adr n of
          Some k \<Rightarrow> find (is_adr k) (keys ds)
        | None \<Rightarrow> find (\<lambda>p. sublist n (lower p)) (keys ds))"

section \<open>Search\<close>

definition doc_freq :: "chunk list \<Rightarrow> string \<Rightarrow> nat" where
  "doc_freq cs t = length (filter (\<lambda>c. t \<in> set (chunk_tokens c)) cs)"

definition avg_length :: "chunk list \<Rightarrow> real" where
  "avg_length cs = real (sum_list (map (length \<circ> chunk_tokens) cs)) / real (length cs)"

definition term_score :: "chunk list \<Rightarrow> chunk \<Rightarrow> string \<Rightarrow> real" where
  "term_score cs c t =
     (let tf = real (count_list (chunk_tokens c) t); n = real (length cs); df = real (doc_freq cs t);
          idf = ln (1 + (n - df + 1 / 2) / (df + 1 / 2))
      in if tf = 0 then 0
         else idf * tf * (11 / 5) / (tf + (6 / 5) * (1 / 4 + (3 / 4) * real (length (chunk_tokens c)) / avg_length cs)))"

definition score :: "chunk list \<Rightarrow> string list \<Rightarrow> chunk \<Rightarrow> real" where
  "score cs q c = sum_list (map (term_score cs c) q)"

text \<open>The chunks with a score, the best first.\<close>

definition bm25 :: "chunk list \<Rightarrow> string \<Rightarrow> (real \<times> chunk) list" where
  "bm25 cs query =
     (let q = tokenize query in
      if q = [] \<or> cs = [] then []
      else sort_key (\<lambda>x. - fst x) (filter (\<lambda>x. fst x \<noteq> 0) (map (\<lambda>c. (score cs q c, c)) cs)))"

definition search_hits :: "chunk list \<Rightarrow> string \<Rightarrow> int \<Rightarrow> chunk list" where
  "search_hits cs query limit = map snd (take (nat (max 1 (min limit 5))) (bm25 cs query))"

definition excerpt :: "nat \<Rightarrow> chunk \<Rightarrow> string" where
  "excerpt per c = ''['' @ chunk_path c @ '' > '' @ chunk_heading c @ '']'' @ [newline] @ take per (chunk_text c)"

definition hits_text :: "string \<Rightarrow> chunk list \<Rightarrow> string" where
  "hits_text query hits =
     (if hits = [] then ''Nothing in the project docs matches '' @ repr_str query @ ''.''
      else join ([newline, newline] @ ''---'' @ [newline, newline]) (map (excerpt (max_reply div length hits)) hits))"

definition search_context :: "string \<Rightarrow> int \<Rightarrow> (context_state, string) web" where
  "search_context query limit = bind load_docs (\<lambda>(ds, cs). ret (hits_text query (search_hits cs query limit)))"

section \<open>Reading\<close>

definition second_names :: "string list" where
  "second_names = [''secrets'', ''topology'', ''rules'', ''setup'', ''roadmap archive'', ''platform reference'', ''network inventory'']"

definition doc_list :: "docs \<Rightarrow> string" where
  "doc_list ds =
     (let names = sorted_set (filter (\<lambda>n. n \<notin> set second_names) (keys doc_aliases));
          adrs = sort (map (\<lambda>p. removesuffix ''.md'' (last (split_on (CHR ''/'') p))) (filter (prefix ''docs/adr/'') (keys ds)))
      in ''Docs: '' @ join '', '' names @ ''. ADRs: '' @ join '', '' adrs @ ''.'')"

definition matching :: "chunk list \<Rightarrow> string \<Rightarrow> chunk list" where
  "matching mine section =
     (let m = filter (\<lambda>c. sublist (lower section) (lower (chunk_heading c))) mine in
      if m \<noteq> [] then m else map snd (take 2 (bm25 mine section)))"

definition section_text :: "string \<Rightarrow> chunk list \<Rightarrow> string \<Rightarrow> string" where
  "section_text path mine section =
     (case matching mine section of
        [] \<Rightarrow> ''No section like '' @ repr_str section @ '' in '' @ path @ ''.''
      | c # cs \<Rightarrow> ''['' @ path @ '' > '' @ chunk_heading c @ '']'' @ [newline] @
          take max_reply (join [newline, newline] (map chunk_text (c # cs))))"

fun first_seen :: "'a list \<Rightarrow> 'a list \<Rightarrow> 'a list" where
  "first_seen seen [] = seen"
| "first_seen seen (x # xs) = first_seen (if x \<in> set seen then seen else seen @ [x]) xs"

definition doc_text :: "string \<Rightarrow> string \<Rightarrow> chunk list \<Rightarrow> string" where
  "doc_text path full mine =
     (if length full \<le> max_reply then ''['' @ path @ '']'' @ [newline] @ full
      else ''['' @ path @ ''] is long ('' @ str_of_nat (length full div 1000) @ '' KB); ask for a section. Sections: '' @
        join ''; '' (take 60 (first_seen [] (map chunk_heading mine))) @
        [newline, newline] @ ''Start of doc:'' @ [newline] @ take 2000 full)"

definition context_text :: "docs \<Rightarrow> chunk list \<Rightarrow> string \<Rightarrow> string \<Rightarrow> string" where
  "context_text ds cs doc section =
     (if doc = [] then doc_list ds
      else case resolve_doc ds doc of
          None \<Rightarrow> ''No doc called '' @ repr_str doc @ ''. Call get_context with no arguments for the list.''
        | Some path \<Rightarrow>
            let mine = filter (\<lambda>c. chunk_path c = path) cs in
            if path = [] then ''No doc called '' @ repr_str doc @ ''. Call get_context with no arguments for the list.''
            else if section \<noteq> [] then section_text path mine section
            else doc_text path (get_or [] path ds) mine)"

definition get_context :: "string \<Rightarrow> string \<Rightarrow> (context_state, string) web" where
  "get_context doc section = bind load_docs (\<lambda>(ds, cs). ret (context_text ds cs doc section))"

section \<open>Nothing of a document is lost\<close>

definition ink :: "string \<Rightarrow> string" where
  "ink s = filter (\<lambda>c. \<not> is_space c) s"

lemma ink_append [simp]: "ink (a @ b) = ink a @ ink b"
  by (simp add: ink_def)

lemma ink_Nil [simp]: "ink [] = []"
  by (simp add: ink_def)

lemma ink_dropWhile: "ink (dropWhile is_space s) = ink s"
  by (induction s) (simp_all add: ink_def)

lemma ink_rev: "ink (rev s) = rev (ink s)"
  by (simp add: ink_def rev_filter)

lemma ink_strip [simp]: "ink (strip s) = ink s"
proof -
  have "ink (rev (dropWhile is_space (rev t))) = ink t" for t
    by (simp add: ink_rev ink_dropWhile)
  then show ?thesis
    by (simp add: strip_def strip_if_def rstrip_if_def lstrip_if_def ink_dropWhile)
qed

lemma ink_newline [simp]: "ink [newline] = []"
  by (simp add: ink_def newline_def is_space_def code_def)

lemma ink_join [simp]: "ink (join [newline] ls) = concat (map ink ls)"
proof -
  have "ink (newline # s) = ink s" for s
    using ink_append [of "[newline]" s] by simp
  then show ?thesis
    by (induction "[newline]" ls rule: join.induct) simp_all
qed

lemma ink_concat: "ink (concat ss) = concat (map ink ss)"
  by (induction ss) simp_all

lemma ink_bullets: "concat (map ink (bullets piece ls)) = concat (map ink piece) @ concat (map ink ls)"
  by (induction piece ls rule: bullets.induct) simp_all

lemma ink_nonempty: "concat (map ink (filter (\<lambda>p. p \<noteq> []) ps)) = concat (map ink ps)"
  by (induction ps) simp_all

lemma ink_pieces: "concat (map ink (pieces_of body)) = ink body"
proof -
  have "concat (map (ink \<circ> strip) qs) = concat (map ink qs)" for qs
    by (induction qs) simp_all
  moreover have "concat (map ink (split_on newline body)) = ink body"
    by (metis ink_join join_split_on)
  ultimately show ?thesis
    by (simp add: pieces_of_def ink_nonempty ink_bullets)
qed

lemma ink_flush: "concat (map (ink \<circ> chunk_text) (flush path tr buf)) = concat (map ink buf)"
proof (cases "strip (join [newline] buf) = []")
  case True
  then have "ink (join [newline] buf) = []"
    by (metis ink_Nil ink_strip)
  then show ?thesis
    using True by (simp add: flush_def)
next
  case False
  then show ?thesis
    using ink_pieces [of "strip (join [newline] buf)"] by (simp add: flush_def Let_def comp_def)
qed

text \<open>The text of a line that is no heading.\<close>

definition body_ink :: "string \<Rightarrow> string" where
  "body_ink line = (if heading_of line = None then ink line else [])"

lemma read_line_cases:
  "heading_of line = None \<Longrightarrow> read_line path line (out, tr, buf) = (out, tr, buf @ [line])"
  "heading_of line = Some (level, h) \<Longrightarrow>
    read_line path line (out, tr, buf) = (out @ flush path tr buf, parents level tr @ [(level, h)], [])"
  by (simp_all add: read_line_def)

lemma ink_fold:
  assumes "fold (read_line path) ls (out, tr, buf) = (out', tr', buf')"
  shows "concat (map (ink \<circ> chunk_text) out') @ concat (map ink buf') =
    concat (map (ink \<circ> chunk_text) out) @ concat (map ink buf) @ concat (map body_ink ls)"
  using assms
proof (induction ls arbitrary: out tr buf)
  case (Cons l ls)
  show ?case
  proof (cases "heading_of l")
    case None
    then show ?thesis
      using Cons by (simp add: read_line_cases body_ink_def)
  next
    case (Some r)
    obtain level h where r: "r = (level, h)" by (cases r)
    have "fold (read_line path) ls (out @ flush path tr buf, parents level tr @ [(level, h)], []) = (out', tr', buf')"
      using Cons.prems Some r by (simp add: read_line_cases)
    from Cons.IH [OF this] show ?thesis
      by (simp add: Some ink_flush [unfolded comp_def] body_ink_def comp_def)
  qed
qed simp

text \<open>C35: cutting a document into chunks loses nothing: read one after the other, the chunks have exactly
  the characters of the lines that are no headings, in order, white space aside, however long the
  document's sections are.\<close>

theorem chunks_keep_text:
  "concat (map (ink \<circ> chunk_text) (chunks_of path text)) = concat (map body_ink (split_on newline text))"
proof -
  obtain out tr buf where run: "fold (read_line path) (split_on newline text) ([], [], []) = (out, tr, buf)"
    by (metis prod_cases3)
  then show ?thesis
    using ink_fold [OF run] by (simp add: chunks_of_def ink_flush)
qed

section \<open>The trail of headings\<close>

definition rising :: "trail \<Rightarrow> bool" where
  "rising tr \<longleftrightarrow> sorted_wrt (<) (map fst tr) \<and> list_all (\<lambda>(l, h). 1 \<le> l \<and> l \<le> 4) tr"

lemma rising_parents: "rising tr \<Longrightarrow> 1 \<le> level \<Longrightarrow> level \<le> 4 \<Longrightarrow> rising (parents level tr @ [(level, h)])"
proof (induction tr rule: rev_induct)
  case (snoc x tr)
  have "rising tr"
    using snoc.prems(1) by (simp add: rising_def sorted_wrt_append)
  show ?case
  proof (cases "level \<le> fst x")
    case True
    then show ?thesis
      using snoc.IH \<open>rising tr\<close> snoc.prems by (simp add: parents_def split_beta)
  next
    case False
    then show ?thesis
      using snoc.prems by (auto simp: parents_def rising_def sorted_wrt_append split_beta)
  qed
qed (simp add: parents_def rising_def)

lemma heading_level: "heading_of line = Some (level, h) \<Longrightarrow> 1 \<le> level \<and> level \<le> 4"
  by (auto simp: heading_of_def Let_def split: if_splits)

lemma rising_fold: "fold (read_line path) ls (out, tr, buf) = (out', tr', buf') \<Longrightarrow> rising tr \<Longrightarrow> rising tr'"
proof (induction ls arbitrary: out tr buf)
  case (Cons l ls)
  show ?case
  proof (cases "heading_of l")
    case (Some r)
    obtain level h where r: "r = (level, h)" by (cases r)
    then have "rising (parents level tr @ [(level, h)])"
      using rising_parents heading_level Some Cons.prems(2) by blast
    then show ?thesis
      using Cons.IH Cons.prems(1) by (simp add: Some r read_line_cases)
  qed (use Cons in \<open>simp add: read_line_cases\<close>)
qed simp

text \<open>Whatever the levels of the headings of a document are, and wherever the reading of it stands, the
  trail of headings is well formed: the levels lie between 1 and 4 and rise strictly, so a
  heading is never listed beside another of its own or a deeper level.\<close>

theorem trail_rising: "rising (fst (snd (fold (read_line path) ls ([], [], []))))"
proof -
  obtain out tr buf where run: "fold (read_line path) ls ([], [], []) = (out, tr, buf)"
    by (metis prod_cases3)
  have "rising []" by (simp add: rising_def)
  then show ?thesis
    using rising_fold [OF run] by (simp add: run)
qed

section \<open>What a search returns\<close>

lemma term_score_zero: "t \<notin> set (chunk_tokens c) \<Longrightarrow> term_score cs c t = 0"
  by (simp add: term_score_def Let_def count_list_0_iff)

lemma score_word: "score cs q c \<noteq> 0 \<Longrightarrow> \<exists>t\<in>set q. t \<in> set (chunk_tokens c)"
proof (rule ccontr)
  assume "score cs q c \<noteq> 0" "\<not> (\<exists>t\<in>set q. t \<in> set (chunk_tokens c))"
  then have "\<forall>t\<in>set q. term_score cs c t = 0"
    using term_score_zero by blast
  then have "score cs q c = 0"
    unfolding score_def by (induction q) auto
  then show False
    using \<open>score cs q c \<noteq> 0\<close> by simp
qed

lemma bm25_hit: "(s, c) \<in> set (bm25 cs query) \<Longrightarrow>
    c \<in> set cs \<and> s = score cs (tokenize query) c \<and> (\<exists>t\<in>set (tokenize query). t \<in> set (chunk_tokens c))"
  by (auto simp: bm25_def Let_def split: if_splits dest!: score_word)

lemma bm25_order: "sorted_wrt (\<ge>) (map fst (bm25 cs query))"
proof -
  have "sorted (map (\<lambda>x. - fst x) (bm25 cs query))"
    by (simp add: bm25_def Let_def)
  then show ?thesis
    by (simp add: sorted_wrt_map)
qed

lemma excerpts_length: "sum_list (map (\<lambda>c. length (take (n div length hits) (chunk_text c))) hits) \<le> n"
proof -
  have "sum_list (map (\<lambda>c. length (take (n div length hits) (chunk_text c))) hits) \<le> length hits * (n div length hits)"
    using sum_list_mono [of hits "\<lambda>c. length (take (n div length hits) (chunk_text c))" "\<lambda>_. n div length hits"]
    by (simp add: sum_list_triv)
  then show ?thesis
    using times_div_less_eq_dividend [of "length hits" n] by linarith
qed

text \<open>What is promised of the hits of a search.\<close>

definition good_hits :: "chunk list \<Rightarrow> string \<Rightarrow> chunk list \<Rightarrow> bool" where
  "good_hits cs query hits \<longleftrightarrow>
     length hits \<le> 5 \<and> set hits \<subseteq> set cs \<and>
     list_all (\<lambda>c. list_ex (\<lambda>t. t \<in> set (chunk_tokens c)) (tokenize query)) hits \<and>
     sorted_wrt (\<lambda>a b. score cs (tokenize query) b \<le> score cs (tokenize query) a) hits \<and>
     sum_list (map (\<lambda>c. length (take (max_reply div length hits) (chunk_text c))) hits) \<le> 6000"

text \<open>A search returns at most five chunks of the documents, each of which has a word of the query, the
  best scored first; the texts it quotes have at most 6000 characters together.\<close>

theorem search_hits_good: "good_hits cs query (search_hits cs query limit)"
proof -
  let ?n = "nat (max 1 (min limit 5))" and ?hits = "search_hits cs query limit"
  have hit: "c \<in> set cs \<and> (\<exists>t\<in>set (tokenize query). t \<in> set (chunk_tokens c))" if "c \<in> set ?hits" for c
  proof -
    have "c \<in> snd ` set (take ?n (bm25 cs query))"
      using that by (simp only: search_hits_def set_map)
    then obtain x where "c = snd x" "x \<in> set (take ?n (bm25 cs query))"
      by (rule imageE)
    then have "(fst x, c) \<in> set (bm25 cs query)"
      using in_set_takeD by fastforce
    then show ?thesis
      using bm25_hit by blast
  qed
  have "map fst (bm25 cs query) = map (score cs (tokenize query)) (map snd (bm25 cs query))"
    using bm25_hit by (auto simp: map_eq_conv)
  then have "sorted_wrt (\<ge>) (map (score cs (tokenize query)) (map snd (bm25 cs query)))"
    using bm25_order by metis
  then have "sorted_wrt (\<ge>) (take ?n (map (score cs (tokenize query)) (map snd (bm25 cs query))))"
    by (rule sorted_wrt_take)
  then have "sorted_wrt (\<lambda>a b. score cs (tokenize query) b \<le> score cs (tokenize query) a) ?hits"
    by (simp add: search_hits_def take_map sorted_wrt_map)
  moreover have "length ?hits \<le> 5"
    by (auto simp: search_hits_def)
  moreover have "sum_list (map (\<lambda>c. length (take (max_reply div length ?hits) (chunk_text c))) ?hits) \<le> 6000"
    using excerpts_length [of max_reply ?hits] by (simp add: max_reply_def)
  ultimately show ?thesis
    using hit by (auto simp: good_hits_def list_all_iff list_ex_iff)
qed

end
