(* ===== verification/Auth.thy ===== *)
theory Auth
  imports PyConv
begin

text \<open>
  \<open>compose/aws/home-mcp/auth.py\<close>: the check of a bearer token. PyJWT, which fetches the signing key
  and decodes the token, is a parameter: \<open>jwt_decode\<close> takes the token, the audience and the issuer
  and gives the claims, the text of a \<open>PyJWTError\<close>, or any other exception. Warnings are recorded.
\<close>

datatype jwt_answer = Claims "json dict" | JwtError string | OtherError py_exn

record verifier =
  jwt_decode :: "string \<Rightarrow> string \<Rightarrow> string \<Rightarrow> jwt_answer"
  issuer :: string
  client_id :: string
  allowed_usernames :: "string list"
  verify_time :: rat

record access =
  acc_token :: string
  acc_client :: json
  acc_scopes :: "json list"
  acc_expires :: int
  acc_subject :: json
  acc_claims :: "json dict"

type_synonym 'a verify = "(verifier, string list, py_exn, 'a) io"

definition warn :: "string \<Rightarrow> unit verify" where
  "warn line = modify (\<lambda>w. w @ [line])"

text \<open>\<open>x in s\<close> for a set \<open>s\<close> of texts: a list or a dictionary has no hash.\<close>

definition in_texts :: "json \<Rightarrow> string list \<Rightarrow> py_exn + bool" where
  "in_texts j s = (case j of
      JStr t \<Rightarrow> Inr (t \<in> set s)
    | JList _ \<Rightarrow> Inl (PyError ''TypeError'')
    | JObj _ \<Rightarrow> Inl (PyError ''TypeError'')
    | _ \<Rightarrow> Inr False)"

definition scopes_of :: "json \<Rightarrow> py_exn + json list" where
  "scopes_of j = (case j of JStr s \<Rightarrow> Inr (map JStr (split_ws s)) | _ \<Rightarrow> iter_of j)"

definition access_of :: "verifier \<Rightarrow> string \<Rightarrow> json \<Rightarrow> json dict \<Rightarrow> py_exn + access" where
  "access_of v token username claims =
     bindR (scopes_of (get_or (JStr []) ''scope'' claims)) (\<lambda>scopes.
     bindR (item_of ''exp'' (JObj claims)) (\<lambda>x.
     bindR (to_int x) (\<lambda>expires.
     bindR (item_of ''sub'' (JObj claims)) (\<lambda>sub.
     bindR (item_of ''iss'' (JObj claims)) (\<lambda>iss.
     Inr \<lparr>acc_token = token, acc_client = get_or (JStr (client_id v)) ''azp'' claims, acc_scopes = scopes,
       acc_expires = expires, acc_subject = sub,
       acc_claims = [(''iss'', iss), (''preferred_username'', username), (''verified_at'', JInt (trunc (verify_time v)))]\<rparr>)))))"

definition verify_token :: "string \<Rightarrow> access option verify" where
  "verify_token token =
     bind (ask id) (\<lambda>v.
     case jwt_decode v token (client_id v) (issuer v) of
       OtherError x \<Rightarrow> raise x
     | JwtError m \<Rightarrow> andthen (warn (''rejected token: '' @ m)) (ret None)
     | Claims claims \<Rightarrow>
         let username = jget ''preferred_username'' claims in
         bind (liftR (in_texts username (allowed_usernames v))) (\<lambda>ok.
         if \<not> ok then andthen (warn (''rejected token for user '' @ repr username @ '' (not allowed)'')) (ret None)
         else bind (liftR (access_of v token username claims)) (\<lambda>a. ret (Some a))))"

text \<open>The user whom a token admits.\<close>

definition admits :: "verifier \<Rightarrow> string \<Rightarrow> string \<Rightarrow> bool" where
  "admits v token user \<longleftrightarrow> user \<in> set (allowed_usernames v) \<and>
     (\<exists>claims. jwt_decode v token (client_id v) (issuer v) = Claims claims \<and>
       jget ''preferred_username'' claims = JStr user)"

lemma in_texts_Inr: "in_texts j s = Inr True \<longleftrightarrow> (\<exists>t\<in>set s. j = JStr t)"
  by (auto simp: in_texts_def split: json.splits)

lemma access_of_claims: "access_of v token username claims = Inr a \<Longrightarrow>
    acc_token a = token \<and> jget ''preferred_username'' (acc_claims a) = username"
  by (auto simp: access_of_def bindR_Inr)

text \<open>C39: access is given only to a token that PyJWT accepts for this client and this issuer and whose
  user is one of the allowed ones, and it names that user, whatever else the claims hold.\<close>

theorem token_admitted_user:
  assumes "verify_token token v ws = (Inr (Some a), ws')"
  shows "\<exists>user. admits v token user \<and> acc_token a = token \<and>
    jget ''preferred_username'' (acc_claims a) = JStr user \<and> ws' = ws"
proof -
  obtain claims where claims: "jwt_decode v token (client_id v) (issuer v) = Claims claims"
    and ok: "in_texts (jget ''preferred_username'' claims) (allowed_usernames v) = Inr True"
    and a: "access_of v token (jget ''preferred_username'' claims) claims = Inr a" and ws: "ws' = ws"
    using assms
    by (auto simp: verify_token_def bind_def ask_def liftR_def raise_def ret_def warn_def andthen_def modify_def Let_def
        split: jwt_answer.splits sum.splits prod.splits if_splits)
  then obtain user where "user \<in> set (allowed_usernames v)" "jget ''preferred_username'' claims = JStr user"
    by (auto simp: in_texts_Inr)
  then show ?thesis
    using claims access_of_claims [OF a] ws by (auto simp: admits_def)
qed

text \<open>The verifier of the witness: one token, of an allowed user.\<close>

definition sample_verifier :: verifier where
  "sample_verifier =
     \<lparr>jwt_decode = (\<lambda>token aud iss.
        if token = ''t'' \<and> aud = ''mcp'' \<and> iss = ''auth'' then
          Claims [(''exp'', JInt 9), (''iss'', JStr iss), (''aud'', JStr aud), (''sub'', JStr ''7''),
            (''preferred_username'', JStr ''bill''), (''scope'', JStr ''openid profile'')]
        else JwtError ''Signature verification failed''),
      issuer = ''auth'', client_id = ''mcp'', allowed_usernames = [''bill''], verify_time = 5\<rparr>"

definition sample_access :: access where
  "sample_access =
     \<lparr>acc_token = ''t'', acc_client = JStr ''mcp'', acc_scopes = [JStr ''openid'', JStr ''profile''], acc_expires = 9,
      acc_subject = JStr ''7'',
      acc_claims = [(''iss'', JStr ''auth''), (''preferred_username'', JStr ''bill''), (''verified_at'', JInt 5)]\<rparr>"

lemma sample_token: "verify_token ''t'' sample_verifier [] = (Inr (Some sample_access), [])"
  by code_simp

theorem token_admitted_user_witness:
  "\<exists>user. admits sample_verifier ''t'' user \<and> acc_token sample_access = ''t'' \<and>
    jget ''preferred_username'' (acc_claims sample_access) = JStr user \<and> [] = ([] :: string list)"
  by (rule token_admitted_user [OF sample_token])

end
