(* ===== verification/AuditLog.thy ===== *)
theory AuditLog
  imports Auth
begin

text \<open>
  The audit trail of the MCP server (\<open>audited\<close> in \<open>compose/aws/home-mcp/server.py\<close>) and what
  \<open>compose/aws/home-mcp/security_events.py\<close> counts in it. The wrapper runs a tool and logs one line
  about the call; the queries count log lines that contain given texts. Marks say where such a
  text starts in a line.
\<close>

section \<open>The wrapper\<close>

definition caller :: "access option \<Rightarrow> json" where
  "caller token = (case token of None \<Rightarrow> JNull | Some a \<Rightarrow> jget ''preferred_username'' (acc_claims a))"

definition audit_entry :: "(py_exn \<Rightarrow> string) \<Rightarrow> rat \<Rightarrow> string \<Rightarrow> json dict \<Rightarrow> json \<Rightarrow> py_exn + string \<Rightarrow> json dict" where
  "audit_entry show took tool kwargs user r =
     [(''event'', JStr ''tool_call''), (''tool'', JStr tool), (''args'', JObj kwargs), (''user'', user)] @
     (case r of
        Inr s \<Rightarrow> [(''ok'', JBool True), (''result'', JStr (take 500 s))]
      | Inl x \<Rightarrow> [(''ok'', JBool False), (''error'', JStr (take 500 (show x)))]) @
     [(''ms'', JInt (round_half_even (took * 1000)))]"

text \<open>The format of the log: time, logger, level and message.\<close>

definition log_line :: "string \<Rightarrow> string \<Rightarrow> string" where
  "log_line asctime message = asctime @ '' home-mcp.audit INFO '' @ message"

definition audit_line :: "string \<Rightarrow> (py_exn \<Rightarrow> string) \<Rightarrow> rat \<Rightarrow> string \<Rightarrow> json dict \<Rightarrow> json \<Rightarrow> py_exn + string \<Rightarrow> string" where
  "audit_line stamp show took tool kwargs user r = log_line stamp (dumps (JObj (audit_entry show took tool kwargs user r)))"

text \<open>One call of a tool: its name, arguments and token, when the line is logged, how long it took, and what
  the tool does.\<close>

record 'w tool_call =
  tool_name :: string
  tool_args :: "json dict"
  tool_token :: "access option"
  tool_stamp :: string
  tool_took :: rat
  tool_body :: "('w, string) web"

text \<open>The wrapper: \<open>show\<close> is \<open>repr\<close> of an exception. The state has the log beside the tools' own state. A
  call that raises ends with an answer to the client, and the server goes on with the next one.\<close>

definition audited :: "(py_exn \<Rightarrow> string) \<Rightarrow> 'w tool_call \<Rightarrow> ('w \<times> string list, string) web" where
  "audited show c = (\<lambda>e w.
     case tool_body c e (fst w) of (r, w') \<Rightarrow>
       (r, w', snd w @ [audit_line (tool_stamp c) show (tool_took c) (tool_name c) (tool_args c) (caller (tool_token c)) r]))"

fun serve :: "(py_exn \<Rightarrow> string) \<Rightarrow> http_env \<Rightarrow> 'w tool_call list \<Rightarrow> 'w \<times> string list \<Rightarrow> 'w \<times> string list" where
  "serve show e [] w = w"
| "serve show e (c # cs) w = serve show e cs (snd (audited show c e w))"

section \<open>The counters\<close>

definition tool_call_text :: string where
  "tool_call_text = ''\"event\": \"tool_call\"''"

definition user_text :: "string \<Rightarrow> string" where
  "user_text u = ''\"user\": \"'' @ u @ [CHR 0x22]"

definition counts_call :: "string \<Rightarrow> bool" where
  "counts_call line \<longleftrightarrow> sublist tool_call_text line"

definition counts_other_user :: "string \<Rightarrow> string \<Rightarrow> bool" where
  "counts_other_user u line \<longleftrightarrow> sublist tool_call_text line \<and> \<not> sublist (user_text u) line"

definition counts_failed :: "string \<Rightarrow> bool" where
  "counts_failed line \<longleftrightarrow> sublist tool_call_text line \<and> sublist ''\"ok\": false'' line"

section \<open>Where a text starts\<close>

text \<open>\<open>M\<close> starts at some character of \<open>a\<close>, in a line that goes on with \<open>r\<close> after \<open>a\<close>.\<close>

fun marks :: "string \<Rightarrow> string \<Rightarrow> string \<Rightarrow> bool" where
  "marks M [] r \<longleftrightarrow> False"
| "marks M (c # a) r \<longleftrightarrow> prefix M (c # a @ r) \<or> marks M a r"

lemma sublist_marks: "M \<noteq> [] \<Longrightarrow> sublist M s \<longleftrightarrow> marks M s []"
  by (induction s) (auto simp: sublist_Cons_right)

lemma marks_append: "marks M (a @ b) r \<longleftrightarrow> marks M a (b @ r) \<or> marks M b r"
  by (induction a) auto

lemma marks_no_head: "M \<noteq> [] \<Longrightarrow> hd M \<notin> set a \<Longrightarrow> \<not> marks M a r"
  by (induction a) (auto simp: prefix_Cons)

section \<open>Texts in JSON strings\<close>

text \<open>A text that \<open>json.dumps\<close> prints as it is.\<close>

definition plain :: "string \<Rightarrow> bool" where
  "plain s \<longleftrightarrow> list_all (\<lambda>c. dumps_char c = [c]) s"

abbreviation quote :: char where
  "quote \<equiv> CHR 0x22"

definition escaped :: "string \<Rightarrow> string" where
  "escaped s = concat (map dumps_char s)"

lemma dumps_str_escaped: "dumps_str s = quote # escaped s @ [quote]"
  by (simp add: dumps_str_def escaped_def)

lemma escaped_simps [simp]: "escaped [] = []" "escaped (c # s) = dumps_char c @ escaped s"
  by (simp_all add: escaped_def)

lemma escaped_plain: "plain s \<Longrightarrow> escaped s = s"
  by (induction s) (simp_all add: plain_def)

lemma hex_digits_not_quote: "quote \<noteq> hex_digit (code c div 16)" "quote \<noteq> hex_digit (code c mod 16)"
proof -
  have "hex_digit n \<noteq> quote" if "n < 16" for n
  proof
    assume "hex_digit n = quote"
    then have "of_char (hex_digit n) = (34::nat)" by simp
    then show False using that by (cases "n < 10") (auto simp: hex_digit_def)
  qed
  moreover have "code c < 256"
    by (simp add: code_def nat_of_char_less_256)
  then have "code c div 16 < 16" by (simp add: less_mult_imp_div_less)
  ultimately show "quote \<noteq> hex_digit (code c div 16)" "quote \<noteq> hex_digit (code c mod 16)"
    by (metis, metis mod_less_divisor zero_less_numeral)
qed

lemma dumps_char_cases:
  "dumps_char c = [c] \<and> c \<noteq> quote \<and> c \<noteq> CHR 0x5C \<or>
   (\<exists>d t. dumps_char c = CHR 0x5C # d # t \<and> quote \<notin> set t \<and> (d = quote \<longrightarrow> t = [] \<and> c = quote))"
  using hex_digits_not_quote [of c] by (auto simp: dumps_char_def)

lemma prefix_literal:
  assumes "plain p"
  shows "prefix (p @ quote # X) (escaped s @ quote # r) \<longleftrightarrow> s = p \<and> prefix X r"
  using assms
proof (induction p arbitrary: s)
  case Nil
  then show ?case
    using dumps_char_cases [of "hd s"] by (cases s) auto
next
  case (Cons a p)
  have a: "a \<noteq> quote" "a \<noteq> CHR 0x5C" and p: "plain p"
    using Cons.prems dumps_char_cases [of a] by (auto simp: plain_def)
  show ?case
  proof (cases s)
    case (Cons c s')
    then show ?thesis
      using dumps_char_cases [of c] a Cons.IH [OF p, of s'] Cons.prems by (auto simp: plain_def)
  qed (use a in simp)
qed

lemma marks_escaped:
  assumes "plain p" and "marks (quote # p @ quote # X) (escaped s) (quote # r)"
  shows "prefix X r \<and> quote \<in> set s"
  using assms(2)
proof (induction s)
  case (Cons c s)
  show ?case
  proof (cases "marks (quote # p @ quote # X) (escaped s) (quote # r)")
    case False
    then have c: "marks (quote # p @ quote # X) (dumps_char c) (escaped s @ quote # r)"
      using Cons.prems by (simp add: marks_append)
    then obtain d t where d: "dumps_char c = CHR 0x5C # d # t" "quote \<notin> set t" "d = quote \<longrightarrow> t = [] \<and> c = quote"
      using dumps_char_cases [of c] by auto
    then have "\<not> marks (quote # p @ quote # X) t (escaped s @ quote # r)"
      by (intro marks_no_head) auto
    then have "d = quote" "prefix (p @ quote # X) (t @ escaped s @ quote # r)"
      using c d(1) by auto
    then show ?thesis
      using d(3) prefix_literal [OF assms(1)] by auto
  qed (use Cons.IH in simp)
qed simp

section \<open>Members of objects\<close>

text \<open>The text of a member with a plain text as its value, and where it starts.\<close>

definition member_text :: "string \<Rightarrow> string \<Rightarrow> string" where
  "member_text p u = quote # p @ quote # '': '' @ quote # u @ [quote]"

lemma texts_are_members:
  "tool_call_text = member_text ''event'' ''tool_call''" "user_text u = member_text ''user'' u"
  by (simp_all add: tool_call_text_def user_text_def member_text_def)

definition member_sep :: "char \<Rightarrow> bool" where
  "member_sep c \<longleftrightarrow> c = CHR '','' \<or> c = CHR ''}''"

text \<open>A value without members of its own.\<close>

definition flat :: "json \<Rightarrow> bool" where
  "flat v = (case v of JList _ \<Rightarrow> False | JObj _ \<Rightarrow> False | JFloat r \<Rightarrow> quote \<notin> set r \<and> r \<noteq> [] | _ \<Rightarrow> True)"

lemma str_of_int_no_quote: "quote \<notin> set (str_of_int i) \<and> str_of_int i \<noteq> []"
proof -
  have "quote \<notin> set (str_of_nat n)" for n
    by (auto dest!: str_of_nat_digits simp: is_digit_def code_def)
  then show ?thesis
    by (auto simp: str_of_int_def)
qed

lemma flat_dumps: "flat v \<Longrightarrow> (\<exists>s. v = JStr s) \<or> quote \<notin> set (dumps v) \<and> dumps v \<noteq> []"
  using str_of_int_no_quote by (cases v) (auto simp: flat_def)

lemma marks_dumps_str:
  assumes "plain p" and "p \<noteq> []" and "hd p \<noteq> c"
  shows "marks (quote # p @ quote # X) (dumps_str s) (c # r) \<longleftrightarrow>
    s = p \<and> prefix X (c # r) \<or> marks (quote # p @ quote # X) (escaped s) (quote # c # r)"
  using assms prefix_literal [OF assms(1), of X s "c # r"]
  by (cases p) (auto simp: dumps_str_escaped marks_append)

lemma no_mark_in_value:
  assumes "plain p" and "p \<noteq> []" and "\<not> member_sep (hd p)" and "flat v" and "member_sep c"
  shows "\<not> marks (member_text p u) (dumps v) (c # r)"
proof (cases "\<exists>s. v = JStr s")
  case True
  then obtain s where v: "v = JStr s" ..
  have "\<not> prefix ('': '' @ x) (c # r)" "hd p \<noteq> c" for x
    using assms(3,5) by (auto simp: member_sep_def)
  then show ?thesis
    using marks_dumps_str [OF assms(1,2), of c "'': '' @ quote # u @ [quote]" s r]
      marks_escaped [OF assms(1), of "'': '' @ quote # u @ [quote]" s "c # r"]
    by (auto simp: v member_text_def)
next
  case False
  then show ?thesis
    using flat_dumps [OF assms(4)] by (intro marks_no_head) (auto simp: member_text_def)
qed

lemma value_prefix:
  assumes "plain u" and "flat v \<or> (\<exists>d. v = JObj d)" and "member_sep c"
  shows "prefix (quote # u @ [quote]) (dumps v @ c # r) \<longleftrightarrow> v = JStr u"
proof (cases "\<exists>s. v = JStr s")
  case True
  then show ?thesis
    using prefix_literal [OF assms(1), of "[]"] by (auto simp: dumps_str_escaped)
next
  case False
  then consider "quote \<notin> set (dumps v)" "dumps v \<noteq> []" | d where "v = JObj d"
    using assms(2) flat_dumps [of v] by auto
  then have "dumps v \<noteq> [] \<and> hd (dumps v) \<noteq> quote"
    by cases (metis hd_in_set, simp)
  then show ?thesis
    using False by (cases "dumps v") auto
qed

text \<open>A member whose key has no quote.\<close>

definition member :: "string \<times> json \<Rightarrow> string" where
  "member m = dumps_str (fst m) @ '': '' @ dumps (snd m)"

lemma marks_member:
  assumes "plain p" and "p \<noteq> []" and "hd p \<noteq> CHR '':''" and "plain u" and "quote \<notin> set k"
    and "flat v \<or> (\<exists>d. v = JObj d)" and "member_sep c"
  shows "marks (member_text p u) (member (k, v)) (c # r) \<longleftrightarrow>
    k = p \<and> v = JStr u \<or> marks (member_text p u) (dumps v) (c # r)"
proof -
  let ?X = "'': '' @ quote # u @ [quote]"
  have "marks (member_text p u) (dumps_str k) ('': '' @ dumps v @ c # r) \<longleftrightarrow> k = p \<and> v = JStr u"
    using marks_dumps_str [OF assms(1,2,3), of ?X k "CHR '' '' # dumps v @ c # r"]
      marks_escaped [OF assms(1), of ?X k "'': '' @ dumps v @ c # r"] assms(5)
      value_prefix [OF assms(4,6,7), of r]
    by (auto simp: member_text_def)
  moreover have "\<not> marks (member_text p u) '': '' (dumps v @ c # r)"
    by (rule marks_no_head) (simp_all add: member_text_def)
  ultimately show ?thesis
    by (simp add: member_def marks_append)
qed

definition members :: "json dict \<Rightarrow> string" where
  "members d = join '', '' (map member d)"

lemma dumps_JObj: "dumps (JObj d) = ''{'' @ members d @ ''}''"
  by (simp add: members_def member_def [abs_def] case_prod_unfold)

text \<open>The texts \<open>p\<close> for which a member can be found by its text.\<close>

definition key_text :: "string \<Rightarrow> bool" where
  "key_text p \<longleftrightarrow> plain p \<and> p \<noteq> [] \<and> \<not> member_sep (hd p) \<and> hd p \<noteq> CHR '':''"

lemma marks_members:
  assumes "key_text p" and "plain u"
    and "\<forall>(k, v)\<in>set d. quote \<notin> set k \<and> (flat v \<or> (\<exists>d. v = JObj d)) \<and>
      (\<forall>c r. member_sep c \<longrightarrow> (marks (member_text p u) (dumps v) (c # r) \<longleftrightarrow> inside v))" and "member_sep c"
  shows "marks (member_text p u) (members d) (c # r) \<longleftrightarrow> (\<exists>(k, v)\<in>set d. k = p \<and> v = JStr u \<or> inside v)"
  using assms(3,4)
proof (induction d arbitrary: c r)
  case Nil
  then show ?case by (simp add: members_def)
next
  case (Cons m d)
  obtain k v where m: "m = (k, v)" by (cases m)
  have p: "plain p" "p \<noteq> []" "hd p \<noteq> CHR '':''"
    using assms(1) by (simp_all add: key_text_def)
  have here: "marks (member_text p u) (member (k, v)) (c # r) \<longleftrightarrow> k = p \<and> v = JStr u \<or> inside v"
    if "member_sep c" for c r
    using marks_member [OF p assms(2), of k v c r] Cons.prems(1) that by (simp add: m)
  show ?case
  proof (cases d)
    case Nil
    then show ?thesis
      using here Cons.prems by (simp add: members_def m)
  next
    case (Cons m' d')
    then have split: "members ((k, v) # d) = member (k, v) @ '', '' @ members d"
      by (simp add: members_def m)
    have "\<not> marks (member_text p u) '', '' (members d @ c # r)"
      by (rule marks_no_head) (simp_all add: member_text_def)
    moreover have "marks (member_text p u) (member (k, v)) (CHR '','' # CHR '' '' # members d @ c # r) \<longleftrightarrow>
        k = p \<and> v = JStr u \<or> inside v"
      by (rule here) (simp add: member_sep_def)
    ultimately show ?thesis
      using Cons.IH [of c r] Cons.prems by (simp add: split marks_append m)
  qed
qed

lemma marks_JObj:
  assumes "marks M (members d) (CHR ''}'' # r) = b" and "M \<noteq> []" and "hd M = quote"
  shows "marks M (dumps (JObj d)) r = b"
proof -
  have "\<not> marks M ''{'' (members d @ ''}'' @ r)" "\<not> marks M ''}'' r"
    using assms(2,3) by (cases M; auto)+
  then show ?thesis
    using assms(1) by (simp only: dumps_JObj marks_append) simp
qed

definition flat_members :: "json dict \<Rightarrow> bool" where
  "flat_members d \<longleftrightarrow> list_all (\<lambda>(k, v). quote \<notin> set k \<and> flat v) d"

lemma marks_flat_object:
  assumes "key_text p" and "plain u" and "flat_members d"
  shows "marks (member_text p u) (dumps (JObj d)) r \<longleftrightarrow> (p, JStr u) \<in> set d"
proof (rule marks_JObj)
  have p: "plain p" "p \<noteq> []" "\<not> member_sep (hd p)"
    using assms(1) by (simp_all add: key_text_def)
  have "marks (member_text p u) (members d) (CHR ''}'' # r) \<longleftrightarrow> (\<exists>(k, v)\<in>set d. k = p \<and> v = JStr u \<or> False)"
    using assms(3) no_mark_in_value [OF p]
    by (intro marks_members [OF assms(1,2)]) (auto simp: flat_members_def list_all_iff member_sep_def)
  then show "marks (member_text p u) (members d) (CHR ''}'' # r) = ((p, JStr u) \<in> set d)"
    by auto
qed (simp_all add: member_text_def)

text \<open>An object whose values are flat or objects with flat members.\<close>

definition shallow :: "json dict \<Rightarrow> bool" where
  "shallow d \<longleftrightarrow> list_all (\<lambda>(k, v). quote \<notin> set k \<and> (flat v \<or> (case v of JObj d' \<Rightarrow> flat_members d' | _ \<Rightarrow> False))) d"

lemma shallowD:
  "shallow d \<Longrightarrow> (k, v) \<in> set d \<Longrightarrow> quote \<notin> set k \<and> (flat v \<or> (\<exists>d'. v = JObj d' \<and> flat_members d'))"
  by (cases v) (auto simp: shallow_def list_all_iff)

definition has_member :: "string \<Rightarrow> string \<Rightarrow> json \<Rightarrow> bool" where
  "has_member p u v \<longleftrightarrow> (case v of JObj d \<Rightarrow> (p, JStr u) \<in> set d | _ \<Rightarrow> False)"

lemma marks_shallow_object:
  assumes "key_text p" and "plain u" and "shallow d"
  shows "marks (member_text p u) (dumps (JObj d)) r \<longleftrightarrow>
    (\<exists>(k, v)\<in>set d. k = p \<and> v = JStr u \<or> has_member p u v)"
proof (rule marks_JObj)
  have p: "plain p" "p \<noteq> []" "\<not> member_sep (hd p)"
    using assms(1) by (simp_all add: key_text_def)
  have inner: "marks (member_text p u) (dumps v) (c # r) \<longleftrightarrow> has_member p u v"
    if "(k, v) \<in> set d" "member_sep c" for k v c r
  proof (cases "\<exists>d'. v = JObj d'")
    case True
    then show ?thesis
      using shallowD [OF assms(3) that(1)] marks_flat_object [OF assms(1,2)]
      by (auto simp: flat_def has_member_def simp del: dumps.simps)
  next
    case False
    then have "flat v"
      using shallowD [OF assms(3) that(1)] by auto
    then show ?thesis
      using no_mark_in_value [OF p _ that(2)] False by (simp add: has_member_def split: json.split)
  qed
  have "quote \<notin> set k \<and> (flat v \<or> (\<exists>d. v = JObj d)) \<and>
      (\<forall>c r. member_sep c \<longrightarrow> (marks (member_text p u) (dumps v) (c # r) \<longleftrightarrow> has_member p u v))"
    if "(k, v) \<in> set d" for k v
    using shallowD [OF assms(3) that] inner [OF that] by metis
  then have "\<forall>(k, v)\<in>set d. quote \<notin> set k \<and> (flat v \<or> (\<exists>d. v = JObj d)) \<and>
      (\<forall>c r. member_sep c \<longrightarrow> (marks (member_text p u) (dumps v) (c # r) \<longleftrightarrow> has_member p u v))"
    by blast
  then show "marks (member_text p u) (members d) (CHR ''}'' # r) = (\<exists>(k, v)\<in>set d. k = p \<and> v = JStr u \<or> has_member p u v)"
    by (rule marks_members [OF assms(1,2)]) (simp add: member_sep_def)
qed (simp_all add: member_text_def)

section \<open>What is counted\<close>

lemma sublist_object:
  assumes "key_text p" and "plain u" and "shallow d" and "quote \<notin> set stamp"
  shows "sublist (member_text p u) (log_line stamp (dumps (JObj d))) \<longleftrightarrow>
    (\<exists>(k, v)\<in>set d. k = p \<and> v = JStr u \<or> has_member p u v)"
proof -
  have "\<not> marks (member_text p u) (stamp @ '' home-mcp.audit INFO '') (dumps (JObj d))"
    using assms(4) by (intro marks_no_head) (auto simp: member_text_def)
  moreover have ne: "member_text p u \<noteq> []"
    by (simp add: member_text_def)
  have "sublist (member_text p u) (log_line stamp (dumps (JObj d))) \<longleftrightarrow>
      marks (member_text p u) ((stamp @ '' home-mcp.audit INFO '') @ dumps (JObj d)) []"
    by (simp only: sublist_marks [OF ne] log_line_def append_assoc)
  ultimately show ?thesis
    using marks_shallow_object [OF assms(1-3), of "[]"] by (simp only: marks_append append_Nil2 simp_thms)
qed

lemma audit_entry_shallow: "flat_members kwargs \<Longrightarrow> flat user \<Longrightarrow> shallow (audit_entry show took tool kwargs user r)"
  by (auto simp: shallow_def audit_entry_def flat_def split: sum.split)

lemma entry_members:
  assumes "flat user" and "flat_members kwargs"
  shows "(\<exists>(k, v)\<in>set (audit_entry show took tool kwargs user r). k = ''event'' \<and> v = JStr ''tool_call'' \<or> has_member ''event'' ''tool_call'' v)"
    and "(\<exists>(k, v)\<in>set (audit_entry show took tool kwargs user r). k = ''user'' \<and> v = JStr u \<or> has_member ''user'' u v) \<longleftrightarrow>
      user = JStr u \<or> (''user'', JStr u) \<in> set kwargs"
  using assms(1) by (auto simp: audit_entry_def has_member_def flat_def split: sum.split json.splits)

lemma counts_audit:
  assumes "plain u" and "flat_members kwargs" and "flat user" and "quote \<notin> set stamp"
  shows "counts_call (audit_line stamp show took tool kwargs user r)"
    and "counts_other_user u (audit_line stamp show took tool kwargs user r) \<longleftrightarrow>
      user \<noteq> JStr u \<and> (''user'', JStr u) \<notin> set kwargs"
proof -
  have k: "key_text ''event''" "key_text ''user''" "plain ''tool_call''"
    by code_simp+
  note sh = audit_entry_shallow [OF assms(2,3), of "show" took tool r]
  show calls: "counts_call (audit_line stamp show took tool kwargs user r)"
    using sublist_object [OF k(1,3) sh assms(4)] entry_members(1) [OF assms(3,2)]
    by (simp only: counts_call_def texts_are_members audit_line_def)
  show "counts_other_user u (audit_line stamp show took tool kwargs user r) \<longleftrightarrow>
      user \<noteq> JStr u \<and> (''user'', JStr u) \<notin> set kwargs"
    using sublist_object [OF k(2) assms(1) sh assms(4)] entry_members(2) [OF assms(3,2)] calls
    by (simp only: counts_other_user_def counts_call_def texts_are_members audit_line_def) simp
qed

text \<open>A call whose arguments are texts, numbers or truth values, under names of which none is \<open>user\<close>.\<close>

definition plain_call :: "'w tool_call \<Rightarrow> bool" where
  "plain_call c \<longleftrightarrow> flat_members (tool_args c) \<and> ''user'' \<notin> set (keys (tool_args c)) \<and>
     flat (caller (tool_token c)) \<and> quote \<notin> set (tool_stamp c)"

definition foreign :: "string \<Rightarrow> 'w tool_call \<Rightarrow> bool" where
  "foreign u c \<longleftrightarrow> caller (tool_token c) \<noteq> JStr u"

lemma counts_plain_call:
  assumes "plain u" and "plain_call c"
  shows "counts_call (audit_line (tool_stamp c) show (tool_took c) (tool_name c) (tool_args c) (caller (tool_token c)) r)"
    and "counts_other_user u (audit_line (tool_stamp c) show (tool_took c) (tool_name c) (tool_args c) (caller (tool_token c)) r)
      \<longleftrightarrow> foreign u c"
proof -
  have "(''user'', JStr u) \<notin> set (tool_args c)"
    using assms(2) by (auto simp: plain_call_def image_iff)
  then show "counts_call (audit_line (tool_stamp c) show (tool_took c) (tool_name c) (tool_args c) (caller (tool_token c)) r)"
    "counts_other_user u (audit_line (tool_stamp c) show (tool_took c) (tool_name c) (tool_args c) (caller (tool_token c)) r)
      \<longleftrightarrow> foreign u c"
    using counts_audit [OF assms(1)] assms(2) by (simp_all add: plain_call_def foreign_def)
qed

text \<open>C13: the tools' state after any sequence of calls is the one they reach without the wrapper, whether
  they return or raise, and the log has exactly one line per call, in their order. A call whose arguments are texts,
  numbers or truth values, none of them named \<open>user\<close>, is found by the query for all calls, and by the query for other
  users exactly if its caller is not the allowed user; so where all calls are such, the security report's counts are
  exact. The condition leaves out \<open>run_job\<close> with arguments and \<open>airflow_trigger\<close> with a \<open>conf\<close>, which are logged as
  objects: a caller can hide from the count with them.\<close>

theorem audit_counts:
  assumes "plain u"
  shows "\<exists>lines. serve show e calls (w, old) = (fold (\<lambda>c w. snd (tool_body c e w)) calls w, old @ lines) \<and>
    length lines = length calls \<and>
    list_all2 (\<lambda>c line. plain_call c \<longrightarrow> counts_call line \<and> (counts_other_user u line \<longleftrightarrow> foreign u c)) calls lines \<and>
    (list_all plain_call calls \<longrightarrow> length (filter counts_call lines) = length calls \<and>
      length (filter (counts_other_user u) lines) = length (filter (foreign u) calls))"
proof (induction calls arbitrary: w old)
  case (Cons c calls)
  let ?line = "audit_line (tool_stamp c) show (tool_took c) (tool_name c) (tool_args c) (caller (tool_token c)) (fst (tool_body c e w))"
  obtain lines where rest: "serve show e calls (snd (tool_body c e w), old @ [?line]) =
      (fold (\<lambda>c w. snd (tool_body c e w)) calls (snd (tool_body c e w)), (old @ [?line]) @ lines)"
    "length lines = length calls"
    "list_all2 (\<lambda>c line. plain_call c \<longrightarrow> counts_call line \<and> (counts_other_user u line \<longleftrightarrow> foreign u c)) calls lines"
    "list_all plain_call calls \<longrightarrow> length (filter counts_call lines) = length calls \<and>
      length (filter (counts_other_user u) lines) = length (filter (foreign u) calls)"
    using Cons.IH [of "snd (tool_body c e w)" "old @ [?line]"] by blast
  have "serve show e (c # calls) (w, old) = serve show e calls (snd (tool_body c e w), old @ [?line])"
    by (simp add: audited_def split_beta)
  then show ?case
    using rest counts_plain_call [OF assms, of c] by (intro exI [of _ "?line # lines"]) simp
qed simp

section \<open>What is not counted\<close>

lemma sublist_member: "(k, v) \<in> set d \<Longrightarrow> sublist (dumps v) (dumps (JObj d))"
proof -
  assume "(k, v) \<in> set d"
  then have "sublist (member (k, v)) (members d)"
    unfolding members_def by (intro sublist_join) auto
  moreover have "sublist (dumps v) (member (k, v))"
    using sublist_appendI [of "dumps v" "dumps_str k @ '': ''" "[]"] by (simp add: member_def)
  ultimately show ?thesis
    unfolding dumps_JObj by (meson sublist_appendI sublist_order.order_trans)
qed

lemma sublist_log_line: "sublist m (log_line stamp m)"
  using sublist_appendI [of m "stamp @ '' home-mcp.audit INFO ''" "[]"] by (simp add: log_line_def)

text \<open>A call of \<open>run_job\<close> by anyone is not counted as another user's when its arguments have a member
  \<open>user\<close> with the allowed name: the query looks for the text anywhere in the line.\<close>

theorem forged_user_not_counted:
  assumes "plain u"
  shows "\<not> counts_other_user u (audit_line stamp show took ''run_job''
    [(''job'', JStr job), (''args'', JObj [(''user'', JStr u)])] user r)"
proof -
  let ?kwargs = "[(''job'', JStr job), (''args'', JObj [(''user'', JStr u)])]"
  have "plain ''user''" by code_simp
  then have "dumps (JObj [(''user'', JStr u)]) = ''{'' @ user_text u @ ''}''"
    using assms by (simp add: dumps_str_escaped escaped_plain user_text_def del: escaped_simps)
  then have "sublist (user_text u) (dumps (JObj [(''user'', JStr u)]))"
    by (simp only: sublist_appendI)
  moreover have "(''args'', JObj [(''user'', JStr u)]) \<in> set ?kwargs"
    "(''args'', JObj ?kwargs) \<in> set (audit_entry show took ''run_job'' ?kwargs user r)"
    by (simp_all add: audit_entry_def)
  ultimately have "sublist (user_text u) (dumps (JObj (audit_entry show took ''run_job'' ?kwargs user r)))"
    using sublist_member sublist_order.order_trans by blast
  then have "sublist (user_text u) (audit_line stamp show took ''run_job'' ?kwargs user r)"
    using sublist_log_line sublist_order.order_trans unfolding audit_line_def by blast
  then show ?thesis
    by (simp add: counts_other_user_def)
qed

theorem forged_user_not_counted_witness:
  "\<not> counts_other_user ''bcalaway'' (audit_line ''2026-10-08 12:00:00,000'' exn_name 0 ''run_job''
    [(''job'', JStr ''deploy-nucs''), (''args'', JObj [(''user'', JStr ''bcalaway'')])] (JStr ''eve'') (Inr ''done''))"
  by (rule forged_user_not_counted) code_simp

text \<open>Two calls for the witness: one by the allowed user, one by somebody else that raises.\<close>

definition sample_calls :: "nat tool_call list" where
  "sample_calls =
     [\<lparr>tool_name = ''recent_logs'', tool_args = [(''container'', JStr ''hue'')], tool_token = Some sample_access,
        tool_stamp = ''12:00'', tool_took = 1, tool_body = (\<lambda>e w. (Inr ''fine'', Suc w))\<rparr>,
      \<lparr>tool_name = ''recent_logs'', tool_args = [(''container'', JStr ''hue''), (''minutes'', JInt 5)], tool_token = None,
        tool_stamp = ''12:01'', tool_took = 2, tool_body = (\<lambda>e w. (Inl (PyError ''KeyError''), w))\<rparr>]"

definition sample_env :: http_env where
  "sample_env = \<lparr>answer = (\<lambda>n q. Inl (HTTPX ''ConnectError'')), loads = (\<lambda>_. None), yaml = (\<lambda>_. None), mono = 0, wall = 0\<rparr>"

theorem audit_counts_witness:
  "\<exists>lines. serve exn_name sample_env sample_calls (0, []) =
      (fold (\<lambda>c w. snd (tool_body c sample_env w)) sample_calls 0, [] @ lines) \<and>
    length (filter counts_call lines) = 2 \<and> length (filter (counts_other_user ''bill'') lines) = 1"
proof -
  have plain: "plain ''bill''" "list_all plain_call sample_calls"
    by code_simp+
  have "length (filter (foreign ''bill'') sample_calls) = 1" "length sample_calls = 2"
    by code_simp+
  then show ?thesis
    using audit_counts [OF plain(1), of exn_name sample_env sample_calls 0 "[]"] plain(2) by auto
qed

end
