(* ===== verification/SecurityEvents.thy ===== *)
theory SecurityEvents
  imports PyConv
begin

text \<open>
  \<open>compose/aws/home-mcp/security_events.py\<close>: counts of security-relevant log lines, from Loki. The
  queries are sent one after the other; the report is a function of their results, where a
  query that raised counts as having found nothing. Labels of series are texts.
\<close>

section \<open>The queries\<close>

definition quoted_text :: "string \<Rightarrow> string" where
  "quoted_text s = [CHR 0x22] @ s @ [CHR 0x22]"

text \<open>A text of the log that LogQL looks for, with the quotes inside it escaped.\<close>

definition escaped_text :: "string \<Rightarrow> string" where
  "escaped_text s = quoted_text (concat (map (\<lambda>c. if c = CHR 0x22 then [CHR 0x5C, c] else [c]) s))"

definition count_sum :: "string \<Rightarrow> string \<Rightarrow> string \<Rightarrow> string" where
  "count_sum by selection rng = ''sum'' @ by @ ''(count_over_time('' @ selection @ '' ['' @ rng @ '']))''"

definition journal :: "string \<Rightarrow> string" where
  "journal unit = ''{job='' @ quoted_text ''systemd-journal'' @ '', unit='' @ quoted_text unit @ ''}''"

definition hub_container :: "string \<Rightarrow> string" where
  "hub_container name = ''{container='' @ quoted_text name @ ''}''"

definition mcp_calls :: string where
  "mcp_calls = hub_container ''home-mcp'' @ '' |= '' @ escaped_text ''\"event\": \"tool_call\"''"

definition loki_queries :: "string \<Rightarrow> string \<Rightarrow> string dict" where
  "loki_queries rng user =
    [(''hub_ssh'', count_sum [] (journal ''sshd.service'' @ '' |~ '' @ quoted_text ''(?i)(failed password|invalid user|authentication failure)'') rng),
     (''fail2ban'', count_sum [] (journal ''fail2ban.service'' @ '' |= '' @ quoted_text '' Ban '') rng),
     (''device_login_fail'', count_sum '' by (device) '' (''{job='' @ quoted_text ''network-syslog'' @ ''} |~ '' @
        quoted_text ''(?i)(login failure|failed password|invalid user|authentication fail)'') rng),
     (''device_config'', count_sum '' by (device) '' (''{job='' @ quoted_text ''network-syslog'' @ '', device=~'' @
        quoted_text ''rt-.*|sw-.*'' @ ''} |~ '' @ quoted_text ''(?i)(changed|added|removed) by'') rng),
     (''mcp_calls'', count_sum [] mcp_calls rng),
     (''mcp_other_user'', count_sum [] (mcp_calls @ '' != '' @ escaped_text (''\"user\": \"'' @ user @ [CHR 0x22])) rng),
     (''mcp_rejected'', count_sum [] (hub_container ''home-mcp'' @ '' |= '' @ quoted_text ''rejected token'') rng),
     (''mcp_failed'', count_sum [] (mcp_calls @ '' |= '' @ escaped_text ''\"ok\": false'') rng),
     (''mcp_changes'', count_sum '' by (tool) '' (mcp_calls @ '' | regexp '' @ escaped_text ''\"tool\": \"(?P<tool>start_task|run_job)\"'' @
        '' | tool != '' @ quoted_text []) rng),
     (''web_errors'', count_sum '' by (RouterName, DownstreamStatus) '' (hub_container ''traefik'' @ '' |= '' @
        quoted_text ''DownstreamStatus'' @ '' | json | DownstreamStatus >= 400'') rng),
     (''web_denied_sources'', ''topk(5, '' @ count_sum '' by (ClientHost) '' (hub_container ''traefik'' @ '' |= '' @
        quoted_text ''DownstreamStatus'' @ '' | json | DownstreamStatus =~ '' @ quoted_text ''401|403'') rng @ '')'')]"

definition loki_query_url :: string where
  "loki_query_url = ''http://loki:3100/loki/api/v1/query''"

definition loki_query :: "string \<Rightarrow> ('z net_scheme, json list) web" where
  "loki_query q =
     bind (ask (\<lambda>e. trunc (wall e * 1000000000))) (\<lambda>t.
     bind (get_json loki_query_url [(''query'', JStr q), (''time'', JInt t)]) (\<lambda>j.
     liftR (bindR (get_of (JObj []) ''data'' j) (\<lambda>d. bindR (get_of (JList []) ''result'' d) iter_of))))"

type_synonym loki_results = "(string \<times> (py_exn + json list)) list"

definition max_days :: int where
  "max_days = 30"

definition bounded_days :: "int \<Rightarrow> int" where
  "bounded_days d = max 1 (min (if d = 0 then 7 else d) max_days)"

section \<open>Reading the results\<close>

definition answered :: "loki_results \<Rightarrow> string \<Rightarrow> json list" where
  "answered res k = (case map_of res k of Some (Inr rs) \<Rightarrow> rs | _ \<Rightarrow> [])"

text \<open>\<open>float(r["value"][1])\<close> and \<open>int\<close> of it.\<close>

definition series_value :: "json \<Rightarrow> py_exn + rat" where
  "series_value r = bindR (item_of ''value'' r) (\<lambda>v. bindR (at_index 1 v) to_float)"

definition series_count :: "json \<Rightarrow> py_exn + int" where
  "series_count r = bindR (series_value r) (\<lambda>x. Inr (trunc x))"

definition total_of :: "json list \<Rightarrow> py_exn + int" where
  "total_of rs = bindR (mapR series_count rs) (\<lambda>ns. Inr (sum_list ns))"

definition series_label :: "string \<Rightarrow> string \<Rightarrow> json \<Rightarrow> py_exn + string" where
  "series_label k missing r =
     bindR (item_of ''metric'' r) (\<lambda>m. bindR (get_of (JStr missing) k m) (\<lambda>v.
     case v of JStr s \<Rightarrow> Inr s | _ \<Rightarrow> Inl (PyError ''TypeError'')))"

definition labelled_count :: "string \<Rightarrow> string \<Rightarrow> json \<Rightarrow> py_exn + string \<times> int" where
  "labelled_count k missing r =
     bindR (series_label k missing r) (\<lambda>l. bindR (series_count r) (\<lambda>n. Inr (l, n)))"

text \<open>\<open>{label: count for r in results}\<close>: of equal labels the last one counts.\<close>

definition counts_by :: "string \<Rightarrow> string \<Rightarrow> json list \<Rightarrow> py_exn + (string \<times> int) list" where
  "counts_by k missing rs = bindR (mapR (labelled_count k missing) rs) (\<lambda>ps. Inr (dict_update [] ps))"

definition nonzero :: "(string \<times> int) list \<Rightarrow> (string \<times> int) list" where
  "nonzero d = filter (\<lambda>(_, n). n \<noteq> 0) d"

definition router_of :: "string \<Rightarrow> string" where
  "router_of name = hd (split_on (CHR ''@'') (if name = [] then ''unrouted'' else name))"

type_synonym by_router = "(string \<times> (string \<times> int) list) list"

definition add_status :: "string \<times> string \<times> int \<Rightarrow> by_router \<Rightarrow> by_router" where
  "add_status x by = (case x of (router, status, n) \<Rightarrow>
     AList.update router (AList.update status n (get_or [] router by)) by)"

definition web_entry :: "json \<Rightarrow> py_exn + string \<times> string \<times> int" where
  "web_entry r =
     bindR (series_label ''RouterName'' [] r) (\<lambda>name. bindR (series_label ''DownstreamStatus'' ''?'' r) (\<lambda>status.
     bindR (series_count r) (\<lambda>n. Inr (router_of name, status, n))))"

definition web_by_router :: "json list \<Rightarrow> py_exn + by_router" where
  "web_by_router rs = bindR (mapR web_entry rs) (\<lambda>es. Inr (fold add_status es []))"

section \<open>The report\<close>

definition int_plural :: "int \<Rightarrow> string" where
  "int_plural n = (if n \<noteq> 1 then ''s'' else [])"

definition pair_text :: "string \<times> int \<Rightarrow> string" where
  "pair_text p = fst p @ '' '' @ str_of_int (snd p)"

definition mcp_line :: "int \<Rightarrow> int \<Rightarrow> int \<Rightarrow> (string \<times> int) list \<Rightarrow> string" where
  "mcp_line calls rejected failed changes =
     ''home-mcp: '' @ str_of_int calls @ '' calls, '' @ str_of_int rejected @ '' rejected tokens, '' @ str_of_int failed @
     '' failed calls'' @
     (if changes \<noteq> [] then '', '' @ str_of_int (get_or 0 ''start_task'' changes) @ '' coding tasks and '' @
        str_of_int (get_or 0 ''run_job'' changes) @ '' jobs started'' else []) @ ''.''"

definition ssh_line :: "int \<Rightarrow> int \<Rightarrow> string" where
  "ssh_line ssh bans =
     ''Hub SSH: '' @ str_of_int ssh @ '' failed login attempt'' @ int_plural ssh @ '', '' @ str_of_int bans @
     '' fail2ban ban'' @ int_plural bans @ ''.''"

definition device_line :: "(string \<times> int) list \<Rightarrow> string" where
  "device_line fails =
     (if fails \<noteq> [] then ''Device login failures: '' @ join '', '' (map pair_text (sort_key fst fails)) @ ''.''
      else ''Device login failures: none on routers, switches, NUCs or the NAS.'')"

definition config_lines :: "(string \<times> int) list \<Rightarrow> string list" where
  "config_lines cfg =
     (if cfg \<noteq> [] then
       [''Router/switch config changes logged: '' @ join '', '' (map pair_text (sort_key fst cfg)) @
        '' (expected only when you or a RouterOS deploy changed something).'']
      else [])"

definition status_total :: "string \<times> (string \<times> int) list \<Rightarrow> int" where
  "status_total kv = sum_list (map snd (snd kv))"

definition router_text :: "string \<times> (string \<times> int) list \<Rightarrow> string" where
  "router_text kv =
     fst kv @ '' '' @ join ''/'' (map (\<lambda>(c, n). str_of_int n @ ''x'' @ c) (take 3 (sort_key (\<lambda>(c, n). - n) (snd kv))))"

definition web_line :: "by_router \<Rightarrow> string" where
  "web_line by =
     ''Web: '' @ str_of_int (sum_list (map status_total by)) @ '' failed or refused requests: '' @
     join ''; '' (map router_text (take 6 (sort_key (\<lambda>kv. - status_total kv) by))) @ ''.''"

definition source_entry :: "json \<Rightarrow> py_exn + rat \<times> string" where
  "source_entry r =
     bindR (series_value r) (\<lambda>x. bindR (series_label ''ClientHost'' ''?'' r) (\<lambda>host.
     Inr (x, host @ '' ('' @ str_of_int (trunc x) @ '')'')))"

definition web_lines :: "by_router \<Rightarrow> json list \<Rightarrow> bool \<Rightarrow> py_exn + string list" where
  "web_lines by denied failed =
     (if by \<noteq> [] then
        bindR (mapR source_entry denied) (\<lambda>ss.
        let sources = map snd (sort_key (\<lambda>s. - fst s) ss) in
        Inr (web_line by # (if sources \<noteq> [] then [''Most 401/403s came from: '' @ join '', '' sources @ ''.''] else [])))
      else Inr (if failed then [] else [''Web: no failed or refused requests logged (Traefik's access log only covers 4xx/5xx).'']))"

definition failed_queries :: "loki_results \<Rightarrow> string list" where
  "failed_queries res = sort (map fst (filter (\<lambda>(k, r). isl r) res))"

definition event_flags :: "int \<Rightarrow> int \<Rightarrow> (string \<times> int) list \<Rightarrow> string list" where
  "event_flags other ssh fails =
     (if other \<noteq> 0 then [str_of_int other @ '' home-mcp call'' @ int_plural other @ '' by someone other than you''] else []) @
     (if ssh \<noteq> 0 then [str_of_int ssh @ '' failed SSH logins on the hub (only reachable from the site LANs and WireGuard)''] else []) @
     (if fails \<noteq> [] then [''failed logins on '' @ join '', '' (sort (map fst fails))] else [])"

definition event_head :: "int \<Rightarrow> string list \<Rightarrow> string" where
  "event_head days flags =
     ''Last '' @ str_of_int days @ '' days: '' @
     (if flags \<noteq> [] then join ''; '' flags @ ''.'' else ''nothing that needs you.'')"

text \<open>The lines of the report, for a number of days that is in bounds.\<close>

definition event_lines :: "int \<Rightarrow> loki_results \<Rightarrow> py_exn + string list" where
  "event_lines days res =
     bindR (total_of (answered res ''mcp_other_user'')) (\<lambda>other.
     bindR (counts_by ''tool'' [] (answered res ''mcp_changes'')) (\<lambda>changes.
     bindR (total_of (answered res ''mcp_calls'')) (\<lambda>calls.
     bindR (total_of (answered res ''mcp_rejected'')) (\<lambda>rejected.
     bindR (total_of (answered res ''mcp_failed'')) (\<lambda>failed.
     bindR (total_of (answered res ''hub_ssh'')) (\<lambda>ssh.
     bindR (total_of (answered res ''fail2ban'')) (\<lambda>bans.
     bindR (counts_by ''device'' ''?'' (answered res ''device_login_fail'')) (\<lambda>fails.
     bindR (counts_by ''device'' ''?'' (answered res ''device_config'')) (\<lambda>cfg.
     bindR (web_by_router (answered res ''web_errors'')) (\<lambda>by.
     bindR (web_lines by (answered res ''web_denied_sources'') (''web_errors'' \<in> set (failed_queries res))) (\<lambda>web.
     Inr ([event_head days (event_flags other ssh (nonzero fails)), mcp_line calls rejected failed changes, ssh_line ssh bans,
           device_line (nonzero fails)] @ config_lines (nonzero cfg) @ web @
          (if failed_queries res \<noteq> [] then [''Couldn't query: '' @ join '', '' (failed_queries res) @ ''.''] else [])))))))))))))"

definition security_events :: "string \<Rightarrow> int \<Rightarrow> ('z net_scheme, string) web" where
  "security_events user days0 =
     (let days = bounded_days days0; qs = loki_queries (str_of_int days @ ''d'') user in
      bind (mapM (\<lambda>(k, q). bind (outcome (loki_query q)) (\<lambda>r. ret (k, r))) qs) (\<lambda>res.
      bind (liftR (event_lines days res)) (\<lambda>ls. ret (join [newline] ls))))"

section \<open>When nothing is said to need you\<close>

lemma str_of_int_head: "str_of_int i \<noteq> [] \<and> (is_digit (hd (str_of_int i)) \<or> hd (str_of_int i) = CHR ''-'')"
proof -
  have "str_of_nat n \<noteq> []" for n by simp
  then show ?thesis
    by (auto simp: str_of_int_def intro!: str_of_nat_digits hd_in_set)
qed

lemma flag_heads:
  assumes "f \<in> set (event_flags other ssh fails)"
  shows "f \<noteq> [] \<and> (is_digit (hd f) \<or> hd f \<in> {CHR ''-'', CHR ''f''})"
  using assms str_of_int_head [of other] str_of_int_head [of ssh] by (auto simp: event_flags_def split: if_splits)

lemma event_flags_Nil: "event_flags other ssh (nonzero fails) = [] \<longleftrightarrow> other = 0 \<and> ssh = 0 \<and> list_all (\<lambda>(d, n). n = 0) fails"
  by (auto simp: event_flags_def nonzero_def filter_empty_conv list_all_iff)

lemma event_head_quiet: "event_head days (event_flags other ssh fails) = event_head days [] \<longleftrightarrow> event_flags other ssh fails = []"
proof
  assume same: "event_head days (event_flags other ssh fails) = event_head days []"
  show "event_flags other ssh fails = []"
  proof (rule ccontr)
    assume "event_flags other ssh fails \<noteq> []"
    then obtain f fs where fs: "event_flags other ssh fails = f # fs" by (cases "event_flags other ssh fails") auto
    then have "f \<noteq> []" "is_digit (hd f) \<or> hd f \<in> {CHR ''-'', CHR ''f''}"
      using flag_heads [of f other ssh fails] by auto
    moreover from this have "hd (join ''; '' (f # fs) @ ''.'') = hd f"
      by (cases fs) auto
    moreover have "join ''; '' (f # fs) @ ''.'' = ''nothing that needs you.''"
      using same fs by (simp add: event_head_def)
    ultimately have "is_digit (CHR ''n'') \<or> CHR ''n'' \<in> {CHR ''-'', CHR ''f''}"
      by (metis list.sel(1))
    then show False
      by (simp add: is_digit_def code_def)
  qed
qed simp

text \<open>The report leads with nothing that needs you exactly when the queries that were answered count no
  call of the MCP server by another user, no failed SSH login on the hub and no failed login on
  any device. A query that failed counts as zero here and is only named in the last line.\<close>

theorem events_quiet_iff:
  assumes "event_lines days res = Inr ls"
  shows "hd ls = event_head days [] \<longleftrightarrow>
    total_of (answered res ''mcp_other_user'') = Inr 0 \<and> total_of (answered res ''hub_ssh'') = Inr 0 \<and>
    (\<exists>fails. counts_by ''device'' ''?'' (answered res ''device_login_fail'') = Inr fails \<and> list_all (\<lambda>(d, n). n = 0) fails)"
proof -
  obtain other ssh fails where counts: "total_of (answered res ''mcp_other_user'') = Inr other"
    "total_of (answered res ''hub_ssh'') = Inr ssh" "counts_by ''device'' ''?'' (answered res ''device_login_fail'') = Inr fails"
    and "hd ls = event_head days (event_flags other ssh (nonzero fails))"
    using assms by (auto simp: event_lines_def bindR_Inr)
  then have "hd ls = event_head days [] \<longleftrightarrow> other = 0 \<and> ssh = 0 \<and> list_all (\<lambda>(d, n). n = 0) fails"
    by (simp only: event_head_quiet event_flags_Nil)
  then show ?thesis
    using counts by (simp only: sum.inject) auto
qed

text \<open>The results of the witness: one failed login on a router, and two queries that failed.\<close>

definition sample_results :: loki_results where
  "sample_results =
     [(''mcp_other_user'', Inl (HTTPX ''ReadTimeout'')),
      (''hub_ssh'', Inr []),
      (''device_login_fail'', Inr [JObj [(''metric'', JObj [(''device'', JStr ''rt-nyc'')]), (''value'', JList [JInt 1, JStr ''0''])]]),
      (''web_errors'', Inl (HTTPX ''ReadTimeout''))]"

definition sample_lines :: "string list" where
  "sample_lines =
     [''Last 7 days: nothing that needs you.'',
      ''home-mcp: 0 calls, 0 rejected tokens, 0 failed calls.'',
      ''Hub SSH: 0 failed login attempts, 0 fail2ban bans.'',
      ''Device login failures: none on routers, switches, NUCs or the NAS.'',
      ''Couldn't query: mcp_other_user, web_errors.'']"

lemma sample_report: "event_lines 7 sample_results = Inr sample_lines"
  by code_simp

theorem events_quiet_iff_witness:
  "hd sample_lines = event_head 7 [] \<longleftrightarrow>
    total_of (answered sample_results ''mcp_other_user'') = Inr 0 \<and> total_of (answered sample_results ''hub_ssh'') = Inr 0 \<and>
    (\<exists>fails. counts_by ''device'' ''?'' (answered sample_results ''device_login_fail'') = Inr fails \<and> list_all (\<lambda>(d, n). n = 0) fails)"
  by (rule events_quiet_iff [OF sample_report])

end
