(* ===== verification/GithubSecurity.thy ===== *)
theory GithubSecurity
  imports PyConv GithubStatus "HOL-Library.Multiset"
begin

text \<open>
  \<open>compose/aws/home-mcp/github_security.py\<close>: open security alerts and the protection of \<open>main\<close>, for each
  repository. The token of the environment is an argument, with \<open>none\<close> already read as empty.
  Severities and names are texts, as GitHub sends them; anything else stands in a line as Python prints it.
\<close>

section \<open>Requests\<close>

text \<open>A feature that is off, or that the token cannot see, answers 403 or 404 and raises \<open>NotEnabled\<close>, whose
  message nothing reads. A body that is JSON but no object raises there instead.\<close>

definition not_enabled :: py_exn where
  "not_enabled = PyError ''NotEnabled''"

definition sec_get :: "string option \<Rightarrow> string \<Rightarrow> json dict \<Rightarrow> ('z net_scheme, json) web" where
  "sec_get bearer path params =
     bind (send (Request ''GET'' (gh_api @ path) params bearer None)) (\<lambda>r.
     if resp_status r \<in> {403, 404} then
       bind (outcome (json_of r)) (\<lambda>j.
       case j of
         Inl _ \<Rightarrow> raise not_enabled
       | Inr d \<Rightarrow> bind (liftR (get_of (JStr []) ''message'' d)) (\<lambda>_. raise not_enabled))
     else andthen (check_status r) (json_of r))"

record repo_answers =
  rules_answer :: "py_exn + json"
  dependabot_answer :: "py_exn + json"
  secrets_answer :: "py_exn + json"
  code_answer :: "py_exn + json"

definition repo_url :: "string \<Rightarrow> string \<Rightarrow> string" where
  "repo_url repo rest = ''/repos/bcalaway/'' @ repo @ rest"

definition open_alerts :: "json dict" where
  "open_alerts = [(''state'', JStr ''open''), (''per_page'', JInt 100)]"

text \<open>The branch rules are public and asked for without the token; without a token nothing else is asked for.\<close>

definition ask_repo :: "string \<Rightarrow> string \<Rightarrow> ('z net_scheme, repo_answers) web" where
  "ask_repo tok repo =
     bind (outcome (sec_get None (repo_url repo ''/rules/branches/main'') [])) (\<lambda>rules.
     if tok = [] then ret \<lparr>rules_answer = rules, dependabot_answer = Inl not_enabled, secrets_answer = Inl not_enabled, code_answer = Inl not_enabled\<rparr>
     else
       bind (outcome (sec_get (Some tok) (repo_url repo ''/dependabot/alerts'') open_alerts)) (\<lambda>dep.
       bind (outcome (sec_get (Some tok) (repo_url repo ''/secret-scanning/alerts'') open_alerts)) (\<lambda>sec.
       bind (outcome (sec_get (Some tok) (repo_url repo ''/code-scanning/alerts'') open_alerts)) (\<lambda>scan.
       ret \<lparr>rules_answer = rules, dependabot_answer = dep, secrets_answer = sec, code_answer = scan\<rparr>))))"

section \<open>Reading alerts\<close>

definition severity_order :: "string list" where
  "severity_order = [''critical'', ''high'', ''medium'', ''low'']"

definition severity_rank :: "string \<Rightarrow> nat" where
  "severity_rank s = get_or 9 s (zip severity_order [0..<4])"

definition by_severity :: "string list \<Rightarrow> string" where
  "by_severity sevs =
     join '', '' (map (\<lambda>s. str_of_nat (count_list sevs s) @ '' '' @ s) (filter (\<lambda>s. s \<in> set sevs) severity_order))"

definition severe :: "string list \<Rightarrow> bool" where
  "severe sevs \<longleftrightarrow> ''critical'' \<in> set sevs \<or> ''high'' \<in> set sevs"

text \<open>A line of the detail, with the rank of its severity.\<close>

definition code_detail :: "string \<Rightarrow> json \<Rightarrow> py_exn + nat \<times> string" where
  "code_detail name a =
     bindR (get_dict ''rule'' a) (\<lambda>rule.
     bindR (get_of JNull ''security_severity_level'' rule) (\<lambda>level. bindR (get_of JNull ''severity'' rule) (\<lambda>s.
     let sev = py_str (or_j (or_j level s) (JStr ''low'')) in
     bindR (bindR (get_dict ''most_recent_instance'' a) (get_dict ''location'')) (\<lambda>loc.
     bindR (get_text (JStr ''?'') ''path'' loc) (\<lambda>path. bindR (get_text (JStr ''?'') ''start_line'' loc) (\<lambda>line.
     bindR (get_of JNull ''description'' rule) (\<lambda>d. bindR (get_of JNull ''id'' rule) (\<lambda>i.
     bindR (get_text (JStr ''?'') ''id'' rule) (\<lambda>rule_id. bindR (get_text JNull ''number'' a) (\<lambda>n.
     Inr (severity_rank sev,
       name @ '' code-scanning '' @ sev @ '': '' @ py_str (or_j (or_j d i) (JStr ''finding'')) @ '' ['' @ rule_id @ ''] at '' @
       path @ '':'' @ line @ '' (alert #'' @ n @ '')'')))))))))))"

definition dep_detail :: "string \<Rightarrow> json \<Rightarrow> py_exn + nat \<times> string" where
  "dep_detail name a =
     bindR (get_dict ''security_advisory'' a) (\<lambda>adv. bindR (get_text (JStr ''low'') ''severity'' adv) (\<lambda>sev.
     bindR (get_dict ''dependency'' a) (\<lambda>dep.
     bindR (bindR (get_dict ''package'' dep) (get_text (JStr ''?'') ''name'')) (\<lambda>pkg.
     bindR (bindR (bindR (get_dict ''security_vulnerability'' a) (get_dict ''first_patched_version'')) (get_of JNull ''identifier'')) (\<lambda>fixed.
     bindR (get_of JNull ''summary'' adv) (\<lambda>sm.
     bindR (case or_j sm (JStr []) of JStr s \<Rightarrow> Inr (rstrip_if (\<lambda>c. c = CHR ''.'') s) | _ \<Rightarrow> Inl (PyError ''AttributeError'')) (\<lambda>summary.
     bindR (get_text (JStr ''?'') ''manifest_path'' dep) (\<lambda>path. bindR (get_text JNull ''number'' a) (\<lambda>n.
     Inr (severity_rank sev,
       name @ '' dependency '' @ sev @ '': '' @ pkg @ '' in '' @ path @ '' -- '' @ summary @ ''; '' @
       (if truthy fixed then ''fixed in '' @ py_str fixed else ''no fixed version yet'') @ '' (alert #'' @ n @ '')''))))))))))"

definition secret_kind :: "json \<Rightarrow> py_exn + json" where
  "secret_kind a =
     bindR (get_of JNull ''secret_type_display_name'' a) (\<lambda>d. bindR (get_of (JStr ''secret'') ''secret_type'' a) (\<lambda>k. Inr (or_j d k)))"

definition secret_detail :: "string \<Rightarrow> json \<Rightarrow> py_exn + nat \<times> string" where
  "secret_detail name a =
     bindR (bindR (bindR (get_dict ''first_location_detected'' a) (get_dict ''details'')) (get_text (JStr ''?'') ''path'')) (\<lambda>loc.
     bindR (secret_kind a) (\<lambda>k. bindR (get_text JNull ''number'' a) (\<lambda>n.
     Inr (0, name @ '' secret: '' @ py_str k @ '' in '' @ loc @ '' (alert #'' @ n @ ''); value not shown''))))"

section \<open>One repository\<close>

record found =
  urgent :: "string list"
  info :: "string list"
  couldnt :: "string list"
  details :: "(nat \<times> string) list"

definition nothing_found :: found where
  "nothing_found = \<lparr>urgent = [], info = [], couldnt = [], details = []\<rparr>"

definition add_found :: "found \<Rightarrow> found \<Rightarrow> found" where
  "add_found f g = \<lparr>urgent = urgent f @ urgent g, info = info f @ info g, couldnt = couldnt f @ couldnt g, details = details f @ details g\<rparr>"

definition wanted_rules :: "(string \<times> string) list" where
  "wanted_rules = [(''pull_request'', ''PR required''), (''non_fast_forward'', ''no force-push''), (''deletion'', ''no deletion''),
     (''required_status_checks'', ''CI required'')]"

definition no_ci_repos :: "string list" where
  "no_ci_repos = [''nyc_pa_aws_gitops'']"

definition missing_rules :: "string \<Rightarrow> json list \<Rightarrow> string list" where
  "missing_rules repo have =
     map snd (filter (\<lambda>(t, label). JStr t \<notin> set have \<and> \<not> (t = ''required_status_checks'' \<and> repo \<in> set no_ci_repos)) wanted_rules)"

definition rules_found :: "string \<Rightarrow> py_exn + json \<Rightarrow> py_exn + found" where
  "rules_found repo r = (let name = spoken_repo repo in case r of
      Inl _ \<Rightarrow> Inr (nothing_found\<lparr>couldnt := [name @ '' branch rules'']\<rparr>)
    | Inr j \<Rightarrow> bindR (iter_of j) (\<lambda>rs. bindR (mapR (get_of JNull ''type'') rs) (\<lambda>have.
        let missing = missing_rules repo have in
        Inr (if missing = [] then nothing_found else nothing_found\<lparr>urgent := [name @ '': main is missing '' @ join '', '' missing]\<rparr>))))"

text \<open>The three kinds of alerts: \<open>off\<close> where the feature is not enabled, \<open>what\<close> could not be read, or the
  line for the alerts.\<close>

definition alerts_found :: "string \<Rightarrow> string \<Rightarrow> (json list \<Rightarrow> py_exn + found) \<Rightarrow> py_exn + json \<Rightarrow> py_exn + found" where
  "alerts_found off unread f r = (case r of
      Inl x \<Rightarrow> Inr (if x = not_enabled then nothing_found\<lparr>info := [off]\<rparr> else nothing_found\<lparr>couldnt := [unread]\<rparr>)
    | Inr j \<Rightarrow> (if truthy j then bindR (iter_of j) f else Inr nothing_found))"

definition severity_found :: "string list \<Rightarrow> string \<Rightarrow> (nat \<times> string) list \<Rightarrow> found" where
  "severity_found sevs line ds =
     (if severe sevs then nothing_found\<lparr>urgent := [line], details := ds\<rparr> else nothing_found\<lparr>info := [line], details := ds\<rparr>)"

definition dep_severity :: "json \<Rightarrow> py_exn + string" where
  "dep_severity a = bindR (get_of (JObj []) ''security_advisory'' a) (get_text (JStr ''low'') ''severity'')"

definition dep_package :: "json \<Rightarrow> py_exn + string" where
  "dep_package a =
     bindR (bindR (bindR (get_of (JObj []) ''dependency'' a) (get_of (JObj []) ''package'')) (get_of (JStr ''?'') ''name'')) text_of"

definition dependabot_found :: "string \<Rightarrow> json list \<Rightarrow> py_exn + found" where
  "dependabot_found name dep =
     bindR (mapR dep_severity dep) (\<lambda>sevs. bindR (mapR dep_package dep) (\<lambda>pkgs. bindR (mapR (dep_detail name) dep) (\<lambda>ds.
     Inr (severity_found sevs
       (name @ '': '' @ str_of_nat (length dep) @ '' vulnerable dependenc'' @ (if length dep \<noteq> 1 then ''ies'' else ''y'') @
        '' ('' @ by_severity sevs @ '') in '' @ join '', '' (take 6 (sorted_set pkgs))) ds))))"

definition secrets_found :: "string \<Rightarrow> json list \<Rightarrow> py_exn + found" where
  "secrets_found name sec =
     bindR (bindR (mapR secret_kind sec) (mapR text_of)) (\<lambda>kinds. bindR (mapR (secret_detail name) sec) (\<lambda>ds.
     Inr (nothing_found\<lparr>urgent := [name @ '': '' @ str_of_nat (length sec) @ '' exposed secret'' @ plural (length sec) @ '' ('' @
       join '', '' (sorted_set kinds) @ ''); rotate, then close the alert''], details := ds\<rparr>)))"

definition code_severity :: "json \<Rightarrow> py_exn + string" where
  "code_severity a =
     bindR (bindR (get_of (JObj []) ''rule'' a) (get_of JNull ''security_severity_level'')) (\<lambda>l. Inr (py_str (or_j l (JStr ''low''))))"

definition code_found :: "string \<Rightarrow> json list \<Rightarrow> py_exn + found" where
  "code_found name alerts =
     bindR (mapR code_severity alerts) (\<lambda>sevs. bindR (mapR (code_detail name) alerts) (\<lambda>ds.
     Inr (severity_found sevs
       (name @ '': '' @ str_of_nat (length alerts) @ '' code-scanning finding'' @ plural (length alerts) @ '' ('' @ by_severity sevs @ '')'') ds)))"

definition repo_found :: "string \<Rightarrow> string \<times> repo_answers \<Rightarrow> py_exn + found" where
  "repo_found tok ra = (case ra of (repo, a) \<Rightarrow>
     let name = spoken_repo repo in
     bindR (rules_found repo (rules_answer a)) (\<lambda>rules.
     if tok = [] then Inr rules
     else
       bindR (alerts_found (name @ '': Dependabot alerts are off'') (name @ '' Dependabot alerts'') (dependabot_found name)
         (dependabot_answer a)) (\<lambda>dep.
       bindR (alerts_found (name @ '': secret scanning is off'') (name @ '' secret-scanning alerts'') (secrets_found name)
         (secrets_answer a)) (\<lambda>sec.
       bindR (alerts_found (name @ '': code scanning isn't set up'') (name @ '' code-scanning alerts'') (code_found name)
         (code_answer a)) (\<lambda>scan.
       Inr (add_found rules (add_found dep (add_found sec scan))))))))"

section \<open>The report\<close>

text \<open>A repository whose answers could not be read is only named.\<close>

definition all_found :: "(string \<times> (py_exn + found)) list \<Rightarrow> found" where
  "all_found rs = foldr (\<lambda>(r, f) acc. add_found (case f of
      Inl _ \<Rightarrow> nothing_found\<lparr>couldnt := [spoken_repo r]\<rparr> | Inr g \<Rightarrow> g) acc) rs nothing_found"

definition quiet_head :: string where
  "quiet_head = ''No open high or critical GitHub security alerts, and main is protected everywhere.''"

definition security_head :: "string \<Rightarrow> found \<Rightarrow> string" where
  "security_head tok f =
     (if urgent f \<noteq> [] then str_of_nat (length (urgent f)) @ '' GitHub security item'' @ plural (length (urgent f)) @
        '' need you: '' @ join ''; '' (urgent f) @ ''.''
      else if tok \<noteq> [] then quiet_head
      else if couldnt f = [] then ''Main is protected everywhere.'' else ''I could only partly check GitHub.'')"

definition max_detail_lines :: nat where
  "max_detail_lines = 40"

definition shown_details :: "(nat \<times> string) list \<Rightarrow> (nat \<times> string) list" where
  "shown_details ds = take max_detail_lines (sort_key fst ds)"

definition detail_lines :: "(nat \<times> string) list \<Rightarrow> string list" where
  "detail_lines ds =
     ''Details, most severe first:'' # map (\<lambda>d. ''- '' @ snd d) (shown_details ds) @
     (if length ds > length (shown_details ds)
      then [''- ...and '' @ str_of_nat (length ds - length (shown_details ds)) @ '' more (lowest severity) not shown''] else [])"

definition security_lines :: "string \<Rightarrow> bool \<Rightarrow> found \<Rightarrow> string list" where
  "security_lines tok detail f =
     [security_head tok f] @
     (if info f \<noteq> [] then [''Also: '' @ join ''; '' (info f) @ ''.''] else []) @
     (if tok = [] then [''Security alerts aren't set up yet: home-mcp needs a read-only GitHub token '' @
        ''in SSM at /home-platform/github/security-read-token (ADR-0024).''] else []) @
     (if detail \<and> details f \<noteq> [] then detail_lines (details f)
      else if details f \<noteq> [] \<and> \<not> detail then [''Ask for the detail to hear each finding.''] else []) @
     (if couldnt f \<noteq> [] then [''Couldn't check: '' @ join '', '' (couldnt f) @ ''.''] else [])"

definition security_repos :: "string \<Rightarrow> string list" where
  "security_repos repo =
     (case filter (\<lambda>r. repo = [] \<or> repo \<in> {r, spoken_repo r}) gh_repos of [] \<Rightarrow> gh_repos | rs \<Rightarrow> rs)"

definition github_security :: "string \<Rightarrow> string \<Rightarrow> bool \<Rightarrow> ('z net_scheme, string) web" where
  "github_security token repo detail =
     (let tok = (if token = ''none'' then [] else token); repos = security_repos repo in
      bind (mapM (\<lambda>r. bind (ask_repo tok r) (\<lambda>a. ret (r, repo_found tok (r, a)))) repos) (\<lambda>rs.
      ret (join [newline] (security_lines tok detail (all_found rs)))))"

section \<open>What a quiet report means\<close>

definition rules_intact :: "string \<Rightarrow> py_exn + json \<Rightarrow> bool" where
  "rules_intact repo r = (case bindR (bindR r iter_of) (mapR (get_of JNull ''type'')) of
      Inl _ \<Rightarrow> True
    | Inr have \<Rightarrow> list_all (\<lambda>t. JStr t \<in> set have \<or> t = ''required_status_checks'' \<and> repo \<in> set no_ci_repos) (keys wanted_rules))"

definition none_severe :: "(json \<Rightarrow> py_exn + string) \<Rightarrow> py_exn + json \<Rightarrow> bool" where
  "none_severe sev r = (case bindR (bindR r iter_of) (mapR sev) of Inl _ \<Rightarrow> True | Inr sevs \<Rightarrow> \<not> severe sevs)"

definition no_secrets :: "py_exn + json \<Rightarrow> bool" where
  "no_secrets r = (case r of Inl _ \<Rightarrow> True | Inr j \<Rightarrow> \<not> truthy j)"

definition nothing_alarming :: "string \<Rightarrow> repo_answers \<Rightarrow> bool" where
  "nothing_alarming repo a \<longleftrightarrow> rules_intact repo (rules_answer a) \<and> none_severe dep_severity (dependabot_answer a) \<and>
     no_secrets (secrets_answer a) \<and> none_severe code_severity (code_answer a)"

lemma missing_rules_Nil:
  "missing_rules repo have = [] \<longleftrightarrow>
     list_all (\<lambda>t. JStr t \<in> set have \<or> t = ''required_status_checks'' \<and> repo \<in> set no_ci_repos) (keys wanted_rules)"
  by (auto simp: missing_rules_def filter_empty_conv list_all_iff)

lemma rules_found_urgent: "rules_found repo r = Inr f \<Longrightarrow> urgent f = [] \<longleftrightarrow> rules_intact repo r"
  by (auto simp: rules_found_def rules_intact_def Let_def bindR_Inr nothing_found_def missing_rules_Nil split: sum.splits if_splits)

lemma severity_found_urgent: "urgent (severity_found sevs line ds) = [] \<longleftrightarrow> \<not> severe sevs"
  by (simp add: severity_found_def nothing_found_def)

lemma falsy_iter: "\<not> truthy j \<Longrightarrow> iter_of j = Inr xs \<Longrightarrow> xs = []"
  by (auto simp: iter_of_def split: json.splits)

lemma alerts_found_urgent:
  assumes "alerts_found off unread f r = Inr g"
    and "\<And>xs h. f xs = Inr h \<Longrightarrow> \<exists>sevs. mapR sev xs = Inr sevs \<and> (urgent h = [] \<longleftrightarrow> \<not> severe sevs)"
  shows "urgent g = [] \<longleftrightarrow> none_severe sev r"
proof (cases r)
  case (Inl x)
  then show ?thesis using assms(1) by (auto simp: alerts_found_def nothing_found_def none_severe_def split: if_splits)
next
  case (Inr j)
  show ?thesis
  proof (cases "truthy j")
    case True
    then obtain xs where "iter_of j = Inr xs" "f xs = Inr g"
      using assms(1) Inr by (auto simp: alerts_found_def bindR_Inr)
    then show ?thesis using assms(2) [of xs g] Inr by (auto simp: none_severe_def)
  next
    case False
    then have "g = nothing_found"
      using assms(1) Inr by (simp add: alerts_found_def)
    moreover have "none_severe sev r"
      using falsy_iter [OF False] Inr by (cases "iter_of j") (auto simp: none_severe_def severe_def)
    ultimately show ?thesis by (simp add: nothing_found_def)
  qed
qed

lemma secrets_found_urgent: "alerts_found off unread (secrets_found name) r = Inr g \<Longrightarrow> urgent g = [] \<longleftrightarrow> no_secrets r"
  by (auto simp: alerts_found_def no_secrets_def nothing_found_def secrets_found_def bindR_Inr split: sum.splits if_splits)

lemma dependabot_urgent:
  "alerts_found off unread (dependabot_found name) r = Inr g \<Longrightarrow> urgent g = [] \<longleftrightarrow> none_severe dep_severity r"
  by (erule alerts_found_urgent) (auto simp: dependabot_found_def bindR_Inr severity_found_urgent)

lemma code_urgent:
  "alerts_found off unread (code_found name) r = Inr g \<Longrightarrow> urgent g = [] \<longleftrightarrow> none_severe code_severity r"
  by (erule alerts_found_urgent) (auto simp: code_found_def bindR_Inr severity_found_urgent)

lemma repo_found_urgent:
  assumes "repo_found tok (repo, a) = Inr f" and "tok \<noteq> []"
  shows "urgent f = [] \<longleftrightarrow> nothing_alarming repo a"
  using assms rules_found_urgent [of repo "rules_answer a"] dependabot_urgent secrets_found_urgent code_urgent
  by (auto simp: repo_found_def Let_def bindR_Inr add_found_def nothing_alarming_def)

definition quiet_result :: "py_exn + found \<Rightarrow> bool" where
  "quiet_result f = (case f of Inl _ \<Rightarrow> True | Inr g \<Rightarrow> urgent g = [])"

lemma all_found_Cons: "all_found ((r, f) # rs) = add_found (case f of
      Inl _ \<Rightarrow> nothing_found\<lparr>couldnt := [spoken_repo r]\<rparr> | Inr g \<Rightarrow> g) (all_found rs)"
  by (simp add: all_found_def)

lemma all_found_urgent: "urgent (all_found rs) = [] \<longleftrightarrow> list_all (quiet_result \<circ> snd) rs"
proof (induction rs)
  case (Cons x rs)
  then show ?case
    by (cases x; cases "snd x") (auto simp: all_found_Cons add_found_def nothing_found_def quiet_result_def)
qed (simp add: all_found_def nothing_found_def)

lemma str_of_nat_first: "\<exists>c cs. str_of_nat n = c # cs \<and> is_digit c"
  using str_of_nat_digits [of _ n] by (cases "str_of_nat n") auto

lemma security_head_quiet:
  assumes "tok \<noteq> []"
  shows "security_head tok f = quiet_head \<longleftrightarrow> urgent f = []"
proof -
  have "str_of_nat n @ s \<noteq> quiet_head" for n s
    using str_of_nat_first [of n] by (auto simp: quiet_head_def is_digit_def code_def)
  then show ?thesis
    using assms by (simp add: security_head_def)
qed

lemma bind_ret: "bind (bind m (\<lambda>a. ret (h a))) (\<lambda>y. ret (g y)) = bind m (\<lambda>a. ret (g (h a)))"
  by (auto simp: bind_def ret_def fun_eq_iff split: prod.split sum.split)

lemma mapM_pure: "mapM f xs e w = (Inr ys, w') \<Longrightarrow> mapM (\<lambda>x. bind (f x) (\<lambda>y. ret (g y))) xs e w = (Inr (map g ys), w')"
  by (induction xs arbitrary: ys w) (fastforce simp: bind_def ret_def split: prod.splits sum.splits)+

text \<open>With a token, the tool says that nothing severe is open and \<open>main\<close> is protected everywhere exactly
  when, of the answers it could read, every repository has its branch rules, no dependency or code alert is
  critical or high, and no secret is exposed. An answer that could not be read counts as such an answer.\<close>

theorem github_quiet_iff:
  assumes "token \<noteq> []" and "token \<noteq> ''none''"
    and "mapM (\<lambda>r. bind (ask_repo token r) (\<lambda>a. ret (r, a))) (security_repos repo) e w = (Inr ras, w')"
  shows "\<exists>lines. github_security token repo detail e w = (Inr (join [newline] lines), w') \<and>
    (hd lines = quiet_head \<longleftrightarrow> list_all (\<lambda>(r, a). isl (repo_found token (r, a)) \<or> nothing_alarming r a) ras)"
proof -
  let ?rs = "map (\<lambda>(r, a). (r, repo_found token (r, a))) ras"
  have "mapM (\<lambda>r. bind (ask_repo token r) (\<lambda>a. ret (r, repo_found token (r, a)))) (security_repos repo) e w = (Inr ?rs, w')"
    using mapM_pure [OF assms(3), of "\<lambda>(r, a). (r, repo_found token (r, a))"]
    by (simp add: bind_ret)
  then have "github_security token repo detail e w = (Inr (join [newline] (security_lines token detail (all_found ?rs))), w')"
    using assms(2) by (simp add: github_security_def Let_def bind_def ret_def)
  moreover have "hd (security_lines token detail (all_found ?rs)) = quiet_head \<longleftrightarrow> list_all (quiet_result \<circ> snd) ?rs"
    using assms(1) by (simp add: security_lines_def security_head_quiet all_found_urgent)
  moreover have "(quiet_result \<circ> snd) (case x of (r, a) \<Rightarrow> (r, repo_found token (r, a))) \<longleftrightarrow>
      (case x of (r, a) \<Rightarrow> isl (repo_found token (r, a)) \<or> nothing_alarming r a)" for x
    using repo_found_urgent [OF _ assms(1), of "fst x" "snd x"]
    by (cases "repo_found token x") (auto simp: quiet_result_def split: prod.split)
  ultimately show ?thesis
    by (auto simp: list.pred_map comp_def intro!: exI [of _ "security_lines token detail (all_found ?rs)"])
qed

section \<open>The detail\<close>

text \<open>The detail shows at most 40 findings, in the order of their severity, and no finding it leaves out is
  more severe than one it shows; together they are all the findings.\<close>

theorem most_severe_shown:
  "\<exists>hidden. length (shown_details ds) \<le> 40 \<and> sorted (map fst (shown_details ds)) \<and>
     mset (shown_details ds) + mset hidden = mset ds \<and>
     (\<forall>d\<in>set (shown_details ds). \<forall>h\<in>set hidden. fst d \<le> fst h)"
proof (intro exI conjI)
  let ?s = "sort_key fst ds"
  show "length (shown_details ds) \<le> 40"
    by (simp add: shown_details_def max_detail_lines_def)
  have split: "?s = shown_details ds @ drop max_detail_lines ?s"
    by (simp add: shown_details_def)
  moreover have "sorted (map fst ?s)"
    by simp
  ultimately have "sorted (map fst (shown_details ds) @ map fst (drop max_detail_lines ?s))"
    by (metis map_append)
  then show "sorted (map fst (shown_details ds))" "\<forall>d\<in>set (shown_details ds). \<forall>h\<in>set (drop max_detail_lines ?s). fst d \<le> fst h"
    by (auto simp: sorted_append)
  show "mset (shown_details ds) + mset (drop max_detail_lines ?s) = mset ds"
    using split by (metis mset_sort union_code)
qed

section \<open>An unreachable GitHub\<close>

definition four_checks :: "string list" where
  "four_checks = ['' branch rules'', '' Dependabot alerts'', '' secret-scanning alerts'', '' code-scanning alerts'']"

definition unread_repo :: "string \<Rightarrow> found" where
  "unread_repo r = nothing_found\<lparr>couldnt := map (\<lambda>k. spoken_repo r @ k) four_checks\<rparr>"

lemma unread_found:
  assumes "tok \<noteq> []"
  shows "repo_found tok (r, \<lparr>rules_answer = Inl x1, dependabot_answer = Inl (HTTPX x2), secrets_answer = Inl (HTTPX x3),
    code_answer = Inl (HTTPX x4)\<rparr>) = Inr (unread_repo r)"
  using assms by (simp add: repo_found_def rules_found_def alerts_found_def not_enabled_def add_found_def nothing_found_def
      unread_repo_def four_checks_def Let_def)

lemma ask_repo_unreachable:
  assumes "\<And>n q. \<exists>x. answer e n q = Inl (HTTPX x)" and "tok \<noteq> []"
  shows "\<exists>w'. bind (ask_repo tok repo) (\<lambda>a. ret (repo, repo_found tok (repo, a))) e w = (Inr (repo, Inr (unread_repo repo)), w')"
proof -
  have get: "\<exists>x w'. outcome (sec_get b p ps) e w = (Inr (Inl (HTTPX x)), w')" for b p ps w
    using assms(1) [of "length (sent w)" "Request ''GET'' (gh_api @ p) ps b None"]
    by (auto simp: outcome_def try_catch_def sec_get_def bind_def send_def ret_def)
  obtain x1 w1 where 1: "outcome (sec_get None (repo_url repo ''/rules/branches/main'') []) e w = (Inr (Inl (HTTPX x1)), w1)"
    using get by blast
  obtain x2 w2 where 2: "outcome (sec_get (Some tok) (repo_url repo ''/dependabot/alerts'') open_alerts) e w1 = (Inr (Inl (HTTPX x2)), w2)"
    using get by blast
  obtain x3 w3 where 3: "outcome (sec_get (Some tok) (repo_url repo ''/secret-scanning/alerts'') open_alerts) e w2 = (Inr (Inl (HTTPX x3)), w3)"
    using get by blast
  obtain x4 w4 where "outcome (sec_get (Some tok) (repo_url repo ''/code-scanning/alerts'') open_alerts) e w3 = (Inr (Inl (HTTPX x4)), w4)"
    using get by blast
  with 1 2 3 show ?thesis
    using assms(2) by (simp add: ask_repo_def bind_def ret_def unread_found)
qed

lemma mapM_steps: "(\<And>x w. \<exists>w'. f x e w = (Inr (g x), w')) \<Longrightarrow> \<exists>w'. mapM f xs e w = (Inr (map g xs), w')"
proof (induction xs arbitrary: w)
  case (Cons x xs)
  obtain w1 where y: "f x e w = (Inr (g x), w1)"
    using Cons.prems by blast
  obtain w2 where "mapM f xs e w1 = (Inr (map g xs), w2)"
    using Cons by blast
  with y show ?case
    by (simp add: bind_def ret_def)
qed (simp add: ret_def)

lemma all_found_unread:
  "all_found (map (\<lambda>r. (r, Inr (unread_repo r))) rs) =
     nothing_found\<lparr>couldnt := concat (map (\<lambda>r. map (\<lambda>k. spoken_repo r @ k) four_checks) rs)\<rparr>"
  by (induction rs) (simp_all add: all_found_Cons add_found_def unread_repo_def nothing_found_def all_found_def)

text \<open>When no request to GitHub gets an answer, the tool still leads with the words that no severe alert is
  open and \<open>main\<close> is protected everywhere. Only its last line names what it couldn't check, which is every
  check of every repository.\<close>

theorem unreachable_says_protected:
  assumes "\<And>n q. \<exists>x. answer e n q = Inl (HTTPX x)" and "token \<noteq> []" and "token \<noteq> ''none''"
  shows "fst (github_security token repo detail e w) =
    Inr (join [newline] [quiet_head, ''Couldn't check: '' @
      join '', '' (concat (map (\<lambda>r. map (\<lambda>k. spoken_repo r @ k) four_checks) (security_repos repo))) @ ''.''])"
proof -
  let ?ask = "\<lambda>r. bind (ask_repo token r) (\<lambda>a. ret (r, repo_found token (r, a)))"
  obtain w' where run: "mapM ?ask (security_repos repo) e w = (Inr (map (\<lambda>r. (r, Inr (unread_repo r))) (security_repos repo)), w')"
    using mapM_steps [of ?ask e "\<lambda>r. (r, Inr (unread_repo r))"] ask_repo_unreachable [OF assms(1,2)] by blast
  have "security_repos repo \<noteq> []"
    by (simp add: security_repos_def gh_repos_def split: list.split)
  then have "concat (map (\<lambda>r. map (\<lambda>k. spoken_repo r @ k) four_checks) (security_repos repo)) \<noteq> []"
    by (cases "security_repos repo") (simp_all add: four_checks_def)
  then have "security_lines token detail (all_found (map (\<lambda>r. (r, Inr (unread_repo r))) (security_repos repo))) =
      [quiet_head, ''Couldn't check: '' @
        join '', '' (concat (map (\<lambda>r. map (\<lambda>k. spoken_repo r @ k) four_checks) (security_repos repo))) @ ''.'']"
    using assms(2) by (simp add: all_found_unread security_lines_def security_head_def nothing_found_def)
  then show ?thesis
    using run assms(3) by (simp only: github_security_def if_False Let_def bind_def ret_def prod.case sum.case fst_conv)
qed

definition no_network :: http_env where
  "no_network = \<lparr>answer = (\<lambda>n q. Inl (HTTPX ''ConnectError'')), loads = (\<lambda>s. None), yaml = (\<lambda>s. None), mono = 0, wall = 0\<rparr>"

theorem unreachable_says_protected_witness:
  "fst (github_security ''t'' ''hue'' False no_network \<lparr>sent = []\<rparr>) =
    Inr (join [newline] [quiet_head, ''Couldn't check: '' @
      join '', '' (concat (map (\<lambda>r. map (\<lambda>k. spoken_repo r @ k) four_checks) (security_repos ''hue''))) @ ''.''])"
  by (rule unreachable_says_protected) (simp_all add: no_network_def)

text \<open>For the witness of the report: \<open>hue\<close> has one low dependency alert and its rules, and nothing else.\<close>

definition sample_github :: http_env where
  "sample_github =
    \<lparr>answer = (\<lambda>n q. Inr (Response 200 [] (req_url q))),
     loads = (\<lambda>s. Some (JList (if suffix ''main'' s then map (\<lambda>t. JObj [(''type'', JStr t)]) (keys wanted_rules)
       else if suffix ''dependabot/alerts'' s then [JObj [(''security_advisory'', JObj [(''severity'', JStr ''low'')])]] else []))),
     yaml = (\<lambda>s. None), mono = 0, wall = 0\<rparr>"

definition sample_asked :: "(string \<times> repo_answers) list" where
  "sample_asked = [(''hue'', \<lparr>rules_answer = Inr (JList (map (\<lambda>t. JObj [(''type'', JStr t)]) (keys wanted_rules))),
     dependabot_answer = Inr (JList [JObj [(''security_advisory'', JObj [(''severity'', JStr ''low'')])]]),
     secrets_answer = Inr (JList []), code_answer = Inr (JList [])\<rparr>)]"

lemma sample_asking:
  "fst (mapM (\<lambda>r. bind (ask_repo ''t'' r) (\<lambda>a. ret (r, a))) (security_repos ''hue'') sample_github \<lparr>sent = []\<rparr>) = Inr sample_asked"
  by code_simp

theorem github_quiet_iff_witness:
  "\<exists>lines w'. github_security ''t'' ''hue'' False sample_github \<lparr>sent = []\<rparr> = (Inr (join [newline] lines), w') \<and>
    (hd lines = quiet_head \<longleftrightarrow> list_all (\<lambda>(r, a). isl (repo_found ''t'' (r, a)) \<or> nothing_alarming r a) sample_asked)"
proof -
  obtain w' where "mapM (\<lambda>r. bind (ask_repo ''t'' r) (\<lambda>a. ret (r, a))) (security_repos ''hue'') sample_github \<lparr>sent = []\<rparr> =
      (Inr sample_asked, w')"
    using sample_asking by (auto simp: fst_def split: prod.splits)
  then show ?thesis
    using github_quiet_iff [of "''t''" "''hue''" sample_github "\<lparr>sent = []\<rparr>" sample_asked w' False] by auto
qed

end
