(* ===== verification/AwsPosture.thy ===== *)
theory AwsPosture
  imports PyConv Moment
begin

text \<open>
  \<open>compose/aws/home-mcp/aws_posture.py\<close>: findings about the AWS account. boto3 and Prometheus are the
  environment: by the number of the call, an answer, or the exception it raises. The pages of a
  paginator are answers of their own, asked for one at a time. A time in an answer of boto3 is the
  ISO text of its value. The checks run one after the other.
\<close>

section \<open>Calls\<close>

datatype aws_call = Aws (service: string) (operation: string) (arguments: "json dict") | Prom (promql: string)

text \<open>An exception of botocore is kept with its class, an error of the service with its code besides.\<close>

datatype aws_exn = ClientErr string "string option" | BotoErr string | OtherErr py_exn

record aws_env =
  aws_answer :: "nat \<Rightarrow> aws_call \<Rightarrow> aws_exn + json"
  aws_pages :: "nat \<Rightarrow> aws_call \<Rightarrow> (aws_exn + json) list"
  event_json :: "string \<Rightarrow> json option"
  aws_now :: rat

type_synonym 'a aws = "(aws_env, aws_call list, aws_exn, 'a) io"

definition call_aws :: "aws_call \<Rightarrow> json aws" where
  "call_aws c = (\<lambda>e w. (aws_answer e (length w) c, w @ [c]))"

text \<open>Starting a paginator, and what it will yield.\<close>

definition paginate :: "string \<Rightarrow> string \<Rightarrow> json dict \<Rightarrow> (aws_exn + json) list aws" where
  "paginate s op args = (\<lambda>e w. (Inr (aws_pages e (length w) (Aws s op args)), w @ [Aws s op args]))"

definition liftP :: "py_exn + 'a \<Rightarrow> 'a aws" where
  "liftP r = liftR (map_sum OtherErr id r)"

definition aws_outcome :: "'a aws \<Rightarrow> (aws_exn + 'a) aws" where
  "aws_outcome m = try_catch (bind m (\<lambda>a. ret (Inr a))) (\<lambda>x. ret (Inl x))"

type_synonym check_result = "string list \<times> string list"   \<comment> \<open>findings and notes\<close>

text \<open>\<open>resp.get(k, [])\<close> as the code iterates it.\<close>

definition get_list :: "string \<Rightarrow> json \<Rightarrow> py_exn + json list" where
  "get_list k j = bindR (get_of (JList []) k j) iter_of"

text \<open>\<open>for page in pages: ...\<close> where the body only adds lines.\<close>

fun each_page :: "(json \<Rightarrow> 'a list aws) \<Rightarrow> (aws_exn + json) list \<Rightarrow> 'a list aws" where
  "each_page f [] = ret []"
| "each_page f (p # ps) = bind (liftR p) (\<lambda>j. bind (f j) (\<lambda>xs. bind (each_page f ps) (\<lambda>ys. ret (xs @ ys))))"

section \<open>GuardDuty\<close>

definition findings_args :: "json \<Rightarrow> json dict" where
  "findings_args det =
    [(''DetectorId'', det),
     (''FindingCriteria'', JObj [(''Criterion'', JObj [(''service.archived'', JObj [(''Eq'', JList [JStr ''false''])]),
        (''severity'', JObj [(''Gte'', JInt 4)])])]),
     (''MaxResults'', JInt 50)]"

definition severity_number :: "json \<Rightarrow> py_exn + rat" where
  "severity_number f = bindR (get_of (JInt 0) ''Severity'' f) py_number"

definition guardduty_line :: "json \<Rightarrow> py_exn + string" where
  "guardduty_line f =
     bindR (severity_number f) (\<lambda>sev. bindR (get_of (JStr ''finding'') ''Type'' f) (\<lambda>k. bindR (get_text k ''Title'' f) (\<lambda>title.
     Inr (''GuardDuty '' @ (if 7 \<le> sev then ''high'' else ''medium'') @ '': '' @ title))))"

definition and_more :: "string \<Rightarrow> 'a list \<Rightarrow> string list" where
  "and_more what xs =
     (if 5 < length xs then [''... and '' @ str_of_nat (length xs - 5) @ '' more '' @ what @ '' findings''] else [])"

definition guardduty_lines :: "json \<Rightarrow> py_exn + string list" where
  "guardduty_lines resp =
     bindR (get_list ''Findings'' resp) (\<lambda>fs. bindR (mapR (\<lambda>f. bindR (severity_number f) (\<lambda>s. Inr (s, f))) fs) (\<lambda>sfs.
     let findings = map snd (sort_key (\<lambda>sf. - fst sf) sfs) in
     bindR (mapR guardduty_line (take 5 findings)) (\<lambda>ls. Inr (ls @ and_more ''GuardDuty'' findings))))"

definition guardduty :: "check_result aws" where
  "guardduty =
     bind (call_aws (Aws ''guardduty'' ''list_detectors'' [])) (\<lambda>r. bind (liftP (get_of (JList []) ''DetectorIds'' r)) (\<lambda>detectors.
     if \<not> truthy detectors then ret ([], [''GuardDuty isn't enabled''])
     else
       bind (liftP (at_index 0 detectors)) (\<lambda>det.
       bind (call_aws (Aws ''guardduty'' ''list_findings'' (findings_args det))) (\<lambda>r. bind (liftP (get_of (JList []) ''FindingIds'' r)) (\<lambda>ids.
       if \<not> truthy ids then ret ([], [])
       else
         bind (call_aws (Aws ''guardduty'' ''get_findings'' [(''DetectorId'', det), (''FindingIds'', ids)])) (\<lambda>r.
         bind (liftP (guardduty_lines r)) (\<lambda>ls. ret (ls, []))))))))"

section \<open>Access Analyzer\<close>

text \<open>\<open>s.split(sep)[-1]\<close>: the pieces are cut from the left.\<close>

fun last_piece :: "string \<Rightarrow> nat \<Rightarrow> string \<Rightarrow> string \<Rightarrow> string" where
  "last_piece sep k acc [] = acc"
| "last_piece sep (Suc k) acc (c # s) = last_piece sep k acc s"
| "last_piece sep 0 acc (c # s) =
     (if prefix sep (c # s) then last_piece sep (length sep - 1) [] s else last_piece sep 0 (acc @ [c]) s)"

definition resource_name :: "string \<Rightarrow> string" where
  "resource_name arn = last_piece ''/'' 0 [] (last_piece '':::'' 0 [] arn)"

definition analyzer_line :: "json \<Rightarrow> py_exn + string" where
  "analyzer_line f =
     bindR (get_of (JStr []) ''resource'' f) (\<lambda>arn.
     bindR (case arn of JStr s \<Rightarrow> Inr (resource_name s) | _ \<Rightarrow> Inl (PyError ''AttributeError'')) (\<lambda>name.
     bindR (get_text (JStr ''resource'') ''resourceType'' f) (\<lambda>kind.
     Inr (''Access Analyzer: '' @ kind @ '' '' @ (if name \<noteq> [] then name else kind) @ '' is accessible from outside the account''))))"

definition is_active :: "json \<Rightarrow> py_exn + bool" where
  "is_active a = bindR (get_of JNull ''status'' a) (\<lambda>s. Inr (s = JStr ''ACTIVE''))"

definition access_analyzer :: "check_result aws" where
  "access_analyzer =
     bind (call_aws (Aws ''accessanalyzer'' ''list_analyzers'' [(''type'', JStr ''ACCOUNT'')])) (\<lambda>r.
     bind (liftP (bindR (get_list ''analyzers'' r) (filterR is_active))) (\<lambda>analyzers.
     case analyzers of
       [] \<Rightarrow> ret ([], [''IAM Access Analyzer isn't enabled''])
     | a # _ \<Rightarrow>
         bind (liftP (item_of ''arn'' a)) (\<lambda>arn.
         bind (call_aws (Aws ''accessanalyzer'' ''list_findings_v2'' [(''analyzerArn'', arn),
           (''filter'', JObj [(''status'', JObj [(''eq'', JList [JStr ''ACTIVE''])])]), (''maxResults'', JInt 50)])) (\<lambda>r.
         bind (liftP (get_list ''findings'' r)) (\<lambda>found.
         bind (liftP (mapR analyzer_line (take 5 found))) (\<lambda>ls. ret (ls @ and_more ''Access Analyzer'' found, [])))))))"

section \<open>Security groups\<close>

text \<open>\<open>EXPECTED_OPEN\<close>: the pairs of a port and a protocol in a list like the default one.\<close>

definition default_open :: string where
  "default_open = ''tcp/80,tcp/443,udp/51820''"

definition open_pair :: "string \<Rightarrow> (string \<times> string) list" where
  "open_pair x = (case partition1 (CHR ''/'') (strip x) of
      None \<Rightarrow> [] | Some (proto, port) \<Rightarrow> (if port \<noteq> [] then [(port, proto)] else []))"

definition expected_open :: "string \<Rightarrow> (string \<times> string) list" where
  "expected_open s = concat (map open_pair (split_on (CHR '','') s))"

definition has_cidr :: "string \<Rightarrow> string \<Rightarrow> json \<Rightarrow> py_exn + bool" where
  "has_cidr k cidr r = bindR (get_of JNull k r) (\<lambda>v. Inr (v = JStr cidr))"

definition open_to_world :: "json \<Rightarrow> py_exn + bool" where
  "open_to_world perm =
     bindR (bindR (get_list ''IpRanges'' perm) (anyR (has_cidr ''CidrIp'' ''0.0.0.0/0''))) (\<lambda>v4.
     if v4 then Inr True else bindR (get_list ''Ipv6Ranges'' perm) (anyR (has_cidr ''CidrIpv6'' ''::/0'')))"

text \<open>The ports the loop looks at: at most the first 65 of the range.\<close>

definition looked_at :: "int \<Rightarrow> int \<Rightarrow> int list" where
  "looked_at lo hi = [lo..min hi (lo + 64)]"

definition port_span :: "int \<Rightarrow> int \<Rightarrow> string" where
  "port_span lo hi = (if hi \<noteq> lo then str_of_int lo @ ''-'' @ str_of_int hi else str_of_int lo)"

definition range_lines :: "(string \<times> string) list \<Rightarrow> string \<Rightarrow> string \<Rightarrow> int \<Rightarrow> int \<Rightarrow> string list" where
  "range_lines expected sg_name proto lo hi =
     (if list_ex (\<lambda>port. (str_of_int port, proto) \<notin> set expected) (looked_at lo hi)
      then [''Security group '' @ sg_name @ '': '' @ proto @ ''/'' @ port_span lo hi @ '' open to the internet''] else [])"

definition perm_lines :: "(string \<times> string) list \<Rightarrow> string \<Rightarrow> json \<Rightarrow> py_exn + string list" where
  "perm_lines expected sg_name perm =
     bindR (open_to_world perm) (\<lambda>world.
     if \<not> world then Inr []
     else
       bindR (get_text (JStr ''-1'') ''IpProtocol'' perm) (\<lambda>proto.
       bindR (get_of JNull ''FromPort'' perm) (\<lambda>lo. bindR (get_of JNull ''ToPort'' perm) (\<lambda>hi.
       if proto = ''-1'' \<or> lo = JNull then Inr [''Security group '' @ sg_name @ '': ALL traffic open to the internet'']
       else (case (lo, hi) of
           (JInt a, JInt b) \<Rightarrow> Inr (range_lines expected sg_name proto a b)
         | _ \<Rightarrow> Inl (PyError ''TypeError''))))))"

definition group_lines :: "(string \<times> string) list \<Rightarrow> json \<Rightarrow> py_exn + string list" where
  "group_lines expected sg =
     bindR (get_list ''IpPermissions'' sg) (\<lambda>perms. bindR (get_text JNull ''GroupName'' sg) (\<lambda>sg_name.
     bindR (mapR (perm_lines expected sg_name) perms) (\<lambda>ls. Inr (concat ls))))"

definition security_groups :: "(string \<times> string) list \<Rightarrow> check_result aws" where
  "security_groups expected =
     bind (paginate ''ec2'' ''describe_security_groups'' []) (\<lambda>pages.
     bind (each_page (\<lambda>page. liftP (bindR (item_of ''SecurityGroups'' page) (\<lambda>s. bindR (iter_of s) (\<lambda>sgs.
       bindR (mapR (group_lines expected) sgs) (\<lambda>ls. Inr (concat ls)))))) pages) (\<lambda>ls.
     ret (ls, [])))"

section \<open>Sign-ins\<close>

definition sign_in_args :: "rat \<Rightarrow> json dict" where
  "sign_in_args start =
    [(''LookupAttributes'', JList [JObj [(''AttributeKey'', JStr ''EventName''), (''AttributeValue'', JStr ''ConsoleLogin'')]]),
     (''StartTime'', JInt \<lfloor>start\<rfloor>), (''PaginationConfig'', JObj [(''MaxItems'', JInt 200)])]"

text \<open>Whether a sign-in is one of the root account, and the name if it went without MFA.\<close>

definition sign_in :: "(string \<Rightarrow> json option) \<Rightarrow> json \<Rightarrow> py_exn + bool \<times> string list" where
  "sign_in parse ev =
     bindR (get_of (JStr ''{}'') ''CloudTrailEvent'' ev) (\<lambda>body.
     bindR (case body of
         JStr s \<Rightarrow> (case parse s of None \<Rightarrow> Inl (PyError ''JSONDecodeError'') | Some j \<Rightarrow> Inr j)
       | _ \<Rightarrow> Inl (PyError ''TypeError'')) (\<lambda>detail.
     bindR (get_of (JObj []) ''userIdentity'' detail) (\<lambda>who. bindR (get_of JNull ''type'' who) (\<lambda>kind.
     bindR (bindR (get_of (JObj []) ''additionalEventData'' detail) (get_of JNull ''MFAUsed'')) (\<lambda>mfa.
     bindR (bindR (get_of (JObj []) ''responseElements'' detail) (get_of JNull ''ConsoleLogin'')) (\<lambda>res.
     if res = JStr ''Success'' \<and> mfa = JStr ''No'' \<and> kind \<noteq> JStr ''AssumedRole'' then
       bindR (get_of JNull ''userName'' who) (\<lambda>n. bindR (get_of (JStr ''?'') ''type'' who) (\<lambda>t.
       bindR (text_of (or_j n t)) (\<lambda>name. Inr (kind = JStr ''Root'', [name]))))
     else Inr (kind = JStr ''Root'', [])))))))"

definition sign_in_lines :: "(bool \<times> string list) list \<Rightarrow> string list" where
  "sign_in_lines xs =
     (let root = length (filter fst xs); no_mfa = concat (map snd xs) in
      (if root \<noteq> 0 then [''The root account signed in '' @ str_of_nat root @ '' time'' @ plural root @ '' in the last 7 days''] else []) @
      (if no_mfa \<noteq> [] then [''Console sign-ins without MFA: '' @ join '', '' (sorted_set no_mfa)] else []))"

definition root_and_console :: "check_result aws" where
  "root_and_console =
     bind (ask id) (\<lambda>e.
     bind (paginate ''cloudtrail'' ''lookup_events'' (sign_in_args (aws_now e - 7 * 86400))) (\<lambda>pages.
     bind (each_page (\<lambda>page. liftP (bindR (get_list ''Events'' page) (mapR (sign_in (event_json e))))) pages) (\<lambda>xs.
     ret (sign_in_lines xs, []))))"

section \<open>IAM users\<close>

definition key_max_age_days :: int where
  "key_max_age_days = 90"

definition age_days :: "rat \<Rightarrow> json \<Rightarrow> py_exn + int" where
  "age_days now t = (case t of
      JStr s \<Rightarrow> (case fromisodatetime s of
          Some (x, Some z) \<Rightarrow> Inr \<lfloor>(now - timestamp x z) / 86400\<rfloor>
        | _ \<Rightarrow> Inl (PyError ''TypeError''))
    | _ \<Rightarrow> Inl (PyError ''TypeError''))"

definition key_line :: "rat \<Rightarrow> string \<Rightarrow> json \<Rightarrow> py_exn + string list" where
  "key_line now name k =
     bindR (bindR (item_of ''CreateDate'' k) (age_days now)) (\<lambda>age. bindR (get_of JNull ''Status'' k) (\<lambda>s.
     Inr (if s = JStr ''Active'' \<and> key_max_age_days < age
       then [''IAM user '' @ name @ '': access key is '' @ str_of_int age @ '' days old; rotate it''] else [])))"

definition for_user :: "json \<Rightarrow> string \<Rightarrow> aws_call" where
  "for_user u op = Aws ''iam'' op [(''UserName'', u)]"

text \<open>A user without a login profile cannot use the console.\<close>

definition has_console :: "json \<Rightarrow> bool aws" where
  "has_console u =
     try_catch (bind (call_aws (for_user u ''get_login_profile'')) (\<lambda>_. ret True))
       (\<lambda>x. case x of ClientErr _ c \<Rightarrow> (if c = Some ''NoSuchEntity'' then ret False else raise x) | _ \<Rightarrow> raise x)"

definition user_lines :: "json \<Rightarrow> string list aws" where
  "user_lines u =
     bind (liftP (item_of ''UserName'' u)) (\<lambda>n. let name = py_str n in
     bind (call_aws (for_user n ''list_access_keys'')) (\<lambda>r. bind (ask aws_now) (\<lambda>now.
     bind (liftP (bindR (get_list ''AccessKeyMetadata'' r) (mapR (key_line now name)))) (\<lambda>keys.
     bind (has_console n) (\<lambda>console.
     if \<not> console then ret (concat keys)
     else
       bind (call_aws (for_user n ''list_mfa_devices'')) (\<lambda>r. bind (liftP (get_of JNull ''MFADevices'' r)) (\<lambda>mfa.
       ret (concat keys @ (if truthy mfa then [] else [''IAM user '' @ name @ '': console access without MFA'']))))))))) "

fun each_user :: "json list \<Rightarrow> string list aws" where
  "each_user [] = ret []"
| "each_user (u # us) = bind (user_lines u) (\<lambda>ls. bind (each_user us) (\<lambda>ms. ret (ls @ ms)))"

definition iam_users :: "check_result aws" where
  "iam_users =
     bind (paginate ''iam'' ''list_users'' []) (\<lambda>pages.
     bind (each_page (\<lambda>page. bind (liftP (bindR (item_of ''Users'' page) iter_of)) each_user) pages) (\<lambda>ls. ret (ls, [])))"

section \<open>The guard of the instance role\<close>

definition prom_result :: "string \<Rightarrow> json aws" where
  "prom_result expr = bind (call_aws (Prom expr)) (\<lambda>j. liftP (item_path [''data'', ''result''] j))"

definition sample_of :: "json \<Rightarrow> py_exn + json" where
  "sample_of rs = bindR (at_index 0 rs) (\<lambda>r. bindR (item_of ''value'' r) (at_index 1))"

definition guard_stale_seconds :: rat where
  "guard_stale_seconds = 3 * 3600"

definition guard_lines :: "rat \<Rightarrow> json \<Rightarrow> json \<Rightarrow> py_exn + string list" where
  "guard_lines now active last_run =
     bindR (sample_of active) (\<lambda>a.
     bindR (if truthy last_run then bindR (bindR (sample_of last_run) to_float) (\<lambda>t. Inr (guard_stale_seconds < now - t)) else Inr False) (\<lambda>stale.
     Inr ((if a \<noteq> JStr ''1'' then [''IMDS guard is off or rolled back: app containers can read the hub role's credentials '' @
            ''(journalctl -u imds-guard on the hub says why)''] else []) @
          (if stale then [''IMDS guard hasn't run for over 3 hours (it should run hourly)''] else []))))"

definition imds_guard :: "check_result aws" where
  "imds_guard =
     bind (prom_result ''hub_imds_guard_active{instance=\"aws-hub\"}'') (\<lambda>active.
     bind (prom_result ''hub_imds_guard_last_run_timestamp_seconds{instance=\"aws-hub\"}'') (\<lambda>last_run.
     if \<not> truthy active then ret ([''IMDS guard isn't reporting: app containers may be able to read the hub role's credentials''], [])
     else bind (ask aws_now) (\<lambda>now. bind (liftP (guard_lines now active last_run)) (\<lambda>ls. ret (ls, [])))))"

section \<open>The report\<close>

definition aws_checks :: "(string \<times> string) list \<Rightarrow> (string \<times> check_result aws) list" where
  "aws_checks expected =
    [(''GuardDuty'', guardduty), (''Access Analyzer'', access_analyzer), (''security groups'', security_groups expected),
     (''sign-in history'', root_and_console), (''IAM users'', iam_users), (''IMDS guard'', imds_guard)]"

definition exn_code :: "aws_exn \<Rightarrow> string" where
  "exn_code x = (case x of
      ClientErr n c \<Rightarrow> (case c of Some s \<Rightarrow> s | None \<Rightarrow> n)
    | BotoErr n \<Rightarrow> n
    | OtherErr y \<Rightarrow> exn_name y)"

definition looks_clean :: string where
  "looks_clean = ''AWS looks clean: no GuardDuty or Access Analyzer findings, nothing unexpected open to the internet, '' @
     ''no root or no-MFA sign-ins this week, and app containers are blocked from the hub's credentials.''"

definition posture_head :: "string list \<Rightarrow> string" where
  "posture_head findings =
     (if findings \<noteq> [] then str_of_nat (length findings) @ '' AWS finding'' @ plural (length findings) @ '': '' @ join ''; '' findings @ ''.''
      else looks_clean)"

definition posture_lines :: "(string \<times> (aws_exn + check_result)) list \<Rightarrow> string list" where
  "posture_lines rs =
     (let findings = concat (map (\<lambda>(n, r). case r of Inl _ \<Rightarrow> [] | Inr c \<Rightarrow> fst c) rs);
          notes = concat (map (\<lambda>(n, r). case r of Inl _ \<Rightarrow> [] | Inr c \<Rightarrow> snd c) rs);
          couldnt = concat (map (\<lambda>(n, r). case r of Inl x \<Rightarrow> [n @ '' ('' @ exn_code x @ '')''] | Inr _ \<Rightarrow> []) rs)
      in [posture_head findings] @
         (if notes \<noteq> [] then [''Note: '' @ join ''; '' notes @ ''.''] else []) @
         (if couldnt \<noteq> [] then [''Couldn't check: '' @ join ''; '' couldnt @ ''.''] else []))"

fun run_checks :: "(string \<times> check_result aws) list \<Rightarrow> (string \<times> (aws_exn + check_result)) list aws" where
  "run_checks [] = ret []"
| "run_checks ((n, c) # cs) = bind (aws_outcome c) (\<lambda>r. bind (run_checks cs) (\<lambda>rs. ret ((n, r) # rs)))"

definition aws_posture :: "string \<Rightarrow> string aws" where
  "aws_posture expected_env =
     bind (run_checks (aws_checks (expected_open expected_env))) (\<lambda>rs. ret (join [newline] (posture_lines rs)))"

section \<open>Which open ports are reported\<close>

lemma str_of_int_inject: "str_of_int i = str_of_int j \<longleftrightarrow> i = j"
proof
  have minus: "str_of_nat n \<noteq> CHR ''-'' # s" for n s
    using str_of_nat_digits [of "CHR ''-''" n] by (auto simp: is_digit_def code_def)
  assume "str_of_int i = str_of_int j"
  then show "i = j"
    by (auto simp: str_of_int_def minus minus [symmetric] split: if_splits)
qed simp

definition all_expected :: "(string \<times> string) list \<Rightarrow> string \<Rightarrow> int \<Rightarrow> int \<Rightarrow> bool" where
  "all_expected expected proto lo hi \<longleftrightarrow> list_all (\<lambda>port. (str_of_int port, proto) \<in> set expected) [lo..hi]"

lemma few_expected:
  assumes "length expected \<le> 64" and "list_all (\<lambda>port. (str_of_int port, proto) \<in> set expected) [lo..lo + 64]"
  shows False
proof -
  let ?pairs = "map (\<lambda>port. (str_of_int port, proto)) [lo..lo + 64]"
  have "distinct ?pairs"
    by (simp add: distinct_map inj_on_def str_of_int_inject)
  then have "card (set ?pairs) = 65"
    using distinct_card [of ?pairs] by simp
  moreover have "set ?pairs \<subseteq> set expected"
    using assms(2) by (auto simp: list_all_iff)
  then have "card (set ?pairs) \<le> length expected"
    by (meson card_length card_mono le_trans List.finite_set)
  ultimately show False
    using assms(1) by simp
qed

lemma range_lines_Nil:
  assumes "length expected \<le> 64"
  shows "range_lines expected sg_name proto lo hi = [] \<longleftrightarrow> all_expected expected proto lo hi"
proof (cases "hi \<le> lo + 64")
  case True
  then show ?thesis
    by (simp add: range_lines_def looked_at_def all_expected_def list_all_iff list_ex_iff)
next
  case False
  then have "\<not> list_all (\<lambda>port. (str_of_int port, proto) \<in> set expected) (looked_at lo hi)"
    using few_expected [OF assms] by (auto simp: looked_at_def min_def)
  moreover from this have "\<not> all_expected expected proto lo hi"
    by (auto simp: looked_at_def all_expected_def list_all_iff)
  ultimately show ?thesis
    by (auto simp: range_lines_def list_all_iff list_ex_iff)
qed

text \<open>A permission that the whole internet has, with an entry for all addresses of IPv4 or of IPv6.\<close>

definition has_entry :: "string \<Rightarrow> string \<Rightarrow> string \<Rightarrow> json \<Rightarrow> bool" where
  "has_entry ranges k cidr perm \<longleftrightarrow>
     (\<exists>fields rs r. perm = JObj fields \<and> map_of fields ranges = Some (JList rs) \<and> JObj r \<in> set rs \<and> map_of r k = Some (JStr cidr))"

definition world_open :: "json \<Rightarrow> bool" where
  "world_open perm \<longleftrightarrow> has_entry ''IpRanges'' ''CidrIp'' ''0.0.0.0/0'' perm \<or> has_entry ''Ipv6Ranges'' ''CidrIpv6'' ''::/0'' perm"

lemma anyR_found: "anyR p xs = Inr b \<Longrightarrow> b \<longleftrightarrow> (\<exists>x\<in>set xs. p x = Inr True)"
  by (induction xs) (auto simp: bindR_Inr split: if_splits)

lemma has_cidr_True: "has_cidr k cidr r = Inr True \<longleftrightarrow> (\<exists>d. r = JObj d \<and> map_of d k = Some (JStr cidr))"
  by (auto simp: has_cidr_def bindR_Inr get_of_def get_or_def split: json.splits option.splits)

lemma any_entry:
  assumes "get_list ranges perm = Inr rs'" and "anyR (has_cidr k cidr) rs' = Inr b"
  shows "b \<longleftrightarrow> has_entry ranges k cidr perm"
proof -
  obtain fields v rs where f: "perm = JObj fields" "get_or (JList []) ranges fields = v" "iter_of v = Inr rs"
      "anyR (has_cidr k cidr) rs = Inr b"
    using assms by (auto simp: get_list_def get_of_def bindR_Inr split: json.splits)
  have b: "b \<longleftrightarrow> (\<exists>d. JObj d \<in> set rs \<and> map_of d k = Some (JStr cidr))"
    using anyR_found [OF f(4)] by (auto simp: has_cidr_True)
  show ?thesis
  proof (cases v)
    case (JList l)
    then show ?thesis
      using f b by (auto simp: has_entry_def iter_of_def get_or_def split: option.splits)
  qed (use f b in \<open>auto simp: has_entry_def iter_of_def get_or_def split: option.splits\<close>)
qed

lemma open_to_world_Inr: "open_to_world perm = Inr b \<Longrightarrow> b \<longleftrightarrow> world_open perm"
  by (auto simp: open_to_world_def world_open_def bindR_Inr split: if_splits dest: any_entry)

text \<open>What a permission opens: everything, or the ports of a protocol from a first to a last one. A rule for one type
  of ICMP message has the type for its first port, and \<open>-1\<close>, for any code, as its last one: it has no ports.\<close>

definition ports_of :: "json \<Rightarrow> (string \<times> int \<times> int) option" where
  "ports_of perm =
     (case (get_text (JStr ''-1'') ''IpProtocol'' perm, get_of JNull ''FromPort'' perm, get_of JNull ''ToPort'' perm) of
        (Inr proto, Inr (JInt lo), Inr (JInt hi)) \<Rightarrow> if proto = ''-1'' then None else Some (proto, lo, hi)
      | _ \<Rightarrow> None)"

definition only_expected :: "(string \<times> string) list \<Rightarrow> json \<Rightarrow> bool" where
  "only_expected expected perm \<longleftrightarrow>
     (\<exists>proto lo hi. ports_of perm = Some (proto, lo, hi) \<and> lo \<le> hi \<and> all_expected expected proto lo hi)"

definition no_ports :: "json \<Rightarrow> bool" where
  "no_ports perm \<longleftrightarrow> (\<exists>proto lo hi. ports_of perm = Some (proto, lo, hi) \<and> hi < lo)"

lemma perm_lines_Nil:
  assumes "length expected \<le> 64" and "perm_lines expected sg_name perm = Inr ls"
  shows "ls = [] \<longleftrightarrow> \<not> world_open perm \<or> only_expected expected perm \<or> no_ports perm"
proof -
  obtain world where world: "open_to_world perm = Inr world"
    using assms(2) by (auto simp: perm_lines_def bindR_Inr)
  show ?thesis
  proof (cases world)
    case True
    then obtain proto lo hi where fields: "get_text (JStr ''-1'') ''IpProtocol'' perm = Inr proto"
      "get_of JNull ''FromPort'' perm = Inr lo" "get_of JNull ''ToPort'' perm = Inr hi"
      using assms(2) world by (auto simp: perm_lines_def bindR_Inr)
    then have "perm_lines expected sg_name perm =
        (if proto = ''-1'' \<or> lo = JNull then Inr [''Security group '' @ sg_name @ '': ALL traffic open to the internet'']
         else case (lo, hi) of (JInt a, JInt b) \<Rightarrow> Inr (range_lines expected sg_name proto a b) | _ \<Rightarrow> Inl (PyError ''TypeError''))"
      using True world by (simp add: perm_lines_def)
    with assms(2) have ls: "Inr ls = (if proto = ''-1'' \<or> lo = JNull then Inr [''Security group '' @ sg_name @ '': ALL traffic open to the internet'']
         else case (lo, hi) of (JInt a, JInt b) \<Rightarrow> Inr (range_lines expected sg_name proto a b) | _ \<Rightarrow> Inl (PyError ''TypeError''))"
      by simp
    have "only_expected expected perm \<or> no_ports perm \<longleftrightarrow>
        (case (lo, hi) of (JInt a, JInt b) \<Rightarrow> proto \<noteq> ''-1'' \<and> all_expected expected proto a b | _ \<Rightarrow> False)"
      by (auto simp: only_expected_def no_ports_def ports_of_def all_expected_def fields split: json.split)
    then show ?thesis
      using ls world True open_to_world_Inr [OF world] range_lines_Nil [OF assms(1)]
      by (cases lo; cases hi) (auto split: if_splits)
  next
    case False
    then show ?thesis
      using assms(2) world open_to_world_Inr [OF world] by (simp add: perm_lines_def)
  qed
qed

definition page_perms :: "json \<Rightarrow> py_exn + json list" where
  "page_perms page =
     bindR (item_of ''SecurityGroups'' page) (\<lambda>s. bindR (iter_of s) (\<lambda>sgs.
     bindR (mapR (get_list ''IpPermissions'') sgs) (\<lambda>ps. Inr (concat ps))))"

lemma mapR_concat_Nil:
  assumes "\<And>x ys. f x = Inr ys \<Longrightarrow> \<exists>zs. g x = Inr zs \<and> (ys = [] \<longleftrightarrow> list_all P zs)" and "mapR f xs = Inr yss"
  shows "\<exists>zss. mapR g xs = Inr zss \<and> (concat yss = [] \<longleftrightarrow> list_all P (concat zss))"
  using assms(2)
proof (induction xs arbitrary: yss)
  case (Cons x xs)
  then obtain ys yss' where "f x = Inr ys" "mapR f xs = Inr yss'" "yss = ys # yss'"
    by (auto simp: bindR_Inr)
  moreover obtain zs where "g x = Inr zs" "ys = [] \<longleftrightarrow> list_all P zs"
    using assms(1) \<open>f x = Inr ys\<close> by blast
  moreover obtain zss where "mapR g xs = Inr zss" "concat yss' = [] \<longleftrightarrow> list_all P (concat zss)"
    using Cons.IH \<open>mapR f xs = Inr yss'\<close> by blast
  ultimately show ?case by auto
qed simp

lemma group_lines_Nil:
  assumes "length expected \<le> 64" and "group_lines expected sg = Inr ls"
  shows "\<exists>perms. get_list ''IpPermissions'' sg = Inr perms \<and>
    (ls = [] \<longleftrightarrow> list_all (\<lambda>perm. \<not> world_open perm \<or> only_expected expected perm \<or> no_ports perm) perms)"
proof -
  obtain perms sg_name lss where g: "get_list ''IpPermissions'' sg = Inr perms" "mapR (perm_lines expected sg_name) perms = Inr lss" "ls = concat lss"
    using assms(2) by (auto simp: group_lines_def bindR_Inr)
  moreover have "\<exists>zss. mapR (\<lambda>p. Inr [p] :: py_exn + json list) perms = Inr zss \<and>
      (concat lss = [] \<longleftrightarrow> list_all (\<lambda>perm. \<not> world_open perm \<or> only_expected expected perm \<or> no_ports perm) (concat zss))"
    using perm_lines_Nil [OF assms(1)] by (intro mapR_concat_Nil [OF _ g(2)]) auto
  moreover have "mapR (\<lambda>p. Inr [p] :: py_exn + json list) perms = Inr (map (\<lambda>p. [p]) perms)"
    by (induction perms) auto
  ultimately show ?thesis by (auto simp: list_all_iff)
qed

lemma each_page_pure:
  assumes "each_page (\<lambda>page. liftP (f page)) ps e w = (Inr ls, w')"
  shows "\<exists>pages yss. ps = map Inr pages \<and> mapR f pages = Inr yss \<and> ls = concat yss"
  using assms
proof (induction ps arbitrary: ls w)
  case (Cons p ps)
  then obtain page xs ys w1 where "p = Inr page" "f page = Inr xs" "each_page (\<lambda>page. liftP (f page)) ps e w1 = (Inr ys, w')" "ls = xs @ ys"
    by (auto simp: bind_def liftR_def liftP_def ret_def map_sum_def split: prod.splits sum.splits)
  moreover obtain pages yss where "ps = map Inr pages" "mapR f pages = Inr yss" "ys = concat yss"
    using Cons.IH calculation(3) by blast
  ultimately show ?case
    by (intro exI [of _ "page # pages"] exI [of _ "xs # yss"]) simp
qed (simp add: ret_def)

text \<open>C25: when the list of expected ports has at most 64 entries, the check of the security groups finds nothing
  exactly when every permission that is open to the whole internet is limited to one protocol and to a range
  of ports that are all expected, or has no ports at all, as a rule for one type of ICMP message: that is the one thing
  beyond the expected ports that the check passes over. The code looks at the first 65 ports of a range only, which is
  enough: it cannot take a wide range for an expected one.\<close>

theorem open_ports_reported:
  assumes "length expected \<le> 64" and "security_groups expected e w = (Inr (ls, notes), w')"
  shows "\<exists>pages perms. aws_pages e (length w) (Aws ''ec2'' ''describe_security_groups'' []) = map Inr pages \<and>
    mapR page_perms pages = Inr perms \<and> notes = [] \<and>
    (ls = [] \<longleftrightarrow> list_all (\<lambda>perm. \<not> world_open perm \<or> only_expected expected perm \<or> no_ports perm) (concat perms))"
proof -
  let ?f = "\<lambda>page. bindR (item_of ''SecurityGroups'' page) (\<lambda>s. bindR (iter_of s) (\<lambda>sgs.
       bindR (mapR (group_lines expected) sgs) (\<lambda>ls. Inr (concat ls))))"
  let ?P = "\<lambda>perm. \<not> world_open perm \<or> only_expected expected perm \<or> no_ports perm"
  obtain w1 where run: "each_page (\<lambda>page. liftP (?f page)) (aws_pages e (length w) (Aws ''ec2'' ''describe_security_groups'' [])) e w1 = (Inr ls, w')"
    and "notes = []"
    using assms(2) by (auto simp: security_groups_def paginate_def bind_def ret_def split: prod.splits sum.splits)
  then obtain pages yss where pages: "aws_pages e (length w) (Aws ''ec2'' ''describe_security_groups'' []) = map Inr pages"
    "mapR ?f pages = Inr yss" "ls = concat yss"
    using each_page_pure [of ?f, OF run] by (elim exE conjE) (rule that)
  have page: "\<exists>zs. page_perms page = Inr zs \<and> (ys = [] \<longleftrightarrow> list_all ?P zs)" if "?f page = Inr ys" for page ys
  proof -
    obtain s sgs lss where s: "item_of ''SecurityGroups'' page = Inr s" "iter_of s = Inr sgs" "mapR (group_lines expected) sgs = Inr lss"
      "ys = concat lss"
      using \<open>?f page = Inr ys\<close> by (auto simp: bindR_Inr)
    moreover obtain zss where "mapR (get_list ''IpPermissions'') sgs = Inr zss" "concat lss = [] \<longleftrightarrow> list_all ?P (concat zss)"
      using mapR_concat_Nil [of "group_lines expected" "get_list ''IpPermissions''" ?P, OF _ s(3)] group_lines_Nil [OF assms(1)] by blast
    ultimately show ?thesis
      by (simp add: page_perms_def)
  qed
  obtain zss where "mapR page_perms pages = Inr zss" "concat yss = [] \<longleftrightarrow> list_all ?P (concat zss)"
    using mapR_concat_Nil [of ?f page_perms ?P, OF page pages(2)] by blast
  then show ?thesis
    using pages \<open>notes = []\<close> by blast
qed

text \<open>The hub's group, with an additional range of ports that starts with an expected one.\<close>

definition world_rule :: "string \<Rightarrow> int \<Rightarrow> int \<Rightarrow> json" where
  "world_rule proto lo hi = JObj [(''IpProtocol'', JStr proto), (''FromPort'', JInt lo), (''ToPort'', JInt hi),
     (''IpRanges'', JList [JObj [(''CidrIp'', JStr ''0.0.0.0/0'')]])]"

definition hub_rules :: "json list \<Rightarrow> aws_env" where
  "hub_rules perms = \<lparr>aws_answer = (\<lambda>n c. Inl (BotoErr ''EndpointConnectionError'')),
     aws_pages = (\<lambda>n c. [Inr (JObj [(''SecurityGroups'', JList [JObj [(''GroupName'', JStr ''hub''), (''IpPermissions'', JList perms)]])])]),
     event_json = (\<lambda>s. None), aws_now = 0\<rparr>"

lemma hub_rules_lines:
  "security_groups (expected_open default_open) (hub_rules [world_rule ''tcp'' 443 443, world_rule ''tcp'' 80 90]) [] =
     (Inr ([''Security group hub: tcp/80-90 open to the internet''], []), [Aws ''ec2'' ''describe_security_groups'' []])"
  by code_simp

lemma hub_rules_pages:
  "aws_pages (hub_rules perms) n c = map Inr pages \<Longrightarrow> mapR page_perms pages = Inr ps \<Longrightarrow> ps = [perms]"
  by (auto simp: hub_rules_def page_perms_def item_of_def iter_of_def get_list_def get_of_def get_or_def map_eq_Cons_conv)

theorem open_ports_reported_witness:
  "only_expected (expected_open default_open) (world_rule ''tcp'' 443 443) \<and>
   \<not> only_expected (expected_open default_open) (world_rule ''tcp'' 80 90)"
proof -
  have "length (expected_open default_open) \<le> 64"
    by code_simp
  from open_ports_reported [OF this hub_rules_lines]
  have "\<not> only_expected (expected_open default_open) (world_rule ''tcp'' 443 443) \<or>
      \<not> only_expected (expected_open default_open) (world_rule ''tcp'' 80 90)"
    by (auto dest!: hub_rules_pages)
  moreover have "(str_of_int 443, ''tcp'') \<in> set (expected_open default_open)"
    by code_simp
  then have "only_expected (expected_open default_open) (world_rule ''tcp'' 443 443)"
    by (simp add: only_expected_def ports_of_def all_expected_def world_rule_def get_text_def get_of_def get_or_def)
  ultimately show ?thesis by simp
qed

text \<open>A rule for one type of ICMP message is given with that type as its first port and \<open>-1\<close>, any code, as its
  last one. Its range is empty, so that it is never reported, although the ping it admits comes from anywhere.\<close>

theorem icmp_type_not_reported:
  "0 \<le> kind \<Longrightarrow> perm_lines expected sg_name (world_rule ''icmp'' kind (- 1)) = Inr []"
  by (simp add: perm_lines_def world_rule_def open_to_world_def get_list_def get_of_def get_or_def iter_of_def has_cidr_def
      get_text_def range_lines_def looked_at_def)

section \<open>An unreachable AWS\<close>

text \<open>When no call is answered, the report still leads with the words for a clean account.\<close>

definition no_aws :: "aws_env \<Rightarrow> bool" where
  "no_aws e \<longleftrightarrow> (\<forall>n c. isl (aws_answer e n c)) \<and> (\<forall>n c. \<exists>x ps. aws_pages e n c = Inl x # ps)"

definition raises :: "'a aws \<Rightarrow> aws_env \<Rightarrow> bool" where
  "raises m e \<longleftrightarrow> (\<forall>w. isl (fst (m e w)))"

lemma raises_first: "raises m e \<Longrightarrow> raises (bind m f) e"
  by (auto simp: raises_def bind_def split: prod.split sum.split) (metis fst_conv sum.disc(2))

lemma raises_call: "no_aws e \<Longrightarrow> raises (call_aws c) e"
  by (simp add: raises_def no_aws_def call_aws_def)

lemma raises_pages: "no_aws e \<Longrightarrow> raises (bind (paginate s op args) (\<lambda>pages. bind (each_page f pages) g)) e"
  unfolding raises_def
proof (intro allI)
  fix w :: "aws_call list"
  assume "no_aws e"
  then obtain x ps where "aws_pages e (length w) (Aws s op args) = Inl x # ps"
    unfolding no_aws_def by blast
  then show "isl (fst (bind (paginate s op args) (\<lambda>pages. bind (each_page f pages) g) e w))"
    by (simp add: paginate_def bind_def liftR_def)
qed

lemma every_check_raises:
  assumes "no_aws e"
  shows "list_all (\<lambda>x. raises (snd x) e) (aws_checks expected)"
proof -
  have "raises root_and_console e"
    using raises_pages [OF assms] by (simp add: root_and_console_def raises_def bind_def ask_def)
  then show ?thesis
    by (simp add: aws_checks_def guardduty_def access_analyzer_def security_groups_def iam_users_def imds_guard_def prom_result_def
        raises_first raises_call raises_pages assms)
qed

lemma run_checks_raise:
  "list_all (\<lambda>x. raises (snd x) e) cs \<Longrightarrow>
     \<exists>xs w'. run_checks cs e w = (Inr (map (\<lambda>(n, x). (n, Inl x)) (zip (map fst cs) xs)), w') \<and> length xs = length cs"
proof (induction cs arbitrary: w)
  case (Cons c cs)
  then have IH: "\<exists>xs w'. run_checks cs e w1 = (Inr (map (\<lambda>(n, x). (n, Inl x)) (zip (map fst cs) xs)), w') \<and> length xs = length cs" for w1
    by simp
  obtain n m where c: "c = (n, m)" by fastforce
  then obtain x w1 where "m e w = (Inl x, w1)"
    using Cons.prems by (cases "m e w") (auto simp: raises_def isl_def dest: spec [of _ w])
  moreover obtain xs w' where "run_checks cs e w1 = (Inr (map (\<lambda>(n, x). (n, Inl x)) (zip (map fst cs) xs)), w')" "length xs = length cs"
    using IH [of w1] by (elim exE conjE) (rule that)
  ultimately show ?case
    by (intro exI [of _ "x # xs"] exI [of _ w']) (simp add: c aws_outcome_def try_catch_def bind_def ret_def)
qed (simp add: ret_def)

lemma concat_names:
  "concat (map ((\<lambda>(n, r). case r of Inl x \<Rightarrow> [n @ '' ('' @ exn_code x @ '')''] | Inr _ \<Rightarrow> []) \<circ> (\<lambda>(n, x). (n, Inl x))) ps) =
     map (\<lambda>(n, x). n @ '' ('' @ exn_code x @ '')'') ps"
  by (induction ps) auto

lemma prefix_names:
  "length xs = length ns \<Longrightarrow> list_all2 prefix ns (map (\<lambda>(n, x). n @ '' ('' @ exn_code x @ '')'') (zip ns xs))"
  by (induction xs ns rule: list_induct2) auto

theorem unreachable_looks_clean:
  assumes "no_aws e"
  shows "\<exists>skipped. fst (aws_posture expected_env e w) =
      Inr (join [newline] [looks_clean, ''Couldn't check: '' @ join ''; '' skipped @ ''.'']) \<and>
    list_all2 prefix (map fst (aws_checks [])) skipped"
proof -
  let ?cs = "aws_checks (expected_open expected_env)"
  obtain xs w' where run: "run_checks ?cs e w = (Inr (map (\<lambda>(n, x). (n, Inl x)) (zip (map fst ?cs) xs)), w')" "length xs = length ?cs"
    using run_checks_raise [OF every_check_raises [OF assms]] by blast
  define rs where "rs = (map (\<lambda>(n, x). (n, Inl x)) (zip (map fst ?cs) xs) :: (string \<times> (aws_exn + check_result)) list)"
  define skipped where "skipped = map (\<lambda>(n, x). n @ '' ('' @ exn_code x @ '')'') (zip (map fst ?cs) xs)"
  have "skipped \<noteq> []"
    using run(2) by (cases xs) (simp_all add: skipped_def aws_checks_def)
  moreover have "concat (map (\<lambda>(n, r). case r of Inl _ \<Rightarrow> [] | Inr c \<Rightarrow> fst c) rs) = []"
    "concat (map (\<lambda>(n, r). case r of Inl _ \<Rightarrow> [] | Inr c \<Rightarrow> snd c) rs) = []"
    by (auto simp: rs_def)
  moreover have "concat (map (\<lambda>(n, r). case r of Inl x \<Rightarrow> [n @ '' ('' @ exn_code x @ '')''] | Inr _ \<Rightarrow> []) rs) = skipped"
    unfolding rs_def skipped_def by (simp only: map_map concat_names)
  ultimately have "posture_lines rs = [looks_clean, ''Couldn't check: '' @ join ''; '' skipped @ ''.'']"
    by (simp add: posture_lines_def posture_head_def Let_def)
  then have "fst (aws_posture expected_env e w) = Inr (join [newline] [looks_clean, ''Couldn't check: '' @ join ''; '' skipped @ ''.''])"
    using run(1) by (simp only: aws_posture_def bind_def ret_def rs_def prod.case sum.case fst_conv)
  moreover have "map fst ?cs = map fst (aws_checks [])" "length (aws_checks []) = length ?cs"
    by (simp_all add: aws_checks_def)
  then have "list_all2 prefix (map fst (aws_checks [])) skipped"
    using run(2) prefix_names [of xs "map fst ?cs"] by (simp add: skipped_def)
  ultimately show ?thesis
    by blast
qed

definition no_aws_env :: aws_env where
  "no_aws_env = \<lparr>aws_answer = (\<lambda>n c. Inl (BotoErr ''EndpointConnectionError'')),
     aws_pages = (\<lambda>n c. [Inl (BotoErr ''EndpointConnectionError'')]), event_json = (\<lambda>s. None), aws_now = 0\<rparr>"

theorem unreachable_looks_clean_witness:
  "\<exists>skipped. fst (aws_posture default_open no_aws_env []) =
      Inr (join [newline] [looks_clean, ''Couldn't check: '' @ join ''; '' skipped @ ''.'']) \<and>
    list_all2 prefix (map fst (aws_checks [])) skipped"
  by (rule unreachable_looks_clean) (simp add: no_aws_def no_aws_env_def)

end
