(* ===== verification/AuthentikAudit.thy ===== *)
theory AuthentikAudit
  imports PyConv Moment
begin

text \<open>
  \<open>compose/aws/home-mcp/authentik_audit.py\<close>: who can sign in, with what MFA, and what happened. The API is
  asked with the service account's token. Names, addresses and kinds in its answers are texts
  where they are put into the report; anything else stands there as Python prints it.
\<close>

section \<open>Counting\<close>

text \<open>\<open>Counter(xs)\<close>, in the order of first occurrence, and \<open>most_common\<close>, which keeps that order among
  equal counts.\<close>

definition add_count :: "string \<Rightarrow> (string \<times> nat) list \<Rightarrow> (string \<times> nat) list" where
  "add_count x c = AList.update x (get_or 0 x c + 1) c"

definition counter :: "string list \<Rightarrow> (string \<times> nat) list" where
  "counter xs = fold add_count xs []"

definition most_common :: "(string \<times> nat) list \<Rightarrow> (string \<times> nat) list" where
  "most_common c = sort_key (\<lambda>x. - int (snd x)) c"

lemma get_or_fold_count: "get_or 0 x (fold add_count xs c) = get_or 0 x c + count_list xs x"
  by (induction xs arbitrary: c) (auto simp: add_count_def get_or_def)

lemma counter_count: "get_or 0 x (counter xs) = count_list xs x"
  using get_or_fold_count [of x xs "[]"] by (simp add: counter_def get_or_def)

section \<open>Requests\<close>

definition authentik_api :: string where
  "authentik_api = ''http://authentik-server:9000/api/v3''"

definition service_account :: string where
  "service_account = ''home-mcp-audit''"

definition auth_request :: "string \<Rightarrow> string \<Rightarrow> json dict \<Rightarrow> request" where
  "auth_request tok path params = Request ''GET'' (authentik_api @ path) params (Some tok) None"

definition auth_get :: "string \<Rightarrow> string \<Rightarrow> json dict \<Rightarrow> ('z net_scheme, json) web" where
  "auth_get tok path params =
     bind (send (auth_request tok path params)) (\<lambda>r. andthen (check_status r) (json_of r))"

section \<open>Events\<close>

definition alert_actions :: "string list" where
  "alert_actions = [''login_failed'', ''suspicious_request'', ''impersonation_started'', ''configuration_error'', ''policy_exception'']"

definition change_actions :: "string list" where
  "change_actions = [''model_created'', ''model_updated'', ''model_deleted'', ''password_set'']"

definition watched_models :: "string list" where
  "watched_models = [''user'', ''group'', ''role'', ''token'', ''application'', ''oauth2provider'', ''proxyprovider'', ''policybinding'']"

definition max_event_pages :: nat where
  "max_event_pages = 5"

text \<open>Whether an event is older than \<open>since\<close>, a UNIX time.\<close>

definition is_older :: "rat \<Rightarrow> json \<Rightarrow> py_exn + bool" where
  "is_older since ev =
     bindR (item_of ''created'' ev) (\<lambda>c.
     case c of
       JStr s \<Rightarrow> (case fromisodatetime (replace ''Z'' ''+00:00'' s) of
           None \<Rightarrow> Inl (PyError ''ValueError'')
         | Some (t, None) \<Rightarrow> Inl (PyError ''TypeError'')
         | Some (t, Some z) \<Rightarrow> Inr (timestamp t z < since))
     | _ \<Rightarrow> Inl (PyError ''AttributeError''))"

text \<open>The events before the first older one, and whether there was one.\<close>

fun take_newer :: "(json \<Rightarrow> py_exn + bool) \<Rightarrow> json list \<Rightarrow> py_exn + json list \<times> bool" where
  "take_newer old [] = Inr ([], False)"
| "take_newer old (ev # evs) =
     bindR (old ev) (\<lambda>o1. if o1 then Inr ([], True)
       else bindR (take_newer old evs) (\<lambda>(new, stop). Inr (ev # new, stop)))"

definition has_next :: "json \<Rightarrow> py_exn + bool" where
  "has_next d = bindR (get_of (JObj []) ''pagination'' d) (\<lambda>p. bindR (get_of JNull ''next'' p) (\<lambda>n. Inr (truthy n)))"

text \<open>The loop over the pages, with the number of pages it may still ask for.\<close>

fun event_pages :: "(nat \<Rightarrow> ('z net_scheme, json) web) \<Rightarrow> (json \<Rightarrow> py_exn + bool) \<Rightarrow> nat \<Rightarrow> nat \<Rightarrow> json list \<Rightarrow>
    ('z net_scheme, json list) web" where
  "event_pages page old 0 n acc = ret acc"
| "event_pages page old (Suc k) n acc =
     bind (page n) (\<lambda>d.
     bind (liftR (bindR (get_of (JList []) ''results'' d) iter_of)) (\<lambda>evs.
     bind (liftR (take_newer old evs)) (\<lambda>(new, stop).
     if stop then ret (acc @ new)
     else bind (liftR (has_next d)) (\<lambda>more.
       if more then event_pages page old k (Suc n) (acc @ new) else ret (acc @ new)))))"

definition event_params :: "string list \<Rightarrow> nat \<Rightarrow> json dict" where
  "event_params actions n =
     map (\<lambda>a. (''actions'', JStr a)) actions @
     [(''ordering'', JStr ''-created''), (''page_size'', JStr ''100''), (''page'', JStr (str_of_nat n))]"

definition events :: "string \<Rightarrow> string list \<Rightarrow> rat \<Rightarrow> ('z net_scheme, json list) web" where
  "events tok actions since =
     event_pages (\<lambda>n. auth_get tok ''/events/events/'' (event_params actions n)) (is_older since) max_event_pages 1 []"

section \<open>Reading users and events\<close>

definition who :: "json \<Rightarrow> py_exn + string" where
  "who ev =
     bindR (get_dict ''user'' ev) (\<lambda>u. bindR (get_of JNull ''username'' u) (\<lambda>n.
     if truthy n then Inr (py_str n)
     else bindR (get_dict ''context'' ev) (\<lambda>c. bindR (get_of JNull ''username'' c) (\<lambda>m.
       Inr (py_str (or_j m (JStr ''unknown'')))))))"

definition client_ip :: "json \<Rightarrow> py_exn + string" where
  "client_ip ev = bindR (get_of JNull ''client_ip'' ev) (\<lambda>i. Inr (py_str (or_j i (JStr ''?''))))"

definition action_of :: "json \<Rightarrow> py_exn + string" where
  "action_of ev = bindR (item_of ''action'' ev) (\<lambda>a. Inr (py_str a))"

definition user_kinds :: "json list" where
  "user_kinds = [JStr ''internal'', JStr ''external'']"

definition is_person :: "json \<Rightarrow> py_exn + bool" where
  "is_person u =
     bindR (get_of JNull ''type'' u) (\<lambda>t. bindR (get_of JNull ''username'' u) (\<lambda>n.
     Inr (t \<in> set user_kinds \<and> n \<noteq> JStr service_account)))"

definition username :: "json \<Rightarrow> py_exn + string" where
  "username u = bindR (item_of ''username'' u) (\<lambda>n. case n of JStr s \<Rightarrow> Inr s | _ \<Rightarrow> Inl (PyError ''TypeError''))"

definition is_superuser :: "json \<Rightarrow> py_exn + bool" where
  "is_superuser j = bindR (get_of JNull ''is_superuser'' j) (\<lambda>b. Inr (truthy b))"

definition is_admin :: "json \<Rightarrow> py_exn + bool" where
  "is_admin u =
     bindR (is_superuser u) (\<lambda>b.
     if b then Inr True
     else bindR (get_of JNull ''groups_obj'' u) (\<lambda>g. bindR (iter_of (or_j g (JList []))) (anyR is_superuser)))"

text \<open>A device counts unless it is known not to be confirmed.\<close>

definition has_device :: "json \<Rightarrow> py_exn + bool" where
  "has_device devs =
     bindR (iter_of devs) (\<lambda>ds.
     bindR (filterR (\<lambda>d. bindR (get_of (JBool True) ''confirmed'' d) (\<lambda>c. Inr (truthy c))) ds) (\<lambda>l. Inr (l \<noteq> [])))"

section \<open>The parts of the report\<close>

type_synonym report_parts = "string list \<times> string list \<times> string list"  \<comment> \<open>flags, lines and what could not be checked\<close>

record person =
  p_name :: string
  p_admin :: bool
  p_mfa :: "bool option"   \<comment> \<open>\<open>None\<close> where the devices could not be read\<close>

definition person_of :: "json \<times> (py_exn + json) \<Rightarrow> py_exn + person" where
  "person_of ud =
     bindR (is_admin (fst ud)) (\<lambda>a. bindR (username (fst ud)) (\<lambda>n.
     case snd ud of
       Inl x \<Rightarrow> Inr \<lparr>p_name = n, p_admin = a, p_mfa = None\<rparr>
     | Inr devs \<Rightarrow> bindR (has_device devs) (\<lambda>m. Inr \<lparr>p_name = n, p_admin = a, p_mfa = Some m\<rparr>)))"

definition no_mfa_text :: "person \<Rightarrow> string" where
  "no_mfa_text p = p_name p @ (if p_admin p then '' (admin)'' else [])"

definition or_none :: "string \<Rightarrow> string" where
  "or_none s = (if s \<noteq> [] then s else ''none'')"

definition user_part :: "person list \<Rightarrow> string list \<Rightarrow> report_parts" where
  "user_part ps others =
     (let no_mfa = map no_mfa_text (filter (\<lambda>p. p_mfa p = Some False) ps);
          admin_no_mfa = filter (suffix ''(admin)'') no_mfa
      in (if admin_no_mfa \<noteq> [] then [''admin account without MFA: '' @ join '', '' (map (removesuffix '' (admin)'') admin_no_mfa)] else [],
          [''Users: '' @ str_of_nat (length ps) @ '' active ('' @ join '', '' (sort (map p_name ps)) @ ''); admins: '' @
             or_none (join '', '' (sort (map p_name (filter p_admin ps)))) @ ''.''] @
          (if no_mfa \<noteq> [] then [''No MFA device: '' @ join '', '' (sort no_mfa) @ ''.''] else []) @
          (if others \<noteq> [] then [''Other service accounts: '' @ join '', '' (sort others) @ ''.''] else []),
          map (\<lambda>p. ''MFA devices for '' @ p_name p) (filter (\<lambda>p. p_mfa p = None) ps)))"

definition is_other_account :: "json \<Rightarrow> py_exn + bool" where
  "is_other_account u =
     bindR (get_of JNull ''type'' u) (\<lambda>t. bindR (get_of JNull ''username'' u) (\<lambda>n.
     if t \<in> set user_kinds \<or> n = JStr service_account then Inr False
     else bindR (username u) (\<lambda>s. Inr (\<not> prefix ''ak-outpost'' s))))"

definition action_words :: "string \<times> nat \<Rightarrow> string" where
  "action_words an = str_of_nat (snd an) @ '' '' @ replace ''_'' '' '' (fst an)"

definition name_count :: "string \<times> nat \<Rightarrow> string" where
  "name_count un = fst un @ '' '' @ str_of_nat (snd un)"

definition ip_count :: "string \<times> nat \<Rightarrow> string" where
  "ip_count un = fst un @ '' ('' @ str_of_nat (snd un) @ '')''"

text \<open>The alerts, as action, user and address.\<close>

definition alert_of :: "json \<Rightarrow> py_exn + string \<times> string \<times> string" where
  "alert_of ev =
     bindR (action_of ev) (\<lambda>a. bindR (client_ip ev) (\<lambda>i.
     bindR (if a = ''login_failed'' then who ev else Inr []) (\<lambda>u. Inr (a, u, i))))"

definition alert_part :: "(string \<times> string \<times> string) list \<Rightarrow> report_parts" where
  "alert_part alerts =
     (let by_action = counter (map fst alerts); ips = counter (map (snd \<circ> snd) alerts);
          hit = counter (map (fst \<circ> snd) (filter (\<lambda>x. fst x = ''login_failed'') alerts));
          actions = join '', '' (map action_words (most_common by_action))
      in if by_action = [] then ([], [''This week: no failed logins or suspicious requests.''], [])
         else
          (if 10 \<le> get_or 0 ''login_failed'' by_action \<or> get_or 0 ''suspicious_request'' by_action \<noteq> 0 \<or>
              get_or 0 ''impersonation_started'' by_action \<noteq> 0 then [actions] else [],
           [''This week: '' @ actions @
              (if hit \<noteq> [] then '' (accounts: '' @ join '', '' (map name_count (take 4 (most_common hit))) @ '')'' else []) @
              ''; from '' @ join '', '' (map ip_count (take 4 (most_common ips))) @ ''.''],
           []))"

definition login_of :: "json \<Rightarrow> py_exn + string \<times> string" where
  "login_of ev = bindR (who ev) (\<lambda>u. bindR (client_ip ev) (\<lambda>i. Inr (u, i)))"

definition login_part :: "string list \<Rightarrow> (string \<times> string) list \<Rightarrow> report_parts" where
  "login_part people logins =
     (let counts = counter (map fst logins);
          addresses = (\<lambda>u. length (remdups (map snd (filter (\<lambda>x. fst x = u) logins))));
          line = (\<lambda>u. u @ '' '' @ str_of_nat (get_or 0 u counts) @ '' from '' @ str_of_nat (addresses u) @ '' address'' @
            (if addresses u \<noteq> 1 then ''es'' else []));
          strangers = filter (\<lambda>u. u \<notin> set people) (keys counts)
      in if logins = [] then ([], [], [])
         else (if strangers \<noteq> [] then [''logins by accounts that aren't active people: '' @ join '', '' (sort strangers)] else [],
               [''Logins: '' @ join ''; '' (map line (sort (keys counts))) @ ''.''], []))"

definition change_text :: "json \<Rightarrow> py_exn + string option" where
  "change_text ev =
     bindR (get_dict ''context'' ev) (\<lambda>c. bindR (get_dict ''model'' c) (\<lambda>model.
     bindR (get_of JNull ''model_name'' model) (\<lambda>mn.
     bindR (case or_j mn (JStr []) of JStr s \<Rightarrow> Inr (lower s) | _ \<Rightarrow> Inl (PyError ''AttributeError'')) (\<lambda>kind.
     bindR (action_of ev) (\<lambda>a.
     if a = ''password_set'' \<or> kind \<in> set watched_models then
       bindR (who ev) (\<lambda>actor. bindR (get_of JNull ''name'' model) (\<lambda>n.
       let what = py_str (or_j n (JStr (if kind \<noteq> [] then kind else ''password''))) in
       Inr (Some (replace ''_'' '' '' (replace ''model_'' [] a) @ '' '' @ (if kind \<noteq> [] then kind else ''user'') @ '' '' @ what @ '' by '' @ actor))))
     else Inr None)))))"

definition change_part :: "string list \<Rightarrow> report_parts" where
  "change_part relevant =
     ([], if relevant = [] then []
          else [''Account/app changes ('' @ str_of_nat (length relevant) @ ''): '' @ join ''; '' (take 6 relevant) @
                (if 6 < length relevant then ''; ...'' else []) @ ''.''], [])"

text \<open>A part whose events could not be read is only named.\<close>

definition part_of :: "string \<Rightarrow> (json list \<Rightarrow> py_exn + report_parts) \<Rightarrow> py_exn + json list \<Rightarrow> py_exn + report_parts" where
  "part_of name f r = (case r of Inl x \<Rightarrow> Inr ([], [], [name]) | Inr evs \<Rightarrow> f evs)"

definition join_parts :: "report_parts list \<Rightarrow> report_parts" where
  "join_parts ps = (concat (map fst ps), concat (map (fst \<circ> snd) ps), concat (map (snd \<circ> snd) ps))"

definition audit_text :: "report_parts \<Rightarrow> string" where
  "audit_text p = (case p of (flags, ls, couldnt) \<Rightarrow>
     join [newline]
       ([''Authentik: '' @ (if flags \<noteq> [] then join ''; '' flags @ ''.'' else ''nothing that needs you.'')] @ ls @
        (if couldnt \<noteq> [] then [''Couldn't check: '' @ join '', '' couldnt @ ''.''] else [])))"

definition audit_report :: "json list \<Rightarrow> json list \<Rightarrow> (py_exn + json) list \<Rightarrow> py_exn + json list \<Rightarrow> py_exn + json list \<Rightarrow>
    py_exn + json list \<Rightarrow> py_exn + report_parts" where
  "audit_report users people devices alerts logins changes =
     bindR (mapR person_of (zip people devices)) (\<lambda>ps.
     bindR (bindR (filterR is_other_account users) (mapR username)) (\<lambda>others.
     bindR (part_of ''security events'' (\<lambda>evs. bindR (mapR alert_of evs) (\<lambda>as. Inr (alert_part as))) alerts) (\<lambda>a.
     bindR (part_of ''login events'' (\<lambda>evs. bindR (mapR login_of evs) (\<lambda>ls. Inr (login_part (map p_name ps) ls))) logins) (\<lambda>l.
     bindR (part_of ''change events'' (\<lambda>evs. bindR (mapR change_text evs) (\<lambda>cs.
        Inr (change_part (map the (filter (\<lambda>c. c \<noteq> None) cs))))) changes) (\<lambda>c.
     Inr (join_parts [user_part ps others, a, l, c]))))))"

section \<open>The tool\<close>

definition not_set_up :: string where
  "not_set_up = ''The Authentik audit account isn't set up yet: home-mcp has no API token (it's created on the next hub deploy, ADR-0024).''"

definition audit_people :: "string \<Rightarrow> rat \<Rightarrow> json list \<Rightarrow> ('z net_scheme, string) web" where
  "audit_people tok since users =
     bind (liftR (filterR is_person users)) (\<lambda>people.
     bind (liftR (mapR (item_of ''pk'') people)) (\<lambda>pks.
     bind (mapM (\<lambda>pk. outcome (auth_get tok ''/authenticators/admin/all/'' [(''user'', JStr (py_str pk))])) pks) (\<lambda>devices.
     bind (outcome (events tok alert_actions since)) (\<lambda>alerts.
     bind (outcome (events tok [''login''] since)) (\<lambda>logins.
     bind (outcome (events tok change_actions since)) (\<lambda>changes.
     bind (liftR (audit_report users people devices alerts logins changes)) (\<lambda>p. ret (audit_text p))))))))"

definition authentik_audit :: "string \<Rightarrow> ('z net_scheme, string) web" where
  "authentik_audit token =
     (let tok = (if token = ''none'' then [] else token) in
      if tok = [] then ret not_set_up
      else
        bind (ask (\<lambda>e. wall e - 7 * 86400)) (\<lambda>since.
        bind (outcome (send (auth_request tok ''/core/users/'' [(''is_active'', JStr ''true''), (''page_size'', JStr ''100'')]))) (\<lambda>r.
        case r of
          Inl x \<Rightarrow> (if is_http x then ret (''I couldn't reach Authentik's API ('' @ exn_name x @ '').'') else raise x)
        | Inr resp \<Rightarrow>
            (if \<not> (200 \<le> resp_status resp \<and> resp_status resp < 300) then
               ret (''Authentik refused the audit account ('' @ str_of_nat (resp_status resp) @ ''); check the home-mcp-audit blueprint applied.'')
             else
               bind (json_of resp) (\<lambda>j.
               bind (liftR (bindR (get_of (JList []) ''results'' j) iter_of)) (\<lambda>users.
               audit_people tok since users))))))"

section \<open>Which events are read\<close>

text \<open>How Authentik pages a list of events: the page size is 100, and \<open>next\<close> is 0 on the last page.\<close>

definition event_page :: "json list \<Rightarrow> nat \<Rightarrow> json" where
  "event_page evs n = JObj
    [(''pagination'', JObj [(''next'', JInt (if 100 * n < length evs then int n + 1 else 0))]),
     (''results'', JList (take 100 (drop (100 * (n - 1)) evs)))]"

definition serves_events :: "http_env \<Rightarrow> string \<Rightarrow> string list \<Rightarrow> json list \<Rightarrow> bool" where
  "serves_events e tok actions evs \<longleftrightarrow>
     (\<forall>k n. 1 \<le> n \<longrightarrow> (\<exists>body. answer e k (auth_request tok ''/events/events/'' (event_params actions n)) = Inr (Response 200 [] body) \<and>
        loads e body = Some (event_page evs n)))"

lemma auth_get_serves:
  "serves_events e tok actions evs \<Longrightarrow> 1 \<le> n \<Longrightarrow>
     \<exists>w'. auth_get tok ''/events/events/'' (event_params actions n) e w = (Inr (event_page evs n), w')"
  unfolding serves_events_def
  by (elim allE [of _ "length (sent w)"] allE [of _ n])
    (auto simp: auth_get_def bind_def send_def andthen_def check_status_def json_of_def ret_def)

lemma take_newer_takeWhile:
  "(\<And>ev. ev \<in> set evs \<Longrightarrow> old ev = Inr (f ev)) \<Longrightarrow>
     take_newer old evs = Inr (takeWhile (\<lambda>ev. \<not> f ev) evs, list_ex f evs)"
  by (induction evs) auto

lemma has_next_page: "has_next (event_page evs n) = Inr (100 * n < length evs)"
  by (simp add: has_next_def event_page_def get_of_def get_or_def)

lemma results_page:
  "bindR (get_of (JList []) ''results'' (event_page evs n)) iter_of = Inr (take 100 (drop (100 * (n - 1)) evs))"
  by (simp add: event_page_def get_of_def get_or_def iter_of_def)

lemma take_takeWhile_found: "list_ex f (take m xs) \<Longrightarrow> take (m + k) (takeWhile (\<lambda>x. \<not> f x) xs) = takeWhile (\<lambda>x. \<not> f x) (take m xs)"
proof (induction xs arbitrary: m)
  case (Cons x xs)
  then show ?case by (cases m) auto
qed simp

lemma take_takeWhile_missing:
  "\<not> list_ex f (take m xs) \<Longrightarrow>
     take (m + k) (takeWhile (\<lambda>x. \<not> f x) xs) = take m xs @ take k (takeWhile (\<lambda>x. \<not> f x) (drop m xs))"
proof (induction xs arbitrary: m)
  case (Cons x xs)
  then show ?case by (cases m) auto
qed simp

lemma event_pages_newer:
  assumes page: "\<And>n w. 1 \<le> n \<Longrightarrow> \<exists>w'. page n e w = (Inr (event_page evs n), w')"
    and old: "\<And>ev. ev \<in> set evs \<Longrightarrow> old ev = Inr (f ev)" and "1 \<le> n"
  shows "\<exists>w'. event_pages page old k n acc e w =
    (Inr (acc @ take (100 * k) (takeWhile (\<lambda>ev. \<not> f ev) (drop (100 * (n - 1)) evs))), w')"
  using \<open>1 \<le> n\<close>
proof (induction k arbitrary: n acc w)
  case 0
  then show ?case by (simp add: ret_def)
next
  case (Suc k)
  let ?rest = "drop (100 * (n - 1)) evs" and ?newer = "takeWhile (\<lambda>ev. \<not> f ev)"
  obtain w1 where w1: "page n e w = (Inr (event_page evs n), w1)"
    using page Suc.prems by blast
  have new: "take_newer old (take 100 ?rest) = Inr (?newer (take 100 ?rest), list_ex f (take 100 ?rest))"
    by (rule take_newer_takeWhile) (meson old in_set_dropD in_set_takeD)
  have next_page: "drop 100 ?rest = drop (100 * (Suc n - 1)) evs"
    using Suc.prems by (simp add: add.commute flip: mult_Suc_right)
  show ?case
  proof (cases "list_ex f (take 100 ?rest)")
    case True
    then show ?thesis
      using w1 new take_takeWhile_found [of f 100 ?rest "100 * k"] by (simp add: bind_def liftR_def results_page ret_def)
  next
    case False
    then have "?newer (take 100 ?rest) = take 100 ?rest"
      by (auto simp: takeWhile_eq_all_conv list_ex_iff)
    then have all: "take_newer old (take 100 ?rest) = Inr (take 100 ?rest, False)"
      using new False by simp
    have split: "take (100 * Suc k) (?newer ?rest) = take 100 ?rest @ take (100 * k) (?newer (drop 100 ?rest))"
      using take_takeWhile_missing [OF False, of "100 * k"] by simp
    show ?thesis
    proof (cases "100 * n < length evs")
      case True
      then show ?thesis
        using Suc.IH [of "Suc n" "acc @ take 100 ?rest" w1] w1 all split next_page
        by (simp add: bind_def liftR_def results_page has_next_page)
    next
      case no_more: False
      then have "drop 100 ?rest = []"
        using Suc.prems by (simp add: next_page)
      then show ?thesis
        using w1 all split no_more by (simp add: bind_def liftR_def results_page has_next_page ret_def)
    qed
  qed
qed

lemma takeWhile_filter: "sorted_wrt (\<lambda>a b. f a \<longrightarrow> f b) xs \<Longrightarrow> takeWhile (\<lambda>x. \<not> f x) xs = filter (\<lambda>x. \<not> f x) xs"
  by (induction xs) (auto simp: filter_empty_conv)

text \<open>When Authentik lists the matching events newest first, a hundred a page, the audit reads exactly
  the events that are not older than the start of the period, wherever in the pages that is, but never more
  than 500 of them: events beyond the fifth page are left out of every count of the report.\<close>

theorem events_newest_500:
  assumes "serves_events e tok actions evs" and "list_all (\<lambda>ev. \<not> isl (is_older since ev)) evs"
    and "sorted_wrt (\<lambda>a b. is_older since a = Inr True \<longrightarrow> is_older since b = Inr True) evs"
  shows "fst (events tok actions since e w) = Inr (take 500 (filter (\<lambda>ev. is_older since ev = Inr False) evs))"
proof -
  let ?f = "\<lambda>ev. is_older since ev = Inr True"
  have "is_older since ev = Inr (?f ev)" if "ev \<in> set evs" for ev
    using assms(2) that by (cases "is_older since ev") (auto simp: list_all_iff)
  then obtain w' where "events tok actions since e w = (Inr (take 500 (takeWhile (\<lambda>ev. \<not> ?f ev) evs)), w')"
    using event_pages_newer [of "\<lambda>n. auth_get tok ''/events/events/'' (event_params actions n)" e evs "is_older since" ?f 1
        max_event_pages "[]" w] auth_get_serves [OF assms(1)]
    by (auto simp: events_def max_event_pages_def)
  moreover have "\<not> ?f ev \<longleftrightarrow> is_older since ev = Inr False" if "ev \<in> set evs" for ev
    using assms(2) that by (cases "is_older since ev") (auto simp: list_all_iff)
  then have "filter (\<lambda>ev. \<not> ?f ev) evs = filter (\<lambda>ev. is_older since ev = Inr False) evs"
    by (simp cong: filter_cong)
  ultimately show ?thesis
    using takeWhile_filter [OF assms(3)] by simp
qed

definition sample_event :: "string \<Rightarrow> json" where
  "sample_event s = JObj [(''action'', JStr ''login_failed''), (''created'', JStr s)]"

definition sample_events :: "json list" where
  "sample_events = [sample_event ''2026-10-02T08:00:00Z'', sample_event ''2026-09-01T08:00:00Z'']"

text \<open>A server that answers with the number of the page, which stands for its text.\<close>

definition sample_env :: http_env where
  "sample_env = \<lparr>answer = (\<lambda>k q. Inr (Response 200 [] (py_str (get_or JNull ''page'' (req_params q))))),
     loads = (\<lambda>s. Some (event_page sample_events (nat_of_str s))), yaml = (\<lambda>s. None), mono = 0, wall = 0\<rparr>"

lemma eight_o_clock:
  assumes "fromisoformat (take 10 s) = Some d" and "drop 11 s = ''08:00:00+00:00''" and "length s = 25"
  shows "fromisodatetime s = Some (of_nat (86400 * toordinal d) + 28800, Some 0)"
proof -
  have "time_of_day ''08:00:00'' = Some 28800"
    by (simp add: time_of_day_def two_digits_def fraction_of_def all_digits_def is_digit_def nat_of_str_def digit_val_def)
  moreover have "takeWhile (\<lambda>c. \<not> is_offset_mark c) ''08:00:00+00:00'' = ''08:00:00''"
    "dropWhile (\<lambda>c. \<not> is_offset_mark c) ''08:00:00+00:00'' = ''+00:00''" "offset_of ''+00:00'' = Some (Some 0)"
    by code_simp+
  ultimately show ?thesis
    using assms by (simp add: fromisodatetime_def)
qed

lemma sample_moments:
  "fromisodatetime ''2026-10-02T08:00:00+00:00'' = Some (of_nat (86400 * 739891) + 28800, Some 0)"
  "fromisodatetime ''2026-09-01T08:00:00+00:00'' = Some (of_nat (86400 * 739860) + 28800, Some 0)"
proof -
  have "fromisoformat ''2026-10-02'' = Some (Date 2026 10 2)" "fromisoformat ''2026-09-01'' = Some (Date 2026 9 1)"
    by code_simp+
  moreover have "toordinal (Date 2026 10 2) = 739891" "toordinal (Date 2026 9 1) = 739860"
    by (simp_all add: toordinal_def days_before_year_def days_before_month_def days_in_month_def leap_def upt_rec)
  ultimately show "fromisodatetime ''2026-10-02T08:00:00+00:00'' = Some (of_nat (86400 * 739891) + 28800, Some 0)"
    "fromisodatetime ''2026-09-01T08:00:00+00:00'' = Some (of_nat (86400 * 739860) + 28800, Some 0)"
    using eight_o_clock [of "''2026-10-02T08:00:00+00:00''" "Date 2026 10 2"] eight_o_clock [of "''2026-09-01T08:00:00+00:00''" "Date 2026 9 1"]
    by simp_all
qed

lemma sample_older: "is_older 1790000000 (sample_event ''2026-10-02T08:00:00Z'') = Inr False"
  "is_older 1790000000 (sample_event ''2026-09-01T08:00:00Z'') = Inr True"
proof -
  have "replace ''Z'' ''+00:00'' ''2026-10-02T08:00:00Z'' = ''2026-10-02T08:00:00+00:00''"
    "replace ''Z'' ''+00:00'' ''2026-09-01T08:00:00Z'' = ''2026-09-01T08:00:00+00:00''"
    by code_simp+
  then show "is_older 1790000000 (sample_event ''2026-10-02T08:00:00Z'') = Inr False"
    "is_older 1790000000 (sample_event ''2026-09-01T08:00:00Z'') = Inr True"
    by (simp_all add: is_older_def sample_event_def item_of_def sample_moments timestamp_def unix_epoch_def)
qed

theorem events_newest_500_witness:
  "fst (events ''tok'' [''login''] 1790000000 sample_env \<lparr>sent = []\<rparr>) =
     Inr (take 500 (filter (\<lambda>ev. is_older 1790000000 ev = Inr False) sample_events))"
proof (rule events_newest_500)
  show "serves_events sample_env ''tok'' [''login''] sample_events"
    by (simp add: serves_events_def sample_env_def auth_request_def event_params_def get_or_def)
qed (simp_all add: sample_events_def sample_older)

end
