(* ===== verification/SecuritySummary.thy ===== *)
theory SecuritySummary
  imports UpdateReport SecurityEvents GithubSecurity AwsPosture AuthentikAudit ExposureReport
begin

text \<open>
  \<open>security_summary\<close> of \<open>compose/aws/home-mcp/server.py\<close>: one line from each of the six security checks.
  The checks that speak HTTP share their requests and the cache of the update check; AWS and the
  exposure report have environments of their own. The checks run one after the other.
\<close>

section \<open>The tool\<close>

record summary_env =
  web_env :: http_env
  aws_part :: aws_env
  exposure_part :: report_env
  today :: date
  crawl_fuel :: nat
  allowed_user :: string
  github_token :: string
  audit_token :: string
  open_env :: string

record summary_world =
  web_world :: upd
  aws_world :: "aws_call list"

text \<open>What a check gave: the name of the class of its exception, or its text.\<close>

type_synonym check_outcome = "string + string"

type_synonym check_run = "summary_env \<Rightarrow> summary_world \<Rightarrow> check_outcome \<times> summary_world"

definition web_check :: "(summary_env \<Rightarrow> (upd, string) web) \<Rightarrow> check_run" where
  "web_check m e w = (case m e (web_env e) (web_world w) of (r, u) \<Rightarrow> (map_sum exn_name id r, w\<lparr>web_world := u\<rparr>))"

definition aws_class :: "aws_exn \<Rightarrow> string" where
  "aws_class x = (case x of ClientErr n _ \<Rightarrow> n | BotoErr n \<Rightarrow> n | OtherErr y \<Rightarrow> exn_name y)"

definition aws_check :: check_run where
  "aws_check e w = (case aws_posture (open_env e) (aws_part e) (aws_world w) of (r, l) \<Rightarrow> (map_sum aws_class id r, w\<lparr>aws_world := l\<rparr>))"

definition summary_checks :: "(string \<times> check_run) list" where
  "summary_checks =
    [(''Updates'', web_check (\<lambda>e. update_status (crawl_fuel e) (today e) False)),
     (''Events'', web_check (\<lambda>e. security_events (allowed_user e) 7)),
     (''GitHub'', web_check (\<lambda>e. github_security (github_token e) [] False)),
     (''AWS'', aws_check),
     (''Authentik'', web_check (\<lambda>e. authentik_audit (audit_token e))),
     (''Exposure'', \<lambda>e w. (exposure_check (exposure_part e), w))]"

fun gather :: "(string \<times> check_run) list \<Rightarrow> summary_env \<Rightarrow> summary_world \<Rightarrow> (string \<times> check_outcome) list \<times> summary_world" where
  "gather [] e w = ([], w)"
| "gather ((n, c) # cs) e w = (case c e w of (r, w') \<Rightarrow> case gather cs e w' of (rs, w'') \<Rightarrow> ((n, r) # rs, w''))"

text \<open>\<open>res.splitlines()[0]\<close> raises for an empty text.\<close>

definition summary_line :: "string \<times> check_outcome \<Rightarrow> py_exn + string" where
  "summary_line x = (case x of (name, r) \<Rightarrow> (case r of
      Inl k \<Rightarrow> Inr (name @ '': couldn't check ('' @ k @ '').'')
    | Inr s \<Rightarrow> (case splitlines s of [] \<Rightarrow> Inl (PyError ''IndexError'') | l # _ \<Rightarrow> Inr (name @ '': '' @ l))))"

definition security_summary :: "summary_env \<Rightarrow> summary_world \<Rightarrow> (py_exn + string) \<times> summary_world" where
  "security_summary e w = (case gather summary_checks e w of (rs, w') \<Rightarrow>
     (bindR (mapR summary_line rs) (\<lambda>ls. Inr (join [newline] ls)), w'))"

section \<open>First lines\<close>

lemma lines_acc_not_Nil: "s \<noteq> [] \<Longrightarrow> lines_acc False w s \<noteq> []"
proof (induction s arbitrary: w)
  case (Cons c s)
  then show ?case
    by (cases "s = []") auto
qed simp

lemma lines_acc_first:
  "list_all (\<lambda>c. \<not> is_linebreak c) h \<Longrightarrow> lines_acc False w (h @ newline # s) \<noteq> [] \<and> hd (lines_acc False w (h @ newline # s)) = w @ h"
  by (induction h arbitrary: w) (auto simp: is_linebreak_def newline_def code_def)

lemma splitlines_nonempty: "s \<noteq> [] \<Longrightarrow> splitlines s \<noteq> []"
  by (simp add: splitlines_def lines_acc_not_Nil)

lemma summary_line_first:
  assumes "list_all (\<lambda>c. \<not> is_linebreak c) h"
  shows "summary_line (name, Inr (h @ newline # s)) = Inr (name @ '': '' @ h)"
  using lines_acc_first [OF assms, of "[]" s]
  by (cases "splitlines (h @ newline # s)") (auto simp: summary_line_def splitlines_def)

text \<open>The line of a check with a result that is not an empty text.\<close>

lemma summary_line_some:
  "r \<noteq> Inr [] \<Longrightarrow> \<exists>l. summary_line (name, r) = Inr (name @ '': '' @ l)"
  using splitlines_nonempty by (auto simp: summary_line_def split: sum.split list.split)

section \<open>No check answers with an empty text\<close>

definition says :: "('e, 'w, 'x, string) io \<Rightarrow> bool" where
  "says m \<longleftrightarrow> (\<forall>e w. fst (m e w) \<noteq> Inr [])"

lemma says_bind: "(\<And>a. says (f a)) \<Longrightarrow> says (bind m f)"
  by (auto simp: says_def bind_def split: prod.split sum.split)

lemma says_ret: "s \<noteq> [] \<Longrightarrow> says (ret s)"
  by (simp add: says_def ret_def)

lemma says_raise: "says (raise x)"
  by (simp add: says_def raise_def)

lemma says_lift: "(\<And>a. r = Inr a \<Longrightarrow> g a \<noteq> []) \<Longrightarrow> says (bind (liftR r) (\<lambda>a. ret (g a)))"
  by (cases r) (auto simp: says_def bind_def liftR_def ret_def)

lemma join_not_Nil: "l \<noteq> [] \<Longrightarrow> join sep (l # ls) \<noteq> []"
  by (cases ls) auto

lemma says_update_status: "says (update_status fuel day detail)"
  unfolding update_status_def
  by (intro says_bind says_ret) (auto simp: report_text_def UpdateReport.head_line_def Let_def split: prod.split intro!: join_not_Nil)

lemma event_lines_head: "event_lines days res = Inr ls \<Longrightarrow> \<exists>flags rest. ls = event_head days flags # rest"
  by (auto simp: event_lines_def bindR_Inr)

lemma says_security_events: "says (security_events user days)"
  unfolding security_events_def Let_def
  by (intro says_bind says_lift) (auto dest!: event_lines_head simp: event_head_def intro!: join_not_Nil)

lemma says_github_security: "says (github_security tok repo detail)"
  unfolding github_security_def Let_def
  by (intro says_bind says_ret) (auto simp: security_lines_def security_head_def quiet_head_def intro!: join_not_Nil)

lemma says_aws_posture: "says (aws_posture exps)"
  unfolding aws_posture_def
  by (intro says_bind says_ret) (auto simp: posture_lines_def posture_head_def looks_clean_def Let_def intro!: join_not_Nil)

lemma says_audit_people: "says (audit_people tok since users)"
  unfolding audit_people_def
  by (intro says_bind says_ret) (auto simp: audit_text_def split: prod.split intro!: join_not_Nil)

lemma says_authentik_audit: "says (authentik_audit tok)"
proof -
  have "says (ret not_set_up)" 
    by (intro says_ret) (simp add: not_set_up_def)
  moreover have "says (ret (''I couldn't reach Authentik's API ('' @ n @ '').''))"
    "says (ret (''Authentik refused the audit account ('' @ n @ ''); check the home-mcp-audit blueprint applied.''))" for n
    by (intro says_ret, simp)+
  ultimately show ?thesis
    unfolding authentik_audit_def Let_def
    by (auto intro!: says_bind says_raise says_audit_people split: sum.split)
qed

lemma exposure_check_head: "\<exists>k. exposure_check e = Inl k \<or> (\<exists>problems rest. exposure_check e = Inr (join [newline] (ExposureReport.head_line problems # rest)))"
  by (cases "scan_findings (report_clock e) (exposure_file e)"; cases "certs e") (auto simp: exposure_check_def Let_def)

lemma exposure_check_not_Nil: "exposure_check e \<noteq> Inr []"
proof -
  have "ExposureReport.head_line problems \<noteq> []" for problems
    by (simp add: ExposureReport.head_line_def)
  then show ?thesis
    using exposure_check_head [of e] join_not_Nil by (metis sum.inject(2) sum.distinct(1))
qed

definition speaks :: "check_run \<Rightarrow> bool" where
  "speaks c \<longleftrightarrow> (\<forall>e w. fst (c e w) \<noteq> Inr [])"

lemma speaks_web_check: "(\<And>e. says (m e)) \<Longrightarrow> speaks (web_check m)"
  unfolding speaks_def web_check_def says_def
  by (auto simp: split_beta map_sum_def split: sum.split)

lemma all_checks_speak: "list_all (\<lambda>x. speaks (snd x)) summary_checks"
proof -
  have "speaks aws_check"
    using says_aws_posture unfolding speaks_def aws_check_def says_def
    by (auto simp: split_beta map_sum_def split: sum.split)
  then show ?thesis
    unfolding summary_checks_def list.pred_inject snd_conv
    by (intro conjI TrueI speaks_web_check says_update_status says_security_events says_github_security says_authentik_audit)
      (simp_all add: speaks_def exposure_check_not_Nil)
qed

text \<open>The summary is always an answer, with one line for each of the six checks in their order, led by the
  name of the check: a check that raises takes no other line with it, and none of the checks answers
  with an empty text, for which the summary itself would fail.\<close>

theorem summary_six_lines:
  "\<exists>ls. fst (security_summary e w) = Inr (join [newline] ls) \<and>
    list_all2 (\<lambda>name l. prefix (name @ '': '') l) [''Updates'', ''Events'', ''GitHub'', ''AWS'', ''Authentik'', ''Exposure''] ls"
proof -
  have "\<exists>ls. mapR summary_line (fst (gather cs e w)) = Inr ls \<and> list_all2 (\<lambda>name l. prefix (name @ '': '') l) (map fst cs) ls"
    if "list_all (\<lambda>x. speaks (snd x)) cs" for cs w
    using that
  proof (induction cs arbitrary: w)
    case (Cons x cs)
    obtain n c where x: "x = (n, c)" by fastforce
    obtain r w' where r: "c e w = (r, w')" by fastforce
    then have "r \<noteq> Inr []"
      using Cons.prems by (auto simp: x speaks_def dest!: spec [of _ e] dest: spec [of _ w])
    then obtain l where "summary_line (n, r) = Inr (n @ '': '' @ l)"
      using summary_line_some by blast
    moreover obtain ls where "mapR summary_line (fst (gather cs e w')) = Inr ls"
      "list_all2 (\<lambda>name l. prefix (name @ '': '') l) (map fst cs) ls"
      using Cons by auto
    ultimately show ?case
      by (simp add: x r split_beta prefix_def)
  qed simp
  from this [OF all_checks_speak, of w] show ?thesis
    by (auto simp: security_summary_def split_beta summary_checks_def)
qed

section \<open>When nothing can be reached\<close>

definition no_http :: "http_env \<Rightarrow> bool" where
  "no_http e \<longleftrightarrow> (\<forall>n q. \<exists>x. answer e n q = Inl (HTTPX x))"

lemma no_httpD: "no_http e \<Longrightarrow> \<exists>x. answer e n q = Inl (HTTPX x)"
  by (simp add: no_http_def)

lemma mapM_all:
  "(\<And>x w. \<exists>y w'. f x e w = (Inr y, w') \<and> P y) \<Longrightarrow> \<exists>ys w'. mapM f xs e w = (Inr ys, w') \<and> list_all P ys"
proof (induction xs arbitrary: w)
  case (Cons x xs)
  obtain y w1 where y: "f x e w = (Inr y, w1)" "P y"
    using Cons.prems by blast
  obtain ys w2 where "mapM f xs e w1 = (Inr ys, w2)" "list_all P ys"
    using Cons by blast
  with y show ?case
    by (simp add: bind_def ret_def)
qed (simp add: ret_def)

lemma event_lines_unread:
  assumes "list_all (\<lambda>x. isl (snd x)) res"
  shows "\<exists>l rest. event_lines days res = Inr (event_head days [] # l # rest)"
proof -
  have "answered res k = []" for k
    using assms by (auto simp: answered_def list_all_iff isl_def split: option.split sum.split dest!: map_of_SomeD)
  then show ?thesis
    by (simp add: event_lines_def total_of_def counts_by_def dict_update_def web_by_router_def web_lines_def event_flags_def nonzero_def)
qed

lemma events_unreached:
  assumes "no_http e"
  shows "\<exists>rest. fst (security_events user 7 e w) = Inr (event_head 7 [] @ newline # rest)"
proof -
  have "\<exists>y w'. (case kq of (k, q) \<Rightarrow> bind (outcome (loki_query q)) (\<lambda>r. ret (k, r))) e w = (Inr y, w') \<and> isl (snd y)" for kq w
  proof -
    obtain k q where kq: "kq = (k, q)" by fastforce
    then show ?thesis
      using no_httpD [OF assms, of "length (sent w)" "Request ''GET'' loki_query_url [(''query'', JStr q), (''time'', JInt (trunc (wall e * 1000000000)))] None None"]
      by (auto simp: loki_query_def get_json_def get_ok_def get_def outcome_def try_catch_def send_def bind_def ask_def ret_def)
  qed
  then obtain res w' where "mapM (\<lambda>(k, q). bind (outcome (loki_query q)) (\<lambda>r. ret (k, r)))
      (loki_queries (str_of_int 7 @ ''d'') user) e w = (Inr res, w')" "list_all (\<lambda>x. isl (snd x)) res"
    using mapM_all [of "\<lambda>(k, q). bind (outcome (loki_query q)) (\<lambda>r. ret (k, r))" e "\<lambda>x. isl (snd x)"] by blast
  then show ?thesis
    using event_lines_unread [of res 7]
    by (auto simp: security_events_def bounded_days_def max_days_def Let_def bind_def liftR_def ret_def)
qed

lemma github_unreached:
  assumes "no_http e" and "tok \<noteq> []" and "tok \<noteq> ''none''"
  shows "\<exists>rest. fst (github_security tok repo detail e w) = Inr (quiet_head @ newline # rest)"
  using unreachable_says_protected [of e tok repo detail w] no_httpD [OF assms(1)] assms(2,3) by auto

lemma aws_unreached:
  assumes "no_aws e"
  shows "\<exists>rest. fst (aws_posture exps e w) = Inr (looks_clean @ newline # rest)"
  using unreachable_looks_clean [OF assms, of exps w] by auto

lemma authentik_unreached:
  assumes "no_http e" and "tok \<noteq> []" and "tok \<noteq> ''none''"
  shows "\<exists>x. fst (authentik_audit tok e w) = Inr (''I couldn't reach Authentik's API ('' @ x @ '').'')"
  using assms(2,3) no_httpD [OF assms(1), of "length (sent w)"
      "auth_request tok ''/core/users/'' [(''is_active'', JStr ''true''), (''page_size'', JStr ''100'')]"]
  by (auto simp: authentik_audit_def Let_def bind_def ask_def outcome_def try_catch_def send_def ret_def is_http_def exn_name_def)

lemma certs_unreached:
  "\<forall>h\<in>set hs. \<exists>k. c h = Unreachable k \<Longrightarrow>
     \<exists>couldnt. fold (note_cert now) (map (\<lambda>h. (h, c h)) hs) (problems, acc, None) = (problems, couldnt, None)"
proof (induction hs arbitrary: acc)
  case (Cons h hs)
  then obtain k where "c h = Unreachable k" by auto
  then show ?case
    using Cons by (simp add: note_cert_def)
qed simp

lemma exposure_unreached:
  assumes "exposure_file e = NoFile" and "\<forall>h\<in>set (tls_hosts e). \<exists>k. certificate_of e h = Unreachable k"
  shows "\<exists>rest. exposure_check e = Inr (ExposureReport.head_line [] @ newline # rest)"
proof -
  obtain couldnt where "certs e = ([], couldnt, - 1)"
    using certs_unreached [OF assms(2), of "report_clock e" "[]" "[]"] by (auto simp: certs_def)
  then show ?thesis
    using assms(1) by (simp add: exposure_check_def scan_findings_def Let_def)
qed

lemma plain_heads:
  "list_all (\<lambda>c. \<not> is_linebreak c) (event_head 7 [])" "list_all (\<lambda>c. \<not> is_linebreak c) quiet_head"
  "list_all (\<lambda>c. \<not> is_linebreak c) looks_clean" "list_all (\<lambda>c. \<not> is_linebreak c) (ExposureReport.head_line [])"
  by code_simp+

text \<open>C15: when no request over HTTP and no call of AWS is answered, no certificate can be read and no port
  scan has run, the summary still says that the last days need nothing, that GitHub has no open
  alerts and protects \<open>main\<close>, that AWS looks clean and that nothing unexpected is reachable from the
  internet. The lines in which these checks name what they couldn't check are not part of it.\<close>

theorem summary_hides_unreached:
  assumes "no_http (web_env e)" and "no_aws (aws_part e)" and "exposure_file (exposure_part e) = NoFile"
    and "\<forall>h\<in>set (tls_hosts (exposure_part e)). \<exists>k. certificate_of (exposure_part e) h = Unreachable k"
    and "github_token e \<noteq> []" and "github_token e \<noteq> ''none''"
  shows "\<exists>updates authentik. fst (security_summary e w) = Inr (join [newline]
    [''Updates: '' @ updates, ''Events: '' @ event_head 7 [], ''GitHub: '' @ quiet_head, ''AWS: '' @ looks_clean,
     ''Authentik: '' @ authentik, ''Exposure: '' @ ExposureReport.head_line []])"
proof -
  obtain r1 u1 where 1: "update_status (crawl_fuel e) (today e) False (web_env e) (web_world w) = (r1, u1)" by fastforce
  obtain s2 u2 where 2: "security_events (allowed_user e) 7 (web_env e) u1 = (Inr (event_head 7 [] @ newline # s2), u2)"
    using events_unreached [OF assms(1)] by (metis prod.collapse)
  obtain s3 u3 where 3: "github_security (github_token e) [] False (web_env e) u2 = (Inr (quiet_head @ newline # s3), u3)"
    using github_unreached [OF assms(1,5,6)] by (metis prod.collapse)
  obtain s4 l where 4: "aws_posture (open_env e) (aws_part e) (aws_world w) = (Inr (looks_clean @ newline # s4), l)"
    using aws_unreached [OF assms(2)] by (metis prod.collapse)
  obtain r5 u5 where 5: "authentik_audit (audit_token e) (web_env e) u3 = (r5, u5)" by fastforce
  obtain s6 where 6: "exposure_check (exposure_part e) = Inr (ExposureReport.head_line [] @ newline # s6)"
    using exposure_unreached [OF assms(3,4)] by blast
  have "map_sum exn_name id r1 \<noteq> Inr []" "map_sum exn_name id r5 \<noteq> Inr []"
    using says_update_status says_authentik_audit 1 5 unfolding says_def by (metis fst_conv id_apply map_sum.simps sum.exhaust sum.distinct(1) sum.inject(2))+
  then obtain l1 l5 where l: "summary_line (''Updates'', map_sum exn_name id r1) = Inr (''Updates'' @ '': '' @ l1)"
    "summary_line (''Authentik'', map_sum exn_name id r5) = Inr (''Authentik'' @ '': '' @ l5)"
    using summary_line_some by metis
  have gathered: "fst (gather summary_checks e w) =
      [(''Updates'', map_sum exn_name id r1), (''Events'', Inr (event_head 7 [] @ newline # s2)), (''GitHub'', Inr (quiet_head @ newline # s3)),
       (''AWS'', Inr (looks_clean @ newline # s4)), (''Authentik'', map_sum exn_name id r5),
       (''Exposure'', Inr (ExposureReport.head_line [] @ newline # s6))]"
    by (simp add: summary_checks_def web_check_def aws_check_def 1 2 3 4 5 6)
  have "mapR summary_line (fst (gather summary_checks e w)) = Inr [''Updates'' @ '': '' @ l1, ''Events'' @ '': '' @ event_head 7 [],
      ''GitHub'' @ '': '' @ quiet_head, ''AWS'' @ '': '' @ looks_clean, ''Authentik'' @ '': '' @ l5,
      ''Exposure'' @ '': '' @ ExposureReport.head_line []]"
    unfolding gathered by (simp only: mapR.simps bindR_simps l summary_line_first plain_heads)
  then show ?thesis
    by (intro exI [of _ l1] exI [of _ l5]) (simp add: security_summary_def split_beta)
qed

text \<open>An outage for the witness.\<close>

definition outage :: summary_env where
  "outage = \<lparr>web_env = no_network, aws_part = no_aws_env,
     exposure_part = \<lparr>tls_hosts = [''auth.billandjessie.com''], certificate_of = (\<lambda>h. Unreachable ''TimeoutError''), exposure_file = NoFile,
       report_clock = 0\<rparr>,
     today = Date 2026 10 2, crawl_fuel = 20, allowed_user = ''bcalaway'', github_token = ''t'', audit_token = ''t'', open_env = default_open\<rparr>"

theorem summary_hides_unreached_witness:
  "\<exists>updates authentik. fst (security_summary outage \<lparr>web_world = \<lparr>sent = [], cache = []\<rparr>, aws_world = []\<rparr>) = Inr (join [newline]
    [''Updates: '' @ updates, ''Events: '' @ event_head 7 [], ''GitHub: '' @ quiet_head, ''AWS: '' @ looks_clean,
     ''Authentik: '' @ authentik, ''Exposure: '' @ ExposureReport.head_line []])"
  by (rule summary_hides_unreached)
    (simp_all add: outage_def no_http_def no_network_def no_aws_def no_aws_env_def)

end
