(* ===== verification/PromApi.thy ===== *)
theory PromApi
  imports PyConv Calendar
begin

text \<open>
  What the views of Prometheus share (\<open>hub_view.py\<close>, \<open>airflow_view.py\<close> and \<open>status.py\<close> in
  \<open>compose/aws/home-mcp\<close>): instant queries, samples, and the way ages and sizes are written. Values are
  finite numbers. Labels are texts; anything else stands as Python prints it.
\<close>

definition prometheus_url :: string where
  "prometheus_url = ''http://prometheus:9090''"

definition instant_query :: "string \<Rightarrow> ('z net_scheme, json list) web" where
  "instant_query q =
     bind (get_json (prometheus_url @ ''/api/v1/query'') [(''query'', JStr q)]) (\<lambda>j.
     liftR (bindR (item_path [''data'', ''result''] j) iter_of))"

text \<open>\<open>float(s["value"][1])\<close> and \<open>s["metric"].get(k, v)\<close>.\<close>

definition sample_text :: "json \<Rightarrow> py_exn + json" where
  "sample_text s = bindR (item_of ''value'' s) (at_index 1)"

definition sample_value :: "json \<Rightarrow> py_exn + rat" where
  "sample_value s = bindR (sample_text s) to_float"

definition sample_label :: "string \<Rightarrow> json \<Rightarrow> py_exn + string" where
  "sample_label k s = bindR (item_of ''metric'' s) (get_text (JStr []) k)"

text \<open>\<open>{label: value for s in results}\<close>.\<close>

definition labelled :: "string \<Rightarrow> json \<Rightarrow> py_exn + string \<times> rat" where
  "labelled k s = bindR (sample_label k s) (\<lambda>l. bindR (sample_value s) (\<lambda>v. Inr (l, v)))"

definition values_by :: "string \<Rightarrow> json list \<Rightarrow> py_exn + rat dict" where
  "values_by k rs = bindR (mapR (labelled k) rs) (\<lambda>ps. Inr (dict_update [] ps))"

text \<open>\<open>except (httpx.HTTPError, ...)\<close>: the exceptions that a view turns into a sentence. The errors of
  parsing JSON are \<open>ValueError\<close>s.\<close>

definition caught :: "string list \<Rightarrow> py_exn \<Rightarrow> bool" where
  "caught names x = (case x of HTTPX _ \<Rightarrow> True | RateLimited _ \<Rightarrow> False
     | PyError n \<Rightarrow> n \<in> set names \<or> n = ''JSONDecodeError'' \<and> ''ValueError'' \<in> set names)"

definition catch_named :: "string list \<Rightarrow> ('w, 'a) web \<Rightarrow> (string \<Rightarrow> ('w, 'a) web) \<Rightarrow> ('w, 'a) web" where
  "catch_named names m h = try_catch m (\<lambda>x. if caught names x then h (exn_name x) else raise x)"

definition closed_season :: "date \<Rightarrow> bool" where
  "closed_season day \<longleftrightarrow> 11 \<le> month_of day \<or> month_of day \<le> 4"

text \<open>\<open>_age\<close>, and the format \<open>:.2f\<close>.\<close>

definition age_text :: "rat \<Rightarrow> string" where
  "age_text seconds =
     (let m = \<lfloor>seconds / 60\<rfloor> in
      if m < 60 then str_of_int m @ '' min''
      else let h = m div 60 in if h < 48 then str_of_int h @ '' h'' else str_of_int (h div 24) @ '' days'')"

definition fixed2_abs :: "rat \<Rightarrow> string" where
  "fixed2_abs r = (let n = round_half_even (100 * r) in str_of_int (n div 100) @ ''.'' @ zfill 2 (nat (n mod 100)))"

definition fixed2 :: "rat \<Rightarrow> string" where
  "fixed2 r = (if r < 0 then CHR ''-'' # fixed2_abs (- r) else fixed2_abs r)"

end
