(* ===== verification/PlatformStatus.thy ===== *)
theory PlatformStatus
  imports PromApi VoiceTasks VoiceJobs GithubStatus
begin

text \<open>
  \<open>compose/aws/home-mcp/status.py\<close>: the whole platform in one sentence, from Prometheus, the health of the
  apps, the tokens of the voice worker and of the voice jobs, and the deploys that wait for
  approval. Each of these parts has its own state and numbers its own requests; they run one after the other, and
  the first one that raises ends the tool.
\<close>

section \<open>Reading\<close>

definition app_urls :: "(string \<times> string) list" where
  "app_urls =
    [(''portal'', ''https://billandjessie.com/''), (''todo-app'', ''https://todo-app.billandjessie.com/health''),
     (''hue'', ''https://hue.billandjessie.com/health''), (''grafana'', ''https://grafana.billandjessie.com/api/health''),
     (''authentik'', ''https://auth.billandjessie.com/-/health/live/'')]"

definition hub_jobs :: "string list" where
  "hub_jobs = [''prometheus'', ''postgres'', ''redis'', ''authentik'', ''traefik'', ''cost-exporter'']"

definition status_queries :: "string list" where
  "status_queries =
    [''max by (site) (probe_success{job=\"blackbox-icmp\"})'', ''up{job=\"snmp\", device=~\"rt-.*\"}'',
     ''up{job=\"node-exporter\", instance=~\"nuc.*\"}'', ''node_load1{instance=~\"nuc.*\"}'',
     ''count by (instance) (node_cpu_seconds_total{mode=\"idle\", instance=~\"nuc.*\"})'',
     ''max by (job) (up{job=~\"'' @ join ''|'' hub_jobs @ ''\"})'', ''aws_cost_month_to_date_usd'', ''aws_cost_forecast_month_usd'']"

definition app_ok :: "string \<Rightarrow> ('z net_scheme, bool) web" where
  "app_ok url = catch_http (bind (get url []) (\<lambda>r. ret (resp_status r < 400))) (\<lambda>_. ret False)"

record status_data =
  st_internet :: "json list"
  st_routers :: "json list"
  st_nodes :: "json list"
  st_load :: "json list"
  st_cores :: "json list"
  st_hub :: "json list"
  st_mtd :: "json list"
  st_forecast :: "json list"
  st_apps :: "bool list"
  st_tokens :: "string list"
  st_approvals :: "string list option"

definition read_metrics :: "('z net_scheme, json list list \<times> bool list) web" where
  "read_metrics =
     bind (mapM instant_query status_queries) (\<lambda>rs. bind (mapM (\<lambda>x. app_ok (snd x)) app_urls) (\<lambda>apps. ret (rs, apps)))"

section \<open>Problems\<close>

definition load_limit :: rat where
  "load_limit = 4"

definition is_one :: "json \<Rightarrow> py_exn + bool" where
  "is_one s = bindR (sample_text s) (\<lambda>v. Inr (v = JStr ''1''))"

definition metric_label :: "string \<Rightarrow> json \<Rightarrow> py_exn + string" where
  "metric_label k s = bindR (item_path [''metric'', k] s) (\<lambda>v. Inr (py_str v))"

definition site_entry :: "json \<Rightarrow> py_exn + string \<times> bool" where
  "site_entry s = bindR (metric_label ''site'' s) (\<lambda>l. bindR (is_one s) (\<lambda>b. Inr (l, b)))"

definition router_entry :: "json \<Rightarrow> py_exn + string \<times> bool" where
  "router_entry s = bindR (metric_label ''device'' s) (\<lambda>d. bindR (is_one s) (\<lambda>b.
     Inr (if d = ''rt-nyc'' then ''nyc'' else ''rambles'', b)))"

definition and_router :: "string \<times> bool \<Rightarrow> (string \<times> bool) list \<Rightarrow> (string \<times> bool) list" where
  "and_router x ok = AList.update (fst x) (get_or True (fst x) ok \<and> snd x) ok"

definition site_problems :: "bool \<Rightarrow> (string \<times> bool) list \<Rightarrow> string list" where
  "site_problems off ok =
     (if get_or False ''nyc'' ok then [] else [''NYC looks offline'']) @
     (if get_or False ''rambles'' ok \<or> off then [] else [''Rambles looks offline''])"

definition node_problem :: "bool \<Rightarrow> json \<Rightarrow> py_exn + string list" where
  "node_problem off s =
     bindR (metric_label ''instance'' s) (\<lambda>i. bindR (is_one s) (\<lambda>b.
     Inr (if \<not> b \<and> \<not> (i = ''nuc5'' \<and> off) then [i @ '' is not reporting''] else [])))"

definition core_entry :: "json \<Rightarrow> py_exn + string \<times> int" where
  "core_entry s = bindR (metric_label ''instance'' s) (\<lambda>i. bindR (sample_value s) (\<lambda>v. Inr (i, trunc v)))"

definition load_problem :: "(string \<times> int) list \<Rightarrow> json \<Rightarrow> py_exn + string list" where
  "load_problem cores s =
     bindR (metric_label ''instance'' s) (\<lambda>i. bindR (sample_value s) (\<lambda>v.
     let n = get_or 1 i cores in
     if n = 0 then Inl (PyError ''ZeroDivisionError'')
     else Inr (if load_limit < v / of_int n then [i @ '' load is '' @ fixed0 v @ '' on '' @ str_of_int n @ '' cores, likely stuck''] else [])))"

definition hub_problem :: "json \<Rightarrow> py_exn + string list" where
  "hub_problem s =
     bindR (is_one s) (\<lambda>b. if b then Inr [] else bindR (metric_label ''job'' s) (\<lambda>j. Inr [''hub service '' @ j @ '' is down'']))"

definition concatR :: "('a \<Rightarrow> py_exn + 'b list) \<Rightarrow> 'a list \<Rightarrow> py_exn + 'b list" where
  "concatR f xs = bindR (mapR f xs) (\<lambda>yss. Inr (concat yss))"

definition app_problems :: "bool list \<Rightarrow> string list" where
  "app_problems oks = map (\<lambda>(x, ok). fst x @ '' is down'') (filter (\<lambda>(x, ok). \<not> ok) (zip app_urls oks))"

definition site_status :: "status_data \<Rightarrow> py_exn + (string \<times> bool) list" where
  "site_status d =
     bindR (mapR site_entry (st_internet d)) (\<lambda>ss. bindR (mapR router_entry (st_routers d)) (\<lambda>rs.
     Inr (fold and_router rs (dict_update [] ss))))"

definition status_problems :: "bool \<Rightarrow> status_data \<Rightarrow> py_exn + string list" where
  "status_problems off d =
     bindR (site_status d) (\<lambda>ok.
     bindR (mapR core_entry (st_cores d)) (\<lambda>cores.
     bindR (concatR (node_problem off) (st_nodes d)) (\<lambda>nodes.
     bindR (concatR (load_problem (dict_update [] cores)) (st_load d)) (\<lambda>loads.
     bindR (concatR hub_problem (st_hub d)) (\<lambda>hub.
     Inr (site_problems off ok @ nodes @ loads @ hub @ app_problems (st_apps d) @ st_tokens d))))))"

section \<open>The sentence\<close>

definition dollars :: "json list \<Rightarrow> py_exn + string" where
  "dollars rs = bindR (at_index 0 (JList rs)) (\<lambda>r. bindR (sample_value r) (\<lambda>v. Inr (fixed0 v)))"

definition cost_text :: "status_data \<Rightarrow> py_exn + string" where
  "cost_text d =
     (if st_mtd d = [] then Inr []
      else bindR (dollars (st_mtd d)) (\<lambda>m.
        if st_forecast d = [] then Inr (''AWS is at $'' @ m @ '' this month'')
        else bindR (dollars (st_forecast d)) (\<lambda>f. Inr (''AWS is at $'' @ m @ '' this month, forecast $'' @ f))))"

definition all_good :: "bool list \<Rightarrow> string" where
  "all_good oks =
     ''All good: sites online, NUCs healthy, '' @ str_of_nat (length (filter id oks)) @ '' of '' @ str_of_nat (length app_urls) @ '' apps up.''"

definition status_head :: "string list \<Rightarrow> bool list \<Rightarrow> string" where
  "status_head problems oks =
     (if problems \<noteq> [] then str_of_nat (length problems) @ '' issue'' @ (if 1 < length problems then ''s'' else []) @ '': '' @
        join ''; '' problems @ ''.''
      else all_good oks)"

definition approval_lines :: "string list option \<Rightarrow> string list" where
  "approval_lines a = (case a of
      None \<Rightarrow> [''I couldn't check GitHub for pending approvals.'']
    | Some as \<Rightarrow> (if as \<noteq> [] then [str_of_nat (length as) @ '' deploy'' @ (if 1 < length as then ''s are'' else '' is'') @
          '' waiting for your approval: '' @ join ''; '' as @ ''.''] else []))"

definition status_lines :: "bool \<Rightarrow> status_data \<Rightarrow> py_exn + string list" where
  "status_lines off d =
     bindR (status_problems off d) (\<lambda>problems. bindR (cost_text d) (\<lambda>cost.
     Inr ([status_head problems (st_apps d)] @ approval_lines (st_approvals d) @ (if cost \<noteq> [] then [cost @ ''.''] else []) @
       (if off then [''Rambles is in its closed season, so it isn't counted.''] else []))))"

section \<open>The tool\<close>

record status_env =
  st_web :: http_env
  st_worker :: tasks_env
  st_jobs_cfg :: jobs_cfg
  st_today :: date

record status_world =
  st_net :: net
  st_calls :: tasks_world
  st_gh :: gh
  st_jobs :: jobs

definition read_status :: "status_env \<Rightarrow> status_world \<Rightarrow> (py_exn + status_data) \<times> status_world" where
  "read_status e w =
     (case read_metrics (st_web e) (st_net w) of (m, n') \<Rightarrow> let w1 = w\<lparr>st_net := n'\<rparr> in
      case m of Inl x \<Rightarrow> (Inl x, w1) | Inr (rs, apps) \<Rightarrow>
     (case worker_token_warnings (st_worker e) (st_calls w1) of (t, c') \<Rightarrow> let w2 = w1\<lparr>st_calls := c'\<rparr> in
      case t of Inl k \<Rightarrow> (Inl (PyError k), w2) | Inr worker_tokens \<Rightarrow>
     (case pending_approvals (st_web e) (st_gh w2) of (a, g') \<Rightarrow> let w3 = w2\<lparr>st_gh := g'\<rparr> in
      case a of Inl x \<Rightarrow> (Inl x, w3) | Inr approvals \<Rightarrow>
     (case jobs_token_warnings (st_jobs_cfg e) (st_web e) (st_jobs w3) of (j, j') \<Rightarrow> let w4 = w3\<lparr>st_jobs := j'\<rparr> in
      case j of Inl x \<Rightarrow> (Inl x, w4) | Inr job_tokens \<Rightarrow>
       (Inr \<lparr>st_internet = rs ! 0, st_routers = rs ! 1, st_nodes = rs ! 2, st_load = rs ! 3, st_cores = rs ! 4, st_hub = rs ! 5,
          st_mtd = rs ! 6, st_forecast = rs ! 7, st_apps = apps, st_tokens = worker_tokens @ job_tokens, st_approvals = approvals\<rparr>, w4)))))"

definition platform_status :: "status_env \<Rightarrow> status_world \<Rightarrow> (py_exn + string) \<times> status_world" where
  "platform_status e w =
     (case read_status e w of (r, w') \<Rightarrow>
       (bindR r (\<lambda>d. bindR (status_lines (closed_season (st_today e)) d) (\<lambda>ls. Inr (join '' '' ls))), w'))"

section \<open>When all is good\<close>

lemma fold_and_router:
  "get_or False site (fold and_router rs ok) \<longleftrightarrow>
     (if site \<in> fst ` set rs then get_or True site ok \<and> (\<forall>x\<in>set rs. fst x = site \<longrightarrow> snd x) else get_or False site ok)"
proof (induction rs arbitrary: ok)
  case (Cons x rs)
  then show ?case
    by (cases "fst x = site") (auto simp: and_router_def get_or_def image_iff split: option.split)
qed simp

lemma app_problems_Nil: "length oks = length app_urls \<Longrightarrow> app_problems oks = [] \<longleftrightarrow> list_all id oks"
proof -
  have "length xs = length oks \<Longrightarrow> filter (\<lambda>(x, ok). \<not> ok) (zip xs oks) = [] \<longleftrightarrow> list_all id oks" for xs :: "(string \<times> string) list"
    by (induction xs oks rule: list_induct2) auto
  then show "length oks = length app_urls \<Longrightarrow> app_problems oks = [] \<longleftrightarrow> list_all id oks"
    by (simp add: app_problems_def)
qed

lemma status_head_good: "status_head problems oks = all_good oks \<longleftrightarrow> problems = []"
proof -
  have "str_of_nat n @ s \<noteq> all_good oks" for n s
    using str_of_nat_digits [of "hd (str_of_nat n)" n]
    by (cases "str_of_nat n") (auto simp: all_good_def is_digit_def code_def)
  then show ?thesis
    by (simp add: status_head_def)
qed

text \<open>The conditions of \<open>All good\<close>, sample by sample.\<close>

definition node_fine :: "bool \<Rightarrow> json \<Rightarrow> bool" where
  "node_fine off s \<longleftrightarrow> is_one s = Inr True \<or> metric_label ''instance'' s = Inr ''nuc5'' \<and> off"

definition load_fine :: "(string \<times> int) list \<Rightarrow> json \<Rightarrow> bool" where
  "load_fine cores s \<longleftrightarrow> (\<exists>i v. metric_label ''instance'' s = Inr i \<and> sample_value s = Inr v \<and> v \<le> 4 * of_int (get_or 1 i cores))"

lemma node_problem_Nil: "node_problem off s = Inr ls \<Longrightarrow> ls = [] \<longleftrightarrow> node_fine off s"
  by (auto simp: node_problem_def node_fine_def bindR_Inr split: if_splits)

lemma load_problem_Nil:
  "load_problem cores s = Inr ls \<Longrightarrow> (\<forall>i. 0 < get_or 1 i cores) \<Longrightarrow> ls = [] \<longleftrightarrow> load_fine cores s"
  by (auto simp: load_problem_def load_fine_def bindR_Inr load_limit_def Let_def field_simps split: if_splits)

lemma hub_problem_Nil: "hub_problem s = Inr ls \<Longrightarrow> ls = [] \<longleftrightarrow> is_one s = Inr True"
  by (auto simp: hub_problem_def bindR_Inr split: if_splits)

lemma concatR_fine:
  assumes "concatR f xs = Inr ys" and "\<And>x zs. f x = Inr zs \<Longrightarrow> zs = [] \<longleftrightarrow> P x"
  shows "ys = [] \<longleftrightarrow> list_all P xs"
  using assms(1)
proof (induction xs arbitrary: ys)
  case (Cons x xs)
  then obtain y yss where "f x = Inr y" "mapR f xs = Inr yss" "ys = y @ concat yss"
    by (auto simp: concatR_def bindR_Inr)
  moreover from this have "concat yss = [] \<longleftrightarrow> list_all P xs"
    by (intro Cons.IH) (simp add: concatR_def)
  ultimately show ?case
    using assms(2) by auto
qed (simp add: concatR_def)

text \<open>A site is online: its routers answer and no ping from it failed, or, without a router in the answer, a
  ping from it succeeded.\<close>

definition site_up :: "string \<Rightarrow> (string \<times> bool) list \<Rightarrow> (string \<times> bool) list \<Rightarrow> bool" where
  "site_up site pings routers \<longleftrightarrow>
     (if site \<in> fst ` set routers then get_or True site pings \<and> (\<forall>x\<in>set routers. fst x = site \<longrightarrow> snd x)
      else get_or False site pings)"

lemma site_problems_Nil:
  "site_problems off (fold and_router rs ok) = [] \<longleftrightarrow> site_up ''nyc'' ok rs \<and> (site_up ''rambles'' ok rs \<or> off)"
  by (simp add: site_problems_def fold_and_router site_up_def)

lemma mapR_values: "mapR f xs = Inr ys \<Longrightarrow> list_all (\<lambda>x. \<forall>y. f x = Inr y \<longrightarrow> P y) xs \<Longrightarrow> list_all P ys"
  by (induction xs arbitrary: ys) (auto simp: bindR_Inr)

lemma dict_positive: "list_all (\<lambda>x. 0 < snd x) kvs \<Longrightarrow> 0 < get_or (1::int) i (dict_update [] kvs)"
proof -
  have step: "get_or (1::int) j (AList.update k v acc) = (if j = k then v else get_or 1 j acc)" for j k v acc
    by (simp add: get_or_def)
  have "list_all (\<lambda>x. 0 < snd x) kvs \<Longrightarrow> \<forall>i. 0 < get_or (1::int) i acc \<Longrightarrow>
      \<forall>i. 0 < get_or 1 i (fold (\<lambda>(k, v). AList.update k v) kvs acc)" for acc
  proof (induction kvs arbitrary: acc)
    case (Cons x kvs)
    then have "\<forall>i. 0 < get_or 1 i (AList.update (fst x) (snd x) acc)" "list_all (\<lambda>x. 0 < snd x) kvs"
      by (simp_all add: step)
    then have "\<forall>i. 0 < get_or 1 i (fold (\<lambda>(k, v). AList.update k v) kvs (AList.update (fst x) (snd x) acc))"
      by (intro Cons.IH)
    then show ?case
      by (cases x) simp
  qed simp
  from this [of "[]"] show "list_all (\<lambda>x. 0 < snd x) kvs \<Longrightarrow> 0 < get_or (1::int) i (dict_update [] kvs)"
    by (simp add: dict_update_def) (simp add: get_or_def)
qed

text \<open>C14: the answer leads with \<open>All good\<close> exactly when both sites are online (Rambles only in its season),
  every NUC that has a sample reports (except \<open>nuc5\<close> in the closed season), no load is above four per
  core, every hub service that has a sample is up, all apps answer, and no token has a warning. A NUC or
  a service without a sample counts as fine.\<close>

theorem all_good_iff:
  assumes "status_lines off d = Inr ls" and "length (st_apps d) = length app_urls"
    and "list_all (\<lambda>s. \<exists>i n. core_entry s = Inr (i, n) \<and> 0 < n) (st_cores d)"
  shows "\<exists>pings routers cores. mapR site_entry (st_internet d) = Inr pings \<and> mapR router_entry (st_routers d) = Inr routers \<and>
    mapR core_entry (st_cores d) = Inr cores \<and>
    (hd ls = all_good (st_apps d) \<longleftrightarrow>
       site_up ''nyc'' (dict_update [] pings) routers \<and> (site_up ''rambles'' (dict_update [] pings) routers \<or> off) \<and>
       list_all (node_fine off) (st_nodes d) \<and> list_all (load_fine (dict_update [] cores)) (st_load d) \<and>
       list_all (\<lambda>s. is_one s = Inr True) (st_hub d) \<and> list_all id (st_apps d) \<and> st_tokens d = [])"
proof -
  obtain problems where p: "status_problems off d = Inr problems" and head: "hd ls = status_head problems (st_apps d)"
    using assms(1) by (auto simp: status_lines_def bindR_Inr)
  obtain pings routers cores nodes loads hub where
    s: "mapR site_entry (st_internet d) = Inr pings" "mapR router_entry (st_routers d) = Inr routers" "mapR core_entry (st_cores d) = Inr cores"
    and n: "concatR (node_problem off) (st_nodes d) = Inr nodes" and l: "concatR (load_problem (dict_update [] cores)) (st_load d) = Inr loads"
    and h: "concatR hub_problem (st_hub d) = Inr hub"
    and ps: "problems = site_problems off (fold and_router routers (dict_update [] pings)) @ nodes @ loads @ hub @
      app_problems (st_apps d) @ st_tokens d"
    using p by (auto simp: status_problems_def site_status_def bindR_Inr)
  have "list_all (\<lambda>x. 0 < snd x) cores"
    by (rule mapR_values [OF s(3)]) (use assms(3) in \<open>auto simp: list_all_iff\<close>)
  then have "0 < get_or 1 i (dict_update [] cores)" for i
    by (rule dict_positive)
  then show ?thesis
    using s concatR_fine [OF n node_problem_Nil] concatR_fine [OF l load_problem_Nil] concatR_fine [OF h hub_problem_Nil]
      app_problems_Nil [OF assms(2)] ps head
    by (auto simp: status_head_good site_problems_Nil)
qed

text \<open>A quiet afternoon for the witness, with a NUC that is busy but not stuck.\<close>

definition sample_metric :: "string \<Rightarrow> string \<Rightarrow> string \<Rightarrow> json" where
  "sample_metric k l v = JObj [(''metric'', JObj [(k, JStr l)]), (''value'', JList [JInt 0, JStr v])]"

definition quiet_day :: status_data where
  "quiet_day =
    \<lparr>st_internet = [sample_metric ''site'' ''nyc'' ''1'', sample_metric ''site'' ''rambles'' ''1''],
     st_routers = [sample_metric ''device'' ''rt-nyc'' ''1''],
     st_nodes = [sample_metric ''instance'' ''nuc4'' ''1''], st_load = [sample_metric ''instance'' ''nuc4'' ''30''],
     st_cores = [sample_metric ''instance'' ''nuc4'' ''8''], st_hub = [sample_metric ''job'' ''redis'' ''1''],
     st_mtd = [], st_forecast = [], st_apps = [True, True, True, True, True], st_tokens = [], st_approvals = Some []\<rparr>"

lemma quiet_day_lines: "status_lines False quiet_day = Inr [all_good (st_apps quiet_day)]"
  by code_simp

lemma quiet_day_cores: "list_all (\<lambda>s. \<exists>i n. core_entry s = Inr (i, n) \<and> 0 < n) (st_cores quiet_day)"
proof -
  have "map core_entry (st_cores quiet_day) = [Inr (''nuc4'', 8)]"
    by code_simp
  then show ?thesis
    by (auto simp: quiet_day_def)
qed

theorem all_good_iff_witness:
  "\<exists>pings routers cores. mapR site_entry (st_internet quiet_day) = Inr pings \<and> mapR router_entry (st_routers quiet_day) = Inr routers \<and>
    mapR core_entry (st_cores quiet_day) = Inr cores \<and>
    site_up ''nyc'' (dict_update [] pings) routers \<and> site_up ''rambles'' (dict_update [] pings) routers \<and>
    list_all (load_fine (dict_update [] cores)) (st_load quiet_day)"
proof -
  have apps: "length (st_apps quiet_day) = length app_urls"
    by code_simp
  show ?thesis
    using all_good_iff [OF quiet_day_lines apps quiet_day_cores] by auto
qed

end
