(* ===== verification/HubView.thy ===== *)
theory HubView
  imports PromApi
begin

text \<open>
  \<open>compose/aws/home-mcp/hub_view.py\<close>: the containers on the hub, and what Prometheus can reach.
\<close>

section \<open>Containers\<close>

definition cadvisor :: string where
  "cadvisor = ''job=\"cadvisor\"''"

definition container_queries :: "string list" where
  "container_queries =
    [''max by (name) (container_start_time_seconds{'' @ cadvisor @ ''})'',
     ''max by (name) (container_memory_working_set_bytes{'' @ cadvisor @ ''})'',
     ''max by (name) (container_spec_memory_limit_bytes{'' @ cadvisor @ ''})'',
     ''sum by (name) (rate(container_cpu_usage_seconds_total{'' @ cadvisor @ ''}[5m]))'',
     ''sum by (name) (increase(container_oom_events_total{'' @ cadvisor @ ''}[24h])) > 0'',
     ''node_memory_MemTotal_bytes{instance=\"aws-hub\"}'',
     ''node_memory_MemAvailable_bytes{instance=\"aws-hub\"}'']"

record hub_data =
  hub_start :: "rat dict"
  hub_mem :: "rat dict"
  hub_limit :: "rat dict"
  hub_cpu :: "rat dict"
  hub_oom :: "rat dict"
  host_total :: "rat dict"
  host_avail :: "rat dict"

definition named_values :: "string \<Rightarrow> ('z net_scheme, rat dict) web" where
  "named_values q = bind (instant_query q) (\<lambda>rs. liftR (values_by ''name'' rs))"

definition read_hub :: "('z net_scheme, hub_data) web" where
  "read_hub =
     bind (mapM named_values container_queries) (\<lambda>vs.
     ret \<lparr>hub_start = vs ! 0, hub_mem = vs ! 1, hub_limit = vs ! 2, hub_cpu = vs ! 3, hub_oom = vs ! 4,
       host_total = vs ! 5, host_avail = vs ! 6\<rparr>)"

definition recent_seconds :: rat where
  "recent_seconds = 3600"

definition near_limit :: rat where
  "near_limit = 8 / 10"

definition size_text :: "rat \<Rightarrow> string" where
  "size_text b = (if 1024 ^ 3 \<le> b then fixed1 (b / 1024 ^ 3) @ '' GB'' else fixed0 (b / 1024 ^ 2) @ '' MB'')"

definition first_value :: "rat dict \<Rightarrow> rat" where
  "first_value d = (case d of [] \<Rightarrow> 0 | (_, v) # _ \<Rightarrow> v)"

definition in_dict :: "string \<Rightarrow> rat dict \<Rightarrow> py_exn + rat" where
  "in_dict n d = (case map_of d n of None \<Rightarrow> Inl (PyError ''KeyError'') | Some v \<Rightarrow> Inr v)"

text \<open>The containers by memory, the largest first.\<close>

definition by_memory :: "hub_data \<Rightarrow> string list" where
  "by_memory d = map fst (sort_key (\<lambda>kv. - snd kv) (hub_mem d))"

definition hub_head :: "hub_data \<Rightarrow> string" where
  "hub_head d =
     str_of_nat (length (hub_mem d)) @ '' containers on the hub, using '' @ size_text (sum_list (map snd (hub_mem d))) @
     (let t = first_value (host_total d) in
      if t \<noteq> 0 then ''; the hub has '' @ size_text t @ '' with '' @ fixed0 (100 * (1 - first_value (host_avail d) / t)) @ ''% in use'' else []) @ ''.''"

definition recent_line :: "rat \<Rightarrow> hub_data \<Rightarrow> py_exn + string" where
  "recent_line now d =
     bindR (mapR (\<lambda>n. bindR (in_dict n (hub_start d)) (\<lambda>t. Inr (n, t)))
       (filter (\<lambda>n. now - get_or 0 n (hub_start d) < recent_seconds) (by_memory d))) (\<lambda>recent.
     Inr (''Started in the last hour: '' @
       (if recent \<noteq> [] then join '', '' (map (\<lambda>(n, t). n @ '' ('' @ age_text (now - t) @ '' ago)'') (sort_key (\<lambda>nt. - snd nt) recent))
        else ''none'') @ ''.''))"

definition oom_line :: "hub_data \<Rightarrow> string" where
  "oom_line d =
     (let oom = filter (\<lambda>kv. fst kv \<noteq> []) (hub_oom d) in
      ''OOM kills in 24 hours: '' @
      (if oom \<noteq> [] then join '', '' (map (\<lambda>(n, v). n @ '' ('' @ fixed0 v @ '')'') (sort_key fst oom)) else ''none'') @ ''.'')"

definition limit_of :: "hub_data \<Rightarrow> string \<Rightarrow> rat option" where
  "limit_of d n = (case map_of (hub_limit d) n of Some l \<Rightarrow> (if l \<noteq> 0 then Some l else None) | None \<Rightarrow> None)"

definition mem_of :: "hub_data \<Rightarrow> string \<Rightarrow> rat" where
  "mem_of d n = get_or 0 n (hub_mem d)"

definition is_near :: "hub_data \<Rightarrow> string \<Rightarrow> bool" where
  "is_near d n = (case limit_of d n of None \<Rightarrow> False | Some l \<Rightarrow> near_limit \<le> mem_of d n / l)"

definition used_of :: "hub_data \<Rightarrow> string \<Rightarrow> string" where
  "used_of d n = size_text (mem_of d n) @ (case limit_of d n of Some l \<Rightarrow> '' of '' @ size_text l | None \<Rightarrow> [])"

definition near_line :: "hub_data \<Rightarrow> string" where
  "near_line d =
     (let near = filter (is_near d) (by_memory d) in
      ''Above 80% of their memory limit: '' @
      (if near \<noteq> [] then join '', '' (map (\<lambda>n. n @ '' ('' @ used_of d n @ '')'') near) else ''none'') @ ''.'')"

definition unlimited_lines :: "hub_data \<Rightarrow> string list" where
  "unlimited_lines d =
     (let k = length (filter (\<lambda>n. limit_of d n = None) (by_memory d)) in
      if k \<noteq> 0 then [str_of_nat k @ '' of '' @ str_of_nat (length (hub_mem d)) @ '' have no memory limit yet.''] else [])"

definition container_line :: "rat \<Rightarrow> hub_data \<Rightarrow> string \<Rightarrow> string" where
  "container_line now d n =
     ''- '' @ n @ '': '' @ used_of d n @ (if limit_of d n = None then '', no limit'' else []) @
     '', CPU '' @ fixed2 (get_or 0 n (hub_cpu d)) @ '' cores'' @
     (case map_of (hub_start d) n of Some t \<Rightarrow> '', up '' @ age_text (now - t) | None \<Rightarrow> [])"

definition container_lines :: "rat \<Rightarrow> bool \<Rightarrow> hub_data \<Rightarrow> py_exn + string list" where
  "container_lines now detail d =
     bindR (recent_line now d) (\<lambda>recent.
     Inr ([hub_head d, recent, oom_line d, near_line d] @ unlimited_lines d @
       (if detail then ''Each container, by memory:'' # map (container_line now d) (by_memory d) else [])))"

definition containers :: "bool \<Rightarrow> ('z net_scheme, string) web" where
  "containers detail =
     bind (catch_named [''KeyError'', ''ValueError''] (bind read_hub (\<lambda>d. ret (Inr d)))
       (\<lambda>n. ret (Inl (''I couldn't read container metrics from Prometheus ('' @ n @ '').'')))) (\<lambda>r.
     case r of
       Inl s \<Rightarrow> ret s
     | Inr d \<Rightarrow>
         (if hub_mem d = [] then ret ''No container metrics yet: cAdvisor isn't reporting to Prometheus.''
          else bind (ask wall) (\<lambda>now. bind (liftR (container_lines now detail d)) (\<lambda>ls. ret (join [newline] ls)))))"

section \<open>Scrape targets\<close>

text \<open>The counts of a job: how many of its targets are up, and how many there are.\<close>

type_synonym job_counts = "(string \<times> nat \<times> nat) list"

definition count_target :: "string \<Rightarrow> bool \<Rightarrow> job_counts \<Rightarrow> job_counts" where
  "count_target job up cs = (let c = get_or (0, 0) job cs in
     AList.update job (fst c + (if up then 1 else 0), snd c + 1) cs)"

definition at_rambles :: "json \<Rightarrow> json \<Rightarrow> py_exn + bool" where
  "at_rambles labels t =
     bindR (get_of JNull ''site'' labels) (\<lambda>s. if s = JStr ''rambles'' then Inr True else
     bindR (get_of JNull ''instance'' labels) (\<lambda>i. if i = JStr ''nuc5'' then Inr True else
     bindR (get_of (JStr []) ''scrapeUrl'' t) (\<lambda>u. bindR (text_of u) (\<lambda>url. Inr (sublist ''10.0.2.'' url)))))"

definition down_line :: "bool \<Rightarrow> string \<Rightarrow> json \<Rightarrow> json \<Rightarrow> py_exn + string" where
  "down_line off job labels t =
     bindR (get_of JNull ''instance'' labels) (\<lambda>i. bindR (get_of JNull ''device'' labels) (\<lambda>dev.
     bindR (get_of (JStr []) ''scrapeUrl'' t) (\<lambda>url.
     bindR (at_rambles labels t) (\<lambda>rambles.
     bindR (get_of JNull ''lastError'' t) (\<lambda>e. bindR (text_of (or_j e (JStr ''no error reported''))) (\<lambda>err.
     Inr (''- '' @ job @ '' / '' @ py_str (or_j i (or_j dev url)) @ (if rambles \<and> off then '' (Rambles is closed, expected)'' else []) @
       '': '' @ take 150 err)))))))"

text \<open>A target: its job, whether it is up, and its line if it is not.\<close>

definition read_target :: "bool \<Rightarrow> json \<Rightarrow> py_exn + string \<times> string option" where
  "read_target off t =
     bindR (get_of (JObj []) ''labels'' t) (\<lambda>labels. bindR (get_text (JStr ''?'') ''job'' labels) (\<lambda>job.
     bindR (get_of JNull ''health'' t) (\<lambda>h.
     if h = JStr ''up'' then Inr (job, None)
     else bindR (down_line off job labels t) (\<lambda>l. Inr (job, Some l)))))"

definition count_jobs :: "(string \<times> string option) list \<Rightarrow> job_counts" where
  "count_jobs xs = fold (\<lambda>x. count_target (fst x) (snd x = None)) xs []"

definition down_lines :: "(string \<times> string option) list \<Rightarrow> string list" where
  "down_lines xs = map (the \<circ> snd) (filter (\<lambda>x. snd x \<noteq> None) xs)"

definition job_text :: "string \<times> nat \<times> nat \<Rightarrow> string" where
  "job_text j = (case j of (name, u, n) \<Rightarrow> name @ '' '' @ str_of_nat u @ ''/'' @ str_of_nat n)"

definition target_lines :: "bool \<Rightarrow> (string \<times> string option) list \<Rightarrow> string list" where
  "target_lines detail xs =
     (let cs = count_jobs xs; down = down_lines xs in
      [str_of_nat (sum_list (map (fst \<circ> snd) cs)) @ '' of '' @ str_of_nat (length xs) @ '' scrape targets are up across '' @
         str_of_nat (length cs) @ '' jobs.''] @
      (if down \<noteq> [] then (''Down ('' @ str_of_nat (length down) @ ''):'') # down else []) @
      (if detail then [''By job: '' @ join '', '' (map job_text (sort_key fst cs)) @ ''.''] else []))"

definition active_targets :: "('z net_scheme, json) web" where
  "active_targets =
     bind (get_json (prometheus_url @ ''/api/v1/targets'') [(''state'', JStr ''active'')]) (\<lambda>j.
     liftR (item_path [''data'', ''activeTargets''] j))"

definition scrape_targets :: "date \<Rightarrow> bool \<Rightarrow> ('z net_scheme, string) web" where
  "scrape_targets day detail =
     bind (catch_named [''KeyError'', ''ValueError''] (bind active_targets (\<lambda>ts. ret (Inr ts)))
       (\<lambda>n. ret (Inl (''I couldn't read Prometheus's targets ('' @ n @ '').'')))) (\<lambda>r.
     case r of
       Inl s \<Rightarrow> ret s
     | Inr ts \<Rightarrow>
         (if \<not> truthy ts then ret ''Prometheus has no active scrape targets.''
          else bind (liftR (bindR (iter_of ts) (mapR (read_target (closed_season day))))) (\<lambda>xs.
            ret (join [newline] (target_lines detail xs)))))"

section \<open>Every target is counted\<close>

lemma sum_update:
  fixes f :: "'a \<Rightarrow> nat"
  shows "distinct (keys d) \<Longrightarrow> sum_list (map (f \<circ> snd) (AList.update k v d)) + (case map_of d k of None \<Rightarrow> 0 | Some u \<Rightarrow> f u) =
     sum_list (map (f \<circ> snd) d) + f v"
proof (induction d)
  case (Cons x d)
  then show ?case
    by (cases x) (auto simp: map_of_eq_None_iff split: option.split)
qed simp

lemma count_target_sums:
  assumes "distinct (keys cs)"
  shows "distinct (keys (count_target job up cs))"
    and "sum_list (map (fst \<circ> snd) (count_target job up cs)) = sum_list (map (fst \<circ> snd) cs) + (if up then 1 else 0)"
    and "sum_list (map (snd \<circ> snd) (count_target job up cs)) = sum_list (map (snd \<circ> snd) cs) + 1"
  using assms
    sum_update [OF assms, of fst job "(fst (get_or (0, 0) job cs) + (if up then 1 else 0), snd (get_or (0, 0) job cs) + 1)"]
    sum_update [OF assms, of snd job "(fst (get_or (0, 0) job cs) + (if up then 1 else 0), snd (get_or (0, 0) job cs) + 1)"]
  by (cases "map_of cs job"; auto simp: count_target_def Let_def get_or_def distinct_update simp del: map_of_eq_Some_iff)+

lemma count_jobs_sums:
  "sum_list (map (fst \<circ> snd) (count_jobs xs)) + length (down_lines xs) = length xs \<and>
   sum_list (map (snd \<circ> snd) (count_jobs xs)) = length xs \<and> fst ` set (count_jobs xs) = fst ` set xs \<and> distinct (keys (count_jobs xs))"
proof -
  let ?go = "\<lambda>xs cs. fold (\<lambda>x. count_target (fst x) (snd x = None)) xs cs"
  have "sum_list (map (fst \<circ> snd) (?go xs cs)) + length (down_lines xs) = sum_list (map (fst \<circ> snd) cs) + length xs \<and>
     sum_list (map (snd \<circ> snd) (?go xs cs)) = sum_list (map (snd \<circ> snd) cs) + length xs \<and>
     fst ` set (?go xs cs) = fst ` set cs \<union> fst ` set xs \<and> distinct (keys (?go xs cs))" if "distinct (keys cs)" for cs
    using that
  proof (induction xs arbitrary: cs)
    case (Cons x xs)
    have "fst ` set (count_target (fst x) (snd x = None) cs) = insert (fst x) (fst ` set cs)"
      by (simp add: count_target_def Let_def)
    then show ?case
      using Cons.IH [of "count_target (fst x) (snd x = None) cs"] count_target_sums [OF Cons.prems, of "fst x" "snd x = None"]
      by (auto simp: down_lines_def comp_def)
  qed (simp add: down_lines_def)
  from this [of "[]"] show ?thesis
    by (simp add: count_jobs_def)
qed

text \<open>The numbers of the answer add up: for any targets that can be read, the counts of the jobs are those of
  all targets, every job is counted, and there is one line for each target that is not up, in their
  order, so that the number of targets that are up and the number of lines make up all of them.\<close>

theorem targets_add_up:
  assumes "mapR (read_target off) ts = Inr xs"
  shows "length xs = length ts \<and> length (down_lines xs) = length (filter (\<lambda>t. get_of JNull ''health'' t \<noteq> Inr (JStr ''up'')) ts) \<and>
    sum_list (map (fst \<circ> snd) (count_jobs xs)) = length (filter (\<lambda>t. get_of JNull ''health'' t = Inr (JStr ''up'')) ts) \<and>
    sum_list (map (snd \<circ> snd) (count_jobs xs)) = length ts \<and> set (keys (count_jobs xs)) = set (keys xs) \<and>
    distinct (keys (count_jobs xs))"
proof -
  have "length (down_lines xs) = length (filter (\<lambda>t. get_of JNull ''health'' t \<noteq> Inr (JStr ''up'')) ts) \<and> length xs = length ts"
    using assms
  proof (induction ts arbitrary: xs)
    case (Cons t ts)
    then obtain x ys where x: "read_target off t = Inr x" "mapR (read_target off) ts = Inr ys" "xs = x # ys"
      by (auto simp: bindR_Inr)
    then have "snd x = None \<longleftrightarrow> get_of JNull ''health'' t = Inr (JStr ''up'')"
      by (auto simp: read_target_def bindR_Inr split: if_splits)
    then show ?case
      using Cons.IH [OF x(2)] x(3) by (auto simp: down_lines_def)
  qed (simp add: down_lines_def)
  moreover have "length (filter (\<lambda>t. get_of JNull ''health'' t = Inr (JStr ''up'')) ts) +
      length (filter (\<lambda>t. get_of JNull ''health'' t \<noteq> Inr (JStr ''up'')) ts) = length ts"
    by (rule sum_length_filter_compl)
  ultimately show ?thesis
    using count_jobs_sums [of xs] by auto
qed

definition sample_targets :: "json list" where
  "sample_targets =
    [JObj [(''labels'', JObj [(''job'', JStr ''snmp''), (''device'', JStr ''rt-nyc'')]), (''health'', JStr ''up'')],
     JObj [(''labels'', JObj [(''job'', JStr ''snmp''), (''device'', JStr ''rt-rambles''), (''site'', JStr ''rambles'')]), (''health'', JStr ''down''),
       (''lastError'', JStr ''timeout'')]]"

theorem targets_add_up_witness:
  "\<exists>xs. mapR (read_target True) sample_targets = Inr xs \<and> length (down_lines xs) = 1 \<and>
    sum_list (map (snd \<circ> snd) (count_jobs xs)) = 2"
proof -
  obtain xs where xs: "mapR (read_target True) sample_targets = Inr xs"
    by (simp add: sample_targets_def read_target_def down_line_def at_rambles_def get_of_def get_or_def get_text_def text_of_def or_j_def)
  then show ?thesis
    using targets_add_up [OF xs] by (simp add: sample_targets_def get_of_def get_or_def)
qed

end
