(* ===== verification/AirflowView.thy ===== *)
theory AirflowView
  imports PromApi
begin

text \<open>
  \<open>compose/aws/home-mcp/airflow_view.py\<close>: whether Airflow is healthy and how its DAGs have done, from its
  metrics in Prometheus.
\<close>

section \<open>The queries\<close>

definition ti_finish :: string where
  "ti_finish = ''airflow_ti_finish''"

definition in_state :: "string \<Rightarrow> string" where
  "in_state state = ti_finish @ ''{state=\"'' @ state @ ''\"}''"

definition last_event :: "string \<Rightarrow> string" where
  "last_event state =
     (let sel = in_state state in
      ''max by (dag_id) (last_over_time(('' @
      ''(timestamp('' @ sel @ '') and (changes('' @ sel @ ''[2m]) > 0))'' @
      '' or (timestamp('' @ sel @ '') unless '' @ sel @ '' offset 2m)'' @
      '')[7d:1m]))'')"

definition airflow_queries :: "string list" where
  "airflow_queries =
    [''sum(rate(airflow_scheduler_heartbeat[5m])) * 60'', ''max(airflow_dag_processing_import_errors)'',
     ''max(airflow_executor_running_tasks)'', ''max(airflow_executor_queued_tasks)'', ''max(airflow_executor_open_slots)'',
     ''sum by (dag_id) (increase('' @ in_state ''success'' @ ''[24h]))'',
     ''sum by (dag_id) (increase('' @ in_state ''failed'' @ ''[24h]))'',
     ''sum by (dag_id) (increase('' @ in_state ''failed'' @ ''[7d]))'',
     last_event ''success'', last_event ''failed'', ''count by (dag_id) ('' @ ti_finish @ ''{dag_id!=\"\"})'']"

definition airflow_names :: "('z net_scheme, json) web" where
  "airflow_names =
     bind (get_json (prometheus_url @ ''/api/v1/label/__name__/values'') [(''match[]'', JStr ''{__name__=~\"airflow_.*\"}'')])
       (\<lambda>j. liftR (item_of ''data'' j))"

definition read_airflow :: "bool \<Rightarrow> ('z net_scheme, json list list \<times> json) web" where
  "read_airflow detail =
     bind (mapM instant_query airflow_queries) (\<lambda>res.
     bind (if detail then airflow_names else ret (JList [])) (\<lambda>names. ret (res, names)))"

section \<open>The values\<close>

record airflow_data =
  af_heartbeat :: "rat option"
  af_errors :: "rat option"
  af_running :: "rat option"
  af_queued :: "rat option"
  af_open :: "rat option"
  af_ok24 :: "rat dict"
  af_fail24 :: "rat dict"
  af_fail7d :: "rat dict"
  af_last_ok :: "rat dict"
  af_last_fail :: "rat dict"
  af_dags :: "string list"

definition one_value :: "json list \<Rightarrow> py_exn + rat option" where
  "one_value rs = (case rs of [] \<Rightarrow> Inr None | r # _ \<Rightarrow> bindR (sample_value r) (\<lambda>v. Inr (Some v)))"

definition airflow_values :: "json list list \<Rightarrow> py_exn + airflow_data" where
  "airflow_values res =
     bindR (mapR one_value (take 5 res)) (\<lambda>ones.
     bindR (mapR (values_by ''dag_id'') (drop 5 res)) (\<lambda>dicts.
     Inr \<lparr>af_heartbeat = ones ! 0, af_errors = ones ! 1, af_running = ones ! 2, af_queued = ones ! 3, af_open = ones ! 4,
       af_ok24 = dicts ! 0, af_fail24 = dicts ! 1, af_fail7d = dicts ! 2, af_last_ok = dicts ! 3, af_last_fail = dicts ! 4,
       af_dags = sort (keys (dicts ! 5))\<rparr>))"

section \<open>The answer\<close>

definition slots_of :: "airflow_data \<Rightarrow> int" where
  "slots_of d = (case (af_running d, af_open d) of (Some r, Some k) \<Rightarrow> round_half_even (r + k) | _ \<Rightarrow> 4)"

definition health_text :: "rat option \<Rightarrow> string" where
  "health_text heartbeat = (case heartbeat of
      None \<Rightarrow> ''I can't see the scheduler's heartbeat metric, so I can't tell if Airflow is running''
    | Some h \<Rightarrow> (if 0 < h then ''Airflow's scheduler is running'' else ''Airflow's scheduler has stopped heartbeating''))"

definition extras_of :: "airflow_data \<Rightarrow> string list" where
  "extras_of d =
     (case af_errors d of
        None \<Rightarrow> []
      | Some n \<Rightarrow> (if n \<noteq> 0 then [fixed0 n @ '' DAG file'' @ (if n \<noteq> 1 then ''s'' else []) @ '' failing to load''] else [''no DAG load errors''])) @
     (case af_running d of
        None \<Rightarrow> []
      | Some r \<Rightarrow> [fixed0 r @ '' of '' @ str_of_int (slots_of d) @ '' task slots busy'' @
          (case af_queued d of Some k \<Rightarrow> (if k \<noteq> 0 then '', '' @ fixed0 k @ '' queued'' else []) | None \<Rightarrow> [])])"

definition health_line :: "airflow_data \<Rightarrow> string" where
  "health_line d = health_text (af_heartbeat d) @ (if extras_of d \<noteq> [] then '': '' @ join '', '' (extras_of d) else []) @ ''.''"

definition half :: rat where
  "half = 1 / 2"

definition day_line :: "airflow_data \<Rightarrow> string" where
  "day_line d =
     (let ok = sum_list (map snd (af_ok24 d)); bad = sum_list (map snd (af_fail24 d)) in
      ''Last 24 hours: '' @ fixed0 ok @ '' task'' @ (if round_half_even ok \<noteq> 1 then ''s'' else []) @ '' succeeded, '' @ fixed0 bad @ '' failed'' @
      (if half \<le> bad then '' ('' @ join '', '' (map (\<lambda>(k, v). k @ '' '' @ fixed0 v)
         (filter (\<lambda>kv. half \<le> snd kv) (sort_key fst (af_fail24 d)))) @ '')'' else []) @ ''.'')"

definition dag_line :: "rat \<Rightarrow> airflow_data \<Rightarrow> string \<Rightarrow> string" where
  "dag_line now d n =
     (let f7 = get_or 0 n (af_fail7d d) in
      ''- '' @ n @ '': '' @
      (case map_of (af_last_ok d) n of
         Some t \<Rightarrow> ''last success '' @ age_text (now - t) @ '' ago''
       | None \<Rightarrow> ''no success in 7 days'') @ '', '' @
      (if half \<le> f7 then fixed0 f7 @ '' failed task'' @ (if round_half_even f7 \<noteq> 1 then ''s'' else []) @ '' in 7 days'' @
         (case map_of (af_last_fail d) n of Some t \<Rightarrow> '', last '' @ age_text (now - t) @ '' ago'' | None \<Rightarrow> [])
       else ''no failures in 7 days'') @ ''.'')"

definition wanted_dags :: "string \<Rightarrow> airflow_data \<Rightarrow> string list" where
  "wanted_dags dag d = filter (\<lambda>n. dag = [] \<or> sublist (replace ''-'' ''_'' (lower dag)) (lower n)) (af_dags d)"

definition closing_line :: string where
  "closing_line = ''Paused state and next runs are in the Airflow UI; the Grafana 'Airflow' dashboard has the history.''"

definition or_none :: "string \<Rightarrow> string" where
  "or_none s = (if s \<noteq> [] then s else ''none'')"

definition airflow_lines :: "rat \<Rightarrow> string \<Rightarrow> string list \<Rightarrow> airflow_data \<Rightarrow> string list" where
  "airflow_lines now dag names d =
     filter (\<lambda>x. x \<noteq> [])
       ((if dag = [] then [health_line d, day_line d] else []) @
        (if wanted_dags dag d \<noteq> [] then (if dag = [] then ''By DAG:'' else []) # map (dag_line now d) (wanted_dags dag d) else []) @
        (if names \<noteq> [] then [''Airflow metrics in Prometheus: '' @ join '', '' names @ ''.''] else []) @
        [closing_line])"

definition airflow_text :: "rat \<Rightarrow> string \<Rightarrow> string list \<Rightarrow> airflow_data \<Rightarrow> string" where
  "airflow_text now dag names d =
     (if dag \<noteq> [] \<and> wanted_dags dag d = [] then
        ''No DAG matching '' @ repr_str dag @ '' has run in Prometheus's history. Known DAGs: '' @ or_none (join '', '' (af_dags d)) @ ''.''
      else join [newline] (airflow_lines now dag names d))"

definition airflow_status :: "string \<Rightarrow> bool \<Rightarrow> ('z net_scheme, string) web" where
  "airflow_status dag detail =
     bind (catch_named [''KeyError'', ''ValueError'', ''IndexError''] (bind (read_airflow detail) (\<lambda>x. ret (Inr x)))
       (\<lambda>n. ret (Inl (''I couldn't read Airflow's metrics from Prometheus ('' @ n @ '').'')))) (\<lambda>r.
     case r of
       Inl s \<Rightarrow> ret s
     | Inr (res, names) \<Rightarrow>
         bind (ask wall) (\<lambda>now. bind (liftR (airflow_values res)) (\<lambda>d.
         bind (liftR (if truthy names then bindR (iter_of names) (mapR text_of) else Inr [])) (\<lambda>ns. ret (airflow_text now dag ns d)))))"

section \<open>What an answer without a DAG says\<close>

lemma dag_line_first: "dag_line now d n \<noteq> []"
  by (simp add: dag_line_def Let_def)

text \<open>The answer about all of Airflow leads with the state of the scheduler, and then has a line for each DAG that
  Prometheus knows, in their order.\<close>

theorem airflow_all_dags:
  "\<exists>rest. airflow_lines now [] names d = health_line d # day_line d #
     (if af_dags d \<noteq> [] then ''By DAG:'' # map (dag_line now d) (af_dags d) else []) @ rest"
proof -
  have "health_line d \<noteq> []" "day_line d \<noteq> []"
    by (simp_all add: health_line_def day_line_def Let_def)
  moreover have "filter (\<lambda>x. x \<noteq> []) (map (dag_line now d) ns) = map (dag_line now d) ns" for ns
    by (induction ns) (auto simp: dag_line_first)
  ultimately show ?thesis
    by (auto simp: airflow_lines_def wanted_dags_def)
qed

end
