(* ===== verification/PromQuery.thy ===== *)
theory PromQuery
  imports PromApi
begin

text \<open>
  \<open>compose/aws/home-mcp/prom_query.py\<close>: any PromQL query, with bounds. The values of samples are texts, as
  Prometheus sends them, and so are label values; the clock has microseconds.
\<close>

section \<open>Numbers\<close>

text \<open>What \<open>float(s)\<close> reads besides finite numbers.\<close>

datatype pyfloat = Finite rat | Infinite bool | NotANumber   \<comment> \<open>the flag: negative\<close>

definition pyfloat_of :: "string \<Rightarrow> pyfloat option" where
  "pyfloat_of s = (case float_of s of
      Some r \<Rightarrow> Some (Finite r)
    | None \<Rightarrow> (case split_sign (lower (strip s)) of (neg, w) \<Rightarrow>
        if w \<in> {''inf'', ''infinity''} then Some (Infinite neg)
        else if w = ''nan'' then Some NotANumber else None))"

text \<open>The format \<open>:.4g\<close>. The exponent of the leading digit is searched for in steps; the exponents of a
  64-bit float lie between -324 and 308.\<close>

fun exponent_down :: "nat \<Rightarrow> rat \<Rightarrow> int" where
  "exponent_down 0 r = 0"
| "exponent_down (Suc k) r = (if r < 10 then 0 else exponent_down k (r / 10) + 1)"

fun exponent_up :: "nat \<Rightarrow> rat \<Rightarrow> int" where
  "exponent_up 0 r = 0"
| "exponent_up (Suc k) r = (if 1 \<le> r then 0 else exponent_up k (r * 10) - 1)"

definition exponent_fuel :: nat where
  "exponent_fuel = 400"

definition lead_exponent :: "rat \<Rightarrow> int" where
  "lead_exponent r = (if 1 \<le> r then exponent_down exponent_fuel r else exponent_up exponent_fuel r)"

text \<open>The four significant digits as a number between 1000 and 9999, and the exponent after rounding.\<close>

definition four_digits :: "rat \<Rightarrow> int \<times> int" where
  "four_digits r =
     (let e = lead_exponent r; n = round_half_even (scale10 r (3 - e))
      in if n = 10000 then (1000, e + 1) else (n, e))"

definition strip_zeros :: "string \<Rightarrow> string" where
  "strip_zeros s = rstrip_if (\<lambda>c. c = CHR ''.'') (rstrip_if (\<lambda>c. c = CHR ''0'') s)"

definition general4_abs :: "rat \<Rightarrow> string" where
  "general4_abs r =
     (case four_digits r of (n, e) \<Rightarrow>
        let d = str_of_int n in
        if e < -4 \<or> 4 \<le> e then
          strip_zeros (take 1 d @ ''.'' @ drop 1 d) @ ''e'' @ (if e < 0 then ''-'' else ''+'') @ zfill 2 (nat \<bar>e\<bar>)
        else if e < 0 then strip_zeros (''0.'' @ replicate (nat (- e - 1)) (CHR ''0'') @ d)
        else strip_zeros (take (nat e + 1) d @ ''.'' @ drop (nat e + 1) d))"

definition general4 :: "rat \<Rightarrow> string" where
  "general4 r = (if r = 0 then ''0'' else if r < 0 then CHR ''-'' # general4_abs (- r) else general4_abs r)"

definition is_whole :: "rat \<Rightarrow> bool" where
  "is_whole r \<longleftrightarrow> of_int \<lfloor>r\<rfloor> = r"

definition finite_text :: "rat \<Rightarrow> string" where
  "finite_text r = (if is_whole r \<and> \<bar>r\<bar> < 10 ^ 15 then fixed0 r else general4 r)"

text \<open>\<open>_num\<close>.\<close>

definition num_text :: "string \<Rightarrow> string" where
  "num_text s = (case pyfloat_of s of
      None \<Rightarrow> s
    | Some NotANumber \<Rightarrow> ''NaN''
    | Some (Infinite neg) \<Rightarrow> (if neg then ''-inf'' else ''inf'')
    | Some (Finite r) \<Rightarrow> finite_text r)"

section \<open>Queries\<close>

definition max_series :: nat where
  "max_series = 40"

definition max_range_minutes :: int where
  "max_range_minutes = 7 * 24 * 60"

text \<open>The text of a clock value: at most six decimals, and at least one.\<close>

definition clock_text :: "rat \<Rightarrow> string" where
  "clock_text t =
     (let n = round_half_even (1000000 * t); f = rstrip_if (\<lambda>c. c = CHR ''0'') (zfill 6 (nat (n mod 1000000)))
      in str_of_int (n div 1000000) @ ''.'' @ (if f = [] then ''0'' else f))"

definition query_step :: "int \<Rightarrow> int \<Rightarrow> int" where
  "query_step minutes step_seconds = (if step_seconds \<noteq> 0 then step_seconds else max 60 (minutes * 60 div 200))"

definition query_params :: "string \<Rightarrow> int \<Rightarrow> int \<Rightarrow> rat \<Rightarrow> json dict" where
  "query_params q minutes step_seconds t =
     [(''query'', JStr q), (''timeout'', JStr ''20s'')] @
     (if 0 < minutes then
        [(''start'', JFloat (clock_text (t - of_int (min minutes max_range_minutes * 60)))), (''end'', JFloat (clock_text t)),
         (''step'', JInt (query_step (min minutes max_range_minutes) step_seconds))]
      else [])"

definition query_url :: "int \<Rightarrow> string" where
  "query_url minutes = prometheus_url @ ''/api/v1/'' @ (if 0 < minutes then ''query_range'' else ''query'')"

definition label_pair :: "string \<times> json \<Rightarrow> string" where
  "label_pair kv = fst kv @ ''=\"'' @ py_str (snd kv) @ [CHR 0x22]"

definition labels_text :: "json \<Rightarrow> py_exn + string" where
  "labels_text metric = (case metric of
      JObj d \<Rightarrow>
        (let name = py_str (get_or (JStr []) ''__name__'' d);
             rest = join '', '' (map label_pair (sort_key fst (filter (\<lambda>kv. fst kv \<noteq> ''__name__'') d)))
         in Inr (if rest \<noteq> [] then name @ ''{'' @ rest @ ''}'' else if name \<noteq> [] then name else ''{}''))
    | _ \<Rightarrow> Inl (PyError ''AttributeError''))"

definition text_at :: "nat \<Rightarrow> json \<Rightarrow> py_exn + string" where
  "text_at i j = bindR (at_index i j) text_of"

text \<open>A point of a range: \<open>_, v = point\<close>.\<close>

definition point_text :: "json \<Rightarrow> py_exn + string" where
  "point_text p = (case p of
      JList [a, v] \<Rightarrow> text_of v
    | JList _ \<Rightarrow> Inl (PyError ''ValueError'')
    | _ \<Rightarrow> Inl (PyError ''TypeError''))"

definition no_number :: "string list" where
  "no_number = [''NaN'', ''+Inf'', ''-Inf'']"

definition finite_of :: "string \<Rightarrow> py_exn + rat" where
  "finite_of s = (case float_of s of Some r \<Rightarrow> Inr r | None \<Rightarrow> Inl (PyError ''ValueError''))"

definition range_text :: "string \<Rightarrow> string list \<Rightarrow> py_exn + string" where
  "range_text labels pts =
     bindR (mapR finite_of (filter (\<lambda>s. s \<notin> set no_number) pts)) (\<lambda>vals.
     Inr (if vals \<noteq> [] then ''- '' @ labels @ '': min '' @ finite_text (Min (set vals)) @ '', max '' @ finite_text (Max (set vals)) @
            '', last '' @ num_text (last pts) @ '' ('' @ str_of_nat (length pts) @ '' points)''
          else ''- '' @ labels @ '': no numeric values''))"

definition series_line :: "json \<Rightarrow> json \<Rightarrow> py_exn + string" where
  "series_line kind s =
     bindR (bindR (item_of ''metric'' s) labels_text) (\<lambda>labels.
     if kind = JStr ''vector'' then
       bindR (bindR (item_of ''value'' s) (text_at 1)) (\<lambda>v. Inr (''- '' @ labels @ '' = '' @ num_text v))
     else bindR (bindR (item_of ''values'' s) iter_of) (\<lambda>ps. bindR (mapR point_text ps) (range_text labels)))"

definition series_head :: "nat \<Rightarrow> string" where
  "series_head n = str_of_nat n @ '' series'' @ (if max_series < n then '', showing the first '' @ str_of_nat max_series else []) @ '':''"

definition no_data :: "int \<Rightarrow> string" where
  "no_data minutes = ''No data: the query matched no series'' @
     (if minutes \<noteq> 0 then '' in the last '' @ str_of_int minutes @ '' minutes.'' else ''.'')"

definition result_lines :: "int \<Rightarrow> json \<Rightarrow> py_exn + string list" where
  "result_lines minutes data =
     bindR (item_of ''resultType'' data) (\<lambda>kind. bindR (item_of ''result'' data) (\<lambda>result.
     if kind \<in> {JStr ''scalar'', JStr ''string''} then bindR (text_at 1 result) (\<lambda>v. Inr [py_str kind @ '': '' @ num_text v])
     else if \<not> truthy result then Inr [no_data minutes]
     else bindR (iter_of result) (\<lambda>ss. bindR (mapR (series_line kind) (take max_series ss)) (\<lambda>ls. Inr (series_head (length ss) # ls)))))"

definition is_json :: "response \<Rightarrow> bool" where
  "is_json r \<longleftrightarrow> prefix ''application/json'' (get_or [] ''content-type'' (resp_headers r))"

definition answer_text :: "int \<Rightarrow> response \<Rightarrow> json \<Rightarrow> py_exn + string" where
  "answer_text minutes r body =
     bindR (if resp_status r \<noteq> 200 then Inr True else bindR (get_of JNull ''status'' body) (\<lambda>s. Inr (s \<noteq> JStr ''success''))) (\<lambda>bad.
     if bad then bindR (get_of JNull ''error'' body) (\<lambda>e.
       Inr (''Prometheus rejected the query: '' @ py_str (or_j e (JStr (take 300 (resp_text r))))))
     else bindR (item_of ''data'' body) (\<lambda>data. bindR (result_lines minutes data) (\<lambda>ls. Inr (join [newline] ls))))"

definition query_answer :: "int \<Rightarrow> py_exn + response \<Rightarrow> ('z net_scheme, string) web" where
  "query_answer minutes r = (case r of
      Inl x \<Rightarrow> (if is_http x then ret (''I couldn't reach Prometheus ('' @ exn_name x @ '').'') else raise x)
    | Inr resp \<Rightarrow>
        bind (if is_json resp then json_of resp else ret (JObj [])) (\<lambda>body.
        liftR (answer_text (if 0 < minutes then min minutes max_range_minutes else minutes) resp body)))"

definition prometheus_query :: "string \<Rightarrow> int \<Rightarrow> int \<Rightarrow> ('z net_scheme, string) web" where
  "prometheus_query query0 minutes step_seconds =
     (let q = strip query0 in
      if q = [] then ret ''Give me a PromQL expression to run.''
      else
        bind (ask wall) (\<lambda>t.
        bind (outcome (get (query_url minutes) (query_params q minutes step_seconds t))) (query_answer minutes)))"

section \<open>Metric names\<close>

definition metric_names :: "('z net_scheme, json list) web" where
  "metric_names =
     bind (get_json (prometheus_url @ ''/api/v1/label/__name__/values'') []) (\<lambda>j.
     liftR (bindR (item_of ''data'' j) iter_of))"

definition metrics_text :: "string \<Rightarrow> string list \<Rightarrow> string" where
  "metrics_text match names =
     (let m = lower (strip match); hits = (if m \<noteq> [] then filter (\<lambda>n. sublist m (lower n)) names else names) in
      if hits = [] then ''No metric names contain '' @ repr_str match @ '' ('' @ str_of_nat (length names) @ '' metrics in total).''
      else str_of_nat (length hits) @ '' metric'' @ plural (length hits) @ (if m \<noteq> [] then '' containing '' @ repr_str match else []) @
        (if 200 < length hits then '' (first 200 shown; narrow with match)'' else []) @ '': '' @ join '', '' (take 200 hits))"

definition prometheus_metrics :: "string \<Rightarrow> ('z net_scheme, string) web" where
  "prometheus_metrics match =
     bind (catch_named [''KeyError'', ''ValueError''] (bind metric_names (\<lambda>ns. ret (Inr ns)))
       (\<lambda>n. ret (Inl (''I couldn't list metrics from Prometheus ('' @ n @ '').'')))) (\<lambda>r.
     case r of
       Inl s \<Rightarrow> ret s
     | Inr ns \<Rightarrow> bind (liftR (mapR text_of ns)) (\<lambda>names. ret (metrics_text match names)))"

section \<open>Bounds\<close>

lemma result_lines_bounded: "result_lines minutes data = Inr ls \<Longrightarrow> length ls \<le> max_series + 1"
  by (auto simp: result_lines_def bindR_Inr mapR_Inr dest!: list_all2_lengthD split: if_splits)

lemma default_points:
  assumes "0 < minutes"
  shows "minutes * 60 div query_step minutes 0 + 1 \<le> 204"
proof (cases "minutes * 60 div 200 \<le> 60")
  case True
  then have "minutes * 60 < 200 * 61"
    by linarith
  then show ?thesis
    using True by (simp add: query_step_def max_def)
next
  case False
  let ?s = "minutes * 60 div 200"
  have "minutes * 60 < 200 * ?s + 200"
    by linarith
  then have "minutes * 60 < 204 * ?s"
    using False by linarith
  moreover have "minutes * 60 = ?s * (minutes * 60 div ?s) + minutes * 60 mod ?s" "0 \<le> minutes * 60 mod ?s"
    using False by simp_all
  moreover have "?s * 204 \<le> ?s * k" if "204 \<le> k" for k
    using False that by (intro mult_left_mono) auto
  ultimately have "minutes * 60 div ?s < 204"
    by (metis add_increasing2 mult.commute not_le)
  then show ?thesis
    using False by (simp add: query_step_def max_def)
qed

lemma sent_outcome_get: "sent (snd (outcome (get u ps) e w)) = sent w @ [Request ''GET'' u ps None None]"
  by (cases "answer e (length (sent w)) (Request ''GET'' u ps None None)")
    (simp_all add: outcome_def try_catch_def bind_def get_def send_def ret_def)

lemma sent_query_answer: "sent (snd (query_answer minutes r e w)) = sent w"
  by (cases r) (auto simp: query_answer_def bind_def ret_def raise_def liftR_def json_of_def split: sum.split option.split)

lemma prometheus_query_sent:
  "sent (snd (prometheus_query q minutes step_seconds e w)) =
     sent w @ (if strip q = [] then []
       else [Request ''GET'' (query_url minutes) (query_params (strip q) minutes step_seconds (wall e)) None None])"
proof (cases "strip q = []")
  case True
  then show ?thesis by (simp add: prometheus_query_def ret_def)
next
  case False
  let ?get = "outcome (get (query_url minutes) (query_params (strip q) minutes step_seconds (wall e)))"
  obtain r v where "?get e w = (Inr r, v)"
    by (cases "answer e (length (sent w)) (Request ''GET'' (query_url minutes) (query_params (strip q) minutes step_seconds (wall e)) None None)")
      (simp_all add: outcome_def try_catch_def bind_def get_def send_def ret_def)
  then show ?thesis
    using False sent_outcome_get [of "query_url minutes" "query_params (strip q) minutes step_seconds (wall e)" e w]
    by (simp add: prometheus_query_def Let_def bind_def ask_def sent_query_answer)
qed

text \<open>Whatever the arguments, \<open>prometheus_query\<close> sends at most one request, a GET to one of the two query
  endpoints. A range covers at most seven days, and with the default step it asks for at most 204 points per
  series. An answer has at most 40 series.\<close>

theorem query_bounded:
  "\<exists>qs. sent (snd (prometheus_query q minutes step_seconds e w)) = sent w @ qs \<and> length qs \<le> 1 \<and>
     list_all (\<lambda>r. req_method r = ''GET'' \<and> req_body r = None \<and> req_bearer r = None \<and>
       req_url r \<in> {query_url 0, query_url 1} \<and> (req_url r = query_url 1 \<longrightarrow>
       map_of (req_params r) ''start'' = Some (JFloat (clock_text (wall e - of_int (min minutes (7 * 24 * 60) * 60)))))) qs \<and>
     (0 < minutes \<longrightarrow> min minutes (7 * 24 * 60) * 60 div query_step (min minutes (7 * 24 * 60)) 0 + 1 \<le> 204) \<and>
     (\<forall>data ls. result_lines minutes data = Inr ls \<longrightarrow> length ls \<le> 41)"
proof (intro exI conjI)
  let ?qs = "if strip q = [] then []
     else [Request ''GET'' (query_url minutes) (query_params (strip q) minutes step_seconds (wall e)) None None]"
  show "sent (snd (prometheus_query q minutes step_seconds e w)) = sent w @ ?qs"
    by (rule prometheus_query_sent)
  have "query_url 0 \<noteq> query_url 1"
    by (simp add: query_url_def)
  then show "list_all (\<lambda>r. req_method r = ''GET'' \<and> req_body r = None \<and> req_bearer r = None \<and>
       req_url r \<in> {query_url 0, query_url 1} \<and> (req_url r = query_url 1 \<longrightarrow>
       map_of (req_params r) ''start'' = Some (JFloat (clock_text (wall e - of_int (min minutes (7 * 24 * 60) * 60)))))) ?qs"
    by (cases "0 < minutes") (simp_all add: query_url_def query_params_def max_range_minutes_def)
  show "0 < minutes \<longrightarrow> min minutes (7 * 24 * 60) * 60 div query_step (min minutes (7 * 24 * 60)) 0 + 1 \<le> 204"
    using default_points [of "min minutes (7 * 24 * 60)"] by auto
  show "\<forall>data ls. result_lines minutes data = Inr ls \<longrightarrow> length ls \<le> 41"
    using result_lines_bounded by (force simp: max_series_def)
qed simp

end
