(* ===== verification/GrafanaAlerts.thy ===== *)
theory GrafanaAlerts
  imports PyConv
begin

text \<open>
  \<open>compose/aws/home-mcp/grafana_alerts.py\<close>: Grafana's alert rules and their state. Names and states are
  texts, as Grafana sends them; anything else stands in a line as Python prints it.
\<close>

definition grafana_url :: string where
  "grafana_url = ''http://grafana:3000''"

text \<open>\<open>_when\<close>.\<close>

definition when_text :: "json \<Rightarrow> py_exn + string" where
  "when_text ts =
     (if \<not> truthy ts then Inr ''never''
      else case ts of
          JStr s \<Rightarrow> Inr (if prefix ''0001'' s then ''never'' else replace ''T'' '' '' (take 16 s) @ '' UTC'')
        | _ \<Rightarrow> Inl (PyError ''AttributeError''))"

definition get_lower :: "string \<Rightarrow> json \<Rightarrow> py_exn + string" where
  "get_lower k g = bindR (get_of (JStr []) k g) (\<lambda>v. case v of JStr s \<Rightarrow> Inr (lower s) | _ \<Rightarrow> Inl (PyError ''AttributeError''))"

definition group_matches :: "string \<Rightarrow> json \<Rightarrow> py_exn + bool" where
  "group_matches want g =
     bindR (get_lower ''name'' g) (\<lambda>n. if sublist want n then Inr True
     else bindR (get_lower ''file'' g) (\<lambda>f. Inr (sublist want f)))"

definition rules_of :: "json \<Rightarrow> py_exn + (json \<times> json) list" where
  "rules_of g = bindR (get_of (JList []) ''rules'' g) (\<lambda>r. bindR (iter_of r) (\<lambda>rs. Inr (map (\<lambda>x. (g, x)) rs)))"

definition state_of :: "json \<Rightarrow> py_exn + string" where
  "state_of rule = get_text (JStr ''unknown'') ''state'' rule"

definition count_state :: "string \<Rightarrow> (string \<times> nat) list \<Rightarrow> (string \<times> nat) list" where
  "count_state s c = AList.update s (get_or 0 s c + 1) c"

definition summary_text :: "string list \<Rightarrow> string" where
  "summary_text states =
     join '', '' (map (\<lambda>(s, n). str_of_nat n @ '' '' @ s) (sort_key fst (fold count_state states [])))"

text \<open>Whether a rule gets a line of its own.\<close>

definition is_shown :: "bool \<Rightarrow> string \<Rightarrow> json \<Rightarrow> json \<Rightarrow> bool" where
  "is_shown show_all want state health \<longleftrightarrow>
     show_all \<or> want \<noteq> [] \<or> state \<noteq> JStr ''inactive'' \<or> health \<notin> {JStr ''ok'', JNull}"

definition is_firing :: "json \<Rightarrow> py_exn + bool" where
  "is_firing a = bindR (get_of JNull ''state'' a) (\<lambda>s. Inr (s \<in> {JStr ''Alerting'', JStr ''firing''}))"

definition error_text :: "json \<Rightarrow> py_exn + string" where
  "error_text rule =
     bindR (get_of JNull ''lastError'' rule) (\<lambda>e.
     if truthy e then bindR (text_of e) (\<lambda>s. Inr ('', error: '' @ take 150 s)) else Inr [])"

definition rule_line :: "json \<Rightarrow> json \<Rightarrow> json \<Rightarrow> json \<Rightarrow> py_exn + string" where
  "rule_line g rule state health =
     bindR (bindR (get_of (JList []) ''alerts'' rule) iter_of) (\<lambda>alerts. bindR (filterR is_firing alerts) (\<lambda>firing.
     bindR (error_text rule) (\<lambda>err. bindR (get_text JNull ''name'' g) (\<lambda>gname. bindR (get_text JNull ''name'' rule) (\<lambda>name.
     bindR (bindR (get_of JNull ''lastEvaluation'' rule) when_text) (\<lambda>evaluated.
     Inr (''- ['' @ gname @ ''] '' @ name @ '': '' @ py_str state @ '', health '' @ py_str health @ '', last evaluated '' @ evaluated @
       (if firing \<noteq> [] then '', '' @ str_of_nat (length firing) @ '' firing instance(s)'' else []) @ err)))))))"

definition rule_lines :: "bool \<Rightarrow> string \<Rightarrow> json \<times> json \<Rightarrow> py_exn + string list" where
  "rule_lines show_all want gr = (case gr of (g, rule) \<Rightarrow>
     bindR (get_of JNull ''state'' rule) (\<lambda>state. bindR (get_of JNull ''health'' rule) (\<lambda>health.
     if is_shown show_all want state health then bindR (rule_line g rule state health) (\<lambda>l. Inr [l]) else Inr [])))"

definition all_quiet :: string where
  "all_quiet = ''All inactive and healthy. Pass group (e.g. 'mkt-data') or show_all to list them.''"

definition alert_lines :: "bool \<Rightarrow> string \<Rightarrow> json list \<Rightarrow> py_exn + string list" where
  "alert_lines show_all want groups =
     bindR (mapR rules_of groups) (\<lambda>rss. let rules = concat rss in
     bindR (mapR (\<lambda>gr. state_of (snd gr)) rules) (\<lambda>states.
     bindR (mapR (rule_lines show_all want) rules) (\<lambda>lss.
     Inr ([str_of_nat (length rules) @ '' alert rule'' @ plural (length rules) @ '' in '' @ str_of_nat (length groups) @ '' group(s): '' @
           summary_text states @ ''.''] @ concat lss @
          (if concat lss = [] \<and> rules \<noteq> [] then [all_quiet] else [])))))"

definition alert_report :: "string \<Rightarrow> bool \<Rightarrow> json list \<Rightarrow> py_exn + string" where
  "alert_report group_arg show_all groups =
     (let want = lower (strip group_arg) in
      bindR (if want \<noteq> [] then filterR (group_matches want) groups else Inr groups) (\<lambda>gs.
      if want \<noteq> [] \<and> gs = [] then Inr (''No alert group matching '' @ repr_str group_arg @ ''.'')
      else bindR (alert_lines show_all want gs) (\<lambda>ls. Inr (join [newline] ls))))"

definition grafana_alerts :: "string \<Rightarrow> string \<Rightarrow> bool \<Rightarrow> ('z net_scheme, string) web" where
  "grafana_alerts tok group_arg show_all =
     (if tok = [] \<or> tok = ''none''
      then ret ''Grafana alert access isn't set up yet (GRAFANA_HOME_MCP_TOKEN; the next hub deploy creates it).''
      else
        bind (outcome (send (Request ''GET'' (grafana_url @ ''/api/prometheus/grafana/api/v1/rules'') [] (Some tok) None))) (\<lambda>r.
        case r of
          Inl x \<Rightarrow> (if is_http x then ret (''I couldn't reach Grafana ('' @ exn_name x @ '').'') else raise x)
        | Inr resp \<Rightarrow>
            (if resp_status resp \<noteq> 200 then ret (''Grafana answered '' @ str_of_nat (resp_status resp) @ '': '' @ take 200 (resp_text resp))
             else bind (json_of resp) (\<lambda>j.
               liftR (bindR (get_of (JObj []) ''data'' j) (\<lambda>d. bindR (bindR (get_of (JList []) ''groups'' d) iter_of) (alert_report group_arg show_all)))))))"

section \<open>When all is said to be quiet\<close>

text \<open>A rule that needs no line: inactive, and healthy or without a health.\<close>

definition quiet_rule :: "json \<Rightarrow> bool" where
  "quiet_rule rule \<longleftrightarrow> get_of JNull ''state'' rule = Inr (JStr ''inactive'') \<and>
     (get_of JNull ''health'' rule = Inr (JStr ''ok'') \<or> get_of JNull ''health'' rule = Inr JNull)"

lemma rule_lines_Nil: "rule_lines False [] (g, rule) = Inr ls \<Longrightarrow> ls = [] \<longleftrightarrow> quiet_rule rule"
  by (auto simp: rule_lines_def bindR_Inr is_shown_def quiet_rule_def split: if_splits)

lemma rule_line_first: "rule_lines show_all want gr = Inr ls \<Longrightarrow> l \<in> set ls \<Longrightarrow> \<exists>s. l = CHR ''-'' # s"
  by (cases gr) (auto simp: rule_lines_def rule_line_def bindR_Inr split: if_splits)

lemma mapR_lines_Nil:
  "mapR (rule_lines False []) rules = Inr lss \<Longrightarrow> concat lss = [] \<longleftrightarrow> list_all (\<lambda>gr. quiet_rule (snd gr)) rules"
proof (induction rules arbitrary: lss)
  case (Cons gr rules)
  then show ?case
    using rule_lines_Nil [of "fst gr" "snd gr"] by (auto simp: bindR_Inr)
qed simp

lemma mapR_lines_first:
  "mapR (rule_lines show_all want) rules = Inr lss \<Longrightarrow> l \<in> set (concat lss) \<Longrightarrow> \<exists>s. l = CHR ''-'' # s"
proof (induction rules arbitrary: lss)
  case (Cons gr rules)
  then obtain ls yss where "rule_lines show_all want gr = Inr ls" "mapR (rule_lines show_all want) rules = Inr yss" "lss = ls # yss"
    by (auto simp: bindR_Inr)
  then show ?case
    using rule_line_first [of show_all want gr ls l] Cons.IH [of yss] Cons.prems(2) by auto
qed simp

text \<open>Without a group to look for, the report ends with the words that all rules are inactive and healthy
  exactly when there are rules and every one of them is inactive and has no health or a good one; otherwise each other
  rule has a line.\<close>

theorem all_quiet_iff:
  assumes "alert_lines False [] groups = Inr ls"
  shows "\<exists>rss. mapR rules_of groups = Inr rss \<and>
    (last ls = all_quiet \<longleftrightarrow> concat rss \<noteq> [] \<and> list_all (\<lambda>gr. quiet_rule (snd gr)) (concat rss))"
proof -
  obtain rss states lss where r: "mapR rules_of groups = Inr rss" "mapR (rule_lines False []) (concat rss) = Inr lss"
    and ls: "ls = [str_of_nat (length (concat rss)) @ '' alert rule'' @ plural (length (concat rss)) @ '' in '' @
        str_of_nat (length groups) @ '' group(s): '' @ summary_text states @ ''.''] @ concat lss @
      (if concat lss = [] \<and> concat rss \<noteq> [] then [all_quiet] else [])"
    using assms by (auto simp: alert_lines_def Let_def bindR_Inr)
  have "str_of_nat n @ s \<noteq> all_quiet" for n s
    using str_of_nat_digits [of "hd (str_of_nat n)" n]
    by (cases "str_of_nat n") (auto simp: all_quiet_def is_digit_def code_def)
  moreover have "last (concat lss) \<noteq> all_quiet" if "concat lss \<noteq> []"
    using mapR_lines_first [OF r(2) last_in_set [OF that]] by (auto simp: all_quiet_def)
  ultimately have "last ls = all_quiet \<longleftrightarrow> concat lss = [] \<and> concat rss \<noteq> []"
    unfolding ls by (auto simp: last_append)
  then show ?thesis
    using r mapR_lines_Nil [OF r(2)] by auto
qed

definition sample_groups :: "json list" where
  "sample_groups = [JObj [(''name'', JStr ''mkt-data''), (''rules'', JList [JObj [(''name'', JStr ''stale''), (''state'', JStr ''inactive''), (''health'', JStr ''ok'')]])]]"

lemma sample_alert_lines:
  "alert_lines False [] sample_groups = Inr [''1 alert rule in 1 group(s): 1 inactive.'', all_quiet]"
  by code_simp

theorem all_quiet_iff_witness:
  "\<exists>rss. mapR rules_of sample_groups = Inr rss \<and> list_all (\<lambda>gr. quiet_rule (snd gr)) (concat rss)"
  using all_quiet_iff [OF sample_alert_lines] by auto

end
