(* ===== verification/AppJobs.thy ===== *)
theory AppJobs
  imports Http
begin

text \<open>
  \<open>compose/aws/airflow/dags/home_platform_jobs.py\<close>: how a DAG calls an app's job API. What an HTTP request
  gives is the environment; the requests and the printed lines are the state. Hosts in brackets are
  not modelled, and a percent escape stands for the character of its byte.
\<close>

section \<open>Connections\<close>

datatype url_answer =
    Opened string               \<comment> \<open>the body of a 2xx answer\<close>
  | HttpError nat string        \<comment> \<open>\<open>HTTPError\<close>: code and body\<close>
  | NotReached string           \<comment> \<open>\<open>URLError\<close> or \<open>TimeoutError\<close>, by its text\<close>

datatype job_exn = AppJobError string | OtherExn string

datatype job_request = JobRequest (job_method: string) (job_url: string) (job_headers: "string dict") (job_data: "string option")

record job_env =
  environ :: "string \<Rightarrow> string option"
  open_url :: "nat \<Rightarrow> job_request \<Rightarrow> url_answer"
  job_loads :: "string \<Rightarrow> json option"

record job_world =
  job_requests :: "job_request list"
  printed :: "string list"

type_synonym 'a job_io = "(job_env, job_world, job_exn, 'a) io"

definition conn_var :: "string \<Rightarrow> string" where
  "conn_var app = ''AIRFLOW_CONN_'' @ replace ''-'' ''_'' (upper app)"

text \<open>\<open>urlsplit\<close>: the part between \<open>//\<close> and the path.\<close>

definition is_scheme :: "string \<Rightarrow> bool" where
  "is_scheme s \<longleftrightarrow> s \<noteq> [] \<and> (is_lower (hd s) \<or> is_upper (hd s)) \<and> list_all (\<lambda>c. is_alnum c \<or> c \<in> set ''+-.'') s"

definition authority :: "string \<Rightarrow> string" where
  "authority s = (if prefix ''//'' s then takeWhile (\<lambda>c. c \<notin> set ''/?#'') (drop 2 s) else [])"

definition netloc_of :: "string \<Rightarrow> string" where
  "netloc_of uri = (case partition1 (CHR '':'') uri of
      None \<Rightarrow> authority uri
    | Some (s, rest) \<Rightarrow> (if is_scheme s then authority rest else authority uri))"

definition user_info :: "string \<Rightarrow> string option" where
  "user_info netloc = map_option fst (rpartition1 (CHR ''@'') netloc)"

definition host_info :: "string \<Rightarrow> string" where
  "host_info netloc = (case rpartition1 (CHR ''@'') netloc of None \<Rightarrow> netloc | Some (_, h) \<Rightarrow> h)"

definition password_of :: "string \<Rightarrow> string option" where
  "password_of netloc = (case user_info netloc of
      None \<Rightarrow> None
    | Some u \<Rightarrow> map_option snd (partition1 (CHR '':'') u))"

definition hostname_of :: "string \<Rightarrow> string" where
  "hostname_of netloc = lower (case partition1 (CHR '':'') (host_info netloc) of None \<Rightarrow> host_info netloc | Some (h, _) \<Rightarrow> h)"

text \<open>The port: \<open>None\<close> without one, and a \<open>ValueError\<close> for one that is no number up to 65535.\<close>

definition port_of :: "string \<Rightarrow> string + nat option" where
  "port_of netloc = (case partition1 (CHR '':'') (host_info netloc) of
      None \<Rightarrow> Inr None
    | Some (_, p) \<Rightarrow>
        (if p = [] then Inr None
         else if list_all is_digit p \<and> nat_of_str p \<le> 65535 then Inr (Some (nat_of_str p)) else Inl ''ValueError''))"

definition hex_val :: "char \<Rightarrow> nat option" where
  "hex_val c =
     (if is_digit c then Some (digit_val c)
      else if 97 \<le> code c \<and> code c \<le> 102 then Some (code c - 87)
      else if 65 \<le> code c \<and> code c \<le> 70 then Some (code c - 55) else None)"

text \<open>\<open>urllib.parse.unquote\<close>.\<close>

fun unquote :: "string \<Rightarrow> string" where
  "unquote (c # a # b # s) =
     (if c = CHR ''%'' then
        (case (hex_val a, hex_val b) of
           (Some x, Some y) \<Rightarrow> char_of (16 * x + y) # unquote s
         | _ \<Rightarrow> c # unquote (a # b # s))
      else c # unquote (a # b # s))"
| "unquote s = s"

definition job_raise :: "string \<Rightarrow> 'a job_io" where
  "job_raise s = raise (AppJobError s)"

definition default_port :: nat where
  "default_port = 8000"

definition port_or_default :: "nat option \<Rightarrow> nat" where
  "port_or_default p = (case p of Some n \<Rightarrow> (if n \<noteq> 0 then n else default_port) | None \<Rightarrow> default_port)"

definition app_endpoint :: "string \<Rightarrow> (string \<times> string) job_io" where
  "app_endpoint app =
     bind (ask (\<lambda>e. environ e (conn_var app))) (\<lambda>v.
     case v of
       None \<Rightarrow> job_raise (conn_var app @ '' isn't set: is '' @ app @ '' in apps/registry.yml with airflow: true, and has a hub deploy run since?'')
     | Some uri \<Rightarrow>
         (let netloc = netloc_of uri in
          if uri = [] then job_raise (conn_var app @ '' isn't set: is '' @ app @ '' in apps/registry.yml with airflow: true, and has a hub deploy run since?'')
          else case password_of netloc of
              None \<Rightarrow> job_raise (conn_var app @ '' has no host or token'')
            | Some pw \<Rightarrow>
                (if hostname_of netloc = [] \<or> pw = [] then job_raise (conn_var app @ '' has no host or token'')
                 else case port_of netloc of
                     Inl x \<Rightarrow> raise (OtherExn x)
                   | Inr p \<Rightarrow> ret (''http://'' @ hostname_of netloc @ '':'' @ str_of_nat (port_or_default p), unquote pw))))"

section \<open>The call\<close>

text \<open>\<open>urlencode\<close>: a space becomes a plus sign, and everything but letters, digits and \<open>_.-~\<close> an escape.\<close>

definition upper_hex :: "nat \<Rightarrow> char" where
  "upper_hex d = (if d < 10 then char_of (48 + d) else char_of (55 + d))"

definition quote_plus_char :: "char \<Rightarrow> string" where
  "quote_plus_char c =
     (if is_alnum c \<or> c \<in> set ''_.-~'' then [c] else if c = CHR '' '' then ''+''
      else [CHR ''%'', upper_hex (code c div 16), upper_hex (code c mod 16)])"

definition quote_plus :: "string \<Rightarrow> string" where
  "quote_plus s = concat (map quote_plus_char s)"

definition urlencode :: "json dict \<Rightarrow> string" where
  "urlencode ps = join ''&'' (map (\<lambda>(k, v). quote_plus k @ ''='' @ quote_plus (py_str v)) ps)"

definition open_request :: "job_request \<Rightarrow> url_answer job_io" where
  "open_request q = (\<lambda>e w. (Inr (open_url e (length (job_requests w)) q), w\<lparr>job_requests := job_requests w @ [q]\<rparr>))"

definition job_request_for :: "string \<Rightarrow> string \<Rightarrow> string \<Rightarrow> json dict \<Rightarrow> string \<Rightarrow> job_request" where
  "job_request_for base tok job params method =
     (let url = base @ ''/jobs/'' @ lstrip_if (\<lambda>c. c = CHR ''/'') job;
          heads = [(''Authorization'', ''Bearer '' @ tok), (''Accept'', ''application/json'')]
      in if method = ''GET'' then JobRequest method (url @ (if params \<noteq> [] then ''?'' @ urlencode params else [])) heads None
         else JobRequest method url (heads @ [(''Content-Type'', ''application/json'')]) (Some (dumps (JObj params))))"

definition print_line :: "string \<Rightarrow> unit job_io" where
  "print_line s = modify (\<lambda>w. w\<lparr>printed := printed w @ [s]\<rparr>)"

definition job_failed :: "string \<Rightarrow> string \<Rightarrow> string \<Rightarrow> string \<Rightarrow> 'a job_io" where
  "job_failed app method job s = job_raise (app @ '' '' @ method @ '' /jobs/'' @ job @ '': '' @ s)"

definition call_app_job :: "string \<Rightarrow> string \<Rightarrow> json dict \<Rightarrow> string \<Rightarrow> json job_io" where
  "call_app_job app job params method =
     bind (app_endpoint app) (\<lambda>(base, tok).
     bind (open_request (job_request_for base tok job params method)) (\<lambda>a.
     case a of
       HttpError n body \<Rightarrow> job_failed app method job (''HTTP '' @ str_of_nat n @ '': '' @ take 2000 body)
     | NotReached x \<Rightarrow> job_failed app method job x
     | Opened body \<Rightarrow>
         bind (ask (\<lambda>e. job_loads e (if body \<noteq> [] then body else ''{}''))) (\<lambda>j.
         case j of
           None \<Rightarrow> raise (OtherExn ''JSONDecodeError'')
         | Some summary \<Rightarrow> andthen (print_line (app @ '' /jobs/'' @ job @ '': '' @ take 2000 (dumps summary))) (ret summary))))"

section \<open>The connection that the deploy writes\<close>

text \<open>The hub's deploy writes one line per app: the name in upper case, and the token and the name in a URL.\<close>

definition deployed_conn :: "string \<Rightarrow> string \<Rightarrow> string" where
  "deployed_conn app tok = ''http://:'' @ tok @ ''@'' @ app @ '':8000''"

definition app_name :: "string \<Rightarrow> bool" where
  "app_name s \<longleftrightarrow> s \<noteq> [] \<and> list_all (\<lambda>c. is_lower c \<or> is_digit c \<or> c = CHR ''-'') s"

definition plain_token :: "string \<Rightarrow> bool" where
  "plain_token s \<longleftrightarrow> s \<noteq> [] \<and> list_all is_alnum s"

lemma unquote_plain: "CHR ''%'' \<notin> set s \<Longrightarrow> unquote s = s"
  by (induction s rule: unquote.induct) auto

lemma lower_id: "list_all (\<lambda>c. \<not> is_upper c) s \<Longrightarrow> lower s = s"
  by (induction s) (simp_all add: lower_def to_lower_def)

lemma app_name_chars:
  assumes "app_name app"
  shows "CHR ''@'' \<notin> set app" "CHR '':'' \<notin> set app" "list_all (\<lambda>c. c \<notin> set ''/?#'') app" "list_all (\<lambda>c. \<not> is_upper c) app"
  using assms by (auto simp: app_name_def list_all_iff is_lower_def is_digit_def is_upper_def code_def)

lemma plain_token_chars:
  assumes "plain_token tok"
  shows "CHR ''@'' \<notin> set tok" "CHR '':'' \<notin> set tok" "list_all (\<lambda>c. c \<notin> set ''/?#'') tok" "CHR ''%'' \<notin> set tok"
  using assms by (auto simp: plain_token_def list_all_iff is_alnum_def is_lower_def is_digit_def is_upper_def code_def)

lemma takeWhile_all: "list_all P s \<Longrightarrow> takeWhile P s = s"
  by (simp add: takeWhile_eq_all_conv list_all_iff)

lemma netloc_deployed:
  assumes "app_name app" and "plain_token tok"
  shows "netloc_of (deployed_conn app tok) = CHR '':'' # tok @ CHR ''@'' # app @ '':8000''"
proof -
  let ?loc = "CHR '':'' # tok @ CHR ''@'' # app @ '':8000''"
  have "list_all (\<lambda>c. c \<notin> set ''/?#'') ?loc"
    using app_name_chars(3) [OF assms(1)] plain_token_chars(3) [OF assms(2)] by simp
  then have "takeWhile (\<lambda>c. c \<notin> set ''/?#'') ?loc = ?loc"
    by (rule takeWhile_all)
  moreover have "partition1 (CHR '':'') (deployed_conn app tok) = Some (''http'', ''//'' @ ?loc)"
    using partition1_append [of "CHR '':''" "''http''" "''//'' @ ?loc"] by (simp add: deployed_conn_def)
  moreover have "is_scheme ''http''"
    by code_simp
  ultimately show ?thesis
    by (simp add: netloc_of_def authority_def)
qed

text \<open>What the deploy writes is what a DAG reads: for an app name of lower-case letters, digits and dashes and a
  token of letters and digits, the URL gives the app's own address on port 8000 and exactly the token.\<close>

theorem connection_roundtrip:
  assumes "app_name app" and "plain_token tok" and "environ e (conn_var app) = Some (deployed_conn app tok)"
  shows "app_endpoint app e w = (Inr (''http://'' @ app @ '':8000'', tok), w)"
proof -
  let ?loc = "CHR '':'' # tok @ CHR ''@'' # app @ '':8000''"
  have at: "rpartition1 (CHR ''@'') ?loc = Some (CHR '':'' # tok, app @ '':8000'')"
    using app_name_chars(1) [OF assms(1)] by (simp add: rpartition1_Some)
  have host: "partition1 (CHR '':'') (app @ '':8000'') = Some (app, ''8000'')"
    using partition1_append [OF app_name_chars(2) [OF assms(1)], of "''8000''"] by simp
  have "password_of ?loc = Some tok" "hostname_of ?loc = app"
    using at host app_name_chars(4) [OF assms(1)]
    by (simp_all add: password_of_def user_info_def hostname_of_def host_info_def partition1_def lower_id)
  moreover have "port_of ?loc = Inr (Some 8000)"
    using at host by (simp add: port_of_def host_info_def is_digit_def code_def nat_of_str_def digit_val_def)
  moreover have "app \<noteq> []" "tok \<noteq> []" "deployed_conn app tok \<noteq> []"
    using assms by (simp_all add: app_name_def plain_token_def deployed_conn_def)
  moreover have "str_of_nat 8000 = ''8000''"
  proof -
    have "digit_char 8 = CHR ''8''" "digit_char 0 = CHR ''0''"
      by code_simp+
    then show ?thesis
      by (simp add: str_of_nat.simps)
  qed
  ultimately show ?thesis
    using assms unquote_plain [OF plain_token_chars(4) [OF assms(2)]]
    by (simp add: app_endpoint_def bind_def ask_def ret_def netloc_deployed port_or_default_def Let_def)
qed

text \<open>For the witness: the connection of \<open>mkt-data\<close>.\<close>

definition sample_conn_env :: job_env where
  "sample_conn_env = \<lparr>environ = (\<lambda>v. if v = ''AIRFLOW_CONN_MKT_DATA'' then Some ''http://:9f3c@mkt-data:8000'' else None),
     open_url = (\<lambda>n q. NotReached ''timed out''), job_loads = (\<lambda>s. None)\<rparr>"

theorem connection_roundtrip_witness:
  "app_endpoint ''mkt-data'' sample_conn_env \<lparr>job_requests = [], printed = []\<rparr> =
     (Inr (''http://'' @ ''mkt-data'' @ '':8000'', ''9f3c''), \<lparr>job_requests = [], printed = []\<rparr>)"
proof (rule connection_roundtrip)
  show "app_name ''mkt-data''" "plain_token ''9f3c''"
    by code_simp+
  show "environ sample_conn_env (conn_var ''mkt-data'') = Some (deployed_conn ''mkt-data'' ''9f3c'')"
    by code_simp
qed

section \<open>Where the token goes\<close>

text \<open>A call sends at most one request, to the host of the connection, with the token in its header alone; if it
  returns, the app answered with success, and it prints nothing but the answer.\<close>

theorem call_app_job_effects:
  assumes "call_app_job app job params method e w = (r, w')"
  shows "\<exists>qs. job_requests w' = job_requests w @ qs \<and> length qs \<le> 1 \<and>
    (\<forall>q\<in>set qs. \<exists>base tok. app_endpoint app e w = (Inr (base, tok), w) \<and> q = job_request_for base tok job params method \<and>
       prefix (base @ ''/jobs/'') (job_url q)) \<and>
    (\<not> isl r \<longrightarrow> length qs = 1 \<and> (\<exists>body. open_url e (length (job_requests w)) (hd qs) = Opened body))"
proof -
  have pure: "snd (app_endpoint app e w) = w"
    by (auto simp: app_endpoint_def bind_def ask_def job_raise_def raise_def ret_def Let_def split: option.split sum.split)
  show ?thesis
  proof (cases "fst (app_endpoint app e w)")
    case (Inl x)
    then show ?thesis
      using assms pure by (cases "app_endpoint app e w") (auto simp: call_app_job_def bind_def)
  next
    case (Inr bt)
    obtain base tok where bt: "bt = (base, tok)" by fastforce
    have at: "app_endpoint app e w = (Inr (base, tok), w)"
      using pure Inr bt by (metis prod.collapse)
    let ?q = "job_request_for base tok job params method"
    have "job_requests w' = job_requests w @ [?q]" "\<not> isl r \<longrightarrow> (\<exists>body. open_url e (length (job_requests w)) ?q = Opened body)"
      using assms at by (auto simp: call_app_job_def bind_def open_request_def job_failed_def job_raise_def raise_def ret_def ask_def
          andthen_def print_line_def modify_def split: url_answer.splits option.splits)
    moreover have "prefix (base @ ''/jobs/'') (job_url ?q)"
      by (simp add: job_request_for_def Let_def)
    ultimately show ?thesis
      using at by (intro exI [of _ "[?q]"]) simp
  qed
qed

end
