(* ===== verification/Decimals.thy ===== *)
theory Decimals
  imports PyConv Calendar
begin

text \<open>
  \<open>decimal.Decimal\<close> in its default context (28 digits, half to even), as far as the market data tools
  use it: a sign, a coefficient and an exponent of ten. Infinities and NaN, which the constructor
  also reads, count as errors here, as do JSON numbers with a fraction; the limits of the exponent are
  left out.
\<close>

datatype decimal = Dec (dec_neg: bool) (dec_coeff: nat) (dec_expo: int)

definition dec_value :: "decimal \<Rightarrow> rat" where
  "dec_value d = scale10 (of_int ((if dec_neg d then -1 else 1) * int (dec_coeff d))) (dec_expo d)"

section \<open>Reading and writing\<close>

text \<open>\<open>Decimal(s)\<close>, which does not round.\<close>

definition dec_digits :: "string \<Rightarrow> (nat \<times> int) option" where
  "dec_digits m =
     (case (case partition1 (CHR ''.'') m of None \<Rightarrow> (m, []) | Some p \<Rightarrow> p) of
        (i, f) \<Rightarrow> (if i @ f \<noteq> [] \<and> all_digits (i @ f) then Some (nat_of_str (i @ f), - int (length f)) else None))"

definition decimal_of :: "string \<Rightarrow> decimal option" where
  "decimal_of s =
     (let (neg, u) = split_sign (filter (\<lambda>c. c \<noteq> CHR ''_'') (strip s));
          m = takeWhile (\<lambda>c. \<not> is_exp_mark c) u; x = dropWhile (\<lambda>c. \<not> is_exp_mark c) u
      in case (dec_digits m, exponent_of x) of
           (Some (c, e), Some k) \<Rightarrow> Some (Dec neg c (e + k))
         | _ \<Rightarrow> None)"

definition to_decimal :: "json \<Rightarrow> py_exn + decimal" where
  "to_decimal j = (case j of
      JInt i \<Rightarrow> Inr (Dec (i < 0) (nat \<bar>i\<bar>) 0)
    | JBool b \<Rightarrow> Inr (Dec False (if b then 1 else 0) 0)
    | JStr s \<Rightarrow> (case decimal_of s of Some d \<Rightarrow> Inr d | None \<Rightarrow> Inl (PyError ''InvalidOperation''))
    | JObj _ \<Rightarrow> Inl (PyError ''TypeError'')
    | JNull \<Rightarrow> Inl (PyError ''TypeError'')
    | _ \<Rightarrow> Inl (PyError ''ValueError''))"

text \<open>\<open>format(d, "f")\<close>.\<close>

definition dec_text :: "decimal \<Rightarrow> string" where
  "dec_text d =
     (case d of Dec neg c e \<Rightarrow>
        (if neg then ''-'' else []) @
        (if 0 \<le> e then str_of_nat (c * 10 ^ nat e)
         else let s = zfill (Suc (nat (- e))) c; k = length s - nat (- e) in take k s @ ''.'' @ drop k s))"

section \<open>Arithmetic\<close>

definition dec_prec :: nat where
  "dec_prec = 28"

definition num_digits :: "nat \<Rightarrow> nat" where
  "num_digits n = length (str_of_nat n)"

definition round_div :: "nat \<Rightarrow> nat \<Rightarrow> nat" where
  "round_div n m = nat (round_half_even (of_nat n / of_nat m))"

text \<open>Rounding to the precision of the context.\<close>

definition dec_fix :: "decimal \<Rightarrow> decimal" where
  "dec_fix d = (case d of Dec neg c e \<Rightarrow>
     (let k = num_digits c - dec_prec in
      if k = 0 then d
      else let q = round_div c (10 ^ k) in
        if q = 10 ^ dec_prec then Dec neg (10 ^ (dec_prec - 1)) (e + int k + 1) else Dec neg q (e + int k)))"

definition coeff_at :: "int \<Rightarrow> decimal \<Rightarrow> int" where
  "coeff_at e d = (if dec_neg d then -1 else 1) * int (dec_coeff d) * 10 ^ nat (dec_expo d - e)"

definition dec_minus :: "decimal \<Rightarrow> decimal" where
  "dec_minus d = (case d of Dec neg c e \<Rightarrow> Dec (\<not> neg) c e)"

definition dec_add :: "decimal \<Rightarrow> decimal \<Rightarrow> decimal" where
  "dec_add a b =
     (let e = min (dec_expo a) (dec_expo b); n = coeff_at e a + coeff_at e b
      in dec_fix (Dec (if n = 0 then dec_neg a \<and> dec_neg b else n < 0) (nat \<bar>n\<bar>) e))"

definition dec_sub :: "decimal \<Rightarrow> decimal \<Rightarrow> decimal" where
  "dec_sub a b = dec_add a (dec_minus b)"

definition dec_mul :: "decimal \<Rightarrow> decimal \<Rightarrow> decimal" where
  "dec_mul a b = dec_fix (Dec (dec_neg a \<noteq> dec_neg b) (dec_coeff a * dec_coeff b) (dec_expo a + dec_expo b))"

definition dec_abs :: "decimal \<Rightarrow> decimal" where
  "dec_abs d = (case d of Dec _ c e \<Rightarrow> dec_fix (Dec False c e))"

text \<open>At most so many zeros at the end of a coefficient are dropped; the second part counts them.\<close>

fun drop_zeros :: "nat \<Rightarrow> nat \<Rightarrow> nat \<times> nat" where
  "drop_zeros 0 c = (c, 0)"
| "drop_zeros (Suc k) c =
     (if c mod 10 = 0 then (case drop_zeros k (c div 10) of (c', n) \<Rightarrow> (c', Suc n)) else (c, 0))"

definition dec_normalize :: "decimal \<Rightarrow> decimal" where
  "dec_normalize d = (case dec_fix d of Dec neg c e \<Rightarrow>
     (if c = 0 then Dec neg 0 0 else case drop_zeros (num_digits c) c of (c', n) \<Rightarrow> Dec neg c' (e + int n)))"

definition dec_div :: "decimal \<Rightarrow> decimal \<Rightarrow> py_exn + decimal" where
  "dec_div a b =
     (let neg = (dec_neg a \<noteq> dec_neg b); ideal = dec_expo a - dec_expo b in
      if dec_coeff b = 0 then Inl (PyError (if dec_coeff a = 0 then ''InvalidOperation'' else ''DivisionByZero''))
      else if dec_coeff a = 0 then Inr (Dec neg 0 ideal)
      else let shift = int (num_digits (dec_coeff b)) - int (num_digits (dec_coeff a)) + int dec_prec + 1;
               n = dec_coeff a * 10 ^ nat shift; m = dec_coeff b * 10 ^ nat (- shift); q = n div m
           in if n mod m \<noteq> 0 then Inr (dec_fix (Dec neg (if q mod 5 = 0 then q + 1 else q) (ideal - shift)))
              else case drop_zeros (nat shift) q of (c, z) \<Rightarrow> Inr (dec_fix (Dec neg c (ideal - shift + int z))))"

text \<open>\<open>d.quantize(Decimal("0.1"))\<close>.\<close>

definition dec_tenths :: "decimal \<Rightarrow> py_exn + decimal" where
  "dec_tenths d = (case d of Dec neg c e \<Rightarrow>
     (let q = (if -1 \<le> e then c * 10 ^ nat (e + 1) else round_div c (10 ^ nat (-1 - e)))
      in if dec_prec < num_digits q then Inl (PyError ''InvalidOperation'') else Inr (Dec neg q (-1))))"

definition dec_int :: "decimal \<Rightarrow> int" where
  "dec_int d = trunc (dec_value d)"

definition dec_100 :: decimal where
  "dec_100 = Dec False 100 0"

section \<open>Exactness\<close>

lemma scale10_powi: "scale10 r k = r * 10 powi k"
  by (auto simp: scale10_def power_int_def divide_simps)

lemma dec_value_Dec: "dec_value (Dec neg c e) = (if neg then -1 else 1) * of_nat c * 10 powi e"
  by (simp add: dec_value_def scale10_powi)

lemma dec_value_minus [simp]: "dec_value (dec_minus d) = - dec_value d"
  by (cases d) (simp add: dec_minus_def dec_value_Dec)

lemma num_digits_le: "n < 10 ^ w \<Longrightarrow> 0 < w \<Longrightarrow> num_digits n \<le> w"
  by (simp add: num_digits_def length_str_of_nat)

lemma dec_fix_exact [simp]: "c < 10 ^ dec_prec \<Longrightarrow> dec_fix (Dec neg c e) = Dec neg c e"
  using num_digits_le [of c dec_prec] by (simp add: dec_fix_def dec_prec_def)

lemma coeff_at_value: "e \<le> dec_expo d \<Longrightarrow> of_int (coeff_at e d) * 10 powi e = dec_value d"
proof -
  assume "e \<le> dec_expo d"
  then have "(10::rat) ^ nat (dec_expo d - e) * 10 powi e = 10 powi (dec_expo d)"
    using power_int_add [of "10::rat" "dec_expo d - e" e] by (simp add: power_int_def [of _ "dec_expo d - e"])
  then show ?thesis
    by (cases d) (simp add: coeff_at_def dec_value_Dec mult.assoc)
qed

text \<open>The difference of the coefficients at the smaller exponent decides whether adding is exact.\<close>

definition aligned_sum :: "decimal \<Rightarrow> decimal \<Rightarrow> int" where
  "aligned_sum a b = coeff_at (min (dec_expo a) (dec_expo b)) a + coeff_at (min (dec_expo a) (dec_expo b)) b"

lemma aligned_sum_value:
  "of_int (aligned_sum a b) * 10 powi (min (dec_expo a) (dec_expo b)) = dec_value a + dec_value b"
  using coeff_at_value [of "min (dec_expo a) (dec_expo b)" a] coeff_at_value [of "min (dec_expo a) (dec_expo b)" b]
  by (simp add: aligned_sum_def distrib_right)

lemma dec_add_exact:
  assumes "nat \<bar>aligned_sum a b\<bar> < 10 ^ dec_prec"
  shows "dec_value (dec_add a b) = dec_value a + dec_value b"
    and "dec_coeff (dec_add a b) = nat \<bar>aligned_sum a b\<bar>"
proof -
  let ?n = "aligned_sum a b" and ?e = "min (dec_expo a) (dec_expo b)"
  have r: "dec_add a b = Dec (if ?n = 0 then dec_neg a \<and> dec_neg b else ?n < 0) (nat \<bar>?n\<bar>) ?e"
    using assms by (simp add: dec_add_def Let_def aligned_sum_def)
  have "dec_value (dec_add a b) = of_int ?n * 10 powi ?e"
    by (simp add: r dec_value_Dec)
  then show "dec_value (dec_add a b) = dec_value a + dec_value b"
    by (simp add: aligned_sum_value)
  show "dec_coeff (dec_add a b) = nat \<bar>?n\<bar>"
    by (simp add: r)
qed

lemma dec_mul_exact:
  assumes "dec_coeff a * dec_coeff b < 10 ^ dec_prec"
  shows "dec_value (dec_mul a b) = dec_value a * dec_value b"
    and "dec_coeff (dec_mul a b) = dec_coeff a * dec_coeff b"
  using assms by (cases a; cases b; simp add: dec_mul_def dec_value_Dec power_int_add)+

lemma drop_zeros_times: "drop_zeros k c = (c', n) \<Longrightarrow> c = c' * 10 ^ n"
proof (induction k c arbitrary: c' n rule: drop_zeros.induct)
  case (2 k c)
  then show ?case
    by (auto split: if_splits prod.splits)
qed auto

lemma dec_normalize_value:
  assumes "dec_coeff d < 10 ^ dec_prec"
  shows "dec_value (dec_normalize d) = dec_value d"
    and "dec_neg (dec_normalize d) = dec_neg d"
proof -
  obtain neg c e where d: "d = Dec neg c e" by (cases d)
  obtain c' n where z: "drop_zeros (num_digits c) c = (c', n)" by force
  have "of_nat c * 10 powi e = (of_nat c' * 10 powi (e + int n) :: rat)"
    using drop_zeros_times [OF z] by (simp add: power_int_add)
  then show "dec_value (dec_normalize d) = dec_value d" "dec_neg (dec_normalize d) = dec_neg d"
    using assms z by (auto simp: d dec_normalize_def dec_value_Dec)
qed

lemma dec_normalize_coeff: "dec_coeff d < 10 ^ dec_prec \<Longrightarrow> dec_coeff (dec_normalize d) \<le> dec_coeff d"
  by (cases d) (auto simp: dec_normalize_def dest!: drop_zeros_times split: prod.split)

lemma dec_abs_value: "dec_coeff d < 10 ^ dec_prec \<Longrightarrow> dec_value (dec_abs d) = \<bar>dec_value d\<bar>"
  by (cases d) (auto simp: dec_abs_def dec_value_Dec abs_mult)

section \<open>What is written can be read\<close>

definition plain_number :: "string \<Rightarrow> bool" where
  "plain_number u \<longleftrightarrow> list_all (\<lambda>c. is_digit c \<or> c = CHR ''.'') u \<and> (\<exists>c t. u = c # t \<and> is_digit c)"

lemma decimal_of_plain:
  assumes "plain_number u" and "dec_digits u = Some (c, e)"
  shows "decimal_of ((if neg then ''-'' else []) @ u) = Some (Dec neg c e)"
proof -
  let ?s = "(if neg then ''-'' else []) @ u"
  have chars: "list_all (\<lambda>c. \<not> is_space c \<and> c \<noteq> CHR ''_'' \<and> \<not> is_exp_mark c) ?s"
    using assms(1) by (auto simp: plain_number_def list_all_iff is_space_def is_exp_mark_def is_digit_def)
  then have s: "strip ?s = ?s"
    by (intro strip_no_space) (auto simp: list_all_iff)
  have f: "filter (\<lambda>c. c \<noteq> CHR ''_'') ?s = ?s"
    using chars by (simp add: filter_id_conv list_all_iff)
  obtain a t where u: "u = a # t" "is_digit a"
    using assms(1) by (auto simp: plain_number_def)
  have g: "split_sign ?s = (neg, u)"
    using u by (auto simp: split_sign_def is_digit_def)
  have m: "takeWhile (\<lambda>c. \<not> is_exp_mark c) u = u" "dropWhile (\<lambda>c. \<not> is_exp_mark c) u = []"
    using chars by (auto simp: list_all_iff)
  show ?thesis
    unfolding decimal_of_def s f g Let_def prod.case m using assms(2) by (simp add: exponent_of_def)
qed

lemma all_digits_str_of_nat [simp]: "all_digits (str_of_nat n)"
  by (auto simp: all_digits_def list_all_iff dest: str_of_nat_digits)

lemma no_point_digits: "all_digits s \<Longrightarrow> CHR ''.'' \<notin> set s"
  by (auto simp: all_digits_def list_all_iff is_digit_def)

lemma plain_number_digits: "all_digits s \<Longrightarrow> s \<noteq> [] \<Longrightarrow> plain_number s"
  by (cases s) (auto simp: plain_number_def all_digits_def list_all_iff)

lemma dec_digits_whole: "all_digits s \<Longrightarrow> s \<noteq> [] \<Longrightarrow> dec_digits s = Some (nat_of_str s, 0)"
  using no_point_digits [of s] by (simp add: dec_digits_def partition1_None [THEN iffD2])

lemma dec_digits_point:
  "all_digits (i @ f) \<Longrightarrow> i @ f \<noteq> [] \<Longrightarrow> dec_digits (i @ ''.'' @ f) = Some (nat_of_str (i @ f), - int (length f))"
  using no_point_digits [of "i @ f"] by (simp add: dec_digits_def partition1_append)

lemma zfill_long: "w \<le> length (zfill w n)"
  by (simp add: zfill_def)

lemma all_digits_zfill: "all_digits (zfill w n)"
  by (auto simp: all_digits_def list_all_iff dest: zfill_digits)

text \<open>A number in plain notation is read back exactly, for every decimal.\<close>

lemma decimal_of_dec_text:
  "decimal_of (dec_text (Dec neg c e)) = Some (if 0 \<le> e then Dec neg (c * 10 ^ nat e) 0 else Dec neg c e)"
proof (cases "0 \<le> e")
  case True
  then show ?thesis
    using decimal_of_plain [OF plain_number_digits dec_digits_whole, of "str_of_nat (c * 10 ^ nat e)" neg]
    by (simp add: dec_text_def)
next
  case False
  define n where "n = nat (- e)"
  define s where "s = zfill (Suc n) c"
  define k where "k = length s - n"
  have len: "Suc n \<le> length s" by (simp add: s_def zfill_long)
  have dig: "all_digits s" by (simp add: s_def all_digits_zfill)
  have k: "0 < k" "k \<le> length s" "length (drop k s) = n" using len by (auto simp: k_def)
  have nonempty: "s \<noteq> []" using len by auto
  then have "plain_number (take k s @ ''.'' @ drop k s)"
    using dig k len
    by (cases s; cases k) (auto simp: plain_number_def all_digits_def list_all_iff dest!: in_set_takeD in_set_dropD)
  moreover have "dec_digits (take k s @ ''.'' @ drop k s) = Some (c, e)"
    using dec_digits_point [of "take k s" "drop k s"] dig len k(3) False nonempty by (simp add: s_def n_def)
  ultimately show ?thesis
    using decimal_of_plain [of _ c e neg] False by (simp add: dec_text_def Let_def s_def k_def n_def)
qed

lemma dec_text_value: "\<exists>d'. decimal_of (dec_text d) = Some d' \<and> dec_value d' = dec_value d \<and> dec_neg d' = dec_neg d"
proof (cases d)
  case (Dec neg c e)
  have "0 \<le> e \<Longrightarrow> (10::rat) ^ nat e = 10 powi e" by (simp add: power_int_def)
  then show ?thesis
    by (auto simp: Dec decimal_of_dec_text dec_value_Dec)
qed

end
