(* ===== verification/MktData.thy ===== *)
theory MktData
  imports Decimals
begin

text \<open>
  \<open>compose/aws/home-mcp/mkt_data.py\<close>, the first part: the captures and checks of the market data service and
  the business days of the calendar service, each read with its own token. The URLs and tokens
  are environment variables, and the date in New York is read from the clock: they are the
  configuration that every operation is given.
\<close>

record mkt_conf =
  mkt_data_url :: string
  mkt_token :: string
  calendar_url :: string
  calendar_token :: string
  mkt_api_url :: string
  today_ny :: date

definition default_conf :: "date \<Rightarrow> mkt_conf" where
  "default_conf today =
     \<lparr>mkt_data_url = ''http://mkt-data:8000'', mkt_token = [], calendar_url = ''http://calendar-svc:8000'',
      calendar_token = [], mkt_api_url = ''http://mkt-api:8000'', today_ny = today\<rparr>"

definition max_text_lines :: int where
  "max_text_lines = 120"

definition max_text_chars :: nat where
  "max_text_chars = 300"

section \<open>Requests\<close>

text \<open>A status of 200 comes with the body of the answer, any other one with a sentence.\<close>

datatype reply = Refused (refused_status: nat) (refused_text: string) | Body (reply_body: json)

definition is_set :: "string \<Rightarrow> bool" where
  "is_set tok \<longleftrightarrow> tok \<noteq> [] \<and> tok \<noteq> ''none''"

definition ready :: "mkt_conf \<Rightarrow> string option" where
  "ready cf = (if is_set (mkt_token cf) then None
     else Some ''The market data read token isn't set up yet (MKT_DATA_READ_TOKEN).'')"

text \<open>The answer of a service: its status, and the body, which is an empty object when it is not JSON.\<close>

definition reply_of :: "string \<Rightarrow> (string \<Rightarrow> json option) \<Rightarrow> response \<Rightarrow> reply" where
  "reply_of app parse r =
     (let body = (case parse (resp_text r) of Some j \<Rightarrow> j | None \<Rightarrow> JObj []) in
      if resp_status r = 200 then Body body
      else let detail = (case body of JObj d \<Rightarrow> jget ''detail'' d | _ \<Rightarrow> JNull) in
        Refused (resp_status r)
          (app @ '' answered '' @ str_of_nat (resp_status r) @ '': '' @ py_str (or_j detail (JStr (take 200 (resp_text r))))))"

definition asked :: "string \<Rightarrow> request \<Rightarrow> ('z net_scheme, reply) web" where
  "asked app q =
     catch_http (bind (send q) (\<lambda>r. bind (ask loads) (\<lambda>parse. ret (reply_of app parse r))))
       (\<lambda>n. ret (Refused 0 (''I couldn't reach '' @ app @ '' ('' @ n @ '').'')))"

definition mkt_get :: "mkt_conf \<Rightarrow> string \<Rightarrow> json dict \<Rightarrow> ('z net_scheme, reply) web" where
  "mkt_get cf path params =
     asked ''mkt-data'' (Request ''GET'' (mkt_data_url cf @ ''/jobs/'' @ path) params (Some (mkt_token cf)) None)"

definition calendar_get :: "mkt_conf \<Rightarrow> string \<Rightarrow> json dict \<Rightarrow> ('z net_scheme, reply) web" where
  "calendar_get cf path params =
     asked ''calendar-svc'' (Request ''GET'' (calendar_url cf @ ''/jobs/'' @ path) params (Some (calendar_token cf)) None)"

section \<open>Captures\<close>

definition kb :: "json \<Rightarrow> py_exn + string" where
  "kb n = bindR (py_number n) (\<lambda>r. Inr (if 1024 \<le> r then fixed0 (r / 1024) @ '' KB'' else py_str n @ '' bytes''))"

definition between_limits :: "int \<Rightarrow> int \<Rightarrow> int \<Rightarrow> int" where
  "between_limits lo hi n = max lo (min n hi)"

text \<open>\<open>j[k][:16].replace("T", " ")\<close>.\<close>

definition minute_of :: "string \<Rightarrow> json \<Rightarrow> py_exn + string" where
  "minute_of k j = bindR (item_of k j) (\<lambda>v. bindR (text_of v) (\<lambda>s. Inr (replace ''T'' '' '' (take 16 s))))"

definition capture_state :: "json \<Rightarrow> py_exn + string" where
  "capture_state c =
     bindR (get_of (JBool True) ''parsed'' c) (\<lambda>p.
     if p = JBool False then Inr ''kept raw (no parser for this source yet)''
     else bindR (item_of ''applied'' c) (\<lambda>a.
       Inr (if truthy a then ''applied'' else ''NOT applied (parse failed, or since replaced)'')))"

definition item_text :: "string \<Rightarrow> json \<Rightarrow> py_exn + string" where
  "item_text k j = bindR (item_of k j) (\<lambda>v. Inr (py_str v))"

definition capture_line :: "json \<Rightarrow> py_exn + string" where
  "capture_line c =
     bindR (capture_state c) (\<lambda>state.
     bindR (item_text ''id'' c) (\<lambda>n.
     bindR (item_text ''source'' c) (\<lambda>source.
     bindR (minute_of ''fetched_at'' c) (\<lambda>time.
     bindR (bindR (item_of ''size_bytes'' c) kb) (\<lambda>size.
     Inr (''- #'' @ n @ '' '' @ source @ '', fetched '' @ time @ '' UTC, '' @ size @ '', '' @ state))))))"

definition captures_text :: "string \<Rightarrow> json \<Rightarrow> py_exn + string" where
  "captures_text calendar body =
     bindR (item_of ''captures'' body) (\<lambda>caps.
     if \<not> truthy caps then Inr (''No captures'' @ (if calendar \<noteq> [] then '' for '' @ calendar else []) @ '' yet.'')
     else bindR (iter_of caps) (\<lambda>cs.
       bindR (mapR capture_line cs) (\<lambda>ls.
       Inr (join [newline] ((str_of_nat (length cs) @ '' capture'' @ plural (length cs) @ '', newest first:'') # ls)))))"

text \<open>What a tool says: the sentence of a refusal, or a text made of the body.\<close>

definition said :: "(json \<Rightarrow> py_exn + string) \<Rightarrow> reply \<Rightarrow> ('w, string) web" where
  "said f r = (case r of Refused _ msg \<Rightarrow> ret msg | Body b \<Rightarrow> liftR (f b))"

definition mkt_data_captures :: "mkt_conf \<Rightarrow> string \<Rightarrow> int \<Rightarrow> ('z net_scheme, string) web" where
  "mkt_data_captures cf calendar limit =
     (case ready cf of
        Some msg \<Rightarrow> ret msg
      | None \<Rightarrow>
          bind (mkt_get cf ''captures'' ((''limit'', JInt (between_limits 1 50 limit)) #
              (if strip calendar \<noteq> [] then [(''calendar'', JStr (strip calendar))] else [])))
            (said (captures_text calendar)))"

section \<open>The text of a capture\<close>

definition text_line :: "json \<Rightarrow> py_exn + string" where
  "text_line row =
     bindR (item_text ''n'' row) (\<lambda>n.
     bindR (bindR (item_of ''text'' row) text_of) (\<lambda>s. Inr (n @ '': '' @ take max_text_chars s)))"

definition capture_head :: "string \<Rightarrow> json \<Rightarrow> py_exn + string" where
  "capture_head contains body =
     bindR (get_of JNull ''view'' body) (\<lambda>v.
     bindR (item_text ''capture_id'' body) (\<lambda>n.
     bindR (item_text ''source'' body) (\<lambda>source.
     let start = ''Capture #'' @ n @ '' ('' @ source @ (if v = JStr ''embedded'' then '' embedded data'' else []) @ ''): '' in
     if strip contains \<noteq> [] then
       bindR (item_text ''matches'' body) (\<lambda>m. bindR (item_text ''lines_total'' body) (\<lambda>t.
         Inr (start @ m @ '' of '' @ t @ '' lines contain '' @ repr_str (strip contains) @ ''.'')))
     else bindR (item_text ''lines_total'' body) (\<lambda>t. Inr (start @ t @ '' lines.'')))))"

definition capture_text_of :: "string \<Rightarrow> json \<Rightarrow> py_exn + string" where
  "capture_text_of contains body =
     bindR (item_of ''lines'' body) (\<lambda>shown.
     bindR (capture_head contains body) (\<lambda>head.
     bindR (iter_of shown) (\<lambda>lns.
     bindR (mapR text_line lns) (\<lambda>ls.
     bindR (item_of ''truncated'' body) (\<lambda>more.
     Inr (join [newline] (head # ls @ (if truthy more
       then [''(First '' @ str_of_nat (length lns) @ '' shown; narrow with contains, or raise lines up to '' @
             str_of_int max_text_lines @ ''.)'']
       else []))))))))"

definition mkt_data_capture_text ::
    "mkt_conf \<Rightarrow> int \<Rightarrow> string \<Rightarrow> int \<Rightarrow> int \<Rightarrow> bool \<Rightarrow> ('z net_scheme, string) web" where
  "mkt_data_capture_text cf capture_id contains around lines embedded =
     (case ready cf of
        Some msg \<Rightarrow> ret msg
      | None \<Rightarrow>
          bind (mkt_get cf (''captures/'' @ str_of_int capture_id @ ''/text'')
              ([(''limit'', JInt (between_limits 1 max_text_lines lines)), (''context'', JInt (between_limits 0 10 around))] @
               (if strip contains \<noteq> [] then [(''contains'', JStr (strip contains))] else []) @
               (if embedded then [(''embedded'', JStr ''true'')] else [])))
            (said (capture_text_of contains)))"

section \<open>Business days\<close>

text \<open>\<open>s.split(sep, 1)[-1]\<close>.\<close>

fun after_first :: "string \<Rightarrow> string \<Rightarrow> string option" where
  "after_first sep [] = None"
| "after_first sep (c # s) = (if prefix sep (c # s) then Some (drop (length sep) (c # s)) else after_first sep s)"

definition split1_last :: "string \<Rightarrow> string \<Rightarrow> string" where
  "split1_last sep s = (case after_first sep s of Some t \<Rightarrow> t | None \<Rightarrow> s)"

definition projected_note :: string where
  "projected_note = '' Projected from the rules: no publisher covers that year yet.''"

definition day_state :: "json \<Rightarrow> json \<Rightarrow> py_exn + string" where
  "day_state status body =
     (if status = JStr ''open'' then Inr ''open, a normal business day.''
      else if status = JStr ''early_close'' then
        bindR (get_text JNull ''close_time'' body) (\<lambda>t. bindR (get_text JNull ''holiday'' body) (\<lambda>h.
          Inr (''open but closing early at '' @ t @ '' ('' @ h @ '').'')))
      else bindR (get_text JNull ''holiday'' body) (\<lambda>h. Inr (''closed ('' @ h @ '').'')))"

definition business_day_text :: "json \<Rightarrow> py_exn + string" where
  "business_day_text body =
     bindR (item_text ''calendar'' body) (\<lambda>calendar.
     bindR (item_text ''date'' body) (\<lambda>day.
     let start = calendar @ '' on '' @ day @ '': '' in
     bindR (item_of ''status'' body) (\<lambda>status.
     if status = JStr ''weekend'' then Inr (start @ ''a weekend.'')
     else bindR (day_state status body) (\<lambda>t.
       bindR (get_of JNull ''projected'' body) (\<lambda>p.
       Inr (start @ t @ (if truthy p then projected_note else [])))))))"

definition mkt_data_business_day :: "mkt_conf \<Rightarrow> string \<Rightarrow> string \<Rightarrow> ('z net_scheme, string) web" where
  "mkt_data_business_day cf calendar on =
     (if \<not> is_set (calendar_token cf)
      then ret ''The calendar service's read token isn't set up yet (CALENDAR_SVC_READ_TOKEN).''
      else bind (calendar_get cf (''calendars/'' @ strip calendar @ ''/business-day'') [(''on'', JStr (strip on))])
        (\<lambda>r. case r of
           Refused n msg \<Rightarrow> ret (if n = 409 then calendar @ '' doesn't cover that year: '' @ split1_last '': '' msg else msg)
         | Body b \<Rightarrow> liftR (business_day_text b)))"

section \<open>Checks\<close>

definition parse_phrase :: "json \<Rightarrow> py_exn + string" where
  "parse_phrase j = (case j of
      JStr s \<Rightarrow> Inr (get_or [] s [(''ok'', '', parsed OK''), (''error'', '', PARSE FAILED'')])
    | JList _ \<Rightarrow> Inl (PyError ''TypeError'') | JObj _ \<Rightarrow> Inl (PyError ''TypeError'')
    | _ \<Rightarrow> Inr [])"

definition check_line :: "json \<Rightarrow> py_exn + string" where
  "check_line c =
     bindR (bindR (get_of JNull ''parse_outcome'' c) parse_phrase) (\<lambda>parse.
     bindR (get_of JNull ''capture_id'' c) (\<lambda>n.
     bindR (get_of JNull ''parse_outcome'' c) (\<lambda>outcome.
     bindR (get_of JNull (if outcome = JStr ''error'' then ''parse_detail'' else ''detail'') c) (\<lambda>note.
     bindR (minute_of ''checked_at'' c) (\<lambda>time.
     bindR (item_text ''source'' c) (\<lambda>source.
     bindR (item_text ''outcome'' c) (\<lambda>out.
     bindR (if truthy note then bindR (text_of note) (\<lambda>s. Inr ('' ('' @ take 200 s @ '')'')) else Inr []) (\<lambda>more.
     Inr (''- '' @ time @ '' UTC '' @ source @ '': '' @ out @
       (if truthy n then '' capture #'' @ py_str n else []) @ parse @ more)))))))))"

definition checks_text :: "json \<Rightarrow> py_exn + string" where
  "checks_text body =
     bindR (item_of ''checks'' body) (\<lambda>checks.
     if \<not> truthy checks then Inr ''No checks yet.''
     else bindR (iter_of checks) (\<lambda>cs.
       bindR (mapR check_line cs) (\<lambda>ls.
       Inr (join [newline] ((str_of_nat (length cs) @ '' check'' @ plural (length cs) @ '', newest first:'') # ls)))))"

definition check_params :: "string \<Rightarrow> string \<Rightarrow> int \<Rightarrow> json dict" where
  "check_params calendar source limit =
     (''limit'', JInt (between_limits 1 50 limit)) #
     (if strip source \<noteq> [] then [(''source'', JStr (strip source))]
      else if strip calendar \<noteq> [] then [(''calendar'', JStr (strip calendar))] else [])"

definition mkt_data_checks :: "mkt_conf \<Rightarrow> string \<Rightarrow> string \<Rightarrow> int \<Rightarrow> ('z net_scheme, string) web" where
  "mkt_data_checks cf calendar source limit =
     (case ready cf of
        Some msg \<Rightarrow> ret msg
      | None \<Rightarrow> bind (mkt_get cf ''checks'' (check_params calendar source limit)) (said checks_text))"

end
