(* ===== verification/IsoDates.thy ===== *)
theory IsoDates
  imports PastDays
begin

text \<open>
  \<open>date.fromisoformat\<close> as of Python 3.11, which reads a calendar date or a week date with or without
  dashes, for texts that a person gives. What the program's own services answer with is in the
  extended form, for which \<open>Calendar\<close> has a simpler reader; the two agree there.
\<close>

definition number_in :: "nat \<Rightarrow> string \<Rightarrow> (nat \<times> string) option" where
  "number_in n s = (if n \<le> length s \<and> list_all is_digit (take n s) then Some (nat_of_str (take n s), drop n s) else None)"

text \<open>The dash between two parts, when the first one was followed by a dash.\<close>

definition dash_in :: "bool \<Rightarrow> string \<Rightarrow> string option" where
  "dash_in dashed s =
     (if dashed then (case s of c # t \<Rightarrow> if c = CHR ''-'' then Some t else None | [] \<Rightarrow> None) else Some s)"

text \<open>The Monday of the first ISO week, which has 4 January in it.\<close>

definition week1_monday :: "nat \<Rightarrow> date" where
  "week1_monday y = sub_days (Date y 1 4) (weekday (Date y 1 4))"

definition week_53 :: "nat \<Rightarrow> bool" where
  "week_53 y \<longleftrightarrow> (let d = weekday (Date y 1 1) in d = 3 \<or> d = 2 \<and> leap y)"

definition week_date :: "nat \<Rightarrow> nat \<Rightarrow> nat \<Rightarrow> date option" where
  "week_date y w d =
     (if 1 \<le> y \<and> y \<le> 9999 \<and> 1 \<le> w \<and> (w \<le> 52 \<or> w = 53 \<and> week_53 y) \<and> 1 \<le> d \<and> d \<le> 7
      then let t = add_days (week1_monday y) (7 * (w - 1) + (d - 1)) in if valid_date t then Some t else None
      else None)"

text \<open>What follows the day of a week date is not looked at.\<close>

definition week_form :: "bool \<Rightarrow> nat \<Rightarrow> string \<Rightarrow> date option" where
  "week_form dashed y s =
     (case number_in 2 s of
        None \<Rightarrow> None
      | Some (w, []) \<Rightarrow> week_date y w 1
      | Some (w, rest) \<Rightarrow>
          (case dash_in dashed rest of
             None \<Rightarrow> None
           | Some u \<Rightarrow> (case number_in 1 u of Some (d, _) \<Rightarrow> week_date y w d | None \<Rightarrow> None)))"

definition day_form :: "bool \<Rightarrow> nat \<Rightarrow> string \<Rightarrow> date option" where
  "day_form dashed y s =
     (case number_in 2 s of
        None \<Rightarrow> None
      | Some (m, rest) \<Rightarrow>
          (case dash_in dashed rest of
             None \<Rightarrow> None
           | Some u \<Rightarrow> (case number_in 2 u of
                Some (d, []) \<Rightarrow> (if valid_date (Date y m d) then Some (Date y m d) else None)
              | _ \<Rightarrow> None)))"

definition read_date :: "string \<Rightarrow> date option" where
  "read_date s =
     (if length s \<in> {7, 8, 10} then
        (case number_in 4 s of
           None \<Rightarrow> None
         | Some (y, rest) \<Rightarrow>
             (let dashed = prefix ''-'' rest; t = (if dashed then drop 1 rest else rest) in
              if prefix ''W'' t then week_form dashed y (drop 1 t) else day_form dashed y t))
      else None)"

lemma read_date_samples:
  "read_date ''20261006'' = Some (Date 2026 10 6)" "read_date ''2026-13-06'' = None" "read_date ''2026-1006'' = None"
  by code_simp+

lemma number_in_digits: "list_all is_digit d \<Longrightarrow> length d = n \<Longrightarrow> number_in n (d @ s) = Some (nat_of_str d, s)"
  by (simp add: number_in_def)

text \<open>Every date reads back from its ISO text.\<close>

lemma read_date_isoformat: "valid_date d \<Longrightarrow> read_date (isoformat d) = Some d"
proof -
  assume v: "valid_date d"
  then have w: "length (zfill 4 (year_of d)) = 4" "length (zfill 2 (month_of d)) = 2" "length (zfill 2 (day_of d)) = 2"
    using days_in_month_bounds(2) [of "year_of d" "month_of d"] by (auto simp: valid_date_def intro!: length_zfill)
  have d: "list_all is_digit (zfill n k)" for n k
    by (auto simp: list_all_iff dest: zfill_digits)
  have m: "\<not> prefix ''W'' (zfill 2 (month_of d) @ s)" for s
    using d [of 2 "month_of d"] w(2) by (cases "zfill 2 (month_of d)") (auto simp: is_digit_def)
  show ?thesis
    unfolding isoformat_def read_date_def
    using number_in_digits [OF d w(1)] number_in_digits [OF d w(2)] number_in_digits [OF d w(3), of "[]"] m w v
    by (simp add: day_form_def dash_in_def Let_def)
qed

lemma read_date_valid: "read_date s = Some d \<Longrightarrow> valid_date d"
  by (auto simp: read_date_def day_form_def week_form_def week_date_def Let_def split: if_splits option.splits list.splits)

section \<open>The ISO texts of dates are ordered as the dates are\<close>

lemma nat_of_str_Cons: "nat_of_str (c # s) = digit_val c * 10 ^ length s + nat_of_str s"
proof (induction s rule: rev_induct)
  case Nil
  then show ?case using nat_of_str_snoc [of "[]" c] by (simp add: nat_of_str_def)
next
  case (snoc d s)
  then show ?case
    using nat_of_str_snoc [of "c # s" d] by simp
qed

lemma nat_of_str_bound: "list_all is_digit s \<Longrightarrow> nat_of_str s < 10 ^ length s"
proof (induction s)
  case (Cons c s)
  then have "digit_val c \<le> 9" by (auto simp: digit_val_def is_digit_def)
  then have "digit_val c * 10 ^ length s \<le> 9 * 10 ^ length s" by simp
  moreover have "nat_of_str s < 10 ^ length s" using Cons by simp
  ultimately have "digit_val c * 10 ^ length s + nat_of_str s < 10 * 10 ^ length s" by linarith
  then show ?case by (simp add: nat_of_str_Cons)
qed (simp add: nat_of_str_def)

lemma less_digit: "is_digit c \<Longrightarrow> is_digit d \<Longrightarrow> c < d \<longleftrightarrow> digit_val c < digit_val d"
  by (auto simp: digit_val_def is_digit_def code_def less_char_def)

lemma less_digits:
  "list_all is_digit s \<Longrightarrow> list_all is_digit t \<Longrightarrow> length s = length t \<Longrightarrow> s < t \<longleftrightarrow> nat_of_str s < nat_of_str t"
proof (induction s arbitrary: t)
  case (Cons c s)
  then obtain d u where t: "t = d # u" by (cases t) auto
  have b: "nat_of_str s < 10 ^ length s" "nat_of_str u < 10 ^ length s"
    using nat_of_str_bound [of s] nat_of_str_bound [of u] Cons.prems by (auto simp: t)
  have *: "a * 10 ^ length s + x < b * 10 ^ length s + y" if "a < b" "x < 10 ^ length s" for a b x y :: nat
  proof -
    have "(a + 1) * 10 ^ length s \<le> b * 10 ^ length s" using that(1) by (intro mult_right_mono) auto
    with that(2) show ?thesis by simp
  qed
  consider "digit_val c < digit_val d" | "digit_val d < digit_val c" | "c = d"
    using less_digit [of c d] less_digit [of d c] Cons.prems unfolding t by (auto simp: not_less_iff_gr_or_eq)
  then show ?case
  proof cases
    case 1
    then show ?thesis
      using * [OF 1 b(1), of "nat_of_str u"] less_digit [of c d] Cons.prems by (simp add: t nat_of_str_Cons)
  next
    case 2
    then show ?thesis
      using * [OF 2 b(2), of "nat_of_str s"] less_digit [of d c] Cons.prems by (auto simp: t nat_of_str_Cons)
  next
    case 3
    then show ?thesis
      using Cons.IH [of u] Cons.prems by (simp add: t nat_of_str_Cons)
  qed
qed simp

lemma less_append: "length a = length b \<Longrightarrow> a @ x < b @ y \<longleftrightarrow> a < b \<or> a = b \<and> x < (y :: string)"
  by (induction a b rule: list_induct2) auto

lemma isoformat_less:
  assumes "valid_date a" and "valid_date b"
  shows "isoformat a < isoformat b \<longleftrightarrow> a < b"
proof -
  have w: "length (zfill 4 (year_of d)) = 4" "length (zfill 2 (month_of d)) = 2" "length (zfill 2 (day_of d)) = 2"
    if "valid_date d" for d
    using that days_in_month_bounds(2) [of "year_of d" "month_of d"] by (auto simp: valid_date_def intro!: length_zfill)
  have d: "list_all is_digit (zfill n k)" for n k
    by (auto simp: list_all_iff dest: zfill_digits)
  have z: "zfill n j < zfill n k \<longleftrightarrow> j < k" "zfill n j = zfill n k \<longleftrightarrow> j = k"
    if "length (zfill n j) = n" "length (zfill n k) = n" for n j k
    using less_digits [OF d d, of n j n k] that by (simp, metis nat_of_str_zfill)
  show ?thesis
    unfolding isoformat_def less_append [OF trans [OF w(1) [OF assms(1)] w(1) [OF assms(2), symmetric]]]
      less_append [OF refl] less_append [OF trans [OF w(2) [OF assms(1)] w(2) [OF assms(2), symmetric]]]
      z [OF w(1) [OF assms(1)] w(1) [OF assms(2)]] z [OF w(2) [OF assms(1)] w(2) [OF assms(2)]]
      z [OF w(3) [OF assms(1)] w(3) [OF assms(2)]]
    by (cases a; cases b) (auto simp: less_date_def less_eq_date_def)
qed

lemma isoformat_inject: "valid_date a \<Longrightarrow> valid_date b \<Longrightarrow> isoformat a = isoformat b \<longleftrightarrow> a = b"
  by (metis fromisoformat_isoformat option.inject)

lemma isoformat_le: "valid_date a \<Longrightarrow> valid_date b \<Longrightarrow> isoformat a \<le> isoformat b \<longleftrightarrow> a \<le> b"
  by (simp add: le_less isoformat_less isoformat_inject)

end
