(* ===== verification/MktYields.thy ===== *)
theory MktYields
  imports MktData IsoDates Matchers
begin

text \<open>
  \<open>compose/aws/home-mcp/mkt_data.py\<close>, the yields: names of tenors, the last yield on or before a day with its
  change, and the Treasury curve with changes from earlier ones. The gateway \<open>mkt-api\<close> answers; its
  values are decimal texts, and labels, names and dates in its answers are texts where the code
  compares or looks them up.
\<close>

section \<open>Names of tenors\<close>

definition units :: "string list" where
  "units = [''Y'', ''YR'', ''YRS'', ''YEAR'', ''YEARS'', ''M'', ''MO'', ''MOS'', ''MONTH'', ''MONTHS'', ''W'', ''WK'', ''WEEK'', ''WEEKS'']"

definition m_number :: matcher where
  "m_number = m_cat [m_plus is_digit, m_opt (m_cat [m_lit ''.'', m_plus is_digit])]"

definition m_gap :: matcher where
  "m_gap = m_cat [m_star is_space, m_opt (m_lit ''-''), m_star is_space]"

definition m_unit :: matcher where
  "m_unit = m_any (map m_lit units)"

definition m_tail :: matcher where
  "m_tail = m_cat [m_opt (m_lit ''-CMT''), m_end]"

text \<open>The two groups of \<open>_TENOR\<close>.\<close>

definition tenor_match :: "string \<Rightarrow> (string \<times> string) option" where
  "tenor_match t = first_of
     [(n, u). p1 \<leftarrow> m_opt (m_lit ''UST-'') ([], t), (n, p2) \<leftarrow> grab m_number p1, p3 \<leftarrow> m_gap p2,
        (u, p4) \<leftarrow> grab m_unit p3, _ \<leftarrow> m_tail p4]"

definition tidy :: "string \<Rightarrow> string" where
  "tidy s = replace ''_'' ''-'' (upper (strip s))"

definition instrument_name :: "string \<Rightarrow> string" where
  "instrument_name tenor =
     (case tenor_match (tidy tenor) of
        None \<Rightarrow> tidy tenor
      | Some (n, u) \<Rightarrow> ''UST-'' @ n @ take 1 u @ ''-CMT'')"

definition short_tenor :: "string \<Rightarrow> string" where
  "short_tenor name = removesuffix ''-CMT'' (removeprefix ''UST-'' name)"

section \<open>Requests and values\<close>

definition api :: "mkt_conf \<Rightarrow> string \<Rightarrow> json dict \<Rightarrow> ('z net_scheme, reply) web" where
  "api cf path params = asked ''mkt-api'' (Request ''GET'' (mkt_api_url cf @ path) params None None)"

text \<open>\<open>_day\<close>: the left side is the sentence for a text that is no date.\<close>

definition day_for :: "mkt_conf \<Rightarrow> string \<Rightarrow> string + date" where
  "day_for cf on =
     (if strip on = [] then Inr (today_ny cf)
      else case read_date (strip on) of
          Some d \<Rightarrow> Inr d
        | None \<Rightarrow> Inl (''I need the date as YYYY-MM-DD, not '' @ repr_str on @ ''.''))"

definition pct :: "string \<Rightarrow> json \<Rightarrow> py_exn + json" where
  "pct field x = item_of (if field = ''value'' then ''display'' else field @ ''_display'') x"

definition basis_points :: "decimal \<Rightarrow> decimal \<Rightarrow> decimal" where
  "basis_points a b = dec_normalize (dec_mul (dec_sub a b) dec_100)"

definition bp_text :: "decimal \<Rightarrow> decimal \<Rightarrow> string" where
  "bp_text a b =
     (let d = basis_points a b in
      if dec_value d = 0 then ''unchanged''
      else (if 0 < dec_value d then ''up'' else ''down'') @ '' '' @ dec_text (dec_abs d) @ '' bp'')"

definition bp :: "json \<Rightarrow> json \<Rightarrow> py_exn + string" where
  "bp now before = bindR (to_decimal now) (\<lambda>a. bindR (to_decimal before) (\<lambda>b. Inr (bp_text a b)))"

text \<open>\<open>names.get(x, x)\<close> in a line.\<close>

definition known_as :: "string dict \<Rightarrow> json \<Rightarrow> py_exn + string" where
  "known_as names x = (case x of
      JStr s \<Rightarrow> Inr (get_or s s names)
    | JList _ \<Rightarrow> Inl (PyError ''TypeError'') | JObj _ \<Rightarrow> Inl (PyError ''TypeError'')
    | _ \<Rightarrow> Inr (py_str x))"

definition source_said :: "string dict" where
  "source_said = [(''UST-PAR'', ''Treasury's par curve''), (''H15-TCM'', ''the Fed's H.15'')]"

section \<open>A yield\<close>

definition on_or_before :: "date \<Rightarrow> json \<Rightarrow> py_exn + bool" where
  "on_or_before day b = bindR (bindR (item_of ''date'' b) text_of) (\<lambda>s. Inr (s \<le> isoformat day))"

text \<open>The bars of a year up to the day, with the name the series goes by.\<close>

definition bars_upto :: "date \<Rightarrow> json \<Rightarrow> py_exn + string \<times> json list" where
  "bars_upto day body =
     bindR (bindR (item_of ''series'' body) (at_index 0)) (\<lambda>series.
     bindR (bindR (item_of ''key'' series) text_of) (\<lambda>name.
     bindR (bindR (item_of ''bars'' series) iter_of) (\<lambda>bars.
     bindR (filterR (on_or_before day) bars) (\<lambda>bs. Inr (name, bs)))))"

text \<open>The loop over the years, the day's own and the one before it; a left result is the tool's answer.\<close>

fun year_blocks :: "mkt_conf \<Rightarrow> date \<Rightarrow> nat list \<Rightarrow> string \<Rightarrow> json list \<Rightarrow> ('z net_scheme, string + string \<times> json list) web" where
  "year_blocks cf day [] name points = ret (Inr (name, points))"
| "year_blocks cf day (y # ys) name points =
     bind (api cf ''/api/bars'' [(''series'', JStr name), (''interval'', JStr ''day''), (''block'', JStr (zfill 4 y))]) (\<lambda>r.
     case r of
       Refused n msg \<Rightarrow> ret (Inl (if n = 404
         then ''There's no instrument '' @ name @ ''. Try a tenor like 10Y, 2Y or 3M.'' else msg))
     | Body b \<Rightarrow>
         bind (liftR (bars_upto day b)) (\<lambda>(name', bs).
         if 2 \<le> length (bs @ points) then ret (Inr (name', bs @ points))
         else year_blocks cf day ys name' (bs @ points)))"

definition change_text :: "json \<Rightarrow> json \<Rightarrow> py_exn + string" where
  "change_text now prev =
     bindR (pct ''close'' prev) (\<lambda>before.
     bindR (bp now before) (\<lambda>c.
     bindR (item_text ''date'' prev) (\<lambda>d. Inr (''; '' @ c @ '' from '' @ py_str before @ ''% on '' @ d))))"

text \<open>The sentence about the last of the points.\<close>

definition yield_text :: "string \<Rightarrow> date \<Rightarrow> json list \<Rightarrow> py_exn + string" where
  "yield_text name day points =
     (case rev points of
        [] \<Rightarrow> Inr (short_tenor name @ '' has no yield on or before '' @ isoformat day @ ''.'')
      | latest # earlier \<Rightarrow>
          bindR (pct ''close'' latest) (\<lambda>now.
          bindR (item_of ''date'' latest) (\<lambda>d.
          bindR (bindR (item_of ''source'' latest) (known_as source_said)) (\<lambda>src.
          bindR (case earlier of [] \<Rightarrow> Inr [] | prev # _ \<Rightarrow> change_text now prev) (\<lambda>c.
          Inr (short_tenor name @ '' ('' @ name @ '') on '' @ py_str d @ '': '' @ py_str now @ ''%, from '' @ src @ c @ ''.'' @
            (if d \<noteq> JStr (isoformat day)
             then '' ('' @ isoformat day @ '' has no value: the latest on or before it is shown.)'' else [])))))))"

definition mkt_data_yield :: "mkt_conf \<Rightarrow> string \<Rightarrow> string \<Rightarrow> ('z net_scheme, string) web" where
  "mkt_data_yield cf tenor on =
     (case day_for cf on of
        Inl msg \<Rightarrow> ret msg
      | Inr day \<Rightarrow>
          bind (year_blocks cf day [year_of day, year_of day - 1] (instrument_name tenor) []) (\<lambda>r.
          case r of Inl msg \<Rightarrow> ret msg | Inr (name, points) \<Rightarrow> liftR (yield_text name day points)))"

section \<open>The curve\<close>

text \<open>\<open>{p["name"]: p for p in points}\<close>, and the same for the curves that have a date, by their labels.\<close>

definition key_text :: "string \<Rightarrow> json \<Rightarrow> py_exn + string" where
  "key_text k j = bindR (item_of k j) text_of"

definition points_by_name :: "json \<Rightarrow> py_exn + json dict" where
  "points_by_name c =
     bindR (bindR (item_of ''points'' c) iter_of) (\<lambda>ps.
     bindR (mapR (\<lambda>p. bindR (key_text ''name'' p) (\<lambda>n. Inr (n, p))) ps) (\<lambda>kvs. Inr (dict_update [] kvs)))"

definition dated :: "json \<Rightarrow> py_exn + bool" where
  "dated c = bindR (item_of ''date'' c) (\<lambda>d. Inr (truthy d))"

definition curves_by_label :: "json list \<Rightarrow> py_exn + json dict dict" where
  "curves_by_label cs =
     bindR (filterR dated cs) (\<lambda>ds.
     bindR (mapR (\<lambda>c. bindR (key_text ''label'' c) (\<lambda>l. bindR (points_by_name c) (\<lambda>ps. Inr (l, ps)))) ds) (\<lambda>kvs.
     Inr (dict_update [] kvs)))"

definition earlier_text :: "json \<Rightarrow> py_exn + string" where
  "earlier_text c =
     bindR (item_text ''label'' c) (\<lambda>l. bindR (item_of ''date'' c) (\<lambda>d.
     Inr (l @ '' earlier ('' @ py_str (or_j d (JStr ''no curve'')) @ '')'')))"

definition curve_head :: "string \<Rightarrow> json \<Rightarrow> json list \<Rightarrow> py_exn + string" where
  "curve_head on base others =
     bindR (item_of ''date'' base) (\<lambda>d.
     bindR (item_of ''requested'' base) (\<lambda>q.
     bindR (mapR earlier_text others) (\<lambda>es.
     Inr (''Treasury CMT curve on '' @ py_str d @
       (if d \<noteq> q \<and> strip on \<noteq> [] then '' (the last business day on or before '' @ py_str q @ '')'' else []) @
       (if others \<noteq> [] then ''; changes from '' @ join '', '' es else []) @ '':''))))"

definition change_since :: "json \<Rightarrow> json \<Rightarrow> string \<times> json dict \<Rightarrow> py_exn + string list" where
  "change_since name now earlier =
     (case earlier of (label, pts) \<Rightarrow>
        bindR (text_of name) (\<lambda>n.
        let prev = jget n pts in
        if truthy prev
        then bindR (pct ''value'' prev) (\<lambda>before. bindR (bp now before) (\<lambda>c. Inr [c @ '' vs '' @ label]))
        else Inr []))"

definition point_line :: "json dict dict \<Rightarrow> json \<Rightarrow> py_exn + string" where
  "point_line earlier p =
     bindR (item_of ''name'' p) (\<lambda>name.
     bindR (text_of name) (\<lambda>n.
     bindR (pct ''value'' p) (\<lambda>now.
     bindR (mapR (change_since name now) earlier) (\<lambda>cs.
     Inr (''- '' @ short_tenor n @ '': '' @ py_str now @ ''%'' @
       (if concat cs \<noteq> [] then '' ('' @ join '', '' (concat cs) @ '')'' else []))))))"

definition point_source :: "json \<Rightarrow> py_exn + string" where
  "point_source p = bindR (item_of ''source'' p) (known_as source_said)"

definition missing_line :: "json \<Rightarrow> py_exn + string list" where
  "missing_line base =
     bindR (item_of ''missing'' base) (\<lambda>m.
     if truthy m then bindR (bindR (iter_of m) (mapR text_of)) (\<lambda>ns.
       Inr [''No value that day for '' @ join '', '' (map short_tenor ns) @ ''.''])
     else Inr [])"

definition curve_text :: "string \<Rightarrow> json \<Rightarrow> py_exn + string" where
  "curve_text on body =
     bindR (bindR (item_of ''curves'' body) iter_of) (\<lambda>curves.
     case curves of
       [] \<Rightarrow> Inl (PyError ''ValueError'')
     | base # others \<Rightarrow>
         bindR (item_of ''date'' base) (\<lambda>d.
         if \<not> truthy d
         then bindR (item_text ''requested'' base) (\<lambda>q. Inr (''No Treasury curve on or in the ten days before '' @ q @ ''.''))
         else bindR (curves_by_label others) (\<lambda>earlier.
           bindR (curve_head on base others) (\<lambda>head.
           bindR (bindR (item_of ''points'' base) iter_of) (\<lambda>ps.
           bindR (mapR (point_line earlier) ps) (\<lambda>ls.
           bindR (mapR point_source ps) (\<lambda>ss.
           bindR (missing_line base) (\<lambda>missing.
           Inr (join [newline] (head # ls @ [''From '' @ join '' and '' (sorted_set ss) @ ''.''] @ missing))))))))))"

definition mkt_data_curve :: "mkt_conf \<Rightarrow> string \<Rightarrow> string \<Rightarrow> ('z net_scheme, string) web" where
  "mkt_data_curve cf on compare =
     (case day_for cf on of
        Inl msg \<Rightarrow> ret msg
      | Inr day \<Rightarrow>
          bind (api cf ''/api/curve''
              ((if strip on \<noteq> [] then [(''date'', JStr (isoformat day))] else []) @
               (if strip compare \<noteq> [] then [(''compare'', JStr (upper (strip compare)))] else [])))
            (said (curve_text on)))"

section \<open>A name can be said back\<close>

definition number_texts :: "string set" where
  "number_texts =
     {d. d \<noteq> [] \<and> list_all is_digit d} \<union>
     {d @ ''.'' @ f | d f. d \<noteq> [] \<and> list_all is_digit d \<and> f \<noteq> [] \<and> list_all is_digit f}"

definition unit_letters :: string where
  "unit_letters = ''YMW''"

lemma reads_number: "reads number_texts m_number"
  unfolding m_number_def m_cat_Cons
  by (rule reads_mono [OF reads_seq [OF reads_plus reads_seq [OF reads_opt [OF reads_seq [OF reads_lit
        reads_seq [OF reads_plus reads_cat_Nil]]] reads_cat_Nil]]]) (auto simp: number_texts_def)

lemma reads_unit: "reads (set units) m_unit"
  unfolding m_unit_def
  by (rule reads_any) (auto simp: list_all_iff intro: reads_mono [OF reads_lit])

lemma tenor_match_form:
  assumes "tenor_match t = Some (n, u)"
  shows "n \<in> number_texts" and "take 1 u \<in> {[c] | c. c \<in> set unit_letters}"
proof -
  have "(n, u) \<in> set [(n, u). p1 \<leftarrow> m_opt (m_lit ''UST-'') ([], t), (n, p2) \<leftarrow> grab m_number p1, p3 \<leftarrow> m_gap p2,
        (u, p4) \<leftarrow> grab m_unit p3, _ \<leftarrow> m_tail p4]"
    using first_of_in [OF assms [unfolded tenor_match_def]] .
  then obtain p1 p2 p3 p4 where g: "(n, p2) \<in> set (grab m_number p1)" "(u, p4) \<in> set (grab m_unit p3)"
    by auto
  show "n \<in> number_texts" by (rule grab_reads [OF reads_number g(1)])
  have "u \<in> set units" by (rule grab_reads [OF reads_unit g(2)])
  then show "take 1 u \<in> {[c] | c. c \<in> set unit_letters}"
    by (auto simp: units_def unit_letters_def)
qed

lemma tries_number:
  assumes "n \<in> number_texts" and "stops is_digit s" and "stops (\<lambda>c. c = CHR ''.'') s"
  shows "tries (m_number (b, n @ s)) (rev n @ b, s)"
proof -
  consider "n \<noteq> []" "list_all is_digit n"
    | d f where "n = d @ ''.'' @ f" "d \<noteq> []" "list_all is_digit d" "f \<noteq> []" "list_all is_digit f"
    using assms(1) by (auto simp: number_texts_def)
  then show ?thesis
  proof cases
    case 1
    have "m_cat [m_lit ''.'', m_plus is_digit] (rev n @ b, s) = []"
      using assms(3) unfolding m_cat_Cons m_seq_def m_lit_eq by (auto simp: stops_def prefix_def split: list.splits)
    then have o: "tries (m_opt (m_cat [m_lit ''.'', m_plus is_digit]) (rev n @ b, s)) (rev n @ b, s)"
      by (rule tries_opt_none)
    have d: "tries (m_plus is_digit (b, n @ s)) (rev n @ b, s)"
      using 1 assms(2) by (intro tries_plus)
    show ?thesis
      unfolding m_number_def by (rule tries_cat_Cons, rule d, rule tries_cat_Cons, rule o, rule tries_cat_Nil)
  next
    case 2
    have d: "tries (m_plus is_digit (b, d @ ''.'' @ f @ s)) (rev d @ b, ''.'' @ f @ s)"
      using 2 by (intro tries_plus) (auto simp: stops_def is_digit_def)
    have f: "tries (m_plus is_digit (rev ''.'' @ rev d @ b, f @ s)) (rev f @ rev ''.'' @ rev d @ b, s)"
      using 2 assms(2) by (intro tries_plus)
    have "tries (m_cat [m_lit ''.'', m_plus is_digit] (rev d @ b, ''.'' @ f @ s)) (rev f @ rev ''.'' @ rev d @ b, s)"
      by (rule tries_cat_Cons, rule tries_lit, rule tries_cat_Cons, rule f, rule tries_cat_Nil)
    then have o: "tries (m_opt (m_cat [m_lit ''.'', m_plus is_digit]) (rev d @ b, ''.'' @ f @ s)) (rev f @ rev ''.'' @ rev d @ b, s)"
      by (rule tries_opt)
    have "tries (m_number (b, d @ ''.'' @ f @ s)) (rev f @ rev ''.'' @ rev d @ b, s)"
      unfolding m_number_def by (rule tries_cat_Cons, rule d, rule tries_cat_Cons, rule o, rule tries_cat_Nil)
    then show ?thesis by (simp add: 2(1))
  qed
qed

lemma tries_gap: "stops is_space s \<Longrightarrow> stops (\<lambda>c. c = CHR ''-'') s \<Longrightarrow> tries (m_gap (b, s)) (b, s)"
proof -
  assume a: "stops is_space s" "stops (\<lambda>c. c = CHR ''-'') s"
  have star: "tries (m_star is_space (b, s)) (b, s)" using tries_star [of is_space "[]" s b] a(1) by simp
  have "m_lit ''-'' (b, s) = []" using a(2) by (auto simp: m_lit_eq stops_def prefix_def split: list.splits)
  then have o: "tries (m_opt (m_lit ''-'') (b, s)) (b, s)" by (rule tries_opt_none)
  show "tries (m_gap (b, s)) (b, s)"
    unfolding m_gap_def
    by (rule tries_cat_Cons, rule star, rule tries_cat_Cons, rule o, rule tries_cat_Cons, rule star, rule tries_cat_Nil)
qed

lemma tries_unit: "c \<in> set unit_letters \<Longrightarrow> tries (m_unit (b, c # s)) (c # b, s)"
  by (auto simp: m_unit_def units_def unit_letters_def m_lit_eq tries_def)

lemma tries_tail: "w = [] \<or> w = ''-CMT'' \<Longrightarrow> tries (m_tail (b, w)) (rev w @ b, [])"
proof -
  assume w: "w = [] \<or> w = ''-CMT''"
  have o: "tries (m_opt (m_lit ''-CMT'') (b, w)) (rev w @ b, [])"
    using w by (auto simp: m_opt_def m_lit_eq tries_def)
  have e: "tries (m_end (rev w @ b, [])) (rev w @ b, [])"
    by (simp add: m_end_def tries_def)
  show ?thesis
    unfolding m_tail_def by (rule tries_cat_Cons, rule o, rule tries_cat_Cons, rule e, rule tries_cat_Nil)
qed

text \<open>The full name and the short one are read alike.\<close>

lemma tenor_match_canonical:
  assumes "n \<in> number_texts" and "c \<in> set unit_letters"
    and "p = [] \<or> p = ''UST-''" and "w = [] \<or> w = ''-CMT''"
  shows "tenor_match (p @ n @ [c] @ w) = Some (n, [c])"
proof -
  have stop: "stops is_digit (c # w)" "stops (\<lambda>c. c = CHR ''.'') (c # w)" "stops is_space (c # w)" "stops (\<lambda>c. c = CHR ''-'') (c # w)"
    using assms(2) by (auto simp: unit_letters_def stops_def is_digit_def is_space_def)
  have n: "tries (grab m_number (rev p, n @ c # w)) (n, (rev n @ rev p, c # w))"
    by (rule tries_grab) (rule tries_number [OF assms(1) stop(1,2)])
  have u: "tries (grab m_unit (rev n @ rev p, c # w)) ([c], ([c] @ rev n @ rev p, w))"
    using tries_grab [of m_unit "rev n @ rev p" "c # w" "[c]" w] tries_unit [OF assms(2), of "rev n @ rev p" w] by simp
  have pre: "tries (m_opt (m_lit ''UST-'') ([], p @ n @ c # w)) (rev p, n @ c # w)"
  proof (cases "p = []")
    case True
    have "m_lit ''UST-'' ([], n @ c # w) = []"
      using assms(1) by (cases n) (auto simp: m_lit_eq number_texts_def is_digit_def Cons_eq_append_conv)
    with True show ?thesis by (simp add: tries_opt_none)
  next
    case False
    with assms(3) show ?thesis by (auto simp: m_opt_def m_lit_eq tries_def)
  qed
  have g: "tries (m_gap (rev n @ rev p, c # w)) (rev n @ rev p, c # w)"
    by (rule tries_gap [OF stop(3,4)])
  have t: "tries (m_tail ([c] @ rev n @ rev p, w)) (rev w @ [c] @ rev n @ rev p, [])"
    by (rule tries_tail [OF assms(4)])
  show ?thesis
    unfolding tenor_match_def using pre n g u t
    by (auto simp: tries_def first_of_def)
qed

lemma tidy_id:
  assumes "list_all (\<lambda>c. \<not> is_space c \<and> \<not> is_lower c \<and> c \<noteq> CHR ''_'') s"
  shows "tidy s = s"
proof -
  have "strip s = s"
    by (rule strip_no_space) (use assms in \<open>auto simp: list_all_iff\<close>)
  moreover have "upper s = s"
    unfolding upper_def by (rule map_idI) (use assms in \<open>auto simp: to_upper_def list_all_iff\<close>)
  moreover have "\<not> sublist ''_'' s"
    using assms by (auto simp: sublist_def)
  ultimately show ?thesis by (simp add: tidy_def replace_id)
qed

lemma number_texts_chars: "n \<in> number_texts \<Longrightarrow> list_all (\<lambda>c. is_digit c \<or> c = CHR ''.'') n"
  by (auto simp: number_texts_def list_all_iff)

lemma instrument_name_canonical:
  assumes "n \<in> number_texts" and "c \<in> set unit_letters"
    and "p = [] \<or> p = ''UST-''" and "w = [] \<or> w = ''-CMT''"
  shows "instrument_name (p @ n @ [c] @ w) = ''UST-'' @ n @ [c] @ ''-CMT''"
proof -
  let ?ok = "\<lambda>c. \<not> is_space c \<and> \<not> is_lower c \<and> c \<noteq> CHR ''_''"
  have letters: "list_all ?ok ''UST-''" "list_all ?ok ''-CMT''" "list_all ?ok unit_letters" "?ok (CHR ''.'')"
    by code_simp+
  have digits: "is_digit a \<Longrightarrow> ?ok a" for a
    using code_eq_iff [of a "CHR ''_''"] by (auto simp: is_space_def is_lower_def is_digit_def)
  have "list_all ?ok n"
    using number_texts_chars [OF assms(1)] digits letters(4) unfolding list_all_iff by blast
  moreover have "list_all ?ok p"
    using assms(3) letters(1) by (elim disjE) (hypsubst, simp only: list.pred_inject, hypsubst)
  moreover have "list_all ?ok w"
    using assms(4) letters(2) by (elim disjE) (hypsubst, simp only: list.pred_inject, hypsubst)
  moreover have "?ok c"
    using assms(2) letters(3) unfolding list_all_iff by blast
  ultimately have "list_all ?ok (p @ n @ [c] @ w)"
    by simp
  then show ?thesis
    using tenor_match_canonical [OF assms] by (simp add: instrument_name_def tidy_id)
qed

lemma short_tenor_canonical: "short_tenor (''UST-'' @ s @ ''-CMT'') = s"
  by (simp add: short_tenor_def removeprefix_def removesuffix_def suffix_def)

text \<open>C31: Every spelling of a tenor that \<open>instrument_name\<close> reads gives one name, and that name, like the short
  form of it that the answers use, is read as itself: what the tools say can be said back to them.\<close>

theorem instrument_name_roundtrip:
  assumes "tenor_match (tidy t) \<noteq> None"
  shows "instrument_name (instrument_name t) = instrument_name t \<and>
    instrument_name (short_tenor (instrument_name t)) = instrument_name t"
proof -
  obtain n u where m: "tenor_match (tidy t) = Some (n, u)" using assms by auto
  obtain c where c: "take 1 u = [c]" "c \<in> set unit_letters" using tenor_match_form(2) [OF m] by auto
  have "instrument_name t = ''UST-'' @ n @ [c] @ ''-CMT''"
    using m c(1) by (simp add: instrument_name_def)
  then show ?thesis
    using instrument_name_canonical [OF tenor_match_form(1) [OF m] c(2), of "''UST-''" "''-CMT''"]
      instrument_name_canonical [OF tenor_match_form(1) [OF m] c(2), of "[]" "[]"]
      short_tenor_canonical [of "n @ [c]"]
    by simp
qed

lemma instrument_name_roundtrip_witness:
  "instrument_name '' 10-year '' = ''UST-10Y-CMT'' \<and> short_tenor ''UST-10Y-CMT'' = ''10Y'' \<and>
   instrument_name (short_tenor (instrument_name '' 10-year '')) = instrument_name '' 10-year ''"
proof (intro conjI)
  have "tenor_match (tidy '' 10-year '') \<noteq> None" by code_simp
  from instrument_name_roundtrip [OF this]
  show "instrument_name (short_tenor (instrument_name '' 10-year '')) = instrument_name '' 10-year ''" by simp
qed code_simp+

section \<open>Basis points\<close>

text \<open>The change that is said is the exact difference of the two percentages in hundredths, with its
  direction, as long as the digits of the difference fit into the precision of the context.\<close>

theorem bp_exact:
  assumes "decimal_of now = Some a" and "decimal_of before = Some b"
    and "nat \<bar>aligned_sum a (dec_minus b)\<bar> < 10 ^ 26"
  shows "if dec_value a = dec_value b then bp (JStr now) (JStr before) = Inr ''unchanged''
    else \<exists>n x. bp (JStr now) (JStr before) = Inr ((if dec_value b < dec_value a then ''up '' else ''down '') @ n @ '' bp'') \<and>
      decimal_of n = Some x \<and> dec_value x = 100 * \<bar>dec_value a - dec_value b\<bar>"
proof -
  let ?p = "10 ^ dec_prec :: nat" and ?s = "dec_sub a b"
  have big: "(10::nat) ^ 26 < ?p" "(10 ^ 26 :: nat) * 100 = ?p" by (simp_all add: dec_prec_def)
  then have fit: "nat \<bar>aligned_sum a (dec_minus b)\<bar> < ?p" using assms(3) by simp
  have s: "dec_value ?s = dec_value a - dec_value b" "dec_coeff ?s < 10 ^ 26"
    using dec_add_exact [OF fit] assms(3) by (simp_all add: dec_sub_def)
  then have "dec_coeff ?s * dec_coeff dec_100 < ?p"
    unfolding big(2) [symmetric] by (simp add: dec_100_def)
  note m = dec_mul_exact [OF this]
  have v100: "dec_value dec_100 = 100" by (simp add: dec_100_def dec_value_Dec)
  have c: "dec_coeff (dec_mul ?s dec_100) < ?p" using m(2) \<open>dec_coeff ?s * dec_coeff dec_100 < ?p\<close> by simp
  then have v: "dec_value (basis_points a b) = 100 * (dec_value a - dec_value b)"
    using m(1) s(1) v100 by (simp add: basis_points_def dec_normalize_value)
  have "dec_coeff (basis_points a b) < ?p"
    using c dec_normalize_coeff [OF c] by (simp add: basis_points_def)
  then have "dec_value (dec_abs (basis_points a b)) = 100 * \<bar>dec_value a - dec_value b\<bar>"
    by (simp only: dec_abs_value v abs_mult abs_numeral)
  then obtain x where x: "decimal_of (dec_text (dec_abs (basis_points a b))) = Some x"
      "dec_value x = 100 * \<bar>dec_value a - dec_value b\<bar>"
    using dec_text_value by fastforce
  have "bp (JStr now) (JStr before) = Inr (bp_text a b)"
    using assms(1,2) by (simp add: bp_def to_decimal_def)
  moreover have "0 < dec_value (basis_points a b) \<longleftrightarrow> dec_value b < dec_value a"
    "dec_value (basis_points a b) = 0 \<longleftrightarrow> dec_value a = dec_value b"
    by (auto simp: v)
  ultimately show ?thesis
    using x by (auto simp: bp_text_def Let_def)
qed

lemma bp_exact_witness:
  "\<exists>n x. bp (JStr ''4.19'') (JStr ''4.25'') = Inr (''down '' @ n @ '' bp'') \<and> decimal_of n = Some x \<and> dec_value x = 6"
proof -
  have d: "decimal_of ''4.19'' = Some (Dec False 419 (-2))" "decimal_of ''4.25'' = Some (Dec False 425 (-2))"
    by code_simp+
  show ?thesis
    using bp_exact [OF d] by (simp add: aligned_sum_def coeff_at_def dec_minus_def dec_value_Dec power_int_def power2_eq_square)
qed

section \<open>The latest yields\<close>

text \<open>A bar with its day, value and source, and the answer for a series of them.\<close>

type_synonym day_bar = "date \<times> string \<times> string"

definition bar_json :: "day_bar \<Rightarrow> json" where
  "bar_json b = JObj [(''date'', JStr (isoformat (fst b))), (''close_display'', JStr (fst (snd b))), (''source'', JStr (snd (snd b)))]"

definition series_json :: "string \<Rightarrow> day_bar list \<Rightarrow> json" where
  "series_json name bars = JObj [(''series'', JList [JObj [(''key'', JStr name), (''bars'', JList (map bar_json bars))]])]"

definition bars_request :: "mkt_conf \<Rightarrow> string \<Rightarrow> nat \<Rightarrow> request" where
  "bars_request cf name y = Request ''GET'' (mkt_api_url cf @ ''/api/bars'')
     [(''series'', JStr name), (''interval'', JStr ''day''), (''block'', JStr (zfill 4 y))] None None"

definition upto_day :: "date \<Rightarrow> day_bar list \<Rightarrow> day_bar list" where
  "upto_day day bars = filter (\<lambda>b. fst b \<le> day) bars"

text \<open>A service that answers for the year with its bars, whenever it is asked.\<close>

definition serves_year :: "http_env \<Rightarrow> mkt_conf \<Rightarrow> string \<Rightarrow> nat \<Rightarrow> day_bar list \<Rightarrow> bool" where
  "serves_year e cf name y bars \<longleftrightarrow>
     (\<exists>r. (\<forall>n. answer e n (bars_request cf name y) = Inr r) \<and> resp_status r = 200 \<and>
       loads e (resp_text r) = Some (series_json name bars)) \<and> list_all (valid_date \<circ> fst) bars"

lemma filterR_map:
  "(\<And>x. x \<in> set xs \<Longrightarrow> p (f x) = Inr (q x)) \<Longrightarrow> filterR p (map f xs) = Inr (map f (filter q xs))"
proof -
  assume a: "\<And>x. x \<in> set xs \<Longrightarrow> p (f x) = Inr (q x)"
  then have "mapR (\<lambda>x. bindR (p x) (\<lambda>b. Inr (x, b))) (map f xs) = Inr (map (\<lambda>x. (f x, q x)) xs)"
    by (induction xs) auto
  then show ?thesis
    by (simp add: filterR_def filter_map comp_def)
qed

lemma bars_upto_series:
  assumes "list_all (valid_date \<circ> fst) bars" and "valid_date day"
  shows "bars_upto day (series_json name bars) = Inr (name, map bar_json (upto_day day bars))"
proof -
  have "filterR (on_or_before day) (map bar_json bars) = Inr (map bar_json (filter (\<lambda>b. fst b \<le> day) bars))"
    using assms by (intro filterR_map) (auto simp: on_or_before_def item_of_def bar_json_def text_of_def isoformat_le list_all_iff)
  then show ?thesis
    by (simp add: bars_upto_def series_json_def item_of_def at_index_def text_of_def iter_of_def upto_day_def)
qed

lemma api_bars:
  assumes "serves_year e cf name y bars"
  shows "\<exists>w'. api cf ''/api/bars'' [(''series'', JStr name), (''interval'', JStr ''day''), (''block'', JStr (zfill 4 y))] e w =
    (Inr (Body (series_json name bars)), w')"
  using assms
  by (auto simp: serves_year_def api_def asked_def bars_request_def catch_http_def try_catch_def bind_def send_def ask_def
      ret_def reply_of_def)

lemma yield_text_last_two: "2 \<le> length bs \<Longrightarrow> yield_text name day (as @ bs) = yield_text name day bs"
  by (cases bs rule: rev_cases; cases "butlast bs" rule: rev_cases) (auto simp: yield_text_def)

text \<open>Reading a year's bars and, only when they are too few, the year before says what the whole record of both
  years would.\<close>

lemma yield_of_record:
  assumes "day_for cf on = Inr day" and "valid_date day"
    and "serves_year e cf (instrument_name tenor) (year_of day) this_year"
    and "serves_year e cf (instrument_name tenor) (year_of day - 1) last_year"
  shows "fst (mkt_data_yield cf tenor on e w) =
    yield_text (instrument_name tenor) day (map bar_json (upto_day day (last_year @ this_year)))"
proof -
  let ?n = "instrument_name tenor"
  let ?a = "map bar_json (upto_day day this_year)" and ?b = "map bar_json (upto_day day last_year)"
  obtain w1 where r1: "api cf ''/api/bars'' [(''series'', JStr ?n), (''interval'', JStr ''day''), (''block'', JStr (zfill 4 (year_of day)))] e w =
      (Inr (Body (series_json ?n this_year)), w1)"
    using api_bars [OF assms(3)] by blast
  obtain w2 where r2: "api cf ''/api/bars'' [(''series'', JStr ?n), (''interval'', JStr ''day''), (''block'', JStr (zfill 4 (year_of day - 1)))] e w1 =
      (Inr (Body (series_json ?n last_year)), w2)"
    using api_bars [OF assms(4)] by blast
  have b: "bars_upto day (series_json ?n this_year) = Inr (?n, ?a)" "bars_upto day (series_json ?n last_year) = Inr (?n, ?b)"
    using assms(2-4) by (auto simp: serves_year_def intro: bars_upto_series)
  show ?thesis
  proof (cases "2 \<le> length ?a")
    case True
    then have "fst (mkt_data_yield cf tenor on e w) = yield_text ?n day ?a"
      using r1 b by (simp add: mkt_data_yield_def assms(1) bind_def ret_def liftR_def)
    also have "\<dots> = yield_text ?n day (?b @ ?a)"
      by (rule yield_text_last_two [OF True, symmetric])
    finally show ?thesis by (simp add: upto_day_def)
  next
    case False
    then have "fst (mkt_data_yield cf tenor on e w) = yield_text ?n day (?b @ ?a)"
      using r1 r2 b by (simp add: mkt_data_yield_def assms(1) bind_def ret_def liftR_def)
    then show ?thesis by (simp add: upto_day_def)
  qed
qed

text \<open>A year's bars are in the order of their days. Of the bars whose day has a property, the newest one is the one
  whose day no other passes, wherever it stands in the record.\<close>

definition in_year :: "nat \<Rightarrow> day_bar list \<Rightarrow> bool" where
  "in_year y bars \<longleftrightarrow> sorted_wrt (<) (map fst bars) \<and> list_all (\<lambda>b. year_of (fst b) = y) bars"

definition newest_of :: "(date \<Rightarrow> bool) \<Rightarrow> day_bar list \<Rightarrow> day_bar \<Rightarrow> bool" where
  "newest_of P bars b \<longleftrightarrow> b \<in> set bars \<and> P (fst b) \<and> (\<forall>c\<in>set bars. P (fst c) \<longrightarrow> fst c \<le> fst b)"

text \<open>The words for a change: the direction, and the exact difference in hundredths of a percentage point.\<close>

definition change_said :: "decimal \<Rightarrow> decimal \<Rightarrow> string \<Rightarrow> bool" where
  "change_said now before c \<longleftrightarrow>
     (if dec_value now = dec_value before then c = ''unchanged''
      else \<exists>n x. c = (if dec_value before < dec_value now then ''up '' else ''down '') @ n @ '' bp'' \<and>
        decimal_of n = Some x \<and> dec_value x = 100 * \<bar>dec_value now - dec_value before\<bar>)"

definition said_of_bar :: "string \<Rightarrow> date \<Rightarrow> day_bar \<Rightarrow> string \<Rightarrow> string" where
  "said_of_bar name day b change =
     short_tenor name @ '' ('' @ name @ '') on '' @ isoformat (fst b) @ '': '' @ fst (snd b) @ ''%, from '' @
     get_or (snd (snd b)) (snd (snd b)) source_said @ change @ ''.'' @
     (if fst b \<noteq> day then '' ('' @ isoformat day @ '' has no value: the latest on or before it is shown.)'' else [])"

lemma in_order:
  assumes "in_year (y - 1) last_year" and "in_year y this_year" and "y \<noteq> 0"
  shows "sorted_wrt (<) (map fst (upto_day day (last_year @ this_year)))"
proof -
  have "fst a < fst b" if "a \<in> set last_year" "b \<in> set this_year" for a b
  proof -
    have "year_of (fst a) = y - 1" "year_of (fst b) = y"
      using that assms(1,2) by (auto simp: in_year_def list_all_iff)
    then show ?thesis using assms(3) by (cases "fst a"; cases "fst b") (auto simp: less_date_def less_eq_date_def)
  qed
  then have "sorted_wrt (<) (map fst (last_year @ this_year))"
    using assms(1,2) by (auto simp: in_year_def sorted_wrt_append)
  then show ?thesis
    unfolding upto_day_def sorted_wrt_map by (rule sorted_wrt_filter)
qed

lemma newest_is_last:
  assumes "sorted_wrt (<) (map fst (upto_day day bars))" and "newest_of (\<lambda>d. d \<le> day) bars b"
  shows "\<exists>as. upto_day day bars = as @ [b] \<and> (\<forall>a\<in>set as. fst a < fst b)"
proof (cases "upto_day day bars" rule: rev_cases)
  case Nil
  then show ?thesis using assms(2) by (auto simp: upto_day_def newest_of_def filter_empty_conv)
next
  case (snoc as l)
  have "l \<in> set (upto_day day bars)" by (simp add: snoc)
  then have b: "b \<in> set (upto_day day bars)" and le: "fst l \<le> fst b"
    using assms(2) by (auto simp: upto_day_def newest_of_def)
  have "\<forall>a\<in>set as. fst a < fst l"
    using assms(1) snoc by (auto simp: sorted_wrt_append)
  then have "b = l" using b snoc le by auto
  then show ?thesis using snoc \<open>\<forall>a\<in>set as. fst a < fst l\<close> by blast
qed

lemma newest_before_last:
  assumes "sorted_wrt (<) (map fst (upto_day day bars))" and "upto_day day bars = as @ [b]"
    and "newest_of (\<lambda>d. d < fst b) bars p"
  shows "\<exists>cs. as = cs @ [p]"
proof -
  have b: "fst b \<le> day" and below: "\<forall>a\<in>set as. fst a < fst b"
    using assms(1,2) Cons_eq_filterD by (auto simp: sorted_wrt_append upto_day_def dest!: arg_cong [where f = set])
  have same: "x \<in> set as \<longleftrightarrow> x \<in> set bars \<and> fst x < fst b" for x
    using arg_cong [OF assms(2), of set] b below by (auto simp: upto_day_def)
  have "p \<in> set as" using assms(3) same by (simp add: newest_of_def)
  then obtain cs l where s: "as = cs @ [l]" by (cases as rule: rev_cases) auto
  have "fst l \<le> fst p" using assms(3) same [of l] s by (auto simp: newest_of_def)
  moreover have "\<forall>a\<in>set cs. fst a < fst l"
    using assms(1,2) s by (auto simp: sorted_wrt_append)
  ultimately have "p = l" using \<open>p \<in> set as\<close> s by auto
  then show ?thesis using s by blast
qed

lemma yield_text_one:
  assumes "valid_date (fst b)" and "valid_date day"
  shows "yield_text name day (map bar_json [b]) = Inr (said_of_bar name day b [])"
  by (simp add: yield_text_def said_of_bar_def bar_json_def pct_def item_of_def known_as_def isoformat_inject [OF assms])

lemma bp_said:
  assumes "decimal_of now = Some a" and "decimal_of before = Some b"
    and "nat \<bar>aligned_sum a (dec_minus b)\<bar> < 10 ^ 26"
  shows "\<exists>c. bp (JStr now) (JStr before) = Inr c \<and> change_said a b c"
  using bp_exact [OF assms] unfolding change_said_def by (cases "dec_value a = dec_value b") (simp, auto)

lemma yield_text_change:
  assumes "valid_date (fst b)" and "valid_date day"
    and "decimal_of (fst (snd b)) = Some x" and "decimal_of (fst (snd p)) = Some y"
    and "nat \<bar>aligned_sum x (dec_minus y)\<bar> < 10 ^ 26"
  shows "\<exists>c. yield_text name day (map bar_json (cs @ [p, b])) =
      Inr (said_of_bar name day b (''; '' @ c @ '' from '' @ fst (snd p) @ ''% on '' @ isoformat (fst p))) \<and> change_said x y c"
proof -
  obtain c where c: "bp (JStr (fst (snd b))) (JStr (fst (snd p))) = Inr c" "change_said x y c"
    using bp_said [OF assms(3-5)] by blast
  show ?thesis
    by (rule exI [of _ c]) (simp add: yield_text_def said_of_bar_def bar_json_def pct_def item_of_def known_as_def change_text_def
        item_text_def isoformat_inject [OF assms(1,2)] c)
qed

text \<open>C21: When the service has the bars of the day's year and of the year before, in the order of their days, the tool
  says the newest bar on or before the day, and the change from the newest bar before that one, in either year: the
  direction and the exact difference in basis points. With no earlier bar no change is said, and with no bar up to the
  day it says so.\<close>

theorem yield_is_latest:
  assumes "day_for cf on = Inr day" and "valid_date day"
    and "serves_year e cf (instrument_name tenor) (year_of day) this_year" and "in_year (year_of day) this_year"
    and "serves_year e cf (instrument_name tenor) (year_of day - 1) last_year" and "in_year (year_of day - 1) last_year"
  shows "((\<forall>b\<in>set (last_year @ this_year). day < fst b) \<longrightarrow>
      fst (mkt_data_yield cf tenor on e w) =
        Inr (short_tenor (instrument_name tenor) @ '' has no yield on or before '' @ isoformat day @ ''.'')) \<and>
    (\<forall>b. newest_of (\<lambda>d. d \<le> day) (last_year @ this_year) b \<and> (\<forall>p\<in>set (last_year @ this_year). \<not> fst p < fst b) \<longrightarrow>
      fst (mkt_data_yield cf tenor on e w) = Inr (said_of_bar (instrument_name tenor) day b [])) \<and>
    (\<forall>b p x y. newest_of (\<lambda>d. d \<le> day) (last_year @ this_year) b \<and>
      newest_of (\<lambda>d. d < fst b) (last_year @ this_year) p \<and>
      decimal_of (fst (snd b)) = Some x \<and> decimal_of (fst (snd p)) = Some y \<and>
      nat \<bar>aligned_sum x (dec_minus y)\<bar> < 10 ^ 26 \<longrightarrow>
      (\<exists>change. change_said x y change \<and> fst (mkt_data_yield cf tenor on e w) =
        Inr (said_of_bar (instrument_name tenor) day b
          (''; '' @ change @ '' from '' @ fst (snd p) @ ''% on '' @ isoformat (fst p)))))"
    (is "?none \<and> (\<forall>b. ?one b) \<and> (\<forall>b p x y. ?two b p x y)")
proof (intro conjI allI)
  note r = yield_of_record [OF assms(1-3,5), where w = w]
  have "year_of day \<noteq> 0" using assms(2) by (simp add: valid_date_def)
  note s = in_order [OF assms(6,4) this, of day]
  have v: "valid_date (fst b)" if "newest_of P (last_year @ this_year) b" for P b
    using that assms(3,5) by (auto simp: newest_of_def serves_year_def list_all_iff)
  show ?none
    by (auto simp: r upto_day_def yield_text_def not_le filter_False [of last_year] filter_False [of this_year])
  show "?one b" for b
  proof
    assume b: "newest_of (\<lambda>d. d \<le> day) (last_year @ this_year) b \<and> (\<forall>p\<in>set (last_year @ this_year). \<not> fst p < fst b)"
    then obtain as where as: "upto_day day (last_year @ this_year) = as @ [b]" "\<forall>a\<in>set as. fst a < fst b"
      using newest_is_last [OF s] by blast
    have "set as \<subseteq> set (last_year @ this_year)" using arg_cong [OF as(1), of set] by (auto simp: upto_day_def)
    then have "as = []" using b as(2) by (cases as) auto
    then show "fst (mkt_data_yield cf tenor on e w) = Inr (said_of_bar (instrument_name tenor) day b [])"
      using as(1) yield_text_one [OF v [OF b [THEN conjunct1]] assms(2)] by (simp add: r)
  qed
  show "?two b p x y" for b p x y
  proof
    assume a: "newest_of (\<lambda>d. d \<le> day) (last_year @ this_year) b \<and>
      newest_of (\<lambda>d. d < fst b) (last_year @ this_year) p \<and>
      decimal_of (fst (snd b)) = Some x \<and> decimal_of (fst (snd p)) = Some y \<and> nat \<bar>aligned_sum x (dec_minus y)\<bar> < 10 ^ 26"
    then obtain as where as: "upto_day day (last_year @ this_year) = as @ [b]"
      using newest_is_last [OF s] by blast
    then obtain cs where "as = cs @ [p]" using newest_before_last [OF s as] a by blast
    then have u: "upto_day day (last_year @ this_year) = cs @ [p, b]" using as by simp
    show "\<exists>change. change_said x y change \<and> fst (mkt_data_yield cf tenor on e w) =
        Inr (said_of_bar (instrument_name tenor) day b (''; '' @ change @ '' from '' @ fst (snd p) @ ''% on '' @ isoformat (fst p)))"
      unfolding r u using yield_text_change [OF v assms(2)] a by blast
  qed
qed

definition sample_answer :: "nat \<Rightarrow> request \<Rightarrow> py_exn + response" where
  "sample_answer n q = Inr (Response 200 [] (zfill 4 (if jget ''block'' (req_params q) = JStr ''2025'' then 1 else 0)))"

definition sample_bars :: "day_bar list" where
  "sample_bars = [(Date 2025 12 30, ''4.12'', ''UST-PAR''), (Date 2025 12 31, ''4.15'', ''UST-PAR'')]"

definition sample_env :: http_env where
  "sample_env = \<lparr>answer = sample_answer,
     loads = (\<lambda>s. Some (series_json ''UST-10Y-CMT'' (if s = ''0001'' then sample_bars else []))),
     yaml = (\<lambda>_. None), mono = 0, wall = 0\<rparr>"

lemma sample_digits:
  "digit_char 0 = CHR ''0''" "digit_char (Suc 0) = CHR ''1''" "digit_char 2 = CHR ''2''" "digit_char 3 = CHR ''3''"
  "digit_char 5 = CHR ''5''" "digit_char 6 = CHR ''6''"
  by code_simp+

lemma replicate_3: "replicate 3 c = [c, c, c]"
  by (simp add: numeral_3_eq_3)

lemma sample_zfill:
  "zfill 4 2026 = ''2026''" "zfill 4 2025 = ''2025''" "zfill 4 (Suc 0) = ''0001''" "zfill 4 0 = ''0000''"
  "zfill 2 (Suc 0) = ''01''" "zfill 2 2 = ''02''" "zfill 2 12 = ''12''" "zfill 2 30 = ''30''" "zfill 2 31 = ''31''"
  by (simp_all add: zfill_def str_of_nat.simps sample_digits replicate_3)

text \<open>On the second of January there is no bar of the new year: the two newest ones are of the year before.\<close>

lemma yield_is_latest_witness:
  "\<exists>n x. fst (mkt_data_yield (default_conf (Date 2026 1 2)) ''10 year'' [] sample_env \<lparr>sent = []\<rparr>) =
     Inr (''10Y (UST-10Y-CMT) on 2025-12-31: 4.15%, from Treasury's par curve; up '' @ n @ '' bp from 4.12% on 2025-12-30. (2026-01-02 has no value: the latest on or before it is shown.)'') \<and>
     decimal_of n = Some x \<and> dec_value x = 3"
proof -
  let ?b = "(Date 2025 12 31, ''4.15'', ''UST-PAR'')" and ?p = "(Date 2025 12 30, ''4.12'', ''UST-PAR'')"
  let ?x = "Dec False 415 (-2)" and ?y = "Dec False 412 (-2)"
  have n: "instrument_name ''10 year'' = ''UST-10Y-CMT''" and t: "short_tenor ''UST-10Y-CMT'' = ''10Y''" by code_simp+
  have v: "valid_date (Date 2026 1 2)" "list_all (valid_date \<circ> fst) sample_bars" by code_simp+
  have s1: "serves_year sample_env (default_conf (Date 2026 1 2)) (instrument_name ''10 year'') (year_of (Date 2026 1 2)) []"
    by (simp add: serves_year_def sample_env_def sample_answer_def bars_request_def sample_zfill n)
  have s2: "serves_year sample_env (default_conf (Date 2026 1 2)) (instrument_name ''10 year'') (year_of (Date 2026 1 2) - 1) sample_bars"
    using v(2) by (simp add: serves_year_def sample_env_def sample_answer_def bars_request_def sample_zfill n)
  have y: "in_year (year_of (Date 2026 1 2)) []" "in_year (year_of (Date 2026 1 2) - 1) sample_bars"
    by (simp_all add: in_year_def sample_bars_def less_date_def less_eq_date_def)
  have d: "day_for (default_conf (Date 2026 1 2)) [] = Inr (Date 2026 1 2)"
    by (simp add: day_for_def default_conf_def strip_def strip_if_def lstrip_if_def rstrip_if_def)
  have newest: "newest_of (\<lambda>d. d \<le> Date 2026 1 2) (sample_bars @ []) ?b" "newest_of (\<lambda>d. d < fst ?b) (sample_bars @ []) ?p"
    by (simp_all add: newest_of_def sample_bars_def less_eq_date_def less_date_def)
  have dec: "decimal_of (fst (snd ?b)) = Some ?x" "decimal_of (fst (snd ?p)) = Some ?y" by code_simp+
  have "nat \<bar>aligned_sum ?x (dec_minus ?y)\<bar> < 10 ^ 26"
    by (simp add: aligned_sum_def coeff_at_def dec_minus_def)
  then obtain change where c: "change_said ?x ?y change"
      "fst (mkt_data_yield (default_conf (Date 2026 1 2)) ''10 year'' [] sample_env \<lparr>sent = []\<rparr>) =
        Inr (said_of_bar (instrument_name ''10 year'') (Date 2026 1 2) ?b
          (''; '' @ change @ '' from '' @ fst (snd ?p) @ ''% on '' @ isoformat (fst ?p)))"
    using yield_is_latest [OF d v(1) s1 y(1) s2 y(2), THEN conjunct2, THEN conjunct2] newest dec by blast
  have i: "isoformat (Date 2025 12 30) = ''2025-12-30''" "isoformat (Date 2025 12 31) = ''2025-12-31''"
    "isoformat (Date 2026 1 2) = ''2026-01-02''"
    by (simp_all add: isoformat_def sample_zfill)
  have "dec_value ?x = 415 / 100" "dec_value ?y = 412 / 100"
    by (simp_all add: dec_value_Dec power_int_def power2_eq_square)
  then obtain n x where nx: "change = ''up '' @ n @ '' bp''" "decimal_of n = Some x" "dec_value x = 3"
    using c(1) by (auto simp: change_said_def)
  show ?thesis
    unfolding c(2) using nx(2,3)
    by (intro exI [of _ n] exI [of _ x]) (simp add: nx(1) n t said_of_bar_def i [simplified] source_said_def get_or_def)
qed

end
