(* ===== verification/MktSecurities.thy ===== *)
theory MktSecurities
  imports MktYields Regex
begin

text \<open>
  \<open>compose/aws/home-mcp/mkt_data.py\<close>, Treasury securities and auctions: what a person says becomes a name that
  the gateway knows (a CUSIP, an on-the-run alias, or the one security with a coupon and a year),
  and a week becomes its days.
\<close>

section \<open>On-the-run names\<close>

definition bill_weeks :: "string dict" where
  "bill_weeks = [(''1'', ''4''), (''2'', ''8''), (''3'', ''13''), (''4'', ''17''), (''6'', ''26''), (''12'', ''52'')]"

definition is_gap :: "char \<Rightarrow> bool" where
  "is_gap c \<longleftrightarrow> is_space c \<or> c = CHR ''-''"

definition m_word :: "matcher \<Rightarrow> matcher" where
  "m_word m = m_cat [m_boundary, m, m_boundary]"

definition otr_words :: matcher where
  "otr_words = m_word (m_any (m_cat [m_lit ''ON'', m_star is_gap, m_lit ''THE'', m_star is_gap, m_lit ''RUN''] #
     map m_lit [''OTR'', ''CURRENT'', ''TREASURY'', ''UST'', ''NOTE'', ''BOND'']))"

definition plural_s :: "string \<Rightarrow> matcher" where
  "plural_s w = m_cat [m_lit w, m_opt (m_lit ''S'')]"

definition kind_words :: matcher where
  "kind_words = m_word (m_any [m_lit ''TIPS'', m_lit ''TII'', plural_s ''FRN'', plural_s ''FLOATER'', m_lit ''FLOATING'',
     m_lit ''RATE'', plural_s ''BILL'', m_lit ''T-BILL''])"

definition blank_out :: "matcher \<Rightarrow> string \<Rightarrow> string" where
  "blank_out m = re_sub (m_cat []) m (\<lambda>_. '' '')"

definition otr_suffix :: "string \<Rightarrow> string" where
  "otr_suffix t =
     (if re_search (m_word (m_any [m_lit ''TIPS'', m_lit ''TII''])) t then ''-TII''
      else if re_search (m_any [m_word (plural_s ''FRN''), m_lit ''FLOAT'']) t then ''-FRN''
      else [])"

definition says_bill :: "string \<Rightarrow> bool" where
  "says_bill t = re_search (m_any [m_word (plural_s ''BILL''), m_lit ''T-BILL'']) t"

definition bare_tenor :: "string \<Rightarrow> string" where
  "bare_tenor t =
     (let u = replace ''-OTR'' '' '' (blank_out otr_words (blank_out kind_words t)) in
      strip_if (\<lambda>c. c = CHR '' '' \<or> c = CHR ''-'') (join '' '' (split_ws (replace ''THE '' '' '' u))))"

text \<open>Months of a bill become weeks, and there is a bill of a year but of no more years.\<close>

definition otr_tenor :: "string \<Rightarrow> bool \<Rightarrow> string \<Rightarrow> string \<Rightarrow> (string \<times> string) option" where
  "otr_tenor sfx bill n u =
     (if u = ''M'' then map_option (\<lambda>w. (w, ''W'')) (map_of bill_weeks n)
      else if u = ''Y'' \<and> n = ''1'' \<and> sfx = [] then Some (''52'', ''W'')
      else if bill \<and> u = ''Y'' then None
      else Some (n, u))"

definition otr_name :: "string \<Rightarrow> string option" where
  "otr_name text =
     (let t = tidy text; sfx = otr_suffix t in
      case tenor_match (bare_tenor t) of
        None \<Rightarrow> None
      | Some (n, u) \<Rightarrow> map_option (\<lambda>(n', u'). ''UST-'' @ n' @ u' @ sfx @ ''-OTR'') (otr_tenor sfx (says_bill t) n (take 1 u)))"

section \<open>A coupon and a year\<close>

definition m_fraction :: matcher where
  "m_fraction = m_cat [m_plus is_digit, m_lit ''/'', m_plus is_digit]"

definition m_coupon :: matcher where
  "m_coupon = m_any [m_number, m_cat [m_plus is_digit, m_plus is_space, m_fraction], m_fraction]"

definition m_digits :: "nat \<Rightarrow> matcher" where
  "m_digits n = m_cat (replicate n (m_cls is_digit))"

definition m_between :: matcher where
  "m_between = m_cat [m_star is_space, m_opt (m_lit ''%''), m_star is_space, m_opt (m_lit ''S''), m_star is_space,
     m_opt (m_any [m_cat [m_lit ''OF'', m_plus is_space], m_cat [m_lit ''DUE'', m_plus is_space]]), m_opt (m_lit [CHR 0x27])]"

text \<open>The groups of \<open>_COUPON_YEAR\<close>, and of \<open>_FRACTION\<close>.\<close>

definition coupon_match :: "string \<Rightarrow> (string \<times> string) option" where
  "coupon_match s = first_of
     [(c, y). (c, p1) \<leftarrow> grab m_coupon ([], s), p2 \<leftarrow> m_between p1, (y, p3) \<leftarrow> grab (m_any [m_digits 4, m_digits 2]) p2,
        _ \<leftarrow> m_end p3]"

definition fraction_match :: "string \<Rightarrow> (string \<times> string \<times> string) option" where
  "fraction_match s = first_of
     [(w, a, b). (w, p1) \<leftarrow> grab (m_plus is_digit) ([], s), p2 \<leftarrow> m_plus is_space p1, (a, p3) \<leftarrow> grab (m_plus is_digit) p2,
        p4 \<leftarrow> m_lit ''/'' p3, (b, p5) \<leftarrow> grab (m_plus is_digit) p4, _ \<leftarrow> m_end p5]"

definition dec_str :: "string \<Rightarrow> py_exn + decimal" where
  "dec_str s = to_decimal (JStr s)"

definition divide :: "string \<Rightarrow> string \<Rightarrow> py_exn + decimal" where
  "divide a b = bindR (dec_str a) (\<lambda>x. bindR (dec_str b) (\<lambda>y. dec_div x y))"

definition coupon_of :: "string \<Rightarrow> py_exn + decimal" where
  "coupon_of c =
     (case fraction_match c of
        Some (w, a, b) \<Rightarrow> bindR (dec_str w) (\<lambda>x. bindR (divide a b) (\<lambda>y. Inr (dec_add x y)))
      | None \<Rightarrow> (case split_on (CHR ''/'') c of [a, b] \<Rightarrow> divide a b | _ \<Rightarrow> dec_str c))"

definition coupon_year :: "string \<Rightarrow> py_exn + (decimal \<times> nat) option" where
  "coupon_year text =
     (case coupon_match (join '' '' (split_ws (upper (strip text)))) of
        None \<Rightarrow> Inr None
      | Some (c, y) \<Rightarrow>
          bindR (coupon_of c) (\<lambda>d. Inr (Some (dec_normalize d,
            if length y = 4 then nat_of_str y else 2000 + nat_of_str y))))"

section \<open>Rates and amounts\<close>

text \<open>\<open>except ArithmeticError\<close>.\<close>

definition unless_arithmetic :: "string \<Rightarrow> py_exn + string \<Rightarrow> py_exn + string" where
  "unless_arithmetic other r = (case r of
      Inl (PyError n) \<Rightarrow> (if n \<in> {''InvalidOperation'', ''DivisionByZero''} then Inr other else r)
    | _ \<Rightarrow> r)"

definition percent :: "json \<Rightarrow> py_exn + string" where
  "percent rate =
     (if \<not> truthy rate then Inr []
      else unless_arithmetic (py_str rate)
        (bindR (to_decimal rate) (\<lambda>d. Inr (dec_text (dec_normalize (dec_mul d dec_100))))))"

definition billion :: decimal where
  "billion = Dec False 1000000000 0"

definition billions :: "json \<Rightarrow> py_exn + string" where
  "billions dollars =
     (if \<not> truthy dollars then Inr []
      else unless_arithmetic (''$'' @ py_str dollars)
        (bindR (to_decimal dollars) (\<lambda>d. bindR (dec_div d billion) (\<lambda>q. bindR (dec_tenths q) (\<lambda>b.
          Inr (''$'' @ dec_text (dec_normalize b) @ '' billion''))))))"

definition bid_to_cover :: "json \<Rightarrow> py_exn + string" where
  "bid_to_cover b = unless_arithmetic (py_str b) (bindR (to_decimal b) (\<lambda>d. Inr (dec_text (dec_normalize d))))"

text \<open>The first of some rates that an auction has.\<close>

fun first_rate :: "(string \<times> string) list \<Rightarrow> json \<Rightarrow> py_exn + string list" where
  "first_rate [] a = Inr []"
| "first_rate ((k, phrase) # ks) a =
     bindR (get_of JNull k a) (\<lambda>v.
     if truthy v then bindR (percent v) (\<lambda>p. Inr [phrase @ '' '' @ p @ ''%'']) else first_rate ks a)"

definition auction_rates :: "(string \<times> string) list" where
  "auction_rates = [(''high_yield'', ''high yield''), (''high_discount_rate'', ''high discount rate''),
     (''high_discount_margin'', ''high discount margin'')]"

definition auction_result :: "json \<Rightarrow> py_exn + string" where
  "auction_result a =
     bindR (first_rate auction_rates a) (\<lambda>rate.
     bindR (get_of JNull ''bid_to_cover'' a) (\<lambda>b.
     bindR (if truthy b then bindR (bid_to_cover b) (\<lambda>t. Inr [''bid-to-cover '' @ t]) else Inr []) (\<lambda>cover.
     Inr (join '', '' (rate @ cover)))))"

section \<open>Which security\<close>

definition cusip_rx :: rx where
  "cusip_rx = cats [times 3 (Cls is_digit), times 5 (Cls (\<lambda>c. is_digit c \<or> is_upper c)), Cls is_digit]"

definition has_coupon :: "decimal \<Rightarrow> json \<Rightarrow> py_exn + bool" where
  "has_coupon coupon r =
     bindR (get_of JNull ''coupon_display'' r) (\<lambda>c.
     if \<not> truthy c then Inr False
     else bindR (to_decimal c) (\<lambda>d. Inr (dec_value d = dec_value coupon)))"

definition has_coupon_no_tips :: "decimal \<Rightarrow> json \<Rightarrow> py_exn + bool" where
  "has_coupon_no_tips coupon r =
     bindR (has_coupon coupon r) (\<lambda>b.
     if b then bindR (item_of ''type'' r) (\<lambda>k. Inr (k \<noteq> JStr ''tips'')) else Inr False)"

definition coupon_hits :: "decimal \<Rightarrow> json list \<Rightarrow> py_exn + json list" where
  "coupon_hits coupon rows =
     bindR (filterR (has_coupon_no_tips coupon) rows) (\<lambda>hits.
     if hits \<noteq> [] then Inr hits else filterR (has_coupon coupon) rows)"

definition candidate :: "json \<Rightarrow> py_exn + string" where
  "candidate r =
     bindR (item_text ''name'' r) (\<lambda>n. bindR (item_text ''cusip'' r) (\<lambda>c. bindR (item_text ''type'' r) (\<lambda>k.
     Inr (n @ '' (CUSIP '' @ c @ '', '' @ k @ '')''))))"

text \<open>The one security among the rows, or why there is none.\<close>

definition the_hit :: "decimal \<Rightarrow> nat \<Rightarrow> json list \<Rightarrow> py_exn + (string + string)" where
  "the_hit coupon year hits =
     (case hits of
        [] \<Rightarrow> Inr (Inl (''No Treasury with a '' @ dec_text coupon @ ''% coupon matures in '' @ str_of_nat year @ ''.''))
      | [r] \<Rightarrow> bindR (key_text ''name'' r) (\<lambda>n. Inr (Inr n))
      | _ \<Rightarrow> bindR (mapR candidate (take 8 hits)) (\<lambda>cs.
          Inr (Inl (str_of_nat (length hits) @ '' Treasuries with a '' @ dec_text coupon @ ''% coupon mature in '' @
            str_of_nat year @ '': '' @ join ''; '' cs @ ''. Which one?''))))"

definition maturing_params :: "nat \<Rightarrow> json dict" where
  "maturing_params year =
     [(''maturing_from'', JStr (str_of_nat year @ ''-01-01'')), (''maturing_to'', JStr (str_of_nat year @ ''-12-31'')),
      (''include_inactive'', JStr ''true''), (''limit'', JStr ''6000'')]"

definition by_coupon :: "mkt_conf \<Rightarrow> decimal \<Rightarrow> nat \<Rightarrow> ('z net_scheme, string + string) web" where
  "by_coupon cf coupon year =
     bind (api cf ''/api/securities'' (maturing_params year)) (\<lambda>r.
     case r of
       Refused _ msg \<Rightarrow> ret (Inl msg)
     | Body b \<Rightarrow> liftR (bindR (bindR (item_of ''securities'' b) iter_of) (\<lambda>rows.
         bindR (coupon_hits coupon rows) (the_hit coupon year))))"

definition which_security :: string where
  "which_security = ''Which security? Say a CUSIP, a tenor like 10Y or 10Y TIPS, or a coupon and year like 4.25 2035.''"

definition resolve_security :: "mkt_conf \<Rightarrow> string \<Rightarrow> ('z net_scheme, string + string) web" where
  "resolve_security cf text =
     (let t = strip text; up = upper t in
      if t = [] then ret (Inl which_security)
      else if match_dollar cusip_rx up \<or> prefix ''UST-'' up then ret (Inr up)
      else case otr_name t of
          Some n \<Rightarrow> ret (Inr n)
        | None \<Rightarrow>
            bind (liftR (coupon_year t)) (\<lambda>cy. case cy of
              Some (coupon, year) \<Rightarrow> by_coupon cf coupon year
            | None \<Rightarrow> ret (Inr up)))"

section \<open>A security\<close>

definition price_source :: "string dict" where
  "price_source = [(''TD-PRICES'', ''FedInvest'')]"

definition still_valid :: "json \<Rightarrow> py_exn + bool" where
  "still_valid i = bindR (get_of JNull ''valid_to'' i) (\<lambda>v. Inr (\<not> truthy v))"

definition identifiers :: "json \<Rightarrow> py_exn + json dict" where
  "identifiers d =
     bindR (bindR (get_of (JList []) ''identifiers'' d) iter_of) (\<lambda>is1.
     bindR (filterR still_valid is1) (\<lambda>valid.
     bindR (mapR (\<lambda>i. bindR (key_text ''scheme'' i) (\<lambda>k. bindR (item_of ''value'' i) (\<lambda>v. Inr (k, v)))) valid) (\<lambda>kvs.
     Inr (dict_update [] kvs))))"

text \<open>The CUSIP is said once: not when the description has it already.\<close>

definition cusip_note :: "json \<Rightarrow> json \<Rightarrow> py_exn + string" where
  "cusip_note cusip described =
     (if \<not> truthy cusip then Inr []
      else bindR (text_of cusip) (\<lambda>c. bindR (text_of described) (\<lambda>s.
        Inr (if sublist c s then [] else '' (CUSIP '' @ c @ '')''))))"

definition head_line :: "json \<Rightarrow> json \<Rightarrow> json dict \<Rightarrow> py_exn + string" where
  "head_line d terms ids =
     bindR (item_text ''name'' d) (\<lambda>n.
     bindR (get_of JNull ''description'' d) (\<lambda>descr.
     bindR (if truthy descr then Inr descr else item_of ''type'' d) (\<lambda>described.
     bindR (get_of JNull ''cusip'' terms) (\<lambda>c.
     bindR (cusip_note (or_j (jget ''CUSIP'' ids) c) described) (\<lambda>note.
     bindR (item_text ''status'' d) (\<lambda>s. Inr (n @ note @ '': '' @ py_str described @ '', '' @ s @ ''.'')))))))"

definition capitalize :: "string \<Rightarrow> string" where
  "capitalize s = upper (take 1 s) @ lower (drop 1 s)"

definition term_date :: "string \<Rightarrow> string \<Rightarrow> json \<Rightarrow> py_exn + string list" where
  "term_date k phrase terms = bindR (get_of JNull k terms) (\<lambda>v. Inr (if truthy v then [phrase @ '' '' @ py_str v] else []))"

definition dates_line :: "json \<Rightarrow> py_exn + string list" where
  "dates_line terms =
     bindR (term_date ''issue_date'' ''issued'' terms) (\<lambda>a.
     bindR (term_date ''maturity_date'' ''matures'' terms) (\<lambda>b.
     Inr (if a @ b \<noteq> [] then [capitalize (join '', '' (a @ b)) @ ''.''] else [])))"

definition is_current :: "json \<Rightarrow> py_exn + bool" where
  "is_current r =
     bindR (get_of JNull ''until'' r) (\<lambda>u.
     if truthy u then Inr False
     else bindR (key_text ''alias'' r) (\<lambda>a. Inr (\<not> suffix ''-ISSUED'' a)))"

definition on_the_run_line :: "string \<Rightarrow> json \<Rightarrow> py_exn + string list" where
  "on_the_run_line name d =
     bindR (bindR (get_of (JList []) ''on_the_run'' d) iter_of) (\<lambda>rs.
     bindR (filterR is_current rs) (\<lambda>current.
     case current of
       c # _ \<Rightarrow>
         bindR (mapR (key_text ''alias'') current) (\<lambda>as.
         bindR (item_text ''since'' c) (\<lambda>s. Inr [''On the run as '' @ join '', '' as @ '' since '' @ s @ ''.'']))
     | [] \<Rightarrow> Inr (if suffix ''-OTR'' name then [''(That's today's '' @ name @ ''.)''] else [])))"

definition price_line :: "json \<Rightarrow> py_exn + string list" where
  "price_line d =
     bindR (get_of JNull ''price'' d) (\<lambda>p.
     if \<not> truthy p then Inr []
     else bindR (item_text ''display'' p) (\<lambda>v. bindR (item_text ''date'' p) (\<lambda>on.
       bindR (bindR (item_of ''source'' p) (known_as price_source)) (\<lambda>src.
       Inr [''Price '' @ v @ '' per 100 on '' @ on @ '', from '' @ src @ ''.'']))))"

definition ratio_line :: "json \<Rightarrow> py_exn + string list" where
  "ratio_line d =
     bindR (get_of JNull ''index_ratio'' d) (\<lambda>r.
     if \<not> truthy r then Inr []
     else bindR (get_of JNull ''ratio'' r) (\<lambda>a. bindR (get_of JNull ''index_ratio'' r) (\<lambda>b.
       Inr (if truthy (or_j a b) then [''Index ratio today '' @ py_str (or_j a b) @ ''.''] else []))))"

definition auctions_line :: "json \<Rightarrow> py_exn + string list" where
  "auctions_line d =
     bindR (get_of JNull ''auctions'' d) (\<lambda>v.
     if \<not> truthy v then Inr []
     else bindR (iter_of v) (\<lambda>as.
       bindR (get_text (JStr ''?'') ''auction_date'' (last as)) (\<lambda>on.
       bindR (auction_result (last as)) (\<lambda>result.
       Inr [str_of_nat (length as) @ '' auction'' @ plural (length as) @ ''; the last on '' @ on @
         (if result \<noteq> [] then '': '' @ result else []) @ ''.'']))))"

definition security_text :: "string \<Rightarrow> json \<Rightarrow> py_exn + string" where
  "security_text name d =
     bindR (get_dict ''terms'' d) (\<lambda>terms.
     bindR (identifiers d) (\<lambda>ids.
     bindR (head_line d terms ids) (\<lambda>head.
     bindR (dates_line terms) (\<lambda>dates.
     bindR (on_the_run_line name d) (\<lambda>run.
     bindR (price_line d) (\<lambda>price.
     bindR (ratio_line d) (\<lambda>ratio.
     bindR (auctions_line d) (\<lambda>auctions.
     Inr (join '' '' (head # dates @ run @ price @ ratio @ auctions))))))))))"

definition no_security :: "string \<Rightarrow> string" where
  "no_security name = ''There's no Treasury security '' @ name @
     ''. Try a CUSIP, a tenor like 10Y, or a coupon and year like 4.25 2035.''"

definition mkt_data_security :: "mkt_conf \<Rightarrow> string \<Rightarrow> ('z net_scheme, string) web" where
  "mkt_data_security cf security =
     bind (resolve_security cf security) (\<lambda>r. case r of
       Inl why \<Rightarrow> ret why
     | Inr name \<Rightarrow> bind (api cf (''/api/securities/'' @ name) []) (\<lambda>a. case a of
         Refused n msg \<Rightarrow> ret (if n = 404 then no_security name else msg)
       | Body d \<Rightarrow> liftR (security_text name d)))"

section \<open>Auctions\<close>

definition week_shift :: "string \<Rightarrow> int option" where
  "week_shift w = map_of [(''this'', 0), (''next'', 1), (''last'', -1), (''previous'', -1)] w"

text \<open>\<open>date.fromordinal(d.toordinal() + n)\<close>.\<close>

definition move_days :: "date \<Rightarrow> int \<Rightarrow> date" where
  "move_days d n = (if 0 \<le> n then add_days d (nat n) else sub_days d (nat (- n)))"

definition week_word :: "string \<Rightarrow> string" where
  "week_word which1 =
     (let w = strip (removesuffix '' week'' (lower (strip which1))) in if w = [] then ''this'' else w)"

definition week :: "mkt_conf \<Rightarrow> string \<Rightarrow> string + date \<times> date" where
  "week cf which1 =
     (let today = today_ny cf
      in case week_shift (week_word which1) of
           None \<Rightarrow> Inl (''I need week as this, next or last, not '' @ repr_str which1 @ ''.'')
         | Some k \<Rightarrow>
             (let monday = move_days today (7 * k - int (weekday today)) in Inr (monday, move_days monday 4)))"

text \<open>The days from \<open>start\<close> to \<open>end\<close>, of which one may be missing, or of a week.\<close>

definition auction_span :: "mkt_conf \<Rightarrow> string \<Rightarrow> string \<Rightarrow> string \<Rightarrow> string + date \<times> date" where
  "auction_span cf which1 start stop =
     (if strip start = [] \<and> strip stop = [] then week cf which1
      else if strip start = [] then bindR (day_for cf stop) (\<lambda>d. Inr (d, d))
      else if strip stop = [] then bindR (day_for cf start) (\<lambda>d. Inr (d, d))
      else bindR (day_for cf start) (\<lambda>lo. bindR (day_for cf stop) (\<lambda>hi. Inr (lo, hi))))"

definition day_names :: "string list" where
  "day_names = [''Mon'', ''Tue'', ''Wed'', ''Thu'', ''Fri'', ''Sat'', ''Sun'']"

definition month_names :: "string list" where
  "month_names = [''Jan'', ''Feb'', ''Mar'', ''Apr'', ''May'', ''Jun'', ''Jul'', ''Aug'', ''Sep'', ''Oct'', ''Nov'', ''Dec'']"

definition short_day :: "date \<Rightarrow> string" where
  "short_day d = day_names ! weekday d @ '' '' @ month_names ! (month_of d - 1) @ '' '' @ str_of_nat (day_of d)"

definition auction_day :: "json \<Rightarrow> py_exn + string" where
  "auction_day a =
     bindR (get_of JNull ''auction_date'' a) (\<lambda>v.
     if \<not> truthy v then Inr ''?''
     else bindR (text_of v) (\<lambda>s. case read_date s of Some d \<Rightarrow> Inr (short_day d) | None \<Rightarrow> Inl (PyError ''ValueError'')))"

definition security_kinds :: "string dict" where
  "security_kinds = [(''bill'', ''bill''), (''note'', ''note''), (''bond'', ''bond''), (''tips'', ''TIPS''), (''frn'', ''FRN'')]"

definition auction_line :: "json \<Rightarrow> py_exn + string" where
  "auction_line a =
     bindR (auction_day a) (\<lambda>day.
     bindR (bindR (item_of ''type'' a) (known_as security_kinds)) (\<lambda>kind.
     bindR (item_text ''term'' a) (\<lambda>t.
     bindR (get_of JNull ''reopening'' a) (\<lambda>re.
     bindR (item_text ''security'' a) (\<lambda>s.
     bindR (bindR (get_of (JStr []) ''offering_amount'' a) billions) (\<lambda>amount.
     bindR (get_of JNull ''held'' a) (\<lambda>held.
     bindR (if truthy held then auction_result a else Inr []) (\<lambda>result.
     Inr (''- '' @ day @ '': '' @ t @ '' '' @ kind @ (if truthy re then '' reopening'' else []) @ '' ('' @ s @ '')'' @
       (if amount \<noteq> [] then '', '' @ amount else []) @
       (if truthy held then ''; '' @ (if result \<noteq> [] then result else ''held'') else []) @ ''.'')))))))))"

definition auctions_text :: "json \<Rightarrow> py_exn + string" where
  "auctions_text body =
     bindR (item_of ''auctions'' body) (\<lambda>v.
     bindR (item_text ''start'' body) (\<lambda>a.
     bindR (item_text ''end'' body) (\<lambda>b.
     let when1 = a @ '' to '' @ b in
     if \<not> truthy v then Inr (''No Treasury auctions from '' @ when1 @ ''.'')
     else bindR (iter_of v) (\<lambda>rows.
       bindR (mapR auction_line rows) (\<lambda>ls.
       Inr (join [newline] ((str_of_nat (length rows) @ '' Treasury auction'' @ plural (length rows) @ '' from '' @ when1 @ '':'') # ls)))))))"

definition mkt_data_auctions :: "mkt_conf \<Rightarrow> string \<Rightarrow> string \<Rightarrow> string \<Rightarrow> ('z net_scheme, string) web" where
  "mkt_data_auctions cf which1 start stop =
     (case auction_span cf which1 start stop of
        Inl msg \<Rightarrow> ret msg
      | Inr (lo, hi) \<Rightarrow>
          bind (api cf ''/api/auctions'' [(''start'', JStr (isoformat lo)), (''end'', JStr (isoformat hi))]) (said auctions_text))"

section \<open>The days of a week\<close>

lemma first_year: "proper d \<Longrightarrow> year_of d \<le> 1 \<Longrightarrow> toordinal d \<le> 366"
proof -
  assume p: "proper d" and y: "year_of d \<le> 1"
  have "toordinal d < toordinal (Date 2 1 1)"
    using p y by (intro toordinal_less_iff [THEN iffD2]) (auto simp: proper_def less_date_def less_eq_date_def days_in_month_def)
  then show ?thesis by (simp add: toordinal_def days_before_year_def)
qed

lemma sub_days_ordinal:
  "proper d \<Longrightarrow> n + 366 < toordinal d \<Longrightarrow> proper (sub_days d n) \<and> toordinal (sub_days d n) + n = toordinal d"
proof (induction n)
  case (Suc n)
  let ?d = "sub_days d n"
  have ih: "proper ?d" "toordinal ?d + n = toordinal d" using Suc by simp_all
  then have "1 < year_of ?d" using first_year [of ?d] Suc.prems(2) by linarith
  note step = next_prev_day [OF ih(1) this]
  have "toordinal ?d = toordinal (prev_day ?d) + 1"
    using toordinal_next_day [of "prev_day ?d"] step by (auto simp: proper_def)
  then show ?case using ih step(2) by (simp add: sub_days_def)
qed (simp add: sub_days_def)

lemma move_days_ordinal:
  assumes "proper d" and "nat (- n) + 366 < toordinal d"
  shows "proper (move_days d n)" and "int (toordinal (move_days d n)) = int (toordinal d) + n"
  using sub_days_ordinal [OF assms] assms by (auto simp: move_days_def proper_add_days toordinal_add_days)

text \<open>C40: A week that is named by a word is its Monday to its Friday: of the week of seven days that today is
  in, shifted by as many weeks as the word says (\<open>this\<close>, \<open>next\<close>, \<open>last\<close> or \<open>previous\<close>, with or without
  \<open>week\<close>).\<close>

theorem week_days:
  assumes "valid_date (today_ny cf)" and "400 < toordinal (today_ny cf)" and "week cf w = Inr (monday, friday)"
  shows "weekday monday = 0 \<and> weekday friday = 4 \<and> toordinal friday = toordinal monday + 4 \<and>
    (\<exists>k. week_shift (week_word w) = Some k \<and> int (toordinal monday) \<le> int (toordinal (today_ny cf)) + 7 * k \<and>
       int (toordinal (today_ny cf)) + 7 * k < int (toordinal monday) + 7)"
proof -
  let ?t = "today_ny cf"
  obtain k where v: "week_shift (week_word w) = Some k"
      and m: "monday = move_days ?t (7 * k - int (weekday ?t))" and f: "friday = move_days monday 4"
    using assms(3) unfolding week_def Let_def by (auto split: option.splits)
  have k: "k \<in> {-1, 0, 1}"
    using map_of_SomeD [OF v [unfolded week_shift_def]] by simp blast
  have p: "proper ?t" using assms(1) by (simp add: valid_date_proper)
  have w: "weekday ?t < 7" by (simp add: weekday_def)
  then have "nat (- (7 * k - int (weekday ?t))) + 366 < toordinal ?t" using assms(2) k by auto
  note o = move_days_ordinal [OF p this]
  have mo: "proper monday" "int (toordinal monday) = int (toordinal ?t) + 7 * k - int (weekday ?t)"
    using o by (simp_all add: m)
  have fo: "toordinal friday = toordinal monday + 4"
    using mo(1) by (simp add: f move_days_def toordinal_add_days)
  have "(int (toordinal monday) + 6) mod 7 = 0"
  proof -
    have "int (weekday ?t) = (int (toordinal ?t) + 6) mod 7"
      by (simp add: weekday_def zmod_int)
    then show ?thesis unfolding mo(2) by presburger
  qed
  then have "weekday monday = 0"
    unfolding weekday_def by presburger
  moreover have "weekday friday = 4"
    using calculation unfolding weekday_def fo by presburger
  ultimately show ?thesis
    using fo mo(2) w v by (intro conjI exI [of _ k]) auto
qed

lemma week_days_witness:
  "week (default_conf (Date 2026 10 9)) ''next week'' = Inr (Date 2026 10 12, Date 2026 10 16) \<and>
   weekday (Date 2026 10 12) = 0 \<and> weekday (Date 2026 10 16) = 4"
proof -
  have o: "toordinal (Date 2026 10 9) = 739898"
    by (simp add: toordinal_def days_before_year_def days_before_month_def days_in_month_def leap_def upt_rec)
  have v: "valid_date (today_ny (default_conf (Date 2026 10 9)))" by code_simp
  have "week_word ''next week'' = ''next''" by code_simp
  moreover have m: "move_days (Date 2026 10 9) 3 = Date 2026 10 12" "move_days (Date 2026 10 12) 4 = Date 2026 10 16"
    by code_simp+
  ultimately have w: "week (default_conf (Date 2026 10 9)) ''next week'' = Inr (Date 2026 10 12, Date 2026 10 16)"
    unfolding week_def Let_def by (simp add: week_shift_def default_conf_def weekday_def o)
  show ?thesis
    using week_days [OF v _ w] w by (simp add: default_conf_def o)
qed

section \<open>A coupon and a year name one security\<close>

lemma filterR_Inr: "filterR p xs = Inr ys \<Longrightarrow> ys = filter (\<lambda>x. p x = Inr True) xs"
proof -
  have "mapR (\<lambda>x. bindR (p x) (\<lambda>b. Inr (x, b))) xs = Inr zs \<Longrightarrow> map fst (filter snd zs) = filter (\<lambda>x. p x = Inr True) xs" for zs
  proof (induction xs arbitrary: zs)
    case (Cons x xs)
    then show ?case by (cases "p x") (auto simp: result_simps)
  qed simp
  then show "filterR p xs = Inr ys \<Longrightarrow> ys = filter (\<lambda>x. p x = Inr True) xs"
    by (auto simp: filterR_def bindR_Inr)
qed

lemma the_hit_one: "the_hit coupon y hits = Inr (Inr n) \<Longrightarrow> \<exists>r. hits = [r] \<and> key_text ''name'' r = Inr n"
  by (auto simp: the_hit_def bindR_Inr split: list.splits)

lemma coupon_match_samples:
  "coupon_match ''4 1/4S OF 35'' = Some (''4 1/4'', ''35'')" "coupon_match ''4.25% 2035'' = Some (''4.25'', ''2035'')"
  "fraction_match ''4 1/4'' = Some (''4'', ''1'', ''4'')" "coupon_match ''425'' = Some (''4'', ''25'')"
  by code_simp+

text \<open>C30: A coupon and a year are turned into a name only when the answer has exactly one security with that
  coupon, protected ones (TIPS) apart: the only one that is no TIPS, or else the only one at all.\<close>

theorem coupon_names_one:
  assumes "by_coupon cf coupon y e w = (Inr (Inr n), w')"
  shows "\<exists>a b rows r. answer e (length (sent w)) (Request ''GET'' (mkt_api_url cf @ ''/api/securities'') (maturing_params y) None None) = Inr a \<and>
    resp_status a = 200 \<and> loads e (resp_text a) = Some b \<and>
    bindR (item_of ''securities'' b) iter_of = Inr rows \<and> r \<in> set rows \<and> key_text ''name'' r = Inr n \<and> has_coupon coupon r = Inr True \<and>
    (let plain = filter (\<lambda>x. has_coupon_no_tips coupon x = Inr True) rows;
         every = filter (\<lambda>x. has_coupon coupon x = Inr True) rows
     in plain = [r] \<or> plain = [] \<and> every = [r])"
proof -
  let ?q = "Request ''GET'' (mkt_api_url cf @ ''/api/securities'') (maturing_params y) None None"
  obtain a where a: "answer e (length (sent w)) ?q = Inr a"
    using assms by (cases "answer e (length (sent w)) ?q")
      (auto simp: by_coupon_def api_def asked_def catch_http_def try_catch_def bind_def send_def ask_def ret_def raise_def
        split: if_splits)
  have st: "resp_status a = 200"
    using assms a
    by (cases "resp_status a = 200") (auto simp: by_coupon_def api_def asked_def catch_http_def try_catch_def bind_def send_def ask_def ret_def reply_of_def Let_def)
  define body where "body = (case loads e (resp_text a) of Some j \<Rightarrow> j | None \<Rightarrow> JObj [])"
  have "bindR (bindR (item_of ''securities'' body) iter_of) (\<lambda>rows. bindR (coupon_hits coupon rows) (the_hit coupon y)) = Inr (Inr n)"
    using assms a st
    by (auto simp: by_coupon_def api_def asked_def catch_http_def try_catch_def bind_def send_def ask_def ret_def reply_of_def
        Let_def body_def liftR_def)
  then obtain rows hits where r: "bindR (item_of ''securities'' body) iter_of = Inr rows" "coupon_hits coupon rows = Inr hits"
      "the_hit coupon y hits = Inr (Inr n)"
    by (auto simp: bindR_Inr)
  have b: "loads e (resp_text a) = Some body"
    using r(1) by (cases "loads e (resp_text a)") (simp_all add: body_def item_of_def)
  obtain r where h: "hits = [r]" "key_text ''name'' r = Inr n"
    using the_hit_one [OF r(3)] by blast
  define plain where "plain = filter (\<lambda>x. has_coupon_no_tips coupon x = Inr True) rows"
  define every where "every = filter (\<lambda>x. has_coupon coupon x = Inr True) rows"
  have "plain = [r] \<or> plain = [] \<and> every = [r]"
    using r(2) unfolding coupon_hits_def bindR_Inr plain_def every_def
    by (auto simp: h(1) dest!: filterR_Inr split: if_splits)
  moreover have "has_coupon coupon x = Inr True" if "x \<in> set plain" for x
    using that by (auto simp: plain_def has_coupon_no_tips_def bindR_Inr split: if_splits)
  moreover have "set plain \<subseteq> set rows" "set every \<subseteq> set rows" "\<And>x. x \<in> set every \<Longrightarrow> has_coupon coupon x = Inr True"
    by (auto simp: plain_def every_def)
  ultimately have "r \<in> set rows \<and> has_coupon coupon r = Inr True"
    by auto
  then show ?thesis
    using a st b r(1) h(2) \<open>plain = [r] \<or> plain = [] \<and> every = [r]\<close> unfolding plain_def every_def Let_def by blast
qed

definition sample_row :: "string \<Rightarrow> string \<Rightarrow> json" where
  "sample_row name kind = JObj [(''name'', JStr name), (''type'', JStr kind), (''coupon_display'', JStr ''4.250'')]"

definition sample_rows :: "json list" where
  "sample_rows = [sample_row ''UST-A'' ''tips'', sample_row ''UST-B'' ''note'']"

definition coupon_env :: http_env where
  "coupon_env = \<lparr>answer = (\<lambda>_ _. Inr (Response 200 [] [])), loads = (\<lambda>_. Some (JObj [(''securities'', JList sample_rows)])),
     yaml = (\<lambda>_. None), mono = 0, wall = 0\<rparr>"

lemma coupon_names_one_witness:
  "(\<exists>w'. by_coupon (default_conf (Date 2026 10 9)) (Dec False 425 (-2)) 2035 coupon_env \<lparr>sent = []\<rparr> = (Inr (Inr ''UST-B''), w')) \<and>
   (\<exists>r. key_text ''name'' r = Inr ''UST-B'' \<and> has_coupon (Dec False 425 (-2)) r = Inr True)"
proof -
  have d: "decimal_of ''4.250'' = Some (Dec False 4250 (-3))" by code_simp
  have "\<exists>w'. by_coupon (default_conf (Date 2026 10 9)) (Dec False 425 (-2)) 2035 coupon_env \<lparr>sent = []\<rparr> = (Inr (Inr ''UST-B''), w')"
    by (simp add: by_coupon_def api_def asked_def catch_http_def try_catch_def bind_def send_def ask_def ret_def reply_of_def
        liftR_def coupon_env_def item_of_def iter_of_def sample_rows_def sample_row_def coupon_hits_def filterR_def
        has_coupon_no_tips_def has_coupon_def get_of_def get_or_def to_decimal_def d dec_value_def scale10_def the_hit_def
        key_text_def text_of_def)
  moreover from this obtain w' where "by_coupon (default_conf (Date 2026 10 9)) (Dec False 425 (-2)) 2035 coupon_env \<lparr>sent = []\<rparr> =
      (Inr (Inr ''UST-B''), w')" by blast
  note coupon_names_one [OF this]
  ultimately show ?thesis
    by blast
qed

end
