(* ===== verification/MktFutures.thy ===== *)
theory MktFutures
  imports MktSecurities
begin

text \<open>
  \<open>compose/aws/home-mcp/mkt_data.py\<close>, the last part: futures products and their contracts, the basket of a
  Treasury contract, the positioning that the CFTC reports, and fixings.
\<close>

section \<open>Products\<close>

definition futures_kind :: "string dict" where
  "futures_kind = [(''treasury'', ''deliverable Treasury''), (''treasury_cash'', ''cash-settled Treasury''), (''stir'', ''interest rate''),
     (''fx'', ''deliverable FX''), (''fx_cash'', ''cash-settled FX'')]"

definition upper_item :: "string \<Rightarrow> json \<Rightarrow> py_exn + string" where
  "upper_item k j = bindR (key_text k j) (\<lambda>s. Inr (upper s))"

definition has_code :: "string \<Rightarrow> json \<Rightarrow> py_exn + bool" where
  "has_code want p =
     bindR (upper_item ''root'' p) (\<lambda>r. bindR (upper_item ''cme_code'' p) (\<lambda>c. Inr (want = r \<or> want = c)))"

fun first_with :: "('a \<Rightarrow> 'e + bool) \<Rightarrow> 'a list \<Rightarrow> 'e + 'a option" where
  "first_with p [] = Inr None"
| "first_with p (x # xs) = bindR (p x) (\<lambda>b. if b then Inr (Some x) else first_with p xs)"

definition has_name :: "string \<Rightarrow> json \<Rightarrow> py_exn + bool" where
  "has_name want p =
     (if want = [] then Inr False else bindR (upper_item ''name'' p) (\<lambda>n. Inr (sublist want n)))"

text \<open>A product by its root or CME code, or by a word of its name if only one has it.\<close>

definition pick_product :: "string \<Rightarrow> json list \<Rightarrow> py_exn + (string + json)" where
  "pick_product text ps =
     (let want = upper (strip text) in
      bindR (first_with (has_code want) ps) (\<lambda>r.
      case r of
        Some p \<Rightarrow> Inr (Inr p)
      | None \<Rightarrow>
          bindR (filterR (has_name want) ps) (\<lambda>named.
          case named of
            [] \<Rightarrow> Inr (Inl (''There's no futures product '' @ repr_str text @ ''. Try a root like TY or a CME code like ZN.''))
          | [p] \<Rightarrow> Inr (Inr p)
          | _ \<Rightarrow> bindR (mapR (key_text ''root'') named) (\<lambda>rs.
              Inr (Inl (repr_str text @ '' could be '' @ join '', '' rs @ ''. Which one?''))))))"

definition futures_root :: "mkt_conf \<Rightarrow> string \<Rightarrow> ('z net_scheme, string + json) web" where
  "futures_root cf text =
     bind (api cf ''/api/futures'' []) (\<lambda>r. case r of
       Refused _ msg \<Rightarrow> ret (Inl msg)
     | Body b \<Rightarrow> liftR (bindR (iter_of b) (pick_product text)))"

text \<open>The format \<open>:,\<close> of a whole number.\<close>

fun grouped :: "string \<Rightarrow> string" where
  "grouped (a # b # c # d # s) = a # b # c # CHR '','' # grouped (d # s)"
| "grouped s = s"

definition commas :: "int \<Rightarrow> string" where
  "commas n = (if n < 0 then ''-'' else []) @ rev (grouped (rev (str_of_nat (nat \<bar>n\<bar>))))"

definition contracts :: "int \<Rightarrow> string" where
  "contracts n = commas n @ '' contract'' @ (if n \<noteq> 1 then ''s'' else [])"

text \<open>The products by kind, in the order in which the kinds come.\<close>

definition product_entry :: "json \<Rightarrow> py_exn + string \<times> string" where
  "product_entry p =
     bindR (key_text ''kind'' p) (\<lambda>k.
     bindR (item_text ''root'' p) (\<lambda>r.
     bindR (item_of ''front'' p) (\<lambda>f.
     bindR (if truthy f then Inr f else item_of ''status'' p) (\<lambda>s.
     Inr (k, r @ '' ('' @ py_str s @ '')'')))))"

definition add_entry :: "string \<times> string \<Rightarrow> string list dict \<Rightarrow> string list dict" where
  "add_entry kv d = AList.update (fst kv) (get_or [] (fst kv) d @ [snd kv]) d"

definition kind_line :: "string \<times> string list \<Rightarrow> string" where
  "kind_line kv =
     (let k = get_or (fst kv) (fst kv) futures_kind
      in ''- '' @ upper (take 1 k) @ drop 1 k @ '': '' @ join '', '' (snd kv) @ ''.'')"

definition products_text :: "json \<Rightarrow> py_exn + string" where
  "products_text body =
     bindR (iter_of body) (\<lambda>ps.
     bindR (mapR product_entry ps) (\<lambda>es.
     Inr (join [newline] ((str_of_nat (length ps) @ '' futures products, with today's front contract:'') #
       map kind_line (fold add_entry es [])))))"

section \<open>One product\<close>

definition generic_text :: "json \<Rightarrow> py_exn + string" where
  "generic_text g = bindR (item_text ''generic'' g) (\<lambda>a. bindR (item_text ''contract'' g) (\<lambda>b. Inr (a @ '' is '' @ b)))"

definition generics_line :: "json \<Rightarrow> py_exn + string list" where
  "generics_line d =
     bindR (item_of ''generics'' d) (\<lambda>v.
     if \<not> truthy v then Inr []
     else bindR (iter_of v) (\<lambda>gs. bindR (mapR generic_text (take 3 gs)) (\<lambda>ts.
       Inr [''Generics today: '' @ join '', '' ts @ ''.''])))"

definition is_front :: "json \<Rightarrow> json \<Rightarrow> py_exn + bool" where
  "is_front front c = bindR (item_of ''name'' c) (\<lambda>n. Inr (n = front))"

definition date_labels :: "(string \<times> string) list" where
  "date_labels = [(''last_trade_date'', ''last trade''), (''first_notice_date'', ''first notice''),
     (''final_settlement_date'', ''final settlement''), (''last_delivery_date'', ''last delivery'')]"

definition dated_label :: "json \<Rightarrow> string \<times> string \<Rightarrow> py_exn + string list" where
  "dated_label c kl =
     bindR (get_of JNull (fst kl) c) (\<lambda>v. Inr (if truthy v then [snd kl @ '' '' @ py_str v] else []))"

definition front_lines :: "json \<Rightarrow> py_exn + string list" where
  "front_lines c =
     bindR (mapR (dated_label c) date_labels) (\<lambda>ds.
     bindR (if concat ds \<noteq> [] then bindR (item_text ''name'' c) (\<lambda>n. Inr [n @ '': '' @ join '', '' (concat ds) @ ''.''])
            else Inr []) (\<lambda>dates.
     bindR (get_of JNull ''basket_size'' c) (\<lambda>b.
     Inr (dates @ (if b \<noteq> JNull then [''Its basket has '' @ py_str b @ '' deliverable securities.''] else [])))))"

definition product_head :: "json \<Rightarrow> py_exn + string" where
  "product_head d =
     bindR (item_text ''root'' d) (\<lambda>r.
     bindR (item_text ''cme_code'' d) (\<lambda>c.
     bindR (item_text ''name'' d) (\<lambda>n.
     bindR (bindR (item_of ''kind'' d) (known_as futures_kind)) (\<lambda>k.
     bindR (item_text ''currency'' d) (\<lambda>cur.
     Inr (r @ '' (CME '' @ c @ ''): '' @ n @ '', '' @ k @ '', in '' @ cur @ ''.''))))))"

definition product_text :: "json \<Rightarrow> py_exn + string" where
  "product_text d =
     bindR (product_head d) (\<lambda>head.
     bindR (generics_line d) (\<lambda>generics.
     bindR (bindR (item_of ''contracts'' d) iter_of) (\<lambda>cs.
     bindR (if cs = [] then Inr None else bindR (item_of ''front'' d) (\<lambda>f. first_with (is_front f) cs)) (\<lambda>front.
     bindR (case front of Some c \<Rightarrow> if truthy c then front_lines c else Inr [] | None \<Rightarrow> Inr []) (\<lambda>fl.
     bindR (item_of ''cftc_code'' d) (\<lambda>cftc.
     Inr (join '' '' (head # generics @ fl @
       (if truthy cftc then [] else [''The CFTC doesn't report its positioning.''])))))))))"

definition mkt_data_futures :: "mkt_conf \<Rightarrow> string \<Rightarrow> ('z net_scheme, string) web" where
  "mkt_data_futures cf product =
     (if strip product = [] then bind (api cf ''/api/futures'' []) (said products_text)
      else bind (futures_root cf product) (\<lambda>r. case r of
          Inl why \<Rightarrow> ret why
        | Inr p \<Rightarrow> bind (liftR (item_text ''root'' p)) (\<lambda>root.
            bind (api cf (''/api/futures/'' @ root) []) (said product_text))))"

section \<open>The basket of a contract\<close>

definition month_codes :: string where
  "month_codes = ''FGHJKMNQUVXZ''"

definition contract_rx :: rx where
  "contract_rx = cats [Cls (\<lambda>c. is_upper c \<or> is_digit c), upto 3 (Cls (\<lambda>c. is_upper c \<or> is_digit c)),
     Cls (\<lambda>c. c \<in> set month_codes), times 2 (Cls is_digit)]"

text \<open>A contract as it is, and the front contract of a product.\<close>

definition front_contract :: "mkt_conf \<Rightarrow> string \<Rightarrow> ('z net_scheme, string + string) web" where
  "front_contract cf contract =
     (let name = upper (strip contract) in
      if full_match contract_rx name then ret (Inr name)
      else bind (futures_root cf contract) (\<lambda>r. case r of
          Inl why \<Rightarrow> ret (Inl why)
        | Inr p \<Rightarrow> liftR (bindR (item_of ''front'' p) (\<lambda>f.
            if truthy f then bindR (text_of f) (\<lambda>n. Inr (Inr n))
            else bindR (item_text ''root'' p) (\<lambda>root. Inr (Inl (root @ '' has no contract listed today.'')))))))"

definition deliverable_line :: "json \<Rightarrow> py_exn + string" where
  "deliverable_line x =
     bindR (item_text ''security'' x) (\<lambda>s. bindR (item_text ''cusip'' x) (\<lambda>c. bindR (item_text ''conversion_factor'' x) (\<lambda>f.
     Inr (''- '' @ s @ '' (CUSIP '' @ c @ ''): conversion factor '' @ f @ ''.''))))"

definition basket_text :: "json \<Rightarrow> py_exn + string" where
  "basket_text b =
     bindR (item_of ''deliverables'' b) (\<lambda>v.
     bindR (item_text ''contract'' b) (\<lambda>c.
     bindR (item_text ''month'' b) (\<lambda>m.
     if \<not> truthy v then Inr (c @ '' ('' @ m @ '') has no deliverable securities yet.'')
     else bindR (iter_of v) (\<lambda>ds.
       bindR (item_text ''status'' b) (\<lambda>s.
       bindR (item_text ''rule'' b) (\<lambda>rule.
       bindR (mapR deliverable_line (if length ds \<le> 6 then ds else [hd ds, last ds])) (\<lambda>ls.
       Inr (join [newline] (
         (c @ '' ('' @ m @ '', '' @ s @ ''): '' @ str_of_nat (length ds) @ '' deliverable securit'' @
           (if 1 < length ds then ''ies'' else ''y'') @ '', '' @ rule @ ''.'') #
         (if 6 < length ds then [''The shortest and the longest:''] else []) @ ls)))))))))"

definition no_basket :: "string \<Rightarrow> string" where
  "no_basket name = ''There's no basket for '' @ name @ '': only deliverable Treasury contracts have one.''"

definition mkt_data_basket :: "mkt_conf \<Rightarrow> string \<Rightarrow> ('z net_scheme, string) web" where
  "mkt_data_basket cf contract =
     bind (front_contract cf contract) (\<lambda>r. case r of
       Inl why \<Rightarrow> ret why
     | Inr name \<Rightarrow> bind (api cf (''/api/futures/contracts/'' @ name @ ''/basket'') []) (\<lambda>a. case a of
         Refused n msg \<Rightarrow> ret (if n = 404 then no_basket name else msg)
       | Body b \<Rightarrow> liftR (basket_text b)))"

section \<open>Positioning\<close>

definition positioning_groups :: "(string \<times> string) list" where
  "positioning_groups = [(''dealer'', ''Dealers''), (''asset_mgr'', ''Asset managers''), (''lev_funds'', ''Leveraged funds''),
     (''other'', ''Other reportables''), (''nonrept'', ''Nonreportable'')]"

definition positioning_report :: "string dict" where
  "positioning_report = [(''futures'', ''CFTC-TFF''), (''combined'', ''CFTC-TFF-COMBINED'')]"

definition rows_of :: "string \<Rightarrow> json \<Rightarrow> py_exn + json list" where
  "rows_of field f = bindR (get_of (JList []) field f) iter_of"

text \<open>The first value of a field for a day.\<close>

definition value_on :: "json \<Rightarrow> string \<Rightarrow> string \<Rightarrow> py_exn + decimal option" where
  "value_on f field day =
     bindR (rows_of field f) (\<lambda>xs.
     bindR (first_with (\<lambda>x. bindR (key_text ''date'' x) (\<lambda>d. Inr (d = day))) xs) (\<lambda>r.
     case r of
       None \<Rightarrow> Inr None
     | Some x \<Rightarrow> bindR (item_of ''value'' x) (\<lambda>v.
         if v = JNull then Inr None else bindR (to_decimal v) (\<lambda>d. Inr (Some d)))))"

definition report_weeks :: "json \<Rightarrow> py_exn + string list" where
  "report_weeks f = bindR (rows_of ''oi'' f) (\<lambda>xs. bindR (mapR (key_text ''date'') xs) (\<lambda>ds. Inr (sorted_set ds)))"

definition week_change :: "decimal \<Rightarrow> decimal option \<Rightarrow> decimal option \<Rightarrow> string \<Rightarrow> string" where
  "week_change net pl ps prior =
     (case (pl, ps) of
        (Some l, Some s) \<Rightarrow>
          (if prior = [] then []
           else let change = dec_int (dec_sub net (dec_sub l s)) in
             if change = 0 then '' (unchanged on the week)''
             else '' ('' @ commas \<bar>change\<bar> @ '' '' @ (if 0 < change then ''longer'' else ''shorter'') @ '' on the week)'')
      | _ \<Rightarrow> [])"

definition net_text :: "decimal \<Rightarrow> string" where
  "net_text net = (if 0 \<le> dec_value net then ''long'' else ''short'') @ '' '' @ commas \<bar>dec_int net\<bar>"

definition group_line :: "json \<Rightarrow> string \<Rightarrow> string \<Rightarrow> string \<times> string \<Rightarrow> py_exn + string list" where
  "group_line f latest prior kl =
     bindR (value_on f (fst kl @ ''_long'') latest) (\<lambda>l.
     bindR (value_on f (fst kl @ ''_short'') latest) (\<lambda>s.
     case (l, s) of
       (Some long, Some short) \<Rightarrow>
         bindR (value_on f (fst kl @ ''_long'') prior) (\<lambda>pl.
         bindR (value_on f (fst kl @ ''_short'') prior) (\<lambda>ps.
         Inr [''- '' @ snd kl @ '': long '' @ commas (dec_int long) @ '', short '' @ commas (dec_int short) @ '', net '' @
           net_text (dec_sub long short) @ week_change (dec_sub long short) pl ps prior @ ''.'']))
     | _ \<Rightarrow> Inr []))"

definition two_latest :: "string list \<Rightarrow> string \<times> string" where
  "two_latest weeks = (last weeks, if 1 < length weeks then last (butlast weeks) else [])"

definition positioning_text :: "string \<Rightarrow> string \<Rightarrow> json \<Rightarrow> py_exn + string" where
  "positioning_text product source d =
     bindR (item_of ''fields'' d) (\<lambda>f.
     bindR (report_weeks f) (\<lambda>weeks.
     if weeks = [] then Inr (''No CFTC report for '' @ product @ '' in the last five weeks.'')
     else case two_latest weeks of (latest, prior) \<Rightarrow>
       bindR (value_on f ''oi'' latest) (\<lambda>oi.
       bindR (mapR (group_line f latest prior) positioning_groups) (\<lambda>ls.
       Inr (join [newline] (
         (product @ '' positioning as of '' @ latest @ '' ('' @
           (if suffix ''COMBINED'' source then ''futures and options'' else ''futures only'') @ ''): open interest '' @
           contracts (case oi of Some n \<Rightarrow> dec_int n | None \<Rightarrow> 0) @ ''.'') # concat ls))))))"

definition mkt_data_positioning :: "mkt_conf \<Rightarrow> string \<Rightarrow> string \<Rightarrow> ('z net_scheme, string) web" where
  "mkt_data_positioning cf product report =
     (let w = lower (strip report) in
      case map_of positioning_report (if w = [] then ''futures'' else w) of
        None \<Rightarrow> ret (''I need report as futures or combined, not '' @ repr_str report @ ''.'')
      | Some source \<Rightarrow>
          bind (futures_root cf product) (\<lambda>r. case r of
            Inl why \<Rightarrow> ret why
          | Inr p \<Rightarrow>
              bind (liftR (item_of ''cftc_code'' p)) (\<lambda>cftc.
              bind (liftR (item_text ''root'' p)) (\<lambda>root.
              if \<not> truthy cftc then ret (''The CFTC doesn't report positioning for '' @ root @ ''.'')
              else bind (api cf (''/api/futures/'' @ root @ ''/positioning'')
                  [(''source'', JStr source), (''start'', JStr (isoformat (move_days (today_ny cf) (-35))))])
                (said (positioning_text root source))))))"

section \<open>Fixings\<close>

definition fixing_said :: "string dict" where
  "fixing_said = map (\<lambda>k. (k, ''EFFR'')) [''FED FUNDS'', ''FED FUNDS TARGET'', ''FED FUNDS RATE'', ''FEDERAL FUNDS'',
     ''EFFECTIVE FED FUNDS'', ''FED FUNDS EFFECTIVE'']"

definition fixing_name :: "string \<Rightarrow> string" where
  "fixing_name name =
     (let want = strip name
      in get_or want (strip (filter (\<lambda>c. is_upper c \<or> c = CHR '' '') (upper want))) fixing_said)"

definition fixing_types :: "json list" where
  "fixing_types = [JStr ''rate_fixing'', JStr ''fx_fixing'', JStr ''fx_index'']"

definition range_position :: "decimal \<Rightarrow> decimal \<Rightarrow> decimal \<Rightarrow> string" where
  "range_position x lo hi =
     (if dec_value x = dec_value lo then ''at the bottom of''
      else if dec_value x = dec_value hi then ''at the top of''
      else dec_text (basis_points x lo) @ '' bp above the bottom of'')"

definition latest_display :: "json \<Rightarrow> py_exn + json" where
  "latest_display rows =
     bindR (iter_of rows) (\<lambda>rs. if rs = [] then Inl (PyError ''IndexError'') else item_of ''display'' (last rs))"

definition range_sentence :: "json \<Rightarrow> json \<Rightarrow> json \<Rightarrow> py_exn + string" where
  "range_sentence shown low high =
     bindR (latest_display low) (\<lambda>lo.
     bindR (latest_display high) (\<lambda>hi.
     bindR (to_decimal shown) (\<lambda>x.
     bindR (to_decimal lo) (\<lambda>l.
     bindR (if dec_value x = dec_value l then Inr l else to_decimal hi) (\<lambda>h.
     Inr ('' The fed funds target range is '' @ py_str lo @ ''% to '' @ py_str hi @ ''%; EFFR is '' @
       range_position x l h @ '' it.''))))))"

definition target_range :: "mkt_conf \<Rightarrow> json \<Rightarrow> json \<Rightarrow> ('z net_scheme, string) web" where
  "target_range cf shown on =
     bind (api cf ''/api/instruments/EFFR/fields''
         [(''field'', JList [JStr ''target_low'', JStr ''target_high'']), (''start'', on), (''end'', on)]) (\<lambda>r.
     case r of
       Refused _ _ \<Rightarrow> ret []
     | Body b \<Rightarrow> liftR (bindR (item_of ''fields'' b) (\<lambda>f.
         bindR (get_of JNull ''target_low'' f) (\<lambda>low.
         bindR (get_of JNull ''target_high'' f) (\<lambda>high.
         if truthy low \<and> truthy high then range_sentence shown low high else Inr [])))))"

definition fixing_text :: "json \<Rightarrow> json \<Rightarrow> py_exn + string" where
  "fixing_text d x =
     bindR (get_of JNull ''unit'' d) (\<lambda>u.
     bindR (item_text ''display'' x) (\<lambda>v.
     bindR (item_text ''name'' d) (\<lambda>n.
     bindR (item_text ''description'' d) (\<lambda>descr.
     bindR (item_text ''date'' x) (\<lambda>on.
     bindR (item_text ''source'' x) (\<lambda>src.
     Inr (n @ '', '' @ descr @ '': '' @ v @ (if u = JStr ''%'' then ''%'' else []) @ '' on '' @ on @ '', from '' @ src @ ''.'')))))))"

definition fixing_answer :: "mkt_conf \<Rightarrow> json \<Rightarrow> ('z net_scheme, string) web" where
  "fixing_answer cf d =
     bind (liftR (item_of ''type'' d)) (\<lambda>k.
     if k \<notin> set fixing_types
     then liftR (bindR (item_text ''name'' d) (\<lambda>n. Inr (n @ '' isn't a fixing: it's a '' @ py_str k @ ''.'')))
     else bind (liftR (get_of JNull ''latest'' d)) (\<lambda>x.
       if \<not> truthy x
       then liftR (bindR (item_text ''name'' d) (\<lambda>n. bindR (item_text ''description'' d) (\<lambda>descr.
         Inr (n @ '' ('' @ descr @ '') has no value yet.''))))
       else bind (liftR (fixing_text d x)) (\<lambda>t.
         bind (liftR (item_of ''name'' d)) (\<lambda>n.
         if n = JStr ''EFFR'' then
           bind (liftR (item_of ''date'' x)) (\<lambda>on.
           bind (liftR (item_of ''display'' x)) (\<lambda>shown.
           bind (target_range cf shown on) (\<lambda>more. ret (t @ more))))
         else ret t))))"

definition mkt_data_fixing :: "mkt_conf \<Rightarrow> string \<Rightarrow> ('z net_scheme, string) web" where
  "mkt_data_fixing cf name =
     (let want = fixing_name name in
      bind (api cf (''/api/instruments/'' @ want) []) (\<lambda>r. case r of
        Refused n msg \<Rightarrow> ret (if n = 404
          then ''There's no fixing called '' @ repr_str want @ ''. Try SOFR, EFFR, or an FX rate like EURUSD-ECB or USDJPY-H10.''
          else msg)
      | Body d \<Rightarrow> fixing_answer cf d))"

end
