(* ===== verification/MktTools.thy ===== *)
theory MktTools
  imports MktFutures
begin

text \<open>
  The market data tools as \<open>compose/aws/home-mcp/server.py\<close> registers them, each with its arguments, and what
  holds of all of them: they only read, and every service sees only its own token.
\<close>

datatype mkt_tool =
    Captures string int
  | CaptureText int string int int bool
  | BusinessDay string string
  | Yield string string
  | Curve string string
  | Security string
  | Auctions string string string
  | Futures string
  | Basket string
  | Positioning string string
  | Fixing string
  | Checks string string int

fun run_mkt :: "mkt_conf \<Rightarrow> mkt_tool \<Rightarrow> ('z net_scheme, string) web" where
  "run_mkt cf (Captures calendar limit) = mkt_data_captures cf calendar limit"
| "run_mkt cf (CaptureText capture_id contains around lines embedded) =
     mkt_data_capture_text cf capture_id contains around lines embedded"
| "run_mkt cf (BusinessDay calendar on) = mkt_data_business_day cf calendar on"
| "run_mkt cf (Yield tenor on) = mkt_data_yield cf tenor on"
| "run_mkt cf (Curve on compare) = mkt_data_curve cf on compare"
| "run_mkt cf (Security security) = mkt_data_security cf security"
| "run_mkt cf (Auctions which1 start stop) = mkt_data_auctions cf which1 start stop"
| "run_mkt cf (Futures product) = mkt_data_futures cf product"
| "run_mkt cf (Basket contract) = mkt_data_basket cf contract"
| "run_mkt cf (Positioning product report) = mkt_data_positioning cf product report"
| "run_mkt cf (Fixing name) = mkt_data_fixing cf name"
| "run_mkt cf (Checks calendar source limit) = mkt_data_checks cf calendar source limit"

text \<open>A read of one of the three services: the path is below the one that its tools use, and the token is the
  service's own, or there is none.\<close>

definition reads_market :: "mkt_conf \<Rightarrow> request \<Rightarrow> bool" where
  "reads_market cf q \<longleftrightarrow> req_method q = ''GET'' \<and> req_body q = None \<and>
     (prefix (mkt_data_url cf @ ''/jobs/'') (req_url q) \<and> is_set (mkt_token cf) \<and> req_bearer q = Some (mkt_token cf) \<or>
      prefix (calendar_url cf @ ''/jobs/calendars/'') (req_url q) \<and> is_set (calendar_token cf) \<and>
        req_bearer q = Some (calendar_token cf) \<or>
      prefix (mkt_api_url cf @ ''/api/'') (req_url q) \<and> req_bearer q = None)"

lemma keeps_reply:
  "(\<And>n m. keeps P (f n m) e) \<Longrightarrow> (\<And>b. keeps P (g b) e) \<Longrightarrow> keeps P (case r of Refused n m \<Rightarrow> f n m | Body b \<Rightarrow> g b) e"
  by (simp split: reply.split)

lemmas keeps_cases = keeps_reply keeps_split

lemma keeps_asked: "P q \<Longrightarrow> keeps (sends P) (asked app q) e"
  unfolding asked_def by (intro keeps_catch_http keeps_bind keeps_send keeps_pure)

lemma keeps_said: "keeps P (said f r) e"
  by (simp add: said_def split: reply.split)

lemma keeps_api: "prefix ''/api/'' path \<Longrightarrow> keeps (sends (reads_market cf)) (api cf path params) e"
  unfolding api_def by (rule keeps_asked) (simp add: reads_market_def)

lemma keeps_mkt_get: "ready cf = None \<Longrightarrow> keeps (sends (reads_market cf)) (mkt_get cf path params) e"
  unfolding mkt_get_def by (rule keeps_asked) (auto simp: reads_market_def ready_def split: if_splits)

lemma keeps_calendar_get:
  "is_set (calendar_token cf) \<Longrightarrow> prefix ''calendars/'' path \<Longrightarrow>
   keeps (sends (reads_market cf)) (calendar_get cf path params) e"
  unfolding calendar_get_def by (rule keeps_asked) (simp add: reads_market_def)

lemma keeps_year_blocks: "keeps (sends (reads_market cf)) (year_blocks cf day ys name points) e"
  by (induction cf day ys name points rule: year_blocks.induct)
    (auto intro!: keeps_bind keeps_api keeps_cases keeps_if)

lemma keeps_resolve_security: "keeps (sends (reads_market cf)) (resolve_security cf text) e"
  unfolding resolve_security_def Let_def by_coupon_def
  by (intro keeps_bind keeps_api keeps_cases keeps_if keeps_pure) simp_all

lemma keeps_futures_root: "keeps (sends (reads_market cf)) (futures_root cf text) e"
  unfolding futures_root_def by (intro keeps_bind keeps_api keeps_cases keeps_pure) simp_all

lemma keeps_front_contract: "keeps (sends (reads_market cf)) (front_contract cf text) e"
  unfolding front_contract_def Let_def
  by (intro keeps_if keeps_bind keeps_futures_root keeps_cases keeps_pure)

lemma keeps_fixing_answer: "keeps (sends (reads_market cf)) (fixing_answer cf d) e"
  unfolding fixing_answer_def target_range_def
  by (intro keeps_if keeps_bind keeps_api keeps_cases keeps_pure) simp_all

lemmas keeps_market = keeps_bind keeps_api keeps_mkt_get keeps_calendar_get keeps_said keeps_cases keeps_if keeps_year_blocks
  keeps_resolve_security keeps_futures_root keeps_front_contract keeps_fixing_answer keeps_pure

lemma keeps_run_mkt: "keeps (sends (reads_market cf)) (run_mkt cf t) e"
proof (cases t)
  case (Captures c n)
  then show ?thesis by (auto simp: mkt_data_captures_def intro!: keeps_market)
next
  case (CaptureText a b c d f)
  then show ?thesis by (auto simp: mkt_data_capture_text_def intro!: keeps_market)
next
  case (BusinessDay c d)
  then show ?thesis by (auto simp: mkt_data_business_day_def intro!: keeps_market)
next
  case (Yield a b)
  then show ?thesis by (auto simp: mkt_data_yield_def intro!: keeps_market)
next
  case (Curve a b)
  then show ?thesis by (auto simp: mkt_data_curve_def intro!: keeps_market)
next
  case (Security a)
  then show ?thesis by (auto simp: mkt_data_security_def intro!: keeps_market)
next
  case (Auctions a b c)
  then show ?thesis by (auto simp: mkt_data_auctions_def intro!: keeps_market)
next
  case (Futures a)
  then show ?thesis by (auto simp: mkt_data_futures_def intro!: keeps_market)
next
  case (Basket a)
  then show ?thesis by (auto simp: mkt_data_basket_def intro!: keeps_market)
next
  case (Positioning a b)
  then show ?thesis by (auto simp: mkt_data_positioning_def Let_def intro!: keeps_market)
next
  case (Fixing a)
  then show ?thesis by (auto simp: mkt_data_fixing_def Let_def intro!: keeps_market)
next
  case (Checks a b c)
  then show ?thesis by (auto simp: mkt_data_checks_def intro!: keeps_market)
qed

text \<open>C27: Whatever their arguments, and whatever the services answer, the market data tools send nothing but
  reads: of the job interface with its token, of the calendars with theirs, and of the gateway without one.\<close>

theorem market_tools_only_read:
  "list_all (reads_market cf) (sent (snd (run_mkt cf t e \<lparr>sent = []\<rparr>)))"
  using keepsD [OF keeps_run_mkt [of cf t e], of "\<lparr>sent = []\<rparr>"] by (simp add: sends_def)

end
