(* ===== verification/McpServer.thy ===== *)
theory McpServer
  imports MktTools SecuritySummary PlatformStatus HubView AirflowView PromQuery GrafanaAlerts AirflowApi ContainerLogs
    ContextDocs AuditLog VoiceJobs DeployReport
begin

text \<open>
  \<open>compose/aws/home-mcp/server.py\<close>: the server with all of its tools. A tool call is a value of a datatype, and
  running it is the modules' function for it, on one state that has what the modules keep: the
  requests sent so far, the caches, the last job, the calls to the worker and to AWS. Requests of
  tools that the modules number apart (\<open>platform_status\<close>) are put one after the other.
\<close>

section \<open>Settings\<close>

text \<open>\<open>ALLOWED_USERNAMES\<close>.\<close>

definition usernames_setting :: "string \<Rightarrow> string list" where
  "usernames_setting s = filter (\<lambda>u. u \<noteq> []) (map strip (split_on (CHR '','') s))"

record server_env =
  sv_web :: http_env
  sv_worker :: tasks_env
  sv_jobs :: jobs_cfg
  sv_market :: mkt_conf
  sv_aws :: aws_env
  sv_exposure :: report_env
  sv_today :: date
  sv_fuel :: nat
  sv_user :: string
  sv_github_token :: string
  sv_audit_token :: string
  sv_grafana_token :: string
  sv_open_env :: string
  sv_random :: "32 word"

record server_world =
  sv_sent :: "request list"
  sv_gh_cache :: "(string \<times> rat \<times> gh_data) list"
  sv_notes :: "(json \<times> rat \<times> string list) list"
  sv_registry :: "rat \<times> json"
  sv_last_id :: string
  sv_last_label :: string
  sv_token_health :: "rat \<times> string list"
  sv_updates :: answers
  sv_known :: known_cell
  sv_docs :: docs_cell
  sv_airflow :: "(string \<times> rat) option"
  sv_tasks :: tasks_world
  sv_aws_calls :: "aws_call list"

type_synonym tool_run = "server_env \<Rightarrow> server_world \<Rightarrow> (py_exn + string) \<times> server_world"

section \<open>The modules' parts of the state\<close>

definition with_net :: "(net, string) web \<Rightarrow> tool_run" where
  "with_net m e w = (case m (sv_web e) \<lparr>sent = sv_sent w\<rparr> of (r, n) \<Rightarrow> (r, w\<lparr>sv_sent := sent n\<rparr>))"

definition with_gh :: "(gh, string) web \<Rightarrow> tool_run" where
  "with_gh m e w = (case m (sv_web e) \<lparr>sent = sv_sent w, gh_cache = sv_gh_cache w\<rparr> of (r, n) \<Rightarrow>
     (r, w\<lparr>sv_sent := sent n, sv_gh_cache := gh_cache n\<rparr>))"

definition with_deploys :: "(deploys_state, string) web \<Rightarrow> tool_run" where
  "with_deploys m e w =
     (case m (sv_web e) \<lparr>sent = sv_sent w, gh_cache = sv_gh_cache w, notes_cache = sv_notes w\<rparr> of (r, n) \<Rightarrow>
        (r, w\<lparr>sv_sent := sent n, sv_gh_cache := gh_cache n, sv_notes := notes_cache n\<rparr>))"

definition jobs_part :: "server_world \<Rightarrow> jobs" where
  "jobs_part w = \<lparr>sent = sv_sent w, registry = sv_registry w, last_id = sv_last_id w, last_label = sv_last_label w,
     token_health = sv_token_health w\<rparr>"

definition with_jobs :: "(jobs, string) web \<Rightarrow> tool_run" where
  "with_jobs m e w = (case m (sv_web e) (jobs_part w) of (r, n) \<Rightarrow>
     (r, w\<lparr>sv_sent := sent n, sv_registry := registry n, sv_last_id := last_id n, sv_last_label := last_label n,
         sv_token_health := token_health n\<rparr>))"

definition with_updates :: "(upd, string) web \<Rightarrow> tool_run" where
  "with_updates m e w = (case m (sv_web e) \<lparr>sent = sv_sent w, cache = sv_updates w\<rparr> of (r, n) \<Rightarrow>
     (r, w\<lparr>sv_sent := sent n, sv_updates := cache n\<rparr>))"

definition with_logs :: "(logs, string) web \<Rightarrow> tool_run" where
  "with_logs m e w = (case m (sv_web e) \<lparr>sent = sv_sent w, known = sv_known w\<rparr> of (r, n) \<Rightarrow>
     (r, w\<lparr>sv_sent := sent n, sv_known := known n\<rparr>))"

definition with_docs :: "(context_state, string) web \<Rightarrow> tool_run" where
  "with_docs m e w = (case m (sv_web e) \<lparr>sent = sv_sent w, docs_cell = sv_docs w\<rparr> of (r, n) \<Rightarrow>
     (r, w\<lparr>sv_sent := sent n, sv_docs := docs_cell n\<rparr>))"

definition with_airflow :: "(airflow, string) web \<Rightarrow> tool_run" where
  "with_airflow m e w = (case m (sv_web e) \<lparr>sent = sv_sent w, af_token = sv_airflow w\<rparr> of (r, n) \<Rightarrow>
     (r, w\<lparr>sv_sent := sent n, sv_airflow := af_token n\<rparr>))"

definition with_worker :: "string task_io \<Rightarrow> tool_run" where
  "with_worker m e w = (case m (sv_worker e) (sv_tasks w) of (r, n) \<Rightarrow> (map_sum PyError id r, w\<lparr>sv_tasks := n\<rparr>))"

definition aws_error :: "aws_exn \<Rightarrow> py_exn" where
  "aws_error x = (case x of OtherErr y \<Rightarrow> y | _ \<Rightarrow> PyError (aws_class x))"

definition with_aws :: "string aws \<Rightarrow> tool_run" where
  "with_aws m e w = (case m (sv_aws e) (sv_aws_calls w) of (r, n) \<Rightarrow> (map_sum aws_error id r, w\<lparr>sv_aws_calls := n\<rparr>))"

text \<open>The two tools that go through several modules. What each part adds to the requests is kept.\<close>

definition summary_part :: "server_env \<Rightarrow> summary_env" where
  "summary_part e = \<lparr>web_env = sv_web e, aws_part = sv_aws e, exposure_part = sv_exposure e, today = sv_today e, crawl_fuel = sv_fuel e,
     allowed_user = sv_user e, github_token = sv_github_token e, audit_token = sv_audit_token e, open_env = sv_open_env e\<rparr>"

definition run_summary :: tool_run where
  "run_summary e w =
     (case security_summary (summary_part e)
        \<lparr>web_world = \<lparr>sent = sv_sent w, cache = sv_updates w\<rparr>, aws_world = sv_aws_calls w\<rparr> of (r, n) \<Rightarrow>
        (r, w\<lparr>sv_sent := sent (web_world n), sv_updates := cache (web_world n), sv_aws_calls := aws_world n\<rparr>))"

definition status_part :: "server_env \<Rightarrow> status_env" where
  "status_part e = \<lparr>st_web = sv_web e, st_worker = sv_worker e, st_jobs_cfg = sv_jobs e, st_today = sv_today e\<rparr>"

definition new_requests :: "server_world \<Rightarrow> request list \<Rightarrow> request list" where
  "new_requests w qs = drop (length (sv_sent w)) qs"

definition run_status :: tool_run where
  "run_status e w =
     (case platform_status (status_part e)
        \<lparr>st_net = \<lparr>sent = sv_sent w\<rparr>, st_calls = sv_tasks w, st_gh = \<lparr>sent = sv_sent w, gh_cache = sv_gh_cache w\<rparr>,
         st_jobs = jobs_part w\<rparr> of (r, n) \<Rightarrow>
        (r, w\<lparr>sv_sent := sv_sent w @ new_requests w (sent (st_net n)) @ new_requests w (sent (st_gh n)) @ new_requests w (sent (st_jobs n)),
            sv_tasks := st_calls n, sv_gh_cache := gh_cache (st_gh n), sv_registry := registry (st_jobs n),
            sv_last_id := last_id (st_jobs n), sv_last_label := last_label (st_jobs n), sv_token_health := token_health (st_jobs n)\<rparr>))"

definition run_exposure :: tool_run where
  "run_exposure e w = (map_sum PyError id (exposure_check (sv_exposure e)), w)"

section \<open>The tools\<close>

datatype home_tool =
    PlatformStatus
  | SearchContext string int
  | GetContext string string
  | StartTask string string
  | TaskStatus string
  | GithubStatus string
  | ListJobs
  | RunJob string "json dict"
  | JobStatus string
  | RecentLogs string int string

definition caller_name :: "access option \<Rightarrow> string option" where
  "caller_name token = (case caller token of JStr u \<Rightarrow> Some u | _ \<Rightarrow> None)"

fun run_home :: "access option \<Rightarrow> home_tool \<Rightarrow> tool_run" where
  "run_home token PlatformStatus = run_status"
| "run_home token (SearchContext query limit) = with_docs (search_context query limit)"
| "run_home token (GetContext doc sec) = with_docs (get_context doc sec)"
| "run_home token (StartTask repo instructions) = with_worker (start_task repo instructions (caller_name token))"
| "run_home token (TaskStatus task_id) = with_worker (task_status task_id)"
| "run_home token (GithubStatus repo) = with_gh (github_status repo)"
| "run_home token ListJobs = (\<lambda>e. with_jobs (list_jobs (sv_jobs e)) e)"
| "run_home token (RunJob job args) = (\<lambda>e. with_jobs (run_job (sv_jobs e) job args (sv_random e)) e)"
| "run_home token (JobStatus rid) = with_jobs (job_status rid)"
| "run_home token (RecentLogs container minutes contains) = with_logs (recent_logs container minutes contains)"

datatype hub_tool =
    Containers bool
  | ScrapeTargets bool
  | AirflowStatus string bool
  | PrometheusQuery string int int
  | PrometheusMetrics string

fun run_hub :: "hub_tool \<Rightarrow> tool_run" where
  "run_hub (Containers detail) = with_net (HubView.containers detail)"
| "run_hub (ScrapeTargets detail) = (\<lambda>e. with_net (scrape_targets (sv_today e) detail) e)"
| "run_hub (AirflowStatus dag detail) = with_net (airflow_status dag detail)"
| "run_hub (PrometheusQuery query minutes step_seconds) = with_net (prometheus_query query minutes step_seconds)"
| "run_hub (PrometheusMetrics match) = with_net (prometheus_metrics match)"

datatype airflow_tool =
    AirflowRuns string int
  | AirflowTaskLog string string string int int
  | AirflowTrigger string "json option"
  | GrafanaAlerts string bool
  | LastDeploys string

fun run_airflow :: "airflow_tool \<Rightarrow> tool_run" where
  "run_airflow (AirflowRuns dag limit) = with_airflow (airflow_runs dag limit)"
| "run_airflow (AirflowTaskLog dag run_id task try_number lines) = with_airflow (airflow_task_log dag run_id task try_number lines)"
| "run_airflow (AirflowTrigger dag conf) = with_airflow (airflow_trigger dag conf)"
| "run_airflow (GrafanaAlerts group1 show_all) = (\<lambda>e. with_net (grafana_alerts (sv_grafana_token e) group1 show_all) e)"
| "run_airflow (LastDeploys repo) = with_deploys (last_deploys repo)"

datatype security_tool =
    UpdateStatus bool
  | SecurityEvents int
  | GithubSecurity string bool
  | AwsPosture
  | AuthentikAudit
  | ExposureCheck
  | SecuritySummary

fun run_security :: "security_tool \<Rightarrow> tool_run" where
  "run_security (UpdateStatus detail) = (\<lambda>e. with_updates (update_status (sv_fuel e) (sv_today e) detail) e)"
| "run_security (SecurityEvents days) = (\<lambda>e. with_net (security_events (sv_user e) days) e)"
| "run_security (GithubSecurity repo detail) = (\<lambda>e. with_net (github_security (sv_github_token e) repo detail) e)"
| "run_security AwsPosture = (\<lambda>e. with_aws (aws_posture (sv_open_env e)) e)"
| "run_security AuthentikAudit = (\<lambda>e. with_net (authentik_audit (sv_audit_token e)) e)"
| "run_security ExposureCheck = run_exposure"
| "run_security SecuritySummary = run_summary"

datatype tool =
    Home home_tool
  | Hub hub_tool
  | Market mkt_tool
  | Airflow airflow_tool
  | Secure security_tool

fun run_tool :: "access option \<Rightarrow> tool \<Rightarrow> tool_run" where
  "run_tool token (Home t) = run_home token t"
| "run_tool token (Hub t) = run_hub t"
| "run_tool token (Market t) = (\<lambda>e. with_net (run_mkt (sv_market e) t) e)"
| "run_tool token (Airflow t) = run_airflow t"
| "run_tool token (Secure t) = run_security t"

text \<open>A call under \<open>audited\<close>: the name and the arguments are what the client sent.\<close>

definition server_call ::
    "server_env \<Rightarrow> string \<Rightarrow> rat \<Rightarrow> access option \<Rightarrow> string \<Rightarrow> json dict \<Rightarrow> tool \<Rightarrow> server_world tool_call" where
  "server_call e stamp took token name kwargs t =
     \<lparr>tool_name = name, tool_args = kwargs, tool_token = token, tool_stamp = stamp, tool_took = took,
      tool_body = (\<lambda>h. run_tool token t (e\<lparr>sv_web := h\<rparr>))\<rparr>"

text \<open>The route \<open>/health\<close>.\<close>

definition health :: json where
  "health = JObj [(''ok'', JBool True)]"

end
