(* ===== verification/ServerReads.thy ===== *)
theory ServerReads
  imports McpServer
begin

text \<open>
  Which tools of the MCP server only read. Each tool's requests are followed through its module for every
  condition on requests that reads satisfy (\<open>reading\<close>); the calls to the worker and to AWS likewise.
\<close>

section \<open>Tools that only read\<close>

lemma keeps_catch_named:
  "keeps P m e \<Longrightarrow> (\<And>n. keeps P (h n) e) \<Longrightarrow> keeps P (catch_named names m h) e"
  unfolding catch_named_def by (auto intro!: keeps_try_catch)

lemmas keeps_flow = keeps_bind keeps_andthen keeps_catch_http keeps_outcome keeps_mapM keeps_if keeps_split keeps_try_catch
  keeps_catch_named

lemma kept_by_look:
  "(\<And>w. P w \<Longrightarrow> P (snd (m w))) \<Longrightarrow> \<forall>w. P w \<longrightarrow> P (snd (case v w of None \<Rightarrow> m w | Some x \<Rightarrow> (Inr x, w)))"
  by (simp split: option.split)

lemma keeps_modify: "(\<And>w. sent (f w) = sent w) \<Longrightarrow> keeps (sent_as L) (modify f) e"
  by (simp add: keeps_def modify_def sent_as_def)

context reading begin

lemma keeps_gh_get_read: "keeps (sent_as L) (gh_get path params) e"
  unfolding gh_get_def by (auto intro!: keeps_flow keeps_reading)

lemma keeps_gh_fetch_read: "keeps (sent_as L) (gh_fetch repo) e"
proof -
  have "keeps (sent_as L)
    (bind (gh_get (''/repos/bcalaway/'' @ repo @ ''/pulls'') [(''state'', JStr ''open''), (''per_page'', JInt 20)]) (\<lambda>pulls.
     bind (gh_get (''/repos/bcalaway/'' @ repo @ ''/actions/runs'') [(''per_page'', JInt 30)]) (\<lambda>runs.
     bind (liftR (get_of (JList []) ''workflow_runs'' runs)) (\<lambda>rs.
     (\<lambda>e w. (Inr (pulls, rs), w\<lparr>gh_cache := gh_put (gh_cache w) repo (mono e) (pulls, rs)\<rparr>)))))) e"
    by (intro keeps_bind keeps_gh_get_read keeps_pure) (simp add: keeps_def sent_as_def)
  then show ?thesis
    by (auto simp: keeps_def gh_fetch_def split: option.split)
qed

lemma keeps_github_status: "keeps (sent_as L) (github_status repo) e"
  unfolding github_status_def report_repos_def Let_def
  by (auto intro!: keeps_flow keeps_gh_fetch_read)

lemma keeps_pending_approvals: "keeps (sent_as L) pending_approvals e"
  unfolding pending_approvals_def by (auto intro!: keeps_flow keeps_gh_fetch_read)

lemma keeps_load_docs: "keeps (sent_as L) load_docs e"
proof -
  have "keeps (sent_as L) (bind (get_json tree_url []) (\<lambda>j.
      bind (liftR (doc_paths j)) (\<lambda>paths.
      bind (mapM (\<lambda>p. get (raw_url @ p) []) paths) (\<lambda>bodies.
      let ds = dict_update [] (map (\<lambda>(p, r). (p, resp_text r)) (filter (\<lambda>(p, r). resp_status r = 200) (zip paths bodies)));
          v = (ds, all_chunks ds)
      in andthen (modify (\<lambda>w. w\<lparr>docs_cell := docs_put (docs_cell w) () t v\<rparr>)) (ret v))))) e" for t
    unfolding Let_def by (intro keeps_flow keeps_reading keeps_pure keeps_modify) simp
  then show ?thesis
    by (auto simp: keeps_def load_docs_def split: option.split)
qed

lemma keeps_context: "keeps (sent_as L) (search_context q n) e" "keeps (sent_as L) (get_context doc sec) e"
  unfolding search_context_def get_context_def by (intro keeps_flow keeps_load_docs keeps_pure)+

lemma keeps_load_registry: "keeps (sent_as L) load_registry e"
proof -
  have "keeps (sent_as L) (bind (get_ok registry_url []) (\<lambda>r. (\<lambda>e w. (case yaml e (resp_text r) of
      None \<Rightarrow> (Inl (PyError ''YAMLError''), w)
    | Some j \<Rightarrow> (let v = json_or j (JObj []) in (Inr v, w\<lparr>registry := registry_put (registry w) () (mono e) v\<rparr>)))))) e"
    by (rule keeps_bind [OF keeps_gets(2)]) (auto simp: keeps_def sent_as_def Let_def split: option.split)
  then show ?thesis
    by (auto simp: keeps_def load_registry_def split: option.split)
qed

lemma keeps_list_jobs: "keeps (sent_as L) (list_jobs cfg) e"
  unfolding list_jobs_def by (auto intro!: keeps_flow keeps_load_registry)

lemma keeps_annotations: "keeps (sent_as L) (annotations js) e"
  by (induction js) (auto intro!: keeps_flow keeps_gh_get_read)

lemma keeps_job_status: "keeps (sent_as L) (job_status rid) e"
  unfolding job_status_def find_run_def run_text_def result_annotation_def Let_def
  by (auto intro!: keeps_flow keeps_gh_get_read keeps_annotations split: py_exn.split)

lemma keeps_jobs_token: "keeps (sent_as L) (jobs_token_warnings cfg) e"
proof -
  have "keeps (sent_as L) (catch_http
      (bind (send (Request ''GET'' (gh_api @ ''/repos/'' @ jobs_repo) [] (Some (jobs_token cfg)) None)) (\<lambda>r.
       bind (liftR (jobs_token_answer r t)) (\<lambda>warnings.
       andthen (modify (\<lambda>w. w\<lparr>token_health := (t', warnings)\<rparr>)) (ret warnings))))
      (\<lambda>_. gets (\<lambda>w. snd (token_health w)))) e" for t t'
    by (intro keeps_flow keeps_reading keeps_pure keeps_modify) simp_all
  then show ?thesis
    by (auto simp: jobs_token_warnings_def keeps_def ret_def)
qed

lemma keeps_recent_logs: "keeps (sent_as L) (recent_logs c m contains) e"
proof -
  have "keeps (sent_as L) ask_loki e"
    unfolding ask_loki_def Let_def by (intro keeps_flow keeps_reading keeps_pure keeps_modify) simp
  then have "keeps (sent_as L) (try_catch ask_loki (\<lambda>x. if is_value_error x then ret (sorted_set containers) else raise x)) e"
    by (intro keeps_flow keeps_pure) simp_all
  then have "keeps (sent_as L) known_names e"
    by (auto simp: keeps_def known_names_def split: option.split)
  then show ?thesis
    unfolding recent_logs_def resolve_def Let_def by (auto intro!: keeps_flow keeps_reading)
qed

lemma keeps_instant: "keeps (sent_as L) (instant_query q) e"
  unfolding instant_query_def by (intro keeps_flow keeps_reading keeps_pure)

lemma keeps_containers: "keeps (sent_as L) (HubView.containers detail) e"
  unfolding HubView.containers_def read_hub_def named_values_def by (auto intro!: keeps_flow keeps_instant)

lemma keeps_scrape_targets: "keeps (sent_as L) (scrape_targets day detail) e"
  unfolding scrape_targets_def active_targets_def by (auto intro!: keeps_flow keeps_reading)

lemma keeps_airflow_status: "keeps (sent_as L) (airflow_status dag detail) e"
  unfolding airflow_status_def read_airflow_def airflow_names_def by (auto intro!: keeps_flow keeps_instant keeps_reading)

lemma keeps_prometheus_query: "keeps (sent_as L) (prometheus_query q m s) e"
  unfolding prometheus_query_def query_answer_def Let_def by (auto intro!: keeps_flow keeps_reading)

lemma keeps_prometheus_metrics: "keeps (sent_as L) (prometheus_metrics match) e"
  unfolding prometheus_metrics_def metric_names_def by (auto intro!: keeps_flow keeps_reading)

lemma keeps_grafana_alerts: "keeps (sent_as L) (grafana_alerts tok g all1) e"
  unfolding grafana_alerts_def by (auto intro!: keeps_flow keeps_reading)

lemma keeps_af_auth: "keeps (sent_as L) af_auth e"
proof -
  have "keeps (sent_as L) (bind (get_json (airflow_url @ ''/auth/token'') []) (\<lambda>d.
      bind (liftR (item_of ''access_token'' d)) (\<lambda>tok.
      andthen (modify (\<lambda>w. w\<lparr>af_token := af_put (af_token w) () t (py_str tok)\<rparr>)) (ret (py_str tok))))) e" for t
    by (intro keeps_flow keeps_reading keeps_pure keeps_modify) simp
  then show ?thesis
    by (auto simp: keeps_def af_auth_def split: option.split)
qed

lemma keeps_af_read: "keeps (sent_as L) (call ''GET'' path params None) e"
  unfolding call_def by (intro keeps_flow keeps_af_auth keeps_reading keeps_pure) simp_all

lemma keeps_airflow_runs: "keeps (sent_as L) (airflow_runs dag limit) e"
  unfolding airflow_runs_def Let_def by (auto intro!: keeps_flow keeps_af_read)

lemma keeps_airflow_task_log: "keeps (sent_as L) (airflow_task_log dag run_id task n lines) e"
  unfolding airflow_task_log_def latest_run_def task_log_def Let_def by (auto intro!: keeps_flow keeps_af_read)

lemma keeps_last_deploys: "keeps (sent_as L) (last_deploys repo) e"
proof -
  have "keeps (sent_as L) (job_notes r j) e" for r j
    unfolding job_notes_def by (auto intro!: keeps_flow keeps_gh_get_read)
  then have "keeps (sent_as L) (bind (gh_get (repo_path r @ ''/actions/runs/'' @ py_str i @ ''/jobs'') []) (\<lambda>jobs.
      bind (liftR (bindR (get_of (JList []) ''jobs'' jobs) iter_of)) (\<lambda>js.
      bind (mapM (job_notes r) js) (\<lambda>ns.
      let out = concat ns in
      if b then andthen (modify (\<lambda>w. w\<lparr>notes_cache := notes_put (notes_cache w) i t out\<rparr>)) (ret out) else ret out)))) e" for r i b t
    unfolding Let_def by (intro keeps_flow keeps_gh_get_read keeps_pure keeps_modify) simp_all
  note body = this [unfolded keeps_def, rule_format]
  have "keeps (sent_as L) (run_results r d) e" for r d
    unfolding run_results_def
    by (intro keeps_bind keeps_pure, unfold keeps_def) (rule kept_by_look, rule body)
  then show ?thesis
    unfolding last_deploys_def one_deploy_def Let_def by (auto intro!: keeps_flow keeps_gh_fetch_read)
qed

lemma keeps_security_events: "keeps (sent_as L) (security_events user days) e"
  unfolding security_events_def loki_query_def Let_def by (auto intro!: keeps_flow keeps_reading)

lemma keeps_github_security: "keeps (sent_as L) (github_security tok repo detail) e"
  unfolding github_security_def ask_repo_def sec_get_def Let_def by (auto intro!: keeps_flow keeps_reading)

lemma keeps_events: "keeps (sent_as L) (events tok actions since) e"
proof -
  have page: "keeps (sent_as L) (auth_get tok path ps) e" for path ps
    unfolding auth_get_def auth_request_def by (auto intro!: keeps_flow keeps_reading)
  have pages: "keeps (sent_as L) (event_pages page1 old k n acc) e" if "\<And>n. keeps (sent_as L) (page1 n) e" for page1 old k n acc
    using that by (induction k arbitrary: n acc) (auto intro!: keeps_flow)
  show ?thesis unfolding events_def by (rule pages, rule page)
qed

lemma keeps_authentik_audit: "keeps (sent_as L) (authentik_audit token) e"
  unfolding authentik_audit_def audit_people_def auth_get_def auth_request_def Let_def
  by (auto intro!: keeps_flow keeps_reading keeps_events)

lemma keeps_read_metrics: "keeps (sent_as L) read_metrics e"
  unfolding read_metrics_def app_ok_def by (auto intro!: keeps_flow keeps_instant keeps_reading)

lemma keeps_run_mkt_read: "keeps (sent_as L) (run_mkt cf t) e"
proof -
  have "keeps (sent_as L) (asked app (Request ''GET'' url ps tok None)) e" for app url ps tok
    unfolding asked_def by (intro keeps_flow keeps_reading keeps_pure) simp
  note a = this
  have y: "keeps (sent_as L) (year_blocks cf day ys name points) e" for day ys name points
    by (induction cf day ys name points rule: year_blocks.induct) (auto simp: api_def intro!: keeps_flow keeps_reply a)
  have r: "keeps (sent_as L) (resolve_security cf said1) e" "keeps (sent_as L) (futures_root cf said1) e" for said1
    unfolding resolve_security_def by_coupon_def futures_root_def api_def Let_def by (intro keeps_flow keeps_reply a keeps_pure)+
  note defs = mkt_data_captures_def mkt_data_capture_text_def mkt_data_business_day_def mkt_data_yield_def mkt_data_curve_def
    mkt_data_security_def mkt_data_auctions_def mkt_data_futures_def mkt_data_basket_def mkt_data_positioning_def mkt_data_fixing_def
    mkt_data_checks_def mkt_get_def calendar_get_def api_def front_contract_def fixing_answer_def target_range_def Let_def
  show ?thesis
    by (cases t; simp only: run_mkt.simps defs) (intro keeps_flow keeps_reply keeps_said a y r keeps_pure)+
qed

end

section \<open>The worker and AWS\<close>

text \<open>A command to the worker that changes nothing there, and an operation of AWS that only reads.\<close>

definition asks_worker :: "string \<times> string \<Rightarrow> bool" where
  "asks_worker c \<longleftrightarrow> snd c = [] \<and> (fst c \<in> {''list'', ''health''} \<or> prefix ''status'' (fst c))"

definition reads_aws :: "aws_call \<Rightarrow> bool" where
  "reads_aws c = (case c of
      Aws s op args \<Rightarrow> prefix ''get_'' op \<or> prefix ''list_'' op \<or> prefix ''describe_'' op \<or> prefix ''lookup_'' op
    | Prom q \<Rightarrow> True)"


locale aws_reading =
  fixes R :: "aws_call list \<Rightarrow> bool"
  assumes reads_aws_fine: "reads_aws c \<Longrightarrow> R cs \<Longrightarrow> R (cs @ [c])"
begin

lemma keeps_call_aws: "reads_aws c \<Longrightarrow> keeps R (call_aws c) e"
  by (simp add: keeps_def call_aws_def reads_aws_fine)

lemma keeps_paginate: "reads_aws (Aws s op args) \<Longrightarrow> keeps R (paginate s op args) e"
  by (simp add: keeps_def paginate_def reads_aws_fine)

lemma keeps_liftP [simp]: "keeps P (liftP r) e"
  by (simp add: liftP_def)

lemma keeps_each_page: "(\<And>j. keeps P (f j) e) \<Longrightarrow> keeps P (each_page f ps) e"
  by (induction ps) (auto intro!: keeps_flow)

lemma keeps_aws_outcome: "keeps P m e \<Longrightarrow> keeps P (aws_outcome m) e"
  unfolding aws_outcome_def by (intro keeps_flow keeps_pure)

lemmas keeps_aws = keeps_flow keeps_call_aws keeps_paginate keeps_liftP keeps_each_page

lemma keeps_user_lines: "keeps R (user_lines u) e"
  unfolding user_lines_def has_console_def for_user_def Let_def
  by (auto intro!: keeps_aws simp: reads_aws_def split: aws_exn.split)

lemma keeps_each_user: "keeps R (each_user us) e"
  by (induction us) (auto intro!: keeps_aws keeps_user_lines)

lemma keeps_prom_result: "keeps R (prom_result q) e"
  unfolding prom_result_def by (auto intro!: keeps_aws simp: reads_aws_def)

lemma keeps_checks: "list_all (\<lambda>x. keeps R (snd x) e) (aws_checks expected)"
  unfolding aws_checks_def guardduty_def access_analyzer_def security_groups_def root_and_console_def iam_users_def imds_guard_def
  by (auto intro!: keeps_aws keeps_each_user keeps_prom_result simp: reads_aws_def)

lemma keeps_run_checks: "list_all (\<lambda>x. keeps R (snd x) e) cs \<Longrightarrow> keeps R (run_checks cs) e"
  by (induction cs rule: run_checks.induct) (auto intro!: keeps_aws keeps_aws_outcome)

lemma keeps_aws_posture: "keeps R (aws_posture expected) e"
  unfolding aws_posture_def by (intro keeps_aws keeps_run_checks keeps_checks keeps_pure)

end

interpretation aws_only_reads: aws_reading "list_all reads_aws"
  by unfold_locales simp

interpretation aws_grown: aws_reading "extends reads_aws s" for s
  by unfold_locales (rule extends_snoc)

text \<open>What the other tools ask of the worker; no e-mail goes out.\<close>

definition asks_more :: "tasks_world \<Rightarrow> tasks_world \<Rightarrow> bool" where
  "asks_more u w \<longleftrightarrow> extends asks_worker (calls u) (calls w) \<and> outbox w = outbox u"

lemma asks_more_same [simp]: "asks_more u u"
  by (simp add: asks_more_def)

lemma keeps_ssh: "asks_worker (c, s) \<Longrightarrow> keeps (asks_more u) (ssh c s n) e"
  by (auto simp: keeps_def asks_more_def ssh_def prepare_ssh_def bind_def ret_def intro: extends_snoc split: option.split)

lemma keeps_prepare_ssh: "keeps (asks_more u) prepare_ssh e"
  by (auto simp: keeps_def asks_more_def prepare_ssh_def split: option.split)

lemma asks_status: "asks_worker (strip (''status '' @ tid), [])"
proof -
  have keep: "prefix p (rev (dropWhile f (rev (p @ t))))" if "p \<noteq> []" "\<not> f (last p)" for f and p t :: string
  proof (cases "list_all f t")
    case True
    have "dropWhile f (rev t @ rev p) = rev p"
      using True that by (cases p rule: rev_cases) (auto simp: list_all_iff dropWhile_append)
    then show ?thesis by simp
  next
    case False
    then have "dropWhile f (rev t @ rev p) = dropWhile f (rev t) @ rev p"
      by (auto simp: list_all_iff dropWhile_append)
    then show ?thesis by simp
  qed
  have s: "lstrip_if is_space (''status'' @ t) = ''status'' @ t" "\<not> is_space (CHR ''s'')" for t
    by (simp_all add: lstrip_if_def) (code_simp)+
  show ?thesis
    using keep [of "''status''" is_space "'' '' @ tid"] s
    by (simp add: asks_worker_def strip_def strip_if_def rstrip_if_def)
qed

lemma keeps_task_status: "keeps (asks_more u) (task_status tid) e"
  using asks_status [of tid]
  unfolding task_status_def by (auto intro!: keeps_flow keeps_ssh simp: asks_worker_def split: json.split)

lemma keeps_worker_tokens: "keeps (asks_more u) worker_token_warnings e"
  unfolding worker_token_warnings_def by (auto intro!: keeps_flow keeps_ssh keeps_prepare_ssh simp: asks_worker_def)

section \<open>The tools that only read\<close>

text \<open>The tools that have no more than the reading part.\<close>

fun only_reads :: "tool \<Rightarrow> bool" where
  "only_reads (Home (StartTask repo instructions)) = False"
| "only_reads (Home (RunJob job args)) = False"
| "only_reads (Airflow (AirflowTrigger dag conf)) = False"
| "only_reads t = True"

text \<open>The state's records of effects have grown by reads, and no e-mail went out.\<close>

definition read_more :: "server_world \<Rightarrow> server_world \<Rightarrow> bool" where
  "read_more w w' \<longleftrightarrow> extends is_read (sv_sent w) (sv_sent w') \<and> asks_more (sv_tasks w) (sv_tasks w') \<and>
     extends reads_aws (sv_aws_calls w) (sv_aws_calls w')"

lemma read_more_parts:
  shows "keeps (sent_as (extends is_read (sv_sent w))) m1 (sv_web e) \<Longrightarrow> read_more w (snd (with_net m1 e w))"
    and "keeps (sent_as (extends is_read (sv_sent w))) m2 (sv_web e) \<Longrightarrow> read_more w (snd (with_gh m2 e w))"
    and "keeps (sent_as (extends is_read (sv_sent w))) m3 (sv_web e) \<Longrightarrow> read_more w (snd (with_deploys m3 e w))"
    and "keeps (sent_as (extends is_read (sv_sent w))) m4 (sv_web e) \<Longrightarrow> read_more w (snd (with_jobs m4 e w))"
    and "keeps (sent_as (extends is_read (sv_sent w))) m5 (sv_web e) \<Longrightarrow> read_more w (snd (with_updates m5 e w))"
    and "keeps (sent_as (extends is_read (sv_sent w))) m6 (sv_web e) \<Longrightarrow> read_more w (snd (with_logs m6 e w))"
    and "keeps (sent_as (extends is_read (sv_sent w))) m7 (sv_web e) \<Longrightarrow> read_more w (snd (with_docs m7 e w))"
    and "keeps (sent_as (extends is_read (sv_sent w))) m8 (sv_web e) \<Longrightarrow> read_more w (snd (with_airflow m8 e w))"
  by (auto simp: read_more_def sent_as_def with_net_def with_gh_def with_deploys_def with_jobs_def jobs_part_def with_updates_def
    with_logs_def with_docs_def with_airflow_def split_beta dest!: keepsD [where P = "sent_as (extends is_read (sv_sent w))"])

lemma read_more_worker:
  "keeps (asks_more (sv_tasks w)) m (sv_worker e) \<Longrightarrow> read_more w (snd (with_worker m e w))"
  by (auto simp: read_more_def with_worker_def split_beta dest!: keepsD)

lemma read_more_aws:
  "keeps (extends reads_aws (sv_aws_calls w)) m (sv_aws e) \<Longrightarrow> read_more w (snd (with_aws m e w))"
  by (auto simp: read_more_def with_aws_def split_beta dest!: keepsD)

lemma read_more_summary: "read_more w (snd (run_summary e w))"
proof -
  define ok where "ok u \<longleftrightarrow> extends is_read (sv_sent w) (sent (web_world u)) \<and> extends reads_aws (sv_aws_calls w) (aws_world u)"
    for u :: summary_world
  have web: "ok (snd (web_check m e' u))"
    if "keeps (sent_as (extends is_read (sv_sent w))) (m e') (web_env e')" "ok u" for m e' u
    using that by (auto simp: ok_def web_check_def sent_as_def split_beta dest!: keepsD)
  have aws: "ok (snd (aws_check e' u))" if "ok u" for e' u
    using that keepsD [OF aws_grown.keeps_aws_posture] by (auto simp: ok_def aws_check_def split_beta)
  have each: "list_all (\<lambda>c. \<forall>u. ok u \<longrightarrow> ok (snd (snd c e' u))) summary_checks" for e'
    unfolding summary_checks_def
    by (simp add: web aws grown.keeps_update_status grown.keeps_security_events grown.keeps_github_security
        grown.keeps_authentik_audit)
  have gather: "ok (snd (gather cs e' u))" if "list_all (\<lambda>c. \<forall>u. ok u \<longrightarrow> ok (snd (snd c e' u))) cs" "ok u" for cs e' u
    using that by (induction cs arbitrary: u) (auto simp: split_beta)
  have "ok (snd (security_summary e' u))" if "ok u" for e' u
    using gather [OF each that] by (simp add: security_summary_def split_beta)
  then show ?thesis
    by (auto simp: run_summary_def read_more_def ok_def split_beta)
qed

lemma new_requests_reads:
  assumes "extends is_read (sv_sent w) qs"
  shows "list_all is_read (new_requests w qs)"
  using assms by (auto simp: extends_def new_requests_def)

lemma read_more_status: "read_more w (snd (run_status e w))"
proof -
  define ok where "ok u \<longleftrightarrow> extends is_read (sv_sent w) (sent (st_net u)) \<and> extends is_read (sv_sent w) (sent (st_gh u)) \<and>
    extends is_read (sv_sent w) (sent (st_jobs u)) \<and> asks_more (sv_tasks w) (st_calls u)" for u :: status_world
  have reads: "extends is_read (sv_sent w) (sent (snd (m h u)))"
    if "keeps (sent_as (extends is_read (sv_sent w))) m h" "extends is_read (sv_sent w) (sent u)"
    for m :: "('z net_scheme, 'a) web" and h u
    using keepsD [OF that(1), of u] that(2) by (simp add: sent_as_def)
  have "ok (snd (read_status e' u))" if "ok u" for e' u
    using that reads [OF grown.keeps_read_metrics, of "st_net u" "st_web e'"]
      reads [OF grown.keeps_pending_approvals, of "st_gh u" "st_web e'"]
      reads [OF grown.keeps_jobs_token, of "st_jobs u" "st_jobs_cfg e'" "st_web e'"]
      keepsD [OF keeps_worker_tokens, of "sv_tasks w" "st_calls u" "st_worker e'"]
    unfolding read_status_def ok_def by (auto simp: split_beta Let_def split: sum.split)
  then have "ok (snd (platform_status e' u))" if "ok u" for e' u
    using that by (simp add: platform_status_def split_beta)
  note this [of "\<lparr>st_net = \<lparr>sent = sv_sent w\<rparr>, st_calls = sv_tasks w, st_gh = \<lparr>sent = sv_sent w, gh_cache = sv_gh_cache w\<rparr>,
         st_jobs = jobs_part w\<rparr>" "status_part e"]
  then show ?thesis
    by (auto simp: run_status_def read_more_def ok_def jobs_part_def split_beta extends_def new_requests_def)
qed

lemma read_more_reads:
  assumes "only_reads t"
  shows "read_more w (snd (run_tool token t e w))"
proof (cases t)
  case (Home h)
  then show ?thesis
    using assms read_more_status
    by (cases h) (auto intro!: read_more_parts read_more_worker keeps_task_status grown.keeps_context grown.keeps_github_status
      grown.keeps_list_jobs grown.keeps_job_status grown.keeps_recent_logs)
next
  case (Hub h)
  then show ?thesis
    by (cases h) (auto intro!: read_more_parts grown.keeps_containers grown.keeps_scrape_targets grown.keeps_airflow_status
      grown.keeps_prometheus_query grown.keeps_prometheus_metrics)
next
  case (Market m)
  then show ?thesis by (simp add: read_more_parts grown.keeps_run_mkt_read)
next
  case (Airflow a)
  with assms show ?thesis
    by (cases a) (auto intro!: read_more_parts grown.keeps_airflow_runs grown.keeps_airflow_task_log grown.keeps_grafana_alerts
      grown.keeps_last_deploys)
next
  case (Secure s)
  have "read_more w w" by (simp add: read_more_def)
  with Secure read_more_summary show ?thesis
    by (cases s) (auto intro!: read_more_parts read_more_aws grown.keeps_update_status grown.keeps_security_events
      grown.keeps_github_security aws_grown.keeps_aws_posture grown.keeps_authentik_audit simp: run_exposure_def)
qed

section \<open>The tools that do more\<close>

text \<open>What a call may do besides reading, given the job registry in force: the requests that are no reads, the
  commands to the worker that ask for more than an answer, and the e-mails. \<open>run_job\<close> may dispatch the workflow
  once, as the registry allows; \<open>airflow_trigger\<close> may start one run of the market data DAG it was asked for;
  \<open>start_task\<close> may hand one task to the worker when tasks are switched on, with the repository, the instructions
  and the caller's name as its input, and then send one e-mail about it. Every other tool has no such effect.\<close>

fun changes :: "server_env \<Rightarrow> access option \<Rightarrow> json \<Rightarrow> tool \<Rightarrow> request list \<Rightarrow> (string \<times> string) list \<Rightarrow>
    (string \<times> string) list \<Rightarrow> bool" where
  "changes e token reg (Home (RunJob job args)) qs cs ms \<longleftrightarrow>
     (qs = [] \<or> (\<exists>q. qs = [q] \<and> allowed_dispatch (sv_jobs e) reg job args (request_id (sv_random e)) q)) \<and> cs = [] \<and> ms = []"
| "changes e token reg (Airflow (AirflowTrigger dag conf)) qs cs ms \<longleftrightarrow>
     (qs = [] \<or> market_dag (strip dag) \<and> (\<exists>tok. qs = [Request ''POST'' (airflow_url @ ''/api/v2/dags/'' @ strip dag @ ''/dagRuns'') []
        (Some tok) (Some (trigger_body conf))])) \<and> cs = [] \<and> ms = []"
| "changes e token reg (Home (StartTask repo instructions)) qs cs ms \<longleftrightarrow>
     qs = [] \<and>
     (cs = [] \<or> tasks_enabled (sv_worker e) \<and> repo \<in> set (hub_repos (sv_worker e)) \<and>
        cs = [(''start'', dumps (start_payload repo instructions (caller_name token)))]) \<and>
     (ms = [] \<or> cs \<noteq> [] \<and> (\<exists>tid. ms = [(''[home-mcp] Voice coding task started: '' @ repo @ '' ('' @ tid @ '')'',
        mail_body repo tid instructions (caller_name token))]))"
| "changes e token reg t qs cs ms \<longleftrightarrow> qs = [] \<and> cs = [] \<and> ms = []"

text \<open>What was recorded before stays, and what a call adds to the requests, the worker's commands and the e-mails is
  reads, but for the changes above. All that is new at AWS is reads.\<close>

definition effects :: "server_env \<Rightarrow> access option \<Rightarrow> tool \<Rightarrow> server_world \<Rightarrow> server_world \<Rightarrow> bool" where
  "effects e token t w w' \<longleftrightarrow>
     (\<exists>qs cs ms as. sv_sent w' = sv_sent w @ qs \<and> calls (sv_tasks w') = calls (sv_tasks w) @ cs \<and>
        outbox (sv_tasks w') = outbox (sv_tasks w) @ ms \<and> sv_aws_calls w' = sv_aws_calls w @ as \<and> list_all reads_aws as \<and>
        changes e token (snd (sv_registry w')) t (filter (\<lambda>q. \<not> is_read q) qs) (filter (\<lambda>c. \<not> asks_worker c) cs) ms)"

lemma read_more_effects:
  assumes "read_more w w'" and "changes e token (snd (sv_registry w')) t [] [] []"
  shows "effects e token t w w'"
proof -
  have none: "filter (\<lambda>x. \<not> P x) xs = []" if "list_all P xs" for P :: "'x \<Rightarrow> bool" and xs
    using that by (simp add: filter_empty_conv list_all_iff)
  obtain qs cs as where "sv_sent w' = sv_sent w @ qs" "list_all is_read qs"
      "calls (sv_tasks w') = calls (sv_tasks w) @ cs" "list_all asks_worker cs" "outbox (sv_tasks w') = outbox (sv_tasks w)"
      "sv_aws_calls w' = sv_aws_calls w @ as" "list_all reads_aws as"
    using assms(1) by (auto simp: read_more_def asks_more_def extends_def)
  then show ?thesis
    using assms(2) none [of is_read qs] none [of asks_worker cs] unfolding effects_def
    by (intro exI [of _ qs] exI [of _ cs] exI [of _ "[]"] exI [of _ as]) simp
qed

lemma only_reads_changes: "only_reads t \<Longrightarrow> changes e token reg t [] [] []"
  by (cases t rule: only_reads.cases) auto

lemma effects_run_job: "effects e token (Home (RunJob job args)) w (snd (run_tool token (Home (RunJob job args)) e w))"
proof -
  let ?run = "run_job (sv_jobs e) job args (sv_random e) (sv_web e) (jobs_part w)"
  let ?ok = "allowed_dispatch (sv_jobs e) (snd (registry (snd ?run))) job args (request_id (sv_random e))"
  have "reads_then ?ok (sent (jobs_part w)) (sent (snd ?run))"
    using run_job_sends [of "sv_jobs e" job args "sv_random e" "sv_web e" "jobs_part w"] by (simp add: wp_snd)
  then obtain g p where s: "sent (snd ?run) = sv_sent w @ g @ p" "set g \<subseteq> {registry_request}" "p = [] \<or> (\<exists>q. p = [q] \<and> ?ok q)"
    by (auto simp: reads_then_def jobs_part_def)
  have "filter (\<lambda>q. \<not> is_read q) g = []"
    using s(2) by (auto simp: filter_empty_conv registry_request_def)
  moreover have "\<not> is_read q" if "?ok q" for q
    using that by (auto simp: allowed_dispatch_def dispatch_request_def is_read_def)
  ultimately have "filter (\<lambda>q. \<not> is_read q) (g @ p) = p"
    using s(3) by auto
  then show ?thesis
    using s(1,3) unfolding effects_def
    by (intro exI [of _ "g @ p"] exI [of _ "[]"]) (simp add: with_jobs_def split_beta del: filter_append)
qed

text \<open>One call of Airflow: it may get a token first, and then sends at most its request.\<close>

lemma wp_call:
  assumes "\<And>r w' g p. sent w' = sent w @ g @ p \<Longrightarrow> list_all is_read g \<Longrightarrow>
    p = [] \<or> (\<exists>tok. p = [Request verb (airflow_url @ ''/api/v2/'' @ path) params (Some tok) payload]) \<Longrightarrow> Q r w'"
  shows "wp (call verb path params payload) e w Q"
proof -
  obtain r w1 where auth: "af_auth e w = (r, w1)" by fastforce
  then obtain g where g: "sent w1 = sent w @ g" "list_all is_read g"
    using keeps_extends [OF grown.keeps_af_auth, of w e] by (auto simp: extends_def)
  have stop: "Q r' w1" for r'
    using assms [of w1 g "[]"] g by simp
  have post: "Q r' w2" if "sent w2 = sent w1 @ [Request verb (airflow_url @ ''/api/v2/'' @ path) params (Some tok) payload]" for r' w2 tok
    using assms [of w2 g] that g by auto
  show ?thesis
    unfolding call_def catch_http_def wp_def
    by (cases r) (auto simp: auth bind_def try_catch_def ret_def raise_def send_def ask_def intro!: stop post split: sum.split)
qed

lemma wp_trigger:
  "wp (airflow_trigger dag conf) e w (\<lambda>r w'. \<exists>g p. sent w' = sent w @ g @ p \<and> list_all is_read g \<and>
     (p = [] \<or> market_dag (strip dag) \<and> (\<exists>tok. p = [Request ''POST'' (airflow_url @ ''/api/v2/dags/'' @ strip dag @ ''/dagRuns'') []
        (Some tok) (Some (trigger_body conf))])))"
  (is "wp _ e w ?Q")
proof (cases "match_dollar triggerable (strip dag)")
  case False
  then show ?thesis by (auto simp: airflow_trigger_def Let_def)
next
  case True
  note m = triggerable_strip [OF True]
  define ok where "ok s \<longleftrightarrow> (\<exists>g p. s = sent w @ g @ p \<and> list_all is_read g \<and>
     (p = [] \<or> market_dag (strip dag) \<and> (\<exists>tok. p = [Request ''POST'' (airflow_url @ ''/api/v2/dags/'' @ strip dag @ ''/dagRuns'') []
        (Some tok) (Some (trigger_body conf))])))" for s
  have get: "ok (sent w @ g @ p) \<and> (\<exists>g'. sent w @ g @ p = sent w @ g' \<and> list_all is_read g')"
    if "list_all is_read g" "p = [] \<or> (\<exists>tok. p = [Request ''GET'' url ps (Some tok) None])" for g p url ps
    unfolding ok_def using that by (intro conjI exI [of _ "g @ p"] exI [of _ "[]"]) auto
  have post: "ok (sent w @ g @ g' @ p)" if "list_all is_read g" "list_all is_read g'"
    "p = [] \<or> (\<exists>tok. p = [Request ''POST'' (airflow_url @ ''/api/v2/'' @ ''dags/'' @ strip dag @ ''/dagRuns'') []
        (Some tok) (Some (trigger_body conf))])" for g g' p
    unfolding ok_def using that m by (intro exI [of _ "g @ g'"] exI [of _ p]) auto
  have posted: "ok (sent w2)" if "sent w1 = sent w @ g" "list_all is_read g" "sent w2 = sent w1 @ g' @ p" "list_all is_read g'"
    "p = [] \<or> (\<exists>tok. p = [Request ''POST'' (airflow_url @ ''/api/v2/'' @ ''dags/'' @ strip dag @ ''/dagRuns'') []
        (Some tok) (Some (trigger_body conf))])" for w1 w2 :: airflow and g g' p
    using post [OF that(2,4,5)] that(1,3) by simp
  have "wp (airflow_trigger dag conf) e w (\<lambda>r w'. ok (sent w'))"
  proof (cases "conf_refusal conf")
    case None
    have second: "wp (bind (call ''POST'' (''dags/'' @ strip dag @ ''/dagRuns'') [] (Some (trigger_body conf))) f) e w1 (\<lambda>r w'. ok (sent w'))"
      if w1: "sent w1 = sent w @ g" "list_all is_read g" and f: "\<And>a v. sent (snd (f a e v)) = sent v" for g w1 and f :: "nat \<times> (string + json) \<Rightarrow> (airflow, string) web"
      unfolding wp_bind
      by (rule wp_call) (use posted [OF w1] in \<open>auto simp: wp_def f split_beta split: sum.split\<close>)
    have first: "wp (bind (call ''GET'' path [] None) f) e w (\<lambda>r w'. ok (sent w'))"
      if f: "\<And>a w1 g. sent w1 = sent w @ g \<Longrightarrow> list_all is_read g \<Longrightarrow> wp (f a) e w1 (\<lambda>r w'. ok (sent w'))"
      for path and f :: "nat \<times> (string + json) \<Rightarrow> (airflow, string) web"
      unfolding wp_bind
    proof (rule wp_call)
      fix r and w1 :: airflow and g p
      assume w1: "sent w1 = sent w @ g @ p" and "list_all is_read g"
        "p = [] \<or> (\<exists>tok. p = [Request ''GET'' (airflow_url @ ''/api/v2/'' @ path) [] (Some tok) None])"
      note g = get [OF this(2,3)]
      then obtain g' where "sent w1 = sent w @ g'" "list_all is_read g'" using w1 by auto
      then show "case r of Inl x \<Rightarrow> ok (sent w1) | Inr a \<Rightarrow> wp (f a) e w1 (\<lambda>r w'. ok (sent w'))"
        using f g w1 by (auto split: sum.split)
    qed
    have sent_ok: "ok (sent w1)" if "sent w1 = sent w @ g" "list_all is_read g" for w1 :: airflow and g
      using get [of g "[]"] that by simp
    have pure: "sent (snd (bind (liftR x) h e v)) = sent v" if "\<And>b. sent (snd (h b e v)) = sent v"
      for x and h :: "'b \<Rightarrow> (airflow, string) web" and v
      using that by (auto simp: bind_def liftR_def split: sum.split)
    have started: "\<not> \<not> match_dollar triggerable (strip dag)" using True by simp
    show ?thesis
      unfolding airflow_trigger_def Let_def None option.case if_not_P [OF started]
    proof (rule first, goal_cases)
      case w1: (1 a w1 g)
      obtain st info where a: "a = (st, info)" by fastforce
      show ?case
      proof (cases "st = 200")
        case True
        then have "\<not> st \<noteq> 200" by simp
        show ?thesis
          unfolding a prod.case if_not_P [OF \<open>\<not> st \<noteq> 200\<close>]
          by (rule second [OF w1]) (auto simp: pure ret_def split: prod.split)
      next
        case False
        then show ?thesis by (simp add: a sent_ok [OF w1])
      qed
    qed
  qed (use True get [of "[]" "[]"] in \<open>simp add: airflow_trigger_def Let_def\<close>)
  then show ?thesis unfolding ok_def by simp
qed

lemma effects_trigger:
  "effects e token (Airflow (AirflowTrigger dag conf)) w (snd (run_tool token (Airflow (AirflowTrigger dag conf)) e w))"
proof -
  let ?w = "\<lparr>sent = sv_sent w, af_token = sv_airflow w\<rparr>"
  let ?run = "airflow_trigger dag conf (sv_web e) ?w"
  obtain g p where s: "sent (snd ?run) = sv_sent w @ g @ p" "list_all is_read g"
      "p = [] \<or> market_dag (strip dag) \<and> (\<exists>tok. p = [Request ''POST'' (airflow_url @ ''/api/v2/dags/'' @ strip dag @ ''/dagRuns'') []
        (Some tok) (Some (trigger_body conf))])"
    using wp_trigger [of dag conf "sv_web e" ?w] by (auto simp: wp_snd)
  then have "filter (\<lambda>q. \<not> is_read q) (g @ p) = p"
    by (auto simp: filter_empty_conv list_all_iff is_read_def)
  then show ?thesis
    using s(1,3) unfolding effects_def
    by (intro exI [of _ "g @ p"] exI [of _ "[]"]) (simp add: with_airflow_def split_beta del: filter_append)
qed

lemma effects_start_task:
  "effects e token (Home (StartTask repo instructions)) w (snd (run_tool token (Home (StartTask repo instructions)) e w))"
proof -
  let ?user = "caller_name token"
  let ?start = "(''start'', dumps (start_payload repo instructions ?user))"
  let ?w' = "snd (start_task repo instructions ?user (sv_worker e) (sv_tasks w))"
  have s: "(calls ?w' = calls (sv_tasks w) \<or> tasks_enabled (sv_worker e) \<and> repo \<in> set (hub_repos (sv_worker e)) \<and>
        calls ?w' = calls (sv_tasks w) @ [?start])"
      "outbox ?w' = outbox (sv_tasks w) \<or> calls ?w' \<noteq> calls (sv_tasks w) \<and>
        (\<exists>tid. outbox ?w' = outbox (sv_tasks w) @ [(''[home-mcp] Voice coding task started: '' @ repo @ '' ('' @ tid @ '')'',
           mail_body repo tid instructions ?user)])"
    using start_task_calls [of repo instructions ?user "sv_worker e" "sv_tasks w"] unfolding wp_def split_beta by blast+
  have "\<not> asks_worker ?start" by (simp add: asks_worker_def)
  with s show ?thesis
    unfolding effects_def
    by (elim disjE conjE exE) (force simp: with_worker_def split_beta)+
qed

text \<open>C4: what a call of a tool of the server does to the world outside, for every tool, every caller and
  whatever the services answer. Nothing that was recorded before changes. Of the requests that are new, all are
  GETs without a body, except for at most one: the dispatch of \<open>run_job\<close>, of a job and with arguments that the
  registry in force allows, or the start of a run by \<open>airflow_trigger\<close>, of the market data DAG it was asked for. Of
  the new commands to the worker, all ask for its list, its health or a status, except for at most one \<open>start\<close> by
  \<open>start_task\<close>, for a repository of the hub's list, in the name of the caller; only after it, one e-mail
  goes out. AWS is only read.\<close>

theorem server_effects: "effects e token t w (snd (run_tool token t e w))"
proof (cases "only_reads t")
  case True
  then show ?thesis
    by (intro read_more_effects read_more_reads only_reads_changes)
next
  case False
  then show ?thesis
    by (cases t rule: only_reads.cases) (simp_all only: effects_start_task effects_run_job effects_trigger only_reads.simps simp_thms)
qed

end
