(* ===== verification/ExporterMetrics.thy ===== *)
theory ExporterMetrics
  imports TankExporter WeatherExporter CostExporter RachioExporter
begin

text \<open>
  The metrics that the four exporters declare, with the names of their labels. The client library refuses a
  sample under labels other than the declared ones; \<open>metrics\<close> is the interface under which an
  operation that sets a sample is shown to use a declared metric with its labels.
\<close>

type_synonym declared = "(string \<times> string list) list"

definition well_labelled :: "declared \<Rightarrow> registry \<Rightarrow> bool" where
  "well_labelled ds g \<longleftrightarrow> list_all (\<lambda>((metric, labels), v). map_of ds metric = Some (map fst labels)) g"

lemma well_labelled_set:
  "well_labelled ds g \<Longrightarrow> map_of ds metric = Some (map fst labels) \<Longrightarrow> well_labelled ds (set_gauge metric labels v g)"
  unfolding well_labelled_def set_gauge_def by (induction g) (auto split: if_splits)

lemma well_labelled_Nil [simp]: "well_labelled ds []"
  by (simp add: well_labelled_def)

locale metrics =
  fixes ds :: declared
    and reg :: "'w \<Rightarrow> registry"
    and put :: "string \<Rightarrow> (string \<times> string) list \<Rightarrow> 'v \<Rightarrow> ('e, 'w, 'x, unit) io"
    and val :: "'v \<Rightarrow> rat option"
  assumes put_sets: "reg (snd (put metric labels v e w)) = set_gauge metric labels (val v) (reg w)"
begin

abbreviation fine :: "'w \<Rightarrow> bool" where
  "fine w \<equiv> well_labelled ds (reg w)"

lemma keeps_put: "map_of ds metric = Some (map fst labels) \<Longrightarrow> keeps fine (put metric labels v) e"
  by (simp add: keeps_def put_sets well_labelled_set)

lemma keeps_reg: "(\<And>w. reg (snd (m e w)) = reg w) \<Longrightarrow> keeps fine m e"
  by (simp add: keeps_def)

lemmas keeps_metrics = keeps_bind keeps_andthen keeps_if keeps_split keeps_try_catch keeps_put

end

section \<open>The weather station\<close>

definition weather_metrics :: declared where
  "weather_metrics = map (\<lambda>m. (m, []))
    [''weather_outdoor_temp_fahrenheit'', ''weather_apparent_temp_fahrenheit'', ''weather_dew_point_fahrenheit'',
     ''weather_outdoor_humidity_percent'', ''weather_indoor_temp_fahrenheit'', ''weather_indoor_humidity_percent'',
     ''weather_pressure_relative_inhg'', ''weather_pressure_absolute_inhg'', ''weather_wind_direction_degrees'',
     ''weather_wind_speed_mph'', ''weather_wind_gust_mph'', ''weather_wind_gust_daily_max_mph'',
     ''weather_solar_radiation_watts_per_m2'', ''weather_uv_index'', ''weather_outdoor_temp_daily_max_fahrenheit'',
     ''weather_outdoor_temp_daily_min_fahrenheit'', ''weather_indoor_temp_daily_max_fahrenheit'',
     ''weather_indoor_temp_daily_min_fahrenheit'', ''weather_exporter_last_success_timestamp_seconds''] @
    map (\<lambda>m. (m, [''sensor'']))
    [''weather_rain_event_inches'', ''weather_rain_rate_inches_per_hour'', ''weather_rain_day_inches'', ''weather_rain_week_inches'',
     ''weather_rain_month_inches'', ''weather_rain_year_inches'', ''weather_rain_sensor_battery_raw'', ''weather_rain_sensor_voltage''] @
    map (\<lambda>m. (m, [''channel'']))
    [''weather_extra_sensor_temp_fahrenheit'', ''weather_extra_sensor_humidity_percent'',
     ''weather_extra_sensor_temp_daily_max_fahrenheit'', ''weather_extra_sensor_temp_daily_min_fahrenheit'']"

lemma weather_labels [simp]:
  "map_of weather_metrics ''weather_outdoor_temp_fahrenheit'' = Some []"
  "map_of weather_metrics ''weather_apparent_temp_fahrenheit'' = Some []"
  "map_of weather_metrics ''weather_dew_point_fahrenheit'' = Some []"
  "map_of weather_metrics ''weather_outdoor_humidity_percent'' = Some []"
  "map_of weather_metrics ''weather_indoor_temp_fahrenheit'' = Some []"
  "map_of weather_metrics ''weather_indoor_humidity_percent'' = Some []"
  "map_of weather_metrics ''weather_pressure_relative_inhg'' = Some []"
  "map_of weather_metrics ''weather_pressure_absolute_inhg'' = Some []"
  "map_of weather_metrics ''weather_wind_direction_degrees'' = Some []"
  "map_of weather_metrics ''weather_wind_speed_mph'' = Some []"
  "map_of weather_metrics ''weather_wind_gust_mph'' = Some []"
  "map_of weather_metrics ''weather_wind_gust_daily_max_mph'' = Some []"
  "map_of weather_metrics ''weather_solar_radiation_watts_per_m2'' = Some []"
  "map_of weather_metrics ''weather_uv_index'' = Some []"
  "map_of weather_metrics ''weather_outdoor_temp_daily_max_fahrenheit'' = Some []"
  "map_of weather_metrics ''weather_outdoor_temp_daily_min_fahrenheit'' = Some []"
  "map_of weather_metrics ''weather_indoor_temp_daily_max_fahrenheit'' = Some []"
  "map_of weather_metrics ''weather_indoor_temp_daily_min_fahrenheit'' = Some []"
  "map_of weather_metrics ''weather_exporter_last_success_timestamp_seconds'' = Some []"
  "map_of weather_metrics ''weather_rain_event_inches'' = Some [''sensor'']"
  "map_of weather_metrics ''weather_rain_rate_inches_per_hour'' = Some [''sensor'']"
  "map_of weather_metrics ''weather_rain_day_inches'' = Some [''sensor'']"
  "map_of weather_metrics ''weather_rain_week_inches'' = Some [''sensor'']"
  "map_of weather_metrics ''weather_rain_month_inches'' = Some [''sensor'']"
  "map_of weather_metrics ''weather_rain_year_inches'' = Some [''sensor'']"
  "map_of weather_metrics ''weather_rain_sensor_battery_raw'' = Some [''sensor'']"
  "map_of weather_metrics ''weather_rain_sensor_voltage'' = Some [''sensor'']"
  "map_of weather_metrics ''weather_extra_sensor_temp_fahrenheit'' = Some [''channel'']"
  "map_of weather_metrics ''weather_extra_sensor_humidity_percent'' = Some [''channel'']"
  "map_of weather_metrics ''weather_extra_sensor_temp_daily_max_fahrenheit'' = Some [''channel'']"
  "map_of weather_metrics ''weather_extra_sensor_temp_daily_min_fahrenheit'' = Some [''channel'']"
  by (simp_all add: weather_metrics_def)

interpretation weather: metrics weather_metrics weather_gauges WeatherExporter.emit id
  by unfold_locales (simp add: WeatherExporter.emit_def modify_def)

lemma weather_pure [simp]:
  "keeps P (as_entry j) e" "keeps P (entries_of k d) e" "keeps P (number_field k d) e"
  by (simp_all add: as_entry_def entries_of_def number_field_def split: json.split option.split)

lemma weather_find [simp]: "keeps P (find_entry xs i) e"
  by (induction xs) (auto intro!: keeps_bind)

lemma weather_entries:
  assumes "list_all (\<lambda>im. map_of weather_metrics (snd im) = Some (map fst labels)) ims"
  shows "keeps weather.fine (emit_entries entries labels ims) e"
  using assms
  by (induction ims) (auto simp: emit_entry_def intro!: weather.keeps_metrics)

lemma weather_lists:
  "keeps weather.fine (emit_entries entries [(''sensor'', sensor)] rain_metrics) e"
  "keeps weather.fine (emit_entries entries [] common_metrics) e"
  by (rule weather_entries, simp add: rain_metrics_def common_metrics_def)+

lemma weather_daily:
  assumes "map_of weather_metrics (metric @ ''_daily_min_fahrenheit'') = Some (map fst labels)"
    and "map_of weather_metrics (metric @ ''_daily_max_fahrenheit'') = Some (map fst labels)"
  shows "keeps weather.fine (emit_daily key metric labels v) e"
proof -
  have "keeps weather.fine (track_daily key v) e"
    by (rule weather.keeps_reg) (simp add: track_daily_def Let_def split: option.split)
  then show ?thesis
    using assms unfolding emit_daily_def by (auto intro!: weather.keeps_metrics)
qed

lemma weather_rain: "keeps weather.fine (apply_rain entries sensor) e"
  unfolding apply_rain_def optional_field_def Let_def
  by (auto intro!: weather.keeps_metrics weather_lists)

lemma weather_channels: "keeps weather.fine (poll_channels xs) e"
  by (induction xs)
    (auto simp: poll_channel_def Let_def intro!: weather.keeps_metrics weather_daily)

lemma weather_poll: "keeps weather.fine WeatherExporter.poll e"
proof -
  have "keeps weather.fine (poll_outdoor common) e" for common
    unfolding poll_outdoor_def
    by (auto intro!: weather.keeps_metrics weather_lists weather_daily)
  moreover have "keeps weather.fine (poll_indoor l) e" for l
    unfolding poll_indoor_def
    by (auto intro!: weather.keeps_metrics weather_daily)
  ultimately show ?thesis
    unfolding WeatherExporter.poll_def by (auto intro!: weather.keeps_metrics weather_rain weather_channels)
qed

section \<open>The propane tanks\<close>

definition tank_metrics :: declared where
  "tank_metrics = map (\<lambda>m. (m, [''sensor'', ''mac'']))
    [''mopeka_sensor_temperature_celsius'', ''mopeka_sensor_battery_percent'', ''mopeka_sensor_battery_volts'',
     ''mopeka_sensor_tank_level_mm'', ''mopeka_sensor_fill_percent'', ''mopeka_sensor_reading_quality_percent'',
     ''mopeka_sensor_last_seen_timestamp_seconds''] @
    [(''mopeka_sensor_signal_dbm'', [''sensor'', ''mac'', ''proxy'']), (''mopeka_proxy_up'', [''proxy'']),
     (''mopeka_exporter_last_success_timestamp_seconds'', [''proxy''])]"

interpretation tank: metrics tank_metrics tank_gauges put_gauge Some
  by unfold_locales (simp add: put_gauge_def modify_def)

lemma tank_labels [simp]:
  "map_of tank_metrics ''mopeka_sensor_fill_percent'' = Some [''sensor'', ''mac'']"
  "map_of tank_metrics ''mopeka_sensor_last_seen_timestamp_seconds'' = Some [''sensor'', ''mac'']"
  "map_of tank_metrics ''mopeka_sensor_signal_dbm'' = Some [''sensor'', ''mac'', ''proxy'']"
  "map_of tank_metrics ''mopeka_proxy_up'' = Some [''proxy'']"
  "map_of tank_metrics ''mopeka_exporter_last_success_timestamp_seconds'' = Some [''proxy'']"
  by (simp_all add: tank_metrics_def)

lemma tank_values: "map_of metric_by_key k = Some metric \<Longrightarrow> map_of tank_metrics metric = Some [''sensor'', ''mac'']"
  by (auto simp: metric_by_key_def tank_metrics_def split: if_splits)

lemma tank_on_raw: "keeps tank.fine (on_raw proxy advs) e"
proof -
  have vals: "keeps tank.fine (export_values name m xs) e" for name m xs
    by (induction xs) (auto simp: export_value_def tank_values intro!: tank.keeps_metrics)
  have fill: "keeps tank.fine (export_fill name m cfg l) e" for name m cfg l
    unfolding export_fill_def by (auto intro!: tank.keeps_metrics)
  have dec: "keeps tank.fine (decoder m info) e" "keeps tank.fine (decode m d info) e" for m info d
    by (rule tank.keeps_reg, simp add: decoder_def decode_def split_beta split: option.split prod.split bool.split)+
  have "keeps tank.fine (handle_advertisement proxy address rssi raw) e" for address rssi raw
    unfolding handle_advertisement_def Let_def by (auto intro!: tank.keeps_metrics vals fill dec)
  then show ?thesis
    by (induction proxy advs rule: on_raw.induct) (auto intro!: tank.keeps_metrics)
qed

lemma tank_proxy_up: "tank.fine w \<Longrightarrow> tank.fine (proxy_up name v w)" "tank.fine w \<Longrightarrow> tank.fine (connected t name w)"
  by (simp_all add: proxy_up_def connected_def Let_def well_labelled_set)

lemma tank_reachable:
  fixes s :: "'d net_state"
  assumes "reachable lib cfgs names s"
  shows "tank.fine (exporter s)"
proof -
  have "tank.fine w \<Longrightarrow> tank.fine (fold (\<lambda>n. proxy_up n 0) ns w)" for ns and w :: "'d tank_world"
    by (induction ns arbitrary: w) (simp_all add: tank_proxy_up)
  then have start: "tank.fine (exporter (initial names :: 'd net_state))"
    by (simp add: initial_def)
  from assms show ?thesis
    unfolding reachable_def
  proof (induction rule: rtranclp_induct)
    case (step s s')
    from step.hyps(2) step.IH show ?case
      by (cases rule: proxy_step.cases) (simp_all add: tank_proxy_up keepsD [OF tank_on_raw])
  qed (rule start)
qed

section \<open>Costs and valves\<close>

definition cost_metrics :: declared where
  "cost_metrics = map (\<lambda>m. (m, []))
    [''aws_cost_yesterday_usd'', ''aws_cost_month_to_date_usd'', ''aws_cost_forecast_month_usd'', ''aws_cost_month_to_date_gross_usage_usd'',
     ''aws_cost_month_to_date_credits_usd'', ''aws_cost_exporter_last_success_timestamp_seconds''] @
    [(''aws_cost_by_service_usd'', [''service''])]"

interpretation cost: metrics cost_metrics cost_gauges set_cost Some
  by unfold_locales (simp add: set_cost_def modify_def)

lemma cost_labels [simp]:
  "map_of cost_metrics ''aws_cost_yesterday_usd'' = Some []" "map_of cost_metrics ''aws_cost_month_to_date_usd'' = Some []"
  "map_of cost_metrics ''aws_cost_forecast_month_usd'' = Some []" "map_of cost_metrics ''aws_cost_month_to_date_gross_usage_usd'' = Some []"
  "map_of cost_metrics ''aws_cost_month_to_date_credits_usd'' = Some []"
  "map_of cost_metrics ''aws_cost_exporter_last_success_timestamp_seconds'' = Some []"
  "map_of cost_metrics ''aws_cost_by_service_usd'' = Some [''service'']"
  by (simp_all add: cost_metrics_def)

lemma cost_turn_fine: "keeps cost.fine cost_turn e"
proof -
  have call: "keeps cost.fine (call_ce c) e" for c
    by (rule cost.keeps_reg) (simp add: call_ce_def)
  have "keeps cost.fine (set_services gs acc) e" for gs acc
    by (induction gs arbitrary: acc) (auto intro!: cost.keeps_metrics)
  then show ?thesis
    unfolding cost_turn_def cost_poll_def set_forecast_def by (auto intro!: cost.keeps_metrics call)
qed

definition valve_metrics :: declared where
  "valve_metrics =
    [(''rachio_valve_watered_today'', [''valve'']), (''rachio_valve_last_watered_timestamp_seconds'', [''valve'']),
     (''rachio_exporter_last_success_timestamp_seconds'', [])]"

lemma valves_fine: "well_labelled valve_metrics g \<Longrightarrow> well_labelled valve_metrics (export_valves local t st g)"
proof -
  have "well_labelled valve_metrics g \<Longrightarrow> well_labelled valve_metrics (fold set_watered vs g)" for vs g
    by (induction vs arbitrary: g) (simp_all add: set_watered_def well_labelled_set valve_metrics_def)
  moreover have "well_labelled valve_metrics g \<Longrightarrow> well_labelled valve_metrics (fold (set_last local) vs g)" for vs g
    by (induction vs arbitrary: g) (simp_all add: set_last_def well_labelled_set valve_metrics_def)
  ultimately show "well_labelled valve_metrics g \<Longrightarrow> well_labelled valve_metrics (export_valves local t st g)"
    unfolding export_valves_def by (intro well_labelled_set) (simp_all add: valve_metrics_def)
qed

lemma rachio_turn_fine: "keeps (\<lambda>w. well_labelled valve_metrics (valve_gauges w)) rachio_turn e"
proof -
  let ?P = "\<lambda>w. well_labelled valve_metrics (valve_gauges w)"
  have call: "keeps ?P (call_rachio c) e" for c
    by (simp add: keeps_def call_rachio_def)
  have "keeps ?P (modify (\<lambda>w. w\<lparr>valve_gauges := export_valves l t st (valve_gauges w)\<rparr>)) e" for l t st
    by (simp add: keeps_def modify_def valves_fine)
  then have poll: "keeps ?P valve_poll e"
    unfolding valve_poll_def by (auto intro!: keeps_bind call)
  have "keeps ?P (modify (\<lambda>w. w\<lparr>base_station := b\<rparr>)) e" "keeps ?P (modify (\<lambda>w. w\<lparr>valve_names := ns\<rparr>)) e" for b ns
    by (simp_all add: keeps_def modify_def)
  then have "keeps ?P discover e"
    unfolding discover_def by (auto intro!: keeps_bind keeps_andthen call)
  with poll show ?thesis
    unfolding rachio_turn_def by (auto intro!: keeps_bind keeps_try_catch keeps_split)
qed

section \<open>Every sample is declared\<close>

definition turns :: "('e, 'w, 'x, unit) io \<Rightarrow> 'e list \<Rightarrow> 'w \<Rightarrow> 'w" where
  "turns m es w = fold (\<lambda>e w. snd (m e w)) es w"

lemma keeps_turns: "(\<And>e. keeps P m e) \<Longrightarrow> P w \<Longrightarrow> P (turns m es w)"
  unfolding turns_def by (induction es arbitrary: w) (auto simp: keeps_def)

text \<open>C23: However often the loops of the exporters turn, whatever the station, the accounts and the proxies answer, and
  however the connections to the proxies come and go, every sample is one of a declared metric, under exactly the
  label names that were declared for it.\<close>

theorem samples_declared:
  assumes "reachable lib cfgs names s"
  shows "well_labelled tank_metrics (tank_gauges (exporter s)) \<and>
    well_labelled weather_metrics (weather_gauges (turns WeatherExporter.turn wes \<lparr>daily_stats = [], weather_gauges = []\<rparr>)) \<and>
    well_labelled cost_metrics (cost_gauges (turns cost_turn ces \<lparr>ce_calls = [], cost_gauges = []\<rparr>)) \<and>
    well_labelled valve_metrics (valve_gauges (turns rachio_turn res
      \<lparr>rachio_calls = [], base_station = None, valve_names = [], valve_gauges = []\<rparr>))"
proof (intro conjI)
  show "well_labelled tank_metrics (tank_gauges (exporter s))"
    using tank_reachable [OF assms] .
  have "keeps weather.fine WeatherExporter.turn e" for e
    unfolding WeatherExporter.turn_def by (intro keeps_try_catch weather_poll keeps_pure)
  then show "well_labelled weather_metrics (weather_gauges (turns WeatherExporter.turn wes \<lparr>daily_stats = [], weather_gauges = []\<rparr>))"
    by (rule keeps_turns) simp
  show "well_labelled cost_metrics (cost_gauges (turns cost_turn ces \<lparr>ce_calls = [], cost_gauges = []\<rparr>))"
    by (rule keeps_turns, rule cost_turn_fine) simp
  show "well_labelled valve_metrics (valve_gauges (turns rachio_turn res
      \<lparr>rachio_calls = [], base_station = None, valve_names = [], valve_gauges = []\<rparr>))"
    by (rule keeps_turns, rule rachio_turn_fine) simp
qed

theorem samples_declared_witness:
  "up_gauge ''a'' (exporter first_connected) = Some (Some 1) \<and> well_labelled tank_metrics (tank_gauges (exporter first_connected))"
  using samples_declared [OF first_connected_reachable, of "[]" "[]" "[]"]
  by (simp add: first_connected_def initial_def Let_def)

end
