(* ===== verification/AppTemplate.thy ===== *)
theory AppTemplate
  imports PyNum Json IoMonad
begin

text \<open>
  The app template (\<open>src/templates/python/app\<close>) from which the apps of the platform are made: its settings
  (\<open>config.py\<close>), the database check (\<open>db.py\<close>), the gRPC server that shares its process (\<open>grpc_server.py\<close>), and its
  routes behind the login check (\<open>main.py\<close>). The web framework, the session cookie, the OIDC client, SQLAlchemy
  and grpc are libraries. A session is what its signed cookie holds; what the OIDC client and the database
  answer is the environment, and the tokens that the OIDC client handed out so far are part of the state.
\<close>

section \<open>Settings\<close>

record settings =
  app_name :: string
  session_secret :: string
  postgres_host :: string
  postgres_password :: "string option"
  database_setting :: "string option"
  grpc_port :: int
  authentik_base_url :: string
  client_id :: "string option"
  client_secret :: "string option"

text \<open>\<open>None\<close>: the port is not a number, and importing the module raises.\<close>

definition settings_of :: "string dict \<Rightarrow> settings option" where
  "settings_of env = map_option (\<lambda>port.
     \<lparr>app_name = get_or ''app'' ''APP_NAME'' env,
      session_secret = get_or ''dev-insecure-secret-change-me'' ''SESSION_SECRET'' env,
      postgres_host = get_or ''postgres'' ''POSTGRES_HOST'' env, postgres_password = map_of env ''POSTGRES_PASSWORD'',
      database_setting = map_of env ''DATABASE_URL'', grpc_port = port,
      authentik_base_url = get_or ''https://auth.billandjessie.com'' ''AUTHENTIK_BASE_URL'' env,
      client_id = map_of env ''AUTHENTIK_CLIENT_ID'', client_secret = map_of env ''AUTHENTIK_CLIENT_SECRET''\<rparr>)
     (int_of (get_or ''9090'' ''GRPC_PORT'' env))"

definition given :: "string option \<Rightarrow> bool" where
  "given v \<longleftrightarrow> v \<noteq> None \<and> v \<noteq> Some []"

lemma given_simps [simp]: "\<not> given None" "given (Some s) = (s \<noteq> [])"
  by (auto simp: given_def)

definition auth_configured :: "settings \<Rightarrow> bool" where
  "auth_configured s \<longleftrightarrow> given (client_id s) \<and> given (client_secret s)"

text \<open>Where the OIDC client reads Authentik's endpoints.\<close>

definition metadata_url :: "settings \<Rightarrow> string" where
  "metadata_url s = authentik_base_url s @ ''/application/o/'' @ app_name s @ ''/.well-known/openid-configuration''"

section \<open>The database\<close>

datatype app_exn = SqlError string | AppError string

definition database_url :: "settings \<Rightarrow> string option" where
  "database_url s =
     (if given (database_setting s) then database_setting s
      else if \<not> given (postgres_password s) then None
      else Some (''postgresql+psycopg2://'' @ app_name s @ '':'' @ the (postgres_password s) @ ''@'' @ postgres_host s @
        '':5432/'' @ app_name s))"

text \<open>What SQLAlchemy does with an address: making the engine reads the address, connecting asks the database.\<close>

record app_env =
  create_engine :: "string \<Rightarrow> app_exn + unit"
  select_1 :: "string \<Rightarrow> app_exn + unit"
  authorize_redirect :: "nat \<Rightarrow> json dict \<Rightarrow> (app_exn + string) \<times> json dict"
  access_token :: "nat \<Rightarrow> json dict \<Rightarrow> (app_exn + json dict) \<times> json dict"
  framework_page :: "string \<Rightarrow> json \<times> nat"

definition check_connection :: "settings \<Rightarrow> app_env \<Rightarrow> app_exn + bool" where
  "check_connection s e =
     (case database_url s of
        None \<Rightarrow> Inr False
      | Some url \<Rightarrow> bindR (create_engine e url) (\<lambda>_.
          case select_1 e url of
            Inr _ \<Rightarrow> Inr True
          | Inl (SqlError _) \<Rightarrow> Inr False
          | Inl x \<Rightarrow> Inl x))"

lemma connected_iff:
  "check_connection s e = Inr True \<longleftrightarrow>
     (\<exists>url. database_url s = Some url \<and> create_engine e url = Inr () \<and> select_1 e url = Inr ())"
  by (auto simp: check_connection_def bindR_def split: option.splits sum.splits app_exn.splits)

lemma unreachable_database:
  "database_url s = Some url \<Longrightarrow> create_engine e url = Inr () \<Longrightarrow> select_1 e url = Inl (SqlError m) \<Longrightarrow>
    check_connection s e = Inr False"
  by (simp add: check_connection_def bindR_def)

text \<open>An address that SQLAlchemy cannot read raises out of the check, although the error is one that it catches.\<close>

lemma unreadable_address_raises:
  "database_url s = Some url \<Longrightarrow> create_engine e url = Inl (SqlError m) \<Longrightarrow> check_connection s e = Inl (SqlError m)"
  by (simp add: check_connection_def bindR_def)

section \<open>The routes\<close>

record visit =
  session :: "json dict"
  tokens :: "json dict list"
  exchanges :: nat

type_synonym 'a app_io = "(app_env, visit, app_exn, 'a) io"

datatype page =
    Answer json nat      \<comment> \<open>a JSON body and its status\<close>
  | Goto string          \<comment> \<open>a redirect of the app\<close>
  | ToAuthentik string   \<comment> \<open>the redirect that the OIDC client makes\<close>

definition public_paths :: "string list" where
  "public_paths = [''/health'', ''/login'', ''/auth/callback'']"

definition not_configured :: page where
  "not_configured = Answer (JObj [(''error'', JStr ''auth not configured'')]) 501"

definition health :: "page app_io" where
  "health = ret (Answer (JObj [(''status'', JStr ''ok'')]) 200)"

definition front :: "settings \<Rightarrow> page app_io" where
  "front s = ret (Answer (JObj [(''app'', JStr (app_name s)), (''status'', JStr ''running'')]) 200)"

definition db_check :: "settings \<Rightarrow> page app_io" where
  "db_check s = bind (\<lambda>e w. (check_connection s e, w)) (\<lambda>b. ret (Answer (JObj [(''connected'', JBool b)]) 200))"

text \<open>The OIDC client keeps its own entries in the session while the user is at Authentik.\<close>

definition ask_redirect :: "string app_io" where
  "ask_redirect = (\<lambda>e w. case authorize_redirect e (exchanges w) (session w) of
     (r, d) \<Rightarrow> (r, w\<lparr>session := d, exchanges := Suc (exchanges w)\<rparr>))"

definition ask_token :: "json dict app_io" where
  "ask_token = (\<lambda>e w. case access_token e (exchanges w) (session w) of
     (r, d) \<Rightarrow> (r, w\<lparr>session := d, exchanges := Suc (exchanges w),
       tokens := (case r of Inr t \<Rightarrow> t # tokens w | Inl _ \<Rightarrow> tokens w)\<rparr>))"

definition login :: "settings \<Rightarrow> page app_io" where
  "login s = (if \<not> auth_configured s then ret not_configured else bind ask_redirect (\<lambda>url. ret (ToAuthentik url)))"

definition auth_callback :: "settings \<Rightarrow> page app_io" where
  "auth_callback s =
     (if \<not> auth_configured s then ret not_configured
      else bind ask_token (\<lambda>token.
        andthen (modify (\<lambda>w. w\<lparr>session := AList.update ''user'' (jget ''userinfo'' token) (session w)\<rparr>))
        (ret (Goto ''/''))))"

text \<open>The router, for a GET request; a path without a route is answered by the framework.\<close>

definition call_next :: "settings \<Rightarrow> string \<Rightarrow> page app_io" where
  "call_next s path =
     (if path = ''/health'' then health
      else if path = ''/'' then front s
      else if path = ''/db-check'' then db_check s
      else if path = ''/login'' then login s
      else if path = ''/auth/callback'' then auth_callback s
      else bind (ask (\<lambda>e. framework_page e path)) (\<lambda>(body, code). ret (Answer body code)))"

definition refusal :: "string \<Rightarrow> page" where
  "refusal path =
     (if prefix ''/api/'' path then Answer (JObj [(''error'', JStr ''authentication required'')]) 401 else Goto ''/login'')"

definition require_auth :: "settings \<Rightarrow> string \<Rightarrow> page app_io" where
  "require_auth s path =
     (if \<not> auth_configured s \<or> path \<in> set public_paths then call_next s path
      else bind (gets session) (\<lambda>d.
        if \<not> truthy (jget ''user'' d) then ret (refusal path) else call_next s path))"

section \<open>Browsers\<close>

text \<open>The cookies that the app has signed, and the tokens it was given. A browser sends any of the cookies, or
  none; a cookie that was not signed with the app's secret is an empty session, which is the documented behaviour
  of \<open>SessionMiddleware\<close>. After an answer the session is the new cookie unless it is empty; an exception
  leaves without one.\<close>

record app_state =
  cookies :: "json dict list"
  granted :: "json dict list"

text \<open>The documented behaviour of the OIDC client: it has no entry called \<open>user\<close> of its own.\<close>

definition oidc_entries :: "app_env \<Rightarrow> bool" where
  "oidc_entries e \<longleftrightarrow>
     (\<forall>n d. jget ''user'' (snd (authorize_redirect e n d)) = jget ''user'' d \<and> jget ''user'' (snd (access_token e n d)) = jget ''user'' d)"

definition serve :: "settings \<Rightarrow> app_env \<Rightarrow> string \<Rightarrow> json dict \<Rightarrow> app_state \<Rightarrow> (app_exn + page) \<times> app_state" where
  "serve s e path d st =
     (case require_auth s path e \<lparr>session = d, tokens = granted st, exchanges = 0\<rparr> of
        (r, w) \<Rightarrow> (r, \<lparr>cookies = (if isl r \<or> session w = [] then cookies st else session w # cookies st), granted = tokens w\<rparr>))"

inductive visited :: "settings \<Rightarrow> app_state \<Rightarrow> bool" for s where
  Begin: "visited s \<lparr>cookies = [], granted = []\<rparr>"
| Visit: "visited s st \<Longrightarrow> oidc_entries e \<Longrightarrow> d \<in> insert [] (set (cookies st)) \<Longrightarrow> visited s (snd (serve s e path d st))"

text \<open>A session is sound if its user is one of a token.\<close>

definition sound :: "json dict list \<Rightarrow> json dict \<Rightarrow> bool" where
  "sound ts d \<longleftrightarrow> (truthy (jget ''user'' d) \<longrightarrow> (\<exists>t\<in>set ts. jget ''user'' d = jget ''userinfo'' t))"

lemma sound_Nil [simp]: "sound ts []"
  by (simp add: sound_def)

lemma sound_more: "sound ts d \<Longrightarrow> set ts \<subseteq> set us \<Longrightarrow> sound us d"
  by (auto simp: sound_def)

abbreviation sound_visit :: "json dict list \<Rightarrow> visit \<Rightarrow> bool" where
  "sound_visit ts w \<equiv> sound (tokens w) (session w) \<and> set ts \<subseteq> set (tokens w)"

lemma sound_calls:
  assumes "oidc_entries e"
  shows "keeps (sound_visit ts) ask_redirect e" "keeps (sound_visit ts) (auth_callback s) e"
proof -
  show "keeps (sound_visit ts) ask_redirect e"
    using assms by (auto simp: keeps_def ask_redirect_def oidc_entries_def sound_def split_beta)
  have "sound_visit ts (snd (auth_callback s e w))" if w: "sound_visit ts w" for w
  proof (cases "auth_configured s")
    case True
    obtain r d where a: "access_token e (exchanges w) (session w) = (r, d)"
      by fastforce
    then have "jget ''user'' d = jget ''user'' (session w)"
      using assms unfolding oidc_entries_def by (metis snd_conv)
    with w a True show ?thesis
      by (cases r) (auto simp: auth_callback_def ask_token_def bind_def andthen_def modify_def ret_def sound_def)
  qed (use w in \<open>simp add: auth_callback_def ret_def\<close>)
  then show "keeps (sound_visit ts) (auth_callback s) e"
    by (simp add: keeps_def)
qed

lemma sound_serve:
  assumes "oidc_entries e"
  shows "keeps (sound_visit ts) (require_auth s path) e"
proof -
  have "keeps (sound_visit ts) (db_check s) e"
    unfolding db_check_def by (rule keeps_bind) (simp_all add: keeps_def [of _ "\<lambda>e. Pair (check_connection s e)"])
  then have "keeps (sound_visit ts) (call_next s path) e"
    using sound_calls [OF assms]
    unfolding call_next_def health_def front_def login_def
    by (auto intro!: keeps_bind)
  then show ?thesis
    unfolding require_auth_def by (auto intro!: keeps_bind)
qed

lemma visited_sound:
  assumes "visited s st"
  shows "\<forall>d\<in>set (cookies st). sound (granted st) d"
  using assms
proof induction
  case (Visit st e d path)
  let ?v = "\<lparr>session = d, tokens = granted st, exchanges = 0\<rparr>"
  obtain r w where w: "require_auth s path e ?v = (r, w)"
    by fastforce
  have "sound_visit (granted st) ?v"
    using Visit by auto
  from keepsD [OF sound_serve [OF Visit.hyps(2)] this, of s path] have "sound_visit (granted st) w"
    by (simp add: w)
  with Visit.IH w show ?case
    by (auto simp: serve_def intro: sound_more)
qed simp

text \<open>C17: Once the login is set up, whatever requests were made before and with whatever cookies, a request for a page
  that is not public gets the refusal of the login check and changes nothing, unless the user of its session is one
  that Authentik named in a token which the app fetched itself.\<close>

theorem only_granted_users:
  assumes "visited s st" and "auth_configured s" and "path \<notin> set public_paths"
    and "d \<in> insert [] (set (cookies st))"
    and "\<And>t. t \<in> set (granted st) \<Longrightarrow> truthy (jget ''userinfo'' t) \<Longrightarrow> jget ''user'' d \<noteq> jget ''userinfo'' t"
  shows "fst (serve s e path d st) = Inr (refusal path) \<and> granted (snd (serve s e path d st)) = granted st \<and>
    set (cookies (snd (serve s e path d st))) \<subseteq> insert d (set (cookies st))"
proof -
  have "\<not> truthy (jget ''user'' d)"
    using visited_sound [OF assms(1)] assms(4,5) unfolding sound_def by (metis insert_iff jget_simps(1) truthy_simps(1))
  with assms(2,3) show ?thesis
    by (auto simp: serve_def require_auth_def bind_def gets_def ret_def)
qed

section \<open>Signing in\<close>

text \<open>A user whom Authentik names gets every page, with the cookie of the callback.\<close>

lemma signed_in:
  assumes "auth_configured s" and "access_token e 0 d = (Inr token, d')" and "truthy (jget ''userinfo'' token)"
  shows "fst (serve s e ''/auth/callback'' d st) = Inr (Goto ''/'')"
    and "\<exists>c. cookies (snd (serve s e ''/auth/callback'' d st)) = c # cookies st \<and>
      (\<forall>path e' st'. fst (serve s e' path c st') = fst (call_next s path e' \<lparr>session = c, tokens = granted st', exchanges = 0\<rparr>))"
proof -
  let ?c = "AList.update ''user'' (jget ''userinfo'' token) d'"
  have "?c \<noteq> []"
    by (cases d') auto
  moreover have "truthy (jget ''user'' ?c)"
    using assms(3) by simp
  ultimately show "fst (serve s e ''/auth/callback'' d st) = Inr (Goto ''/'')"
    "\<exists>c. cookies (snd (serve s e ''/auth/callback'' d st)) = c # cookies st \<and>
      (\<forall>path e' st'. fst (serve s e' path c st') = fst (call_next s path e' \<lparr>session = c, tokens = granted st', exchanges = 0\<rparr>))"
    using assms
    by (auto simp: serve_def require_auth_def call_next_def auth_callback_def ask_token_def public_paths_def bind_def andthen_def
      modify_def gets_def ret_def split: prod.splits)
qed

text \<open>A token without \<open>userinfo\<close> signs nobody in: the page that the callback leads to leads to the login again.\<close>

lemma nobody_signed_in:
  assumes "auth_configured s" and "access_token e 0 d = (Inr token, d')" and "map_of token ''userinfo'' = None"
  shows "fst (serve s e ''/auth/callback'' d st) = Inr (Goto ''/'')"
    and "\<exists>c. cookies (snd (serve s e ''/auth/callback'' d st)) = c # cookies st \<and> fst (serve s e' ''/'' c st') = Inr (Goto ''/login'')"
proof -
  let ?c = "AList.update ''user'' JNull d'"
  have "jget ''userinfo'' token = JNull" "?c \<noteq> []"
    using assms(3) by (cases d', auto simp: jget_def get_or_def)
  then show "fst (serve s e ''/auth/callback'' d st) = Inr (Goto ''/'')"
    "\<exists>c. cookies (snd (serve s e ''/auth/callback'' d st)) = c # cookies st \<and> fst (serve s e' ''/'' c st') = Inr (Goto ''/login'')"
    using assms
    by (auto simp: serve_def require_auth_def call_next_def auth_callback_def ask_token_def public_paths_def bind_def andthen_def
      modify_def gets_def ret_def refusal_def prefix_def)
qed

section \<open>The gRPC server\<close>

datatype grpc_call =
    AddServicer string | AddPort string | StartServer | SetStatus string string | StopServer nat

text \<open>What the grpc library answers: the port it bound, and whether the server starts. The full name of the
  example service is in the generated code.\<close>

record grpc_env =
  bound_port :: "string \<Rightarrow> app_exn + int"
  server_start :: "app_exn + unit"
  example_service :: string

type_synonym 'a grpc_io = "(grpc_env, grpc_call list, app_exn, 'a) io"

definition grpc_does :: "grpc_call \<Rightarrow> unit grpc_io" where
  "grpc_does c = modify (\<lambda>w. w @ [c])"

definition ping :: "string \<Rightarrow> string" where
  "ping m = ''pong: '' @ m"

definition start_grpc_server :: "int \<Rightarrow> int grpc_io" where
  "start_grpc_server port =
     bind (ask example_service) (\<lambda>example.
     andthen (grpc_does (AddServicer example))
     (andthen (grpc_does (AddServicer ''grpc.health.v1.Health''))
     (let addr = ''[::]:'' @ str_of_int port in
      andthen (grpc_does (AddPort addr))
      (bind (\<lambda>e w. (bound_port e addr, w)) (\<lambda>bound.
      andthen (grpc_does StartServer)
      (andthen (\<lambda>e w. (server_start e, w))
      (andthen (grpc_does (SetStatus [] ''SERVING''))
      (andthen (grpc_does (SetStatus example ''SERVING''))
      (ret bound)))))))))"

text \<open>The life of the app, \<open>serving\<close> being what it does between its start and its end.\<close>

definition lifespan :: "settings \<Rightarrow> unit grpc_io \<Rightarrow> unit grpc_io" where
  "lifespan s serving =
     (if grpc_port s = 0 then serving
      else andthen (start_grpc_server (grpc_port s)) (andthen serving (grpc_does (StopServer 5))))"

text \<open>The health service says SERVING only once the server has started, and the server is stopped at the end.\<close>

lemma serving_after_start:
  "start_grpc_server port e w = (r, w') \<Longrightarrow> SetStatus svc ''SERVING'' \<in> set w' \<Longrightarrow> SetStatus svc ''SERVING'' \<notin> set w \<Longrightarrow>
    server_start e = Inr () \<and> r = bound_port e (''[::]:'' @ str_of_int port)"
  by (auto simp: start_grpc_server_def bind_def andthen_def ask_def modify_def grpc_does_def ret_def Let_def split: sum.splits prod.splits)

lemma stopped_at_the_end:
  "grpc_port s \<noteq> 0 \<Longrightarrow> lifespan s serving e w = (Inr (), w') \<Longrightarrow> last w' = StopServer 5"
  by (auto simp: lifespan_def andthen_def bind_def grpc_does_def modify_def split: sum.splits prod.splits)

lemma no_port_no_server: "grpc_port s = 0 \<Longrightarrow> lifespan s serving = serving"
  by (simp add: lifespan_def)

section \<open>Samples\<close>

definition sample_settings :: settings where
  "sample_settings = the (settings_of [(''APP_NAME'', ''mkt''), (''POSTGRES_PASSWORD'', ''pw''), (''AUTHENTIK_CLIENT_ID'', ''i''),
     (''AUTHENTIK_CLIENT_SECRET'', ''s'')])"

definition sample_app_env :: app_env where
  "sample_app_env = \<lparr>create_engine = (\<lambda>_. Inr ()), select_1 = (\<lambda>_. Inr ()), authorize_redirect = (\<lambda>_ d. (Inr ''https://sso'', d)),
     access_token = (\<lambda>_ d. (Inr [(''userinfo'', JStr ''bill'')], d)), framework_page = (\<lambda>_. (JNull, 404))\<rparr>"

lemma sample_database:
  "database_url sample_settings = Some ''postgresql+psycopg2://mkt:pw@postgres:5432/mkt''"
  "auth_configured sample_settings"
  by code_simp+

lemma not_public: "''/db-check'' \<notin> set public_paths"
  by (simp add: public_paths_def)

text \<open>A visitor without a cookie is sent to the login although another user has signed in.\<close>

theorem only_granted_users_witness:
  "granted (snd (serve sample_settings sample_app_env ''/auth/callback'' [] \<lparr>cookies = [], granted = []\<rparr>)) \<noteq> [] \<and>
   fst (serve sample_settings sample_app_env ''/db-check'' []
     (snd (serve sample_settings sample_app_env ''/auth/callback'' [] \<lparr>cookies = [], granted = []\<rparr>))) = Inr (Goto ''/login'')"
proof -
  let ?st = "snd (serve sample_settings sample_app_env ''/auth/callback'' [] \<lparr>cookies = [], granted = []\<rparr>)"
  have "oidc_entries sample_app_env"
    by (simp add: oidc_entries_def sample_app_env_def)
  then have "visited sample_settings ?st"
    using visited.Visit [OF visited.Begin] by simp
  moreover have "granted ?st \<noteq> []"
    by code_simp
  moreover have "refusal ''/db-check'' = Goto ''/login''"
    by code_simp
  ultimately show ?thesis
    using only_granted_users [OF _ sample_database(2), of ?st "''/db-check''" "[]" sample_app_env]
    by (metis (no_types, lifting) insertI1 jget_simps(1) truthy_simps(1) not_public)
qed

end
