(* ===== verification/WoodsCalendar.thy ===== *)
theory WoodsCalendar
  imports IsoDates Json IoMonad
begin

text \<open>
  \<open>scripts/fetch-woods-calendar.py\<close>: reads the public calendar of a campground and prints the next all-day events
  for the portal. The answer of the calendar, its events as the \<open>icalendar\<close> library reads them, and the clock are
  the environment; the addresses asked for and the printed text are the state.
\<close>

section \<open>Events\<close>

text \<open>A property of an event: absent, given once, as a day or a time of day, or repeated (then the library
  gives a list, which has no \<open>dt\<close>).\<close>

datatype stamp = AllDay date | Timed string

datatype ical_value = Absent | Once stamp | Repeated

record vevent =
  dtstart :: ical_value
  dtend :: ical_value
  title :: string

datatype script_exn = Unreachable string | Unreadable string | ScriptError string

definition dt_of :: "ical_value \<Rightarrow> script_exn + stamp" where
  "dt_of v = (case v of Once s \<Rightarrow> Inr s | _ \<Rightarrow> Inl (ScriptError ''AttributeError''))"

text \<open>\<open>dtend - timedelta(days=1)\<close>; the result of a time cannot be compared with a day.\<close>

definition last_day :: "stamp \<Rightarrow> script_exn + date" where
  "last_day s = (case s of
     AllDay d \<Rightarrow> (if d = Date 1 1 1 then Inl (ScriptError ''OverflowError'') else Inr (prev_day d))
   | Timed _ \<Rightarrow> Inl (ScriptError ''TypeError''))"

text \<open>What is printed of an event: its start, its last day and its name.\<close>

type_synonym shown = "string \<times> string \<times> string"

definition event_shown :: "date \<Rightarrow> vevent \<Rightarrow> script_exn + shown list" where
  "event_shown today v =
     bindR (dt_of (dtstart v)) (\<lambda>start.
     bindR (if dtend v = Absent then Inr start else dt_of (dtend v)) (\<lambda>stop.
     case start of
       Timed _ \<Rightarrow> Inr []
     | AllDay d \<Rightarrow>
         bindR (last_day stop) (\<lambda>l.
         if l < today then Inr [] else Inr [(isoformat d, isoformat l, strip (title v))])))"

definition max_shown :: nat where
  "max_shown = 8"

definition next_events :: "date \<Rightarrow> vevent list \<Rightarrow> script_exn + shown list" where
  "next_events today vs = bindR (mapR (event_shown today) vs) (\<lambda>es. Inr (take max_shown (sort_key fst (concat es))))"

section \<open>The script\<close>

definition calendar_url :: string where
  "calendar_url = ''https://calendar.google.com/calendar/ical/'' @
     ''5c33dbce79bde4078c4cbdf934cdf70f789d083b58cb21654bf3cc849aba9987%40group.calendar.google.com'' @ ''/public/basic.ics''"

definition script_agent :: string where
  "script_agent = ''billandjessie.com portal (bcalaway@gmail.com)''"

text \<open>\<open>json.dump\<close> with \<open>indent=2\<close>.\<close>

definition pad :: "nat \<Rightarrow> string" where
  "pad n = newline # replicate (2 * n) (CHR '' '')"

fun dump_indented :: "nat \<Rightarrow> json \<Rightarrow> string" where
  "dump_indented n (JList l) =
     (if l = [] then ''[]'' else ''['' @ pad (Suc n) @ join ('','' @ pad (Suc n)) (map (dump_indented (Suc n)) l) @ pad n @ '']'')"
| "dump_indented n (JObj d) =
     (if d = [] then ''{}''
      else ''{'' @ pad (Suc n) @ join ('','' @ pad (Suc n)) (map (\<lambda>(k, v). dumps_str k @ '': '' @ dump_indented (Suc n) v) d) @ pad n @ ''}'')"
| "dump_indented n j = dumps j"

definition event_json :: "shown \<Rightarrow> json" where
  "event_json = (\<lambda>(start, stop, name). JObj [(''start'', JStr start), (''end'', JStr stop), (''summary'', JStr name)])"

record script_env =
  fetch :: "string \<Rightarrow> string \<Rightarrow> script_exn + string"
  from_ical :: "string \<Rightarrow> script_exn + vevent list"
  date_today :: date
  utc_now :: string

record script_world =
  fetched :: "string list"
  printed :: string

definition fetch_calendar :: "(script_env, script_world, script_exn, unit) io" where
  "fetch_calendar =
     andthen (modify (\<lambda>w. w\<lparr>fetched := fetched w @ [calendar_url]\<rparr>))
     (bind (\<lambda>e w. (fetch e calendar_url script_agent, w)) (\<lambda>raw.
      bind (\<lambda>e w. (from_ical e raw, w)) (\<lambda>vs.
      bind (ask date_today) (\<lambda>today.
      bind (liftR (next_events today vs)) (\<lambda>es.
      bind (ask utc_now) (\<lambda>now.
      modify (\<lambda>w. w\<lparr>printed := printed w @
        dump_indented 0 (JObj [(''generatedAt'', JStr now), (''events'', JList (map event_json es))]) @ [newline]\<rparr>)))))))"

text \<open>Nothing is printed when the script fails, so that the portal keeps what it has.\<close>

lemma failed_prints_nothing: "fetch_calendar e w = (Inl x, w') \<Longrightarrow> printed w' = printed w"
  by (auto simp: fetch_calendar_def bind_def andthen_def modify_def ask_def liftR_def split: sum.splits)

section \<open>Which events are shown\<close>

text \<open>The specification: an all-day event is ahead while its end, the first day after it, is after today. The end is
  given, or it is the day after the start (RFC 5545).\<close>

definition start_day :: "vevent \<Rightarrow> date" where
  "start_day v = (case dtstart v of Once (AllDay d) \<Rightarrow> d | _ \<Rightarrow> Date 1 1 1)"

definition end_day :: "vevent \<Rightarrow> date" where
  "end_day v = (case dtend v of Once (AllDay d) \<Rightarrow> d | _ \<Rightarrow> next_day (start_day v))"

definition ahead :: "date \<Rightarrow> vevent \<Rightarrow> bool" where
  "ahead today v \<longleftrightarrow> (\<exists>d. dtstart v = Once (AllDay d)) \<and> today < end_day v"

definition entry :: "vevent \<Rightarrow> shown" where
  "entry v = (isoformat (start_day v), isoformat (prev_day (end_day v)), strip (title v))"

text \<open>An event as the calendar has it: a start, for an all-day event with an end that is a date, and dates after the
  year 1.\<close>

definition plain_event :: "vevent \<Rightarrow> bool" where
  "plain_event v \<longleftrightarrow>
     (\<exists>s. dtstart v = Once (Timed s) \<and> dtend v \<noteq> Repeated) \<or>
     (\<exists>d. dtstart v = Once (AllDay d) \<and> valid_date d \<and> 1 < year_of d \<and>
       (\<exists>e. dtend v = Once (AllDay e) \<and> valid_date e \<and> 1 < year_of e))"

lemma proper_valid: "valid_date d \<Longrightarrow> proper d"
  by (simp add: valid_date_def proper_def)

lemma prev_day_less_iff:
  assumes "proper d" and "1 < year_of d" and "proper t"
  shows "prev_day d < t \<longleftrightarrow> d \<le> t"
proof -
  have "toordinal d = Suc (toordinal (prev_day d))"
    using toordinal_next_day [of "prev_day d"] next_prev_day [OF assms(1,2)] by (simp add: proper_def)
  then show ?thesis
    using toordinal_less_iff [OF next_prev_day(2) [OF assms(1,2)] assms(3)] toordinal_less_iff [OF assms(3,1)] by auto
qed

lemma event_shown_plain:
  assumes "plain_event v" and "valid_date today"
  shows "event_shown today v = Inr (if ahead today v then [entry v] else [])"
proof -
  have "prev_day (end_day v) < today \<longleftrightarrow> \<not> today < end_day v" "end_day v \<noteq> Date 1 1 1" if "dtstart v = Once (AllDay d)" for d
    using assms that prev_day_less_iff [of "end_day v" today]
    by (auto simp: plain_event_def end_day_def start_day_def proper_valid not_less)
  then show ?thesis
    using assms(1)
    by (auto simp: plain_event_def event_shown_def dt_of_def bindR_def last_day_def ahead_def entry_def start_day_def end_day_def
      split: ical_value.splits stamp.splits)
qed

lemma insort_key_same_order:
  "(\<And>y. y \<in> set ys \<Longrightarrow> f x \<le> f y \<longleftrightarrow> g x \<le> g y) \<Longrightarrow> insort_key f x ys = insort_key g x ys"
  by (induction ys) auto

lemma sort_key_same_order:
  "(\<And>x y. x \<in> set xs \<Longrightarrow> y \<in> set xs \<Longrightarrow> f x \<le> f y \<longleftrightarrow> g x \<le> g y) \<Longrightarrow> sort_key f xs = sort_key g xs"
  by (induction xs) (auto intro!: insort_key_same_order)

lemma insort_key_map: "insort_key f (g x) (map g ys) = map g (insort_key (\<lambda>x. f (g x)) x ys)"
  by (induction ys) simp_all

lemma sort_key_map: "sort_key f (map g xs) = map g (sort_key (\<lambda>x. f (g x)) xs)"
  by (induction xs) (simp_all add: insort_key_map)

lemma mapR_shown:
  "list_all plain_event vs \<Longrightarrow> valid_date today \<Longrightarrow>
    \<exists>es. mapR (event_shown today) vs = Inr es \<and> concat es = map entry (filter (ahead today) vs)"
  by (induction vs) (auto simp: event_shown_plain bindR_def)

text \<open>C36: Of a calendar whose all-day events all have an end, the script prints the first eight all-day events that are
  ahead, in the order of their days, each with its last day: sorting the texts of the dates and comparing last days is the
  same as sorting the dates and comparing ends.\<close>

theorem next_events_ahead:
  assumes "list_all plain_event vs" and "valid_date today"
  shows "next_events today vs = Inr (map entry (take 8 (sort_key start_day (filter (ahead today) vs))))"
proof -
  obtain es where es: "mapR (event_shown today) vs = Inr es" "concat es = map entry (filter (ahead today) vs)"
    using mapR_shown [OF assms] by blast
  have "valid_date (start_day v)" if "v \<in> set (filter (ahead today) vs)" for v
    using that assms(1) by (auto simp: list_all_iff ahead_def start_day_def plain_event_def)
  then have "sort_key (\<lambda>v. fst (entry v)) (filter (ahead today) vs) = sort_key start_day (filter (ahead today) vs)"
    by (intro sort_key_same_order) (simp add: entry_def isoformat_le)
  then show ?thesis
    using es by (simp add: next_events_def bindR_def sort_key_map take_map max_shown_def)
qed

text \<open>An all-day event without an end lasts one day, but the script takes its start for its end: it is not shown on
  its day, on which it is ahead, and before that it is shown with a last day that is the day before it starts.\<close>

lemma one_day_event:
  assumes "dtstart v = Once (AllDay d)" and "dtend v = Absent" and "proper d" and "1 < year_of d"
  shows "ahead d v" and "event_shown d v = Inr []"
    and "today < d \<Longrightarrow> proper today \<Longrightarrow> event_shown today v = Inr [(isoformat d, isoformat (prev_day d), strip (title v))]"
proof -
  have first: "d \<noteq> Date 1 1 1" using assms(4) by auto
  note e = assms(1,2) event_shown_def dt_of_def bindR_def last_day_def
  show "ahead d v" using assms by (simp add: ahead_def end_day_def start_day_def next_day_greater)
  show "event_shown d v = Inr []"
    using prev_day_less [OF assms(3,4)] first by (simp add: e)
  show "event_shown today v = Inr [(isoformat d, isoformat (prev_day d), strip (title v))]" if "today < d" "proper today"
    using prev_day_less_iff [OF assms(3,4) that(2)] that(1) first by (simp add: e)
qed

definition sample_events :: "vevent list" where
  "sample_events =
    [\<lparr>dtstart = Once (AllDay (Date 2026 10 30)), dtend = Once (AllDay (Date 2026 11 2)), title = '' Halloween''\<rparr>,
     \<lparr>dtstart = Once (AllDay (Date 2026 10 9)), dtend = Once (AllDay (Date 2026 10 12)), title = ''Chili''\<rparr>,
     \<lparr>dtstart = Once (Timed ''2026-10-10 12:00''), dtend = Absent, title = ''Lunch''\<rparr>,
     \<lparr>dtstart = Once (AllDay (Date 2026 10 11)), dtend = Once (AllDay (Date 2026 10 12)), title = ''Hayride''\<rparr>]"

theorem next_events_ahead_witness:
  "next_events (Date 2026 10 11) sample_events =
     Inr [(''2026-10-09'', ''2026-10-11'', ''Chili''), (''2026-10-11'', ''2026-10-11'', ''Hayride''), (''2026-10-30'', ''2026-11-01'', ''Halloween'')]"
proof -
  have "list_all plain_event sample_events" "valid_date (Date 2026 10 11)"
    by (simp_all add: sample_events_def plain_event_def valid_date_def days_in_month_def)
  from next_events_ahead [OF this] have "next_events (Date 2026 10 11) sample_events =
    Inr (map entry (take 8 (sort_key start_day (filter (ahead (Date 2026 10 11)) sample_events))))" .
  also have "sort_key start_day (filter (ahead (Date 2026 10 11)) sample_events) =
      [sample_events ! 1, sample_events ! 3, sample_events ! 0]"
    by (simp add: sample_events_def ahead_def end_day_def start_day_def less_date_def less_eq_date_def)
  also have "map entry (take 8 [sample_events ! 1, sample_events ! 3, sample_events ! 0]) =
      [(''2026-10-09'', ''2026-10-11'', ''Chili''), (''2026-10-11'', ''2026-10-11'', ''Hayride''), (''2026-10-30'', ''2026-11-01'', ''Halloween'')]"
  proof -
    have d: "isoformat (Date 2026 10 9) = ''2026-10-09''" "isoformat (Date 2026 10 11) = ''2026-10-11''"
      "isoformat (Date 2026 10 30) = ''2026-10-30''" "isoformat (Date 2026 11 1) = ''2026-11-01''"
      by code_simp+
    have t: "strip '' Halloween'' = ''Halloween''" "strip ''Chili'' = ''Chili''" "strip ''Hayride'' = ''Hayride''"
      by code_simp+
    show ?thesis
      by (simp add: sample_events_def end_day_def start_day_def entry_def prev_day_def d d [simplified] t)
  qed
  finally show ?thesis .
qed

end
