(* ===== verification/UptimeMonitors.thy ===== *)
theory UptimeMonitors
  imports Http
begin

text \<open>
  \<open>scripts/setup-uptime-kuma.py\<close>: brings the monitors of Uptime Kuma in line with a list. The answers of the AWS
  command line and of the client library are the environment, by the number of the call; the calls made so far
  and the printed lines are the state.
\<close>

type_synonym monitor = "json dict"

definition http_monitor :: "string \<Rightarrow> string \<Rightarrow> monitor" where
  "http_monitor name url = [(''type'', JStr ''http''), (''name'', JStr name), (''url'', JStr url), (''interval'', JInt 60)]"

definition ping_monitor :: "string \<Rightarrow> string \<Rightarrow> monitor" where
  "ping_monitor name hostname = [(''type'', JStr ''ping''), (''name'', JStr name), (''hostname'', JStr hostname), (''interval'', JInt 60)]"

text \<open>Stop at the first answer, which may be a redirect.\<close>

definition first_answer :: monitor where
  "first_answer = [(''maxredirects'', JInt 0), (''accepted_statuscodes'', JList [JStr ''200-399''])]"

definition monitors :: "monitor list" where
  "monitors =
    [http_monitor ''Grafana'' ''http://grafana:3000/api/health'',
     http_monitor ''Prometheus'' ''http://prometheus:9090/-/healthy'',
     http_monitor ''Loki'' ''http://loki:3100/ready'',
     http_monitor ''cost-exporter'' ''http://cost-exporter:9199/metrics'',
     ping_monitor ''NYC WireGuard tunnel'' ''10.0.3.2'',
     ping_monitor ''Rambles WireGuard tunnel'' ''10.0.3.3'',
     http_monitor ''Grafana (public)'' ''https://grafana.billandjessie.com/api/health'',
     http_monitor ''Status page (public)'' ''https://status.billandjessie.com'' @ first_answer,
     http_monitor ''Portal (public)'' ''https://billandjessie.com'',
     http_monitor ''Market data UI (public)'' ''https://mkt.billandjessie.com'' @ first_answer,
     ping_monitor ''rt-nyc'' ''10.0.1.1'',
     ping_monitor ''rt-rambles'' ''10.0.2.1'',
     ping_monitor ''sw-main'' ''10.0.1.10'',
     ping_monitor ''sw-desk'' ''10.0.1.11'',
     ping_monitor ''sw-10g'' ''10.0.1.12'',
     ping_monitor ''nas2'' ''10.0.1.7'',
     ping_monitor ''hue-nyc (NYC AP proxy)'' ''10.0.1.71'',
     ping_monitor ''ZenWiFi AP (Rambles, main node)'' ''10.0.2.251'',
     ping_monitor ''ZenWiFi satellite (Rambles, .246)'' ''10.0.2.246'']"

definition update_existing :: "string list" where
  "update_existing = [''Status page (public)'']"

section \<open>The calls\<close>

text \<open>The value of a parameter of AWS is always a text.\<close>

datatype kuma_call =
    Command "string list"
  | OpenApi string
  | NeedSetup
  | Setup string string
  | Login string string
  | GetMonitors
  | EditMonitor json monitor
  | AddMonitor monitor
  | CloseApi

record kuma_env =
  api_answer :: "nat \<Rightarrow> kuma_call \<Rightarrow> py_exn + json"
  parse_output :: "json \<Rightarrow> json option"

record kuma_world =
  calls :: "kuma_call list"
  lines :: "string list"

type_synonym 'a kuma_io = "(kuma_env, kuma_world, py_exn, 'a) io"

definition call :: "kuma_call \<Rightarrow> json kuma_io" where
  "call c = (\<lambda>e w. (api_answer e (length (calls w)) c, w\<lparr>calls := calls w @ [c]\<rparr>))"

definition say :: "string \<Rightarrow> unit kuma_io" where
  "say l = modify (\<lambda>w. w\<lparr>lines := lines w @ [l]\<rparr>)"

definition ssm_command :: "string \<Rightarrow> bool \<Rightarrow> string list" where
  "ssm_command name decrypt =
     [''C:'' @ [CHR 0x5C] @ ''Program Files'' @ [CHR 0x5C] @ ''Amazon'' @ [CHR 0x5C] @ ''AWSCLIV2'' @ [CHR 0x5C] @ ''aws.exe'',
      ''ssm'', ''get-parameter'', ''--name'', name, ''--region'', ''us-east-1'', ''--output'', ''json''] @
     (if decrypt then [''--with-decryption''] else [])"

definition get_ssm_param :: "string \<Rightarrow> bool \<Rightarrow> string kuma_io" where
  "get_ssm_param name decrypt =
     bind (call (Command (ssm_command name decrypt))) (\<lambda>out.
     bind (\<lambda>e w. (case parse_output e out of None \<Rightarrow> Inl (PyError ''JSONDecodeError'') | Some j \<Rightarrow> Inr j, w)) (\<lambda>j.
     liftR (bindR (item_of ''Parameter'' j) (\<lambda>p. bindR (item_of ''Value'' p) (\<lambda>v.
       case v of JStr s \<Rightarrow> Inr s | _ \<Rightarrow> Inl (PyError ''TypeError''))))))"

text \<open>\<open>{m["name"]: m["id"] for m in api.get_monitors()}\<close>: of two monitors of the same name the later counts. A name that
  is no text is never looked up; a list or an object cannot be a key.\<close>

definition known_monitor :: "json \<Rightarrow> py_exn + json dict" where
  "known_monitor m = bindR (item_of ''name'' m) (\<lambda>n. bindR (item_of ''id'' m) (\<lambda>i.
     case n of
       JStr s \<Rightarrow> Inr [(s, i)]
     | JList _ \<Rightarrow> Inl (PyError ''TypeError'')
     | JObj _ \<Rightarrow> Inl (PyError ''TypeError'')
     | _ \<Rightarrow> Inr []))"

definition known_monitors :: "json \<Rightarrow> py_exn + json dict" where
  "known_monitors j = bindR (iter_of j) (\<lambda>ms. bindR (mapR known_monitor ms) (\<lambda>kvs.
     Inr (fold (\<lambda>(k, v). AList.update k v) (concat kvs) [])))"

definition name_of :: "monitor \<Rightarrow> string" where
  "name_of m = (case jget ''name'' m of JStr s \<Rightarrow> s | _ \<Rightarrow> [])"

definition put_monitor :: "json dict \<Rightarrow> monitor \<Rightarrow> unit kuma_io" where
  "put_monitor existing m =
     (case map_of existing (name_of m) of
        Some i \<Rightarrow>
          if name_of m \<in> set update_existing then
            andthen (say (''Updating: '' @ name_of m))
            (bind (call (EditMonitor i (filter (\<lambda>kv. fst kv \<noteq> ''type'') m))) (\<lambda>_. ret ()))
          else say (''Skipping (already exists): '' @ name_of m)
      | None \<Rightarrow>
          andthen (say (''Adding monitor: '' @ name_of m)) (bind (call (AddMonitor m)) (\<lambda>_. ret ())))"

fun put_monitors :: "json dict \<Rightarrow> monitor list \<Rightarrow> unit kuma_io" where
  "put_monitors existing [] = ret ()"
| "put_monitors existing (m # ms) = andthen (put_monitor existing m) (put_monitors existing ms)"

definition kuma_url :: string where
  "kuma_url = ''http://10.0.3.1:3001''"

definition with_api :: "string \<Rightarrow> unit kuma_io" where
  "with_api password =
     bind (call NeedSetup) (\<lambda>need.
     andthen (if truthy need
       then andthen (say ''Running first-time setup...'') (bind (call (Setup ''admin'' password)) (\<lambda>_. ret ())) else ret ())
     (bind (call (Login ''admin'' password)) (\<lambda>_.
      bind (call GetMonitors) (\<lambda>ms.
      bind (liftR (known_monitors ms)) (\<lambda>existing.
      put_monitors existing monitors)))))"

text \<open>The connection is closed however the block ends.\<close>

definition setup_kuma :: "unit kuma_io" where
  "setup_kuma =
     bind (get_ssm_param ''/home-platform/uptime-kuma/admin-password'' True) (\<lambda>password.
     bind (call (OpenApi kuma_url)) (\<lambda>_.
     bind (try_catch (with_api password) (\<lambda>x. bind (call CloseApi) (\<lambda>_. raise x))) (\<lambda>_.
     bind (call CloseApi) (\<lambda>_. ret ()))))"

section \<open>What a run does\<close>

definition adds :: "kuma_call list \<Rightarrow> monitor list" where
  "adds cs = concat (map (\<lambda>c. case c of AddMonitor m \<Rightarrow> [m] | _ \<Rightarrow> []) cs)"

definition edits :: "kuma_call list \<Rightarrow> (json \<times> monitor) list" where
  "edits cs = concat (map (\<lambda>c. case c of EditMonitor i m \<Rightarrow> [(i, m)] | _ \<Rightarrow> []) cs)"

lemma adds_simps [simp]:
  "adds [] = []" "adds (cs @ ds) = adds cs @ adds ds" "adds (c # cs) = (case c of AddMonitor m \<Rightarrow> [m] | _ \<Rightarrow> []) @ adds cs"
  "edits [] = []" "edits (cs @ ds) = edits cs @ edits ds" "edits (c # cs) = (case c of EditMonitor i m \<Rightarrow> [(i, m)] | _ \<Rightarrow> []) @ edits cs"
  by (simp_all add: adds_def edits_def)

lemmas kuma_run = bind_def andthen_def ret_def raise_def liftR_def modify_def try_catch_def call_def say_def

lemma ok_iff:
  "bind m f e w = (Inr b, w') \<longleftrightarrow> (\<exists>a w1. m e w = (Inr a, w1) \<and> f a e w1 = (Inr b, w'))"
  "andthen m n e w = (Inr b, w') \<longleftrightarrow> (\<exists>a w1. m e w = (Inr a, w1) \<and> n e w1 = (Inr b, w'))"
  "liftR r e w = (Inr b, w') \<longleftrightarrow> r = Inr b \<and> w' = w"
  "ret b' e w = (Inr b, w') \<longleftrightarrow> b' = b \<and> w' = w"
  "call c e w = (Inr j, w') \<longleftrightarrow> api_answer e (length (calls w)) c = Inr j \<and> w' = w\<lparr>calls := calls w @ [c]\<rparr>"
  "say l e w = (Inr u, w') \<longleftrightarrow> w' = w\<lparr>lines := lines w @ [l]\<rparr>"
  by (auto simp: bind_def andthen_def liftR_def ret_def call_def say_def modify_def split: prod.splits sum.splits)

lemma ok_cleanup: "try_catch m (\<lambda>x. bind n (\<lambda>_. raise x)) e w = (Inr b, w') \<longleftrightarrow> m e w = (Inr b, w')"
  by (auto simp: try_catch_def bind_def raise_def split: prod.splits sum.splits)

definition missing :: "json dict \<Rightarrow> monitor list \<Rightarrow> monitor list" where
  "missing existing ms = filter (\<lambda>m. map_of existing (name_of m) = None) ms"

text \<open>A part of a run that only adds and edits monitors.\<close>

definition only_puts :: "kuma_call list \<Rightarrow> bool" where
  "only_puts cs \<longleftrightarrow> list_all (\<lambda>c. (\<exists>m. c = AddMonitor m) \<or> (\<exists>i m. c = EditMonitor i m)) cs"

lemma put_monitor_ok:
  assumes "put_monitor existing m e w = (Inr (), w')"
  obtains cs where "calls w' = calls w @ cs" and "only_puts cs" and "adds cs = missing existing [m]"
    and "list_all (\<lambda>im. name_of (snd im) \<in> set update_existing) (edits cs)"
proof (cases "map_of existing (name_of m)")
  case None
  with assms that [of "[AddMonitor m]"] show ?thesis
    by (auto simp: put_monitor_def kuma_run missing_def only_puts_def split: sum.splits)
next
  case (Some i)
  let ?m = "filter (\<lambda>kv. fst kv \<noteq> ''type'') m"
  have "name_of ?m = name_of m"
    by (simp add: name_of_def jget_def get_or_def) (induction m; auto)
  with Some assms that [of "[EditMonitor i ?m]"] that [of "[]"] show ?thesis
    by (auto simp: put_monitor_def kuma_run missing_def only_puts_def split: sum.splits if_splits)
qed

lemma put_monitors_ok:
  assumes "put_monitors existing ms e w = (Inr (), w')"
  obtains cs where "calls w' = calls w @ cs" and "only_puts cs" and "adds cs = missing existing ms"
    and "list_all (\<lambda>im. name_of (snd im) \<in> set update_existing) (edits cs)"
  using assms
proof (induction ms arbitrary: w thesis)
  case Nil
  then show ?case by (auto simp: ret_def only_puts_def missing_def)
next
  case (Cons m ms)
  obtain w1 where w1: "put_monitor existing m e w = (Inr (), w1)" "put_monitors existing ms e w1 = (Inr (), w')"
    using Cons.prems(2) by (auto simp: andthen_def bind_def split: prod.splits sum.splits)
  obtain cs where cs: "calls w1 = calls w @ cs" "only_puts cs" "adds cs = missing existing [m]"
      "list_all (\<lambda>im. name_of (snd im) \<in> set update_existing) (edits cs)"
    by (rule put_monitor_ok [OF w1(1)])
  obtain ds where "calls w' = calls w1 @ ds" "only_puts ds" "adds ds = missing existing ms"
      "list_all (\<lambda>im. name_of (snd im) \<in> set update_existing) (edits ds)"
    using Cons.IH [OF _ w1(2)] by blast
  with cs show ?case
    by (intro Cons.prems(1) [of "cs @ ds"]) (auto simp: missing_def only_puts_def)
qed

text \<open>The names of the monitors that Uptime Kuma answered with in a run.\<close>

definition listed :: "kuma_env \<Rightarrow> kuma_call list \<Rightarrow> string set" where
  "listed e cs = {n. \<exists>i<length cs. cs ! i = GetMonitors \<and> (\<exists>j d. api_answer e i GetMonitors = Inr j \<and> known_monitors j = Inr d \<and>
     n \<in> set (keys d))}"

definition no_calls :: kuma_world where
  "no_calls = \<lparr>calls = [], lines = []\<rparr>"

lemma setup_kuma_ok:
  assumes "setup_kuma e no_calls = (Inr (), w')"
  obtains pre j existing cs where "calls w' = pre @ [GetMonitors] @ cs @ [CloseApi]" and "GetMonitors \<notin> set pre" and "adds pre = []" and "edits pre = []"
    and "api_answer e (length pre) GetMonitors = Inr j" and "known_monitors j = Inr existing"
    and "only_puts cs" and "adds cs = missing existing monitors"
    and "list_all (\<lambda>im. name_of (snd im) \<in> set update_existing) (edits cs)"
proof -
  let ?open = "\<lambda>w. w\<lparr>calls := calls w @ [OpenApi kuma_url]\<rparr>"
  obtain p w1 where p: "get_ssm_param ''/home-platform/uptime-kuma/admin-password'' True e no_calls = (Inr p, w1)"
      and w1: "\<exists>w2. with_api p e (?open w1) = (Inr (), w2) \<and> calls w' = calls w2 @ [CloseApi]"
  proof -
    from assms obtain p w1 where p: "get_ssm_param ''/home-platform/uptime-kuma/admin-password'' True e no_calls = (Inr p, w1)"
        "bind (call (OpenApi kuma_url)) (\<lambda>_.
         bind (try_catch (with_api p) (\<lambda>x. bind (call CloseApi) (\<lambda>_. raise x))) (\<lambda>_.
         bind (call CloseApi) (\<lambda>_. ret ()))) e w1 = (Inr (), w')"
      unfolding setup_kuma_def ok_iff(1) [of _ _ _ no_calls] by blast
    from p(2) have "\<exists>w2. with_api p e (?open w1) = (Inr (), w2) \<and> calls w' = calls w2 @ [CloseApi]"
      by (simp only: ok_iff ok_cleanup) auto
    with p(1) that show thesis by blast
  qed
  have c1: "calls w1 = [Command (ssm_command ''/home-platform/uptime-kuma/admin-password'' True)]"
    using p by (auto simp: get_ssm_param_def bind_def call_def liftR_def no_calls_def split: sum.splits option.splits)
  obtain w2 where w2: "with_api p e (w1\<lparr>calls := calls w1 @ [OpenApi kuma_url]\<rparr>) = (Inr (), w2)" "calls w' = calls w2 @ [CloseApi]"
    using w1 by blast
  let ?w = "w1\<lparr>calls := calls w1 @ [OpenApi kuma_url]\<rparr>"
  let ?rest = "bind (call (Login ''admin'' p)) (\<lambda>_. bind (call GetMonitors) (\<lambda>ms.
      bind (liftR (known_monitors ms)) (\<lambda>existing. put_monitors existing monitors)))"
  obtain need wa where wa: "calls wa = calls ?w @ [NeedSetup] @ (if truthy need then [Setup ''admin'' p] else [])"
      "?rest e wa = (Inr (), w2)"
  proof -
    obtain need wb where need: "call NeedSetup e ?w = (Inr need, wb)"
        "andthen (if truthy need
       then andthen (say ''Running first-time setup...'') (bind (call (Setup ''admin'' p)) (\<lambda>_. ret ())) else ret ()) ?rest e wb = (Inr (), w2)"
      using w2(1) unfolding with_api_def ok_iff(1) [of _ _ _ ?w] by blast
    then obtain u wc where wc: "(if truthy need
       then andthen (say ''Running first-time setup...'') (bind (call (Setup ''admin'' p)) (\<lambda>_. ret ())) else ret ()) e wb = (Inr u, wc)"
       "?rest e wc = (Inr (), w2)"
      unfolding ok_iff(2) [of _ _ _ wb] by blast
    have "calls wc = calls wb @ (if truthy need then [Setup ''admin'' p] else [])"
      using wc(1) by (cases "truthy need") (auto simp: ok_iff)
    with need(1) wc(2) that [of wc need] show thesis
      by (auto simp: ok_iff(5))
  qed
  let ?w3 = "wa\<lparr>calls := calls wa @ [Login ''admin'' p, GetMonitors]\<rparr>"
  from wa(2) obtain j existing where w3: "calls ?w3 = calls wa @ [Login ''admin'' p, GetMonitors]"
      "api_answer e (length (calls wa @ [Login ''admin'' p])) GetMonitors = Inr j" "known_monitors j = Inr existing"
      "put_monitors existing monitors e ?w3 = (Inr (), w2)"
    by (auto simp: ok_iff)
  let ?pre = "calls wa @ [Login ''admin'' p]"
  obtain cs where "calls w2 = calls ?w3 @ cs" "only_puts cs" "adds cs = missing existing monitors"
      "list_all (\<lambda>im. name_of (snd im) \<in> set update_existing) (edits cs)"
    by (rule put_monitors_ok [OF w3(4)])
  moreover have "GetMonitors \<notin> set ?pre" "adds ?pre = []" "edits ?pre = []"
    using wa(1) c1 by auto
  ultimately show thesis
    using w2(2) w3 that [of ?pre cs j existing] by simp
qed

text \<open>The names of the list are distinct, so that no monitor is added twice in one run.\<close>

lemma names_distinct: "distinct (map name_of monitors)"
  by (simp add: monitors_def http_monitor_def ping_monitor_def first_answer_def name_of_def)

lemma listed_run:
  assumes "GetMonitors \<notin> set pre" and "only_puts cs" and "api_answer e (length pre) GetMonitors = Inr j" and "known_monitors j = Inr existing"
  shows "listed e (pre @ [GetMonitors] @ cs @ [CloseApi]) = set (keys existing)"
proof -
  have "GetMonitors \<notin> set cs"
    using assms(2) by (auto simp: only_puts_def list_all_iff)
  then have "(pre @ [GetMonitors] @ cs @ [CloseApi]) ! i = GetMonitors \<longleftrightarrow> i = length pre"
    if "i < length (pre @ [GetMonitors] @ cs @ [CloseApi])" for i
    using that assms(1) by (auto simp: nth_append nth_Cons' in_set_conv_nth split: if_splits)
  with assms(3,4) show ?thesis
    unfolding listed_def by (auto intro!: exI [of _ "length pre"])
qed

text \<open>C37: The script can be run again: a run that ends without an error leaves every monitor of the list in Uptime Kuma,
  with one addition for each that was missing. If Uptime Kuma still lists what it listed or was given, a second run
  adds nothing and edits only the monitors that are marked as changed.\<close>

theorem second_run_adds_nothing:
  assumes "setup_kuma e no_calls = (Inr (), w)" and "setup_kuma e' no_calls = (Inr (), w')"
    and "listed e (calls w) \<union> name_of ` set (adds (calls w)) \<subseteq> listed e' (calls w')"
  shows "adds (calls w) = filter (\<lambda>m. name_of m \<notin> listed e (calls w)) monitors \<and> distinct (map name_of (adds (calls w))) \<and>
    adds (calls w') = [] \<and> (\<forall>im\<in>set (edits (calls w')). name_of (snd im) \<in> set update_existing)"
proof -
  obtain pre j existing cs where r: "calls w = pre @ [GetMonitors] @ cs @ [CloseApi]" "GetMonitors \<notin> set pre" "adds pre = []"
      "api_answer e (length pre) GetMonitors = Inr j" "known_monitors j = Inr existing" "only_puts cs" "adds cs = missing existing monitors"
    by (rule setup_kuma_ok [OF assms(1)])
  obtain pre' j' existing' cs' where r': "calls w' = pre' @ [GetMonitors] @ cs' @ [CloseApi]" "GetMonitors \<notin> set pre'" "adds pre' = []"
      "edits pre' = []" "api_answer e' (length pre') GetMonitors = Inr j'" "known_monitors j' = Inr existing'" "only_puts cs'"
      "adds cs' = missing existing' monitors" "list_all (\<lambda>im. name_of (snd im) \<in> set update_existing) (edits cs')"
    by (rule setup_kuma_ok [OF assms(2)])
  have l: "listed e (calls w) = set (keys existing)" "listed e' (calls w') = set (keys existing')"
    using listed_run r r' by metis+
  have a: "adds (calls w) = filter (\<lambda>m. name_of m \<notin> listed e (calls w)) monitors" "adds (calls w') = missing existing' monitors"
    using r(1,3,7) r'(1,3,8) unfolding l by (simp_all add: missing_def map_of_eq_None_iff)
  then have "name_of m \<in> listed e' (calls w')" if "m \<in> set monitors" for m
    using that assms(3) by auto
  then have "adds (calls w') = []"
    using a(2) unfolding l by (auto simp: missing_def filter_empty_conv map_of_eq_None_iff)
  then show ?thesis
    using a(1) names_distinct r'(1,4,9) by (simp add: distinct_map_filter list_all_iff)
qed

section \<open>Samples\<close>

text \<open>A new Uptime Kuma, and one that has the whole list.\<close>

definition sample_kuma :: "json list \<Rightarrow> kuma_env" where
  "sample_kuma ms = \<lparr>api_answer = (\<lambda>_ c. Inr (case c of GetMonitors \<Rightarrow> JList ms | _ \<Rightarrow> JNull)),
     parse_output = (\<lambda>_. Some (JObj [(''Parameter'', JObj [(''Value'', JStr ''pw'')])]))\<rparr>"

lemma sample_put: "\<exists>w'. put_monitors d ms (sample_kuma js) w = (Inr (), w')"
  by (induction ms arbitrary: w) (auto simp: ok_iff sample_kuma_def put_monitor_def ret_def split: option.split)

lemma sample_setup: "known_monitors (JList js) = Inr d \<Longrightarrow> \<exists>w'. setup_kuma (sample_kuma js) no_calls = (Inr (), w')"
  using sample_put [of d monitors js]
  by (auto simp: setup_kuma_def with_api_def ok_iff ok_cleanup get_ssm_param_def sample_kuma_def item_of_def bindR_def)

lemma sample_listed:
  assumes "setup_kuma (sample_kuma js) no_calls = (Inr (), w)" and "known_monitors (JList js) = Inr d"
  shows "listed (sample_kuma js) (calls w) = set (keys d)"
proof -
  obtain pre j existing cs where r: "calls w = pre @ [GetMonitors] @ cs @ [CloseApi]" "GetMonitors \<notin> set pre"
      "api_answer (sample_kuma js) (length pre) GetMonitors = Inr j" "known_monitors j = Inr existing" "only_puts cs"
    by (rule setup_kuma_ok [OF assms(1)])
  then have "existing = d"
    using assms(2) by (simp add: sample_kuma_def)
  then show ?thesis
    unfolding r(1) using listed_run [OF r(2,5,3,4)] by simp
qed

definition all_stored :: "json list" where
  "all_stored = map (\<lambda>m. JObj ((''id'', JInt 1) # m)) monitors"

lemma all_stored_known: "\<exists>d. known_monitors (JList all_stored) = Inr d \<and> set (keys d) = name_of ` set monitors"
proof -
  have "list_all (\<lambda>m. \<exists>s. map_of m ''name'' = Some (JStr s)) monitors"
    by (simp add: monitors_def http_monitor_def ping_monitor_def first_answer_def)
  then have "mapR known_monitor (map (\<lambda>m. JObj ((''id'', JInt 1) # m)) ms) = Inr (map (\<lambda>m. [(name_of m, JInt 1)]) ms)"
    if "set ms \<subseteq> set monitors" for ms
    using that by (induction ms) (auto simp: list_all_iff known_monitor_def item_of_def bindR_def name_of_def jget_def get_or_def)
  from this [OF order_refl] show ?thesis
    using keys_fold_update [of "concat (map (\<lambda>m. [(name_of m, JInt 1)]) monitors)" "[]"]
    by (simp add: known_monitors_def iter_of_def bindR_def all_stored_def image_image)
qed

theorem second_run_adds_nothing_witness:
  "\<exists>w w'. setup_kuma (sample_kuma []) no_calls = (Inr (), w) \<and> setup_kuma (sample_kuma all_stored) no_calls = (Inr (), w') \<and>
     adds (calls w) = monitors \<and> adds (calls w') = []"
proof -
  have e: "known_monitors (JList []) = Inr []"
    by (simp add: known_monitors_def iter_of_def bindR_def)
  obtain d where d: "known_monitors (JList all_stored) = Inr d" "set (keys d) = name_of ` set monitors"
    using all_stored_known by blast
  obtain w w' where w: "setup_kuma (sample_kuma []) no_calls = (Inr (), w)" "setup_kuma (sample_kuma all_stored) no_calls = (Inr (), w')"
    using sample_setup [OF e] sample_setup [OF d(1)] by blast
  obtain pre j existing cs where r: "calls w = pre @ [GetMonitors] @ cs @ [CloseApi]" "adds pre = []"
      "api_answer (sample_kuma []) (length pre) GetMonitors = Inr j" "known_monitors j = Inr existing" "adds cs = missing existing monitors"
    by (rule setup_kuma_ok [OF w(1)])
  then have "existing = []"
    using e by (simp add: sample_kuma_def)
  with r have a: "adds (calls w) = monitors"
    by (simp add: missing_def)
  show ?thesis
    using w a second_run_adds_nothing [OF w] sample_listed [OF w(1) e] sample_listed [OF w(2) d(1)] d(2) by auto
qed

end
