(* ===== verification/Spec2Isabelle.thy ===== *)
theory Spec2Isabelle
  imports VoiceProtocol VoiceLifecycle UpdateReport GithubStatus DeployReport VoiceJobs AirflowApi
    PreviewCompose DagArchive MemLimits RouterApply TankExporter WeatherExporter CostExporter RachioExporter
    ExposureReport ContainerLogs ContextDocs AuditLog SecurityEvents SecuritySummary
    PlatformStatus HubView AirflowView PromQuery GrafanaAlerts AppJobs ServerReads ExporterMetrics
    AppTemplate WoodsCalendar UptimeMonitors
begin

text \<open>
  A model of the Python programs of a home platform: an AWS hub that runs an MCP server for voice
  use, build servers at two sites, routers, exporters and the scripts that deploy them. Each
  theory models one module; its opening text names the file under \<open>src/\<close>.

  \<^bold>\<open>How the parts interact.\<close> The MCP server (\<open>compose/aws/home-mcp\<close>) is called by a voice assistant.
  It checks the caller's token (\<open>Auth\<close>), logs every call (\<open>AuditLog\<close>) and runs one of a fixed set of
  tools: it starts coding tasks on the worker over SSH (\<open>VoiceTasks\<close>, answered there by
  \<open>VoiceDispatch\<close>; the task is then run by \<open>VoiceRunner\<close>, whose token check is
  \<open>VoiceHealth\<close>; \<open>VoiceProtocol\<close> interleaves connections, token checks, the writes of a task and restarts; \<open>VoiceEndToEnd\<close> puts the two programs
  together over the JSON line between them, and \<open>VoiceLifecycle\<close> follows a task from the request to the spoken answer
  about its pull request), starts
  named jobs and Airflow DAGs (\<open>VoiceJobs\<close>, \<open>AirflowApi\<close>), and reads: the state of GitHub and of the
  last deploys (\<open>GithubStatus\<close>, \<open>DeployReport\<close>), what is out of date (\<open>ImageTags\<close>, \<open>UpdateChecks\<close>,
  \<open>UpdateReport\<close>), container logs (\<open>Redact\<close>, \<open>ContainerLogs\<close>), a week of security events
  (\<open>SecurityEvents\<close>), the accounts' sign-ins (\<open>AuthentikAudit\<close>), what GitHub and AWS leave open
  (\<open>GithubSecurity\<close>, \<open>AwsPosture\<close>), the last port scan (\<open>ExposureReport\<close>), all of these at once
  (\<open>SecuritySummary\<close>), the state of the platform, its containers, alerts and DAGs (\<open>PlatformStatus\<close>,
  \<open>HubView\<close>, \<open>GrafanaAlerts\<close>, \<open>AirflowView\<close>), the answer to any PromQL query (\<open>PromQuery\<close>), the
  project's documents (\<open>ContextDocs\<close>), and the market data platform: its captures, checks and calendars
  (\<open>MktData\<close>), yields and curves (\<open>MktYields\<close>), Treasury securities and auctions (\<open>MktSecurities\<close>), futures,
  positioning and fixings (\<open>MktFutures\<close>, all of them run by \<open>MktTools\<close>). \<open>McpServer\<close> puts the tools together on the
  one state of the server, and \<open>ServerReads\<close> follows what each of them can send. The DAGs call the job
  interface of the apps (\<open>AppJobs\<close>). New apps start from a template, with routes behind a login check and a gRPC server (\<open>AppTemplate\<close>). On the hub, scripts scan the public addresses (\<open>ExposureScan\<close>), rewrite the Compose
  fragment of a pull request's preview (\<open>PreviewCompose\<close>), check memory limits (\<open>MemLimits\<close>) and unpack
  an app's DAGs (\<open>DagArchive\<close>); \<open>RouterApply\<close> brings a configuration to a router; two scripts fill the portal's calendar (\<open>WoodsCalendar\<close>) and
  the list of uptime monitors (\<open>UptimeMonitors\<close>). Exporters turn sensors
  and accounts into gauges (\<open>TankExporter\<close>, \<open>WeatherExporter\<close>, \<open>CostExporter\<close>, \<open>RachioExporter\<close>; the metrics they declare are in \<open>ExporterMetrics\<close>).

  \<^bold>\<open>Layers.\<close> \<open>Prelude\<close> has Python's string, list and dictionary operations with their lemmas, \<open>Regex\<close> regular
  expressions by derivatives with the language they match, \<open>Matchers\<close> matching with groups and backtracking in
  the order of Python's \<open>re\<close> (used by \<open>Redact\<close> and the market data tools), \<open>Json\<close> the values of \<open>json.loads\<close> with
  \<open>repr\<close>, \<open>str\<close> and \<open>dumps\<close>, \<open>JsonText\<close> \<open>json.loads\<close> as a parser, which reads back every value that \<open>dumps\<close> can print and
  reads no object that is cut short (where the text comes from a third party, its reading is in the environment instead), \<open>PyNum\<close> and \<open>PyConv\<close> the numbers and their conversions, \<open>Decimals\<close> the arithmetic of
  \<open>decimal\<close> with its 28 digits and half-even rounding, \<open>Calendar\<close>, \<open>PastDays\<close>, \<open>IsoDates\<close> and \<open>Moment\<close> dates and times, \<open>IoMonad\<close> the effects, \<open>Http\<close> the requests of a service (with \<open>reading\<close>, the interface under
  which a tool is proved to send reads only), \<open>PromApi\<close> the queries
  of Prometheus that several tools share and \<open>Gauges\<close> the
  registry of an exporter. \<open>TtlCache\<close> is the interface of the in-process caches: the laws of looking up
  after storing, from which the history of a cache is proved once. Every module's own cache is an
  instance (\<open>UpdateChecks\<close>, \<open>GithubStatus\<close>, \<open>VoiceJobs\<close>, \<open>AirflowApi\<close>, \<open>ContainerLogs\<close>, \<open>ContextDocs\<close>,
  \<open>DeployReport\<close>).

  \<^bold>\<open>State, effects and errors.\<close> A program is a function from an environment and a state to a result and a
  new state. The environment holds what the code reads from outside and does not decide: the
  answers of HTTP, SSH, subprocess and Bluetooth calls by the number of the call, files, clocks, parsed
  YAML and JSON. The state holds what the code keeps and what it has sent or done so far, so that
  theorems can speak of every request, command, file write and secret that a run used. A raised
  exception is the left side of a sum and keeps the changes made before it. Coroutines of one
  \<open>asyncio.gather\<close> run one after the other. Floats are exact rationals, except for the scores of
  \<open>ContextDocs\<close>, which are real numbers because they use a logarithm; characters are code points
  below 256. Where several programs or loops run at once, there is a step relation:
  the connections of \<open>TankExporter\<close>, whose loops go from await to await while the network moves in between, and in \<open>VoiceProtocol\<close> the forced command and the loop of the worker, where a task's
  status files are written one at a time. The browsers of \<open>AppTemplate\<close> are such a relation too: any of them may send any cookie
  that the app has signed.

  \<^bold>\<open>What the lemmas show.\<close> For the voice worker: which requests are accepted; that a task the hub says was
  started is in the queue, and that, when its run succeeds, the hub later answers with its pull request; that a failed task is
  spoken of without its name, and that a request longer than what the worker reads is refused; that every run ends in a final status, uses the token only after the
  check of the changed paths, and runs git only in the clone that the agent cannot touch, but for the two clones made before it starts; which paths
  that check misses; that requests and the loop do not disturb each other, so that the worker is one that runs its
  tasks at once, and that restarts in the middle of tasks can block it. For the server: who gets access; that each call leaves one line, from which the
  security report counts exactly as long as the arguments are plain values, and how a caller can hide from that count; that every tool of the server, whatever it is called
  with and whatever is answered, does no more than read, except for the three tools that may start one job, one
  DAG run or one coding task, each at most once in a call, and these start only what the registry, the list of DAGs or the list of
  repositories allows; that a query of the logs can never be widened by its
  arguments and looks for the given text alone; that reports always answer and say that all is well exactly when what they read says so;
  that documents are cut and searched without losing text; that the
  yield of a day is that of the newest bar even over the end of a year, that changes are exact, and that a coupon and a year
  name a security only if it is the one. For the scripts: that a preview is confined and
  rewriting is idempotent, that an archive is delivered whole or not at all, when a router
  configuration counts as applied, which events of a calendar are shown, and that setting up the monitors again adds nothing.
  For the app template: that no sequence of requests gets past the login without a user whom Authentik named. For the exporters: that a gauge says what the readings say, under
  every interleaving of the loops where there are several, where it stays wrong, and that every sample is one that was declared.

  \<^bold>\<open>Bounds and fuel.\<close> The walk over the Compose includes (\<open>UpdateChecks.crawl\<close>) has fuel; it is proved to end
  with a complete result once the fuel exceeds the number of start files and includes. \<open>re.sub\<close> in
  \<open>Redact\<close> has one step of fuel per character of the text. \<open>JsonText.json_value\<close> has two per character, which is proved to be
  enough (\<open>json_value_fuel\<close>). The audit reads at most \<open>max_event_pages\<close> pages and a yield
  looks at two years, as the code does; the limits of a decimal's exponent are left out. All other recursion is structural.
  The token of a task identifier is a 16-bit word, a Bluetooth address is a number below \<open>2 ^ 48\<close> read
  byte by byte.

  \<^bold>\<open>Not modelled.\<close> The registration of the tools and the web server, which are the library's; the
  Airflow heartbeat DAG, which only declares a task that returns a constant; the app template's table and its
  migrations, which are declarations for SQLAlchemy and Alembic; logging, except for the audit
  log; Terraform, Ansible, Compose and shell files. Python's unbounded concurrency within one
  process, time-outs and the cancellation of a coroutine are not modelled either.
\<close>

end
